(* ===== verification/Go_Prelude.thy ===== *)
theory Go_Prelude
  imports
    Main
    "HOL-Library.Finite_Map"
    "HOL-Library.List_Lexorder"
    "HOL-Library.Char_ord"
    "HOL-Library.Product_Lexorder"
begin

text \<open>
  What every component of MaxIO takes from the Go language and its standard library, and the
  lemmas the components share.

  \<^item> A Go \<open>string\<close> and a \<open>[]byte\<close> are both sequences of bytes, here \<open>char list\<close> (a HOL
    \<open>char\<close> is a byte); comparison is the lexicographic order on bytes.
  \<^item> A Go map is a finite map \<open>('k, 'v) fmap\<close>; a \<open>range\<close> over it visits its entries in
    ascending key order (Go leaves the order open; wherever the code sorts afterwards, and in every
    theorem here, the order does not matter).
  \<^item> \<open>time.Time\<close> is the number of nanoseconds since Go's zero time (1 January of year 1,
    UTC), so that \<open>IsZero\<close> is equality with 0; \<open>time.Duration\<close> is an \<open>int\<close> of nanoseconds.
  \<^item> \<open>strings.TrimSpace\<close> is modelled on bytes with the UTF-8 encodings of all code points that
    \<open>unicode.IsSpace\<close> accepts.
\<close>

named_theorems go_str \<open>facts about the modelled string operations\<close>
named_theorems go_map \<open>facts about finite maps and their ordered entries\<close>

type_synonym bytes = "char list"
type_synonym time = int
type_synonym duration = int

section \<open>Strings\<close>

definition has_prefix :: "string \<Rightarrow> string \<Rightarrow> bool" where
  "has_prefix s p \<longleftrightarrow> take (length p) s = p"

text \<open>The UTF-8 encodings of the code points for which \<open>unicode.IsSpace\<close> is true.\<close>

definition space_runes :: "string list" where
  "space_runes =
     map (\<lambda>c. [c]) [CHR 0x20, CHR 0x09, CHR 0x0A, CHR 0x0B, CHR 0x0C, CHR 0x0D]
     @ [[CHR 0xC2, CHR 0x85], [CHR 0xC2, CHR 0xA0], [CHR 0xE1, CHR 0x9A, CHR 0x80]]
     @ map (\<lambda>c. [CHR 0xE2, CHR 0x80, c])
         [CHR 0x80, CHR 0x81, CHR 0x82, CHR 0x83, CHR 0x84, CHR 0x85, CHR 0x86, CHR 0x87,
          CHR 0x88, CHR 0x89, CHR 0x8A, CHR 0xA8, CHR 0xA9, CHR 0xAF]
     @ [[CHR 0xE2, CHR 0x81, CHR 0x9F], [CHR 0xE3, CHR 0x80, CHR 0x80]]"

text \<open>Strip a non-empty sequence from the front as long as one of \<open>qs\<close> is there.\<close>

function strip_front :: "string list \<Rightarrow> string \<Rightarrow> string" where
  "strip_front qs s =
     (case find (\<lambda>q. q \<noteq> [] \<and> has_prefix s q) qs of
        None \<Rightarrow> s
      | Some q \<Rightarrow> strip_front qs (drop (length q) s))"
  by pat_completeness auto
termination
proof (relation "measure (\<lambda>(qs, s). length s)")
  fix qs s q
  assume "find (\<lambda>q. q \<noteq> [] \<and> has_prefix s q) qs = Some q"
  then have "q \<noteq> []" "has_prefix s q"
    by (auto simp: find_Some_iff)
  then have "s \<noteq> []" "0 < length q"
    by (auto simp: has_prefix_def)
  then show "((qs, drop (length q) s), qs, s) \<in> measure (\<lambda>(qs, s). length s)"
    by simp
qed simp

declare strip_front.simps [simp del]

definition trim_left :: "string \<Rightarrow> string" where
  "trim_left s = strip_front space_runes s"

definition trim_right :: "string \<Rightarrow> string" where
  "trim_right s = rev (strip_front (map rev space_runes) (rev s))"

definition trim_space :: "string \<Rightarrow> string" where
  "trim_space s = trim_right (trim_left s)"

text \<open>\<open>strings.Trim\<close> with a cutset of ASCII characters.\<close>

definition trim_chars :: "string \<Rightarrow> string \<Rightarrow> string" where
  "trim_chars cs s =
     rev (dropWhile (\<lambda>c. c \<in> set cs) (rev (dropWhile (\<lambda>c. c \<in> set cs) s)))"

definition lower_char :: "char \<Rightarrow> char" where
  "lower_char c = (if CHR ''A'' \<le> c \<and> c \<le> CHR ''Z'' then char_of (of_char c + (32 :: nat)) else c)"

text \<open>\<open>strings.ToLower\<close> on ASCII text; bytes above 127 are left as they are.\<close>

definition to_lower :: "string \<Rightarrow> string" where
  "to_lower = map lower_char"

text \<open>\<open>strings.Index\<close> for a single byte, and the two halves that \<open>strings.SplitN(s, sep, 2)\<close> and
  \<open>strings.Cut\<close> give.\<close>

fun cut_at :: "char \<Rightarrow> string \<Rightarrow> (string \<times> string) option" where
  "cut_at c [] = None"
| "cut_at c (x # xs) =
     (if x = c then Some ([], xs)
      else case cut_at c xs of None \<Rightarrow> None | Some (a, b) \<Rightarrow> Some (x # a, b))"

text \<open>\<open>strings.Split\<close> with a one-byte separator: never empty.\<close>

fun split_on :: "char \<Rightarrow> string \<Rightarrow> string list" where
  "split_on c [] = [[]]"
| "split_on c (x # xs) =
     (if x = c then [] # split_on c xs
      else case split_on c xs of [] \<Rightarrow> [[x]] | y # ys \<Rightarrow> (x # y) # ys)"

section \<open>Decimal numbers\<close>

definition digit_char :: "nat \<Rightarrow> char" where
  "digit_char d = char_of (48 + d)"

fun show_nat :: "nat \<Rightarrow> string" where
  "show_nat n = (if n < 10 then [digit_char n] else show_nat (n div 10) @ [digit_char (n mod 10)])"

declare show_nat.simps [simp del]

text \<open>\<open>strconv.FormatInt(n, 10)\<close>.\<close>

definition show_int :: "int \<Rightarrow> string" where
  "show_int n = (if n < 0 then CHR ''-'' # show_nat (nat (- n)) else show_nat (nat n))"

text \<open>\<open>fmt.Sprintf("%0wd", n)\<close> for a natural number.\<close>

definition zero_pad :: "nat \<Rightarrow> nat \<Rightarrow> string" where
  "zero_pad w n = (let s = show_nat n in replicate (w - length s) CHR ''0'' @ s)"

definition is_digit :: "char \<Rightarrow> bool" where
  "is_digit c \<longleftrightarrow> CHR ''0'' \<le> c \<and> c \<le> CHR ''9''"

definition digit_val :: "char \<Rightarrow> nat" where
  "digit_val c = of_char c - 48"

fun read_digits :: "nat \<Rightarrow> string \<Rightarrow> nat" where
  "read_digits acc [] = acc"
| "read_digits acc (c # cs) = read_digits (10 * acc + digit_val c) cs"

text \<open>\<open>strconv.ParseUint(s, 10, 64)\<close>; \<open>None\<close> is the error.\<close>

definition parse_uint64 :: "string \<Rightarrow> nat option" where
  "parse_uint64 s =
     (if s = [] \<or> \<not> list_all is_digit s then None
      else let n = read_digits 0 s in if n < 2 ^ 64 then Some n else None)"

text \<open>\<open>strconv.ParseInt(s, 10, 64)\<close>: an optional sign, at least one digit, within the range.\<close>

definition parse_int64 :: "string \<Rightarrow> int option" where
  "parse_int64 s =
     (let neg = (case s of [] \<Rightarrow> False | c # _ \<Rightarrow> c = CHR ''-'');
          ds = (case s of [] \<Rightarrow> [] | c # cs \<Rightarrow> if c = CHR ''-'' \<or> c = CHR ''+'' then cs else s)
      in if ds = [] \<or> \<not> list_all is_digit ds then None
         else let n = int (read_digits 0 ds);
                  v = (if neg then - n else n)
              in if - (2 ^ 63) \<le> v \<and> v < 2 ^ 63 then Some v else None)"

section \<open>Finite maps\<close>

text \<open>The entries of a map in ascending key order: what a \<open>range\<close> loop visits.\<close>

definition fm_keys :: "('k::linorder, 'v) fmap \<Rightarrow> 'k list" where
  "fm_keys m = sorted_list_of_fset (fmdom m)"

definition fm_entries :: "('k::linorder, 'v) fmap \<Rightarrow> ('k \<times> 'v) list" where
  "fm_entries m = map (\<lambda>k. (k, the (fmlookup m k))) (fm_keys m)"

definition fm_values :: "('k::linorder, 'v) fmap \<Rightarrow> 'v list" where
  "fm_values m = map snd (fm_entries m)"

text \<open>Removing every entry that satisfies a test: the loop \<open>for k := range m \<dots> delete(m, k)\<close>.\<close>

definition fm_remove_if :: "('v \<Rightarrow> bool) \<Rightarrow> ('k, 'v) fmap \<Rightarrow> ('k, 'v) fmap" where
  "fm_remove_if P m = fmfilter (\<lambda>k. case fmlookup m k of None \<Rightarrow> False | Some v \<Rightarrow> \<not> P v) m"

section \<open>Lemmas on strings\<close>

lemma has_prefix_Nil [simp]: "has_prefix s []"
  by (simp add: has_prefix_def)

lemma has_prefix_append [simp]: "has_prefix (p @ s) p"
  by (simp add: has_prefix_def)

lemma has_prefix_length: "has_prefix s p \<Longrightarrow> length p \<le> length s"
  by (metis has_prefix_def length_take min.cobounded1)

lemma has_prefix_conv: "has_prefix s p \<longleftrightarrow> (\<exists>t. s = p @ t)"
  by (metis append_eq_conv_conj append_take_drop_id has_prefix_def)

lemma strip_front_stop:
  "find (\<lambda>q. q \<noteq> [] \<and> has_prefix s q) qs = None \<Longrightarrow> strip_front qs s = s"
  by (simp add: strip_front.simps [of qs s])

lemma strip_front_step:
  "find (\<lambda>q. q \<noteq> [] \<and> has_prefix s q) qs = Some q \<Longrightarrow>
   strip_front qs s = strip_front qs (drop (length q) s)"
  by (simp add: strip_front.simps [of qs s])

lemma strip_front_fixed:
  "\<forall>q \<in> set qs. q \<noteq> [] \<longrightarrow> \<not> has_prefix s q \<Longrightarrow> strip_front qs s = s"
  by (rule strip_front_stop) (auto simp: find_None_iff)

lemma strip_front_no_prefix:
  "q \<in> set qs \<Longrightarrow> q \<noteq> [] \<Longrightarrow> \<not> has_prefix (strip_front qs s) q"
proof (induction qs s rule: strip_front.induct)
  case (1 qs s)
  show ?case
  proof (cases "find (\<lambda>q. q \<noteq> [] \<and> has_prefix s q) qs")
    case None
    moreover from None have "\<not> has_prefix s q"
      using "1.prems" by (auto simp: find_None_iff)
    ultimately show ?thesis
      by (simp add: strip_front_stop)
  next
    case (Some r)
    with "1.IH" "1.prems" show ?thesis
      by (simp add: strip_front_step)
  qed
qed

lemma strip_front_suffix: "\<exists>p. s = p @ strip_front qs s"
proof (induction qs s rule: strip_front.induct)
  case (1 qs s)
  show ?case
  proof (cases "find (\<lambda>q. q \<noteq> [] \<and> has_prefix s q) qs")
    case None
    then show ?thesis by (simp add: strip_front_stop)
  next
    case (Some r)
    then obtain p where p: "drop (length r) s = p @ strip_front qs (drop (length r) s)"
      using "1.IH" by blast
    have "s = take (length r) s @ p @ strip_front qs (drop (length r) s)"
      by (simp flip: p)
    with Some show ?thesis
      by (metis append.assoc strip_front_step)
  qed
qed

lemma strip_front_Nil [simp]: "strip_front qs [] = []"
  using strip_front_suffix [of "[]" qs] by simp

lemma trim_space_Nil [simp, go_str]: "trim_space [] = []"
  by (simp add: trim_space_def trim_left_def trim_right_def)

lemma trim_right_prefix: "\<exists>q. s = trim_right s @ q"
proof -
  obtain p where "rev s = p @ strip_front (map rev space_runes) (rev s)"
    using strip_front_suffix by blast
  then have "s = rev (strip_front (map rev space_runes) (rev s)) @ rev p"
    by (metis rev_append rev_rev_ident)
  then show ?thesis by (auto simp: trim_right_def)
qed

lemma trim_right_idem: "trim_right (trim_right s) = trim_right s"
  unfolding trim_right_def rev_rev_ident
  by (subst strip_front_fixed) (use strip_front_no_prefix in auto)

lemma trim_left_trim_space: "trim_left (trim_space s) = trim_space s"
  unfolding trim_left_def
proof (rule strip_front_fixed, intro ballI impI notI)
  fix q assume q: "q \<in> set space_runes" "q \<noteq> []" and p: "has_prefix (trim_space s) q"
  obtain r where "trim_left s = trim_space s @ r"
    using trim_right_prefix by (metis trim_space_def)
  with p have "has_prefix (trim_left s) q"
    by (auto simp: has_prefix_conv)
  with q show False
    by (simp add: trim_left_def strip_front_no_prefix)
qed

text \<open>Trimming twice is trimming once: a normalised name stays normalised.\<close>

lemma trim_space_idem [simp, go_str]: "trim_space (trim_space s) = trim_space s"
proof -
  have "trim_space (trim_space s) = trim_right (trim_left (trim_space s))"
    by (rule trim_space_def)
  also have "\<dots> = trim_right (trim_space s)"
    by (simp only: trim_left_trim_space)
  also have "\<dots> = trim_space s"
    by (simp only: trim_space_def trim_right_idem)
  finally show ?thesis .
qed

text \<open>A printable ASCII character other than the space is never part of a space, so a string that
  starts and ends with one is already trimmed.\<close>

definition plain_char :: "char \<Rightarrow> bool" where
  "plain_char c \<longleftrightarrow> 32 < (of_char c :: nat) \<and> (of_char c :: nat) < 127"

lemma space_runes_not_plain:
  "q \<in> set space_runes \<Longrightarrow> q \<noteq> [] \<and> \<not> plain_char (hd q) \<and> \<not> plain_char (last q)"
  by (auto simp: space_runes_def plain_char_def)

lemma trim_space_plain:
  assumes "s \<noteq> []" "plain_char (hd s)" "plain_char (last s)"
  shows "trim_space s = s"
proof -
  have l: "trim_left s = s"
    unfolding trim_left_def
  proof (rule strip_front_fixed, intro ballI impI notI)
    fix q assume "q \<in> set space_runes" "has_prefix s q"
    with assms space_runes_not_plain [of q] show False
      by (auto simp: has_prefix_conv)
  qed
  have "strip_front (map rev space_runes) (rev s) = rev s"
  proof (rule strip_front_fixed, intro ballI impI notI)
    fix q assume "q \<in> set (map rev space_runes)" "has_prefix (rev s) q"
    then obtain r t where "r \<in> set space_runes" "rev s = rev r @ t"
      by (auto simp: has_prefix_conv)
    then have "s = rev t @ r"
      by (metis rev_append rev_rev_ident)
    with assms space_runes_not_plain [OF \<open>r \<in> set space_runes\<close>] show False
      by simp
  qed
  then show ?thesis
    by (simp add: trim_space_def l trim_right_def)
qed

text \<open>For evaluation: text that starts and ends with a printable ASCII character is not touched.\<close>

lemma plain_char_code [code]:
  "plain_char (Char b0 b1 b2 b3 b4 b5 b6 b7) \<longleftrightarrow>
     \<not> b7 \<and> (b6 \<or> b5 \<and> (b0 \<or> b1 \<or> b2 \<or> b3 \<or> b4)) \<and> \<not> (b6 \<and> b5 \<and> b4 \<and> b3 \<and> b2 \<and> b1 \<and> b0)"
  by (cases b0; cases b1; cases b2; cases b3; cases b4; cases b5; cases b6; cases b7)
     (simp_all add: plain_char_def)

lemma trim_space_code [code]:
  "trim_space s =
     (if s = [] then []
      else if plain_char (hd s) \<and> plain_char (last s) then s
      else trim_right (trim_left s))"
  using trim_space_plain [of s] by (cases "s = []") (simp_all, simp add: trim_space_def)

lemma split_on_nonempty [simp]: "split_on c s \<noteq> []"
  by (induction s) (auto split: list.splits)

lemma split_on_absent: "c \<notin> set s \<Longrightarrow> split_on c s = [s]"
  by (induction s) auto

lemma cut_at_None [simp]: "cut_at c s = None \<longleftrightarrow> c \<notin> set s"
  by (induction s) (auto split: option.splits)

lemma cut_at_Some: "cut_at c s = Some (a, b) \<Longrightarrow> s = a @ c # b \<and> c \<notin> set a"
proof (induction s arbitrary: a)
  case Nil
  then show ?case by simp
next
  case (Cons x s)
  show ?case
  proof (cases "x = c")
    case True
    with Cons.prems show ?thesis by simp
  next
    case False
    then obtain a' where "cut_at c s = Some (a', b)" "a = x # a'"
      using Cons.prems by (auto split: option.splits)
    with Cons.IH False show ?thesis by simp
  qed
qed

lemma cut_at_append: "c \<notin> set a \<Longrightarrow> cut_at c (a @ c # b) = Some (a, b)"
  by (induction a) auto

section \<open>Lemmas on decimal numbers\<close>

lemma of_char_digit_char: "d < 10 \<Longrightarrow> of_char (digit_char d) = 48 + d"
proof -
  assume "d < 10"
  then have "(48 + d) mod 256 = 48 + d"
    by (intro mod_less) linarith
  then show ?thesis
    by (simp only: digit_char_def of_char_of)
qed

lemma digit_val_digit_char: "d < 10 \<Longrightarrow> digit_val (digit_char d) = d"
  by (simp add: digit_val_def of_char_digit_char)

lemma is_digit_digit_char: "d < 10 \<Longrightarrow> is_digit (digit_char d)"
  by (simp add: is_digit_def less_eq_char_def of_char_digit_char)

lemma show_nat_nonempty [simp]: "show_nat n \<noteq> []"
  by (subst show_nat.simps) simp

lemma show_nat_digits: "list_all is_digit (show_nat n)"
proof (induction n rule: show_nat.induct)
  case (1 n)
  then show ?case
    by (subst show_nat.simps) (auto simp: is_digit_digit_char)
qed

lemma read_digits_append: "read_digits a (xs @ ys) = read_digits (read_digits a xs) ys"
  by (induction xs arbitrary: a) auto

lemma read_digits_show_nat [simp]: "read_digits 0 (show_nat n) = n"
proof (induction n rule: show_nat.induct)
  case (1 n)
  then show ?case
    by (subst show_nat.simps) (auto simp: read_digits_append digit_val_digit_char)
qed

lemma read_digits_zeros [simp]: "read_digits 0 (replicate k CHR ''0'' @ s) = read_digits 0 s"
  by (induction k) (auto simp: digit_val_def)

lemma read_digits_zero_pad [simp]: "read_digits 0 (zero_pad w n) = n"
  by (simp add: zero_pad_def Let_def)

lemma zero_pad_inject [simp]: "zero_pad w m = zero_pad w n \<longleftrightarrow> m = n"
  using read_digits_zero_pad [of w m] read_digits_zero_pad [of w n] by metis

lemma not_digit_sign: "\<not> is_digit CHR ''-''" "\<not> is_digit CHR ''+''" "\<not> is_digit CHR '' ''"
  by (simp_all add: is_digit_def less_eq_char_def)

lemma show_nat_no_sign: "\<not> is_digit c \<Longrightarrow> c \<notin> set (show_nat n)"
  using show_nat_digits by (auto simp: list_all_iff)

lemma plain_digit: "is_digit c \<Longrightarrow> plain_char c"
  by (simp add: is_digit_def plain_char_def less_eq_char_def)

lemma plain_show_nat: "plain_char (hd (show_nat n))" "plain_char (last (show_nat n))"
  using show_nat_digits [of n] hd_in_set [of "show_nat n"] last_in_set [of "show_nat n"]
  by (auto simp: list_all_iff intro: plain_digit)

lemma trim_show_nat [simp, go_str]: "trim_space (show_nat n) = show_nat n"
  by (simp add: trim_space_plain plain_show_nat)

lemma parse_int64_show_nat:
  assumes "int n < 2 ^ 63"
  shows "parse_int64 (show_nat n) = Some (int n)"
proof (cases "show_nat n")
  case Nil
  then show ?thesis by simp
next
  case (Cons c cs)
  then have c: "is_digit c" "list_all is_digit (show_nat n)"
    using show_nat_digits [of n] by auto
  then have "c \<noteq> CHR ''-''" "c \<noteq> CHR ''+''"
    using not_digit_sign by auto
  moreover have "read_digits 0 (c # cs) = n"
    by (simp flip: Cons)
  ultimately show ?thesis
    using assms c by (simp add: parse_int64_def Cons)
qed

section \<open>Lemmas on finite maps\<close>

lemma set_fm_keys [simp, go_map]: "set (fm_keys m) = fset (fmdom m)"
  by (simp add: fm_keys_def)

lemma distinct_fm_keys [simp, go_map]: "distinct (fm_keys m)"
  by (simp add: fm_keys_def sorted_list_of_fset.rep_eq)

lemma sorted_fm_keys [simp, go_map]: "sorted (fm_keys m)"
  by (simp add: fm_keys_def sorted_list_of_fset.rep_eq)

lemma fm_entries_iff [simp, go_map]: "(k, v) \<in> set (fm_entries m) \<longleftrightarrow> fmlookup m k = Some v"
  by (auto simp: fm_entries_def fmlookup_dom_iff intro!: image_eqI [where x = k])

lemma fm_values_iff [go_map]: "v \<in> set (fm_values m) \<longleftrightarrow> (\<exists>k. fmlookup m k = Some v)"
  by (force simp: fm_values_def simp flip: fm_entries_iff)

lemma fmlookup_remove_if [simp, go_map]:
  "fmlookup (fm_remove_if P m) k =
     (case fmlookup m k of None \<Rightarrow> None | Some v \<Rightarrow> if P v then None else Some v)"
  by (auto simp: fm_remove_if_def split: option.splits)

text \<open>Sorting by a key that tells the elements apart depends only on the set of elements.\<close>

lemma sort_key_unique:
  assumes "set xs = set ys" "distinct (map f xs)" "distinct (map f ys)"
  shows "sort_key f xs = sort_key f ys"
proof (rule map_inj_on)
  have "set (map f (sort_key f xs)) = set (map f (sort_key f ys))"
    using assms(1) by simp
  then show "map f (sort_key f xs) = map f (sort_key f ys)"
    by (intro sorted_distinct_set_unique) (use assms in \<open>simp_all add: distinct_map\<close>)
  show "inj_on f (set (sort_key f xs) \<union> set (sort_key f ys))"
    using assms by (simp add: distinct_map)
qed

lemma fmdrop_absent [simp, go_map]: "fmlookup m k = None \<Longrightarrow> fmdrop k m = m"
  by (intro fmap_ext) auto

end
