(* ===== verification/Bytes_Range.thy ===== *)
theory Bytes_Range
  imports Go_Prelude
begin

text \<open>
  HTTP byte ranges: \<open>internal/bytesrange/range.go\<close> and the response that
  \<open>internal/s3/range.go\<close> builds from a parsed range. \<open>Parse\<close> turns a \<open>Range\<close> header and an
  object sz into a \<open>Spec\<close>; \<open>Slice\<close> cuts the object's bytes. A Go slice expression out of range
  panics: \<open>Slice\<close> returns \<open>None\<close> there, and the lemmas show that no parsed range gets there.
\<close>

record Spec =
  spec_start :: int
  spec_end :: int
  spec_size :: int
  spec_partial :: bool

datatype range_error =
    NegativeSize | EmptyObject | UnsupportedUnit | UnsupportedRangeSet
  | MissingSeparator | InvalidNumber | UnsatisfiedRange | EmptySuffix

section \<open>Parsing\<close>

definition Full :: "int \<Rightarrow> Spec" where
  "Full sz = \<lparr>spec_start = 0, spec_end = sz - 1, spec_size = sz, spec_partial = False\<rparr>"

definition parseNonNegative :: "string \<Rightarrow> range_error + int" where
  "parseNonNegative value =
     (case parse_int64 (trim_space value) of
        None \<Rightarrow> Inl InvalidNumber
      | Some number \<Rightarrow> if number < 0 then Inl InvalidNumber else Inr number)"

definition suffixBounds :: "string \<Rightarrow> int \<Rightarrow> range_error + (int \<times> int)" where
  "suffixBounds value sz =
     (case parseNonNegative value of
        Inl e \<Rightarrow> Inl e
      | Inr suffix \<Rightarrow>
          if suffix = 0 then Inl EmptySuffix
          else if suffix \<ge> sz then Inr (0, sz - 1)
          else Inr (sz - suffix, sz - 1))"

definition parseBounds :: "string \<Rightarrow> int \<Rightarrow> range_error + (int \<times> int)" where
  "parseBounds value sz =
     (case cut_at CHR ''-'' value of
        None \<Rightarrow> Inl MissingSeparator
      | Some (part0, part1) \<Rightarrow>
          if part0 = [] then suffixBounds part1 sz
          else (case parseNonNegative part0 of
             Inl e \<Rightarrow> Inl e
           | Inr start \<Rightarrow>
               (case (if part1 \<noteq> [] then parseNonNegative part1 else Inr (sz - 1)) of
                  Inl e \<Rightarrow> Inl e
                | Inr endp \<Rightarrow>
                    if start \<ge> sz \<or> endp < start then Inl UnsatisfiedRange
                    else Inr (start, min endp (sz - 1)))))"

definition Parse :: "string \<Rightarrow> int \<Rightarrow> range_error + Spec" where
  "Parse header sz =
     (if sz < 0 then Inl NegativeSize
      else let header = trim_space header in
        if header = [] then Inr (Full sz)
        else if sz = 0 then Inl EmptyObject
        else if \<not> has_prefix (to_lower header) ''bytes='' then Inl UnsupportedUnit
        else let value = trim_space (drop 6 header) in
          if value = [] \<or> CHR '','' \<in> set value then Inl UnsupportedRangeSet
          else (case parseBounds value sz of
             Inl e \<Rightarrow> Inl e
           | Inr (start, endp) \<Rightarrow>
               Inr \<lparr>spec_start = start, spec_end = endp, spec_size = sz, spec_partial = True\<rparr>))"

section \<open>Using a range\<close>

definition UnsatisfiedContentRange :: "int \<Rightarrow> string" where
  "UnsatisfiedContentRange sz = ''bytes */'' @ show_int sz"

definition ContentLength :: "Spec \<Rightarrow> int" where
  "ContentLength spec = (if spec_size spec = 0 then 0 else spec_end spec - spec_start spec + 1)"

definition ContentRange :: "Spec \<Rightarrow> string" where
  "ContentRange spec =
     ''bytes '' @ show_int (spec_start spec) @ ''-'' @ show_int (spec_end spec) @ ''/''
       @ show_int (spec_size spec)"

definition Slice :: "Spec \<Rightarrow> bytes \<Rightarrow> bytes option" where
  "Slice spec data =
     (if \<not> spec_partial spec then Some data
      else if spec_start spec \<ge> int (length data) then Some []
      else let endp = min (spec_end spec) (int (length data) - 1) in
        if 0 \<le> spec_start spec \<and> spec_start spec \<le> endp + 1
        then Some (take (nat (endp + 1 - spec_start spec)) (drop (nat (spec_start spec)) data))
        else None)"

text \<open>The response to a ranged GET: status, the two range headers and the body. Reading the stored
  body may fail (\<open>None\<close>); the outer \<open>option\<close> is \<open>None\<close> for a panic in \<open>Slice\<close>.\<close>

record ranged_response =
  resp_status :: nat
  resp_content_length :: "string option"
  resp_content_range :: "string option"
  resp_body :: bytes

definition writeRangedObject :: "string \<Rightarrow> int \<Rightarrow> bytes option \<Rightarrow> ranged_response option" where
  "writeRangedObject range_header meta_size body =
     (case Parse range_header meta_size of
        Inl e \<Rightarrow> Some \<lparr>resp_status = 416, resp_content_length = None,
                   resp_content_range = Some (UnsatisfiedContentRange meta_size), resp_body = []\<rparr>
      | Inr spec \<Rightarrow>
          (case body of
             None \<Rightarrow> Some \<lparr>resp_status = 500, resp_content_length = None,
                        resp_content_range = None, resp_body = []\<rparr>
           | Some data \<Rightarrow>
               (case Slice spec data of
                  None \<Rightarrow> None
                | Some out \<Rightarrow>
                    Some \<lparr>resp_status = (if spec_partial spec then 206 else 200),
                      resp_content_length = Some (show_int (ContentLength spec)),
                      resp_content_range =
                        (if spec_partial spec then Some (ContentRange spec) else None),
                      resp_body = out\<rparr>)))"

section \<open>Correctness of parsing\<close>

lemma parseNonNegative_bounds:
  "parseNonNegative s = Inr n \<Longrightarrow> 0 \<le> n \<and> n < 2 ^ 63"
  by (auto simp: parseNonNegative_def parse_int64_def Let_def split: option.splits if_splits)

lemma suffixBounds_bounds:
  "suffixBounds s sz = Inr (a, b) \<Longrightarrow> 0 < sz \<Longrightarrow> 0 \<le> a \<and> a \<le> b \<and> b = sz - 1"
  by (auto simp: suffixBounds_def dest: parseNonNegative_bounds split: sum.splits if_splits)

lemma parseBounds_bounds:
  assumes "parseBounds s sz = Inr (a, b)" "0 < sz"
  shows "0 \<le> a \<and> a \<le> b \<and> b < sz"
  using assms
  by (auto simp: parseBounds_def dest: parseNonNegative_bounds dest!: suffixBounds_bounds
      split: option.splits sum.splits if_splits)

lemma Parse_cases:
  assumes "Parse h sz = Inr spec"
  shows "(spec = Full sz \<and> 0 \<le> sz) \<or>
    (spec_partial spec \<and> 0 < sz \<and> spec_size spec = sz \<and> 0 \<le> spec_start spec \<and>
     spec_start spec \<le> spec_end spec \<and> spec_end spec < sz)"
  using assms
  by (auto simp: Parse_def Let_def dest!: parseBounds_bounds split: if_splits sum.splits)

lemma Slice_parsed:
  assumes "Parse h sz = Inr spec" "int (length data) = sz"
  shows "\<exists>out. Slice spec data = Some out \<and> int (length out) = ContentLength spec
           \<and> (\<exists>pre post. data = pre @ out @ post \<and> (spec_partial spec \<longrightarrow> int (length pre) = spec_start spec))"
proof (cases "spec_partial spec")
  case False
  with Parse_cases [OF assms(1)] have "spec = Full sz" by auto
  with assms(2) have "Slice spec data = Some data \<and> int (length data) = ContentLength spec"
    by (simp add: Slice_def ContentLength_def Full_def)
  then show ?thesis
    using False by (metis append_Nil append_Nil2)
next
  case True
  with Parse_cases [OF assms(1)] have b: "0 < sz" "spec_size spec = sz" "0 \<le> spec_start spec"
    "spec_start spec \<le> spec_end spec" "spec_end spec < sz"
    by (auto simp: Full_def)
  define s where "s = nat (spec_start spec)"
  define n where "n = nat (spec_end spec + 1 - spec_start spec)"
  have out: "Slice spec data = Some (take n (drop s data))"
    using b True assms(2) by (simp add: Slice_def Let_def s_def n_def min_absorb1)
  have "s + n \<le> length data"
    using b assms(2) by (simp add: s_def n_def)
  then have len: "int (length (take n (drop s data))) = ContentLength spec"
    using b by (simp add: ContentLength_def n_def s_def min_absorb2)
  have "data = take s data @ take n (drop s data) @ drop n (drop s data)"
    by (simp only: append_take_drop_id)
  moreover have "int (length (take s data)) = spec_start spec"
    using b assms(2) by (simp add: s_def)
  ultimately show ?thesis
    using out len by blast
qed

lemma parseNonNegative_show:
  "int n < 2 ^ 63 \<Longrightarrow> parseNonNegative (show_nat n) = Inr (int n)"
  by (simp add: parseNonNegative_def trim_show_nat parse_int64_show_nat)

lemma Parse_explicit:
  assumes "int a < sz" "a \<le> b" "int b < 2 ^ 63" "sz < 2 ^ 63"
  shows "Parse (''bytes='' @ show_nat a @ ''-'' @ show_nat b) sz =
    Inr \<lparr>spec_start = int a, spec_end = min (int b) (sz - 1), spec_size = sz, spec_partial = True\<rparr>"
proof -
  let ?v = "show_nat a @ ''-'' @ show_nat b"
  have plain: "plain_char (hd ?v)" "plain_char (last ?v)"
    by (simp_all add: plain_show_nat)
  then have tv: "trim_space ?v = ?v"
    by (intro trim_space_plain) simp_all
  have th: "trim_space (''bytes='' @ ?v) = ''bytes='' @ ?v"
    using plain by (intro trim_space_plain) (simp_all add: plain_char_def)
  have nc: "CHR '','' \<notin> set ?v"
    by (simp add: show_nat_no_sign is_digit_def less_eq_char_def)
  have cut: "cut_at CHR ''-'' ?v = Some (show_nat a, show_nat b)"
    using cut_at_append [of "CHR ''-''" "show_nat a" "show_nat b"]
    by (simp add: show_nat_no_sign not_digit_sign)
  have "parseBounds ?v sz = Inr (int a, min (int b) (sz - 1))"
    unfolding parseBounds_def cut using assms by (simp add: parseNonNegative_show)
  moreover have "has_prefix (to_lower (''bytes='' @ ?v)) ''bytes=''"
    by (simp add: to_lower_def lower_char_def less_eq_char_def has_prefix_def)
  ultimately show ?thesis
    unfolding Parse_def Let_def th using assms nc tv by simp
qed

section \<open>Properties\<close>

text \<open>C32: a range the parser accepts is either the whole object or satisfies
  \<open>0 \<le> Start \<le> End < Size\<close>; no accepted range reaches outside the object.\<close>

theorem Parse_in_bounds:
  assumes "Parse header sz = Inr spec"
  shows "spec = Full sz \<or>
    (spec_partial spec \<and> spec_size spec = sz \<and>
     0 \<le> spec_start spec \<and> spec_start spec \<le> spec_end spec \<and> spec_end spec < sz)"
  using Parse_cases [OF assms] by auto

theorem Parse_in_bounds_witness:
  "Parse ''bytes=2-900'' 10 =
     Inr \<lparr>spec_start = 2, spec_end = 9, spec_size = 10, spec_partial = True\<rparr> \<and>
   (0::int) \<le> 2 \<and> (2::int) \<le> 9 \<and> (9::int) < 10"
proof -
  have p: "Parse ''bytes=2-900'' 10 =
     Inr \<lparr>spec_start = 2, spec_end = 9, spec_size = 10, spec_partial = True\<rparr>"
    by code_simp
  show ?thesis using p Parse_in_bounds [OF p] by (simp add: Full_def)
qed

text \<open>C33: for an object whose stored bytes have the recorded size, a ranged GET never panics, and
  unless the range is refused (416) it answers 200 or 206 with a contiguous part of the object whose
  length is the number in the \<open>Content-Length\<close> header; a partial answer starts at the first byte the
  range asked for.\<close>

theorem writeRangedObject_faithful:
  assumes "int (length data) = sz"
  shows "\<exists>r. writeRangedObject header sz (Some data) = Some r \<and>
    (case Parse header sz of
       Inl _ \<Rightarrow> resp_status r = 416 \<and> resp_body r = []
     | Inr spec \<Rightarrow>
         resp_status r = (if spec_partial spec then 206 else 200) \<and>
         resp_content_length r = Some (show_int (int (length (resp_body r)))) \<and>
         (\<exists>pre post. data = pre @ resp_body r @ post \<and>
            (spec_partial spec \<longrightarrow> int (length pre) = spec_start spec)))"
proof (cases "Parse header sz")
  case (Inl e)
  then show ?thesis by (simp add: writeRangedObject_def)
next
  case (Inr spec)
  from Slice_parsed [OF Inr assms] obtain out where
    "Slice spec data = Some out" "int (length out) = ContentLength spec"
    "\<exists>pre post. data = pre @ out @ post \<and> (spec_partial spec \<longrightarrow> int (length pre) = spec_start spec)"
    by blast
  with Inr show ?thesis
    by (simp add: writeRangedObject_def)
qed

theorem writeRangedObject_faithful_witness:
  "\<exists>r. writeRangedObject ''bytes=1-2'' 4 (Some ''abcd'') = Some r \<and> resp_body r = ''bc''
     \<and> resp_status r = 206"
proof -
  have l: "int (length ''abcd'') = 4" by simp
  have p: "Parse ''bytes=1-2'' 4 =
     Inr \<lparr>spec_start = 1, spec_end = 2, spec_size = 4, spec_partial = True\<rparr>"
    by code_simp
  have "Slice \<lparr>spec_start = 1, spec_end = 2, spec_size = 4, spec_partial = True\<rparr> ''abcd''
      = Some ''bc''"
    by code_simp
  then show ?thesis
    using writeRangedObject_faithful [OF l, of "''bytes=1-2''"]
    by (simp add: p writeRangedObject_def)
qed

text \<open>C34: the header a client writes for the bytes \<open>a\<close> to \<open>b\<close> is parsed back to exactly that range,
  cut at the end of the object.\<close>

theorem Parse_roundtrip:
  assumes "int a < sz" "a \<le> b" "int b < 2 ^ 63" "sz < 2 ^ 63"
  shows "Parse (''bytes='' @ show_nat a @ ''-'' @ show_nat b) sz =
    Inr \<lparr>spec_start = int a, spec_end = min (int b) (sz - 1), spec_size = sz, spec_partial = True\<rparr>"
  using assms by (rule Parse_explicit)

theorem Parse_roundtrip_witness:
  "Parse (''bytes='' @ show_nat 3 @ ''-'' @ show_nat 700) 100 =
     Inr \<lparr>spec_start = 3, spec_end = 99, spec_size = 100, spec_partial = True\<rparr>"
  using Parse_roundtrip [of 3 100 700] by simp

end
