(* ===== verification/Model.thy ===== *)
theory Model
  imports Go_Prelude
begin

text \<open>
  The shared data model of \<open>internal/model/model.go\<close>, the blob reference of
  \<open>internal/metadata/kv.go\<close> and the copies of slices the packages make. A nil slice and an empty
  slice are both the empty list, a nil map and an empty map both the empty map: no modelled code
  tells them apart.
\<close>

abbreviation ObjectStatePending :: string where "ObjectStatePending \<equiv> ''pending''"
abbreviation ObjectStateCommitted :: string where "ObjectStateCommitted \<equiv> ''committed''"

abbreviation WriteIntentStageUnknown :: string where
  "WriteIntentStageUnknown \<equiv> ''unknown''"
abbreviation WriteIntentStageMetadataStaged :: string where
  "WriteIntentStageMetadataStaged \<equiv> ''metadata_staged''"
abbreviation WriteIntentStageBlobPrepared :: string where
  "WriteIntentStageBlobPrepared \<equiv> ''blob_prepared''"
abbreviation WriteIntentStageLayoutLinked :: string where
  "WriteIntentStageLayoutLinked \<equiv> ''layout_linked''"
abbreviation WriteIntentStageBlobRetained :: string where
  "WriteIntentStageBlobRetained \<equiv> ''blob_retained''"
abbreviation WriteIntentStageCommitted :: string where
  "WriteIntentStageCommitted \<equiv> ''committed''"

record Bucket =
  bkt_name :: string
  bkt_created :: time

record ShardPlacement =
  pl_index :: int
  pl_node :: string
  pl_address :: string
  pl_local :: bool

record WriteIntent =
  wi_id :: string
  wi_stage :: string
  wi_started :: time
  wi_updated :: time

record ObjectMeta =
  om_bucket :: string
  om_key :: string
  om_hash :: string
  om_etag :: string
  om_size :: int
  om_content_type :: string
  om_cache_control :: string
  om_content_disposition :: string
  om_content_encoding :: string
  om_content_language :: string
  om_user_metadata :: "(string, string) fmap"
  om_updated :: time
  om_state :: string
  om_intent :: "WriteIntent option"
  om_placements :: "ShardPlacement list"
  om_checksums :: "string list"
  om_sizes :: "int list"

text \<open>The zero value \<open>ObjectMeta{}\<close>.\<close>

definition zero_ObjectMeta :: ObjectMeta where
  "zero_ObjectMeta = \<lparr>om_bucket = [], om_key = [], om_hash = [], om_etag = [], om_size = 0,
     om_content_type = [], om_cache_control = [], om_content_disposition = [],
     om_content_encoding = [], om_content_language = [], om_user_metadata = fmempty,
     om_updated = 0, om_state = [], om_intent = None, om_placements = [], om_checksums = [],
     om_sizes = []\<rparr>"

record BlobRef =
  ref_hash :: string
  ref_path :: string
  ref_placements :: "ShardPlacement list"
  ref_checksums :: "string list"
  ref_sizes :: "int list"
  ref_count :: int
  ref_size :: int

definition zero_BlobRef :: BlobRef where
  "zero_BlobRef = \<lparr>ref_hash = [], ref_path = [], ref_placements = [], ref_checksums = [],
     ref_sizes = [], ref_count = 0, ref_size = 0\<rparr>"

text \<open>The key of an object in the metadata maps: bucket and key with a NUL byte between them. Two
  different objects whose bucket names hold no NUL byte have different keys.\<close>

definition object_key :: "string \<Rightarrow> string \<Rightarrow> string" where
  "object_key bucket key = bucket @ CHR 0x00 # key"

definition nul_free :: "string \<Rightarrow> bool" where
  "nul_free s \<longleftrightarrow> CHR 0x00 \<notin> set s"

lemma object_key_inject:
  assumes "nul_free b" "nul_free b'"
  shows "object_key b k = object_key b' k' \<longleftrightarrow> b = b' \<and> k = k'"
proof
  assume eq: "object_key b k = object_key b' k'"
  have "cut_at CHR 0x00 (object_key b k) = Some (b, k)"
    "cut_at CHR 0x00 (object_key b' k') = Some (b', k')"
    using assms unfolding object_key_def nul_free_def by (auto intro!: cut_at_append)
  with eq show "b = b' \<and> k = k'"
    by (metis Pair_inject option.inject)
qed simp

text \<open>Without that restriction they collide: the bucket \<open>a NUL b\<close> with key \<open>c\<close> and the bucket \<open>a\<close> with
  key \<open>b NUL c\<close> are the same entry.\<close>

lemma object_key_collision:
  "object_key (a @ CHR 0x00 # b) c = object_key a (b @ CHR 0x00 # c)"
  by (simp add: object_key_def)

text \<open>Objects of one bucket that are stored under their own keys have different keys.\<close>

lemma distinct_keys_of_bucket:
  assumes k: "\<And>i x. fmlookup m i = Some x \<Longrightarrow> i = object_key (om_bucket x) (om_key x)"
  shows "distinct (map om_key (filter (\<lambda>x. om_bucket x = b \<and> P x) (fm_values m)))"
proof -
  let ?es = "filter (\<lambda>e. om_bucket (snd e) = b \<and> P (snd e)) (fm_entries m)"
  have "distinct (map fst (fm_entries m))"
    by (simp add: fm_entries_def comp_def)
  then have d: "distinct (map fst ?es)"
    by (rule distinct_map_filter)
  have key: "fst e = object_key b (om_key (snd e))" if "e \<in> set ?es" for e
  proof -
    obtain i x where e: "e = (i, x)" by (cases e)
    with that have l: "fmlookup m i = Some x" "om_bucket x = b" by auto
    from k [OF l(1)] l(2) show ?thesis by (simp only: e fst_conv snd_conv)
  qed
  have "inj_on (\<lambda>e. om_key (snd e)) (set ?es)"
  proof (rule inj_onI)
    fix e e' assume e: "e \<in> set ?es" "e' \<in> set ?es" "om_key (snd e) = om_key (snd e')"
    have "fst e = fst e'"
      unfolding key [OF e(1)] key [OF e(2)] e(3) ..
    moreover have "inj_on fst (set ?es)"
      using d by (simp only: distinct_map)
    ultimately show "e = e'"
      using e(1,2) by (meson inj_onD)
  qed
  then have "distinct (map (\<lambda>e. om_key (snd e)) ?es)"
    using d by (simp only: distinct_map)
  moreover have "map om_key (filter (\<lambda>x. om_bucket x = b \<and> P x) (fm_values m)) =
      map (\<lambda>e. om_key (snd e)) ?es"
    by (simp add: fm_values_def filter_map comp_def)
  ultimately show ?thesis
    by simp
qed

end
