(* ===== verification/Raft_State_Machine.thy ===== *)
theory Raft_State_Machine
  imports Model
begin

text \<open>
  The replicated metadata state machine: \<open>internal/raft/state_machine.go\<close>,
  \<open>state_machine_commands.go\<close>, \<open>state_machine_blob.go\<close>, \<open>state_machine_staged.go\<close> and the envelope
  functions of \<open>state_machine_codec.go\<close>. A log entry is a decoded command, or \<open>None\<close> when its
  JSON does not decode; a snapshot is its decoded content, where an absent table is \<open>None\<close>. Error
  codes are strings as in the source, the empty string being success. The mutex makes each operation
  atomic, so the operations are functions of the state.
\<close>

section \<open>Data\<close>

abbreviation MetadataErrorBadRequest :: string where
  "MetadataErrorBadRequest \<equiv> ''bad_request''"
abbreviation MetadataErrorBucketExists :: string where
  "MetadataErrorBucketExists \<equiv> ''bucket_exists''"
abbreviation MetadataErrorBucketNotFound :: string where
  "MetadataErrorBucketNotFound \<equiv> ''bucket_not_found''"
abbreviation MetadataErrorObjectNotFound :: string where
  "MetadataErrorObjectNotFound \<equiv> ''object_not_found''"

datatype MetadataCommandType =
    CreateBucketCmd | DeleteBucketCmd | StageObjectMetaCmd | UpsertObjectMetaCmd
  | DeleteStagedObjectMetaCmd | DeleteObjectMetaCmd | CreateBlobRefCmd
  | UpdateBlobRefPlacementsCmd | IncreaseBlobRefCmd | DecreaseBlobRefCmd
  | UnknownCmd string

datatype MetadataQueryType =
    ListBucketsQry | BucketExistsQry | ListObjectMetasQry | ListStagedObjectMetasQry
  | ListBlobRefsQry | GetObjectMetaQry | GetBlobRefQry | UnknownQry string

record MetadataCommand =
  cmd_type :: MetadataCommandType
  cmd_bucket :: string
  cmd_key :: string
  cmd_bucket_meta :: Bucket
  cmd_meta :: ObjectMeta
  cmd_hash :: string
  cmd_path :: string
  cmd_size :: int
  cmd_placements :: "ShardPlacement list"
  cmd_checksums :: "string list"
  cmd_sizes :: "int list"

text \<open>The command with every field but its type at the zero value.\<close>

definition zero_command :: "MetadataCommandType \<Rightarrow> MetadataCommand" where
  "zero_command t = \<lparr>cmd_type = t, cmd_bucket = [], cmd_key = [],
     cmd_bucket_meta = \<lparr>bkt_name = [], bkt_created = 0\<rparr>, cmd_meta = zero_ObjectMeta,
     cmd_hash = [], cmd_path = [], cmd_size = 0, cmd_placements = [], cmd_checksums = [],
     cmd_sizes = []\<rparr>"

record MetadataQuery =
  qry_type :: MetadataQueryType
  qry_bucket :: string
  qry_key :: string
  qry_prefix :: string
  qry_hash :: string

definition zero_query :: "MetadataQueryType \<Rightarrow> MetadataQuery" where
  "zero_query t = \<lparr>qry_type = t, qry_bucket = [], qry_key = [], qry_prefix = [], qry_hash = []\<rparr>"

record MetadataResult =
  res_buckets :: "Bucket list"
  res_bucket_exists :: bool
  res_objects :: "ObjectMeta list"
  res_object :: ObjectMeta
  res_object_exists :: bool
  res_blobs :: "BlobRef list"
  res_blob :: BlobRef
  res_blob_exists :: bool
  res_blob_path :: string
  res_blob_removed :: bool

definition empty_result :: MetadataResult where
  "empty_result = \<lparr>res_buckets = [], res_bucket_exists = False, res_objects = [],
     res_object = zero_ObjectMeta, res_object_exists = False, res_blobs = [],
     res_blob = zero_BlobRef, res_blob_exists = False, res_blob_path = [],
     res_blob_removed = False\<rparr>"

record metadataEnvelope =
  env_result :: MetadataResult
  env_error :: string

definition ok_envelope :: "MetadataResult \<Rightarrow> metadataEnvelope" where
  "ok_envelope r = \<lparr>env_result = r, env_error = []\<rparr>"

definition err_envelope :: "string \<Rightarrow> metadataEnvelope" where
  "err_envelope code = \<lparr>env_result = empty_result, env_error = code\<rparr>"

record metadataSnapshot =
  snap_buckets :: "(string, Bucket) fmap option"
  snap_objects :: "(string, ObjectMeta) fmap option"
  snap_staged :: "(string, ObjectMeta) fmap option"
  snap_refs :: "(string, BlobRef) fmap option"

record raftStateMachine =
  sm_closed :: bool
  sm_buckets :: "(string, Bucket) fmap"
  sm_objects :: "(string, ObjectMeta) fmap"
  sm_staged :: "(string, ObjectMeta) fmap"
  sm_refs :: "(string, BlobRef) fmap"

definition newRaftStateMachine :: raftStateMachine where
  "newRaftStateMachine = \<lparr>sm_closed = False, sm_buckets = fmempty, sm_objects = fmempty,
     sm_staged = fmempty, sm_refs = fmempty\<rparr>"

definition invalidName :: "string \<Rightarrow> bool" where
  "invalidName value \<longleftrightarrow> trim_space value = []"

definition invalidObject :: "string \<Rightarrow> string \<Rightarrow> bool" where
  "invalidObject bucket key \<longleftrightarrow> invalidName bucket \<or> trim_space key = []"

definition objectMapKey :: "string \<Rightarrow> string \<Rightarrow> string" where
  "objectMapKey bucket key = object_key bucket key"

section \<open>Buckets and objects\<close>

definition createBucket :: "raftStateMachine \<Rightarrow> string \<Rightarrow> Bucket \<Rightarrow> raftStateMachine \<times> string" where
  "createBucket s bucket bucketMeta =
     (let bucket = (if bkt_name bucketMeta \<noteq> [] then bkt_name bucketMeta else bucket) in
      if invalidName bucket then (s, MetadataErrorBadRequest)
      else if fmlookup (sm_buckets s) bucket \<noteq> None then (s, MetadataErrorBucketExists)
      else let bucketMeta = (if bkt_name bucketMeta = [] then bucketMeta\<lparr>bkt_name := bucket\<rparr>
                             else bucketMeta)
           in (s\<lparr>sm_buckets := fmupd bucket bucketMeta (sm_buckets s)\<rparr>, []))"

definition deleteBucket :: "raftStateMachine \<Rightarrow> string \<Rightarrow> raftStateMachine \<times> string" where
  "deleteBucket s bucket =
     (if invalidName bucket then (s, MetadataErrorBadRequest)
      else if fmlookup (sm_buckets s) bucket = None then (s, MetadataErrorBucketNotFound)
      else (s\<lparr>sm_buckets := fmdrop bucket (sm_buckets s),
              sm_objects := fm_remove_if (\<lambda>m. om_bucket m = bucket) (sm_objects s),
              sm_staged := fm_remove_if (\<lambda>m. om_bucket m = bucket) (sm_staged s)\<rparr>, []))"

definition upsertObjectMeta :: "raftStateMachine \<Rightarrow> ObjectMeta \<Rightarrow> raftStateMachine \<times> string" where
  "upsertObjectMeta s meta =
     (if invalidObject (om_bucket meta) (om_key meta) \<or> invalidName (om_hash meta)
      then (s, MetadataErrorBadRequest)
      else if fmlookup (sm_buckets s) (om_bucket meta) = None then (s, MetadataErrorBucketNotFound)
      else let meta = meta\<lparr>om_state := ObjectStateCommitted\<rparr> in
        (s\<lparr>sm_objects := fmupd (objectMapKey (om_bucket meta) (om_key meta)) meta (sm_objects s)\<rparr>,
         []))"

definition stageObjectMeta :: "raftStateMachine \<Rightarrow> ObjectMeta \<Rightarrow> raftStateMachine \<times> string" where
  "stageObjectMeta s meta =
     (if invalidObject (om_bucket meta) (om_key meta) \<or> invalidName (om_hash meta)
      then (s, MetadataErrorBadRequest)
      else if fmlookup (sm_buckets s) (om_bucket meta) = None then (s, MetadataErrorBucketNotFound)
      else let meta = meta\<lparr>om_state := ObjectStatePending\<rparr> in
        (s\<lparr>sm_staged := fmupd (objectMapKey (om_bucket meta) (om_key meta)) meta (sm_staged s)\<rparr>,
         []))"

definition deleteStagedObjectMeta ::
  "raftStateMachine \<Rightarrow> string \<Rightarrow> string \<Rightarrow> raftStateMachine \<times> MetadataResult \<times> string" where
  "deleteStagedObjectMeta s bucket key =
     (if invalidObject bucket key then (s, empty_result, MetadataErrorBadRequest)
      else let mapKey = objectMapKey bucket key in
        (case fmlookup (sm_staged s) mapKey of
           None \<Rightarrow> (s, empty_result\<lparr>res_object_exists := False\<rparr>, [])
         | Some meta \<Rightarrow>
             (s\<lparr>sm_staged := fmdrop mapKey (sm_staged s)\<rparr>,
              empty_result\<lparr>res_object := meta, res_object_exists := True\<rparr>, [])))"

definition deleteObjectMeta ::
  "raftStateMachine \<Rightarrow> string \<Rightarrow> string \<Rightarrow> raftStateMachine \<times> MetadataResult \<times> string" where
  "deleteObjectMeta s bucket key =
     (if invalidObject bucket key then (s, empty_result, MetadataErrorBadRequest)
      else let mapKey = objectMapKey bucket key in
        (case fmlookup (sm_objects s) mapKey of
           None \<Rightarrow> (s, empty_result\<lparr>res_object_exists := False\<rparr>, [])
         | Some meta \<Rightarrow>
             (s\<lparr>sm_objects := fmdrop mapKey (sm_objects s)\<rparr>,
              empty_result\<lparr>res_object := meta, res_object_exists := True\<rparr>, [])))"

definition listBuckets :: "raftStateMachine \<Rightarrow> Bucket list" where
  "listBuckets s = sort_key bkt_name (fm_values (sm_buckets s))"

definition listObjectMetas :: "raftStateMachine \<Rightarrow> string \<Rightarrow> string \<Rightarrow> ObjectMeta list" where
  "listObjectMetas s bucket prefix =
     sort_key om_key
       (filter (\<lambda>meta. om_bucket meta = bucket \<and> has_prefix (om_key meta) prefix)
          (fm_values (sm_objects s)))"

definition matchesStagedObject :: "ObjectMeta \<Rightarrow> string \<Rightarrow> string \<Rightarrow> bool" where
  "matchesStagedObject meta bucket prefix =
     (if bucket \<noteq> [] \<and> om_bucket meta \<noteq> bucket then False
      else prefix = [] \<or> has_prefix (om_key meta) prefix)"

definition listStagedObjectMetas :: "raftStateMachine \<Rightarrow> string \<Rightarrow> string \<Rightarrow> ObjectMeta list" where
  "listStagedObjectMetas s bucket prefix =
     sort_key (\<lambda>meta. (om_bucket meta, om_key meta))
       (filter (\<lambda>meta. matchesStagedObject meta bucket prefix) (fm_values (sm_staged s)))"

section \<open>Blob references\<close>

definition createBlobRef ::
  "raftStateMachine \<Rightarrow> string \<Rightarrow> string \<Rightarrow> int \<Rightarrow> ShardPlacement list \<Rightarrow> string list \<Rightarrow> int list
     \<Rightarrow> raftStateMachine \<times> string" where
  "createBlobRef s hash path sz shardPlacements shardChecksums shardSizes =
     (if invalidName hash \<or> trim_space path = [] then (s, MetadataErrorBadRequest)
      else case fmlookup (sm_refs s) hash of
        Some ref \<Rightarrow>
          (s\<lparr>sm_refs := fmupd hash (ref\<lparr>ref_count := ref_count ref + 1\<rparr>) (sm_refs s)\<rparr>, [])
      | None \<Rightarrow>
          (s\<lparr>sm_refs := fmupd hash \<lparr>ref_hash = hash, ref_path = path,
               ref_placements = shardPlacements, ref_checksums = shardChecksums,
               ref_sizes = shardSizes, ref_count = 1, ref_size = sz\<rparr> (sm_refs s)\<rparr>, []))"

definition listBlobRefs :: "raftStateMachine \<Rightarrow> BlobRef list" where
  "listBlobRefs s = map (\<lambda>(hash, ref). ref\<lparr>ref_hash := hash\<rparr>) (fm_entries (sm_refs s))"

definition increaseBlobRef :: "raftStateMachine \<Rightarrow> string \<Rightarrow> raftStateMachine \<times> string" where
  "increaseBlobRef s hash =
     (if invalidName hash then (s, MetadataErrorBadRequest)
      else case fmlookup (sm_refs s) hash of
        None \<Rightarrow> (s, MetadataErrorObjectNotFound)
      | Some ref \<Rightarrow>
          (s\<lparr>sm_refs := fmupd hash (ref\<lparr>ref_count := ref_count ref + 1\<rparr>) (sm_refs s)\<rparr>, []))"

definition updateBlobRefPlacements ::
  "raftStateMachine \<Rightarrow> string \<Rightarrow> ShardPlacement list \<Rightarrow> raftStateMachine \<times> string" where
  "updateBlobRefPlacements s hash placements =
     (if invalidName hash then (s, MetadataErrorBadRequest)
      else case fmlookup (sm_refs s) hash of
        None \<Rightarrow> (s, MetadataErrorObjectNotFound)
      | Some ref \<Rightarrow>
          (s\<lparr>sm_refs := fmupd hash (ref\<lparr>ref_placements := placements\<rparr>) (sm_refs s)\<rparr>, []))"

definition decreaseBlobRef ::
  "raftStateMachine \<Rightarrow> string \<Rightarrow> raftStateMachine \<times> MetadataResult \<times> string" where
  "decreaseBlobRef s hash =
     (if invalidName hash then (s, empty_result, MetadataErrorBadRequest)
      else case fmlookup (sm_refs s) hash of
        None \<Rightarrow> (s, empty_result\<lparr>res_blob_removed := False\<rparr>, [])
      | Some ref \<Rightarrow>
          if ref_count ref \<le> 1
          then (s\<lparr>sm_refs := fmdrop hash (sm_refs s)\<rparr>,
                empty_result\<lparr>res_blob_path := ref_path ref, res_blob_removed := True\<rparr>, [])
          else (s\<lparr>sm_refs := fmupd hash (ref\<lparr>ref_count := ref_count ref - 1\<rparr>) (sm_refs s)\<rparr>,
                empty_result\<lparr>res_blob_removed := False\<rparr>, []))"

section \<open>Dispatch\<close>

definition applyBucketCommand ::
  "raftStateMachine \<Rightarrow> MetadataCommand \<Rightarrow> (raftStateMachine \<times> string) option" where
  "applyBucketCommand s cmd =
     (case cmd_type cmd of
        CreateBucketCmd \<Rightarrow> Some (createBucket s (cmd_bucket cmd) (cmd_bucket_meta cmd))
      | DeleteBucketCmd \<Rightarrow> Some (deleteBucket s (cmd_bucket cmd))
      | _ \<Rightarrow> None)"

definition applyObjectCommand ::
  "raftStateMachine \<Rightarrow> MetadataCommand \<Rightarrow> (raftStateMachine \<times> MetadataResult \<times> string) option" where
  "applyObjectCommand s cmd =
     (case cmd_type cmd of
        StageObjectMetaCmd \<Rightarrow>
          (let (s', code) = stageObjectMeta s (cmd_meta cmd) in Some (s', empty_result, code))
      | UpsertObjectMetaCmd \<Rightarrow>
          (let (s', code) = upsertObjectMeta s (cmd_meta cmd) in Some (s', empty_result, code))
      | DeleteStagedObjectMetaCmd \<Rightarrow> Some (deleteStagedObjectMeta s (cmd_bucket cmd) (cmd_key cmd))
      | DeleteObjectMetaCmd \<Rightarrow> Some (deleteObjectMeta s (cmd_bucket cmd) (cmd_key cmd))
      | _ \<Rightarrow> None)"

definition applyBlobCommand ::
  "raftStateMachine \<Rightarrow> MetadataCommand \<Rightarrow> (raftStateMachine \<times> MetadataResult \<times> string) option" where
  "applyBlobCommand s cmd =
     (case cmd_type cmd of
        CreateBlobRefCmd \<Rightarrow>
          (let (s', code) = createBlobRef s (cmd_hash cmd) (cmd_path cmd) (cmd_size cmd)
                              (cmd_placements cmd) (cmd_checksums cmd) (cmd_sizes cmd)
           in Some (s', empty_result, code))
      | UpdateBlobRefPlacementsCmd \<Rightarrow>
          (let (s', code) = updateBlobRefPlacements s (cmd_hash cmd) (cmd_placements cmd)
           in Some (s', empty_result, code))
      | IncreaseBlobRefCmd \<Rightarrow>
          (let (s', code) = increaseBlobRef s (cmd_hash cmd) in Some (s', empty_result, code))
      | DecreaseBlobRefCmd \<Rightarrow> Some (decreaseBlobRef s (cmd_hash cmd))
      | _ \<Rightarrow> None)"

definition applyMetadataCommand ::
  "raftStateMachine \<Rightarrow> MetadataCommand \<Rightarrow> raftStateMachine \<times> MetadataResult \<times> string" where
  "applyMetadataCommand s cmd =
     (case applyBucketCommand s cmd of
        Some (s', code) \<Rightarrow> (s', empty_result, code)
      | None \<Rightarrow>
          (case applyObjectCommand s cmd of
             Some r \<Rightarrow> r
           | None \<Rightarrow>
               (case applyBlobCommand s cmd of
                  Some r \<Rightarrow> r
                | None \<Rightarrow> (s, empty_result, MetadataErrorBadRequest))))"

definition Update ::
  "raftStateMachine \<Rightarrow> MetadataCommand option \<Rightarrow> raftStateMachine \<times> metadataEnvelope" where
  "Update s entry =
     (case entry of
        None \<Rightarrow> (s, err_envelope MetadataErrorBadRequest)
      | Some cmd \<Rightarrow>
          if sm_closed s then (s, err_envelope MetadataErrorBadRequest)
          else (case applyMetadataCommand s cmd of
                  (s', result, code) \<Rightarrow> (s', \<lparr>env_result = result, env_error = code\<rparr>)))"

section \<open>Queries\<close>

definition lookupBucketExists :: "raftStateMachine \<Rightarrow> string \<Rightarrow> metadataEnvelope" where
  "lookupBucketExists s bucket =
     (if invalidName bucket then err_envelope MetadataErrorBadRequest
      else ok_envelope (empty_result\<lparr>res_bucket_exists := fmlookup (sm_buckets s) bucket \<noteq> None\<rparr>))"

definition lookupListObjectMetas :: "raftStateMachine \<Rightarrow> string \<Rightarrow> string \<Rightarrow> metadataEnvelope" where
  "lookupListObjectMetas s bucket prefix =
     (if fmlookup (sm_buckets s) bucket = None then err_envelope MetadataErrorBucketNotFound
      else ok_envelope (empty_result\<lparr>res_objects := listObjectMetas s bucket prefix\<rparr>))"

definition lookupListStagedObjectMetas ::
  "raftStateMachine \<Rightarrow> string \<Rightarrow> string \<Rightarrow> metadataEnvelope" where
  "lookupListStagedObjectMetas s bucket prefix =
     (if bucket \<noteq> [] \<and> fmlookup (sm_buckets s) bucket = None
      then err_envelope MetadataErrorBucketNotFound
      else ok_envelope (empty_result\<lparr>res_objects := listStagedObjectMetas s bucket prefix\<rparr>))"

definition lookupObjectMeta :: "raftStateMachine \<Rightarrow> string \<Rightarrow> string \<Rightarrow> metadataEnvelope" where
  "lookupObjectMeta s bucket key =
     (if invalidObject bucket key then err_envelope MetadataErrorBadRequest
      else case fmlookup (sm_objects s) (objectMapKey bucket key) of
        None \<Rightarrow> ok_envelope empty_result
      | Some meta \<Rightarrow>
          ok_envelope (empty_result\<lparr>res_object := meta, res_object_exists := True\<rparr>))"

definition lookupBlobRef :: "raftStateMachine \<Rightarrow> string \<Rightarrow> metadataEnvelope" where
  "lookupBlobRef s hash =
     (if invalidName hash then err_envelope MetadataErrorBadRequest
      else case fmlookup (sm_refs s) hash of
        None \<Rightarrow> ok_envelope (empty_result\<lparr>res_blob := zero_BlobRef\<lparr>ref_hash := hash\<rparr>\<rparr>)
      | Some ref \<Rightarrow>
          ok_envelope (empty_result\<lparr>res_blob := ref\<lparr>ref_hash := hash\<rparr>, res_blob_exists := True\<rparr>))"

definition lookupMetadataQuery :: "raftStateMachine \<Rightarrow> MetadataQuery \<Rightarrow> metadataEnvelope" where
  "lookupMetadataQuery s query =
     (case qry_type query of
        ListBucketsQry \<Rightarrow> ok_envelope (empty_result\<lparr>res_buckets := listBuckets s\<rparr>)
      | BucketExistsQry \<Rightarrow> lookupBucketExists s (qry_bucket query)
      | ListObjectMetasQry \<Rightarrow> lookupListObjectMetas s (qry_bucket query) (qry_prefix query)
      | ListStagedObjectMetasQry \<Rightarrow>
          lookupListStagedObjectMetas s (qry_bucket query) (qry_prefix query)
      | ListBlobRefsQry \<Rightarrow> ok_envelope (empty_result\<lparr>res_blobs := listBlobRefs s\<rparr>)
      | GetObjectMetaQry \<Rightarrow> lookupObjectMeta s (qry_bucket query) (qry_key query)
      | GetBlobRefQry \<Rightarrow> lookupBlobRef s (qry_hash query)
      | UnknownQry _ \<Rightarrow> err_envelope MetadataErrorBadRequest)"

text \<open>The dynamic types that \<open>Lookup\<close> distinguishes in its argument.\<close>

datatype lookup_arg =
    QueryValue MetadataQuery
  | QueryPointer "MetadataQuery option"
  | QueryString string
  | QueryOther

definition Lookup :: "raftStateMachine \<Rightarrow> lookup_arg \<Rightarrow> metadataEnvelope" where
  "Lookup s query =
     (if sm_closed s then err_envelope MetadataErrorBadRequest
      else case query of
        QueryValue q \<Rightarrow> lookupMetadataQuery s q
      | QueryPointer None \<Rightarrow> err_envelope MetadataErrorBadRequest
      | QueryPointer (Some q) \<Rightarrow> lookupMetadataQuery s q
      | QueryString t \<Rightarrow>
          if t = ''health'' then ok_envelope empty_result
          else if t = ''state'' then ok_envelope (empty_result\<lparr>res_bucket_exists := True\<rparr>)
          else err_envelope MetadataErrorBadRequest
      | QueryOther \<Rightarrow> err_envelope MetadataErrorBadRequest)"

section \<open>Snapshots and shutdown\<close>

definition SaveSnapshot :: "raftStateMachine \<Rightarrow> metadataSnapshot" where
  "SaveSnapshot s = \<lparr>snap_buckets = Some (sm_buckets s), snap_objects = Some (sm_objects s),
     snap_staged = Some (sm_staged s), snap_refs = Some (sm_refs s)\<rparr>"

text \<open>A snapshot that does not decode leaves the state as it is and is an error.\<close>

definition RecoverFromSnapshot ::
  "raftStateMachine \<Rightarrow> metadataSnapshot option \<Rightarrow> raftStateMachine \<times> bool" where
  "RecoverFromSnapshot s snapshot =
     (case snapshot of
        None \<Rightarrow> (s, False)
      | Some sn \<Rightarrow>
          (s\<lparr>sm_buckets := case_option fmempty id (snap_buckets sn),
             sm_objects := case_option fmempty id (snap_objects sn),
             sm_staged := case_option fmempty id (snap_staged sn),
             sm_refs := case_option fmempty id (snap_refs sn)\<rparr>, True))"

definition Close :: "raftStateMachine \<Rightarrow> raftStateMachine" where
  "Close s = s\<lparr>sm_closed := True\<rparr>"

text \<open>Replaying a log, with the reply to every entry.\<close>

fun replay :: "raftStateMachine \<Rightarrow> MetadataCommand option list \<Rightarrow>
    raftStateMachine \<times> metadataEnvelope list" where
  "replay s [] = (s, [])"
| "replay s (e # es) =
     (case Update s e of (s', r) \<Rightarrow> case replay s' es of (s'', rs) \<Rightarrow> (s'', r # rs))"

section \<open>The invariant\<close>

text \<open>
  Every bucket is stored under its own name; every object and every staged object is stored under
  the key of its bucket and key, belongs to an existing bucket, has a usable name and hash and the
  state of its table; every blob reference is stored under its hash with a positive count.
\<close>

definition bucket_ok :: "string \<Rightarrow> Bucket \<Rightarrow> bool" where
  "bucket_ok n b \<longleftrightarrow> bkt_name b = n \<and> \<not> invalidName n"

definition object_ok :: "(string, Bucket) fmap \<Rightarrow> string \<Rightarrow> string \<Rightarrow> ObjectMeta \<Rightarrow> bool" where
  "object_ok bs st k m \<longleftrightarrow> k = objectMapKey (om_bucket m) (om_key m) \<and>
     fmlookup bs (om_bucket m) \<noteq> None \<and> \<not> invalidObject (om_bucket m) (om_key m) \<and>
     \<not> invalidName (om_hash m) \<and> om_state m = st"

definition ref_ok :: "string \<Rightarrow> BlobRef \<Rightarrow> bool" where
  "ref_ok h r \<longleftrightarrow> ref_hash r = h \<and> \<not> invalidName h \<and> 1 \<le> ref_count r \<and> trim_space (ref_path r) \<noteq> []"

definition sm_wf :: "raftStateMachine \<Rightarrow> bool" where
  "sm_wf s \<longleftrightarrow> fmpred bucket_ok (sm_buckets s) \<and>
     fmpred (object_ok (sm_buckets s) ObjectStateCommitted) (sm_objects s) \<and>
     fmpred (object_ok (sm_buckets s) ObjectStatePending) (sm_staged s) \<and>
     fmpred ref_ok (sm_refs s)"

lemma fmpred_remove_if:
  "fmpred P m \<Longrightarrow> (\<And>k v. P k v \<Longrightarrow> \<not> Q v \<Longrightarrow> P' k v) \<Longrightarrow> fmpred P' (fm_remove_if Q m)"
  by (auto simp: fmpred_iff split: option.splits if_splits)

lemma object_ok_new_bucket:
  "fmpred (object_ok bs st) m \<Longrightarrow> fmpred (object_ok (fmupd n b bs) st) m"
  by (auto simp: fmpred_iff object_ok_def)

lemma createBucket_wf: "sm_wf s \<Longrightarrow> sm_wf (fst (createBucket s b bm))"
  by (auto simp: createBucket_def sm_wf_def Let_def bucket_ok_def
      intro!: fmpred_upd object_ok_new_bucket)

lemma deleteBucket_wf: "sm_wf s \<Longrightarrow> sm_wf (fst (deleteBucket s b))"
  by (auto simp: deleteBucket_def sm_wf_def object_ok_def fmlookup_drop
      intro!: fmpred_drop elim!: fmpred_remove_if)

lemma upsertObjectMeta_wf: "sm_wf s \<Longrightarrow> sm_wf (fst (upsertObjectMeta s m))"
  by (auto simp: upsertObjectMeta_def sm_wf_def Let_def object_ok_def intro!: fmpred_upd)

lemma stageObjectMeta_wf: "sm_wf s \<Longrightarrow> sm_wf (fst (stageObjectMeta s m))"
  by (auto simp: stageObjectMeta_def sm_wf_def Let_def object_ok_def intro!: fmpred_upd)

lemma deleteStagedObjectMeta_wf: "sm_wf s \<Longrightarrow> sm_wf (fst (deleteStagedObjectMeta s b k))"
  by (auto simp: deleteStagedObjectMeta_def sm_wf_def Let_def intro!: fmpred_drop
      split: option.splits)

lemma deleteObjectMeta_wf: "sm_wf s \<Longrightarrow> sm_wf (fst (deleteObjectMeta s b k))"
  by (auto simp: deleteObjectMeta_def sm_wf_def Let_def intro!: fmpred_drop
      split: option.splits)

lemma ref_ok_fields:
  "ref_ok h r \<Longrightarrow> 1 \<le> c \<Longrightarrow> ref_ok h (r\<lparr>ref_count := c\<rparr>)"
  "ref_ok h r \<Longrightarrow> ref_ok h (r\<lparr>ref_placements := ps\<rparr>)"
  by (simp_all add: ref_ok_def)

lemma createBlobRef_wf: "sm_wf s \<Longrightarrow> sm_wf (fst (createBlobRef s h p n ps cs ns))"
  by (auto simp: createBlobRef_def sm_wf_def split: option.splits intro!: fmpred_upd ref_ok_fields
      dest: fmpredD)
     (auto simp: ref_ok_def dest: fmpredD)

lemma increaseBlobRef_wf: "sm_wf s \<Longrightarrow> sm_wf (fst (increaseBlobRef s h))"
  by (auto simp: increaseBlobRef_def sm_wf_def split: option.splits intro!: fmpred_upd ref_ok_fields
      dest: fmpredD)
     (auto simp: ref_ok_def dest: fmpredD)

lemma updateBlobRefPlacements_wf: "sm_wf s \<Longrightarrow> sm_wf (fst (updateBlobRefPlacements s h ps))"
  by (auto simp: updateBlobRefPlacements_def sm_wf_def split: option.splits
      intro!: fmpred_upd ref_ok_fields dest: fmpredD)

lemma decreaseBlobRef_wf: "sm_wf s \<Longrightarrow> sm_wf (fst (decreaseBlobRef s h))"
  by (auto simp: decreaseBlobRef_def sm_wf_def split: option.splits
      intro!: fmpred_upd fmpred_drop ref_ok_fields dest: fmpredD)

lemmas sm_op_wf = createBucket_wf deleteBucket_wf upsertObjectMeta_wf stageObjectMeta_wf
  deleteStagedObjectMeta_wf deleteObjectMeta_wf createBlobRef_wf increaseBlobRef_wf
  updateBlobRefPlacements_wf decreaseBlobRef_wf

lemma applyMetadataCommand_wf: "sm_wf s \<Longrightarrow> sm_wf (fst (applyMetadataCommand s cmd))"
  by (cases "cmd_type cmd")
     (simp_all add: applyMetadataCommand_def applyBucketCommand_def applyObjectCommand_def
        applyBlobCommand_def sm_op_wf case_prod_unfold Let_def)

lemma Update_wf: "sm_wf s \<Longrightarrow> sm_wf (fst (Update s e))"
  using applyMetadataCommand_wf [of s "the e"]
  by (auto simp: Update_def split: option.splits prod.splits)

lemma RecoverFromSnapshot_Save:
  "fst (RecoverFromSnapshot t (Some (SaveSnapshot s))) = s\<lparr>sm_closed := sm_closed t\<rparr>"
  by (simp add: RecoverFromSnapshot_def SaveSnapshot_def)

lemma newRaftStateMachine_wf: "sm_wf newRaftStateMachine"
  by (simp add: sm_wf_def newRaftStateMachine_def)

lemma sm_wf_closed [simp]: "sm_wf (s\<lparr>sm_closed := c\<rparr>) = sm_wf s"
  by (simp add: sm_wf_def)

text \<open>What can happen to a replica: it applies a log entry, it installs a snapshot another replica
  saved, it is closed.\<close>

inductive sm_reachable :: "raftStateMachine \<Rightarrow> bool" where
  start: "sm_reachable newRaftStateMachine"
| entry: "sm_reachable s \<Longrightarrow> sm_reachable (fst (Update s e))"
| install: "sm_reachable s \<Longrightarrow> sm_reachable t \<Longrightarrow>
    sm_reachable (fst (RecoverFromSnapshot t (Some (SaveSnapshot s))))"
| shutdown: "sm_reachable s \<Longrightarrow> sm_reachable (Close s)"

lemma sm_reachable_wf: "sm_reachable s \<Longrightarrow> sm_wf s"
proof (induction rule: sm_reachable.induct)
  case start
  show ?case by (rule newRaftStateMachine_wf)
next
  case (entry s e)
  then show ?case by (simp add: Update_wf)
next
  case (install s t)
  then show ?case by (simp add: RecoverFromSnapshot_Save)
next
  case (shutdown s)
  then show ?case by (simp add: Close_def)
qed

lemma sm_op_closed:
  "sm_closed (fst (createBucket s b bm)) = sm_closed s"
  "sm_closed (fst (deleteBucket s b)) = sm_closed s"
  "sm_closed (fst (upsertObjectMeta s m)) = sm_closed s"
  "sm_closed (fst (stageObjectMeta s m)) = sm_closed s"
  "sm_closed (fst (deleteStagedObjectMeta s b k)) = sm_closed s"
  "sm_closed (fst (deleteObjectMeta s b k)) = sm_closed s"
  "sm_closed (fst (createBlobRef s h p n ps cs ns)) = sm_closed s"
  "sm_closed (fst (increaseBlobRef s h)) = sm_closed s"
  "sm_closed (fst (updateBlobRefPlacements s h ps)) = sm_closed s"
  "sm_closed (fst (decreaseBlobRef s h)) = sm_closed s"
  by (simp_all add: createBucket_def deleteBucket_def stageObjectMeta_def
        upsertObjectMeta_def deleteStagedObjectMeta_def deleteObjectMeta_def createBlobRef_def
        updateBlobRefPlacements_def increaseBlobRef_def decreaseBlobRef_def Let_def
        split: option.split)

lemma applyMetadataCommand_closed: "sm_closed (fst (applyMetadataCommand s cmd)) = sm_closed s"
  by (cases "cmd_type cmd")
     (simp_all add: applyMetadataCommand_def applyBucketCommand_def applyObjectCommand_def
        applyBlobCommand_def sm_op_closed case_prod_unfold Let_def)

lemma Update_closed [simp]: "sm_closed (fst (Update s e)) = sm_closed s"
  using applyMetadataCommand_closed [of s "the e"]
  by (auto simp: Update_def split: option.splits prod.splits)

lemma replay_Cons:
  "replay s (e # es) =
     (fst (replay (fst (Update s e)) es), snd (Update s e) # snd (replay (fst (Update s e)) es))"
  by (simp add: case_prod_unfold)

declare replay.simps(2) [simp del]

lemma replay_append:
  "replay s (xs @ ys) =
     (fst (replay (fst (replay s xs)) ys), snd (replay s xs) @ snd (replay (fst (replay s xs)) ys))"
  by (induction xs arbitrary: s) (simp_all add: replay_Cons)

lemma replay_closed [simp]: "sm_closed (fst (replay s xs)) = sm_closed s"
  by (induction xs arbitrary: s) (simp_all add: replay_Cons)

lemma replay_length [simp]: "length (snd (replay s xs)) = length xs"
  by (induction xs arbitrary: s) (simp_all add: replay_Cons)

section \<open>Listing\<close>

lemma distinct_object_keys:
  "fmpred (object_ok bs st) m \<Longrightarrow>
     distinct (map om_key (filter (\<lambda>x. om_bucket x = b \<and> P x) (fm_values m)))"
  by (rule distinct_keys_of_bucket) (auto simp: fmpred_iff object_ok_def objectMapKey_def)

lemma set_listObjectMetas:
  "set (listObjectMetas s b p) =
     {m. (\<exists>k. fmlookup (sm_objects s) k = Some m) \<and> om_bucket m = b \<and> has_prefix (om_key m) p}"
  by (auto simp: listObjectMetas_def fm_values_iff)

lemma strict_sorted_listObjectMetas:
  "sm_wf s \<Longrightarrow> sorted_wrt (<) (map om_key (listObjectMetas s b p))"
  using distinct_object_keys [of "sm_buckets s" ObjectStateCommitted "sm_objects s" b
      "\<lambda>m. has_prefix (om_key m) p"]
  unfolding strict_sorted_iff
  by (simp add: listObjectMetas_def sm_wf_def distinct_map)

section \<open>Properties\<close>

text \<open>C25: in every state a replica can reach (by applying any log entries, malformed ones included,
  installing snapshots of other replicas and being closed) the metadata is well formed: every object
  and every staged object lies under its own key in an existing bucket with the right state, and
  every blob reference has its own hash and a count of at least one.\<close>

theorem sm_reachable_well_formed:
  "sm_reachable s \<Longrightarrow> sm_wf s"
  by (rule sm_reachable_wf)

definition demo_bucket_cmd :: MetadataCommand where
  "demo_bucket_cmd = (zero_command CreateBucketCmd)\<lparr>cmd_bucket := ''b''\<rparr>"

definition demo_object :: ObjectMeta where
  "demo_object = zero_ObjectMeta\<lparr>om_bucket := ''b'', om_key := ''k'', om_hash := ''h''\<rparr>"

definition demo_upsert_cmd :: MetadataCommand where
  "demo_upsert_cmd = (zero_command UpsertObjectMetaCmd)\<lparr>cmd_meta := demo_object\<rparr>"

theorem sm_reachable_well_formed_witness:
  "sm_wf (fst (Update (fst (Update newRaftStateMachine (Some demo_bucket_cmd)))
        (Some demo_upsert_cmd)))"
  by (rule sm_reachable_well_formed) (intro sm_reachable.intros)

text \<open>C26: a replica that installs the snapshot taken after the log prefix \<open>xs\<close> and then applies \<open>ys\<close>
  ends in the same state and gives the same replies as a replica that applied \<open>xs\<close> and \<open>ys\<close> itself:
  log compaction does not change the metadata service.\<close>

theorem snapshot_replay:
  "replay (fst (RecoverFromSnapshot newRaftStateMachine
       (Some (SaveSnapshot (fst (replay newRaftStateMachine xs)))))) ys =
     (fst (replay newRaftStateMachine (xs @ ys)),
      drop (length xs) (snd (replay newRaftStateMachine (xs @ ys))))"
proof -
  let ?s = "fst (replay newRaftStateMachine xs)"
  have "?s\<lparr>sm_closed := sm_closed ?s\<rparr> = ?s"
    by (cases ?s) simp
  then have "fst (RecoverFromSnapshot newRaftStateMachine (Some (SaveSnapshot ?s))) = ?s"
    by (simp only: RecoverFromSnapshot_Save replay_closed)
  then show ?thesis
    by (simp add: replay_append)
qed

text \<open>C28: listing a bucket of a reachable state returns exactly the committed objects of that bucket
  with the prefix, in strictly ascending key order (so no object twice).\<close>

theorem listObjectMetas_complete_sorted:
  assumes "sm_reachable s"
  shows "set (listObjectMetas s bucket prefix) =
      {m. (\<exists>k. fmlookup (sm_objects s) k = Some m) \<and> om_bucket m = bucket \<and>
          has_prefix (om_key m) prefix} \<and>
    sorted_wrt (<) (map om_key (listObjectMetas s bucket prefix))"
  using assms sm_reachable_wf strict_sorted_listObjectMetas by (simp add: set_listObjectMetas)

theorem listObjectMetas_complete_sorted_witness:
  "sorted_wrt (<) (map om_key (listObjectMetas
     (fst (Update (fst (Update newRaftStateMachine (Some demo_bucket_cmd)))
        (Some demo_upsert_cmd))) ''b'' []))"
  using listObjectMetas_complete_sorted
    [OF sm_reachable.entry [OF sm_reachable.entry [OF sm_reachable.start]]] by blast

end
