(* ===== verification/Metadata_Interface.thy ===== *)
theory Metadata_Interface
  imports Model
begin

text \<open>
  The interface \<open>MetadataStore\<close> of \<open>internal/metadata/kv.go\<close>. A Go interface value is a record of its
  methods over a state type \<open>'m\<close>; every method returns the new state and an error or a value. The two
  implementations are in \<open>InMemory_Metadata\<close> and \<open>Raft_Metadata\<close>.

  The contract both promise is the locale \<open>metadata_store\<close>: each method refines an operation on an
  abstract view (the set of buckets, the committed objects, the staged objects and the blob
  references), or fails with a transport error. Methods are compared
  on the names the store layer passes (trimmed and not empty), and only where the two
  implementations agree; where they differ is stated with each implementation.
\<close>

datatype metadata_error =
    MErrBadRequest | MErrBucketExists | MErrBucketNotFound | MErrObjectNotFound
  | MErrOther string

type_synonym ('m, 'a) meta_op = "'m \<times> (metadata_error + 'a)"

record 'm MetadataStore =
  ListBuckets :: "'m \<Rightarrow> time \<Rightarrow> ('m, Bucket list) meta_op"
  BucketExists :: "'m \<Rightarrow> string \<Rightarrow> ('m, bool) meta_op"
  CreateBucket :: "'m \<Rightarrow> time \<Rightarrow> string \<Rightarrow> ('m, unit) meta_op"
  DeleteBucket :: "'m \<Rightarrow> string \<Rightarrow> ('m, unit) meta_op"
  ListObjectMetas :: "'m \<Rightarrow> string \<Rightarrow> string \<Rightarrow> ('m, ObjectMeta list) meta_op"
  ListStagedObjectMetas :: "'m \<Rightarrow> string \<Rightarrow> string \<Rightarrow> ('m, ObjectMeta list) meta_op"
  GetObjectMeta :: "'m \<Rightarrow> string \<Rightarrow> string \<Rightarrow> ('m, ObjectMeta option) meta_op"
  StageObjectMeta :: "'m \<Rightarrow> ObjectMeta \<Rightarrow> ('m, unit) meta_op"
  UpsertObjectMeta :: "'m \<Rightarrow> ObjectMeta \<Rightarrow> ('m, unit) meta_op"
  DeleteStagedObjectMeta :: "'m \<Rightarrow> string \<Rightarrow> string \<Rightarrow> ('m, ObjectMeta option) meta_op"
  DeleteObjectMeta :: "'m \<Rightarrow> string \<Rightarrow> string \<Rightarrow> ('m, ObjectMeta option) meta_op"
  ListBlobRefs :: "'m \<Rightarrow> ('m, BlobRef list) meta_op"
  GetBlobRef :: "'m \<Rightarrow> string \<Rightarrow> ('m, BlobRef option) meta_op"
  CreateBlobRef :: "'m \<Rightarrow> string \<Rightarrow> string \<Rightarrow> int \<Rightarrow> ShardPlacement list \<Rightarrow> string list \<Rightarrow> int list
      \<Rightarrow> ('m, unit) meta_op"
  UpdateBlobRefPlacements :: "'m \<Rightarrow> string \<Rightarrow> ShardPlacement list \<Rightarrow> ('m, unit) meta_op"
  IncreaseBlobRef :: "'m \<Rightarrow> string \<Rightarrow> ('m, unit) meta_op"
  DecreaseBlobRef :: "'m \<Rightarrow> string \<Rightarrow> ('m, string \<times> bool) meta_op"

section \<open>The abstract metadata service\<close>

record meta_view =
  mv_buckets :: "string fset"
  mv_objects :: "(string, ObjectMeta) fmap"
  mv_staged :: "(string, ObjectMeta) fmap"
  mv_refs :: "(string, BlobRef) fmap"

definition clean_name :: "string \<Rightarrow> bool" where
  "clean_name s \<longleftrightarrow> trim_space s = s \<and> s \<noteq> []"

definition clean_bucket :: "string \<Rightarrow> bool" where
  "clean_bucket s \<longleftrightarrow> clean_name s \<and> nul_free s"

definition clean_meta :: "ObjectMeta \<Rightarrow> bool" where
  "clean_meta m \<longleftrightarrow> clean_bucket (om_bucket m) \<and> clean_name (om_key m) \<and> clean_name (om_hash m)"

definition meta_key :: "ObjectMeta \<Rightarrow> string" where
  "meta_key m = object_key (om_bucket m) (om_key m)"

definition spec_BucketExists :: "meta_view \<Rightarrow> string \<Rightarrow> (meta_view, bool) meta_op" where
  "spec_BucketExists v b = (v, Inr (b |\<in>| mv_buckets v))"

definition spec_CreateBucket :: "meta_view \<Rightarrow> string \<Rightarrow> (meta_view, unit) meta_op" where
  "spec_CreateBucket v b =
     (if b |\<in>| mv_buckets v then (v, Inl MErrBucketExists)
      else (v\<lparr>mv_buckets := finsert b (mv_buckets v)\<rparr>, Inr ()))"

definition spec_DeleteBucket :: "meta_view \<Rightarrow> string \<Rightarrow> (meta_view, unit) meta_op" where
  "spec_DeleteBucket v b =
     (if b |\<notin>| mv_buckets v then (v, Inl MErrBucketNotFound)
      else (v\<lparr>mv_buckets := mv_buckets v |-| {|b|},
              mv_staged := fm_remove_if (\<lambda>m. om_bucket m = b) (mv_staged v)\<rparr>, Inr ()))"

definition spec_GetObjectMeta ::
  "meta_view \<Rightarrow> string \<Rightarrow> string \<Rightarrow> (meta_view, ObjectMeta option) meta_op" where
  "spec_GetObjectMeta v b k = (v, Inr (fmlookup (mv_objects v) (object_key b k)))"

definition spec_StageObjectMeta :: "meta_view \<Rightarrow> ObjectMeta \<Rightarrow> (meta_view, unit) meta_op" where
  "spec_StageObjectMeta v m =
     (if om_bucket m |\<notin>| mv_buckets v then (v, Inl MErrBucketNotFound)
      else (v\<lparr>mv_staged := fmupd (meta_key m) (m\<lparr>om_state := ObjectStatePending\<rparr>) (mv_staged v)\<rparr>,
            Inr ()))"

definition spec_UpsertObjectMeta :: "meta_view \<Rightarrow> ObjectMeta \<Rightarrow> (meta_view, unit) meta_op" where
  "spec_UpsertObjectMeta v m =
     (if om_bucket m |\<notin>| mv_buckets v then (v, Inl MErrBucketNotFound)
      else (v\<lparr>mv_objects := fmupd (meta_key m) (m\<lparr>om_state := ObjectStateCommitted\<rparr>) (mv_objects v)\<rparr>,
            Inr ()))"

definition spec_DeleteStagedObjectMeta ::
  "meta_view \<Rightarrow> string \<Rightarrow> string \<Rightarrow> (meta_view, ObjectMeta option) meta_op" where
  "spec_DeleteStagedObjectMeta v b k =
     (v\<lparr>mv_staged := fmdrop (object_key b k) (mv_staged v)\<rparr>,
      Inr (fmlookup (mv_staged v) (object_key b k)))"

definition spec_DeleteObjectMeta ::
  "meta_view \<Rightarrow> string \<Rightarrow> string \<Rightarrow> (meta_view, ObjectMeta option) meta_op" where
  "spec_DeleteObjectMeta v b k =
     (v\<lparr>mv_objects := fmdrop (object_key b k) (mv_objects v)\<rparr>,
      Inr (fmlookup (mv_objects v) (object_key b k)))"

definition spec_ListObjectMetas ::
  "meta_view \<Rightarrow> string \<Rightarrow> string \<Rightarrow> (meta_view, ObjectMeta list) meta_op" where
  "spec_ListObjectMetas v b p =
     (if b |\<notin>| mv_buckets v then (v, Inl MErrBucketNotFound)
      else (v, Inr (sort_key om_key
             (filter (\<lambda>m. om_bucket m = b \<and> has_prefix (om_key m) p) (fm_values (mv_objects v))))))"

definition spec_GetBlobRef :: "meta_view \<Rightarrow> string \<Rightarrow> (meta_view, BlobRef option) meta_op" where
  "spec_GetBlobRef v h = (v, Inr (map_option (\<lambda>r. r\<lparr>ref_hash := h\<rparr>) (fmlookup (mv_refs v) h)))"

definition new_ref :: "string \<Rightarrow> string \<Rightarrow> int \<Rightarrow> ShardPlacement list \<Rightarrow> string list \<Rightarrow> int list \<Rightarrow> BlobRef" where
  "new_ref h p n ps cs ns = \<lparr>ref_hash = h, ref_path = p, ref_placements = ps, ref_checksums = cs,
     ref_sizes = ns, ref_count = 1, ref_size = n\<rparr>"

definition spec_CreateBlobRef :: "meta_view \<Rightarrow> string \<Rightarrow> string \<Rightarrow> int \<Rightarrow> ShardPlacement list \<Rightarrow>
    string list \<Rightarrow> int list \<Rightarrow> (meta_view, unit) meta_op" where
  "spec_CreateBlobRef v h p n ps cs ns =
     (v\<lparr>mv_refs := fmupd h (new_ref h p n ps cs ns) (mv_refs v)\<rparr>, Inr ())"

definition spec_update_ref ::
  "meta_view \<Rightarrow> string \<Rightarrow> (BlobRef \<Rightarrow> BlobRef) \<Rightarrow> (meta_view, unit) meta_op" where
  "spec_update_ref v h f =
     (case fmlookup (mv_refs v) h of
        None \<Rightarrow> (v, Inl MErrObjectNotFound)
      | Some r \<Rightarrow> (v\<lparr>mv_refs := fmupd h (f r) (mv_refs v)\<rparr>, Inr ()))"

definition spec_IncreaseBlobRef :: "meta_view \<Rightarrow> string \<Rightarrow> (meta_view, unit) meta_op" where
  "spec_IncreaseBlobRef v h = spec_update_ref v h (\<lambda>r. r\<lparr>ref_count := ref_count r + 1\<rparr>)"

text \<open>Releasing a reference that exists; the path is that of a removed blob.\<close>

definition spec_DecreaseBlobRef :: "meta_view \<Rightarrow> string \<Rightarrow> (meta_view, string \<times> bool) meta_op" where
  "spec_DecreaseBlobRef v h =
     (case fmlookup (mv_refs v) h of
        None \<Rightarrow> (v, Inl MErrObjectNotFound)
      | Some r \<Rightarrow>
          if ref_count r \<le> 1 then (v\<lparr>mv_refs := fmdrop h (mv_refs v)\<rparr>, Inr (ref_path r, True))
          else (v\<lparr>mv_refs := fmupd h (r\<lparr>ref_count := ref_count r - 1\<rparr>) (mv_refs v)\<rparr>, Inr ([], False)))"

text \<open>The path is only meaningful when the blob was removed.\<close>

definition norm_release :: "('m, string \<times> bool) meta_op \<Rightarrow> ('m, string \<times> bool) meta_op" where
  "norm_release x = (case x of (m, Inr (p, True)) \<Rightarrow> (m, Inr (p, True))
     | (m, Inr (p, False)) \<Rightarrow> (m, Inr ([], False)) | (m, Inl e) \<Rightarrow> (m, Inl e))"

section \<open>Sequences of calls\<close>

text \<open>A client of the interface as the list of its calls; the reply is the error or the value.\<close>

datatype meta_call =
    CallBucketExists string
  | CallCreateBucket time string
  | CallDeleteBucket string
  | CallListObjectMetas string string
  | CallGetObjectMeta string string
  | CallStageObjectMeta ObjectMeta
  | CallUpsertObjectMeta ObjectMeta
  | CallDeleteStagedObjectMeta string string
  | CallDeleteObjectMeta string string
  | CallGetBlobRef string
  | CallCreateBlobRef string string int "ShardPlacement list" "string list" "int list"
  | CallIncreaseBlobRef string
  | CallDecreaseBlobRef string

datatype meta_reply =
    ReplyUnit "metadata_error + unit"
  | ReplyBool "metadata_error + bool"
  | ReplyObjects "metadata_error + ObjectMeta list"
  | ReplyObject "metadata_error + ObjectMeta option"
  | ReplyBlob "metadata_error + BlobRef option"
  | ReplyRelease "metadata_error + string \<times> bool"

definition run_call :: "'m MetadataStore \<Rightarrow> 'm \<Rightarrow> meta_call \<Rightarrow> 'm \<times> meta_reply" where
  "run_call M m c =
     (case c of
        CallBucketExists b \<Rightarrow> apsnd ReplyBool (BucketExists M m b)
      | CallCreateBucket t b \<Rightarrow> apsnd ReplyUnit (CreateBucket M m t b)
      | CallDeleteBucket b \<Rightarrow> apsnd ReplyUnit (DeleteBucket M m b)
      | CallListObjectMetas b p \<Rightarrow> apsnd ReplyObjects (ListObjectMetas M m b p)
      | CallGetObjectMeta b k \<Rightarrow> apsnd ReplyObject (GetObjectMeta M m b k)
      | CallStageObjectMeta x \<Rightarrow> apsnd ReplyUnit (StageObjectMeta M m x)
      | CallUpsertObjectMeta x \<Rightarrow> apsnd ReplyUnit (UpsertObjectMeta M m x)
      | CallDeleteStagedObjectMeta b k \<Rightarrow> apsnd ReplyObject (DeleteStagedObjectMeta M m b k)
      | CallDeleteObjectMeta b k \<Rightarrow> apsnd ReplyObject (DeleteObjectMeta M m b k)
      | CallGetBlobRef h \<Rightarrow> apsnd ReplyBlob (GetBlobRef M m h)
      | CallCreateBlobRef h p n ps cs ns \<Rightarrow> apsnd ReplyUnit (CreateBlobRef M m h p n ps cs ns)
      | CallIncreaseBlobRef h \<Rightarrow> apsnd ReplyUnit (IncreaseBlobRef M m h)
      | CallDecreaseBlobRef h \<Rightarrow> apsnd ReplyRelease (norm_release (DecreaseBlobRef M m h)))"

definition spec_call :: "meta_view \<Rightarrow> meta_call \<Rightarrow> meta_view \<times> meta_reply" where
  "spec_call v c =
     (case c of
        CallBucketExists b \<Rightarrow> apsnd ReplyBool (spec_BucketExists v b)
      | CallCreateBucket t b \<Rightarrow> apsnd ReplyUnit (spec_CreateBucket v b)
      | CallDeleteBucket b \<Rightarrow> apsnd ReplyUnit (spec_DeleteBucket v b)
      | CallListObjectMetas b p \<Rightarrow> apsnd ReplyObjects (spec_ListObjectMetas v b p)
      | CallGetObjectMeta b k \<Rightarrow> apsnd ReplyObject (spec_GetObjectMeta v b k)
      | CallStageObjectMeta x \<Rightarrow> apsnd ReplyUnit (spec_StageObjectMeta v x)
      | CallUpsertObjectMeta x \<Rightarrow> apsnd ReplyUnit (spec_UpsertObjectMeta v x)
      | CallDeleteStagedObjectMeta b k \<Rightarrow> apsnd ReplyObject (spec_DeleteStagedObjectMeta v b k)
      | CallDeleteObjectMeta b k \<Rightarrow> apsnd ReplyObject (spec_DeleteObjectMeta v b k)
      | CallGetBlobRef h \<Rightarrow> apsnd ReplyBlob (spec_GetBlobRef v h)
      | CallCreateBlobRef h p n ps cs ns \<Rightarrow> apsnd ReplyUnit (spec_CreateBlobRef v h p n ps cs ns)
      | CallIncreaseBlobRef h \<Rightarrow> apsnd ReplyUnit (spec_IncreaseBlobRef v h)
      | CallDecreaseBlobRef h \<Rightarrow> apsnd ReplyRelease (spec_DecreaseBlobRef v h))"

text \<open>The calls the store layer makes: clean names; a bucket is deleted when it is empty, a blob
  reference is created when there is none and released when there is one.\<close>

definition call_ok :: "meta_view \<Rightarrow> meta_call \<Rightarrow> bool" where
  "call_ok v c =
     (case c of
        CallBucketExists b \<Rightarrow> clean_bucket b
      | CallCreateBucket t b \<Rightarrow> clean_bucket b
      | CallDeleteBucket b \<Rightarrow> clean_bucket b \<and> fmpred (\<lambda>_ x. om_bucket x \<noteq> b) (mv_objects v)
      | CallListObjectMetas b p \<Rightarrow> clean_bucket b
      | CallGetObjectMeta b k \<Rightarrow> clean_bucket b \<and> clean_name k
      | CallStageObjectMeta x \<Rightarrow> clean_meta x
      | CallUpsertObjectMeta x \<Rightarrow> clean_meta x
      | CallDeleteStagedObjectMeta b k \<Rightarrow> clean_bucket b \<and> clean_name k
      | CallDeleteObjectMeta b k \<Rightarrow> clean_bucket b \<and> clean_name k
      | CallGetBlobRef h \<Rightarrow> clean_name h
      | CallCreateBlobRef h p n ps cs ns \<Rightarrow>
          clean_name h \<and> trim_space p \<noteq> [] \<and> fmlookup (mv_refs v) h = None
      | CallIncreaseBlobRef h \<Rightarrow> clean_name h
      | CallDecreaseBlobRef h \<Rightarrow> clean_name h \<and> fmlookup (mv_refs v) h \<noteq> None)"

fun run_calls :: "'m MetadataStore \<Rightarrow> 'm \<Rightarrow> meta_call list \<Rightarrow> 'm \<times> meta_reply list" where
  "run_calls M m [] = (m, [])"
| "run_calls M m (c # cs) =
     (case run_call M m c of (m, r) \<Rightarrow> case run_calls M m cs of (m, rs) \<Rightarrow> (m, r # rs))"

fun spec_calls :: "meta_view \<Rightarrow> meta_call list \<Rightarrow> meta_view \<times> meta_reply list" where
  "spec_calls v [] = (v, [])"
| "spec_calls v (c # cs) =
     (case spec_call v c of (v, r) \<Rightarrow> case spec_calls v cs of (v, rs) \<Rightarrow> (v, r # rs))"

fun calls_ok :: "meta_view \<Rightarrow> meta_call list \<Rightarrow> bool" where
  "calls_ok v [] = True"
| "calls_ok v (c # cs) = (call_ok v c \<and> calls_ok (fst (spec_call v c)) cs)"

section \<open>The contract\<close>

text \<open>
  \<open>refines\<close> relates one call: the invariant is kept; either view and result are those of the abstract
  operation, or the call failed in transport: then the outcome is unknown to the caller, and the view
  is either unchanged or the operation took effect. A state is \<open>quiet\<close> when no transport failure is
  pending.
\<close>

definition refines :: "('m \<Rightarrow> meta_view) \<Rightarrow> ('m \<Rightarrow> bool) \<Rightarrow> ('m \<Rightarrow> bool) \<Rightarrow> 'm \<Rightarrow>
    ('m, 'a) meta_op \<Rightarrow> (meta_view, 'a) meta_op \<Rightarrow> bool" where
  "refines view ok quiet m c a \<longleftrightarrow> ok (fst c) \<and> (quiet m \<longrightarrow> quiet (fst c)) \<and>
     (view (fst c) = fst a \<and> snd c = snd a \<or>
      \<not> quiet m \<and> view (fst c) \<in> {view m, fst a} \<and> (\<exists>t. snd c = Inl (MErrOther t)))"

locale metadata_store =
  fixes M :: "'m MetadataStore"
    and view :: "'m \<Rightarrow> meta_view"
    and ok :: "'m \<Rightarrow> bool"
    and quiet :: "'m \<Rightarrow> bool"
  assumes BucketExists: "ok m \<Longrightarrow> clean_bucket b \<Longrightarrow>
      refines view ok quiet m (BucketExists M m b) (spec_BucketExists (view m) b)"
    and CreateBucket: "ok m \<Longrightarrow> clean_bucket b \<Longrightarrow>
      refines view ok quiet m (CreateBucket M m t b) (spec_CreateBucket (view m) b)"
    and DeleteBucket: "ok m \<Longrightarrow> clean_bucket b \<Longrightarrow>
      fmpred (\<lambda>_ x. om_bucket x \<noteq> b) (mv_objects (view m)) \<Longrightarrow>
      refines view ok quiet m (DeleteBucket M m b) (spec_DeleteBucket (view m) b)"
    and ListObjectMetas: "ok m \<Longrightarrow> clean_bucket b \<Longrightarrow>
      refines view ok quiet m (ListObjectMetas M m b p) (spec_ListObjectMetas (view m) b p)"
    and GetObjectMeta: "ok m \<Longrightarrow> clean_bucket b \<Longrightarrow> clean_name k \<Longrightarrow>
      refines view ok quiet m (GetObjectMeta M m b k) (spec_GetObjectMeta (view m) b k)"
    and StageObjectMeta: "ok m \<Longrightarrow> clean_meta x \<Longrightarrow>
      refines view ok quiet m (StageObjectMeta M m x) (spec_StageObjectMeta (view m) x)"
    and UpsertObjectMeta: "ok m \<Longrightarrow> clean_meta x \<Longrightarrow>
      refines view ok quiet m (UpsertObjectMeta M m x) (spec_UpsertObjectMeta (view m) x)"
    and DeleteStagedObjectMeta: "ok m \<Longrightarrow> clean_bucket b \<Longrightarrow> clean_name k \<Longrightarrow>
      refines view ok quiet m (DeleteStagedObjectMeta M m b k) (spec_DeleteStagedObjectMeta (view m) b k)"
    and DeleteObjectMeta: "ok m \<Longrightarrow> clean_bucket b \<Longrightarrow> clean_name k \<Longrightarrow>
      refines view ok quiet m (DeleteObjectMeta M m b k) (spec_DeleteObjectMeta (view m) b k)"
    and GetBlobRef: "ok m \<Longrightarrow> clean_name h \<Longrightarrow>
      refines view ok quiet m (GetBlobRef M m h) (spec_GetBlobRef (view m) h)"
    and CreateBlobRef: "ok m \<Longrightarrow> clean_name h \<Longrightarrow> trim_space p \<noteq> [] \<Longrightarrow>
      fmlookup (mv_refs (view m)) h = None \<Longrightarrow>
      refines view ok quiet m (CreateBlobRef M m h p n ps cs ns)
        (spec_CreateBlobRef (view m) h p n ps cs ns)"
    and IncreaseBlobRef: "ok m \<Longrightarrow> clean_name h \<Longrightarrow>
      refines view ok quiet m (IncreaseBlobRef M m h) (spec_IncreaseBlobRef (view m) h)"
    and DecreaseBlobRef: "ok m \<Longrightarrow> clean_name h \<Longrightarrow> fmlookup (mv_refs (view m)) h \<noteq> None \<Longrightarrow>
      refines view ok quiet m (norm_release (DecreaseBlobRef M m h))
        (spec_DecreaseBlobRef (view m) h)"
    and objects_ok: "ok m \<Longrightarrow> fmpred (\<lambda>i x. i = meta_key x \<and> om_bucket x |\<in>| mv_buckets (view m) \<and>
        clean_bucket (om_bucket x)) (mv_objects (view m))"
begin

text \<open>Reading what was written: a committed object is found again, whatever else the service did.\<close>

lemma get_after_upsert:
  assumes "ok m" "quiet m" "clean_meta x" "om_bucket x |\<in>| mv_buckets (view m)"
  shows "snd (GetObjectMeta M (fst (UpsertObjectMeta M m x)) (om_bucket x) (om_key x)) =
     Inr (Some (x\<lparr>om_state := ObjectStateCommitted\<rparr>))"
proof -
  have u: "ok (fst (UpsertObjectMeta M m x))" "quiet (fst (UpsertObjectMeta M m x))"
    "view (fst (UpsertObjectMeta M m x)) = fst (spec_UpsertObjectMeta (view m) x)"
    using UpsertObjectMeta [OF assms(1,3)] assms(2) by (auto simp: refines_def)
  have "clean_bucket (om_bucket x)" "clean_name (om_key x)"
    using assms(3) by (auto simp: clean_meta_def)
  from GetObjectMeta [OF u(1) this] u(2,3) assms(4) show ?thesis
    by (auto simp: refines_def spec_GetObjectMeta_def spec_UpsertObjectMeta_def meta_key_def)
qed

lemma get_other_after_upsert:
  assumes "ok m" "quiet m" "clean_meta x" "clean_bucket b" "clean_name k"
    and "(b, k) \<noteq> (om_bucket x, om_key x)"
  shows "snd (GetObjectMeta M (fst (UpsertObjectMeta M m x)) b k) = snd (GetObjectMeta M m b k)"
proof -
  have u: "ok (fst (UpsertObjectMeta M m x))" "quiet (fst (UpsertObjectMeta M m x))"
    "view (fst (UpsertObjectMeta M m x)) = fst (spec_UpsertObjectMeta (view m) x)"
    using UpsertObjectMeta [OF assms(1,3)] assms(2) by (auto simp: refines_def)
  have "nul_free b" "nul_free (om_bucket x)"
    using assms(3,4) by (auto simp: clean_meta_def clean_bucket_def)
  then have "object_key b k \<noteq> meta_key x"
    using assms(6) by (auto simp: meta_key_def object_key_inject)
  then show ?thesis
    using GetObjectMeta [OF u(1) assms(4,5)] GetObjectMeta [OF assms(1,4,5)] u(2,3) assms(2)
    by (auto simp: refines_def spec_GetObjectMeta_def spec_UpsertObjectMeta_def)
qed

text \<open>A retain and a release cancel out.\<close>

lemma increase_decrease:
  assumes "ok m" "quiet m" "clean_name h" "fmlookup (mv_refs (view m)) h = Some r" "1 \<le> ref_count r"
  shows "view (fst (DecreaseBlobRef M (fst (IncreaseBlobRef M m h)) h)) = view m"
proof -
  let ?m = "fst (IncreaseBlobRef M m h)"
  let ?r = "r\<lparr>ref_count := ref_count r + 1\<rparr>"
  have i: "ok ?m" "quiet ?m" "view ?m = fst (spec_IncreaseBlobRef (view m) h)"
    using IncreaseBlobRef [OF assms(1,3)] assms(2) by (auto simp: refines_def)
  then have v: "view ?m = (view m)\<lparr>mv_refs := fmupd h ?r (mv_refs (view m))\<rparr>"
    using assms(4) by (simp add: spec_IncreaseBlobRef_def spec_update_ref_def)
  have d: "refines view ok quiet ?m (norm_release (DecreaseBlobRef M ?m h))
      (spec_DecreaseBlobRef (view ?m) h)"
    by (rule DecreaseBlobRef [OF i(1) assms(3)]) (simp add: v)
  have "fst (norm_release (DecreaseBlobRef M ?m h)) = fst (DecreaseBlobRef M ?m h)"
    by (auto simp: norm_release_def split: prod.splits sum.splits bool.splits)
  then have "view (fst (DecreaseBlobRef M ?m h)) = fst (spec_DecreaseBlobRef (view ?m) h)"
    using d i(2) by (auto simp: refines_def)
  also have "\<dots> = view m"
  proof -
    have "fmupd h r (fmupd h ?r (mv_refs (view m))) = mv_refs (view m)"
      using assms(4) by (intro fmap_ext) auto
    then show ?thesis
      using assms(5) by (simp add: v spec_DecreaseBlobRef_def)
  qed
  finally show ?thesis .
qed

text \<open>Without transport failures a sequence of calls gives the replies of the abstract service.\<close>

lemma run_call_spec:
  assumes "ok m" "quiet m" "call_ok (view m) c"
  shows "ok (fst (run_call M m c)) \<and> quiet (fst (run_call M m c)) \<and>
    view (fst (run_call M m c)) = fst (spec_call (view m) c) \<and>
    snd (run_call M m c) = snd (spec_call (view m) c)"
proof -
  have e: "ok (fst x) \<and> quiet (fst x) \<and> view (fst x) = fst a \<and> snd x = snd a"
    if "refines view ok quiet m x a" for x :: "('m, 'x) meta_op" and a
    using that assms(2) by (auto simp: refines_def)
  show ?thesis
    using assms(1,3)
    by (cases c)
      (simp_all add: run_call_def spec_call_def call_ok_def e [OF BucketExists] e [OF CreateBucket]
        e [OF DeleteBucket] e [OF ListObjectMetas] e [OF GetObjectMeta] e [OF StageObjectMeta]
        e [OF UpsertObjectMeta] e [OF DeleteStagedObjectMeta] e [OF DeleteObjectMeta]
        e [OF GetBlobRef] e [OF CreateBlobRef] e [OF IncreaseBlobRef] e [OF DecreaseBlobRef])
qed

lemma run_calls_spec:
  assumes "ok m" "quiet m" "calls_ok (view m) cs"
  shows "ok (fst (run_calls M m cs)) \<and> view (fst (run_calls M m cs)) = fst (spec_calls (view m) cs) \<and>
    snd (run_calls M m cs) = snd (spec_calls (view m) cs)"
  using assms
proof (induction cs arbitrary: m)
  case Nil
  then show ?case by simp
next
  case (Cons c cs)
  from Cons.prems have "call_ok (view m) c" by simp
  note s = run_call_spec [OF Cons.prems(1,2) this]
  show ?case
    using Cons.IH [of "fst (run_call M m c)"] Cons.prems s by (simp add: case_prod_unfold)
qed

end

end
