(* ===== verification/InMemory_Metadata.thy ===== *)
theory InMemory_Metadata
  imports Metadata_Interface
begin

text \<open>
  The process-local metadata store: \<open>InMemoryMetadata\<close> of \<open>internal/metadata/kv.go\<close>, \<open>blob_ref.go\<close> and
  \<open>staged.go\<close>. Each bucket holds the set of its object keys beside the global object table. The mutex
  makes every method atomic. Go iterates over a map in an unspecified order; the model visits the
  keys in ascending order, which only \<open>ListBlobRefs\<close> lets a caller see.
\<close>

section \<open>State and operations\<close>

record InMemoryMetadata =
  im_buckets :: "(string, string fset) fmap"
  im_objects :: "(string, ObjectMeta) fmap"
  im_staged :: "(string, ObjectMeta) fmap"
  im_blobs :: "(string, BlobRef) fmap"

definition NewInMemoryMetadata :: InMemoryMetadata where
  "NewInMemoryMetadata = \<lparr>im_buckets = fmempty, im_objects = fmempty, im_staged = fmempty,
     im_blobs = fmempty\<rparr>"

definition objectID :: "string \<Rightarrow> string \<Rightarrow> string" where
  "objectID bucket key = object_key bucket key"

definition InMemory_ListBuckets ::
  "InMemoryMetadata \<Rightarrow> time \<Rightarrow> (InMemoryMetadata, Bucket list) meta_op" where
  "InMemory_ListBuckets m now =
     (m, Inr (sort_key bkt_name
        (map (\<lambda>name. \<lparr>bkt_name = name, bkt_created = now\<rparr>) (fm_keys (im_buckets m)))))"

definition InMemory_BucketExists ::
  "InMemoryMetadata \<Rightarrow> string \<Rightarrow> (InMemoryMetadata, bool) meta_op" where
  "InMemory_BucketExists m bucket =
     (let bucket = trim_space bucket in
      if bucket = [] then (m, Inl MErrBadRequest)
      else (m, Inr (fmlookup (im_buckets m) bucket \<noteq> None)))"

definition InMemory_CreateBucket ::
  "InMemoryMetadata \<Rightarrow> string \<Rightarrow> (InMemoryMetadata, unit) meta_op" where
  "InMemory_CreateBucket m bucket =
     (let bucket = trim_space bucket in
      if bucket = [] then (m, Inl MErrBadRequest)
      else if fmlookup (im_buckets m) bucket \<noteq> None then (m, Inl MErrBucketExists)
      else (m\<lparr>im_buckets := fmupd bucket {||} (im_buckets m)\<rparr>, Inr ()))"

definition decreaseBlobRefLocked ::
  "InMemoryMetadata \<Rightarrow> string \<Rightarrow> (InMemoryMetadata, string \<times> bool) meta_op" where
  "decreaseBlobRefLocked m hash =
     (case fmlookup (im_blobs m) hash of
        None \<Rightarrow> (m, Inl MErrObjectNotFound)
      | Some ref \<Rightarrow>
          let ref = ref\<lparr>ref_count := ref_count ref - 1\<rparr> in
          if ref_count ref \<le> 0
          then (m\<lparr>im_blobs := fmdrop hash (im_blobs m)\<rparr>, Inr (ref_path ref, True))
          else (m\<lparr>im_blobs := fmupd hash ref (im_blobs m)\<rparr>, Inr (ref_path ref, False)))"

text \<open>The loop of \<open>DeleteBucket\<close> over the keys of the bucket; a missing entry reads as the zero meta,
  and an error other than \<open>ErrObjectNotFound\<close> ends it.\<close>

fun delete_bucket_keys ::
  "InMemoryMetadata \<Rightarrow> string \<Rightarrow> string list \<Rightarrow> (InMemoryMetadata, unit) meta_op" where
  "delete_bucket_keys m bucket [] = (m, Inr ())"
| "delete_bucket_keys m bucket (key # keys) =
     (let id = objectID bucket key;
          meta = (case fmlookup (im_objects m) id of None \<Rightarrow> zero_ObjectMeta | Some x \<Rightarrow> x);
          m = m\<lparr>im_objects := fmdrop id (im_objects m)\<rparr>
      in case decreaseBlobRefLocked m (om_hash meta) of
           (m, Inl e) \<Rightarrow> if e \<noteq> MErrObjectNotFound then (m, Inl e)
                         else delete_bucket_keys m bucket keys
         | (m, Inr _) \<Rightarrow> delete_bucket_keys m bucket keys)"

definition InMemory_DeleteBucket ::
  "InMemoryMetadata \<Rightarrow> string \<Rightarrow> (InMemoryMetadata, unit) meta_op" where
  "InMemory_DeleteBucket m bucket =
     (let bucket = trim_space bucket in
      if bucket = [] then (m, Inl MErrBadRequest)
      else case fmlookup (im_buckets m) bucket of
        None \<Rightarrow> (m, Inl MErrBucketNotFound)
      | Some keys \<Rightarrow>
          (case delete_bucket_keys m bucket (sorted_list_of_fset keys) of
             (m, Inl e) \<Rightarrow> (m, Inl e)
           | (m, Inr _) \<Rightarrow>
               (m\<lparr>im_buckets := fmdrop bucket (im_buckets m),
                  im_staged := fm_remove_if (\<lambda>meta. om_bucket meta = bucket) (im_staged m)\<rparr>,
                Inr ())))"

definition InMemory_ListObjectMetas ::
  "InMemoryMetadata \<Rightarrow> string \<Rightarrow> string \<Rightarrow> (InMemoryMetadata, ObjectMeta list) meta_op" where
  "InMemory_ListObjectMetas m bucket prefix =
     (let bucket = trim_space bucket in
      if bucket = [] then (m, Inl MErrBadRequest)
      else case fmlookup (im_buckets m) bucket of
        None \<Rightarrow> (m, Inl MErrBucketNotFound)
      | Some keys \<Rightarrow>
          (m, Inr (sort_key om_key
             (map (\<lambda>key. case fmlookup (im_objects m) (objectID bucket key) of
                            None \<Rightarrow> zero_ObjectMeta | Some meta \<Rightarrow> meta)
                (filter (\<lambda>key. has_prefix key prefix) (sorted_list_of_fset keys))))))"

definition InMemory_GetObjectMeta ::
  "InMemoryMetadata \<Rightarrow> string \<Rightarrow> string \<Rightarrow> (InMemoryMetadata, ObjectMeta option) meta_op" where
  "InMemory_GetObjectMeta m bucket key =
     (let bucket = trim_space bucket; key = trim_space key in
      if bucket = [] \<or> key = [] then (m, Inl MErrBadRequest)
      else (m, Inr (fmlookup (im_objects m) (objectID bucket key))))"

definition InMemory_UpsertObjectMeta ::
  "InMemoryMetadata \<Rightarrow> ObjectMeta \<Rightarrow> (InMemoryMetadata, unit) meta_op" where
  "InMemory_UpsertObjectMeta m meta =
     (let meta = meta\<lparr>om_bucket := trim_space (om_bucket meta), om_key := trim_space (om_key meta)\<rparr> in
      if om_bucket meta = [] \<or> om_key meta = [] then (m, Inl MErrBadRequest)
      else let meta = meta\<lparr>om_state := ObjectStateCommitted\<rparr> in
        case fmlookup (im_buckets m) (om_bucket meta) of
          None \<Rightarrow> (m, Inl MErrBucketNotFound)
        | Some keys \<Rightarrow>
            (m\<lparr>im_buckets := fmupd (om_bucket meta) (finsert (om_key meta) keys) (im_buckets m),
               im_objects := fmupd (objectID (om_bucket meta) (om_key meta)) meta (im_objects m)\<rparr>,
             Inr ()))"

definition InMemory_DeleteObjectMeta ::
  "InMemoryMetadata \<Rightarrow> string \<Rightarrow> string \<Rightarrow> (InMemoryMetadata, ObjectMeta option) meta_op" where
  "InMemory_DeleteObjectMeta m bucket key =
     (let bucket = trim_space bucket; key = trim_space key in
      if bucket = [] \<or> key = [] then (m, Inl MErrBadRequest)
      else let id = objectID bucket key in
        case fmlookup (im_objects m) id of
          None \<Rightarrow> (m, Inr None)
        | Some meta \<Rightarrow>
            let m = m\<lparr>im_objects := fmdrop id (im_objects m)\<rparr> in
            (case fmlookup (im_buckets m) bucket of
               None \<Rightarrow> m
             | Some keys \<Rightarrow> m\<lparr>im_buckets := fmupd bucket (keys |-| {|key|}) (im_buckets m)\<rparr>,
             Inr (Some meta)))"

definition validateOptionalBucketLocked :: "InMemoryMetadata \<Rightarrow> string \<Rightarrow> metadata_error option" where
  "validateOptionalBucketLocked m bucket =
     (if bucket = [] then None
      else if fmlookup (im_buckets m) bucket = None then Some MErrBucketNotFound
      else None)"

definition addMatchingStagedObject :: "ObjectMeta \<Rightarrow> string \<Rightarrow> string \<Rightarrow> bool" where
  "addMatchingStagedObject meta bucket prefix =
     (if bucket \<noteq> [] \<and> om_bucket meta \<noteq> bucket then False
      else if prefix \<noteq> [] \<and> \<not> has_prefix (om_key meta) prefix then False
      else True)"

definition InMemory_ListStagedObjectMetas ::
  "InMemoryMetadata \<Rightarrow> string \<Rightarrow> string \<Rightarrow> (InMemoryMetadata, ObjectMeta list) meta_op" where
  "InMemory_ListStagedObjectMetas m bucket prefix =
     (let bucket = trim_space bucket in
      case validateOptionalBucketLocked m bucket of
        Some e \<Rightarrow> (m, Inl e)
      | None \<Rightarrow> (m, Inr (sort_key (\<lambda>meta. (om_bucket meta, om_key meta))
          (filter (\<lambda>meta. addMatchingStagedObject meta bucket prefix) (fm_values (im_staged m))))))"

definition InMemory_StageObjectMeta ::
  "InMemoryMetadata \<Rightarrow> ObjectMeta \<Rightarrow> (InMemoryMetadata, unit) meta_op" where
  "InMemory_StageObjectMeta m meta =
     (let meta = meta\<lparr>om_bucket := trim_space (om_bucket meta), om_key := trim_space (om_key meta),
                      om_hash := trim_space (om_hash meta)\<rparr> in
      if om_bucket meta = [] \<or> om_key meta = [] \<or> om_hash meta = [] then (m, Inl MErrBadRequest)
      else let meta = meta\<lparr>om_state := ObjectStatePending\<rparr> in
        if fmlookup (im_buckets m) (om_bucket meta) = None then (m, Inl MErrBucketNotFound)
        else (m\<lparr>im_staged := fmupd (objectID (om_bucket meta) (om_key meta)) meta (im_staged m)\<rparr>,
              Inr ()))"

definition InMemory_DeleteStagedObjectMeta ::
  "InMemoryMetadata \<Rightarrow> string \<Rightarrow> string \<Rightarrow> (InMemoryMetadata, ObjectMeta option) meta_op" where
  "InMemory_DeleteStagedObjectMeta m bucket key =
     (let bucket = trim_space bucket; key = trim_space key in
      if bucket = [] \<or> key = [] then (m, Inl MErrBadRequest)
      else let id = objectID bucket key in
        case fmlookup (im_staged m) id of
          None \<Rightarrow> (m, Inr None)
        | Some meta \<Rightarrow> (m\<lparr>im_staged := fmdrop id (im_staged m)\<rparr>, Inr (Some meta)))"

definition InMemory_GetBlobRef ::
  "InMemoryMetadata \<Rightarrow> string \<Rightarrow> (InMemoryMetadata, BlobRef option) meta_op" where
  "InMemory_GetBlobRef m hash =
     (m, Inr (map_option (\<lambda>ref. ref\<lparr>ref_hash := hash\<rparr>) (fmlookup (im_blobs m) hash)))"

definition InMemory_ListBlobRefs :: "InMemoryMetadata \<Rightarrow> (InMemoryMetadata, BlobRef list) meta_op" where
  "InMemory_ListBlobRefs m =
     (m, Inr (map (\<lambda>(hash, ref). ref\<lparr>ref_hash := hash\<rparr>) (fm_entries (im_blobs m))))"

definition InMemory_CreateBlobRef ::
  "InMemoryMetadata \<Rightarrow> string \<Rightarrow> string \<Rightarrow> int \<Rightarrow> ShardPlacement list \<Rightarrow> string list \<Rightarrow> int list
     \<Rightarrow> (InMemoryMetadata, unit) meta_op" where
  "InMemory_CreateBlobRef m hash path sz placements checksums shardSizes =
     (if fmlookup (im_blobs m) hash \<noteq> None then (m, Inr ())
      else (m\<lparr>im_blobs := fmupd hash \<lparr>ref_hash = hash, ref_path = path,
               ref_placements = placements, ref_checksums = checksums, ref_sizes = shardSizes,
               ref_count = 1, ref_size = sz\<rparr> (im_blobs m)\<rparr>, Inr ()))"

definition InMemory_UpdateBlobRefPlacements ::
  "InMemoryMetadata \<Rightarrow> string \<Rightarrow> ShardPlacement list \<Rightarrow> (InMemoryMetadata, unit) meta_op" where
  "InMemory_UpdateBlobRefPlacements m hash placements =
     (case fmlookup (im_blobs m) hash of
        None \<Rightarrow> (m, Inl MErrObjectNotFound)
      | Some ref \<Rightarrow>
          (m\<lparr>im_blobs := fmupd hash (ref\<lparr>ref_placements := placements\<rparr>) (im_blobs m)\<rparr>, Inr ()))"

definition InMemory_IncreaseBlobRef ::
  "InMemoryMetadata \<Rightarrow> string \<Rightarrow> (InMemoryMetadata, unit) meta_op" where
  "InMemory_IncreaseBlobRef m hash =
     (case fmlookup (im_blobs m) hash of
        None \<Rightarrow> (m, Inl MErrObjectNotFound)
      | Some ref \<Rightarrow>
          (m\<lparr>im_blobs := fmupd hash (ref\<lparr>ref_count := ref_count ref + 1\<rparr>) (im_blobs m)\<rparr>, Inr ()))"

definition InMemory_DecreaseBlobRef ::
  "InMemoryMetadata \<Rightarrow> string \<Rightarrow> (InMemoryMetadata, string \<times> bool) meta_op" where
  "InMemory_DecreaseBlobRef m hash = decreaseBlobRefLocked m hash"

definition inMemoryStore :: "InMemoryMetadata MetadataStore" where
  "inMemoryStore = \<lparr>
     ListBuckets = InMemory_ListBuckets,
     BucketExists = InMemory_BucketExists,
     CreateBucket = (\<lambda>m _. InMemory_CreateBucket m),
     DeleteBucket = InMemory_DeleteBucket,
     ListObjectMetas = InMemory_ListObjectMetas,
     ListStagedObjectMetas = InMemory_ListStagedObjectMetas,
     GetObjectMeta = InMemory_GetObjectMeta,
     StageObjectMeta = InMemory_StageObjectMeta,
     UpsertObjectMeta = InMemory_UpsertObjectMeta,
     DeleteStagedObjectMeta = InMemory_DeleteStagedObjectMeta,
     DeleteObjectMeta = InMemory_DeleteObjectMeta,
     ListBlobRefs = InMemory_ListBlobRefs,
     GetBlobRef = InMemory_GetBlobRef,
     CreateBlobRef = InMemory_CreateBlobRef,
     UpdateBlobRefPlacements = InMemory_UpdateBlobRefPlacements,
     IncreaseBlobRef = InMemory_IncreaseBlobRef,
     DecreaseBlobRef = InMemory_DecreaseBlobRef\<rparr>"

section \<open>The contract\<close>

definition im_view :: "InMemoryMetadata \<Rightarrow> meta_view" where
  "im_view m = \<lparr>mv_buckets = fmdom (im_buckets m), mv_objects = im_objects m,
     mv_staged = im_staged m, mv_refs = im_blobs m\<rparr>"

text \<open>The key sets of the buckets and the object table describe the same objects.\<close>

definition im_ok :: "InMemoryMetadata \<Rightarrow> bool" where
  "im_ok m \<longleftrightarrow>
     fmpred (\<lambda>b ks. clean_bucket b \<and> (\<forall>k. k |\<in>| ks \<longrightarrow> fmlookup (im_objects m) (object_key b k) \<noteq> None))
       (im_buckets m) \<and>
     fmpred (\<lambda>i x. i = meta_key x \<and> (\<exists>ks. fmlookup (im_buckets m) (om_bucket x) = Some ks \<and> om_key x |\<in>| ks))
       (im_objects m)"

lemma im_okD:
  assumes "im_ok m"
  shows "fmlookup (im_buckets m) b = Some ks \<Longrightarrow> clean_bucket b"
    and "fmlookup (im_buckets m) b = Some ks \<Longrightarrow> k |\<in>| ks \<Longrightarrow>
           \<exists>x. fmlookup (im_objects m) (object_key b k) = Some x"
    and "fmlookup (im_objects m) i = Some x \<Longrightarrow> i = meta_key x"
    and "fmlookup (im_objects m) i = Some x \<Longrightarrow>
           \<exists>ks. fmlookup (im_buckets m) (om_bucket x) = Some ks \<and> om_key x |\<in>| ks"
  using assms by (auto simp: im_ok_def fmpred_iff)

lemma im_okI:
  assumes "\<And>b ks. fmlookup (im_buckets m) b = Some ks \<Longrightarrow> clean_bucket b"
    and "\<And>b ks k. fmlookup (im_buckets m) b = Some ks \<Longrightarrow> k |\<in>| ks \<Longrightarrow>
           \<exists>x. fmlookup (im_objects m) (object_key b k) = Some x"
    and "\<And>i x. fmlookup (im_objects m) i = Some x \<Longrightarrow> i = meta_key x"
    and "\<And>i x. fmlookup (im_objects m) i = Some x \<Longrightarrow>
           \<exists>ks. fmlookup (im_buckets m) (om_bucket x) = Some ks \<and> om_key x |\<in>| ks"
  shows "im_ok m"
  using assms by (fastforce simp: im_ok_def fmpred_iff)

lemma NewInMemoryMetadata_ok: "im_ok NewInMemoryMetadata"
  by (simp add: im_ok_def NewInMemoryMetadata_def)

text \<open>What the invariant does not depend on.\<close>

lemma im_ok_frame [simp]:
  "im_ok (m\<lparr>im_staged := st\<rparr>) = im_ok m" "im_ok (m\<lparr>im_blobs := bs\<rparr>) = im_ok m"
  by (simp_all add: im_ok_def)

lemma clean_nameD: "clean_name s \<Longrightarrow> trim_space s = s" "clean_name s \<Longrightarrow> s \<noteq> []"
  by (simp_all add: clean_name_def)

lemma clean_bucketD:
  "clean_bucket s \<Longrightarrow> trim_space s = s" "clean_bucket s \<Longrightarrow> s \<noteq> []" "clean_bucket s \<Longrightarrow> nul_free s"
  by (simp_all add: clean_bucket_def clean_name_def)

lemma clean_metaD:
  "clean_meta x \<Longrightarrow> clean_bucket (om_bucket x)" "clean_meta x \<Longrightarrow> clean_name (om_key x)"
  "clean_meta x \<Longrightarrow> clean_name (om_hash x)"
  by (simp_all add: clean_meta_def)

text \<open>A call that cannot fail in transport refines its abstract operation exactly.\<close>

lemma refinesI:
  "ok (fst c) \<Longrightarrow> (quiet m \<Longrightarrow> quiet (fst c)) \<Longrightarrow> view (fst c) = fst a \<Longrightarrow> snd c = snd a \<Longrightarrow>
     refines view ok quiet m c a"
  by (simp add: refines_def)

lemma InMemory_CreateBucket_ok:
  assumes "im_ok m" "clean_bucket b"
  shows "im_ok (fst (InMemory_CreateBucket m b))"
proof (cases "fmlookup (im_buckets m) b")
  case None
  have "im_ok (m\<lparr>im_buckets := fmupd b {||} (im_buckets m)\<rparr>)"
    using None assms(2) im_okD [OF assms(1)]
    by (intro im_okI) (fastforce split: if_splits)+
  then show ?thesis
    using None assms(2) by (simp add: InMemory_CreateBucket_def clean_bucketD)
next
  case (Some ks)
  then show ?thesis using assms by (simp add: InMemory_CreateBucket_def clean_bucketD)
qed

lemma InMemory_UpsertObjectMeta_ok:
  assumes "im_ok m" "clean_meta x"
  shows "im_ok (fst (InMemory_UpsertObjectMeta m x))"
proof -
  have t: "trim_space (om_bucket x) = om_bucket x" "trim_space (om_key x) = om_key x"
    "om_bucket x \<noteq> []" "om_key x \<noteq> []"
    using assms(2) by (simp_all add: clean_metaD clean_bucketD clean_nameD)
  show ?thesis
  proof (cases "fmlookup (im_buckets m) (om_bucket x)")
    case None
    then show ?thesis using assms t by (simp add: InMemory_UpsertObjectMeta_def)
  next
    case (Some ks)
    let ?m = "fst (InMemory_UpsertObjectMeta m x)"
    obtain X where X: "om_bucket X = om_bucket x" "om_key X = om_key x"
      and b: "im_buckets ?m = fmupd (om_bucket x) (finsert (om_key x) ks) (im_buckets m)"
      and o: "im_objects ?m = fmupd (object_key (om_bucket x) (om_key x)) X (im_objects m)"
      using Some t that [of "x\<lparr>om_state := ObjectStateCommitted\<rparr>"]
      by (simp add: InMemory_UpsertObjectMeta_def objectID_def)
    show ?thesis
    proof (rule im_okI, goal_cases)
      case (1 b ks')
      then show ?case using im_okD(1) [OF assms(1)] clean_metaD(1) [OF assms(2)]
        by (auto simp: b split: if_splits)
    next
      case (2 b ks' k)
      then show ?case using im_okD(2) [OF assms(1)] Some
        by (auto simp: b o split: if_splits)
    next
      case (3 i y)
      then have "i = object_key (om_bucket x) (om_key x) \<and> y = X \<or> fmlookup (im_objects m) i = Some y"
        by (simp add: o split: if_splits)
      then show ?case
        using im_okD(3) [OF assms(1)] X by (auto simp only: meta_key_def)
    next
      case (4 i y)
      show ?case
      proof (cases "i = object_key (om_bucket x) (om_key x)")
        case True
        with 4 have "y = X" by (simp add: o)
        then show ?thesis by (simp add: b X)
      next
        case False
        with 4 have "fmlookup (im_objects m) i = Some y" by (simp add: o)
        then obtain ks' where "fmlookup (im_buckets m) (om_bucket y) = Some ks'" "om_key y |\<in>| ks'"
          using im_okD(4) [OF assms(1)] by blast
        with Some show ?thesis by (auto simp: b)
      qed
    qed
  qed
qed

lemma InMemory_DeleteObjectMeta_ok:
  assumes "im_ok m" "clean_bucket b" "clean_name k"
  shows "im_ok (fst (InMemory_DeleteObjectMeta m b k))"
proof (cases "fmlookup (im_objects m) (object_key b k)")
  case None
  then show ?thesis
    using assms by (simp add: InMemory_DeleteObjectMeta_def clean_bucketD clean_nameD objectID_def)
next
  case (Some x)
  obtain ks where x: "om_bucket x = b" "om_key x = k" "fmlookup (im_buckets m) b = Some ks"
  proof -
    obtain ks where ks: "fmlookup (im_buckets m) (om_bucket x) = Some ks"
      using im_okD(4) [OF assms(1) Some] by blast
    have "object_key b k = object_key (om_bucket x) (om_key x)"
      using im_okD(3) [OF assms(1) Some] by (simp add: meta_key_def)
    then have "om_bucket x = b" "om_key x = k"
      using assms(2) im_okD(1) [OF assms(1) ks] by (simp_all add: object_key_inject clean_bucketD)
    with ks that show thesis by simp
  qed
  let ?m = "fst (InMemory_DeleteObjectMeta m b k)"
  have bs: "im_buckets ?m = fmupd b (ks |-| {|k|}) (im_buckets m)"
    and os: "im_objects ?m = fmdrop (object_key b k) (im_objects m)"
    using assms(2,3) Some x
    by (simp_all add: InMemory_DeleteObjectMeta_def clean_bucketD clean_nameD objectID_def Let_def)
  show ?thesis
  proof (rule im_okI, goal_cases)
    case (1 c ks')
    then show ?case using im_okD(1) [OF assms(1)] assms(2) by (auto simp: bs split: if_splits)
  next
    case (2 c ks' j)
    then obtain ks'' where "fmlookup (im_buckets m) c = Some ks''" "j |\<in>| ks''" "(c, j) \<noteq> (b, k)"
      using x by (auto simp: bs split: if_splits)
    with im_okD(1,2) [OF assms(1)] assms(2) show ?case
      by (metis clean_bucketD(3) fmlookup_drop object_key_inject os)
  next
    case (3 i y)
    then show ?case by (simp add: os im_okD(3) [OF assms(1)] split: if_splits)
  next
    case (4 i y)
    then have y: "fmlookup (im_objects m) i = Some y" "i \<noteq> object_key b k"
      by (auto simp: os split: if_splits)
    then obtain ks'' where "fmlookup (im_buckets m) (om_bucket y) = Some ks''" "om_key y |\<in>| ks''"
      using im_okD(4) [OF assms(1)] by blast
    moreover have "om_bucket y = b \<Longrightarrow> om_key y \<noteq> k"
      using y im_okD(3) [OF assms(1) y(1)] by (auto simp: meta_key_def)
    ultimately show ?case
      using x by (auto simp: bs)
  qed
qed

text \<open>In a bucket without objects the deletion loop has nothing to do.\<close>

lemma im_empty_bucket:
  assumes "im_ok m" "fmpred (\<lambda>_ x. om_bucket x \<noteq> b) (im_objects m)" "fmlookup (im_buckets m) b = Some ks"
  shows "ks = {||}"
proof (rule ccontr)
  assume "ks \<noteq> {||}"
  then obtain k where "k |\<in>| ks" by auto
  then obtain x where x: "fmlookup (im_objects m) (object_key b k) = Some x"
    using im_okD(2) [OF assms(1,3)] by blast
  then obtain ks' where "fmlookup (im_buckets m) (om_bucket x) = Some ks'"
    using im_okD(4) [OF assms(1)] by blast
  then have "om_bucket x = b"
    using im_okD(3) [OF assms(1) x] im_okD(1) [OF assms(1)] assms(3)
    by (metis clean_bucketD(3) meta_key_def object_key_inject)
  with assms(2) x show False
    by (auto dest: fmpredD)
qed

lemma InMemory_DeleteBucket_empty:
  assumes "im_ok m" "clean_bucket b" "fmpred (\<lambda>_ x. om_bucket x \<noteq> b) (im_objects m)"
    and "fmlookup (im_buckets m) b = Some ks"
  shows "InMemory_DeleteBucket m b =
    (m\<lparr>im_buckets := fmdrop b (im_buckets m),
       im_staged := fm_remove_if (\<lambda>x. om_bucket x = b) (im_staged m)\<rparr>, Inr ())"
  using im_empty_bucket [OF assms(1,3,4)] assms(2,4)
  by (simp add: InMemory_DeleteBucket_def clean_bucketD sorted_list_of_fset.rep_eq)

lemma InMemory_DeleteBucket_ok:
  assumes "im_ok m" "clean_bucket b" "fmpred (\<lambda>_ x. om_bucket x \<noteq> b) (im_objects m)"
  shows "im_ok (fst (InMemory_DeleteBucket m b))"
proof (cases "fmlookup (im_buckets m) b")
  case None
  then show ?thesis using assms by (simp add: InMemory_DeleteBucket_def clean_bucketD)
next
  case (Some ks)
  have "im_ok (m\<lparr>im_buckets := fmdrop b (im_buckets m)\<rparr>)"
    using assms(3) im_okD [OF assms(1)]
    by (intro im_okI) (fastforce simp: fmpred_iff split: if_splits)+
  then show ?thesis
    using InMemory_DeleteBucket_empty [OF assms Some] by simp
qed

text \<open>Listing through the key set of a bucket is listing the object table.\<close>

lemma InMemory_ListObjectMetas_spec:
  assumes "im_ok m" "clean_bucket b"
  shows "snd (InMemory_ListObjectMetas m b p) = snd (spec_ListObjectMetas (im_view m) b p)"
proof (cases "fmlookup (im_buckets m) b")
  case None
  then show ?thesis
    using assms(2) by (simp add: InMemory_ListObjectMetas_def spec_ListObjectMetas_def im_view_def
        clean_bucketD fmdom_notI)
next
  case (Some ks)
  let ?get = "\<lambda>k. case fmlookup (im_objects m) (object_key b k) of None \<Rightarrow> zero_ObjectMeta | Some x \<Rightarrow> x"
  let ?xs = "map ?get (filter (\<lambda>k. has_prefix k p) (sorted_list_of_fset ks))"
  let ?ys = "filter (\<lambda>x. om_bucket x = b \<and> has_prefix (om_key x) p) (fm_values (im_objects m))"
  have get: "\<exists>x. fmlookup (im_objects m) (object_key b k) = Some x \<and> om_bucket x = b \<and> om_key x = k"
    if k: "k |\<in>| ks" for k
  proof -
    obtain x where x: "fmlookup (im_objects m) (object_key b k) = Some x"
      using im_okD(2) [OF assms(1) Some k] by blast
    then obtain ks' where "fmlookup (im_buckets m) (om_bucket x) = Some ks'"
      using im_okD(4) [OF assms(1)] by blast
    then show ?thesis
      using im_okD(3) [OF assms(1) x] im_okD(1) [OF assms(1)] Some x
      by (metis clean_bucketD(3) meta_key_def object_key_inject)
  qed
  have key: "om_key (?get k) = k" if "k |\<in>| ks" for k
    using get [OF that] by auto
  have "map om_key ?xs = filter (\<lambda>k. has_prefix k p) (sorted_list_of_fset ks)"
    using key by (auto simp: sorted_list_of_fset_simps intro!: map_idI)
  then have "distinct (map om_key ?xs)"
    by (simp add: sorted_list_of_fset.rep_eq)
  moreover have "distinct (map om_key ?ys)"
    by (rule distinct_keys_of_bucket) (drule im_okD(3) [OF assms(1)], simp add: meta_key_def)
  moreover have "set ?xs = set ?ys"
  proof (intro set_eqI iffI)
    fix x assume "x \<in> set ?xs"
    then obtain k where "k |\<in>| ks" "has_prefix k p" "x = ?get k" by auto
    with get show "x \<in> set ?ys" by (fastforce simp: fm_values_iff)
  next
    fix x assume "x \<in> set ?ys"
    then obtain i where x: "fmlookup (im_objects m) i = Some x" "om_bucket x = b" "has_prefix (om_key x) p"
      by (auto simp: fm_values_iff)
    have "om_key x |\<in>| ks"
      using im_okD(4) [OF assms(1) x(1)] x(2) Some by simp
    moreover have "x = ?get (om_key x)"
      using im_okD(3) [OF assms(1) x(1)] x(1,2) by (simp add: meta_key_def)
    ultimately show "x \<in> set ?xs"
      using x(3) by auto
  qed
  ultimately have "sort_key om_key ?xs = sort_key om_key ?ys"
    by (intro sort_key_unique)
  then show ?thesis
    using Some assms(2) by (simp add: InMemory_ListObjectMetas_def spec_ListObjectMetas_def
        im_view_def clean_bucketD fmdomI objectID_def)
qed

lemmas im_store_simps = inMemoryStore_def im_view_def Let_def objectID_def meta_key_def
  clean_bucketD clean_nameD clean_metaD

interpretation im: metadata_store inMemoryStore im_view im_ok "\<lambda>_. True"
proof (unfold_locales, goal_cases)
  case (1 m b)
  then show ?case
    by (intro refinesI) (simp_all add: im_store_simps InMemory_BucketExists_def
        spec_BucketExists_def fmlookup_dom_iff)
next
  case (2 m b t)
  then show ?case
    by (intro refinesI) (auto simp: im_store_simps InMemory_CreateBucket_ok,
      auto simp: im_store_simps InMemory_CreateBucket_def spec_CreateBucket_def fmlookup_dom_iff)
next
  case (3 m b)
  then have e: "fmpred (\<lambda>_ x. om_bucket x \<noteq> b) (im_objects m)" by (simp add: im_view_def)
  show ?case
  proof (cases "fmlookup (im_buckets m) b")
    case None
    then show ?thesis
      using 3 by (intro refinesI) (auto simp: im_store_simps InMemory_DeleteBucket_def
        spec_DeleteBucket_def fmlookup_dom_iff)
  next
    case (Some ks)
    then show ?thesis
      using 3 e InMemory_DeleteBucket_ok [OF 3(1,2) e] InMemory_DeleteBucket_empty [OF 3(1,2) e Some]
      by (intro refinesI) (auto simp: im_store_simps spec_DeleteBucket_def fmlookup_dom_iff)
  qed
next
  case (4 m b p)
  then show ?case
    using InMemory_ListObjectMetas_spec [OF 4]
    by (intro refinesI) (auto simp: im_store_simps InMemory_ListObjectMetas_def
        spec_ListObjectMetas_def split: option.splits)
next
  case (5 m b k)
  then show ?case
    by (intro refinesI) (simp_all add: im_store_simps InMemory_GetObjectMeta_def spec_GetObjectMeta_def)
next
  case (6 m x)
  then show ?case
    by (intro refinesI) (auto simp: im_store_simps InMemory_StageObjectMeta_def spec_StageObjectMeta_def
      fmlookup_dom_iff)
next
  case (7 m x)
  then show ?case
    using InMemory_UpsertObjectMeta_ok [OF 7]
    by (intro refinesI) (auto simp: im_store_simps InMemory_UpsertObjectMeta_def spec_UpsertObjectMeta_def
      fmlookup_dom_iff split: option.splits)
next
  case (8 m b k)
  then show ?case
    by (intro refinesI) (auto simp: im_store_simps InMemory_DeleteStagedObjectMeta_def
      spec_DeleteStagedObjectMeta_def split: option.splits intro!: fmap_ext)
next
  case (9 m b k)
  then show ?case
    using InMemory_DeleteObjectMeta_ok [OF 9]
    by (intro refinesI) (auto simp: im_store_simps InMemory_DeleteObjectMeta_def
      spec_DeleteObjectMeta_def fmdomI split: option.splits intro!: fmap_ext)
next
  case (10 m h)
  then show ?case
    by (intro refinesI) (simp_all add: im_store_simps InMemory_GetBlobRef_def spec_GetBlobRef_def)
next
  case (11 m h p n ps cs ns)
  then show ?case
    by (intro refinesI) (simp_all add: im_store_simps InMemory_CreateBlobRef_def spec_CreateBlobRef_def
      new_ref_def)
next
  case (12 m h)
  then show ?case
    by (intro refinesI) (auto simp: im_store_simps InMemory_IncreaseBlobRef_def spec_IncreaseBlobRef_def
      spec_update_ref_def split: option.splits)
next
  case (13 m h)
  then show ?case
    by (intro refinesI) (auto simp: im_store_simps InMemory_DecreaseBlobRef_def decreaseBlobRefLocked_def
      spec_DecreaseBlobRef_def norm_release_def split: option.splits)
next
  case (14 m)
  then show ?case
    by (auto simp: fmpred_iff im_view_def fmlookup_dom_iff dest: im_okD)
qed

end
