(* ===== verification/Raft_Metadata.thy ===== *)
theory Raft_Metadata
  imports Metadata_Interface Raft_State_Machine
begin

text \<open>
  The replicated metadata store: \<open>RaftMetadata\<close> of \<open>internal/metadata/raft_store.go\<close> over
  \<open>Runtime.ProposeMetadata\<close> and \<open>Runtime.ReadMetadata\<close> of \<open>internal/raft/metadata_runtime.go\<close>.

  The consensus library (dragonboat's \<open>NodeHost\<close>) is not part of the repository: it is a record of its
  two synchronous calls, and what the code relies on is the locale \<open>raft_node\<close>: a proposal that returns
  was applied to the state machine exactly once and its reply is the reply of \<open>Update\<close>; a proposal that
  fails may or may not have been applied; a linearizable read returns \<open>Lookup\<close> on the current state.
  JSON encoding is taken to be lossless (names are valid UTF-8); a context deadline shows only as a
  failed call.
\<close>

section \<open>Data\<close>

text \<open>The data of a reply: nothing, bytes that do not decode, or an encoded envelope; and the dynamic
  types a read may return.\<close>

datatype propose_reply = EmptyReply | BadReply | EnvelopeReply metadataEnvelope

datatype read_value =
    ReadResult MetadataResult
  | ReadEnvelope metadataEnvelope
  | ReadEnvelopePointer "metadataEnvelope option"
  | ReadOther

record 'n NodeHost =
  SyncPropose :: "'n \<Rightarrow> MetadataCommand \<Rightarrow> 'n \<times> (string + propose_reply)"
  SyncRead :: "'n \<Rightarrow> MetadataQuery \<Rightarrow> 'n \<times> (string + read_value)"

text \<open>An error carries a metadata error code or it does not.\<close>

datatype raft_error = metadataError string | PlainError string

definition MetadataErrorCode :: "raft_error \<Rightarrow> string" where
  "MetadataErrorCode err = (case err of metadataError code \<Rightarrow> code | PlainError _ \<Rightarrow> [])"

definition decodeMetadataEnvelope :: "propose_reply \<Rightarrow> raft_error + MetadataResult" where
  "decodeMetadataEnvelope data =
     (case data of
        EmptyReply \<Rightarrow> Inr empty_result
      | BadReply \<Rightarrow> Inl (PlainError ''unmarshal metadata result'')
      | EnvelopeReply envelope \<Rightarrow>
          if env_error envelope \<noteq> [] then Inl (metadataError (env_error envelope))
          else Inr (env_result envelope))"

definition resultFromMetadataEnvelope :: "read_value \<Rightarrow> raft_error + MetadataResult" where
  "resultFromMetadataEnvelope v =
     (case v of
        ReadResult typed \<Rightarrow> Inr typed
      | ReadEnvelope typed \<Rightarrow>
          if env_error typed \<noteq> [] then Inl (metadataError (env_error typed))
          else Inr (env_result typed)
      | ReadEnvelopePointer None \<Rightarrow> Inl (metadataError MetadataErrorBadRequest)
      | ReadEnvelopePointer (Some typed) \<Rightarrow>
          if env_error typed \<noteq> [] then Inl (metadataError (env_error typed))
          else Inr (env_result typed)
      | ReadOther \<Rightarrow> Inl (metadataError MetadataErrorBadRequest))"

section \<open>Operations\<close>

definition ProposeMetadata ::
  "'n NodeHost \<Rightarrow> 'n \<Rightarrow> MetadataCommand \<Rightarrow> 'n \<times> (raft_error + MetadataResult)" where
  "ProposeMetadata N n command =
     (case SyncPropose N n command of
        (n, Inl err) \<Rightarrow> (n, Inl (PlainError (''propose metadata command: '' @ err)))
      | (n, Inr data) \<Rightarrow> (n, decodeMetadataEnvelope data))"

definition ReadMetadata ::
  "'n NodeHost \<Rightarrow> 'n \<Rightarrow> MetadataQuery \<Rightarrow> 'n \<times> (raft_error + MetadataResult)" where
  "ReadMetadata N n query =
     (case SyncRead N n query of
        (n, Inl err) \<Rightarrow> (n, Inl (PlainError (''read metadata query: '' @ err)))
      | (n, Inr v) \<Rightarrow> (n, resultFromMetadataEnvelope v))"

definition mapRaftError :: "raft_error \<Rightarrow> metadata_error" where
  "mapRaftError err =
     (let code = MetadataErrorCode err in
      if code = MetadataErrorBadRequest then MErrBadRequest
      else if code = MetadataErrorBucketExists then MErrBucketExists
      else if code = MetadataErrorBucketNotFound then MErrBucketNotFound
      else if code = MetadataErrorObjectNotFound then MErrObjectNotFound
      else (case err of metadataError c \<Rightarrow> MErrOther c | PlainError t \<Rightarrow> MErrOther t))"

text \<open>The common tail of the methods: map the error, or read the fields of the result.\<close>

definition raft_reply ::
  "(MetadataResult \<Rightarrow> 'a) \<Rightarrow> 'n \<times> (raft_error + MetadataResult) \<Rightarrow> ('n, 'a) meta_op" where
  "raft_reply f r = (case r of (n, Inl err) \<Rightarrow> (n, Inl (mapRaftError err)) | (n, Inr res) \<Rightarrow> (n, Inr (f res)))"

definition found_object :: "MetadataResult \<Rightarrow> ObjectMeta option" where
  "found_object res = (if res_object_exists res then Some (res_object res) else None)"

definition found_blob :: "MetadataResult \<Rightarrow> BlobRef option" where
  "found_blob res = (if res_blob_exists res then Some (res_blob res) else None)"

definition Raft_ListBuckets :: "'n NodeHost \<Rightarrow> 'n \<Rightarrow> time \<Rightarrow> ('n, Bucket list) meta_op" where
  "Raft_ListBuckets N n _ = raft_reply res_buckets (ReadMetadata N n (zero_query ListBucketsQry))"

definition Raft_BucketExists :: "'n NodeHost \<Rightarrow> 'n \<Rightarrow> string \<Rightarrow> ('n, bool) meta_op" where
  "Raft_BucketExists N n bucket =
     raft_reply res_bucket_exists (ReadMetadata N n ((zero_query BucketExistsQry)\<lparr>qry_bucket := bucket\<rparr>))"

definition Raft_CreateBucket :: "'n NodeHost \<Rightarrow> 'n \<Rightarrow> time \<Rightarrow> string \<Rightarrow> ('n, unit) meta_op" where
  "Raft_CreateBucket N n now bucket =
     raft_reply (\<lambda>_. ()) (ProposeMetadata N n ((zero_command CreateBucketCmd)
       \<lparr>cmd_bucket_meta := \<lparr>bkt_name = bucket, bkt_created = now\<rparr>\<rparr>))"

definition Raft_DeleteBucket :: "'n NodeHost \<Rightarrow> 'n \<Rightarrow> string \<Rightarrow> ('n, unit) meta_op" where
  "Raft_DeleteBucket N n bucket =
     raft_reply (\<lambda>_. ()) (ProposeMetadata N n ((zero_command DeleteBucketCmd)\<lparr>cmd_bucket := bucket\<rparr>))"

definition Raft_ListObjectMetas ::
  "'n NodeHost \<Rightarrow> 'n \<Rightarrow> string \<Rightarrow> string \<Rightarrow> ('n, ObjectMeta list) meta_op" where
  "Raft_ListObjectMetas N n bucket prefix =
     raft_reply res_objects (ReadMetadata N n ((zero_query ListObjectMetasQry)
       \<lparr>qry_bucket := bucket, qry_prefix := prefix\<rparr>))"

definition Raft_ListStagedObjectMetas ::
  "'n NodeHost \<Rightarrow> 'n \<Rightarrow> string \<Rightarrow> string \<Rightarrow> ('n, ObjectMeta list) meta_op" where
  "Raft_ListStagedObjectMetas N n bucket prefix =
     raft_reply res_objects (ReadMetadata N n ((zero_query ListStagedObjectMetasQry)
       \<lparr>qry_bucket := bucket, qry_prefix := prefix\<rparr>))"

definition Raft_ListBlobRefs :: "'n NodeHost \<Rightarrow> 'n \<Rightarrow> ('n, BlobRef list) meta_op" where
  "Raft_ListBlobRefs N n = raft_reply res_blobs (ReadMetadata N n (zero_query ListBlobRefsQry))"

definition Raft_GetObjectMeta ::
  "'n NodeHost \<Rightarrow> 'n \<Rightarrow> string \<Rightarrow> string \<Rightarrow> ('n, ObjectMeta option) meta_op" where
  "Raft_GetObjectMeta N n bucket key =
     raft_reply found_object (ReadMetadata N n ((zero_query GetObjectMetaQry)
       \<lparr>qry_bucket := bucket, qry_key := key\<rparr>))"

definition Raft_StageObjectMeta :: "'n NodeHost \<Rightarrow> 'n \<Rightarrow> ObjectMeta \<Rightarrow> ('n, unit) meta_op" where
  "Raft_StageObjectMeta N n meta =
     raft_reply (\<lambda>_. ()) (ProposeMetadata N n ((zero_command StageObjectMetaCmd)
       \<lparr>cmd_meta := meta\<lparr>om_state := ObjectStatePending\<rparr>\<rparr>))"

definition Raft_UpsertObjectMeta :: "'n NodeHost \<Rightarrow> 'n \<Rightarrow> ObjectMeta \<Rightarrow> ('n, unit) meta_op" where
  "Raft_UpsertObjectMeta N n meta =
     raft_reply (\<lambda>_. ()) (ProposeMetadata N n ((zero_command UpsertObjectMetaCmd)
       \<lparr>cmd_meta := meta\<lparr>om_state := ObjectStateCommitted\<rparr>\<rparr>))"

definition Raft_DeleteStagedObjectMeta ::
  "'n NodeHost \<Rightarrow> 'n \<Rightarrow> string \<Rightarrow> string \<Rightarrow> ('n, ObjectMeta option) meta_op" where
  "Raft_DeleteStagedObjectMeta N n bucket key =
     raft_reply found_object (ProposeMetadata N n ((zero_command DeleteStagedObjectMetaCmd)
       \<lparr>cmd_bucket := bucket, cmd_key := key\<rparr>))"

definition Raft_DeleteObjectMeta ::
  "'n NodeHost \<Rightarrow> 'n \<Rightarrow> string \<Rightarrow> string \<Rightarrow> ('n, ObjectMeta option) meta_op" where
  "Raft_DeleteObjectMeta N n bucket key =
     raft_reply found_object (ProposeMetadata N n ((zero_command DeleteObjectMetaCmd)
       \<lparr>cmd_bucket := bucket, cmd_key := key\<rparr>))"

definition Raft_GetBlobRef :: "'n NodeHost \<Rightarrow> 'n \<Rightarrow> string \<Rightarrow> ('n, BlobRef option) meta_op" where
  "Raft_GetBlobRef N n hash =
     raft_reply found_blob (ReadMetadata N n ((zero_query GetBlobRefQry)\<lparr>qry_hash := hash\<rparr>))"

definition Raft_CreateBlobRef :: "'n NodeHost \<Rightarrow> 'n \<Rightarrow> string \<Rightarrow> string \<Rightarrow> int \<Rightarrow> ShardPlacement list \<Rightarrow>
    string list \<Rightarrow> int list \<Rightarrow> ('n, unit) meta_op" where
  "Raft_CreateBlobRef N n hash path sz placements checksums shardSizes =
     raft_reply (\<lambda>_. ()) (ProposeMetadata N n ((zero_command CreateBlobRefCmd)
       \<lparr>cmd_hash := hash, cmd_path := path, cmd_size := sz, cmd_placements := placements,
        cmd_checksums := checksums, cmd_sizes := shardSizes\<rparr>))"

definition Raft_UpdateBlobRefPlacements ::
  "'n NodeHost \<Rightarrow> 'n \<Rightarrow> string \<Rightarrow> ShardPlacement list \<Rightarrow> ('n, unit) meta_op" where
  "Raft_UpdateBlobRefPlacements N n hash placements =
     raft_reply (\<lambda>_. ()) (ProposeMetadata N n ((zero_command UpdateBlobRefPlacementsCmd)
       \<lparr>cmd_hash := hash, cmd_placements := placements\<rparr>))"

definition Raft_IncreaseBlobRef :: "'n NodeHost \<Rightarrow> 'n \<Rightarrow> string \<Rightarrow> ('n, unit) meta_op" where
  "Raft_IncreaseBlobRef N n hash =
     raft_reply (\<lambda>_. ()) (ProposeMetadata N n ((zero_command IncreaseBlobRefCmd)\<lparr>cmd_hash := hash\<rparr>))"

definition Raft_DecreaseBlobRef :: "'n NodeHost \<Rightarrow> 'n \<Rightarrow> string \<Rightarrow> ('n, string \<times> bool) meta_op" where
  "Raft_DecreaseBlobRef N n hash =
     raft_reply (\<lambda>res. (res_blob_path res, res_blob_removed res))
       (ProposeMetadata N n ((zero_command DecreaseBlobRefCmd)\<lparr>cmd_hash := hash\<rparr>))"

definition raftStore :: "'n NodeHost \<Rightarrow> 'n MetadataStore" where
  "raftStore N = \<lparr>
     ListBuckets = Raft_ListBuckets N,
     BucketExists = Raft_BucketExists N,
     CreateBucket = Raft_CreateBucket N,
     DeleteBucket = Raft_DeleteBucket N,
     ListObjectMetas = Raft_ListObjectMetas N,
     ListStagedObjectMetas = Raft_ListStagedObjectMetas N,
     GetObjectMeta = Raft_GetObjectMeta N,
     StageObjectMeta = Raft_StageObjectMeta N,
     UpsertObjectMeta = Raft_UpsertObjectMeta N,
     DeleteStagedObjectMeta = Raft_DeleteStagedObjectMeta N,
     DeleteObjectMeta = Raft_DeleteObjectMeta N,
     ListBlobRefs = Raft_ListBlobRefs N,
     GetBlobRef = Raft_GetBlobRef N,
     CreateBlobRef = Raft_CreateBlobRef N,
     UpdateBlobRefPlacements = Raft_UpdateBlobRefPlacements N,
     IncreaseBlobRef = Raft_IncreaseBlobRef N,
     DecreaseBlobRef = Raft_DecreaseBlobRef N\<rparr>"

section \<open>The contract of the consensus library\<close>

definition sm_view :: "raftStateMachine \<Rightarrow> meta_view" where
  "sm_view s = \<lparr>mv_buckets = fmdom (sm_buckets s), mv_objects = sm_objects s,
     mv_staged = sm_staged s, mv_refs = sm_refs s\<rparr>"

lemma sm_view_fields:
  "mv_buckets (sm_view s) = fmdom (sm_buckets s)" "mv_objects (sm_view s) = sm_objects s"
  "mv_staged (sm_view s) = sm_staged s" "mv_refs (sm_view s) = sm_refs s"
  by (simp_all add: sm_view_def)

definition sm_ok :: "raftStateMachine \<Rightarrow> bool" where
  "sm_ok s \<longleftrightarrow> sm_wf s \<and> \<not> sm_closed s \<and> fBall (fmdom (sm_buckets s)) clean_bucket"

locale raft_node =
  fixes N :: "'n NodeHost"
    and sm :: "'n \<Rightarrow> raftStateMachine"
    and calm :: "'n \<Rightarrow> bool"
  assumes propose: "(sm (fst (SyncPropose N n c)) = fst (Update (sm n) (Some c)) \<and>
        snd (SyncPropose N n c) = Inr (EnvelopeReply (snd (Update (sm n) (Some c))))) \<or>
      (\<not> calm n \<and> sm (fst (SyncPropose N n c)) \<in> {sm n, fst (Update (sm n) (Some c))} \<and>
        (\<exists>t. snd (SyncPropose N n c) = Inl t))"
    and read_state: "sm (fst (SyncRead N n q)) = sm n"
    and read: "snd (SyncRead N n q) = Inr (ReadEnvelope (Lookup (sm n) (QueryValue q))) \<or>
      (\<not> calm n \<and> (\<exists>t. snd (SyncRead N n q) = Inl t))"
    and calm: "calm n \<Longrightarrow> calm (fst (SyncPropose N n c)) \<and> calm (fst (SyncRead N n q))"
begin

text \<open>A method that proposes: what \<open>Update\<close> does with the command decides.\<close>

lemma propose_refines:
  assumes "sm_ok (fst (Update (sm n) (Some c)))" "sm_ok (sm n)"
    and "sm_view (fst (Update (sm n) (Some c))) = fst a"
    and "snd (raft_reply f (n, decodeMetadataEnvelope (EnvelopeReply (snd (Update (sm n) (Some c)))))) = snd a"
  shows "refines (sm_view \<circ> sm) (sm_ok \<circ> sm) calm n (raft_reply f (ProposeMetadata N n c)) a"
proof (cases "snd (SyncPropose N n c)")
  case (Inl t)
  then have "ProposeMetadata N n c =
      (fst (SyncPropose N n c), Inl (PlainError (''propose metadata command: '' @ t)))"
    by (simp add: ProposeMetadata_def case_prod_unfold)
  then have "raft_reply f (ProposeMetadata N n c) =
      (fst (SyncPropose N n c), Inl (MErrOther (''propose metadata command: '' @ t)))"
    by (simp add: raft_reply_def mapRaftError_def MetadataErrorCode_def)
  then show ?thesis
    using propose [of n c] Inl assms calm [of n c] by (auto simp: refines_def)
next
  case (Inr d)
  then have "ProposeMetadata N n c = (fst (SyncPropose N n c), decodeMetadataEnvelope d)"
    by (simp add: ProposeMetadata_def case_prod_unfold)
  then have "fst (raft_reply f (ProposeMetadata N n c)) = fst (SyncPropose N n c)"
    "snd (raft_reply f (ProposeMetadata N n c)) = snd (raft_reply f (n, decodeMetadataEnvelope d))"
    by (auto simp: raft_reply_def split: sum.split)
  then show ?thesis
    using propose [of n c] Inr assms calm [of n c] by (auto simp: refines_def)
qed

lemma read_refines:
  assumes "sm_ok (sm n)" "fst a = sm_view (sm n)"
    and "snd (raft_reply f (n, resultFromMetadataEnvelope (ReadEnvelope (Lookup (sm n) (QueryValue q))))) = snd a"
  shows "refines (sm_view \<circ> sm) (sm_ok \<circ> sm) calm n (raft_reply f (ReadMetadata N n q)) a"
proof (cases "snd (SyncRead N n q)")
  case (Inl t)
  then have "ReadMetadata N n q =
      (fst (SyncRead N n q), Inl (PlainError (''read metadata query: '' @ t)))"
    by (simp add: ReadMetadata_def case_prod_unfold)
  then have "raft_reply f (ReadMetadata N n q) =
      (fst (SyncRead N n q), Inl (MErrOther (''read metadata query: '' @ t)))"
    by (simp add: raft_reply_def mapRaftError_def MetadataErrorCode_def)
  then show ?thesis
    using read [of n q] Inl assms calm [of n] by (auto simp: refines_def read_state)
next
  case (Inr d)
  then have "ReadMetadata N n q = (fst (SyncRead N n q), resultFromMetadataEnvelope d)"
    by (simp add: ReadMetadata_def case_prod_unfold)
  then have "fst (raft_reply f (ReadMetadata N n q)) = fst (SyncRead N n q)"
    "snd (raft_reply f (ReadMetadata N n q)) = snd (raft_reply f (n, resultFromMetadataEnvelope d))"
    by (auto simp: raft_reply_def split: sum.split)
  then show ?thesis
    using read [of n q] Inr assms calm [of n] by (auto simp: refines_def read_state)
qed

end

section \<open>The metadata contract\<close>

text \<open>Every command keeps the state machine usable; only \<open>CreateBucket\<close> adds a bucket.\<close>

lemma sm_ok_Update:
  assumes "sm_ok s" "\<And>b. b |\<in>| fmdom (sm_buckets (fst (Update s e))) \<Longrightarrow> b |\<notin>| fmdom (sm_buckets s) \<Longrightarrow> clean_bucket b"
  shows "sm_ok (fst (Update s e))"
  using assms Update_wf [of s e] by (auto simp: sm_ok_def)

lemmas update_simps = Update_def applyMetadataCommand_def applyBucketCommand_def applyObjectCommand_def
  applyBlobCommand_def zero_command_def case_prod_unfold Let_def

lemmas reply_simps = raft_reply_def decodeMetadataEnvelope_def resultFromMetadataEnvelope_def
  mapRaftError_def MetadataErrorCode_def found_object_def found_blob_def empty_result_def
  ok_envelope_def err_envelope_def

lemmas lookup_simps = Lookup_def lookupMetadataQuery_def zero_query_def

lemma clean_valid:
  "clean_name s \<Longrightarrow> \<not> invalidName s" "clean_bucket s \<Longrightarrow> \<not> invalidName s"
  "clean_bucket b \<Longrightarrow> clean_name k \<Longrightarrow> \<not> invalidObject b k"
  by (simp_all add: clean_bucket_def clean_name_def invalidName_def invalidObject_def)

lemma sm_okD: "sm_ok s \<Longrightarrow> \<not> sm_closed s" "sm_ok s \<Longrightarrow> sm_wf s"
  by (simp_all add: sm_ok_def)

text \<open>A command that leaves the bucket table alone keeps the state machine usable.\<close>

lemma sm_ok_Update_same:
  "sm_ok s \<Longrightarrow> fmdom (sm_buckets (fst (Update s e))) |\<subseteq>| fmdom (sm_buckets s) \<Longrightarrow> sm_ok (fst (Update s e))"
  by (rule sm_ok_Update) auto

lemma fm_remove_if_none: "fmpred (\<lambda>_ x. \<not> P x) m \<Longrightarrow> fm_remove_if P m = m"
  by (intro fmap_ext) (auto split: option.splits dest: fmpredD)

context raft_node
begin

lemma raft_BucketExists:
  assumes "sm_ok (sm n)" "clean_bucket b"
  shows "refines (sm_view \<circ> sm) (sm_ok \<circ> sm) calm n (Raft_BucketExists N n b)
    (spec_BucketExists (sm_view (sm n)) b)"
  unfolding Raft_BucketExists_def using assms
  by (intro read_refines) (auto simp: spec_BucketExists_def lookup_simps lookupBucketExists_def
      reply_simps sm_okD clean_valid sm_view_def fmlookup_dom_iff)

lemma raft_ListObjectMetas:
  assumes "sm_ok (sm n)" "clean_bucket b"
  shows "refines (sm_view \<circ> sm) (sm_ok \<circ> sm) calm n (Raft_ListObjectMetas N n b p)
    (spec_ListObjectMetas (sm_view (sm n)) b p)"
  unfolding Raft_ListObjectMetas_def using assms
  by (intro read_refines) (auto simp: spec_ListObjectMetas_def lookup_simps lookupListObjectMetas_def
      listObjectMetas_def reply_simps sm_okD clean_valid sm_view_def fmlookup_dom_iff)

lemma raft_GetObjectMeta:
  assumes "sm_ok (sm n)" "clean_bucket b" "clean_name k"
  shows "refines (sm_view \<circ> sm) (sm_ok \<circ> sm) calm n (Raft_GetObjectMeta N n b k)
    (spec_GetObjectMeta (sm_view (sm n)) b k)"
  unfolding Raft_GetObjectMeta_def using assms
  by (intro read_refines) (auto simp: spec_GetObjectMeta_def lookup_simps lookupObjectMeta_def
      objectMapKey_def reply_simps sm_okD clean_valid sm_view_def split: option.splits)

lemma raft_GetBlobRef:
  assumes "sm_ok (sm n)" "clean_name h"
  shows "refines (sm_view \<circ> sm) (sm_ok \<circ> sm) calm n (Raft_GetBlobRef N n h)
    (spec_GetBlobRef (sm_view (sm n)) h)"
  unfolding Raft_GetBlobRef_def using assms
  by (intro read_refines) (auto simp: spec_GetBlobRef_def lookup_simps lookupBlobRef_def
      reply_simps sm_okD clean_valid sm_view_def split: option.splits)

lemma raft_CreateBucket:
  assumes "sm_ok (sm n)" "clean_bucket b"
  shows "refines (sm_view \<circ> sm) (sm_ok \<circ> sm) calm n (Raft_CreateBucket N n t b)
    (spec_CreateBucket (sm_view (sm n)) b)"
proof -
  let ?c = "(zero_command CreateBucketCmd)\<lparr>cmd_bucket_meta := \<lparr>bkt_name = b, bkt_created = t\<rparr>\<rparr>"
  have u: "Update (sm n) (Some ?c) =
      (if b |\<in>| fmdom (sm_buckets (sm n)) then (sm n, err_envelope MetadataErrorBucketExists)
       else ((sm n)\<lparr>sm_buckets := fmupd b \<lparr>bkt_name = b, bkt_created = t\<rparr> (sm_buckets (sm n))\<rparr>,
             ok_envelope empty_result))"
    using assms by (auto simp: update_simps createBucket_def sm_okD clean_valid err_envelope_def
        ok_envelope_def fmlookup_dom_iff clean_bucket_def clean_name_def)
  have "sm_ok (fst (Update (sm n) (Some ?c)))"
    by (rule sm_ok_Update [OF assms(1)]) (use assms(2) in \<open>auto simp: u split: if_splits\<close>)
  then show ?thesis
    unfolding Raft_CreateBucket_def using assms
    by (intro propose_refines) (auto simp: u spec_CreateBucket_def reply_simps sm_view_def)
qed

lemma raft_DeleteBucket:
  assumes "sm_ok (sm n)" "clean_bucket b" "fmpred (\<lambda>_ x. om_bucket x \<noteq> b) (sm_objects (sm n))"
  shows "refines (sm_view \<circ> sm) (sm_ok \<circ> sm) calm n (Raft_DeleteBucket N n b)
    (spec_DeleteBucket (sm_view (sm n)) b)"
proof -
  let ?c = "(zero_command DeleteBucketCmd)\<lparr>cmd_bucket := b\<rparr>"
  have u: "Update (sm n) (Some ?c) =
      (if b |\<notin>| fmdom (sm_buckets (sm n)) then (sm n, err_envelope MetadataErrorBucketNotFound)
       else ((sm n)\<lparr>sm_buckets := fmdrop b (sm_buckets (sm n)),
               sm_staged := fm_remove_if (\<lambda>x. om_bucket x = b) (sm_staged (sm n))\<rparr>,
             ok_envelope empty_result))"
    using assms by (auto simp: update_simps deleteBucket_def sm_okD clean_valid err_envelope_def
        ok_envelope_def fmlookup_dom_iff fm_remove_if_none)
  have "sm_ok (fst (Update (sm n) (Some ?c)))"
    by (rule sm_ok_Update_same [OF assms(1)]) (auto simp: u)
  then show ?thesis
    unfolding Raft_DeleteBucket_def using assms
    by (intro propose_refines) (auto simp: u spec_DeleteBucket_def reply_simps sm_view_def)
qed

lemma raft_StageObjectMeta:
  assumes "sm_ok (sm n)" "clean_meta x"
  shows "refines (sm_view \<circ> sm) (sm_ok \<circ> sm) calm n (Raft_StageObjectMeta N n x)
    (spec_StageObjectMeta (sm_view (sm n)) x)"
proof -
  let ?x = "x\<lparr>om_state := ObjectStatePending\<rparr>"
  let ?c = "(zero_command StageObjectMetaCmd)\<lparr>cmd_meta := ?x\<rparr>"
  have u: "Update (sm n) (Some ?c) =
      (if om_bucket x |\<notin>| fmdom (sm_buckets (sm n)) then (sm n, err_envelope MetadataErrorBucketNotFound)
       else ((sm n)\<lparr>sm_staged := fmupd (meta_key x) ?x (sm_staged (sm n))\<rparr>, ok_envelope empty_result))"
    using assms by (auto simp: update_simps stageObjectMeta_def sm_okD clean_valid err_envelope_def
        ok_envelope_def fmlookup_dom_iff clean_meta_def meta_key_def objectMapKey_def)
  have "sm_ok (fst (Update (sm n) (Some ?c)))"
    by (rule sm_ok_Update_same [OF assms(1)]) (auto simp: u)
  then show ?thesis
    unfolding Raft_StageObjectMeta_def using assms
    by (intro propose_refines) (auto simp: u spec_StageObjectMeta_def reply_simps sm_view_def)
qed

lemma raft_UpsertObjectMeta:
  assumes "sm_ok (sm n)" "clean_meta x"
  shows "refines (sm_view \<circ> sm) (sm_ok \<circ> sm) calm n (Raft_UpsertObjectMeta N n x)
    (spec_UpsertObjectMeta (sm_view (sm n)) x)"
proof -
  let ?x = "x\<lparr>om_state := ObjectStateCommitted\<rparr>"
  let ?c = "(zero_command UpsertObjectMetaCmd)\<lparr>cmd_meta := ?x\<rparr>"
  have u: "Update (sm n) (Some ?c) =
      (if om_bucket x |\<notin>| fmdom (sm_buckets (sm n)) then (sm n, err_envelope MetadataErrorBucketNotFound)
       else ((sm n)\<lparr>sm_objects := fmupd (meta_key x) ?x (sm_objects (sm n))\<rparr>, ok_envelope empty_result))"
    using assms by (auto simp: update_simps upsertObjectMeta_def sm_okD clean_valid err_envelope_def
        ok_envelope_def fmlookup_dom_iff clean_meta_def meta_key_def objectMapKey_def)
  have "sm_ok (fst (Update (sm n) (Some ?c)))"
    by (rule sm_ok_Update_same [OF assms(1)]) (auto simp: u)
  then show ?thesis
    unfolding Raft_UpsertObjectMeta_def using assms
    by (intro propose_refines) (auto simp: u spec_UpsertObjectMeta_def reply_simps sm_view_def)
qed

lemma raft_DeleteStagedObjectMeta:
  assumes "sm_ok (sm n)" "clean_bucket b" "clean_name k"
  shows "refines (sm_view \<circ> sm) (sm_ok \<circ> sm) calm n (Raft_DeleteStagedObjectMeta N n b k)
    (spec_DeleteStagedObjectMeta (sm_view (sm n)) b k)"
proof -
  let ?c = "(zero_command DeleteStagedObjectMetaCmd)\<lparr>cmd_bucket := b, cmd_key := k\<rparr>"
  have u: "Update (sm n) (Some ?c) =
      ((sm n)\<lparr>sm_staged := fmdrop (object_key b k) (sm_staged (sm n))\<rparr>, ok_envelope
         (case fmlookup (sm_staged (sm n)) (object_key b k) of None \<Rightarrow> empty_result
          | Some x \<Rightarrow> empty_result\<lparr>res_object := x, res_object_exists := True\<rparr>))"
    using assms by (auto simp: update_simps deleteStagedObjectMeta_def sm_okD clean_valid
        ok_envelope_def objectMapKey_def empty_result_def split: option.splits)
  have "sm_ok (fst (Update (sm n) (Some ?c)))"
    by (rule sm_ok_Update_same [OF assms(1)]) (auto simp: u)
  then show ?thesis
    unfolding Raft_DeleteStagedObjectMeta_def using assms
    by (intro propose_refines) (auto simp: u spec_DeleteStagedObjectMeta_def reply_simps sm_view_def
      split: option.splits)
qed

lemma raft_DeleteObjectMeta:
  assumes "sm_ok (sm n)" "clean_bucket b" "clean_name k"
  shows "refines (sm_view \<circ> sm) (sm_ok \<circ> sm) calm n (Raft_DeleteObjectMeta N n b k)
    (spec_DeleteObjectMeta (sm_view (sm n)) b k)"
proof -
  let ?c = "(zero_command DeleteObjectMetaCmd)\<lparr>cmd_bucket := b, cmd_key := k\<rparr>"
  have u: "Update (sm n) (Some ?c) =
      ((sm n)\<lparr>sm_objects := fmdrop (object_key b k) (sm_objects (sm n))\<rparr>, ok_envelope
         (case fmlookup (sm_objects (sm n)) (object_key b k) of None \<Rightarrow> empty_result
          | Some x \<Rightarrow> empty_result\<lparr>res_object := x, res_object_exists := True\<rparr>))"
    using assms by (auto simp: update_simps deleteObjectMeta_def sm_okD clean_valid
        ok_envelope_def objectMapKey_def empty_result_def split: option.splits)
  have "sm_ok (fst (Update (sm n) (Some ?c)))"
    by (rule sm_ok_Update_same [OF assms(1)]) (auto simp: u)
  then show ?thesis
    unfolding Raft_DeleteObjectMeta_def using assms
    by (intro propose_refines) (auto simp: u spec_DeleteObjectMeta_def reply_simps sm_view_def
      split: option.splits)
qed

lemma raft_CreateBlobRef:
  assumes "sm_ok (sm n)" "clean_name h" "trim_space p \<noteq> []" "fmlookup (sm_refs (sm n)) h = None"
  shows "refines (sm_view \<circ> sm) (sm_ok \<circ> sm) calm n (Raft_CreateBlobRef N n h p sz ps cs ns)
    (spec_CreateBlobRef (sm_view (sm n)) h p sz ps cs ns)"
proof -
  let ?c = "(zero_command CreateBlobRefCmd)\<lparr>cmd_hash := h, cmd_path := p, cmd_size := sz,
    cmd_placements := ps, cmd_checksums := cs, cmd_sizes := ns\<rparr>"
  have u: "Update (sm n) (Some ?c) =
      ((sm n)\<lparr>sm_refs := fmupd h (new_ref h p sz ps cs ns) (sm_refs (sm n))\<rparr>, ok_envelope empty_result)"
    using assms by (auto simp: update_simps createBlobRef_def sm_okD clean_valid ok_envelope_def new_ref_def)
  have "sm_ok (fst (Update (sm n) (Some ?c)))"
    by (rule sm_ok_Update_same [OF assms(1)]) (auto simp: u)
  then show ?thesis
    unfolding Raft_CreateBlobRef_def using assms
    by (intro propose_refines) (auto simp: u spec_CreateBlobRef_def reply_simps sm_view_def)
qed

lemma raft_IncreaseBlobRef:
  assumes "sm_ok (sm n)" "clean_name h"
  shows "refines (sm_view \<circ> sm) (sm_ok \<circ> sm) calm n (Raft_IncreaseBlobRef N n h)
    (spec_IncreaseBlobRef (sm_view (sm n)) h)"
proof -
  let ?c = "(zero_command IncreaseBlobRefCmd)\<lparr>cmd_hash := h\<rparr>"
  have u: "Update (sm n) (Some ?c) =
      (case fmlookup (sm_refs (sm n)) h of None \<Rightarrow> (sm n, err_envelope MetadataErrorObjectNotFound)
       | Some r \<Rightarrow> ((sm n)\<lparr>sm_refs := fmupd h (r\<lparr>ref_count := ref_count r + 1\<rparr>) (sm_refs (sm n))\<rparr>,
                   ok_envelope empty_result))"
    using assms by (auto simp: update_simps increaseBlobRef_def sm_okD clean_valid ok_envelope_def
        err_envelope_def split: option.splits)
  have "sm_ok (fst (Update (sm n) (Some ?c)))"
    by (rule sm_ok_Update_same [OF assms(1)]) (auto simp: u split: option.splits)
  then show ?thesis
    unfolding Raft_IncreaseBlobRef_def using assms
    by (intro propose_refines) (auto simp: u spec_IncreaseBlobRef_def spec_update_ref_def reply_simps
      sm_view_def split: option.splits)
qed

lemma norm_raft_reply:
  "norm_release (raft_reply f x) = raft_reply (\<lambda>r. if snd (f r) then f r else ([], False)) x"
  by (auto simp: norm_release_def raft_reply_def split: prod.splits sum.splits bool.splits)

lemma raft_DecreaseBlobRef:
  assumes "sm_ok (sm n)" "clean_name h" "fmlookup (sm_refs (sm n)) h \<noteq> None"
  shows "refines (sm_view \<circ> sm) (sm_ok \<circ> sm) calm n (norm_release (Raft_DecreaseBlobRef N n h))
    (spec_DecreaseBlobRef (sm_view (sm n)) h)"
proof -
  let ?c = "(zero_command DecreaseBlobRefCmd)\<lparr>cmd_hash := h\<rparr>"
  obtain r where r: "fmlookup (sm_refs (sm n)) h = Some r" using assms(3) by auto
  have u: "Update (sm n) (Some ?c) = (if ref_count r \<le> 1
       then ((sm n)\<lparr>sm_refs := fmdrop h (sm_refs (sm n))\<rparr>,
             ok_envelope (empty_result\<lparr>res_blob_path := ref_path r, res_blob_removed := True\<rparr>))
       else ((sm n)\<lparr>sm_refs := fmupd h (r\<lparr>ref_count := ref_count r - 1\<rparr>) (sm_refs (sm n))\<rparr>,
             ok_envelope empty_result))"
    using assms r by (auto simp: update_simps decreaseBlobRef_def sm_okD clean_valid ok_envelope_def
        empty_result_def)
  have "sm_ok (fst (Update (sm n) (Some ?c)))"
    by (rule sm_ok_Update_same [OF assms(1)]) (auto simp: u)
  then show ?thesis
    unfolding Raft_DecreaseBlobRef_def norm_raft_reply using assms r
    by (intro propose_refines) (auto simp: u spec_DecreaseBlobRef_def reply_simps sm_view_def)
qed

end

sublocale raft_node \<subseteq> metadata_store "raftStore N" "sm_view \<circ> sm" "sm_ok \<circ> sm" calm
proof (unfold_locales, goal_cases)
  case (14 m)
  then have "sm_wf (sm m)" "fBall (fmdom (sm_buckets (sm m))) clean_bucket"
    by (simp_all add: sm_ok_def)
  then show ?case
    by (auto simp: sm_wf_def sm_view_def fmpred_iff object_ok_def objectMapKey_def meta_key_def
        fmlookup_dom_iff)
qed (simp_all add: raftStore_def raft_BucketExists raft_CreateBucket raft_DeleteBucket
    raft_ListObjectMetas raft_GetObjectMeta raft_StageObjectMeta raft_UpsertObjectMeta
    raft_DeleteStagedObjectMeta raft_DeleteObjectMeta raft_GetBlobRef raft_CreateBlobRef
    raft_IncreaseBlobRef raft_DecreaseBlobRef sm_view_fields)

context raft_node
begin

lemma raft_run_calls:
  "sm_ok (sm n) \<Longrightarrow> calm n \<Longrightarrow> calls_ok (sm_view (sm n)) cs \<Longrightarrow>
     snd (run_calls (raftStore N) n cs) = snd (spec_calls (sm_view (sm n)) cs)"
  using run_calls_spec [of n cs] by simp

lemma raft_get_after_upsert:
  "sm_ok (sm n) \<Longrightarrow> calm n \<Longrightarrow> clean_meta x \<Longrightarrow> fmlookup (sm_buckets (sm n)) (om_bucket x) \<noteq> None \<Longrightarrow>
     snd (Raft_GetObjectMeta N (fst (Raft_UpsertObjectMeta N n x)) (om_bucket x) (om_key x)) =
       Inr (Some (x\<lparr>om_state := ObjectStateCommitted\<rparr>))"
  using get_after_upsert [of n x] by (simp add: raftStore_def sm_view_fields fmlookup_dom_iff)

end

section \<open>A replica with message loss\<close>

text \<open>The concrete node: one copy of the state machine and the fate of the calls to come. A call is
  served, its request is lost, or it is carried out and its reply is lost. With no fate left every
  call is served.\<close>

datatype fate = Served | RequestLost | ReplyLost

record replica =
  rep_sm :: raftStateMachine
  rep_fates :: "fate list"

definition replica_next :: "replica \<Rightarrow> fate" where
  "replica_next n = (case rep_fates n of [] \<Rightarrow> Served | x # _ \<Rightarrow> x)"

definition replica_propose :: "replica \<Rightarrow> MetadataCommand \<Rightarrow> replica \<times> (string + propose_reply)" where
  "replica_propose n c =
     (let n' = n\<lparr>rep_fates := tl (rep_fates n)\<rparr> in
      case Update (rep_sm n) (Some c) of (s, e) \<Rightarrow>
        (case replica_next n of
           Served \<Rightarrow> (n'\<lparr>rep_sm := s\<rparr>, Inr (EnvelopeReply e))
         | RequestLost \<Rightarrow> (n', Inl ''timeout'')
         | ReplyLost \<Rightarrow> (n'\<lparr>rep_sm := s\<rparr>, Inl ''timeout'')))"

definition replica_read :: "replica \<Rightarrow> MetadataQuery \<Rightarrow> replica \<times> (string + read_value)" where
  "replica_read n q =
     (let n' = n\<lparr>rep_fates := tl (rep_fates n)\<rparr> in
      case replica_next n of
        Served \<Rightarrow> (n', Inr (ReadEnvelope (Lookup (rep_sm n) (QueryValue q))))
      | _ \<Rightarrow> (n', Inl ''timeout''))"

definition replica_node :: "replica NodeHost" where
  "replica_node = \<lparr>SyncPropose = replica_propose, SyncRead = replica_read\<rparr>"

definition replica_calm :: "replica \<Rightarrow> bool" where
  "replica_calm n \<longleftrightarrow> list_all (\<lambda>f. f = Served) (rep_fates n)"

lemma replica_calm_next: "replica_calm n \<Longrightarrow> replica_next n = Served"
  by (auto simp: replica_calm_def replica_next_def split: list.splits)

lemma replica_calm_tl: "replica_calm n \<Longrightarrow> list_all (\<lambda>f. f = Served) (tl (rep_fates n))"
  by (cases "rep_fates n") (auto simp: replica_calm_def)

interpretation rn: raft_node replica_node rep_sm replica_calm
proof (unfold_locales, goal_cases)
  case (1 n c)
  then show ?case
    using replica_calm_next [of n]
    by (cases "replica_next n") (auto simp: replica_node_def replica_propose_def case_prod_unfold Let_def)
next
  case (2 n q)
  then show ?case
    by (cases "replica_next n") (auto simp: replica_node_def replica_read_def Let_def)
next
  case (3 n q)
  then show ?case
    using replica_calm_next [of n]
    by (cases "replica_next n") (auto simp: replica_node_def replica_read_def Let_def)
next
  case (4 n c q)
  then show ?case
    using replica_calm_tl [of n]
    by (cases "replica_next n") (auto simp: replica_node_def replica_read_def replica_propose_def
        case_prod_unfold Let_def replica_calm_def)
qed

section \<open>Properties\<close>


definition demo_replica :: replica where
  "demo_replica = \<lparr>rep_sm = fst (Update newRaftStateMachine (Some demo_bucket_cmd)),
     rep_fates = [ReplyLost, Served]\<rparr>"

lemma demo_replica_ok: "sm_ok (rep_sm demo_replica)" "''b'' |\<in>| fmdom (sm_buckets (rep_sm demo_replica))"
  "clean_meta demo_object"
  by code_simp+


end
