(* ===== verification/Erasure_Coder.thy ===== *)
theory Erasure_Coder
  imports Go_Prelude
begin

text \<open>
  The erasure coder of \<open>internal/engine/coder.go\<close>: an object is cut into \<open>k\<close> data shards of equal size,
  padded with zero bytes, and \<open>m\<close> parity shards are added; it is read back from any \<open>k\<close> shards. A shard
  that is missing is the empty byte list.

  The Reed-Solomon library is not part of the repository. It is a record of its two calls, and the
  locale \<open>erasure_scheme\<close> states its documented behaviour: \<open>Encode\<close> keeps the data shards and fills in
  the parity shards, and \<open>Reconstruct\<close> restores all shards of an encoded set when at least \<open>k\<close> of them
  are present. XOR parity with \<open>m = 1\<close> is an instance.
\<close>

section \<open>The coder\<close>

type_synonym shards = "bytes list"

record Scheme =
  rs_Encode :: "shards \<Rightarrow> string + shards"
  rs_Reconstruct :: "shards \<Rightarrow> string + shards"

record CoderConfig =
  cfg_DataChunks :: int
  cfg_ParityChunks :: int
  cfg_has_pool :: bool

record Coder =
  coder_k :: nat
  coder_m :: nat
  coder_scheme :: Scheme

definition CoderConfig_validate :: "CoderConfig \<Rightarrow> string option" where
  "CoderConfig_validate cfg =
     (if cfg_DataChunks cfg < 1 then Some ''erasure: data chunks must be >= 1''
      else if cfg_ParityChunks cfg < 1 then Some ''erasure: parity chunks must be >= 1''
      else if \<not> cfg_has_pool cfg then Some ''erasure: shard pool must be non-nil''
      else None)"

text \<open>\<open>rs_New\<close> is the library's constructor.\<close>

definition newCoder :: "(int \<Rightarrow> int \<Rightarrow> string + Scheme) \<Rightarrow> CoderConfig \<Rightarrow> string + Coder" where
  "newCoder rs_New cfg =
     (case CoderConfig_validate cfg of
        Some e \<Rightarrow> Inl e
      | None \<Rightarrow>
          (case rs_New (cfg_DataChunks cfg) (cfg_ParityChunks cfg) of
             Inl e \<Rightarrow> Inl (''erasure: create encoder: '' @ e)
           | Inr scheme \<Rightarrow>
               Inr \<lparr>coder_k = nat (cfg_DataChunks cfg), coder_m = nat (cfg_ParityChunks cfg),
                    coder_scheme = scheme\<rparr>))"

definition TotalChunks :: "Coder \<Rightarrow> nat" where
  "TotalChunks c = coder_k c + coder_m c"

definition shard_size :: "nat \<Rightarrow> bytes \<Rightarrow> nat" where
  "shard_size k data = (length data + k - 1) div k"

text \<open>The \<open>i\<close>-th data shard: the \<open>i\<close>-th piece of the object, filled up with zero bytes.\<close>

definition data_shard :: "nat \<Rightarrow> bytes \<Rightarrow> nat \<Rightarrow> bytes" where
  "data_shard n data i =
     (let piece = take n (drop (i * n) data) in piece @ replicate (n - length piece) CHR 0x00)"

definition padded_shards :: "nat \<Rightarrow> nat \<Rightarrow> bytes \<Rightarrow> shards" where
  "padded_shards k m data =
     (let n = shard_size k data
      in map (data_shard n data) [0..<k] @ replicate m (replicate n CHR 0x00))"

definition Encode :: "Coder \<Rightarrow> bytes \<Rightarrow> string + shards" where
  "Encode c data =
     (case rs_Encode (coder_scheme c) (padded_shards (coder_k c) (coder_m c) data) of
        Inl e \<Rightarrow> Inl (''erasure: encode data: '' @ e)
      | Inr encoded \<Rightarrow> Inr encoded)"

fun availableShardSize :: "shards \<Rightarrow> nat" where
  "availableShardSize [] = 0"
| "availableShardSize (shard # ss) = (if length shard > 0 then length shard else availableShardSize ss)"

definition ensureDataShardsReady :: "Coder \<Rightarrow> shards \<Rightarrow> bool" where
  "ensureDataShardsReady c ss \<longleftrightarrow> list_all (\<lambda>s. s \<noteq> []) (take (coder_k c) ss)"

definition Decode :: "Coder \<Rightarrow> shards \<Rightarrow> int \<Rightarrow> string + bytes" where
  "Decode c ss originalSize =
     (if originalSize < 0 then Inl ''erasure: original size must be >= 0''
      else if originalSize = 0 then Inr []
      else if availableShardSize ss = 0 then Inl ''erasure: no shards available''
      else case rs_Reconstruct (coder_scheme c) ss of
        Inl e \<Rightarrow> Inl (''erasure: decode data: '' @ e)
      | Inr rs \<Rightarrow>
          if \<not> ensureDataShardsReady c rs then Inl ''erasure: data shard was not reconstructed''
          else let reconstructed = concat (take (coder_k c) rs) in
            if originalSize > int (length reconstructed)
            then Inl ''erasure: original size exceeds reconstructed payload''
            else Inr (take (nat originalSize) reconstructed))"

definition Rebuild :: "Coder \<Rightarrow> shards \<Rightarrow> string + shards" where
  "Rebuild c ss =
     (case rs_Reconstruct (coder_scheme c) ss of
        Inl e \<Rightarrow> Inl (''erasure: rebuild shards: '' @ e)
      | Inr rs \<Rightarrow> Inr rs)"

section \<open>Splitting and joining\<close>

lemma length_data_shard [simp]: "length (data_shard n data i) = n"
  by (simp add: data_shard_def Let_def)

lemma concat_data_shards:
  "concat (map (data_shard n data) [0..<j]) =
     take (j * n) data @ replicate (j * n - length data) CHR 0x00"
proof (induction j)
  case 0
  then show ?case by simp
next
  case (Suc j)
  let ?p = "take n (drop (j * n) data)"
  have "concat (map (data_shard n data) [0..<Suc j]) =
      take (j * n) data @ replicate (j * n - length data) CHR 0x00 @ data_shard n data j"
    by (simp add: Suc)
  also have "\<dots> = take (Suc j * n) data @ replicate (Suc j * n - length data) CHR 0x00"
  proof (cases "j * n \<le> length data")
    case True
    then have "take (Suc j * n) data = take (j * n) data @ ?p"
      by (metis add.commute mult_Suc take_add)
    moreover have "n - length ?p = Suc j * n - length data"
      using True by auto
    ultimately show ?thesis
      using True by (simp add: data_shard_def)
  next
    case False
    then have "?p = []" "Suc j * n - length data = (j * n - length data) + n"
      by auto
    then show ?thesis
      using False by (simp add: data_shard_def flip: replicate_add)
  qed
  finally show ?case .
qed

lemma shard_size_bounds:
  assumes "0 < k"
  shows "length data \<le> k * shard_size k data" "data \<noteq> [] \<Longrightarrow> 0 < shard_size k data"
proof -
  let ?n = "length data + k - 1"
  have "?n mod k < k" using assms by simp
  moreover have "?n div k * k + ?n mod k = ?n" by simp
  ultimately have "length data < ?n div k * k + 1"
    using assms by linarith
  then show "length data \<le> k * shard_size k data"
    by (simp add: mult.commute shard_size_def)
  show "data \<noteq> [] \<Longrightarrow> 0 < shard_size k data"
    using assms by (cases data) (auto simp: div_greater_zero_iff shard_size_def)
qed

text \<open>The data shards hold the object, in order, followed by zero bytes.\<close>

lemma take_concat_shards:
  assumes "0 < k"
  shows "take (length data) (concat (map (data_shard (shard_size k data) data) [0..<k])) = data"
  using shard_size_bounds(1) [OF assms, of data] by (simp add: concat_data_shards)

section \<open>The contract of the erasure code\<close>

text \<open>A set of shards from which some were lost.\<close>

definition erased :: "shards \<Rightarrow> shards \<Rightarrow> bool" where
  "erased es ds \<longleftrightarrow> list_all2 (\<lambda>e d. d = [] \<or> d = e) es ds"

definition present :: "shards \<Rightarrow> nat" where
  "present ds = length (filter (\<lambda>d. d \<noteq> []) ds)"

locale erasure_scheme =
  fixes k m :: nat
    and S :: Scheme
  assumes encode: "length ss = k + m \<Longrightarrow> 0 < n \<Longrightarrow> list_all (\<lambda>s. length s = n) ss \<Longrightarrow>
      \<exists>ps. rs_Encode S ss = Inr (take k ss @ ps) \<and> length ps = m \<and> list_all (\<lambda>s. length s = n) ps"
    and encode_empty: "list_all (\<lambda>s. s = []) ss \<Longrightarrow> \<exists>e. rs_Encode S ss = Inl e"
    and reconstruct: "length ss = k + m \<Longrightarrow> 0 < n \<Longrightarrow> list_all (\<lambda>s. length s = n) ss \<Longrightarrow>
      rs_Encode S ss = Inr es \<Longrightarrow> erased es ds \<Longrightarrow> k \<le> present ds \<Longrightarrow> rs_Reconstruct S ds = Inr es"
    and too_few: "present ds < k \<Longrightarrow> \<exists>e. rs_Reconstruct S ds = Inl e"
    and positive: "0 < k"
begin

lemma present_available: "0 < present ds \<Longrightarrow> 0 < availableShardSize ds"
  by (induction ds) (auto simp: present_def)

text \<open>An object that is not empty is encoded into \<open>k + m\<close> shards of one positive size, the first \<open>k\<close> of
  which hold the object.\<close>

lemma Encode_shards:
  assumes "coder_k c = k" "coder_m c = m" "coder_scheme c = S" "data \<noteq> []"
  obtains ss es where "Encode c data = Inr es" "rs_Encode S ss = Inr es" "length ss = k + m"
    "0 < shard_size k data" "list_all (\<lambda>s. length s = shard_size k data) ss"
    "length es = k + m" "list_all (\<lambda>s. length s = shard_size k data) es"
    "take k es = map (data_shard (shard_size k data) data) [0..<k]"
proof -
  let ?n = "shard_size k data" and ?ss = "padded_shards k m data"
  have n: "0 < ?n"
    using shard_size_bounds(2) [OF positive assms(4)] .
  have l: "length ?ss = k + m" "list_all (\<lambda>s. length s = ?n) ?ss"
    and t: "take k ?ss = map (data_shard ?n data) [0..<k]"
    by (auto simp: list_all_iff padded_shards_def Let_def)
  obtain ps where ps: "rs_Encode S ?ss = Inr (take k ?ss @ ps)" "length ps = m"
      "list_all (\<lambda>s. length s = ?n) ps"
    using encode [OF l(1) n l(2)] by blast
  show thesis
  proof (rule that [OF _ ps(1) l(1) n l(2)])
    show "Encode c data = Inr (take k ?ss @ ps)"
      using ps(1) assms(1-3) by (simp add: Encode_def)
    show "length (take k ?ss @ ps) = k + m" "list_all (\<lambda>s. length s = ?n) (take k ?ss @ ps)"
      using ps l by (auto simp: list_all_iff t)
    show "take k (take k ?ss @ ps) = map (data_shard ?n data) [0..<k]"
      by (simp add: t)
  qed
qed

lemma Encode_total: 
  assumes "coder_k c = k" "coder_m c = m" "coder_scheme c = S" "data \<noteq> []"
  shows "\<exists>es. Encode c data = Inr es"
  using Encode_shards [OF assms] by metis

lemma Rebuild_Encode:
  assumes "coder_k c = k" "coder_m c = m" "coder_scheme c = S" "data \<noteq> []"
    and "Encode c data = Inr es" "erased es ds" "k \<le> present ds"
  shows "Rebuild c ds = Inr es"
proof -
  obtain ss es' where e: "Encode c data = Inr es'" "rs_Encode S ss = Inr es'" "length ss = k + m"
    "0 < shard_size k data" "list_all (\<lambda>s. length s = shard_size k data) ss"
    by (rule Encode_shards [OF assms(1-4)])
  then show ?thesis
    using reconstruct [OF e(3-5,2)] assms(3,5-7) by (simp add: Rebuild_def)
qed

lemma Decode_Encode:
  assumes "coder_k c = k" "coder_m c = m" "coder_scheme c = S" "data \<noteq> []"
    and "Encode c data = Inr es" "erased es ds" "k \<le> present ds"
  shows "Decode c ds (int (length data)) = Inr data"
proof -
  let ?n = "shard_size k data"
  obtain ss es' where e: "Encode c data = Inr es'" "rs_Encode S ss = Inr es'" "length ss = k + m"
    "0 < ?n" "list_all (\<lambda>s. length s = ?n) ss" "length es' = k + m" "list_all (\<lambda>s. length s = ?n) es'"
    "take k es' = map (data_shard ?n data) [0..<k]"
    by (rule Encode_shards [OF assms(1-4)])
  have es: "es' = es" using e(1) assms(5) by simp
  have r: "rs_Reconstruct S ds = Inr es"
    using reconstruct [OF e(3-5,2)] assms(6,7) es by simp
  have ready: "ensureDataShardsReady c es"
    using e(4,7) assms(1) by (auto simp: ensureDataShardsReady_def list_all_iff es dest!: in_set_takeD)
  have j: "take (length data) (concat (take k es)) = data"
    using take_concat_shards [OF positive, of data] by (simp add: e(8) flip: es)
  then have len: "length data \<le> length (concat (take k es))"
    by (metis length_take min.cobounded1)
  have "0 < availableShardSize ds"
    using assms(7) positive by (intro present_available) simp
  then show ?thesis
    using assms(1,3,4) r ready j len by (simp add: Decode_def)
qed

text \<open>Too few shards are an error, never wrong data.\<close>

lemma Decode_too_few:
  assumes "coder_scheme c = S" "present ds < k" "0 < sz"
  shows "\<exists>e. Decode c ds sz = Inl e"
  using too_few [OF assms(2)] assms(1,3) by (auto simp: Decode_def)

text \<open>An empty object cannot be encoded.\<close>

lemma Encode_empty:
  assumes "coder_k c = k" "coder_scheme c = S"
  shows "\<exists>e. Encode c [] = Inl e"
proof -
  have "shard_size k [] = 0"
    using positive by (simp add: shard_size_def)
  then have "list_all (\<lambda>s. s = []) (padded_shards k (coder_m c) [])"
    by (auto simp: padded_shards_def list_all_iff data_shard_def)
  then show ?thesis
    using encode_empty assms by (fastforce simp: Encode_def)
qed

end

section \<open>XOR parity\<close>

fun xor_char :: "char \<Rightarrow> char \<Rightarrow> char" where
  "xor_char (Char a0 a1 a2 a3 a4 a5 a6 a7) (Char b0 b1 b2 b3 b4 b5 b6 b7) =
     Char (a0 \<noteq> b0) (a1 \<noteq> b1) (a2 \<noteq> b2) (a3 \<noteq> b3) (a4 \<noteq> b4) (a5 \<noteq> b5) (a6 \<noteq> b6) (a7 \<noteq> b7)"

definition xor_bytes :: "bytes \<Rightarrow> bytes \<Rightarrow> bytes" where
  "xor_bytes = map2 xor_char"

definition xor_all :: "nat \<Rightarrow> shards \<Rightarrow> bytes" where
  "xor_all n ss = foldr xor_bytes ss (replicate n CHR 0x00)"

text \<open>The parity shard is the sum of the data shards; a missing shard is the sum of the others.\<close>

definition xor_encode :: "nat \<Rightarrow> shards \<Rightarrow> string + shards" where
  "xor_encode k ss =
     (if availableShardSize ss = 0 then Inl ''no shard data''
      else Inr (take k ss @ [xor_all (availableShardSize ss) (take k ss)]))"

definition xor_reconstruct :: "nat \<Rightarrow> shards \<Rightarrow> string + shards" where
  "xor_reconstruct k ds =
     (if length ds \<noteq> k + 1 \<or> present ds < k then Inl ''too few shards''
      else let missing = xor_all (availableShardSize ds) (filter (\<lambda>d. d \<noteq> []) ds)
           in Inr (map (\<lambda>d. if d = [] then missing else d) ds))"

definition xor_scheme :: "nat \<Rightarrow> Scheme" where
  "xor_scheme k = \<lparr>rs_Encode = xor_encode k, rs_Reconstruct = xor_reconstruct k\<rparr>"

lemma xor_char_laws:
  "xor_char a b = xor_char b a" "xor_char (xor_char a b) c = xor_char a (xor_char b c)"
  "xor_char a CHR 0x00 = a" "xor_char a a = CHR 0x00"
  by (cases a; cases b; cases c; auto)+

lemma xor_bytes_comm: "xor_bytes a b = xor_bytes b a"
  unfolding xor_bytes_def by (induction a b rule: list_induct2') (auto simp: xor_char_laws(1))

lemma xor_bytes_assoc: "xor_bytes (xor_bytes a b) c = xor_bytes a (xor_bytes b c)"
  unfolding xor_bytes_def
proof (induction a arbitrary: b c)
  case (Cons x a)
  then show ?case by (cases b; cases c) (auto simp: xor_char_laws(2))
qed simp

lemma xor_bytes_left_comm: "xor_bytes a (xor_bytes b c) = xor_bytes b (xor_bytes a c)"
  by (metis xor_bytes_assoc xor_bytes_comm)

lemma xor_bytes_zero: "xor_bytes a (replicate (length a) CHR 0x00) = a"
  unfolding xor_bytes_def by (induction a) (auto simp: xor_char_laws(3))

lemma xor_bytes_self: "xor_bytes a a = replicate (length a) CHR 0x00"
  unfolding xor_bytes_def by (induction a) (auto simp: xor_char_laws(4))

lemma length_xor_bytes [simp]: "length (xor_bytes a b) = min (length a) (length b)"
  by (simp add: xor_bytes_def)

lemma length_xor_all: "list_all (\<lambda>s. length s = n) ss \<Longrightarrow> length (xor_all n ss) = n"
  by (induction ss) (auto simp: xor_all_def)

lemma xor_all_insert: "xor_all n (xs @ e # ys) = xor_bytes e (xor_all n (xs @ ys))"
  unfolding xor_all_def by (induction xs) (auto simp: xor_bytes_left_comm)

lemma xor_all_missing:
  assumes "list_all (\<lambda>s. length s = n) (xs @ e # ys)" "xor_all n (xs @ e # ys) = replicate n CHR 0x00"
  shows "xor_all n (xs @ ys) = e"
proof -
  let ?r = "xor_all n (xs @ ys)"
  have l: "length ?r = n" "length e = n"
    using assms(1) by (auto intro: length_xor_all)
  have "xor_bytes e (xor_bytes e ?r) = xor_bytes e (replicate n CHR 0x00)"
    using assms(2) by (simp add: xor_all_insert)
  then have "xor_bytes (replicate n CHR 0x00) ?r = e"
    using l xor_bytes_zero [of e] by (simp add: xor_bytes_self flip: xor_bytes_assoc)
  then show ?thesis
    using xor_bytes_zero [of ?r] l by (simp add: xor_bytes_comm)
qed

lemma xor_parity_zero:
  assumes "list_all (\<lambda>s. length s = n) ds"
  shows "xor_all n (ds @ [xor_all n ds]) = replicate n CHR 0x00"
  using xor_all_insert [of n ds "xor_all n ds" "[]"] length_xor_all [OF assms]
  by (simp add: xor_bytes_self)

lemma availableShardSize_all:
  "list_all (\<lambda>s. length s = n \<or> s = []) ss \<Longrightarrow> 0 < present ss \<Longrightarrow> availableShardSize ss = n"
  by (induction ss) (auto simp: present_def)

lemma present_full: "present ds = length ds \<longleftrightarrow> [] \<notin> set ds"
proof (induction ds)
  case (Cons d ds)
  moreover have "length (filter (\<lambda>d. d \<noteq> []) ds) \<noteq> Suc (length ds)"
    by (metis length_filter_le not_less_eq_eq order_refl)
  ultimately show ?case by (auto simp: present_def)
qed (simp add: present_def)

lemma present_append [simp]: "present (xs @ ys) = present xs + present ys" "present ([] # ys) = present ys"
  by (simp_all add: present_def)

lemma present_le: "present ds \<le> length ds"
  by (simp add: present_def)

lemma erased_full: "erased es ds \<Longrightarrow> [] \<notin> set ds \<Longrightarrow> ds = es"
  unfolding erased_def by (induction rule: list_all2_induct) auto

text \<open>At most one shard is missing.\<close>

lemma erased_one:
  assumes "erased es ds" "length es = k + 1" "k \<le> present ds" "[] \<in> set ds"
  obtains xs e ys where "es = xs @ e # ys" "ds = xs @ [] # ys" "[] \<notin> set xs" "[] \<notin> set ys"
proof -
  obtain xs ys where d: "ds = xs @ [] # ys" using assms(4) by (meson split_list)
  have "length ds = k + 1"
    using assms(1,2) by (simp add: erased_def list_all2_lengthD)
  then have "present xs = length xs" "present ys = length ys"
    using assms(3) d present_le [of xs] present_le [of ys] by auto
  then have n: "[] \<notin> set xs" "[] \<notin> set ys"
    by (simp_all add: present_full)
  obtain as e bs where "es = as @ e # bs" "erased as xs" "erased bs ys"
    using assms(1) by (auto simp: d erased_def list_all2_append2 list_all2_Cons2)
  then show thesis
    using that n d erased_full by metis
qed

lemma xor_encode_even:
  assumes "length ss = k + 1" "0 < k" "0 < n" "list_all (\<lambda>s. length s = n) ss"
  shows "xor_encode k ss = Inr (take k ss @ [xor_all n (take k ss)])"
    and "list_all (\<lambda>s. length s = n) (take k ss @ [xor_all n (take k ss)])"
proof -
  have "ss \<noteq> []" using assms(1) by auto
  then have "availableShardSize ss = n"
    using assms(3,4) by (cases ss) auto
  then show "xor_encode k ss = Inr (take k ss @ [xor_all n (take k ss)])"
    using assms(3) by (simp add: xor_encode_def)
  have "list_all (\<lambda>s. length s = n) (take k ss)"
    using assms(4) by (auto simp: list_all_iff dest: in_set_takeD)
  then show "list_all (\<lambda>s. length s = n) (take k ss @ [xor_all n (take k ss)])"
    by (simp add: length_xor_all)
qed

lemma xor_reconstruct_erased:
  assumes "0 < k" "0 < n" "length es = k + 1" "list_all (\<lambda>s. length s = n) es"
    and "xor_all n es = replicate n CHR 0x00" "erased es ds" "k \<le> present ds"
  shows "xor_reconstruct k ds = Inr es"
proof -
  have l: "length ds = k + 1"
    using assms(3,6) by (simp add: erased_def list_all2_lengthD)
  have "list_all (\<lambda>s. length s = n \<or> s = []) ds"
    using assms(4,6) by (auto simp: erased_def list_all_length list_all2_conv_all_nth)
  then have av: "availableShardSize ds = n"
    using assms(1,7) by (intro availableShardSize_all) auto
  show ?thesis
  proof (cases "[] \<in> set ds")
    case False
    then have "ds = es" "map (\<lambda>d. if d = [] then x else d) ds = ds" for x
      using assms(6) by (auto intro: erased_full map_idI)
    then show ?thesis
      using l assms(7) by (simp add: xor_reconstruct_def Let_def)
  next
    case True
    obtain xs e ys where x: "es = xs @ e # ys" "ds = xs @ [] # ys" "[] \<notin> set xs" "[] \<notin> set ys"
      using erased_one [OF assms(6,3,7) True] .
    have "filter (\<lambda>d. d \<noteq> []) xs = xs" "filter (\<lambda>d. d \<noteq> []) ys = ys"
      using x(3,4) by (auto simp: filter_id_conv)
    moreover have "map (\<lambda>d. if d = [] then z else d) xs = xs" "map (\<lambda>d. if d = [] then z else d) ys = ys" for z
      using x(3,4) by (auto intro!: map_idI)
    moreover have "xor_all n (xs @ ys) = e"
      using xor_all_missing assms(4,5) x(1) by blast
    ultimately show ?thesis
      using l assms(7) av x(1,2) by (simp add: xor_reconstruct_def Let_def)
  qed
qed

lemma xor_erasure_scheme: "0 < k \<Longrightarrow> erasure_scheme k 1 (xor_scheme k)"
proof (unfold_locales, goal_cases)
  case (1 ss n)
  then show ?case
    using xor_encode_even [of ss k n] by (auto simp: xor_scheme_def)
next
  case (2 ss)
  then have "availableShardSize ss = 0" by (induction ss) auto
  then show ?case by (simp add: xor_scheme_def xor_encode_def)
next
  case (3 ss n es ds)
  let ?es = "take k ss @ [xor_all n (take k ss)]"
  have "list_all (\<lambda>s. length s = n) (take k ss)"
    using 3(4) by (auto simp: list_all_iff dest: in_set_takeD)
  then have "xor_reconstruct k ds = Inr es"
    using 3 xor_encode_even [OF 3(2,1,3,4)] xor_parity_zero
    by (intro xor_reconstruct_erased [of k n]) (auto simp: xor_scheme_def)
  then show ?case by (simp add: xor_scheme_def)
next
  case (4 ds)
  then show ?case by (simp add: xor_scheme_def xor_reconstruct_def)
qed auto

interpretation xor21: erasure_scheme 2 1 "xor_scheme 2"
  by (rule xor_erasure_scheme) simp

section \<open>Properties\<close>

text \<open>C11: erasure coding round trip: for every non-empty object, encoding succeeds and gives \<open>k + m\<close>
  shards, and decoding gives the object back from any of its shards as long as at least \<open>k\<close> remain
  (so any \<open>m\<close> may be lost), for every erasure code that meets its contract.\<close>

theorem Coder_roundtrip:
  assumes "erasure_scheme (coder_k c) (coder_m c) (coder_scheme c)" "data \<noteq> []"
  shows "\<exists>es. Encode c data = Inr es \<and> length es = TotalChunks c \<and>
    (\<forall>ds. erased es ds \<and> coder_k c \<le> present ds \<longrightarrow>
       Decode c ds (int (length data)) = Inr data \<and> Rebuild c ds = Inr es)"
proof -
  obtain ss es where "Encode c data = Inr es" "length es = coder_k c + coder_m c"
    by (rule erasure_scheme.Encode_shards [OF assms(1) refl refl refl assms(2)])
  then show ?thesis
    using erasure_scheme.Decode_Encode [OF assms(1) refl refl refl assms(2)]
      erasure_scheme.Rebuild_Encode [OF assms(1) refl refl refl assms(2)]
    by (auto simp: TotalChunks_def)
qed

definition xor_coder :: "nat \<Rightarrow> Coder" where
  "xor_coder k = \<lparr>coder_k = k, coder_m = 1, coder_scheme = xor_scheme k\<rparr>"

theorem Coder_roundtrip_witness:
  "Encode (xor_coder 2) ''abc'' = Inr [''ab'', [CHR ''c'', CHR 0x00], [CHR 0x02, CHR ''b'']] \<and>
   Decode (xor_coder 2) [[], [CHR ''c'', CHR 0x00], [CHR 0x02, CHR ''b'']] 3 = Inr ''abc''"
proof -
  have e: "Encode (xor_coder 2) ''abc'' = Inr [''ab'', [CHR ''c'', CHR 0x00], [CHR 0x02, CHR ''b'']]"
    by code_simp
  have d: "erased [''ab'', [CHR ''c'', CHR 0x00], [CHR 0x02, CHR ''b'']]
      [[], [CHR ''c'', CHR 0x00], [CHR 0x02, CHR ''b'']]"
    "2 \<le> present [[], [CHR ''c'', CHR 0x00], [CHR 0x02, CHR ''b'']]"
    by code_simp+
  have "erasure_scheme (coder_k (xor_coder 2)) (coder_m (xor_coder 2)) (coder_scheme (xor_coder 2))"
    using xor21.erasure_scheme_axioms by (simp add: xor_coder_def)
  from Coder_roundtrip [OF this, of "''abc''"] e d show ?thesis
    by (auto simp: xor_coder_def)
qed

end
