(* ===== verification/Storage_Nodes.thy ===== *)
theory Storage_Nodes
  imports Model
begin

text \<open>
  The storage nodes of an engine and where shards are placed: \<open>placement.go\<close>, \<open>storage_nodes.go\<close>,
  \<open>storage_node_info.go\<close>, \<open>storage_control.go\<close> and the constructors of \<open>storage_node.go\<close> and \<open>remote_node.go\<close>
  under \<open>internal/engine\<close>. The table of nodes is a record the engine extends with its files. Contexts
  are not modelled (a cancelled context is one more error of the planners). Parsing a URL is a
  parameter: it gives the host and the URL printed without path, query and fragment.

  The invariant \<open>nodes_ok\<close> says that every node is registered under its own identifier, that the local
  node is registered, that only registered nodes are drained and that the placement planner is the one
  for the active nodes; the theorems say what a placement then looks like.
\<close>

section \<open>Nodes and planners\<close>

abbreviation DefaultLocalNodeID :: string where "DefaultLocalNodeID \<equiv> ''local''"
abbreviation DefaultLocalNodeAddress :: string where "DefaultLocalNodeAddress \<equiv> ''local''"

text \<open>A node is local (identifier, address) or remote (identifier, address, base URL, token).\<close>

datatype StorageNode =
    LocalStorageNode string string
  | remoteStorageNode string string string string

fun node_ID :: "StorageNode \<Rightarrow> string" where
  "node_ID (LocalStorageNode nid address) = (if nid = [] then DefaultLocalNodeID else nid)"
| "node_ID (remoteStorageNode nid address base token) =
     (if trim_space nid = [] then DefaultLocalNodeID else trim_space nid)"

fun node_Address :: "StorageNode \<Rightarrow> string" where
  "node_Address (LocalStorageNode nid address) = (if address = [] then DefaultLocalNodeAddress else address)"
| "node_Address (remoteStorageNode nid address base token) =
     (if trim_space address = [] then DefaultLocalNodeAddress else trim_space address)"

definition NewLocalStorageNode :: "string \<Rightarrow> string \<Rightarrow> StorageNode" where
  "NewLocalStorageNode nid address =
     (let nid = trim_space nid; address = trim_space address;
          nid = (if nid = [] then DefaultLocalNodeID else nid);
          address = (if address = [] then DefaultLocalNodeAddress else address)
      in LocalStorageNode nid address)"

fun has_infix :: "string \<Rightarrow> string \<Rightarrow> bool" where
  "has_infix [] p = (p = [])"
| "has_infix (c # s) p = (has_prefix (c # s) p \<or> has_infix s p)"

definition normalizeStorageNodeAddress ::
  "(string \<Rightarrow> (string \<times> string) option) \<Rightarrow> string \<Rightarrow> string + string" where
  "normalizeStorageNodeAddress url_Parse raw =
     (let raw = trim_space raw in
      if raw = [] then Inl ''storage node address is required''
      else let raw = (if \<not> has_infix raw ''://'' then ''http://'' @ raw else raw) in
        case url_Parse raw of
          None \<Rightarrow> Inl ''parse storage node address''
        | Some (host, printed) \<Rightarrow>
            if trim_space host = [] then Inl (''storage node address missing host: '' @ raw)
            else Inr (rev (dropWhile (\<lambda>c. c = CHR ''/'') (rev printed))))"

definition newRemoteStorageNode ::
  "(string \<Rightarrow> (string \<times> string) option) \<Rightarrow> string \<Rightarrow> string \<Rightarrow> string + StorageNode" where
  "newRemoteStorageNode url_Parse nid address =
     (let nid = trim_space nid; address = trim_space address in
      if nid = [] then Inl ''storage node id is required''
      else if address = [] then Inl ''storage node address is required''
      else case normalizeStorageNodeAddress url_Parse address of
        Inl e \<Rightarrow> Inl (''normalize storage node address: '' @ e)
      | Inr baseURL \<Rightarrow> Inr (remoteStorageNode nid address baseURL []))"

definition raftStorageNodeID :: "nat \<Rightarrow> string" where
  "raftStorageNodeID replicaID = ''raft-'' @ show_nat replicaID"

datatype PlacementPlanner =
    SingleNodePlacementPlanner StorageNode
  | RoundRobinPlacementPlanner string "StorageNode list"

definition NewRoundRobinPlacementPlanner :: "string \<Rightarrow> StorageNode list \<Rightarrow> PlacementPlanner" where
  "NewRoundRobinPlacementPlanner localNodeID nodes =
     RoundRobinPlacementPlanner (trim_space localNodeID)
       (sort_key node_ID (filter (\<lambda>node. trim_space (node_ID node) \<noteq> []) nodes))"

definition SingleNode_Plan :: "StorageNode \<Rightarrow> int \<Rightarrow> string + ShardPlacement list" where
  "SingleNode_Plan node shardCount =
     (if shardCount < 1 then Inl ''placement shard count must be greater than zero''
      else Inr (map (\<lambda>index. \<lparr>pl_index = int index, pl_node = node_ID node,
                      pl_address = node_Address node, pl_local = True\<rparr>) [0..<nat shardCount]))"

definition RoundRobin_Plan ::
  "string \<Rightarrow> StorageNode list \<Rightarrow> int \<Rightarrow> string + ShardPlacement list" where
  "RoundRobin_Plan localNodeID nodes shardCount =
     (if shardCount < 1 then Inl ''placement shard count must be greater than zero''
      else if nodes = [] then Inl ''placement planner needs at least one storage node''
      else Inr (map (\<lambda>index.
               let node = nodes ! (index mod length nodes); nodeID = trim_space (node_ID node)
               in \<lparr>pl_index = int index, pl_node = nodeID, pl_address = trim_space (node_Address node),
                   pl_local = (nodeID \<noteq> [] \<and> nodeID = localNodeID)\<rparr>) [0..<nat shardCount]))"

definition Plan :: "PlacementPlanner \<Rightarrow> int \<Rightarrow> string + ShardPlacement list" where
  "Plan planner shardCount =
     (case planner of
        SingleNodePlacementPlanner node \<Rightarrow> SingleNode_Plan node shardCount
      | RoundRobinPlacementPlanner localNodeID nodes \<Rightarrow> RoundRobin_Plan localNodeID nodes shardCount)"

definition validatePlacementPlan :: "ShardPlacement list \<Rightarrow> int \<Rightarrow> string option" where
  "validatePlacementPlan plan shardCount =
     (if int (length plan) \<noteq> shardCount then Some ''placement plan shard count''
      else if \<not> list_all (\<lambda>(index, placement). pl_index placement = int index \<and>
                 trim_space (pl_node placement) \<noteq> []) (enumerate 0 plan)
      then Some ''placement index or node id''
      else None)"

section \<open>The node table\<close>

record NodeTable =
  nt_nodes :: "(string, StorageNode) fmap"
  nt_drained :: "string fset"
  nt_local :: string
  nt_planner :: "PlacementPlanner option"
  nt_token :: string

definition SetControlToken :: "('a) NodeTable_scheme \<Rightarrow> string \<Rightarrow> ('a) NodeTable_scheme" where
  "SetControlToken e token = e\<lparr>nt_token := trim_space token\<rparr>"

definition storageNodesLocked :: "('a) NodeTable_scheme \<Rightarrow> StorageNode list" where
  "storageNodesLocked e =
     sort_key (\<lambda>node. trim_space (node_ID node))
       (filter (\<lambda>node. trim_space (node_ID node) \<noteq> []) (fm_values (nt_nodes e)))"

definition placementNodesLocked :: "('a) NodeTable_scheme \<Rightarrow> StorageNode list" where
  "placementNodesLocked e =
     (let nodes = storageNodesLocked e in
      if nt_drained e = {||} then nodes
      else filter (\<lambda>node. node_ID node |\<notin>| nt_drained e) nodes)"

definition planner_for :: "string \<Rightarrow> StorageNode list \<Rightarrow> PlacementPlanner option" where
  "planner_for localNodeID nodes =
     (case nodes of
        [] \<Rightarrow> None
      | [node] \<Rightarrow> Some (SingleNodePlacementPlanner node)
      | _ \<Rightarrow> Some (NewRoundRobinPlacementPlanner localNodeID nodes))"

definition reconfigurePlacementPlannerLocked :: "('a) NodeTable_scheme \<Rightarrow> ('a) NodeTable_scheme" where
  "reconfigurePlacementPlannerLocked e =
     e\<lparr>nt_planner := planner_for (nt_local e) (placementNodesLocked e)\<rparr>"

definition registerStorageNodeLocked :: "('a) NodeTable_scheme \<Rightarrow> StorageNode \<Rightarrow> ('a) NodeTable_scheme" where
  "registerStorageNodeLocked e node =
     (let nodeID = trim_space (node_ID node) in
      reconfigurePlacementPlannerLocked
        (e\<lparr>nt_nodes := fmupd nodeID node (nt_nodes e), nt_drained := nt_drained e |-| {|nodeID|}\<rparr>))"

definition RegisterStorageNode ::
  "('a) NodeTable_scheme \<Rightarrow> StorageNode \<Rightarrow> ('a) NodeTable_scheme \<times> string option" where
  "RegisterStorageNode e node =
     (if trim_space (node_ID node) = [] then (e, Some ''storage node id is required'')
      else (registerStorageNodeLocked e node, None))"

definition configureLocalNodeLocked ::
  "('a) NodeTable_scheme \<Rightarrow> string \<Rightarrow> string \<Rightarrow> ('a) NodeTable_scheme" where
  "configureLocalNodeLocked e nid address =
     (let nid = trim_space nid; address = trim_space address;
          nid = (if nid = [] then DefaultLocalNodeID else nid);
          address = (if address = [] then DefaultLocalNodeAddress else address);
          node = NewLocalStorageNode nid address
      in registerStorageNodeLocked
           (e\<lparr>nt_local := node_ID node, nt_nodes := fmempty, nt_drained := {||}\<rparr>) node)"

definition localNodeAddress :: "('a) NodeTable_scheme \<Rightarrow> string \<Rightarrow> string" where
  "localNodeAddress e localNodeID =
     (let address = (case fmlookup (nt_nodes e) localNodeID of
                       None \<Rightarrow> DefaultLocalNodeAddress | Some n \<Rightarrow> trim_space (node_Address n))
      in if address = [] then DefaultLocalNodeAddress else address)"

text \<open>The loop over the raft members; the local replica contributes its address only.\<close>

fun syncRaftStorageNodes :: "(string \<Rightarrow> (string \<times> string) option) \<Rightarrow> nat \<Rightarrow> string \<Rightarrow>
    (nat \<times> string) list \<Rightarrow> (string, StorageNode) fmap \<Rightarrow> string \<Rightarrow>
    string + (string, StorageNode) fmap \<times> string" where
  "syncRaftStorageNodes url_Parse localReplicaID controlToken [] nodes localAddress =
     Inr (nodes, localAddress)"
| "syncRaftStorageNodes url_Parse localReplicaID controlToken ((replicaID, target) # rest) nodes localAddress =
     (let target = trim_space target in
      if replicaID = 0 then Inl ''raft replica id must be greater than zero''
      else if target = [] then Inl ''raft target is required for replica''
      else case newRemoteStorageNode url_Parse (raftStorageNodeID replicaID) target of
        Inl e \<Rightarrow> Inl (''build remote storage node: '' @ e)
      | Inr (LocalStorageNode _ _) \<Rightarrow> Inl []
      | Inr (remoteStorageNode nid address base _) \<Rightarrow>
          let remote = remoteStorageNode nid address base (trim_space controlToken);
              nodes = fmupd (raftStorageNodeID replicaID) remote nodes
          in if replicaID = localReplicaID
             then syncRaftStorageNodes url_Parse localReplicaID controlToken rest
                    (fmdrop (raftStorageNodeID replicaID) nodes) target
             else syncRaftStorageNodes url_Parse localReplicaID controlToken rest nodes localAddress)"

definition add_nodes :: "StorageNode list \<Rightarrow> (string, StorageNode) fmap \<Rightarrow> (string, StorageNode) fmap" where
  "add_nodes ns m = fold (\<lambda>node. fmupd (node_ID node) node) ns m"

definition restoreDrainedNodesLocked ::
  "('a) NodeTable_scheme \<Rightarrow> string list \<Rightarrow> ('a) NodeTable_scheme" where
  "restoreDrainedNodesLocked e nodeIDs =
     e\<lparr>nt_drained := fold (\<lambda>nodeID drained. if fmlookup (nt_nodes e) nodeID \<noteq> None
                            then finsert nodeID drained else drained) nodeIDs (nt_drained e)\<rparr>"

definition SyncStorageNodesFromRaft :: "(string \<Rightarrow> (string \<times> string) option) \<Rightarrow>
    ('a) NodeTable_scheme \<Rightarrow> nat \<Rightarrow> (nat, string) fmap \<Rightarrow> ('a) NodeTable_scheme \<times> string option" where
  "SyncStorageNodesFromRaft url_Parse e localReplicaID raftNodes =
     (if localReplicaID = 0 then (e, Some ''local raft replica id must be greater than zero'')
      else let drained = sorted_list_of_fset (nt_drained e);
               localNodeID = raftStorageNodeID localReplicaID;
               address = localNodeAddress e localNodeID
           in case syncRaftStorageNodes url_Parse localReplicaID (nt_token e) (fm_entries raftNodes) fmempty [] of
                Inl err \<Rightarrow> (e, Some err)
              | Inr (nextNodes, nextLocalNodeAddress) \<Rightarrow>
                  let address = (if nextLocalNodeAddress \<noteq> [] then nextLocalNodeAddress else address);
                      e = configureLocalNodeLocked (e\<lparr>nt_nodes := fmempty, nt_drained := {||}\<rparr>) localNodeID address;
                      e = e\<lparr>nt_nodes := add_nodes (fm_values nextNodes) (nt_nodes e)\<rparr>;
                      e = restoreDrainedNodesLocked e drained
                  in (reconfigurePlacementPlannerLocked e, None))"

definition UnregisterStorageNode ::
  "('a) NodeTable_scheme \<Rightarrow> string \<Rightarrow> ('a) NodeTable_scheme \<times> string option" where
  "UnregisterStorageNode e nodeID =
     (let nodeID = trim_space nodeID in
      if nodeID = [] then (e, Some ''storage node id is required'')
      else if nodeID = nt_local e then (e, Some ''cannot unregister local storage node'')
      else if fmlookup (nt_nodes e) nodeID = None then (e, Some ''storage node does not exist'')
      else (reconfigurePlacementPlannerLocked
              (e\<lparr>nt_nodes := fmdrop nodeID (nt_nodes e), nt_drained := nt_drained e |-| {|nodeID|}\<rparr>), None))"

definition DrainStorageNode ::
  "('a) NodeTable_scheme \<Rightarrow> string \<Rightarrow> ('a) NodeTable_scheme \<times> string option" where
  "DrainStorageNode e nodeID =
     (let nodeID = trim_space nodeID in
      if nodeID = [] then (e, Some ''storage node id is required'')
      else if fmlookup (nt_nodes e) nodeID = None then (e, Some ''storage node does not exist'')
      else (reconfigurePlacementPlannerLocked (e\<lparr>nt_drained := finsert nodeID (nt_drained e)\<rparr>), None))"

definition ResumeStorageNode ::
  "('a) NodeTable_scheme \<Rightarrow> string \<Rightarrow> ('a) NodeTable_scheme \<times> string option" where
  "ResumeStorageNode e nodeID =
     (let nodeID = trim_space nodeID in
      if nodeID = [] then (e, Some ''storage node id is required'')
      else if fmlookup (nt_nodes e) nodeID = None then (e, Some ''storage node does not exist'')
      else (reconfigurePlacementPlannerLocked (e\<lparr>nt_drained := nt_drained e |-| {|nodeID|}\<rparr>), None))"

definition PlanShardPlacement :: "('a) NodeTable_scheme \<Rightarrow> int \<Rightarrow> string + ShardPlacement list" where
  "PlanShardPlacement e shardCount =
     (case nt_planner e of
        None \<Rightarrow> Inl ''placement planner is not configured''
      | Some planner \<Rightarrow>
          (case Plan planner shardCount of
             Inl err \<Rightarrow> Inl (''plan shard placement: '' @ err)
           | Inr plan \<Rightarrow>
               (case validatePlacementPlan plan shardCount of
                  Some err \<Rightarrow> Inl err
                | None \<Rightarrow> Inr plan)))"

definition storageNode :: "('a) NodeTable_scheme \<Rightarrow> ShardPlacement \<Rightarrow> string + StorageNode" where
  "storageNode e placement =
     (let nodeID = trim_space (pl_node placement);
          nodeID = (if nodeID = [] then nt_local e else nodeID)
      in case fmlookup (nt_nodes e) nodeID of
           None \<Rightarrow> Inl (''storage node is not registered: '' @ nodeID)
         | Some node \<Rightarrow> Inr node)"

definition StorageNode_lookup :: "('a) NodeTable_scheme \<Rightarrow> string \<Rightarrow> string + StorageNode" where
  "StorageNode_lookup e nid =
     (let nodeID = trim_space nid;
          nodeID = (if nodeID = [] then nt_local e else nodeID);
          nodeID = (if nodeID = [] then DefaultLocalNodeID else nodeID)
      in case fmlookup (nt_nodes e) nodeID of
           None \<Rightarrow> Inl (''storage node is not registered: '' @ nodeID)
         | Some node \<Rightarrow> Inr node)"

definition localShardPlacement :: "('a) NodeTable_scheme \<Rightarrow> nat \<Rightarrow> ShardPlacement" where
  "localShardPlacement e index =
     (case fmlookup (nt_nodes e) (nt_local e) of
        None \<Rightarrow> \<lparr>pl_index = int index, pl_node = DefaultLocalNodeID,
                 pl_address = DefaultLocalNodeAddress, pl_local = True\<rparr>
      | Some node \<Rightarrow> \<lparr>pl_index = int index, pl_node = node_ID node,
                 pl_address = node_Address node, pl_local = True\<rparr>)"

text \<open>The candidate for a shard that leaves a node.\<close>

definition rebalanceTargetPlacement :: "('a) NodeTable_scheme \<Rightarrow> nat \<Rightarrow> string \<Rightarrow> string + ShardPlacement" where
  "rebalanceTargetPlacement e index fromNodeID =
     (let candidates = filter (\<lambda>node. node_ID node \<noteq> fromNodeID) (placementNodesLocked e) in
      if candidates = [] then Inl ''rebalance target node is unavailable''
      else let node = candidates ! (index mod length candidates); nodeID = node_ID node
           in Inr \<lparr>pl_index = int index, pl_node = nodeID, pl_address = node_Address node,
                   pl_local = (nodeID = nt_local e)\<rparr>)"

section \<open>Invariant\<close>

text \<open>A node made by one of the constructors has a trimmed identifier.\<close>

definition node_ok :: "StorageNode \<Rightarrow> bool" where
  "node_ok n \<longleftrightarrow> trim_space (node_ID n) = node_ID n \<and> node_ID n \<noteq> []"

definition nodes_ok :: "('a) NodeTable_scheme \<Rightarrow> bool" where
  "nodes_ok e \<longleftrightarrow> fmpred (\<lambda>nid n. node_ok n \<and> node_ID n = nid) (nt_nodes e) \<and>
     nt_local e |\<in>| fmdom (nt_nodes e) \<and> nt_drained e |\<subseteq>| fmdom (nt_nodes e) \<and>
     nt_planner e = nt_planner (reconfigurePlacementPlannerLocked e)"

abbreviation named_nodes :: "(string, StorageNode) fmap \<Rightarrow> bool" where
  "named_nodes m \<equiv> fmpred (\<lambda>nid n. node_ok n \<and> node_ID n = nid) m"

text \<open>The active nodes: registered and not drained.\<close>

definition active_ids :: "('a) NodeTable_scheme \<Rightarrow> string set" where
  "active_ids e = {i. i |\<in>| fmdom (nt_nodes e) \<and> i |\<notin>| nt_drained e}"

lemma placementNodes_filter:
  "placementNodesLocked e = filter (\<lambda>n. node_ID n |\<notin>| nt_drained e) (storageNodesLocked e)"
  by (auto simp: placementNodesLocked_def Let_def)

lemma storageNodes_ids:
  assumes "named_nodes (nt_nodes e)"
  shows "map node_ID (storageNodesLocked e) = fm_keys (nt_nodes e)"
    and "\<And>n. n \<in> set (storageNodesLocked e) \<Longrightarrow> node_ok n"
proof -
  let ?vs = "fm_values (nt_nodes e)"
  have ok: "node_ok n" if "n \<in> set ?vs" for n
    using assms that by (auto simp: fm_values_iff fmpred_iff)
  have ids: "map node_ID ?vs = fm_keys (nt_nodes e)"
  proof -
    have "map node_ID ?vs = map (\<lambda>(k, n). node_ID n) (fm_entries (nt_nodes e))"
      by (simp add: fm_values_def comp_def case_prod_unfold)
    also have "\<dots> = map fst (fm_entries (nt_nodes e))"
      using assms by (intro map_cong) (auto simp: fmpred_iff)
    also have "\<dots> = fm_keys (nt_nodes e)"
      by (simp add: fm_entries_def comp_def)
    finally show ?thesis .
  qed
  have f: "filter (\<lambda>n. trim_space (node_ID n) \<noteq> []) ?vs = ?vs"
    using ok by (auto simp: filter_id_conv node_ok_def)
  have "sorted (map (\<lambda>n. trim_space (node_ID n)) ?vs)"
    using ok ids by (simp add: node_ok_def cong: map_cong)
  then have s: "storageNodesLocked e = ?vs"
    by (simp add: storageNodesLocked_def f sort_key_id_if_sorted)
  show "map node_ID (storageNodesLocked e) = fm_keys (nt_nodes e)"
    by (simp add: s ids)
  show "node_ok n" if "n \<in> set (storageNodesLocked e)" for n
    using that ok by (simp add: s)
qed

lemma placementNodes_ids:
  assumes "named_nodes (nt_nodes e)"
  shows "map node_ID (placementNodesLocked e) = filter (\<lambda>i. i |\<notin>| nt_drained e) (fm_keys (nt_nodes e))"
    and "\<And>n. n \<in> set (placementNodesLocked e) \<Longrightarrow> node_ok n"
  using storageNodes_ids [OF assms]
  by (auto simp: placementNodes_filter filter_map comp_def simp flip: storageNodes_ids(1) [OF assms])

lemma set_placementNodes:
  "named_nodes (nt_nodes e) \<Longrightarrow> node_ID ` set (placementNodesLocked e) = active_ids e"
  using arg_cong [OF placementNodes_ids(1) [of e], of set] by (auto simp: active_ids_def)

lemma distinct_placementNodes:
  "named_nodes (nt_nodes e) \<Longrightarrow> distinct (map node_ID (placementNodesLocked e))"
  by (simp add: placementNodes_ids)

text \<open>The planner of a well-formed table runs over the active nodes.\<close>

lemma placementNodes_planner [simp]: "placementNodesLocked (e\<lparr>nt_planner := p\<rparr>) = placementNodesLocked e"
  by (simp add: placementNodes_filter storageNodesLocked_def)

lemma reconfigure_fields [simp]:
  "nt_nodes (reconfigurePlacementPlannerLocked e) = nt_nodes e"
  "nt_drained (reconfigurePlacementPlannerLocked e) = nt_drained e"
  "nt_local (reconfigurePlacementPlannerLocked e) = nt_local e"
  "reconfigurePlacementPlannerLocked (reconfigurePlacementPlannerLocked e) = reconfigurePlacementPlannerLocked e"
  by (simp_all add: reconfigurePlacementPlannerLocked_def)

lemma nodes_ok_reconfigure:
  "named_nodes (nt_nodes e) \<Longrightarrow> nt_local e |\<in>| fmdom (nt_nodes e) \<Longrightarrow>
     nt_drained e |\<subseteq>| fmdom (nt_nodes e) \<Longrightarrow> nodes_ok (reconfigurePlacementPlannerLocked e)"
  by (simp add: nodes_ok_def)

lemma roundRobin_nodes:
  assumes "named_nodes (nt_nodes e)"
  shows "NewRoundRobinPlacementPlanner l (placementNodesLocked e) =
    RoundRobinPlacementPlanner (trim_space l) (placementNodesLocked e)"
proof -
  let ?ns = "placementNodesLocked e"
  have "filter (\<lambda>n. trim_space (node_ID n) \<noteq> []) ?ns = ?ns"
    using placementNodes_ids(2) [OF assms] by (auto simp: filter_id_conv node_ok_def)
  moreover have "sorted (map node_ID ?ns)"
    by (simp add: placementNodes_ids [OF assms] sorted_wrt_filter)
  ultimately show ?thesis
    by (simp add: NewRoundRobinPlacementPlanner_def sort_key_id_if_sorted)
qed

section \<open>Every operation keeps the invariant\<close>

lemma NewLocalStorageNode_ok:
  "node_ok (NewLocalStorageNode nid address)"
  by (auto simp: NewLocalStorageNode_def Let_def node_ok_def trim_space_plain plain_char_def)

lemma newRemoteStorageNode_ok:
  "newRemoteStorageNode u nid address = Inr n \<Longrightarrow>
     node_ok n \<and> node_ID n = trim_space nid \<and> (\<exists>a b. n = remoteStorageNode (trim_space nid) a b [])"
  by (auto simp: newRemoteStorageNode_def Let_def node_ok_def split: if_splits sum.splits)

lemma node_ID_token: "node_ID (remoteStorageNode i a b t) = node_ID (remoteStorageNode i a b t')"
  by simp

lemma node_ok_cong: "node_ID n = node_ID n' \<Longrightarrow> node_ok n = node_ok n'"
  by (simp add: node_ok_def)

lemma raftStorageNodeID_nonempty [simp]: "raftStorageNodeID r \<noteq> []"
  by (simp add: raftStorageNodeID_def)

lemma trim_raftStorageNodeID [simp]: "trim_space (raftStorageNodeID r) = raftStorageNodeID r"
proof (rule trim_space_plain)
  show "plain_char (hd (raftStorageNodeID r))"
    by (simp add: raftStorageNodeID_def plain_char_def)
  show "plain_char (last (raftStorageNodeID r))"
    by (simp add: raftStorageNodeID_def plain_show_nat)
qed simp

lemma registerStorageNodeLocked_ok:
  assumes "named_nodes (nt_nodes e)" "nt_drained e |\<subseteq>| fmdom (nt_nodes e)" "node_ok n"
    and "nt_local e |\<in>| fmdom (nt_nodes e) \<or> nt_local e = node_ID n"
  shows "nodes_ok (registerStorageNodeLocked e n)"
  unfolding registerStorageNodeLocked_def Let_def using assms
  by (intro nodes_ok_reconfigure) (auto simp: node_ok_def intro: fmpred_upd)

lemma RegisterStorageNode_ok:
  "nodes_ok e \<Longrightarrow> node_ok n \<Longrightarrow> nodes_ok (fst (RegisterStorageNode e n))"
  using registerStorageNodeLocked_ok [of e n] by (auto simp: RegisterStorageNode_def nodes_ok_def)

lemma configureLocalNodeLocked_ok: "nodes_ok (configureLocalNodeLocked e nid address)"
  unfolding configureLocalNodeLocked_def Let_def
  by (rule registerStorageNodeLocked_ok) (simp_all add: NewLocalStorageNode_ok)

lemma UnregisterStorageNode_ok: "nodes_ok e \<Longrightarrow> nodes_ok (fst (UnregisterStorageNode e nid))"
  by (auto simp: UnregisterStorageNode_def Let_def nodes_ok_def intro!: nodes_ok_reconfigure fmpred_drop)

lemma DrainStorageNode_ok: "nodes_ok e \<Longrightarrow> nodes_ok (fst (DrainStorageNode e nid))"
  by (auto simp: DrainStorageNode_def Let_def nodes_ok_def fmlookup_dom_iff)

lemma ResumeStorageNode_ok: "nodes_ok e \<Longrightarrow> nodes_ok (fst (ResumeStorageNode e nid))"
  by (auto simp: ResumeStorageNode_def Let_def nodes_ok_def)

lemma syncRaftStorageNodes_named:
  "syncRaftStorageNodes u l t rs ns a = Inr (ns', a') \<Longrightarrow> named_nodes ns \<Longrightarrow> named_nodes ns'"
proof (induction rs arbitrary: ns a)
  case (Cons x rs)
  obtain r target where x: "x = (r, target)" by (cases x)
  let ?id = "raftStorageNodeID r"
  obtain i ad b where n: "newRemoteStorageNode u ?id (trim_space target) = Inr (remoteStorageNode i ad b [])"
      "r \<noteq> 0" "trim_space target \<noteq> []"
    using Cons.prems(1) newRemoteStorageNode_ok
    by (fastforce simp: x Let_def split: if_splits sum.splits StorageNode.splits)
  let ?n = "remoteStorageNode i ad b (trim_space t)"
  have "node_ok ?n" "node_ID ?n = ?id"
    using newRemoteStorageNode_ok [OF n(1)] by (simp_all add: node_ok_def)
  then have named: "named_nodes (fmupd ?id ?n ns)" "named_nodes (fmdrop ?id (fmupd ?id ?n ns))"
    using Cons.prems(2) by (simp_all add: fmpred_upd fmpred_drop del: node_ID.simps)
  show ?case
  proof (cases "r = l")
    case True
    with Cons.prems(1) n show ?thesis
      by (intro Cons.IH [OF _ named(2)]) (simp add: x Let_def)
  next
    case False
    with Cons.prems(1) n show ?thesis
      by (intro Cons.IH [OF _ named(1)]) (simp add: x Let_def)
  qed
qed simp

lemma add_nodes_named:
  "(\<And>n. n \<in> set ns \<Longrightarrow> node_ok n) \<Longrightarrow> named_nodes m \<Longrightarrow> named_nodes (add_nodes ns m)"
  unfolding add_nodes_def by (induction ns arbitrary: m) (auto intro: fmpred_upd)

lemma add_nodes_dom: "fmdom m |\<subseteq>| fmdom (add_nodes ns m)"
  unfolding add_nodes_def by (induction ns arbitrary: m) force+

lemma restore_drained_registered:
  "i |\<in>| fold (\<lambda>j d. if fmlookup m j \<noteq> None then finsert j d else d) js d \<Longrightarrow>
     d |\<subseteq>| fmdom m \<Longrightarrow> i |\<in>| fmdom m"
  by (induction js arbitrary: d) (auto simp: fmlookup_dom_iff split: if_splits)

lemma SyncStorageNodesFromRaft_ok:
  assumes "nodes_ok e"
  shows "nodes_ok (fst (SyncStorageNodesFromRaft u e r ms))"
proof (cases "r = 0")
  case True
  then show ?thesis using assms by (simp add: SyncStorageNodesFromRaft_def)
next
  case False
  show ?thesis
  proof (cases "syncRaftStorageNodes u r (nt_token e) (fm_entries ms) fmempty []")
    case (Inl err)
    then show ?thesis using assms by (simp add: SyncStorageNodesFromRaft_def Let_def)
  next
    case (Inr na)
    obtain next_nodes a where na: "na = (next_nodes, a)" by (cases na)
    have nn: "named_nodes next_nodes"
      using syncRaftStorageNodes_named Inr na by fastforce
    have v: "node_ok n" if "n \<in> set (fm_values next_nodes)" for n
      using nn that by (auto simp: fm_values_iff fmpred_iff)
    define e1 where "e1 = configureLocalNodeLocked (e\<lparr>nt_nodes := fmempty, nt_drained := {||}\<rparr>)
      (raftStorageNodeID r) (if a \<noteq> [] then a else localNodeAddress e (raftStorageNodeID r))"
    have e1: "nodes_ok e1" by (simp add: e1_def configureLocalNodeLocked_ok)
    define e2 where "e2 = e1\<lparr>nt_nodes := add_nodes (fm_values next_nodes) (nt_nodes e1)\<rparr>"
    have e2: "named_nodes (nt_nodes e2)" "nt_local e2 |\<in>| fmdom (nt_nodes e2)"
      "nt_drained e2 |\<subseteq>| fmdom (nt_nodes e2)"
      using e1 v add_nodes_named [of "fm_values next_nodes" "nt_nodes e1"]
        add_nodes_dom [of "nt_nodes e1" "fm_values next_nodes"]
      by (auto simp: e2_def nodes_ok_def)
    have "nodes_ok (reconfigurePlacementPlannerLocked
        (restoreDrainedNodesLocked e2 (sorted_list_of_fset (nt_drained e))))"
      using e2 restore_drained_registered [of _ "nt_nodes e2" _ "nt_drained e2"]
      by (intro nodes_ok_reconfigure) (auto simp: restoreDrainedNodesLocked_def)
    then show ?thesis
      using False Inr na by (simp add: SyncStorageNodesFromRaft_def Let_def e1_def e2_def)
  qed
qed

text \<open>What the control plane can do to the node table.\<close>

inductive nodes_reachable :: "NodeTable \<Rightarrow> bool" where
  configure: "nodes_reachable (configureLocalNodeLocked e nid address)"
| register_local: "nodes_reachable e \<Longrightarrow>
    nodes_reachable (fst (RegisterStorageNode e (NewLocalStorageNode nid address)))"
| register_remote: "nodes_reachable e \<Longrightarrow> newRemoteStorageNode u nid address = Inr n \<Longrightarrow>
    nodes_reachable (fst (RegisterStorageNode e n))"
| unregister: "nodes_reachable e \<Longrightarrow> nodes_reachable (fst (UnregisterStorageNode e nid))"
| drain: "nodes_reachable e \<Longrightarrow> nodes_reachable (fst (DrainStorageNode e nid))"
| resume: "nodes_reachable e \<Longrightarrow> nodes_reachable (fst (ResumeStorageNode e nid))"
| sync: "nodes_reachable e \<Longrightarrow> nodes_reachable (fst (SyncStorageNodesFromRaft u e r ms))"

lemma nodes_reachable_ok: "nodes_reachable e \<Longrightarrow> nodes_ok e"
proof (induction rule: nodes_reachable.induct)
  case (register_remote e u nid address n)
  then show ?case using newRemoteStorageNode_ok RegisterStorageNode_ok by blast
qed (simp_all add: configureLocalNodeLocked_ok RegisterStorageNode_ok NewLocalStorageNode_ok
    UnregisterStorageNode_ok DrainStorageNode_ok ResumeStorageNode_ok SyncStorageNodesFromRaft_ok)

section \<open>What a plan looks like\<close>

text \<open>How often a residue occurs among the first \<open>c\<close> numbers.\<close>

lemma count_residue:
  "0 < n \<Longrightarrow> j < n \<Longrightarrow> length (filter (\<lambda>i. i mod n = j) [0..<c]) = c div n + (if j < c mod n then 1 else 0)"
proof (induction c)
  case (Suc c)
  then show ?case by (auto simp: mod_Suc div_Suc)
qed simp

definition planned_node :: "('a) NodeTable_scheme \<Rightarrow> nat \<Rightarrow> string" where
  "planned_node e i = (let ns = placementNodesLocked e in node_ID (ns ! (i mod length ns)))"

lemma PlanShardPlacement_nodes:
  assumes "nodes_ok e" "PlanShardPlacement e c = Inr ps"
  shows "map pl_node ps = map (planned_node e) [0..<nat c] \<and> map pl_index ps = map int [0..<nat c] \<and>
    1 \<le> c \<and> placementNodesLocked e \<noteq> []"
proof -
  let ?ns = "placementNodesLocked e"
  have named: "named_nodes (nt_nodes e)" and pl: "nt_planner e = planner_for (nt_local e) ?ns"
    using assms(1) by (simp_all add: nodes_ok_def reconfigurePlacementPlannerLocked_def)
  obtain p where p: "nt_planner e = Some p" "Plan p c = Inr ps" "validatePlacementPlan ps c = None"
    using assms(2) by (auto simp: PlanShardPlacement_def split: option.splits sum.splits)
  have ok: "trim_space (node_ID n) = node_ID n" if "n \<in> set ?ns" for n
    using placementNodes_ids(2) [OF named that] by (simp add: node_ok_def)
  consider n where "?ns = [n]" | a b ns where "?ns = a # b # ns"
    using pl p(1) by (cases ?ns; cases "tl ?ns") (auto simp: planner_for_def)
  then show ?thesis
  proof cases
    case 1
    then show ?thesis
      using p pl by (auto simp: planner_for_def Plan_def SingleNode_Plan_def planned_node_def split: if_splits)
  next
    case 2
    then have "p = RoundRobinPlacementPlanner (trim_space (nt_local e)) ?ns"
      using p(1) pl roundRobin_nodes [OF named] by (simp add: planner_for_def)
    then have "ps = map (\<lambda>index. let node = ?ns ! (index mod length ?ns); nodeID = trim_space (node_ID node)
        in \<lparr>pl_index = int index, pl_node = nodeID, pl_address = trim_space (node_Address node),
            pl_local = (nodeID \<noteq> [] \<and> nodeID = trim_space (nt_local e))\<rparr>) [0..<nat c]" "1 \<le> c" "?ns \<noteq> []"
      using p(2) by (auto simp: Plan_def RoundRobin_Plan_def split: if_splits)
    then show ?thesis
      using ok by (auto simp: planned_node_def Let_def comp_def)
  qed
qed

lemma PlanShardPlacement_total:
  assumes "nodes_ok e" "1 \<le> c" "active_ids e \<noteq> {}"
  shows "\<exists>ps. PlanShardPlacement e c = Inr ps"
proof -
  let ?ns = "placementNodesLocked e"
  have named: "named_nodes (nt_nodes e)" and pl: "nt_planner e = planner_for (nt_local e) ?ns"
    using assms(1) by (simp_all add: nodes_ok_def reconfigurePlacementPlannerLocked_def)
  have ne: "?ns \<noteq> []" using set_placementNodes [OF named] assms(3) by auto
  have ok: "trim_space (node_ID n) \<noteq> []" if "n \<in> set ?ns" for n
    using placementNodes_ids(2) [OF named that] by (simp add: node_ok_def)
  have e: "enumerate 0 (map f [0..<k]) = map (\<lambda>i. (i, f i)) [0..<k]" for f :: "nat \<Rightarrow> ShardPlacement" and k
    by (simp add: enumerate_eq_zip zip_map2 zip_same_conv_map)
  consider n where "?ns = [n]" | a b ns where "?ns = a # b # ns"
    using ne by (cases ?ns; cases "tl ?ns") auto
  then show ?thesis
  proof cases
    case 1
    then show ?thesis
      using assms(2) ok pl
      by (auto simp: PlanShardPlacement_def planner_for_def Plan_def SingleNode_Plan_def validatePlacementPlan_def
          e list_all_iff)
  next
    case 2
    then have "nt_planner e = Some (RoundRobinPlacementPlanner (trim_space (nt_local e)) ?ns)"
      using pl roundRobin_nodes [OF named] by (simp add: planner_for_def)
    moreover have "trim_space (node_ID (?ns ! (i mod length ?ns))) \<noteq> []" for i
      using ok ne by simp
    ultimately show ?thesis
      using assms(2) ne
      by (auto simp: PlanShardPlacement_def Plan_def RoundRobin_Plan_def validatePlacementPlan_def e list_all_iff Let_def)
  qed
qed

lemma planned_node_active:
  assumes "named_nodes (nt_nodes e)" "placementNodesLocked e \<noteq> []"
  shows "planned_node e i \<in> active_ids e"
  using set_placementNodes [OF assms(1)] assms(2) by (force simp: planned_node_def Let_def)

lemma planned_node_count:
  assumes "named_nodes (nt_nodes e)" "nid \<in> active_ids e"
  defines "n \<equiv> card (active_ids e)"
  shows "length (filter (\<lambda>i. planned_node e i = nid) [0..<c]) \<in> {c div n, c div n + 1}" and "0 < n"
proof -
  let ?ns = "placementNodesLocked e"
  have d: "distinct (map node_ID ?ns)" and s: "set (map node_ID ?ns) = active_ids e"
    using distinct_placementNodes set_placementNodes assms(1) by auto
  then have n: "n = length ?ns"
    by (metis distinct_card length_map n_def)
  obtain j where j: "j < length ?ns" "map node_ID ?ns ! j = nid"
    using assms(2) s by (metis in_set_conv_nth length_map)
  then show "0 < n" by (auto simp: n)
  have "planned_node e i = nid \<longleftrightarrow> i mod n = j" for i
    using j nth_eq_iff_index_eq [OF d, of "i mod n" j] \<open>0 < n\<close>
    by (simp add: planned_node_def Let_def n)
  then show "length (filter (\<lambda>i. planned_node e i = nid) [0..<c]) \<in> {c div n, c div n + 1}"
    using count_residue [of n j c] j(1) \<open>0 < n\<close> by (simp add: n)
qed

lemma length_filter_map_eq:
  "map f xs = map g ys \<Longrightarrow> length (filter (\<lambda>x. f x = a) xs) = length (filter (\<lambda>y. g y = a) ys)"
proof -
  assume "map f xs = map g ys"
  then have "length (filter (\<lambda>z. z = a) (map f xs)) = length (filter (\<lambda>z. z = a) (map g ys))"
    by (rule arg_cong)
  then show ?thesis by (simp add: filter_map comp_def)
qed

section \<open>Properties\<close>

text \<open>C23: in every node table the control plane can reach, planning the placement of an object's shards
  succeeds exactly when there is an active node (registered and not drained) and at least one shard,
  and then the plan has one entry per shard, in order, on active nodes only, spread evenly: two active
  nodes never differ by more than one shard.\<close>

theorem PlanShardPlacement_balanced:
  assumes "nodes_reachable e"
  shows "((\<exists>ps. PlanShardPlacement e c = Inr ps) \<longleftrightarrow> 1 \<le> c \<and> active_ids e \<noteq> {}) \<and>
    (\<forall>ps. PlanShardPlacement e c = Inr ps \<longrightarrow>
       map pl_index ps = map int [0..<nat c] \<and>
       (\<forall>p \<in> set ps. pl_node p \<in> active_ids e) \<and>
       (\<forall>nid \<in> active_ids e. length (filter (\<lambda>p. pl_node p = nid) ps) \<in>
          {nat c div card (active_ids e), nat c div card (active_ids e) + 1}))"
proof (intro conjI allI impI)
  have ok: "nodes_ok e" "named_nodes (nt_nodes e)"
    using nodes_reachable_ok [OF assms] by (simp_all add: nodes_ok_def)
  show "(\<exists>ps. PlanShardPlacement e c = Inr ps) \<longleftrightarrow> 1 \<le> c \<and> active_ids e \<noteq> {}"
    using PlanShardPlacement_nodes [OF ok(1)] PlanShardPlacement_total [OF ok(1)] planned_node_active [OF ok(2)]
    by blast
  fix ps assume "PlanShardPlacement e c = Inr ps"
  note p = PlanShardPlacement_nodes [OF ok(1) this]
  then show "map pl_index ps = map int [0..<nat c]" by simp
  show "\<forall>p \<in> set ps. pl_node p \<in> active_ids e"
  proof
    fix p assume "p \<in> set ps"
    then have "pl_node p \<in> set (map pl_node ps)" by simp
    then show "pl_node p \<in> active_ids e"
      using p planned_node_active [OF ok(2)] by auto
  qed
  show "\<forall>nid \<in> active_ids e. length (filter (\<lambda>p. pl_node p = nid) ps) \<in>
      {nat c div card (active_ids e), nat c div card (active_ids e) + 1}"
    using p planned_node_count(1) [OF ok(2)] length_filter_map_eq [of pl_node ps "planned_node e" "[0..<nat c]"]
    by simp
qed

definition demo_url :: "string \<Rightarrow> (string \<times> string) option" where
  "demo_url raw = Some (drop 7 raw, raw)"

definition demo_nodes :: NodeTable where
  "demo_nodes =
     fst (DrainStorageNode
       (fst (SyncStorageNodesFromRaft demo_url
         (configureLocalNodeLocked \<lparr>nt_nodes = fmempty, nt_drained = {||}, nt_local = [], nt_planner = None,
            nt_token = []\<rparr> [] [])
         1 (fmap_of_list [(1, ''a:1''), (2, ''b:1''), (3, ''c:1'')])))
       ''raft-3'')"

lemma demo_nodes_reachable: "nodes_reachable demo_nodes"
  unfolding demo_nodes_def by (intro nodes_reachable.intros)

theorem PlanShardPlacement_balanced_witness:
  "map_sum (\<lambda>_. ()) (map pl_node) (PlanShardPlacement demo_nodes 3) = Inr [''raft-1'', ''raft-2'', ''raft-1''] \<and>
   (\<exists>ps. PlanShardPlacement demo_nodes 3 = Inr ps \<and> list_all (\<lambda>p. pl_node p \<in> active_ids demo_nodes) ps)"
proof -
  have "map_sum (\<lambda>_. ()) (map pl_node) (PlanShardPlacement demo_nodes 3) = Inr [''raft-1'', ''raft-2'', ''raft-1'']"
    by code_simp
  then show ?thesis
    using PlanShardPlacement_balanced [OF demo_nodes_reachable, of 3]
    by (cases "PlanShardPlacement demo_nodes 3") (auto simp: list_all_iff)
qed

text \<open>When a single node is active its placements are marked as local even if the node is remote.\<close>

lemma single_remote_marked_local:
  "SingleNode_Plan (remoteStorageNode ''raft-2'' ''b:1'' ''http://b:1'' []) 1 =
     Inr [\<lparr>pl_index = 0, pl_node = ''raft-2'', pl_address = ''b:1'', pl_local = True\<rparr>]"
  by code_simp

end
