(* ===== verification/Shard_Engine.thy ===== *)
theory Shard_Engine
  imports Storage_Nodes Erasure_Coder
begin

text \<open>
  The erasure-coded object engine: \<open>backend.go\<close>, \<open>layout.go\<close>, \<open>blob.go\<close>, \<open>engine.go\<close>, \<open>object_lookup.go\<close>,
  \<open>shard_recovery.go\<close>, \<open>storage_node.go\<close>, \<open>remote_node.go\<close>, \<open>health.go\<close>, \<open>scrub.go\<close> and \<open>stat.go\<close> under
  \<open>internal/engine\<close>, with the shard routes of \<open>internal/handler/storage_shards.go\<close> that a remote node
  serves.

  \<^item> A path is the list of its components. \<open>filepath.Join\<close> with \<open>Clean\<close> drops empty components and \<open>.\<close>
    and lets \<open>..\<close> remove one. Chunk files hold bytes; a \<open>meta.json\<close> holds a layout, or \<open>None\<close> when it does
    not decode. Directories are not state of their own.
  \<^item> Every write and delete takes its fate from a schedule: it succeeds, fails without effect, or fails
    half done. Reads of paths in \<open>io_error\<close> fail.
  \<^item> A remote node keeps its chunks under its identifier; nodes in \<open>eng_down\<close> cannot be reached. The
    remote side answers as the handler of this repository does.
  \<^item> SHA-256 in hexadecimal and \<open>strings.ToLower\<close> are parameters (record \<open>Externals\<close>), so that the theorems
    hold for every hash function; contexts and the mutex are not modelled.
\<close>

section \<open>Data\<close>

record Externals =
  HashBytes :: "bytes \<Rightarrow> string"
  ToLower :: "string \<Rightarrow> string"
  io_error :: "string list \<Rightarrow> bool"

record Layout =
  ly_ID :: string
  ly_ShardDir :: string
  ly_Hash :: string
  ly_Placements :: "ShardPlacement list"
  ly_Checksums :: "string list"
  ly_Sizes :: "int list"
  ly_Bucket :: string
  ly_Key :: string
  ly_Size :: int
  ly_ETag :: string
  ly_ShardSize :: int
  ly_CoderType :: string
  ly_ContentType :: string
  ly_UpdatedAt :: time
  ly_Version :: int

datatype io_fate = IOk | IFail | ITorn nat

record Engine = NodeTable +
  eng_root :: "string list"
  eng_k :: nat
  eng_m :: nat
  eng_shardSize :: int
  eng_coder :: Coder
  eng_cache :: "(string, Layout) fmap"
  eng_chunks :: "(string list, bytes) fmap"
  eng_metas :: "(string list, Layout option) fmap"
  eng_remote :: "(string \<times> string list, bytes) fmap"
  eng_down :: "string fset"
  eng_fates :: "io_fate list"

datatype eng_error =
    EObjectNotFound | EShardRecoveryFailed | EShardCorrupted | EObjectCorrupted | ENotExist
  | EOther string

record BlobInfo =
  bi_Hash :: string
  bi_ETag :: string
  bi_Size :: int
  bi_ShardDir :: string
  bi_Placements :: "ShardPlacement list"
  bi_Checksums :: "string list"
  bi_Sizes :: "int list"

record ObjectInfo =
  oi_Bucket :: string
  oi_Key :: string
  oi_Hash :: string
  oi_ETag :: string
  oi_Size :: int
  oi_ContentType :: string
  oi_UpdatedAt :: time
  oi_Placements :: "ShardPlacement list"
  oi_Checksums :: "string list"
  oi_Sizes :: "int list"
  oi_DataChunks :: nat
  oi_ParityChunks :: nat
  oi_TotalChunks :: nat
  oi_ShardSize :: int
  oi_ShardDir :: string

record Health =
  he_Bucket :: string
  he_Key :: string
  he_TotalChunks :: nat
  he_Available :: nat
  he_Missing :: nat
  he_Corrupted :: nat
  he_Recoverable :: bool

section \<open>Paths and layout identifiers\<close>

fun clean_onto :: "string list \<Rightarrow> string list \<Rightarrow> string list" where
  "clean_onto acc [] = acc"
| "clean_onto acc (c # cs) =
     (if c = [] \<or> c = ''.'' then clean_onto acc cs
      else if c = ''..'' then clean_onto (butlast acc) cs
      else clean_onto (acc @ [c]) cs)"

definition join_path :: "string list \<Rightarrow> string list \<Rightarrow> string list" where
  "join_path root parts = clean_onto root (concat (map (split_on CHR ''/'') parts))"

definition chunk_name :: "nat \<Rightarrow> string" where
  "chunk_name index = ''chunk-'' @ zero_pad 4 index"

definition shardPath :: "Engine \<Rightarrow> string \<Rightarrow> string \<Rightarrow> nat \<Rightarrow> string list" where
  "shardPath b shardDir hash index = join_path (eng_root b) [shardDir, hash, chunk_name index]"

definition metaPath :: "Engine \<Rightarrow> string \<Rightarrow> string \<Rightarrow> string list" where
  "metaPath b shardDir hash = join_path (eng_root b) [shardDir, hash, ''meta.json'']"

definition layoutKey :: "string \<Rightarrow> string \<Rightarrow> string" where
  "layoutKey bucket key = bucket @ ''/'' @ key"

text \<open>The first 16 bytes of the digest are its first 32 hexadecimal digits.\<close>

definition layoutHash :: "Externals \<Rightarrow> string \<Rightarrow> string" where
  "layoutHash X key = take 32 (HashBytes X key)"

definition makeShardDir :: "Externals \<Rightarrow> string \<Rightarrow> string" where
  "makeShardDir X prefix = (if length prefix < 2 then ToLower X prefix else ToLower X (take 2 prefix))"

definition ETagFromHash :: "string \<Rightarrow> string" where
  "ETagFromHash hash = (if hash = [] then [] else [CHR 0x22] @ hash @ [CHR 0x22])"

section \<open>The shard backend\<close>

text \<open>The fate of the next write or delete.\<close>

definition next_fate :: "Engine \<Rightarrow> io_fate" where
  "next_fate b = (case eng_fates b of [] \<Rightarrow> IOk | f # _ \<Rightarrow> f)"

definition spend_fate :: "Engine \<Rightarrow> Engine" where
  "spend_fate b = b\<lparr>eng_fates := tl (eng_fates b)\<rparr>"

definition backend_WriteShard ::
  "Engine \<Rightarrow> string \<Rightarrow> string \<Rightarrow> nat \<Rightarrow> bytes \<Rightarrow> Engine \<times> eng_error option" where
  "backend_WriteShard b shardDir hash index data =
     (let path = shardPath b shardDir hash index; b' = spend_fate b in
      case next_fate b of
        IOk \<Rightarrow> (b'\<lparr>eng_chunks := fmupd path data (eng_chunks b)\<rparr>, None)
      | IFail \<Rightarrow> (b', Some (EOther ''engine: open shard file''))
      | ITorn n \<Rightarrow> (b'\<lparr>eng_chunks := fmupd path (take n data) (eng_chunks b)\<rparr>,
                   Some (EOther ''engine: write shard file'')))"

definition backend_WriteMeta ::
  "Engine \<Rightarrow> string \<Rightarrow> string \<Rightarrow> Layout \<Rightarrow> Engine \<times> eng_error option" where
  "backend_WriteMeta b shardDir hash layout =
     (let path = metaPath b shardDir hash; b' = spend_fate b in
      case next_fate b of
        IOk \<Rightarrow> (b'\<lparr>eng_metas := fmupd path (Some layout) (eng_metas b)\<rparr>, None)
      | IFail \<Rightarrow> (b', Some (EOther ''engine: open meta file''))
      | ITorn _ \<Rightarrow> (b'\<lparr>eng_metas := fmupd path None (eng_metas b)\<rparr>,
                   Some (EOther ''engine: write meta file'')))"

text \<open>A missing file reads as nil.\<close>

definition backend_ReadShard ::
  "Externals \<Rightarrow> Engine \<Rightarrow> string \<Rightarrow> string \<Rightarrow> nat \<Rightarrow> eng_error + bytes option" where
  "backend_ReadShard X b shardDir hash index =
     (let path = shardPath b shardDir hash index in
      if io_error X path then Inl (EOther ''engine: read shard'')
      else Inr (fmlookup (eng_chunks b) path))"

definition backend_ShardExists :: "Externals \<Rightarrow> Engine \<Rightarrow> string \<Rightarrow> string \<Rightarrow> nat \<Rightarrow> bool" where
  "backend_ShardExists X b shardDir hash index =
     (let path = shardPath b shardDir hash index in
      \<not> io_error X path \<and> fmlookup (eng_chunks b) path \<noteq> None)"

definition backend_DeleteShard ::
  "Engine \<Rightarrow> string \<Rightarrow> string \<Rightarrow> nat \<Rightarrow> Engine \<times> eng_error option" where
  "backend_DeleteShard b shardDir hash index =
     (let path = shardPath b shardDir hash index; b' = spend_fate b in
      case next_fate b of
        IOk \<Rightarrow> (b'\<lparr>eng_chunks := fmdrop path (eng_chunks b)\<rparr>, None)
      | _ \<Rightarrow> (b', Some (EOther ''engine: delete shard'')))"

definition backend_ReadMeta ::
  "Externals \<Rightarrow> Engine \<Rightarrow> string \<Rightarrow> string \<Rightarrow> eng_error + Layout option" where
  "backend_ReadMeta X b shardDir hash =
     (let path = metaPath b shardDir hash in
      if io_error X path then Inl (EOther ''engine: read meta file'')
      else case fmlookup (eng_metas b) path of
        None \<Rightarrow> Inl (EOther ''engine: read meta file'')
      | Some l \<Rightarrow> Inr l)"

definition below :: "string list \<Rightarrow> string list \<Rightarrow> bool" where
  "below dir path \<longleftrightarrow> take (length dir) path = dir"

text \<open>\<open>RemoveAll\<close>; when it fails half done, the first \<open>n\<close> chunk files below the directory are gone.\<close>

definition remove_all :: "Engine \<Rightarrow> string list \<Rightarrow> string \<Rightarrow> Engine \<times> eng_error option" where
  "remove_all b dir what =
     (let b' = spend_fate b in
      case next_fate b of
        IOk \<Rightarrow> (b'\<lparr>eng_chunks := fmfilter (\<lambda>p. \<not> below dir p) (eng_chunks b),
                   eng_metas := fmfilter (\<lambda>p. \<not> below dir p) (eng_metas b)\<rparr>, None)
      | IFail \<Rightarrow> (b', Some (EOther what))
      | ITorn n \<Rightarrow>
          let gone = take n (filter (below dir) (fm_keys (eng_chunks b)))
          in (b'\<lparr>eng_chunks := fmfilter (\<lambda>p. p \<notin> set gone) (eng_chunks b)\<rparr>, Some (EOther what)))"

definition backend_DeleteShardSet :: "Engine \<Rightarrow> string \<Rightarrow> string \<Rightarrow> Engine \<times> eng_error option" where
  "backend_DeleteShardSet b shardDir hash =
     remove_all b (join_path (eng_root b) [shardDir, hash]) ''engine: delete shard set''"

definition backend_DeleteMeta :: "Engine \<Rightarrow> string \<Rightarrow> string \<Rightarrow> Engine \<times> eng_error option" where
  "backend_DeleteMeta b shardDir layoutID =
     remove_all b (join_path (eng_root b) [shardDir, layoutID]) ''engine: delete layout meta''"

section \<open>Remote nodes\<close>

text \<open>Where a remote node keeps a shard, and how its handler answers a GET: \<open>ReadLocalShard\<close> gives nil and
  no error for a missing file, so the answer is 200 with an empty body.\<close>

definition remote_path :: "string \<Rightarrow> string \<Rightarrow> nat \<Rightarrow> string list" where
  "remote_path shardDir hash index = join_path [] [shardDir, hash, chunk_name index]"

definition handleStorageShardGet :: "bytes option \<Rightarrow> nat \<times> bytes" where
  "handleStorageShardGet data = (200, case data of None \<Rightarrow> [] | Some d \<Rightarrow> d)"

definition remote_ReadShard ::
  "Engine \<Rightarrow> string \<Rightarrow> string \<Rightarrow> string \<Rightarrow> nat \<Rightarrow> eng_error + bytes option" where
  "remote_ReadShard e nid shardDir hash index =
     (if nid |\<in>| eng_down e then Inl (EOther ''send remote shard read request'')
      else case handleStorageShardGet (fmlookup (eng_remote e) (nid, remote_path shardDir hash index)) of
        (status, body) \<Rightarrow>
          if status = 404 then Inl ENotExist
          else if status = 200 then Inr (Some body)
          else Inl (EOther ''remote shard read request failed''))"

definition remote_WriteShard ::
  "Engine \<Rightarrow> string \<Rightarrow> string \<Rightarrow> string \<Rightarrow> nat \<Rightarrow> bytes \<Rightarrow> Engine \<times> eng_error option" where
  "remote_WriteShard e nid shardDir hash index data =
     (if nid |\<in>| eng_down e then (e, Some (EOther ''send remote shard write request''))
      else let path = (nid, remote_path shardDir hash index); e' = spend_fate e in
        case next_fate e of
          IOk \<Rightarrow> (e'\<lparr>eng_remote := fmupd path data (eng_remote e)\<rparr>, None)
        | IFail \<Rightarrow> (e', Some (EOther ''remote shard write request failed''))
        | ITorn n \<Rightarrow> (e'\<lparr>eng_remote := fmupd path (take n data) (eng_remote e)\<rparr>,
                     Some (EOther ''remote shard write request failed'')))"

definition remote_DeleteShard ::
  "Engine \<Rightarrow> string \<Rightarrow> string \<Rightarrow> string \<Rightarrow> nat \<Rightarrow> Engine \<times> eng_error option" where
  "remote_DeleteShard e nid shardDir hash index =
     (if nid |\<in>| eng_down e then (e, Some (EOther ''send remote shard delete request''))
      else let path = (nid, remote_path shardDir hash index); e' = spend_fate e in
        case next_fate e of
          IOk \<Rightarrow> (e'\<lparr>eng_remote := fmdrop path (eng_remote e)\<rparr>, None)
        | _ \<Rightarrow> (e', Some (EOther ''remote shard delete request failed'')))"

section \<open>Shards through nodes\<close>

definition node_ReadShard ::
  "Externals \<Rightarrow> Engine \<Rightarrow> StorageNode \<Rightarrow> string \<Rightarrow> string \<Rightarrow> nat \<Rightarrow> eng_error + bytes option" where
  "node_ReadShard X e node shardDir hash index =
     (case node of
        LocalStorageNode _ _ \<Rightarrow> backend_ReadShard X e shardDir hash index
      | remoteStorageNode _ _ _ _ \<Rightarrow> remote_ReadShard e (node_ID node) shardDir hash index)"

definition node_WriteShard ::
  "Engine \<Rightarrow> StorageNode \<Rightarrow> string \<Rightarrow> string \<Rightarrow> nat \<Rightarrow> bytes \<Rightarrow> Engine \<times> eng_error option" where
  "node_WriteShard e node shardDir hash index data =
     (case node of
        LocalStorageNode _ _ \<Rightarrow> backend_WriteShard e shardDir hash index data
      | remoteStorageNode _ _ _ _ \<Rightarrow> remote_WriteShard e (node_ID node) shardDir hash index data)"

definition node_DeleteShard ::
  "Engine \<Rightarrow> StorageNode \<Rightarrow> string \<Rightarrow> string \<Rightarrow> nat \<Rightarrow> Engine \<times> eng_error option" where
  "node_DeleteShard e node shardDir hash index =
     (case node of
        LocalStorageNode _ _ \<Rightarrow> backend_DeleteShard e shardDir hash index
      | remoteStorageNode _ _ _ _ \<Rightarrow> remote_DeleteShard e (node_ID node) shardDir hash index)"

definition shardPlacement :: "Engine \<Rightarrow> Layout \<Rightarrow> nat \<Rightarrow> ShardPlacement" where
  "shardPlacement e layout index =
     (if index < length (ly_Placements layout) \<and> trim_space (pl_node (ly_Placements layout ! index)) \<noteq> []
      then ly_Placements layout ! index
      else localShardPlacement e index)"

definition verifyShardChecksum :: "Externals \<Rightarrow> Layout \<Rightarrow> nat \<Rightarrow> bytes option \<Rightarrow> eng_error option" where
  "verifyShardChecksum X layout index data =
     (case data of
        None \<Rightarrow> None
      | Some d \<Rightarrow>
          if index \<ge> length (ly_Checksums layout) then None
          else let expected = trim_space (ly_Checksums layout ! index) in
            if expected = [] then None
            else if HashBytes X d \<noteq> expected then Some EShardCorrupted
            else None)"

definition readShard :: "Externals \<Rightarrow> Engine \<Rightarrow> Layout \<Rightarrow> nat \<Rightarrow> eng_error + bytes option" where
  "readShard X e layout index =
     (case storageNode e (shardPlacement e layout index) of
        Inl err \<Rightarrow> Inl (EOther err)
      | Inr node \<Rightarrow>
          (case node_ReadShard X e node (ly_ShardDir layout) (ly_Hash layout) index of
             Inl err \<Rightarrow> Inl err
           | Inr data \<Rightarrow>
               (case verifyShardChecksum X layout index data of
                  Some err \<Rightarrow> Inl err
                | None \<Rightarrow> Inr data)))"

definition writeShard ::
  "Engine \<Rightarrow> ShardPlacement \<Rightarrow> string \<Rightarrow> string \<Rightarrow> nat \<Rightarrow> bytes \<Rightarrow> Engine \<times> eng_error option" where
  "writeShard e placement shardDir hash index data =
     (case storageNode e placement of
        Inl err \<Rightarrow> (e, Some (EOther err))
      | Inr node \<Rightarrow> node_WriteShard e node shardDir hash index data)"

definition deleteShard ::
  "Engine \<Rightarrow> ShardPlacement \<Rightarrow> string \<Rightarrow> string \<Rightarrow> nat \<Rightarrow> Engine \<times> eng_error option" where
  "deleteShard e placement shardDir hash index =
     (case storageNode e placement of
        Inl err \<Rightarrow> (e, Some (EOther err))
      | Inr node \<Rightarrow> node_DeleteShard e node shardDir hash index)"

definition isUnavailableShardError :: "eng_error \<Rightarrow> bool" where
  "isUnavailableShardError err \<longleftrightarrow> err = ENotExist \<or> err = EShardCorrupted"

definition readShardForRecovery :: "Externals \<Rightarrow> Engine \<Rightarrow> Layout \<Rightarrow> nat \<Rightarrow> eng_error + bytes option" where
  "readShardForRecovery X e layout index =
     (case readShard X e layout index of
        Inl err \<Rightarrow> if isUnavailableShardError err then Inr None else Inl err
      | Inr data \<Rightarrow> Inr data)"

end
