(* ===== verification/Engine_Objects.thy ===== *)
theory Engine_Objects
  imports Shard_Engine
begin

text \<open>
  The object operations of the engine: writing and deleting blobs, linking an object to a blob, finding
  a layout, reading, health and scrubbing (\<open>blob.go\<close>, \<open>engine.go\<close>, \<open>object_lookup.go\<close>, \<open>shard_recovery.go\<close>,
  \<open>health.go\<close>, \<open>scrub.go\<close>, \<open>stat.go\<close> under \<open>internal/engine\<close>). The layout cache is state; a layout handed out
  by \<open>getLayout\<close> is the cached one.
\<close>

section \<open>Finding a layout\<close>

text \<open>The walk over all \<open>meta.json\<close> below the root, in lexical order, up to the first match; a file that
  cannot be read or decoded ends it.\<close>

fun scan_metas :: "Externals \<Rightarrow> string \<Rightarrow> string \<Rightarrow> (string list \<times> Layout option) list \<Rightarrow>
    eng_error + Layout" where
  "scan_metas X bucket key [] = Inl EObjectNotFound"
| "scan_metas X bucket key ((path, content) # rest) =
     (if io_error X path then Inl (EOther ''engine: read layout'')
      else case content of
        None \<Rightarrow> Inl (EOther ''engine: unmarshal layout'')
      | Some layout \<Rightarrow>
          if ly_Bucket layout = bucket \<and> ly_Key layout = key
          then Inr (if ly_ID layout = [] then layout\<lparr>ly_ID := layoutHash X (layoutKey bucket key)\<rparr> else layout)
          else scan_metas X bucket key rest)"

definition scanObjectLayout :: "Externals \<Rightarrow> Engine \<Rightarrow> string \<Rightarrow> string \<Rightarrow> eng_error + Layout" where
  "scanObjectLayout X e bucket key =
     scan_metas X bucket key (filter (\<lambda>(path, _). below (eng_root e) path) (fm_entries (eng_metas e)))"

definition cache_store :: "Engine \<Rightarrow> string \<Rightarrow> Layout \<Rightarrow> Engine" where
  "cache_store e lk layout = e\<lparr>eng_cache := fmupd lk layout (eng_cache e)\<rparr>"

definition getLayout :: "Externals \<Rightarrow> Engine \<Rightarrow> string \<Rightarrow> string \<Rightarrow> Engine \<times> (eng_error + Layout)" where
  "getLayout X e bucket key =
     (let lk = layoutKey bucket key in
      case fmlookup (eng_cache e) lk of
        Some layout \<Rightarrow> (e, Inr layout)
      | None \<Rightarrow>
          let shardDir = makeShardDir X key; layoutID = layoutHash X lk in
          (case backend_ReadMeta X e shardDir layoutID of
             Inl _ \<Rightarrow>
               (case scanObjectLayout X e bucket key of
                  Inl _ \<Rightarrow> (e, Inl EObjectNotFound)
                | Inr layout \<Rightarrow> (cache_store e lk layout, Inr layout))
           | Inr None \<Rightarrow> (e, Inl (EOther ''engine: unmarshal layout''))
           | Inr (Some layout) \<Rightarrow>
               let layout = (if ly_ID layout = [] then layout\<lparr>ly_ID := layoutID\<rparr> else layout);
                   layout = (if ly_ShardDir layout = [] then layout\<lparr>ly_ShardDir := shardDir\<rparr> else layout)
               in (cache_store e lk layout, Inr layout)))"

definition objectInfoFromLayout :: "Engine \<Rightarrow> time \<Rightarrow> Layout \<Rightarrow> ObjectInfo" where
  "objectInfoFromLayout e now layout =
     \<lparr>oi_Bucket = ly_Bucket layout, oi_Key = ly_Key layout, oi_Hash = ly_Hash layout,
      oi_ETag = ly_ETag layout, oi_Size = ly_Size layout, oi_ContentType = ly_ContentType layout,
      oi_UpdatedAt = (if ly_UpdatedAt layout = 0 then now else ly_UpdatedAt layout),
      oi_Placements = ly_Placements layout, oi_Checksums = ly_Checksums layout,
      oi_Sizes = ly_Sizes layout, oi_DataChunks = eng_k e, oi_ParityChunks = eng_m e,
      oi_TotalChunks = eng_k e + eng_m e, oi_ShardSize = eng_shardSize e,
      oi_ShardDir = ly_ShardDir layout\<rparr>"

definition StatObject ::
  "Externals \<Rightarrow> Engine \<Rightarrow> time \<Rightarrow> string \<Rightarrow> string \<Rightarrow> Engine \<times> (eng_error + ObjectInfo)" where
  "StatObject X e now bucket key =
     (case getLayout X e bucket key of
        (e, Inl err) \<Rightarrow> (e, Inl err)
      | (e, Inr layout) \<Rightarrow> (e, Inr (objectInfoFromLayout e now layout)))"

section \<open>Writing\<close>

definition shardChecksums :: "Externals \<Rightarrow> shards \<Rightarrow> string list" where
  "shardChecksums X ss = map (HashBytes X) ss"

definition shardSizes :: "shards \<Rightarrow> int list" where
  "shardSizes ss = map (\<lambda>s. int (length s)) ss"

text \<open>The loop that writes shard \<open>i\<close> to its placement.\<close>

fun write_shards ::
  "Engine \<Rightarrow> string \<Rightarrow> string \<Rightarrow> (nat \<times> ShardPlacement \<times> bytes) list \<Rightarrow> Engine \<times> eng_error option" where
  "write_shards e shardDir hash [] = (e, None)"
| "write_shards e shardDir hash ((i, placement, shard) # rest) =
     (case writeShard e placement shardDir hash i shard of
        (e, Some err) \<Rightarrow> (e, Some err)
      | (e, None) \<Rightarrow> write_shards e shardDir hash rest)"

definition PutBlobBytes ::
  "Externals \<Rightarrow> Engine \<Rightarrow> string \<Rightarrow> bytes \<Rightarrow> Engine \<times> (eng_error + BlobInfo)" where
  "PutBlobBytes X e key data =
     (let key = trim_space key in
      if key = [] then (e, Inl (EOther ''engine: key is required''))
      else let hash = HashBytes X data in
        case Encode (eng_coder e) data of
          Inl err \<Rightarrow> (e, Inl (EOther (''engine: encode object: '' @ err)))
        | Inr ss \<Rightarrow>
            let shardDir = makeShardDir X key in
            (case PlanShardPlacement e (int (length ss)) of
               Inl err \<Rightarrow> (e, Inl (EOther err))
             | Inr placements \<Rightarrow>
                 (case write_shards e shardDir hash (zip [0..<length ss] (zip placements ss)) of
                    (e, Some err) \<Rightarrow> (e, Inl err)
                  | (e, None) \<Rightarrow>
                      (e, Inr \<lparr>bi_Hash = hash, bi_ETag = ETagFromHash hash,
                               bi_Size = int (length data), bi_ShardDir = shardDir,
                               bi_Placements = placements, bi_Checksums = shardChecksums X ss,
                               bi_Sizes = shardSizes ss\<rparr>))))"

definition localShardPlacements :: "Engine \<Rightarrow> ShardPlacement list" where
  "localShardPlacements e = map (localShardPlacement e) [0..<TotalChunks (eng_coder e)]"

definition resolveBlobPlacements :: "Engine \<Rightarrow> BlobInfo \<Rightarrow> ShardPlacement list" where
  "resolveBlobPlacements e blob =
     (if length (bi_Placements blob) = TotalChunks (eng_coder e) then bi_Placements blob
      else case PlanShardPlacement e (int (TotalChunks (eng_coder e))) of
        Inl _ \<Rightarrow> localShardPlacements e
      | Inr placements \<Rightarrow> placements)"

text \<open>The layout that links an object to a blob, and what is reported of it.\<close>

definition link_layout :: "Externals \<Rightarrow> Engine \<Rightarrow> string \<Rightarrow> string \<Rightarrow> BlobInfo \<Rightarrow> string \<Rightarrow> time \<Rightarrow> Layout" where
  "link_layout X e bucket key blob contentType updatedAt =
     \<lparr>ly_ID = layoutHash X (layoutKey bucket key), ly_ShardDir = bi_ShardDir blob, ly_Hash = bi_Hash blob,
      ly_Placements = resolveBlobPlacements e blob, ly_Checksums = bi_Checksums blob,
      ly_Sizes = bi_Sizes blob, ly_Bucket = bucket, ly_Key = key, ly_Size = bi_Size blob,
      ly_ETag = bi_ETag blob, ly_ShardSize = eng_shardSize e,
      ly_CoderType = show_nat (eng_k e) @ ''+'' @ show_nat (eng_m e),
      ly_ContentType = contentType, ly_UpdatedAt = updatedAt, ly_Version = 1\<rparr>"

definition link_info :: "Engine \<Rightarrow> Layout \<Rightarrow> ObjectInfo" where
  "link_info e layout =
     \<lparr>oi_Bucket = ly_Bucket layout, oi_Key = ly_Key layout, oi_Hash = ly_Hash layout,
      oi_ETag = ly_ETag layout, oi_Size = ly_Size layout, oi_ContentType = ly_ContentType layout,
      oi_UpdatedAt = ly_UpdatedAt layout, oi_Placements = ly_Placements layout,
      oi_Checksums = ly_Checksums layout, oi_Sizes = ly_Sizes layout,
      oi_DataChunks = eng_k e, oi_ParityChunks = eng_m e, oi_TotalChunks = eng_k e + eng_m e,
      oi_ShardSize = eng_shardSize e, oi_ShardDir = ly_ShardDir layout\<rparr>"

definition normalize_blob :: "BlobInfo \<Rightarrow> BlobInfo" where
  "normalize_blob blob =
     blob\<lparr>bi_Hash := trim_space (bi_Hash blob), bi_ShardDir := trim_space (bi_ShardDir blob),
          bi_ETag := if bi_ETag blob = [] then ETagFromHash (trim_space (bi_Hash blob)) else bi_ETag blob\<rparr>"

definition LinkObject :: "Externals \<Rightarrow> Engine \<Rightarrow> time \<Rightarrow> string \<Rightarrow> string \<Rightarrow> BlobInfo \<Rightarrow> string \<Rightarrow> time \<Rightarrow>
    Engine \<times> (eng_error + ObjectInfo)" where
  "LinkObject X e now bucket key blob contentType updatedAt =
     (let bucket = trim_space bucket; key = trim_space key; blob = normalize_blob blob in
      if bucket = [] \<or> key = [] then (e, Inl (EOther ''engine: bucket and key are required''))
      else if bi_Hash blob = [] \<or> bi_ShardDir blob = []
      then (e, Inl (EOther ''engine: blob hash and shard dir are required''))
      else let updatedAt = (if updatedAt = 0 then now else updatedAt);
               layout = link_layout X e bucket key blob contentType updatedAt
           in case backend_WriteMeta e (ly_ShardDir layout) (ly_ID layout) layout of
                (e, Some err) \<Rightarrow> (e, Inl err)
              | (e, None) \<Rightarrow>
                  (cache_store e (layoutKey bucket key) layout, Inr (link_info e layout)))"

definition PutObject :: "Externals \<Rightarrow> Engine \<Rightarrow> time \<Rightarrow> string \<Rightarrow> string \<Rightarrow> bytes \<Rightarrow> string \<Rightarrow>
    Engine \<times> (eng_error + ObjectInfo)" where
  "PutObject X e now bucket key data contentType =
     (let bucket = trim_space bucket; key = trim_space key in
      if bucket = [] \<or> key = [] then (e, Inl (EOther ''engine: bucket and key are required''))
      else case PutBlobBytes X e key data of
        (e, Inl err) \<Rightarrow> (e, Inl err)
      | (e, Inr blob) \<Rightarrow> LinkObject X e now bucket key blob contentType now)"

section \<open>Reading\<close>

definition countReadableShards :: "Externals \<Rightarrow> Engine \<Rightarrow> Layout \<Rightarrow> nat" where
  "countReadableShards X e layout =
     length (filter (\<lambda>i. case readShardForRecovery X e layout i of Inr (Some _) \<Rightarrow> True | _ \<Rightarrow> False)
       [0..<TotalChunks (eng_coder e)])"

definition canRebuild :: "Externals \<Rightarrow> Engine \<Rightarrow> Layout \<Rightarrow> bool" where
  "canRebuild X e layout \<longleftrightarrow> countReadableShards X e layout \<ge> eng_k e"

text \<open>Read the shards of the given indexes; a shard that is missing or corrupted is nil.\<close>

fun read_shards :: "Externals \<Rightarrow> Engine \<Rightarrow> Layout \<Rightarrow> nat list \<Rightarrow> eng_error + bytes option list" where
  "read_shards X e layout [] = Inr []"
| "read_shards X e layout (i # is) =
     (case readShardForRecovery X e layout i of
        Inl err \<Rightarrow> Inl err
      | Inr data \<Rightarrow>
          (case read_shards X e layout is of Inl err \<Rightarrow> Inl err | Inr ds \<Rightarrow> Inr (data # ds)))"

text \<open>The library takes a nil shard for a missing one, like an empty one.\<close>

definition raw_shards :: "bytes option list \<Rightarrow> shards" where
  "raw_shards ds = map (\<lambda>d. case d of None \<Rightarrow> [] | Some x \<Rightarrow> x) ds"

definition readAvailableShards ::
  "Externals \<Rightarrow> Engine \<Rightarrow> Layout \<Rightarrow> eng_error + bytes option list \<times> nat" where
  "readAvailableShards X e layout =
     (case read_shards X e layout [0..<TotalChunks (eng_coder e)] of
        Inl err \<Rightarrow> Inl err
      | Inr ds \<Rightarrow> Inr (ds, length (filter (\<lambda>d. d \<noteq> None) ds)))"

definition rebuildShards :: "Externals \<Rightarrow> Engine \<Rightarrow> Layout \<Rightarrow> Engine \<times> eng_error option" where
  "rebuildShards X e layout =
     (let total = TotalChunks (eng_coder e) in
      case read_shards X e layout [0..<total] of
        Inl err \<Rightarrow> (e, Some err)
      | Inr ds \<Rightarrow>
          (case Rebuild (eng_coder e) (raw_shards ds) of
             Inl err \<Rightarrow> (e, Some (EOther (''engine: rebuild shards: '' @ err)))
           | Inr ss \<Rightarrow>
               write_shards e (ly_ShardDir layout) (ly_Hash layout)
                 (map (\<lambda>i. (i, shardPlacement e layout i, ss ! i))
                   (filter (\<lambda>i. ss ! i \<noteq> [] \<or> ds ! i \<noteq> None) [0..<total]))))"

fun fill_missing :: "Externals \<Rightarrow> Engine \<Rightarrow> Layout \<Rightarrow> nat \<Rightarrow> bytes option list \<Rightarrow> eng_error + bytes option list" where
  "fill_missing X e layout i [] = Inr []"
| "fill_missing X e layout i (d # ds) =
     (case (case d of Some _ \<Rightarrow> Inr d | None \<Rightarrow> readShardForRecovery X e layout i) of
        Inl err \<Rightarrow> Inl err
      | Inr d' \<Rightarrow>
          (case fill_missing X e layout (Suc i) ds of Inl err \<Rightarrow> Inl err | Inr ds' \<Rightarrow> Inr (d' # ds')))"

definition ensureReadableShards :: "Externals \<Rightarrow> Engine \<Rightarrow> Layout \<Rightarrow> bytes option list \<Rightarrow> nat \<Rightarrow>
    Engine \<times> (eng_error + bytes option list)" where
  "ensureReadableShards X e layout ds available =
     (if available \<ge> eng_k e then (e, Inr ds)
      else if \<not> canRebuild X e layout then (e, Inl EShardRecoveryFailed)
      else case rebuildShards X e layout of
        (e, Some _) \<Rightarrow> (e, Inl EShardRecoveryFailed)
      | (e, None) \<Rightarrow>
          (case fill_missing X e layout 0 ds of
             Inl err \<Rightarrow> (e, Inl err)
           | Inr ds \<Rightarrow>
               if length (filter (\<lambda>d. d \<noteq> None) ds) < eng_k e then (e, Inl EShardRecoveryFailed)
               else (e, Inr ds)))"

definition verifyObjectChecksum :: "Externals \<Rightarrow> Layout \<Rightarrow> bytes \<Rightarrow> string \<times> eng_error option" where
  "verifyObjectChecksum X layout data =
     (let expected = trim_space (ly_Hash layout) in
      if expected = [] then ([], None)
      else let actual = HashBytes X data in
        if actual \<noteq> expected then (actual, Some EObjectCorrupted) else (actual, None))"

definition GetObject :: "Externals \<Rightarrow> Engine \<Rightarrow> time \<Rightarrow> string \<Rightarrow> string \<Rightarrow>
    Engine \<times> (eng_error + bytes \<times> ObjectInfo)" where
  "GetObject X e now bucket key =
     (case getLayout X e bucket key of
        (e, Inl err) \<Rightarrow> (e, Inl err)
      | (e, Inr layout) \<Rightarrow>
          (case readAvailableShards X e layout of
             Inl err \<Rightarrow> (e, Inl err)
           | Inr (ds, available) \<Rightarrow>
               (case ensureReadableShards X e layout ds available of
                  (e, Inl err) \<Rightarrow> (e, Inl err)
                | (e, Inr ds) \<Rightarrow>
                    (case Decode (eng_coder e) (raw_shards ds) (ly_Size layout) of
                       Inl err \<Rightarrow> (e, Inl (EOther (''engine: decode: '' @ err)))
                     | Inr decoded \<Rightarrow>
                         (case verifyObjectChecksum X layout decoded of
                            (_, Some err) \<Rightarrow> (e, Inl err)
                          | (_, None) \<Rightarrow> (e, Inr (decoded, objectInfoFromLayout e now layout)))))))"

section \<open>Deleting\<close>

definition DeleteBlob :: "Engine \<Rightarrow> string \<Rightarrow> string \<Rightarrow> Engine \<times> eng_error option" where
  "DeleteBlob e shardDir hash =
     (let shardDir = trim_space shardDir; hash = trim_space hash in
      if shardDir = [] \<or> hash = [] then (e, Some (EOther ''engine: shard dir and hash are required''))
      else backend_DeleteShardSet e shardDir hash)"

definition DeleteObjectLayout ::
  "Externals \<Rightarrow> Engine \<Rightarrow> string \<Rightarrow> string \<Rightarrow> Engine \<times> eng_error option" where
  "DeleteObjectLayout X e bucket key =
     (case getLayout X e bucket key of
        (e, Inl err) \<Rightarrow> (e, Some err)
      | (e, Inr layout) \<Rightarrow>
          let lk = layoutKey bucket key;
              e = e\<lparr>eng_cache := fmdrop lk (eng_cache e)\<rparr>;
              layoutID = (if ly_ID layout = [] then layoutHash X lk else ly_ID layout)
          in backend_DeleteMeta e (ly_ShardDir layout) layoutID)"

definition DeleteObject :: "Externals \<Rightarrow> Engine \<Rightarrow> string \<Rightarrow> string \<Rightarrow> Engine \<times> eng_error option" where
  "DeleteObject X e bucket key =
     (case getLayout X e bucket key of
        (e, Inl err) \<Rightarrow> (e, Some err)
      | (e, Inr layout) \<Rightarrow>
          (case DeleteObjectLayout X e bucket key of
             (e, Some err) \<Rightarrow> (e, Some err)
           | (e, None) \<Rightarrow> DeleteBlob e (ly_ShardDir layout) (ly_Hash layout)))"

section \<open>Health and scrubbing\<close>

datatype shard_health = ShardAvailable | ShardMissing | ShardCorrupted

definition shard_state :: "Externals \<Rightarrow> Engine \<Rightarrow> Layout \<Rightarrow> nat \<Rightarrow> shard_health" where
  "shard_state X e layout i =
     (case readShard X e layout i of
        Inl EShardCorrupted \<Rightarrow> ShardCorrupted
      | Inl _ \<Rightarrow> ShardMissing
      | Inr None \<Rightarrow> ShardMissing
      | Inr (Some _) \<Rightarrow> ShardAvailable)"

definition healthFromLayout :: "Externals \<Rightarrow> Engine \<Rightarrow> Layout \<Rightarrow> Health" where
  "healthFromLayout X e layout =
     (let total = TotalChunks (eng_coder e);
          states = map (shard_state X e layout) [0..<total];
          available = length (filter (\<lambda>s. s = ShardAvailable) states)
      in \<lparr>he_Bucket = ly_Bucket layout, he_Key = ly_Key layout, he_TotalChunks = total,
          he_Available = available,
          he_Missing = length (filter (\<lambda>s. s = ShardMissing) states),
          he_Corrupted = length (filter (\<lambda>s. s = ShardCorrupted) states),
          he_Recoverable = (available \<ge> eng_k e)\<rparr>)"

definition CheckHealth ::
  "Externals \<Rightarrow> Engine \<Rightarrow> string \<Rightarrow> string \<Rightarrow> Engine \<times> (eng_error + Health)" where
  "CheckHealth X e bucket key =
     (case getLayout X e bucket key of
        (e, Inl err) \<Rightarrow> (e, Inl err)
      | (e, Inr layout) \<Rightarrow> (e, Inr (healthFromLayout X e layout)))"

record ScrubResult =
  sc_Health :: Health
  sc_Healthy :: bool
  sc_ObjectVerified :: bool
  sc_ExpectedHash :: string
  sc_ActualHash :: string

text \<open>The result is returned beside the error.\<close>

definition ScrubObject :: "Externals \<Rightarrow> Engine \<Rightarrow> string \<Rightarrow> string \<Rightarrow>
    Engine \<times> ScrubResult option \<times> eng_error option" where
  "ScrubObject X e bucket key =
     (case getLayout X e bucket key of
        (e, Inl err) \<Rightarrow> (e, None, Some err)
      | (e, Inr layout) \<Rightarrow>
          let result = \<lparr>sc_Health = healthFromLayout X e layout, sc_Healthy = False,
                sc_ObjectVerified = False, sc_ExpectedHash = trim_space (ly_Hash layout),
                sc_ActualHash = []\<rparr>
          in if he_Missing (sc_Health result) \<noteq> 0 \<or> he_Corrupted (sc_Health result) \<noteq> 0
             then (e, Some result, None)
             else case readAvailableShards X e layout of
               Inl err \<Rightarrow> (e, Some result, Some err)
             | Inr (ds, available) \<Rightarrow>
                 (case ensureReadableShards X e layout ds available of
                    (e, Inl err) \<Rightarrow> (e, Some result, Some err)
                  | (e, Inr ds) \<Rightarrow>
                      (case Decode (eng_coder e) (raw_shards ds) (ly_Size layout) of
                         Inl err \<Rightarrow> (e, Some result, Some (EOther (''engine: decode scrub object: '' @ err)))
                       | Inr decoded \<Rightarrow>
                           (case verifyObjectChecksum X layout decoded of
                              (actual, err) \<Rightarrow>
                                (e, Some (result\<lparr>sc_ActualHash := actual, sc_ObjectVerified := True,
                                     sc_Healthy := (err = None)\<rparr>), err)))))"

section \<open>Where shards are kept\<close>

lemma split_on_append_sep [simp]: "c \<notin> set a \<Longrightarrow> split_on c a = [a]"
  by (rule split_on_absent)

lemma clean_onto_append: "clean_onto acc (xs @ ys) = clean_onto (clean_onto acc xs) ys"
  by (induction xs arbitrary: acc) auto

lemma chunk_name_plain:
  "chunk_name i \<noteq> []" "chunk_name i \<noteq> ''.''" "chunk_name i \<noteq> ''..''" "CHR ''/'' \<notin> set (chunk_name i)"
proof -
  have "CHR ''/'' \<notin> set (zero_pad 4 i)"
    using show_nat_no_sign [of "CHR ''/''" i]
    by (auto simp: zero_pad_def Let_def is_digit_def less_eq_char_def)
  then show "CHR ''/'' \<notin> set (chunk_name i)"
    by (auto simp: chunk_name_def)
qed (simp_all add: chunk_name_def)

lemma chunk_name_inject [simp]: "chunk_name i = chunk_name j \<longleftrightarrow> i = j"
  by (simp add: chunk_name_def)

lemma join_path_chunk: "join_path root [d, h, chunk_name i] = join_path root [d, h] @ [chunk_name i]"
  using chunk_name_plain [of i] by (simp add: join_path_def clean_onto_append)

lemma shardPath_inject [simp]: "shardPath e d h i = shardPath e d h j \<longleftrightarrow> i = j"
  by (simp add: shardPath_def join_path_chunk)

lemma remote_path_inject [simp]: "remote_path d h i = remote_path d h j \<longleftrightarrow> i = j"
  by (simp add: remote_path_def join_path_chunk)

text \<open>Engines that differ only in what is stored.\<close>

definition same_conf :: "Engine \<Rightarrow> Engine \<Rightarrow> bool" where
  "same_conf e e' \<longleftrightarrow> e' = e\<lparr>eng_chunks := eng_chunks e', eng_remote := eng_remote e', eng_fates := eng_fates e',
     eng_metas := eng_metas e', eng_cache := eng_cache e'\<rparr>"

lemma same_conf_refl [simp]: "same_conf e e"
  by (simp add: same_conf_def)

lemma same_confD:
  assumes "same_conf e e'"
  shows "nt_nodes e' = nt_nodes e" "nt_drained e' = nt_drained e" "nt_local e' = nt_local e"
    "nt_planner e' = nt_planner e" "eng_root e' = eng_root e" "eng_k e' = eng_k e" "eng_m e' = eng_m e"
    "eng_shardSize e' = eng_shardSize e" "eng_coder e' = eng_coder e" "eng_down e' = eng_down e"
  using arg_cong [OF assms [unfolded same_conf_def], of nt_nodes]
    arg_cong [OF assms [unfolded same_conf_def], of nt_drained]
    arg_cong [OF assms [unfolded same_conf_def], of nt_local]
    arg_cong [OF assms [unfolded same_conf_def], of nt_planner]
    arg_cong [OF assms [unfolded same_conf_def], of eng_root]
    arg_cong [OF assms [unfolded same_conf_def], of eng_k]
    arg_cong [OF assms [unfolded same_conf_def], of eng_m]
    arg_cong [OF assms [unfolded same_conf_def], of eng_shardSize]
    arg_cong [OF assms [unfolded same_conf_def], of eng_coder]
    arg_cong [OF assms [unfolded same_conf_def], of eng_down]
  by simp_all

lemma same_conf_trans: "same_conf e e' \<Longrightarrow> same_conf e' e'' \<Longrightarrow> same_conf e e''"
  by (cases e; cases e'; cases e'') (auto simp: same_conf_def)

lemma same_conf_updates [simp]:
  "same_conf e (e\<lparr>eng_chunks := c\<rparr>)" "same_conf e (e\<lparr>eng_remote := r\<rparr>)" "same_conf e (e\<lparr>eng_fates := f\<rparr>)"
  "same_conf e (e\<lparr>eng_metas := m\<rparr>)" "same_conf e (e\<lparr>eng_cache := k\<rparr>)"
  "same_conf e (e\<lparr>eng_fates := f, eng_chunks := c\<rparr>)" "same_conf e (e\<lparr>eng_fates := f, eng_remote := r\<rparr>)"
  "same_conf e (e\<lparr>eng_fates := f, eng_metas := m\<rparr>)"
  "same_conf e (e\<lparr>eng_fates := f, eng_chunks := c, eng_metas := m\<rparr>)"
  by (simp_all add: same_conf_def)

lemma same_conf_storageNode:
  assumes "same_conf e e'"
  shows "storageNode e' p = storageNode e p"
  unfolding storageNode_def same_confD(1,3) [OF assms] ..

lemma same_conf_localShardPlacement: "same_conf e e' \<Longrightarrow> localShardPlacement e' i = localShardPlacement e i"
  using same_confD [of e e'] by (simp add: localShardPlacement_def)

lemma same_conf_shardPlacement: "same_conf e e' \<Longrightarrow> shardPlacement e' l i = shardPlacement e l i"
  by (simp add: shardPlacement_def same_conf_localShardPlacement)

lemma same_conf_paths: "same_conf e e' \<Longrightarrow> shardPath e' d h i = shardPath e d h i"
  "same_conf e e' \<Longrightarrow> metaPath e' d h = metaPath e d h"
  using same_confD [of e e'] by (simp_all add: shardPath_def metaPath_def)

text \<open>What a node holds for a shard.\<close>

definition held :: "Engine \<Rightarrow> StorageNode \<Rightarrow> string \<Rightarrow> string \<Rightarrow> nat \<Rightarrow> bytes option" where
  "held e node d h i =
     (case node of
        LocalStorageNode _ _ \<Rightarrow> fmlookup (eng_chunks e) (shardPath e d h i)
      | remoteStorageNode _ _ _ _ \<Rightarrow> fmlookup (eng_remote e) (node_ID node, remote_path d h i))"

lemma writeShard_frame:
  "same_conf e (fst (writeShard e p d h i x)) \<and> eng_metas (fst (writeShard e p d h i x)) = eng_metas e \<and>
     eng_cache (fst (writeShard e p d h i x)) = eng_cache e"
  by (simp add: writeShard_def node_WriteShard_def backend_WriteShard_def remote_WriteShard_def spend_fate_def
      Let_def split: sum.split StorageNode.split io_fate.split)

lemma writeShard_held:
  assumes "writeShard e p d h i x = (e', None)"
  obtains node where "storageNode e p = Inr node" "held e' node d h i = Some x"
    "\<And>n j. j \<noteq> i \<Longrightarrow> held e' n d h j = held e n d h j"
proof -
  obtain node where n: "storageNode e p = Inr node" "node_WriteShard e node d h i x = (e', None)"
    using assms by (auto simp: writeShard_def split: sum.splits)
  show thesis
  proof (cases node)
    case (LocalStorageNode a b)
    then have e': "e' = (spend_fate e)\<lparr>eng_chunks := fmupd (shardPath e d h i) x (eng_chunks e)\<rparr>"
      using n(2) by (auto simp: node_WriteShard_def backend_WriteShard_def Let_def split: io_fate.splits)
    have p: "shardPath e' d h j = shardPath e d h j" for j
      by (simp add: e' spend_fate_def shardPath_def)
    have f: "eng_chunks e' = fmupd (shardPath e d h i) x (eng_chunks e)" "eng_remote e' = eng_remote e"
      by (simp_all add: e' spend_fate_def)
    show thesis
      by (rule that [OF n(1)]) (auto simp: held_def p f LocalStorageNode split: StorageNode.splits)
  next
    case (remoteStorageNode a b c t)
    then have e': "e' = (spend_fate e)\<lparr>eng_remote := fmupd (node_ID node, remote_path d h i) x (eng_remote e)\<rparr>"
      using n(2) by (auto simp: node_WriteShard_def remote_WriteShard_def Let_def split: if_splits io_fate.splits)
    have p: "shardPath e' d h j = shardPath e d h j" for j
      by (simp add: e' spend_fate_def shardPath_def)
    have f: "eng_remote e' = fmupd (node_ID node, remote_path d h i) x (eng_remote e)" "eng_chunks e' = eng_chunks e"
      by (simp_all add: e' spend_fate_def)
    show thesis
      by (rule that [OF n(1)])
         (auto simp: held_def p f remoteStorageNode simp del: node_ID.simps split: StorageNode.splits)
  qed
qed

lemma write_shards_frame:
  "same_conf e (fst (write_shards e d h xs)) \<and> eng_metas (fst (write_shards e d h xs)) = eng_metas e \<and>
     eng_cache (fst (write_shards e d h xs)) = eng_cache e"
proof (induction xs arbitrary: e)
  case (Cons x xs)
  obtain i p y where x: "x = (i, p, y)" by (cases x)
  obtain e1 r where w: "writeShard e p d h i y = (e1, r)" by fastforce
  show ?case
    using writeShard_frame [of e p d h i y] Cons.IH [of e1]
    by (cases r) (auto simp: x w intro: same_conf_trans)
qed simp

text \<open>After a successful loop every node holds its shards, and other indexes are untouched.\<close>

lemma write_shards_held:
  assumes "write_shards e d h xs = (e', None)" "distinct (map fst xs)"
  shows "(\<forall>(i, p, x) \<in> set xs. \<exists>node. storageNode e p = Inr node \<and> held e' node d h i = Some x) \<and>
    (\<forall>n j. j \<notin> fst ` set xs \<longrightarrow> held e' n d h j = held e n d h j)"
  using assms
proof (induction xs arbitrary: e)
  case (Cons y xs)
  obtain i p x where y: "y = (i, p, x)" by (cases y)
  obtain e1 where w: "writeShard e p d h i x = (e1, None)" "write_shards e1 d h xs = (e', None)"
    using Cons.prems(1) by (auto simp: y split: prod.splits option.splits)
  obtain node where n: "storageNode e p = Inr node" "held e1 node d h i = Some x"
    "\<And>n j. j \<noteq> i \<Longrightarrow> held e1 n d h j = held e n d h j"
    using writeShard_held [OF w(1)] by metis
  have s: "storageNode e1 q = storageNode e q" for q
    using writeShard_frame [of e p d h i x] w(1) by (simp add: same_conf_storageNode)
  have i: "i \<notin> fst ` set xs" "distinct (map fst xs)"
    using Cons.prems(2) by (simp_all add: y)
  note ih = Cons.IH [OF w(2) i(2)]
  have "held e' node d h i = Some x"
    using ih i(1) n(2) by auto
  then show ?case
    using ih n i(1) s by (auto simp: y)
qed simp

section \<open>Reading back\<close>

text \<open>What a read sees: a remote node answers with an empty body for a shard it does not hold.\<close>

definition seen :: "Engine \<Rightarrow> StorageNode \<Rightarrow> string \<Rightarrow> string \<Rightarrow> nat \<Rightarrow> bytes option" where
  "seen e node d h i =
     (case node of
        LocalStorageNode _ _ \<Rightarrow> held e node d h i
      | remoteStorageNode _ _ _ _ \<Rightarrow> Some (case held e node d h i of None \<Rightarrow> [] | Some x \<Rightarrow> x))"

lemma seen_held: "held e n d h i = Some x \<Longrightarrow> seen e n d h i = Some x"
  by (cases n) (simp_all add: seen_def)

definition quiet_io :: "Externals \<Rightarrow> Engine \<Rightarrow> bool" where
  "quiet_io X e \<longleftrightarrow> (\<forall>p. \<not> io_error X p) \<and> eng_down e = {||}"

lemma node_ReadShard_seen: "quiet_io X e \<Longrightarrow> node_ReadShard X e n d h i = Inr (seen e n d h i)"
  by (auto simp: quiet_io_def node_ReadShard_def backend_ReadShard_def remote_ReadShard_def seen_def held_def
      handleStorageShardGet_def Let_def split: StorageNode.splits option.splits)

text \<open>With no transport trouble a shard reads as what its node shows, if its checksum is right.\<close>

lemma readShardForRecovery_seen:
  assumes "quiet_io X e" "storageNode e (shardPlacement e l i) = Inr n" "i < length (ly_Checksums l)"
    and "trim_space (ly_Checksums l ! i) = c" "c \<noteq> []"
  shows "readShardForRecovery X e l i = Inr (case seen e n (ly_ShardDir l) (ly_Hash l) i of
      None \<Rightarrow> None | Some x \<Rightarrow> if HashBytes X x = c then Some x else None)"
  using assms node_ReadShard_seen [OF assms(1)]
  by (auto simp: readShardForRecovery_def readShard_def verifyShardChecksum_def isUnavailableShardError_def
      split: option.splits)

lemma read_shards_all:
  assumes "\<And>i. i \<in> set is \<Longrightarrow> readShardForRecovery X e l i = Inr (f i)"
  shows "read_shards X e l is = Inr (map f is)"
  using assms by (induction "is") auto

lemma erased_raw:
  assumes "length es = t" "\<And>i. i < t \<Longrightarrow> f i = None \<or> f i = Some (es ! i)"
  shows "erased es (raw_shards (map f [0..<t]))"
  using assms by (force simp: erased_def raw_shards_def list_all2_conv_all_nth split: option.splits)

lemma present_raw:
  assumes "list_all (\<lambda>s. s \<noteq> []) es" "length es = t"
    and "\<And>i. i < t \<Longrightarrow> i \<notin> D \<Longrightarrow> f i = Some (es ! i)" "card ({..<t} \<inter> D) \<le> t - k" "k \<le> t"
  shows "k \<le> present (raw_shards (map f [0..<t]))" "k \<le> length (filter (\<lambda>d. d \<noteq> None) (map f [0..<t]))"
proof -
  let ?good = "filter (\<lambda>i. i \<notin> D) [0..<t]"
  have "card ({..<t} - D) = t - card ({..<t} \<inter> D)"
    using card_Diff_subset_Int [of "{..<t}" D] by simp
  moreover have "length ?good = card ({..<t} - D)"
    by (subst distinct_card [symmetric]) (auto intro!: arg_cong [where f = card])
  ultimately have g: "k \<le> length ?good"
    using assms(4,5) by linarith
  have le: "length (filter P xs) \<le> length (filter Q xs)" if "\<And>x. x \<in> set xs \<Longrightarrow> P x \<Longrightarrow> Q x" for P Q and xs :: "nat list"
    using that by (induction xs) (auto simp: le_SucI)
  have "length ?good \<le> length (filter (\<lambda>i. f i \<noteq> None) [0..<t])"
    using assms(3) by (intro le) auto
  then show "k \<le> length (filter (\<lambda>d. d \<noteq> None) (map f [0..<t]))"
    using g by (simp add: filter_map comp_def)
  have "length ?good \<le> length (filter (\<lambda>i. (case f i of None \<Rightarrow> [] | Some x \<Rightarrow> x) \<noteq> []) [0..<t])"
    using assms(1-3) by (intro le) (auto simp: list_all_length)
  then show "k \<le> present (raw_shards (map f [0..<t]))"
    using g by (simp add: present_def raw_shards_def filter_map comp_def)
qed

text \<open>\<open>GetObject\<close> when the layout is known and every shard is intact or recognised as bad.\<close>

lemma GetObject_decodes:
  assumes "erasure_scheme (coder_k (eng_coder e)) (coder_m (eng_coder e)) (coder_scheme (eng_coder e))"
    and "eng_k e = coder_k (eng_coder e)" "data \<noteq> []" "Encode (eng_coder e) data = Inr es"
    and "\<And>i. i < TotalChunks (eng_coder e) \<Longrightarrow> readShardForRecovery X e l i = Inr (f i) \<and> (f i = None \<or> f i = Some (es ! i))"
    and "\<And>i. i < TotalChunks (eng_coder e) \<Longrightarrow> i \<notin> D \<Longrightarrow> f i = Some (es ! i)"
    and "card ({..<TotalChunks (eng_coder e)} \<inter> D) \<le> coder_m (eng_coder e)"
    and "getLayout X e0 b k = (e, Inr l)" "ly_Size l = int (length data)" "trim_space (ly_Hash l) = HashBytes X data"
  shows "GetObject X e0 now b k = (e, Inr (data, objectInfoFromLayout e now l))"
proof -
  let ?c = "eng_coder e"
  let ?t = "TotalChunks ?c"
  let ?ds = "map f [0..<?t]"
  obtain ss es' where s: "Encode ?c data = Inr es'" "length es' = coder_k ?c + coder_m ?c" "0 < shard_size (coder_k ?c) data"
    "list_all (\<lambda>s. length s = shard_size (coder_k ?c) data) es'"
    by (rule erasure_scheme.Encode_shards [OF assms(1) refl refl refl assms(3)])
  have es: "length es = ?t" "list_all (\<lambda>s. s \<noteq> []) es"
    using s assms(4) by (auto simp: TotalChunks_def list_all_iff)
  have r: "read_shards X e l [0..<?t] = Inr ?ds"
    using assms(5) by (intro read_shards_all) simp
  have er: "erased es (raw_shards ?ds)"
    using es(1) assms(5) by (intro erased_raw) auto
  have p: "coder_k ?c \<le> present (raw_shards ?ds)" "coder_k ?c \<le> length (filter (\<lambda>d. d \<noteq> None) ?ds)"
    using present_raw [OF es(2,1) assms(6), of D "coder_k ?c"] assms(7) by (auto simp: TotalChunks_def)
  have "Decode ?c (raw_shards ?ds) (int (length data)) = Inr data"
    by (rule erasure_scheme.Decode_Encode [OF assms(1) refl refl refl assms(3,4) er p(1)])
  then show ?thesis
    using assms(2,8-10) r p(2)
    by (simp add: GetObject_def readAvailableShards_def ensureReadableShards_def verifyObjectChecksum_def Let_def)
qed

section \<open>Put, link, get\<close>

lemma PlanShardPlacement_valid:
  assumes "PlanShardPlacement e c = Inr ps"
  shows "int (length ps) = c" "i < length ps \<Longrightarrow> trim_space (pl_node (ps ! i)) \<noteq> []"
proof -
  have v: "validatePlacementPlan ps c = None"
    using assms by (auto simp: PlanShardPlacement_def split: option.splits sum.splits)
  then show "int (length ps) = c"
    by (simp add: validatePlacementPlan_def split: if_splits)
  show "i < length ps \<Longrightarrow> trim_space (pl_node (ps ! i)) \<noteq> []"
    using v by (auto simp: validatePlacementPlan_def list_all_iff in_set_enumerate_eq split: if_splits)
qed

lemma PutBlobBytes_success:
  assumes "PutBlobBytes X e key data = (e', Inr blob)"
  obtains es pls where "Encode (eng_coder e) data = Inr es" "PlanShardPlacement e (int (length es)) = Inr pls"
    "write_shards e (makeShardDir X (trim_space key)) (HashBytes X data) (zip [0..<length es] (zip pls es)) = (e', None)"
    "blob = \<lparr>bi_Hash = HashBytes X data, bi_ETag = ETagFromHash (HashBytes X data), bi_Size = int (length data),
       bi_ShardDir = makeShardDir X (trim_space key), bi_Placements = pls, bi_Checksums = shardChecksums X es,
       bi_Sizes = shardSizes es\<rparr>"
  using assms
  by (auto simp: PutBlobBytes_def Let_def split: if_splits sum.splits prod.splits option.splits)

text \<open>The layout \<open>LinkObject\<close> writes.\<close>

lemma LinkObject_success:
  assumes "LinkObject X e now b k blob ct t = (e', Inr info)"
  obtains L where "eng_cache e' = fmupd (layoutKey (trim_space b) (trim_space k)) L (eng_cache e)"
    "eng_metas e' = fmupd (metaPath e (ly_ShardDir L) (ly_ID L)) (Some L) (eng_metas e)"
    "same_conf e e'" "eng_chunks e' = eng_chunks e" "eng_remote e' = eng_remote e"
    "ly_ID L = layoutHash X (layoutKey (trim_space b) (trim_space k))"
    "ly_ShardDir L = trim_space (bi_ShardDir blob)" "ly_ShardDir L \<noteq> []" "ly_Hash L = trim_space (bi_Hash blob)"
    "length (bi_Placements blob) = TotalChunks (eng_coder e) \<Longrightarrow> ly_Placements L = bi_Placements blob"
    "ly_Checksums L = bi_Checksums blob" "ly_Size L = bi_Size blob"
    "ly_Bucket L = trim_space b" "ly_Key L = trim_space k"
    "oi_Checksums info = bi_Checksums blob" "oi_Hash info = ly_Hash L" "oi_ShardDir info = ly_ShardDir L"
proof -
  let ?b = "trim_space b" and ?k = "trim_space k"
  let ?B = "normalize_blob blob"
  define L where "L = link_layout X e ?b ?k ?B ct (if t = 0 then now else t)"
  have ne: "?b \<noteq> []" "?k \<noteq> []" "trim_space (bi_Hash blob) \<noteq> []" "trim_space (bi_ShardDir blob) \<noteq> []"
    using assms by (auto simp: LinkObject_def Let_def normalize_blob_def split: if_splits)
  have bf: "bi_Hash ?B = trim_space (bi_Hash blob)" "bi_ShardDir ?B = trim_space (bi_ShardDir blob)"
    "bi_Checksums ?B = bi_Checksums blob" "bi_Size ?B = bi_Size blob" "bi_Placements ?B = bi_Placements blob"
    by (simp_all add: normalize_blob_def)
  from ne have lk: "LinkObject X e now b k blob ct t = (case backend_WriteMeta e (ly_ShardDir L) (ly_ID L) L of
      (e, Some err) \<Rightarrow> (e, Inl err)
    | (e, None) \<Rightarrow> (cache_store e (layoutKey ?b ?k) L, Inr (link_info e L)))"
    unfolding LinkObject_def Let_def L_def by (simp add: bf del: if_split split del: if_split)
  obtain e1 where w: "backend_WriteMeta e (ly_ShardDir L) (ly_ID L) L = (e1, None)"
    and e': "e' = cache_store e1 (layoutKey ?b ?k) L" and info: "info = link_info e1 L"
    using assms unfolding lk by (auto split: prod.splits option.splits)
  have e1: "e1 = (spend_fate e)\<lparr>eng_metas := fmupd (metaPath e (ly_ShardDir L) (ly_ID L)) (Some L) (eng_metas e)\<rparr>"
    using w by (auto simp: backend_WriteMeta_def Let_def split: io_fate.splits)
  have f: "ly_ID L = layoutHash X (layoutKey ?b ?k)" "ly_ShardDir L = trim_space (bi_ShardDir blob)"
    "ly_Hash L = trim_space (bi_Hash blob)" "ly_Placements L = resolveBlobPlacements e ?B"
    "ly_Checksums L = bi_Checksums blob" "ly_Size L = bi_Size blob" "ly_Bucket L = ?b" "ly_Key L = ?k"
    by (simp_all add: L_def link_layout_def bf)
  show thesis
  proof (rule that [of L])
    show "eng_metas e' = fmupd (metaPath e (ly_ShardDir L) (ly_ID L)) (Some L) (eng_metas e)"
      "eng_cache e' = fmupd (layoutKey ?b ?k) L (eng_cache e)"
      "eng_chunks e' = eng_chunks e" "eng_remote e' = eng_remote e"
      by (simp_all add: e' e1 cache_store_def spend_fate_def)
    show "same_conf e e'"
      by (simp add: e' e1 cache_store_def spend_fate_def same_conf_def)
    show "length (bi_Placements blob) = TotalChunks (eng_coder e) \<Longrightarrow> ly_Placements L = bi_Placements blob"
      by (simp add: f(4) resolveBlobPlacements_def bf)
    show "oi_Checksums info = bi_Checksums blob" "oi_Hash info = ly_Hash L" "oi_ShardDir info = ly_ShardDir L"
      by (simp_all add: info link_info_def f)
  qed (use ne f in simp_all)
qed

lemma getLayout_cached: "fmlookup (eng_cache e) (layoutKey b k) = Some l \<Longrightarrow> getLayout X e b k = (e, Inr l)"
  by (simp add: getLayout_def)

lemma getLayout_stored:
  assumes "fmlookup (eng_cache e) (layoutKey b k) = None" "\<forall>p. \<not> io_error X p"
    and "fmlookup (eng_metas e) (metaPath e (makeShardDir X k) (layoutHash X (layoutKey b k))) = Some (Some l)"
    and "ly_ID l = layoutHash X (layoutKey b k)" "ly_ShardDir l \<noteq> []"
  shows "getLayout X e b k = (cache_store e (layoutKey b k) l, Inr l)"
proof -
  have "(if ly_ID l = [] then l\<lparr>ly_ID := layoutHash X (layoutKey b k)\<rparr> else l) = l"
    unfolding assms(4) [symmetric] by simp
  then show ?thesis
    using assms(1-3,5) by (simp add: getLayout_def backend_ReadMeta_def Let_def)
qed

text \<open>Damage to the shards of one blob: outside the set \<open>D\<close> every node holds what it held; what is shown in
  its place for a shard of \<open>D\<close> is either the original or fails the checksum. Everything else of the engine
  is as it was, except that the layout cache may have been lost in a restart.\<close>

definition shards_damaged :: "Externals \<Rightarrow> string \<Rightarrow> string \<Rightarrow> string list \<Rightarrow> nat set \<Rightarrow> Engine \<Rightarrow> Engine \<Rightarrow> bool" where
  "shards_damaged X d h sums D e e' \<longleftrightarrow> same_conf e e' \<and> eng_metas e' = eng_metas e \<and>
     (eng_cache e' = eng_cache e \<or> eng_cache e' = fmempty) \<and>
     (\<forall>n i. i \<notin> D \<longrightarrow> held e' n d h i = held e n d h i) \<and>
     (\<forall>n i x. i \<in> D \<longrightarrow> seen e' n d h i = Some x \<longrightarrow> HashBytes X x = sums ! i \<longrightarrow> held e n d h i = Some x)"

definition hash_clean :: "Externals \<Rightarrow> bool" where
  "hash_clean X \<longleftrightarrow> (\<forall>d. trim_space (HashBytes X d) = HashBytes X d \<and> HashBytes X d \<noteq> [])"

text \<open>The state after a successful \<open>PutObject\<close>: a layout in the cache and on disk, and every shard held by the
  node of its placement.\<close>

lemma PutObject_success:
  assumes put: "PutObject X e now b k data ct = (e1, Inr info)" and hash: "hash_clean X"
    and dir: "trim_space (makeShardDir X (trim_space k)) = makeShardDir X (trim_space k)"
    and total: "length es = TotalChunks (eng_coder e)" and enc: "Encode (eng_coder e) data = Inr es"
  obtains L where "same_conf e e1"
    "fmlookup (eng_cache e1) (layoutKey (trim_space b) (trim_space k)) = Some L"
    "fmlookup (eng_metas e1) (metaPath e1 (makeShardDir X (trim_space k)) (ly_ID L)) = Some (Some L)"
    "ly_ID L = layoutHash X (layoutKey (trim_space b) (trim_space k))"
    "ly_ShardDir L = makeShardDir X (trim_space k)" "ly_ShardDir L \<noteq> []" "ly_Hash L = HashBytes X data"
    "ly_Checksums L = shardChecksums X es" "ly_Size L = int (length data)"
    "oi_Checksums info = ly_Checksums L" "oi_Hash info = ly_Hash L" "oi_ShardDir info = ly_ShardDir L"
    "\<And>i. i < length es \<Longrightarrow> \<exists>node. storageNode e (shardPlacement e L i) = Inr node \<and>
        held e1 node (ly_ShardDir L) (ly_Hash L) i = Some (es ! i)"
proof -
  let ?k = "trim_space k" and ?b = "trim_space b"
  obtain e0 blob where p: "PutBlobBytes X e ?k data = (e0, Inr blob)" "LinkObject X e0 now ?b ?k blob ct now = (e1, Inr info)"
    using put by (auto simp: PutObject_def Let_def split: if_splits prod.splits sum.splits)
  obtain pls where w: "PlanShardPlacement e (int (length es)) = Inr pls"
    "write_shards e (makeShardDir X ?k) (HashBytes X data) (zip [0..<length es] (zip pls es)) = (e0, None)"
    "blob = \<lparr>bi_Hash = HashBytes X data, bi_ETag = ETagFromHash (HashBytes X data), bi_Size = int (length data),
       bi_ShardDir = makeShardDir X ?k, bi_Placements = pls, bi_Checksums = shardChecksums X es, bi_Sizes = shardSizes es\<rparr>"
    using PutBlobBytes_success [OF p(1)] enc by auto
  have conf: "same_conf e e0"
    using write_shards_frame [of e "makeShardDir X ?k" "HashBytes X data" "zip [0..<length es] (zip pls es)"] w(2) by simp
  have lp: "length pls = length es"
    using PlanShardPlacement_valid(1) [OF w(1)] by simp
  obtain L where L: "eng_cache e1 = fmupd (layoutKey ?b ?k) L (eng_cache e0)"
    "eng_metas e1 = fmupd (metaPath e0 (ly_ShardDir L) (ly_ID L)) (Some L) (eng_metas e0)"
    "same_conf e0 e1" "eng_chunks e1 = eng_chunks e0" "eng_remote e1 = eng_remote e0"
    "ly_ID L = layoutHash X (layoutKey ?b ?k)" "ly_ShardDir L = trim_space (bi_ShardDir blob)" "ly_ShardDir L \<noteq> []"
    "ly_Hash L = trim_space (bi_Hash blob)"
    "length (bi_Placements blob) = TotalChunks (eng_coder e0) \<Longrightarrow> ly_Placements L = bi_Placements blob"
    "ly_Checksums L = bi_Checksums blob" "ly_Size L = bi_Size blob" "ly_Bucket L = ?b" "ly_Key L = ?k"
    "oi_Checksums info = bi_Checksums blob" "oi_Hash info = ly_Hash L" "oi_ShardDir info = ly_ShardDir L"
    using LinkObject_success [OF p(2)] by (metis trim_space_idem)
  have pl: "ly_Placements L = pls"
    using L(10) w(3) lp total same_confD(9) [OF conf] by simp
  have sd: "ly_ShardDir L = makeShardDir X ?k" "ly_Hash L = HashBytes X data"
    using L(7,9) w(3) dir hash by (simp_all add: hash_clean_def)
  have conf1: "same_conf e e1" using conf L(3) by (rule same_conf_trans)
  have held: "held e1 n d h i = held e0 n d h i" for n d h i
    using same_conf_paths(1) [OF L(3)] L(4,5) by (simp add: held_def split: StorageNode.split)
  have "metaPath e0 (ly_ShardDir L) (ly_ID L) = metaPath e1 (makeShardDir X ?k) (ly_ID L)"
    using same_conf_paths(2) [OF L(3)] sd by simp
  then have m: "fmlookup (eng_metas e1) (metaPath e1 (makeShardDir X ?k) (ly_ID L)) = Some (Some L)"
    using L(2) by simp
  show thesis
  proof (rule that [OF conf1 _ m L(6) sd(1) L(8) sd(2)])
    show "fmlookup (eng_cache e1) (layoutKey ?b ?k) = Some L" using L(1) by simp
    show "ly_Checksums L = shardChecksums X es" "ly_Size L = int (length data)"
      "oi_Checksums info = ly_Checksums L" "oi_Hash info = ly_Hash L" "oi_ShardDir info = ly_ShardDir L"
      using L w(3) by simp_all
    fix i assume i: "i < length es"
    then have "(i, pls ! i, es ! i) \<in> set (zip [0..<length es] (zip pls es))"
      using lp by (auto simp: set_zip intro!: exI [of _ i])
    then obtain node where "storageNode e (pls ! i) = Inr node" "held e0 node (makeShardDir X ?k) (HashBytes X data) i = Some (es ! i)"
      using write_shards_held [OF w(2)] lp by fastforce
    moreover have "shardPlacement e L i = pls ! i"
      using PlanShardPlacement_valid(2) [OF w(1)] i lp by (simp add: shardPlacement_def pl)
    ultimately show "\<exists>node. storageNode e (shardPlacement e L i) = Inr node \<and>
        held e1 node (ly_ShardDir L) (ly_Hash L) i = Some (es ! i)"
      by (simp add: held sd)
  qed
qed

text \<open>Writing changes what is stored and nothing else of the engine.\<close>

lemma PutBlobBytes_frame:
  "same_conf e (fst (PutBlobBytes X e key data)) \<and> eng_metas (fst (PutBlobBytes X e key data)) = eng_metas e \<and>
     eng_cache (fst (PutBlobBytes X e key data)) = eng_cache e"
proof (cases "trim_space key = []")
  case False
  have "same_conf e e' \<and> eng_metas e' = eng_metas e \<and> eng_cache e' = eng_cache e"
    if "write_shards e d h xs = (e', r)" for d h xs e' r
    using write_shards_frame [of e d h xs] that by simp
  then show ?thesis
    using False by (auto simp: PutBlobBytes_def Let_def split: sum.splits prod.splits option.splits)
qed (simp add: PutBlobBytes_def)

lemma backend_WriteMeta_frame:
  "same_conf e (fst (backend_WriteMeta e d h l)) \<and> eng_chunks (fst (backend_WriteMeta e d h l)) = eng_chunks e \<and>
     eng_remote (fst (backend_WriteMeta e d h l)) = eng_remote e \<and> eng_cache (fst (backend_WriteMeta e d h l)) = eng_cache e"
  by (simp add: backend_WriteMeta_def spend_fate_def Let_def split: io_fate.split)

lemma cache_store_frame [simp]: "same_conf e (cache_store e lk l)"
  by (simp add: cache_store_def)

lemma same_conf_cache: "same_conf e e' \<Longrightarrow> same_conf e (cache_store e' lk l)"
  by (rule same_conf_trans [OF _ cache_store_frame])

lemma LinkObject_frame: "same_conf e (fst (LinkObject X e now b k blob ct t))"
proof -
  have "same_conf e e'" if "backend_WriteMeta e d h l = (e', r)" for d h l e' r
    using backend_WriteMeta_frame [of e d h l] that by simp
  then show ?thesis
    by (auto simp: LinkObject_def Let_def split: prod.splits option.splits intro!: same_conf_cache)
qed

lemma PutObject_frame: "same_conf e (fst (PutObject X e now b k data ct))"
proof -
  have "same_conf e e'" if "PutBlobBytes X e key data = (e', r)" for key e' r
    using PutBlobBytes_frame [of e X key data] that by simp
  then show ?thesis
    by (auto simp: PutObject_def Let_def split: prod.splits sum.splits intro!: same_conf_trans [OF _ LinkObject_frame])
qed

section \<open>Properties of reads\<close>

text \<open>C10: integrity: when a read succeeds, the bytes returned have the SHA-256 recorded in the object's
  layout (unless the layout records none) and exactly the recorded size, whatever happened to the
  shards on disk or on other nodes.\<close>

theorem GetObject_integrity:
  assumes "GetObject X e now bucket key = (e', Inr (data, info))"
  shows "(trim_space (oi_Hash info) = [] \<or> HashBytes X data = trim_space (oi_Hash info)) \<and>
    int (length data) = oi_Size info"
proof -
  obtain e1 l ds where d: "Decode (eng_coder e') (raw_shards ds) (ly_Size l) = Inr data"
    "snd (verifyObjectChecksum X l data) = None" "info = objectInfoFromLayout e1 now l"
    using assms by (auto simp: GetObject_def split: prod.splits sum.splits option.splits)
  then have "int (length data) = ly_Size l"
    by (auto simp: Decode_def Let_def split: if_splits sum.splits)
  then show ?thesis
    using d by (auto simp: objectInfoFromLayout_def verifyObjectChecksum_def Let_def split: if_splits)
qed

text \<open>C9: durability: after a successful write, the object reads back byte for byte even when up to \<open>m\<close> of
  its shards, wherever they are placed, are lost or altered in any way the shard checksums notice, and
  even after a restart that empties the layout cache. The erasure code, the digests and the placement
  are arbitrary; no file or node fails to answer; the shard directory of the key has no surrounding
  white space.\<close>

theorem PutObject_survives_damage:
  assumes "PutObject X e now bucket key data contentType = (e1, Inr info)"
    and "erasure_scheme (coder_k (eng_coder e)) (coder_m (eng_coder e)) (coder_scheme (eng_coder e))"
    and "eng_k e = coder_k (eng_coder e)" "hash_clean X" "quiet_io X e"
    and "trim_space (makeShardDir X (trim_space key)) = makeShardDir X (trim_space key)"
    and "shards_damaged X (oi_ShardDir info) (oi_Hash info) (oi_Checksums info) D e1 e2"
    and "finite D" "card D \<le> coder_m (eng_coder e)"
  shows "\<exists>e3 info'. GetObject X e2 later (trim_space bucket) (trim_space key) = (e3, Inr (data, info'))"
proof -
  let ?b = "trim_space bucket" and ?k = "trim_space key" and ?c = "eng_coder e"
  have ne: "data \<noteq> []"
  proof
    assume "data = []"
    then have "\<exists>err. Encode ?c data = Inl err"
      using erasure_scheme.Encode_empty [OF assms(2)] by simp
    then show False
      using assms(1) by (auto simp: PutObject_def PutBlobBytes_def Let_def split: if_splits)
  qed
  obtain ss es where es: "Encode ?c data = Inr es" "length es = coder_k ?c + coder_m ?c"
    by (rule erasure_scheme.Encode_shards [OF assms(2) refl refl refl ne])
  then have total: "length es = TotalChunks ?c" by (simp add: TotalChunks_def)
  obtain L where L: "same_conf e e1" "fmlookup (eng_cache e1) (layoutKey ?b ?k) = Some L"
    "fmlookup (eng_metas e1) (metaPath e1 (makeShardDir X ?k) (ly_ID L)) = Some (Some L)"
    "ly_ID L = layoutHash X (layoutKey ?b ?k)" "ly_ShardDir L = makeShardDir X ?k" "ly_ShardDir L \<noteq> []"
    "ly_Hash L = HashBytes X data" "ly_Checksums L = shardChecksums X es" "ly_Size L = int (length data)"
    "oi_Checksums info = ly_Checksums L" "oi_Hash info = ly_Hash L" "oi_ShardDir info = ly_ShardDir L"
    "\<And>i. i < length es \<Longrightarrow> \<exists>node. storageNode e (shardPlacement e L i) = Inr node \<and>
        held e1 node (ly_ShardDir L) (ly_Hash L) i = Some (es ! i)"
    using PutObject_success [OF assms(1,4,6) total es(1)] by blast
  have dmg: "same_conf e1 e2" "eng_metas e2 = eng_metas e1" "eng_cache e2 = eng_cache e1 \<or> eng_cache e2 = fmempty"
    "\<And>n i. i \<notin> D \<Longrightarrow> held e2 n (ly_ShardDir L) (ly_Hash L) i = held e1 n (ly_ShardDir L) (ly_Hash L) i"
    "\<And>n i x. i \<in> D \<Longrightarrow> seen e2 n (ly_ShardDir L) (ly_Hash L) i = Some x \<Longrightarrow> HashBytes X x = ly_Checksums L ! i \<Longrightarrow>
       held e1 n (ly_ShardDir L) (ly_Hash L) i = Some x"
    using assms(7) L(10-12) by (auto simp: shards_damaged_def)
  obtain e3 where g: "getLayout X e2 ?b ?k = (e3, Inr L)" "same_conf e2 e3" "eng_chunks e3 = eng_chunks e2" "eng_remote e3 = eng_remote e2"
  proof (cases "fmlookup (eng_cache e2) (layoutKey ?b ?k)")
    case (Some l)
    then have "l = L" using dmg(3) L(2) by auto
    with Some show thesis using that [of e2] by (simp add: getLayout_cached)
  next
    case None
    have "fmlookup (eng_metas e2) (metaPath e2 (makeShardDir X ?k) (layoutHash X (layoutKey ?b ?k))) = Some (Some L)"
      using L(3,4) dmg(2) same_conf_paths(2) [OF dmg(1)] by simp
    with None show thesis
      using that [of "cache_store e2 (layoutKey ?b ?k) L"] getLayout_stored L(4,6) assms(5)
      by (simp add: cache_store_def quiet_io_def)
  qed
  have conf: "same_conf e e3" using L(1) dmg(1) g(2) by (meson same_conf_trans)
  have h3: "held e3 n d h i = held e2 n d h i" "seen e3 n d h i = seen e2 n d h i" for n d h i
    using same_conf_paths(1) [OF g(2)] g(3,4) by (simp_all add: held_def seen_def split: StorageNode.split)
  have q: "quiet_io X e3" using assms(5) same_confD(10) [OF conf] by (simp add: quiet_io_def)
  define f where "f i = (case seen e3 (projr (storageNode e (shardPlacement e L i))) (ly_ShardDir L) (ly_Hash L) i of
      None \<Rightarrow> None | Some x \<Rightarrow> if HashBytes X x = ly_Checksums L ! i then Some x else None)" for i
  have f: "readShardForRecovery X e3 L i = Inr (f i)" "f i = None \<or> f i = Some (es ! i)" "i \<notin> D \<Longrightarrow> f i = Some (es ! i)"
    if i: "i < length es" for i
  proof -
    obtain node where n: "storageNode e (shardPlacement e L i) = Inr node" "held e1 node (ly_ShardDir L) (ly_Hash L) i = Some (es ! i)"
      using L(13) [OF i] by blast
    have ck: "ly_Checksums L ! i = HashBytes X (es ! i)" "i < length (ly_Checksums L)"
      using i by (simp_all add: L(8) shardChecksums_def)
    show "readShardForRecovery X e3 L i = Inr (f i)"
      using readShardForRecovery_seen [OF q _ ck(2), of node] n(1) ck assms(4)
        same_conf_storageNode [OF conf] same_conf_shardPlacement [OF conf]
      by (simp add: f_def hash_clean_def split: option.split)
    show "i \<notin> D \<Longrightarrow> f i = Some (es ! i)"
      using n dmg(4) ck by (simp add: f_def h3 seen_held)
    show "f i = None \<or> f i = Some (es ! i)"
    proof (cases "i \<in> D")
      case True
      then show ?thesis
        using dmg(5) [of i node] n by (auto simp: f_def h3 split: option.splits)
    next
      case False
      then show ?thesis using n dmg(4) ck by (simp add: f_def h3 seen_held)
    qed
  qed
  have "card ({..<TotalChunks ?c} \<inter> D) \<le> coder_m ?c"
    using assms(8,9) card_mono [of D "{..<TotalChunks ?c} \<inter> D"] by simp
  then have "GetObject X e2 later ?b ?k = (e3, Inr (data, objectInfoFromLayout e3 later L))"
    using GetObject_decodes [of e3 data es X L f D] assms(2-4) ne es(1) f total g(1) L(7,9)
      same_confD(6,9) [OF conf] by (simp add: hash_clean_def)
  then show ?thesis by blast
qed

section \<open>A concrete engine\<close>

text \<open>A digest that tells short byte strings apart, for evaluation only.\<close>

definition demo_X :: Externals where
  "demo_X = \<lparr>HashBytes = (\<lambda>d. ''h'' @ d @ ''x''), ToLower = to_lower,
     io_error = (\<lambda>_. False)\<rparr>"

definition demo_engine :: Engine where
  "demo_engine = \<lparr>nt_nodes = fmap_of_list [(''raft-1'', LocalStorageNode ''raft-1'' ''a:1'')], nt_drained = {||},
     nt_local = ''raft-1'', nt_planner = Some (SingleNodePlacementPlanner (LocalStorageNode ''raft-1'' ''a:1'')),
     nt_token = [], eng_root = [''data''], eng_k = 2, eng_m = 1, eng_shardSize = 1048576,
     eng_coder = xor_coder 2, eng_cache = fmempty, eng_chunks = fmempty, eng_metas = fmempty,
     eng_remote = fmempty, eng_down = {||}, eng_fates = []\<rparr>"

definition demo_put :: "Engine \<times> (eng_error + ObjectInfo)" where
  "demo_put = PutObject demo_X demo_engine 5 ''b'' ''key'' ''abc'' []"

text \<open>The engine after the write, a restart and the loss of chunk 0.\<close>

definition demo_damaged :: Engine where
  "demo_damaged = (fst demo_put)\<lparr>eng_cache := fmempty,
     eng_chunks := fmdrop (shardPath demo_engine ''ke'' (HashBytes demo_X ''abc'') 0) (eng_chunks (fst demo_put))\<rparr>"

lemma demo_hash_clean: "hash_clean demo_X"
  unfolding hash_clean_def
proof
  fix d :: bytes
  let ?h = "HashBytes demo_X d"
  have "plain_char (hd ?h)" by (simp add: demo_X_def plain_char_def)
  moreover have "plain_char (last ?h)" by (simp add: demo_X_def plain_char_def)
  ultimately show "trim_space ?h = ?h \<and> ?h \<noteq> []"
    using trim_space_plain [of ?h] by (simp add: demo_X_def)
qed

lemma demo_put_facts:
  "(case snd demo_put of Inl _ \<Rightarrow> False
    | Inr i \<Rightarrow> oi_ShardDir i = ''ke'' \<and> oi_Hash i = HashBytes demo_X ''abc'' \<and> oi_Checksums i ! 0 \<noteq> ''hx'')"
  "eng_root (fst demo_put) = [''data'']" "eng_remote (fst demo_put) = fmempty"
  "trim_space (makeShardDir demo_X (trim_space ''key'')) = makeShardDir demo_X (trim_space ''key'')"
  by code_simp+

lemma demo_shards_damaged:
  assumes "oi_Checksums i ! 0 \<noteq> ''hx''"
  shows "shards_damaged demo_X ''ke'' (HashBytes demo_X ''abc'') (oi_Checksums i) {0} (fst demo_put) demo_damaged"
proof -
  let ?h = "HashBytes demo_X ''abc''"
  have p: "shardPath demo_engine ''ke'' ?h j = shardPath (fst demo_put) ''ke'' ?h j"
    "shardPath demo_damaged ''ke'' ?h j = shardPath (fst demo_put) ''ke'' ?h j" for j
    using demo_put_facts(2) by (simp_all add: shardPath_def demo_engine_def demo_damaged_def)
  have held: "held demo_damaged n ''ke'' ?h j = held (fst demo_put) n ''ke'' ?h j" if "j \<noteq> 0" for n j
    using that by (cases n) (simp_all add: held_def p, simp_all add: demo_damaged_def p)
  have "seen demo_damaged n ''ke'' ?h 0 = (case n of LocalStorageNode _ _ \<Rightarrow> None | _ \<Rightarrow> Some [])" for n
    using demo_put_facts(3) by (cases n) (simp_all add: seen_def held_def p, simp_all add: demo_damaged_def p)
  moreover have "HashBytes demo_X [] = ''hx''" by (simp add: demo_X_def)
  ultimately show ?thesis
    using assms held by (auto simp: shards_damaged_def same_conf_def demo_damaged_def split: StorageNode.splits)
qed

theorem PutObject_survives_damage_witness:
  "\<exists>e3 info'. GetObject demo_X demo_damaged 9 ''b'' ''key'' = (e3, Inr (''abc'', info'))"
proof -
  obtain i where i: "snd demo_put = Inr i" "oi_ShardDir i = ''ke''" "oi_Hash i = HashBytes demo_X ''abc''"
    "oi_Checksums i ! 0 \<noteq> ''hx''"
    using demo_put_facts(1) by (auto split: sum.splits)
  have put: "PutObject demo_X demo_engine 5 ''b'' ''key'' ''abc'' [] = (fst demo_put, Inr i)"
    using i(1) by (simp add: prod_eq_iff demo_put_def)
  have c: "eng_coder demo_engine = xor_coder 2" "eng_k demo_engine = coder_k (eng_coder demo_engine)"
    "coder_m (eng_coder demo_engine) = 1"
    by (simp_all add: demo_engine_def xor_coder_def)
  have e: "erasure_scheme (coder_k (eng_coder demo_engine)) (coder_m (eng_coder demo_engine)) (coder_scheme (eng_coder demo_engine))"
    unfolding c using xor21.erasure_scheme_axioms by (simp add: xor_coder_def)
  have q: "quiet_io demo_X demo_engine"
    by (simp add: quiet_io_def demo_X_def demo_engine_def)
  have d: "shards_damaged demo_X (oi_ShardDir i) (oi_Hash i) (oi_Checksums i) {0} (fst demo_put) demo_damaged"
    using demo_shards_damaged [OF i(4)] i(2,3) by simp
  have t: "trim_space ''b'' = ''b''" "trim_space ''key'' = ''key''" by code_simp+
  show ?thesis
    using PutObject_survives_damage [OF put e c(2) demo_hash_clean q demo_put_facts(4) d, of 9] c(3) t by simp
qed

theorem GetObject_integrity_witness:
  "\<exists>data info. snd (GetObject demo_X (fst demo_put) 9 ''b'' ''key'') = Inr (data, info) \<and>
     HashBytes demo_X data = trim_space (oi_Hash info) \<and> int (length data) = 3"
proof -
  have r: "(case snd (GetObject demo_X (fst demo_put) 9 ''b'' ''key'') of Inl _ \<Rightarrow> False
      | Inr (d, i) \<Rightarrow> trim_space (oi_Hash i) \<noteq> [] \<and> oi_Size i = 3)"
    by code_simp
  obtain e' where "GetObject demo_X (fst demo_put) 9 ''b'' ''key'' = (e', snd (GetObject demo_X (fst demo_put) 9 ''b'' ''key''))"
    by (metis prod.collapse)
  with r show ?thesis
    using GetObject_integrity [of demo_X "fst demo_put" 9 "''b''" "''key''" e']
    by (auto split: sum.splits)
qed

end
