(* ===== verification/Engine_Maintenance.thy ===== *)
theory Engine_Maintenance
  imports Engine_Objects
begin

text \<open>
  Maintenance of the engine's shards: repair of one object (\<open>repair.go\<close>), moving an object's shards off a
  node (\<open>rebalance.go\<close>) and removing shard sets no blob refers to (\<open>orphan.go\<close>), all under
  \<open>internal/engine\<close>. The engine hands out its cached layouts by pointer, so that changing the placements of
  a layout changes the cached one; errors while a directory is listed are not modelled.
\<close>

section \<open>Repair\<close>

record RepairResult =
  rr_HealthBefore :: Health
  rr_HealthAfter :: "Health option"
  rr_Repaired :: "nat list"

fun read_repair_shards :: "Externals \<Rightarrow> Engine \<Rightarrow> Layout \<Rightarrow> nat list \<Rightarrow>
    eng_error + shards \<times> nat list" where
  "read_repair_shards X e layout [] = Inr ([], [])"
| "read_repair_shards X e layout (i # is) =
     (case (case readShard X e layout i of
              Inl err \<Rightarrow> if isUnavailableShardError err then Inr None else Inl err
            | Inr data \<Rightarrow> Inr data) of
        Inl err \<Rightarrow> Inl err
      | Inr data \<Rightarrow>
          (case read_repair_shards X e layout is of
             Inl err \<Rightarrow> Inl err
           | Inr (ss, missing) \<Rightarrow>
               (case data of
                  None \<Rightarrow> Inr ([] # ss, i # missing)
                | Some d \<Rightarrow> Inr (d # ss, missing))))"

definition readRepairShards :: "Externals \<Rightarrow> Engine \<Rightarrow> Layout \<Rightarrow> eng_error + shards \<times> nat list" where
  "readRepairShards X e layout = read_repair_shards X e layout [0..<TotalChunks (eng_coder e)]"

fun writeRepairedShards :: "Engine \<Rightarrow> Layout \<Rightarrow> shards \<Rightarrow> nat list \<Rightarrow> Engine \<times> eng_error option" where
  "writeRepairedShards e layout ss [] = (e, None)"
| "writeRepairedShards e layout ss (index # missing) =
     (if ss ! index = [] \<and> ly_Size layout > 0 then (e, Some EShardRecoveryFailed)
      else case writeShard e (shardPlacement e layout index) (ly_ShardDir layout) (ly_Hash layout) index (ss ! index) of
        (e, Some err) \<Rightarrow> (e, Some err)
      | (e, None) \<Rightarrow> writeRepairedShards e layout ss missing)"

text \<open>The result is returned beside the error; \<open>None\<close> is the zero result.\<close>

definition RepairObject :: "Externals \<Rightarrow> Engine \<Rightarrow> string \<Rightarrow> string \<Rightarrow>
    Engine \<times> RepairResult option \<times> eng_error option" where
  "RepairObject X e bucket key =
     (case getLayout X e bucket key of
        (e, Inl err) \<Rightarrow> (e, None, Some err)
      | (e, Inr layout) \<Rightarrow>
          let before = healthFromLayout X e layout;
              result = \<lparr>rr_HealthBefore = before, rr_HealthAfter = None, rr_Repaired = []\<rparr>
          in if he_Missing before = 0 \<and> he_Corrupted before = 0
             then (e, Some (result\<lparr>rr_HealthAfter := Some before\<rparr>), None)
             else if \<not> he_Recoverable before
             then (e, Some (result\<lparr>rr_HealthAfter := Some before\<rparr>), Some EShardRecoveryFailed)
             else case readRepairShards X e layout of
               Inl err \<Rightarrow> (e, Some result, Some err)
             | Inr (ss, missing) \<Rightarrow>
                 (case Rebuild (eng_coder e) ss of
                    Inl _ \<Rightarrow> (e, Some result, Some EShardRecoveryFailed)
                  | Inr rebuilt \<Rightarrow>
                      (case writeRepairedShards e layout rebuilt missing of
                         (e, Some err) \<Rightarrow> (e, Some result, Some err)
                       | (e, None) \<Rightarrow>
                           (e, Some (result\<lparr>rr_Repaired := missing,
                                rr_HealthAfter := Some (healthFromLayout X e layout)\<rparr>), None))))"

section \<open>Rebalancing\<close>

record ShardMove =
  mv_Index :: nat
  mv_From :: ShardPlacement
  mv_To :: ShardPlacement

record RebalanceObjectResult =
  rb_Object :: ObjectInfo
  rb_Moved :: "ShardMove list"
  rb_CleanupErrors :: "eng_error list"

text \<open>A missing shard reads as nil and is written as an empty chunk.\<close>

definition moveShard ::
  "Externals \<Rightarrow> Engine \<Rightarrow> Layout \<Rightarrow> nat \<Rightarrow> ShardPlacement \<Rightarrow> Engine \<times> eng_error option" where
  "moveShard X e layout index target =
     (case readShard X e layout index of
        Inl err \<Rightarrow> (e, Some err)
      | Inr data \<Rightarrow>
          writeShard e target (ly_ShardDir layout) (ly_Hash layout) index
            (case data of None \<Rightarrow> [] | Some d \<Rightarrow> d))"

text \<open>The loop over the placements from index \<open>i\<close> on.\<close>

fun rebalance_placements :: "Externals \<Rightarrow> Engine \<Rightarrow> Layout \<Rightarrow> string \<Rightarrow> nat \<Rightarrow> ShardPlacement list \<Rightarrow>
    Engine \<times> (eng_error + ShardPlacement list \<times> ShardMove list)" where
  "rebalance_placements X e layout fromNodeID i [] = (e, Inr ([], []))"
| "rebalance_placements X e layout fromNodeID i (p # ps) =
     (if pl_node p \<noteq> fromNodeID
      then (case rebalance_placements X e layout fromNodeID (Suc i) ps of
              (e, Inl err) \<Rightarrow> (e, Inl err)
            | (e, Inr (ps', moved)) \<Rightarrow> (e, Inr (p # ps', moved)))
      else case rebalanceTargetPlacement e i fromNodeID of
        Inl err \<Rightarrow> (e, Inl (EOther err))
      | Inr target \<Rightarrow>
          (case moveShard X e layout i target of
             (e, Some err) \<Rightarrow> (e, Inl err)
           | (e, None) \<Rightarrow>
               (case rebalance_placements X e layout fromNodeID (Suc i) ps of
                  (e, Inl err) \<Rightarrow> (e, Inl err)
                | (e, Inr (ps', moved)) \<Rightarrow>
                    (e, Inr (target # ps', \<lparr>mv_Index = i, mv_From = p, mv_To = target\<rparr> # moved)))))"

definition rebalanceLayoutPlacements :: "Externals \<Rightarrow> Engine \<Rightarrow> Layout \<Rightarrow> string \<Rightarrow>
    Engine \<times> (eng_error + ShardPlacement list \<times> ShardMove list)" where
  "rebalanceLayoutPlacements X e layout fromNodeID =
     rebalance_placements X e layout fromNodeID 0 (ly_Placements layout)"

definition persistLayout :: "Externals \<Rightarrow> Engine \<Rightarrow> Layout \<Rightarrow> Engine \<times> eng_error option" where
  "persistLayout X e layout =
     (let layout = (if ly_ID layout = []
                    then layout\<lparr>ly_ID := layoutHash X (layoutKey (ly_Bucket layout) (ly_Key layout))\<rparr>
                    else layout)
      in case backend_WriteMeta e (ly_ShardDir layout) (ly_ID layout) layout of
           (e, Some err) \<Rightarrow> (e, Some err)
         | (e, None) \<Rightarrow> (cache_store e (layoutKey (ly_Bucket layout) (ly_Key layout)) layout, None))"

fun cleanupMovedShards :: "Engine \<Rightarrow> Layout \<Rightarrow> ShardMove list \<Rightarrow> Engine \<times> eng_error list" where
  "cleanupMovedShards e layout [] = (e, [])"
| "cleanupMovedShards e layout (m # moved) =
     (case deleteShard e (mv_From m) (ly_ShardDir layout) (ly_Hash layout) (mv_Index m) of
        (e, r) \<Rightarrow>
          (case cleanupMovedShards e layout moved of
             (e, errs) \<Rightarrow> (e, (case r of None \<Rightarrow> errs | Some err \<Rightarrow> err # errs))))"

definition RebalanceObjectFromNode :: "Externals \<Rightarrow> Engine \<Rightarrow> time \<Rightarrow> string \<Rightarrow> string \<Rightarrow> string \<Rightarrow>
    Engine \<times> (eng_error + RebalanceObjectResult)" where
  "RebalanceObjectFromNode X e now bucket key fromNodeID =
     (if fromNodeID = [] then (e, Inl (EOther ''rebalance source node id is required''))
      else case getLayout X e bucket key of
        (e, Inl err) \<Rightarrow> (e, Inl err)
      | (e, Inr layout) \<Rightarrow>
          (case rebalanceLayoutPlacements X e layout fromNodeID of
             (e, Inl err) \<Rightarrow> (e, Inl err)
           | (e, Inr (placements, moved)) \<Rightarrow>
               if moved = []
               then (e, Inr \<lparr>rb_Object = objectInfoFromLayout e now layout, rb_Moved = [], rb_CleanupErrors = []\<rparr>)
               else let layout = layout\<lparr>ly_Placements := placements\<rparr>;
                        e = cache_store e (layoutKey bucket key) layout
                    in case persistLayout X e layout of
                         (e, Some err) \<Rightarrow> (e, Inl err)
                       | (e, None) \<Rightarrow>
                           (case cleanupMovedShards e layout moved of
                              (e, errs) \<Rightarrow>
                                (e, Inr \<lparr>rb_Object = objectInfoFromLayout e now layout, rb_Moved = moved,
                                         rb_CleanupErrors = errs\<rparr>))))"

section \<open>Orphan shard sets\<close>

type_synonym shard_set = "string \<times> string"

record OrphanShardCleanupResult =
  oc_Scanned :: nat
  oc_Removed :: nat
  oc_Orphans :: "shard_set list"

text \<open>Directories two levels below the root that hold a chunk file, in directory order.\<close>

definition localShardSets :: "Engine \<Rightarrow> shard_set list" where
  "localShardSets e =
     remdups (map (\<lambda>p. let q = drop (length (eng_root e)) p in (q ! 0, q ! 1))
       (filter (\<lambda>p. below (eng_root e) p \<and> length p = length (eng_root e) + 3 \<and> has_prefix (last p) ''chunk-'')
          (fm_keys (eng_chunks e))))"

definition shardSetKey :: "string \<Rightarrow> string \<Rightarrow> string" where
  "shardSetKey shardDir hash = shardDir @ CHR 0x00 # hash"

definition liveShardSetMap :: "shard_set list \<Rightarrow> string list" where
  "liveShardSetMap refs =
     map (\<lambda>(d, h). shardSetKey (trim_space d) (trim_space h))
       (filter (\<lambda>(d, h). trim_space d \<noteq> [] \<and> trim_space h \<noteq> []) refs)"

fun cleanup_shard_sets :: "Engine \<Rightarrow> string list \<Rightarrow> bool \<Rightarrow> OrphanShardCleanupResult \<Rightarrow> shard_set list \<Rightarrow>
    Engine \<times> OrphanShardCleanupResult \<times> eng_error option" where
  "cleanup_shard_sets e live dryRun result [] = (e, result, None)"
| "cleanup_shard_sets e live dryRun result ((d, h) # sets) =
     (if shardSetKey d h \<in> set live then cleanup_shard_sets e live dryRun result sets
      else let result = result\<lparr>oc_Orphans := oc_Orphans result @ [(d, h)]\<rparr> in
        if dryRun then cleanup_shard_sets e live dryRun result sets
        else case DeleteBlob e d h of
          (e, Some err) \<Rightarrow> (e, result, Some err)
        | (e, None) \<Rightarrow>
            cleanup_shard_sets e live dryRun (result\<lparr>oc_Removed := Suc (oc_Removed result)\<rparr>) sets)"

definition CleanupOrphanShardSets :: "Engine \<Rightarrow> shard_set list \<Rightarrow> bool \<Rightarrow>
    Engine \<times> OrphanShardCleanupResult \<times> eng_error option" where
  "CleanupOrphanShardSets e liveRefs dryRun =
     (let local_sets = localShardSets e in
      cleanup_shard_sets e (liveShardSetMap liveRefs) dryRun
        \<lparr>oc_Scanned = length local_sets, oc_Removed = 0, oc_Orphans = []\<rparr> local_sets)"

section \<open>Repair restores every shard\<close>

text \<open>The layout describes an encoded object: its checksums are those of the shards \<open>es\<close>, every placement names a
  registered node, and what a node shows for a shard is the shard itself or fails its checksum.\<close>

definition stored_as :: "Externals \<Rightarrow> Engine \<Rightarrow> Layout \<Rightarrow> shards \<Rightarrow> bool" where
  "stored_as X e L es \<longleftrightarrow> length es = TotalChunks (eng_coder e) \<and> ly_Checksums L = shardChecksums X es \<and>
     (\<forall>i < length es. \<exists>n. storageNode e (shardPlacement e L i) = Inr n \<and>
        (\<forall>x. seen e n (ly_ShardDir L) (ly_Hash L) i = Some x \<longrightarrow> HashBytes X x = HashBytes X (es ! i) \<longrightarrow> x = es ! i))"

definition shown :: "Externals \<Rightarrow> Engine \<Rightarrow> Layout \<Rightarrow> shards \<Rightarrow> nat \<Rightarrow> bytes option" where
  "shown X e L es i =
     (case seen e (projr (storageNode e (shardPlacement e L i))) (ly_ShardDir L) (ly_Hash L) i of
        None \<Rightarrow> None | Some x \<Rightarrow> if HashBytes X x = HashBytes X (es ! i) then Some x else None)"

lemma stored_as_read:
  assumes "stored_as X e L es" "quiet_io X e" "hash_clean X" "i < length es"
  shows "readShardForRecovery X e L i = Inr (shown X e L es i)" "shown X e L es i = None \<or> shown X e L es i = Some (es ! i)"
proof -
  obtain n where n: "storageNode e (shardPlacement e L i) = Inr n"
    "\<And>x. seen e n (ly_ShardDir L) (ly_Hash L) i = Some x \<Longrightarrow> HashBytes X x = HashBytes X (es ! i) \<Longrightarrow> x = es ! i"
    using assms(1,4) by (auto simp: stored_as_def)
  have ck: "i < length (ly_Checksums L)" "trim_space (ly_Checksums L ! i) = HashBytes X (es ! i)"
    using assms(1,3,4) by (simp_all add: stored_as_def shardChecksums_def hash_clean_def)
  show "readShardForRecovery X e L i = Inr (shown X e L es i)"
    using readShardForRecovery_seen [OF assms(2) n(1) ck] assms(3) n(1)
    by (simp add: shown_def hash_clean_def split: option.split)
  show "shown X e L es i = None \<or> shown X e L es i = Some (es ! i)"
    using n by (auto simp: shown_def split: option.split)
qed

lemma shard_state_recovery:
  "readShardForRecovery X e L i = Inr d \<Longrightarrow> (shard_state X e L i = ShardAvailable) = (d \<noteq> None)"
  by (auto simp: readShardForRecovery_def shard_state_def split: sum.splits eng_error.splits option.splits if_splits)

lemma readRepairShards_all:
  assumes "\<And>i. i \<in> set is \<Longrightarrow> readShardForRecovery X e L i = Inr (f i)"
  shows "read_repair_shards X e L is = Inr (raw_shards (map f is), filter (\<lambda>i. f i = None) is)"
  using assms
proof (induction "is")
  case (Cons i js)
  have "(case readShard X e L i of Inl err \<Rightarrow> if isUnavailableShardError err then Inr None else Inl err
      | Inr data \<Rightarrow> Inr data) = readShardForRecovery X e L i"
    by (simp add: readShardForRecovery_def)
  then show ?case
    using Cons by (auto simp: raw_shards_def split: option.splits)
qed (simp add: raw_shards_def)

lemma writeRepairedShards_write:
  assumes "\<And>i. i \<in> set missing \<Longrightarrow> ss ! i \<noteq> []" "same_conf e0 e"
  shows "writeRepairedShards e L ss missing =
    write_shards e (ly_ShardDir L) (ly_Hash L) (map (\<lambda>i. (i, shardPlacement e0 L i, ss ! i)) missing)"
  using assms
proof (induction missing arbitrary: e)
  case (Cons i js)
  obtain e1 r where w: "writeShard e (shardPlacement e0 L i) (ly_ShardDir L) (ly_Hash L) i (ss ! i) = (e1, r)" by fastforce
  have "same_conf e0 e1"
    using writeShard_frame [of e "shardPlacement e0 L i" "ly_ShardDir L" "ly_Hash L" i "ss ! i"] w Cons.prems(2)
    by (auto intro: same_conf_trans)
  then show ?case
    using Cons w same_conf_shardPlacement [OF Cons.prems(2)] by (auto split: option.splits)
qed simp

lemma writeShard_total:
  assumes "eng_fates e = []" "eng_down e = {||}" "storageNode e p = Inr n"
  obtains e1 where "writeShard e p d h i x = (e1, None)" "eng_fates e1 = []" "same_conf e e1"
  using assms writeShard_frame [of e p d h i x]
  by (cases n) (auto simp: writeShard_def node_WriteShard_def backend_WriteShard_def remote_WriteShard_def
      next_fate_def spend_fate_def Let_def)

lemma write_shards_total:
  assumes "eng_fates e = []" "eng_down e = {||}" "\<forall>(i, p, x) \<in> set xs. \<exists>n. storageNode e p = Inr n"
  shows "\<exists>e'. write_shards e d h xs = (e', None)"
  using assms
proof (induction xs arbitrary: e)
  case (Cons y xs)
  obtain i p x where y: "y = (i, p, x)" by (cases y)
  obtain n where n: "storageNode e p = Inr n" using Cons.prems(3) by (auto simp: y)
  obtain e1 where w: "writeShard e p d h i x = (e1, None)" "eng_fates e1 = []" "same_conf e e1"
    using writeShard_total [OF Cons.prems(1,2) n] .
  have "\<exists>e'. write_shards e1 d h xs = (e', None)"
    using Cons.IH [OF w(2)] Cons.prems w(3) same_conf_storageNode [OF w(3)] same_confD(10) [OF w(3)] by simp
  then show ?case using w(1) by (simp add: y)
qed simp

lemma healthFromLayout_all:
  assumes "\<And>i. i < TotalChunks (eng_coder e) \<Longrightarrow> readShardForRecovery X e L i = Inr (f i)"
  shows "he_Available (healthFromLayout X e L) = length (filter (\<lambda>i. f i \<noteq> None) [0..<TotalChunks (eng_coder e)])"
    and "(\<And>i. i < TotalChunks (eng_coder e) \<Longrightarrow> f i \<noteq> None) \<Longrightarrow>
      he_Available (healthFromLayout X e L) = TotalChunks (eng_coder e) \<and>
      he_Missing (healthFromLayout X e L) = 0 \<and> he_Corrupted (healthFromLayout X e L) = 0"
proof -
  let ?t = "TotalChunks (eng_coder e)"
  have st: "(shard_state X e L i = ShardAvailable) = (f i \<noteq> None)" if "i < ?t" for i
    using shard_state_recovery [OF assms [OF that]] .
  have "filter (\<lambda>i. shard_state X e L i = ShardAvailable) [0..<?t] = filter (\<lambda>i. f i \<noteq> None) [0..<?t]"
    using st by (intro filter_cong) auto
  then show a: "he_Available (healthFromLayout X e L) = length (filter (\<lambda>i. f i \<noteq> None) [0..<?t])"
    by (simp add: healthFromLayout_def Let_def filter_map comp_def)
  assume all: "\<And>i. i < ?t \<Longrightarrow> f i \<noteq> None"
  then have av: "shard_state X e L i = ShardAvailable" if "i < ?t" for i
    using st that by blast
  then show "he_Available (healthFromLayout X e L) = ?t \<and> he_Missing (healthFromLayout X e L) = 0 \<and>
      he_Corrupted (healthFromLayout X e L) = 0"
    by (auto simp: healthFromLayout_def Let_def filter_map comp_def filter_empty_conv filter_id_conv)
qed

text \<open>The heart of the matter: after the missing shards of an encoded object are written back, every shard reads.\<close>

lemma repaired_reads:
  assumes "stored_as X e L es" "quiet_io X e" "hash_clean X"
    and "write_shards e (ly_ShardDir L) (ly_Hash L)
      (map (\<lambda>i. (i, shardPlacement e L i, es ! i)) (filter (\<lambda>i. shown X e L es i = None) [0..<length es])) = (e', None)"
    and "i < length es"
  shows "readShardForRecovery X e' L i = Inr (Some (es ! i))"
proof -
  let ?ms = "filter (\<lambda>i. shown X e L es i = None) [0..<length es]"
  let ?xs = "map (\<lambda>i. (i, shardPlacement e L i, es ! i)) ?ms"
  have conf: "same_conf e e'"
    using write_shards_frame [of e "ly_ShardDir L" "ly_Hash L" ?xs] assms(4) by simp
  have d: "distinct (map fst ?xs)" by (simp add: comp_def)
  note w = write_shards_held [OF assms(4) d]
  obtain n where n: "storageNode e (shardPlacement e L i) = Inr n"
    using assms(1,5) by (auto simp: stored_as_def)
  have "seen e' n (ly_ShardDir L) (ly_Hash L) i = Some (es ! i)"
  proof (cases "shown X e L es i = None")
    case True
    then have "(i, shardPlacement e L i, es ! i) \<in> set ?xs" using assms(5) by auto
    then have "held e' n (ly_ShardDir L) (ly_Hash L) i = Some (es ! i)" using w n by fastforce
    then show ?thesis by (rule seen_held)
  next
    case False
    then have "i \<notin> fst ` set ?xs" by auto
    then have "held e' n (ly_ShardDir L) (ly_Hash L) i = held e n (ly_ShardDir L) (ly_Hash L) i" using w by blast
    then have "seen e' n (ly_ShardDir L) (ly_Hash L) i = seen e n (ly_ShardDir L) (ly_Hash L) i"
      by (cases n) (simp_all add: seen_def)
    then show ?thesis
      using False stored_as_read(2) [OF assms(1-3,5)] n by (auto simp: shown_def split: option.splits if_splits)
  qed
  moreover have "quiet_io X e'" using assms(2) same_confD(10) [OF conf] by (simp add: quiet_io_def)
  moreover have "i < length (ly_Checksums L)" "trim_space (ly_Checksums L ! i) = HashBytes X (es ! i)"
    using assms(1,3,5) by (simp_all add: stored_as_def shardChecksums_def hash_clean_def)
  ultimately show ?thesis
    using readShardForRecovery_seen [of X e' L i n] n same_conf_storageNode [OF conf] same_conf_shardPlacement [OF conf] assms(3)
    by (simp add: hash_clean_def)
qed

lemma present_shown:
  assumes "list_all (\<lambda>s. s \<noteq> []) es" "length es = t" "\<And>i. i < t \<Longrightarrow> f i = None \<or> f i = Some (es ! i)"
  shows "present (raw_shards (map f [0..<t])) = length (filter (\<lambda>i. f i \<noteq> None) [0..<t])"
proof -
  have "(case f i of None \<Rightarrow> [] | Some x \<Rightarrow> x) \<noteq> [] \<longleftrightarrow> f i \<noteq> None" if "i < t" for i
    using assms(3) [OF that] assms(1,2) that by (auto simp: list_all_length)
  then have "filter (\<lambda>i. (case f i of None \<Rightarrow> [] | Some x \<Rightarrow> x) \<noteq> []) [0..<t] = filter (\<lambda>i. f i \<noteq> None) [0..<t]"
    by (intro filter_cong) auto
  then show ?thesis
    by (simp add: present_def raw_shards_def filter_map comp_def)
qed

text \<open>All shards of a layout are in place and intact.\<close>

definition whole :: "Externals \<Rightarrow> Engine \<Rightarrow> Layout \<Rightarrow> shards \<Rightarrow> bool" where
  "whole X e L es \<longleftrightarrow> map (readShardForRecovery X e L) [0..<TotalChunks (eng_coder e)] = map (Inr \<circ> Some) es \<and>
     he_Available (healthFromLayout X e L) = TotalChunks (eng_coder e) \<and>
     he_Missing (healthFromLayout X e L) = 0 \<and> he_Corrupted (healthFromLayout X e L) = 0"

lemma wholeI:
  assumes "length es = TotalChunks (eng_coder e)"
    and "\<And>i. i < length es \<Longrightarrow> readShardForRecovery X e L i = Inr (Some (es ! i))"
  shows "whole X e L es"
  using healthFromLayout_all(2) [of e X L "\<lambda>i. Some (es ! i)"] assms
  by (auto simp: whole_def intro: nth_equalityI)

lemma healthy_whole:
  assumes "stored_as X e L es" "quiet_io X e" "hash_clean X"
    and "he_Missing (healthFromLayout X e L) = 0" "he_Corrupted (healthFromLayout X e L) = 0"
  shows "whole X e L es"
proof (rule wholeI)
  show t: "length es = TotalChunks (eng_coder e)" using assms(1) by (simp add: stored_as_def)
  fix i assume i: "i < length es"
  have "shard_state X e L i \<noteq> ShardMissing" "shard_state X e L i \<noteq> ShardCorrupted"
    using assms(4,5) i t by (auto simp: healthFromLayout_def Let_def filter_empty_conv)
  then have "shard_state X e L i = ShardAvailable" by (cases "shard_state X e L i") auto
  then have "shown X e L es i \<noteq> None"
    using shard_state_recovery [OF stored_as_read(1) [OF assms(1-3) i]] by simp
  then show "readShardForRecovery X e L i = Inr (Some (es ! i))"
    using stored_as_read [OF assms(1-3) i] by auto
qed

text \<open>What \<open>RepairObject\<close> does to an encoded object: nothing, refuse, or write the missing shards back.\<close>

lemma RepairObject_writes:
  assumes scheme: "erasure_scheme (coder_k (eng_coder e)) (coder_m (eng_coder e)) (coder_scheme (eng_coder e))"
    and "eng_k e = coder_k (eng_coder e)" "hash_clean X" "quiet_io X e"
    and data: "data \<noteq> []" "Encode (eng_coder e) data = Inr es"
    and "fmlookup (eng_cache e) (layoutKey bucket key) = Some L" "stored_as X e L es"
  defines "h \<equiv> healthFromLayout X e L"
  assumes damaged: "he_Missing h \<noteq> 0 \<or> he_Corrupted h \<noteq> 0" and rec: "he_Recoverable h"
  obtains rs where "RepairObject X e bucket key =
    (case write_shards e (ly_ShardDir L) (ly_Hash L)
        (map (\<lambda>i. (i, shardPlacement e L i, es ! i)) (filter (\<lambda>i. shown X e L es i = None) [0..<length es])) of
       (e', Some err) \<Rightarrow> (e', Some \<lparr>rr_HealthBefore = h, rr_HealthAfter = None, rr_Repaired = []\<rparr>, Some err)
     | (e', None) \<Rightarrow> (e', Some (rs e'), None))"
proof -
  let ?t = "TotalChunks (eng_coder e)" and ?f = "shown X e L es"
  let ?ms = "filter (\<lambda>i. ?f i = None) [0..<?t]"
  have t: "length es = ?t" using assms(8) by (simp add: stored_as_def)
  note rd = stored_as_read [OF assms(8,4,3), unfolded t]
  obtain ss es' where "Encode (eng_coder e) data = Inr es'" "0 < shard_size (coder_k (eng_coder e)) data"
    "list_all (\<lambda>s. length s = shard_size (coder_k (eng_coder e)) data) es'"
    by (rule erasure_scheme.Encode_shards [OF scheme refl refl refl data(1)])
  then have ne: "list_all (\<lambda>s. s \<noteq> []) es" using data(2) by (auto simp: list_all_iff)
  have rr: "readRepairShards X e L = Inr (raw_shards (map ?f [0..<?t]), ?ms)"
    unfolding readRepairShards_def using rd(1) by (intro readRepairShards_all) simp
  have "coder_k (eng_coder e) \<le> length (filter (\<lambda>i. ?f i \<noteq> None) [0..<?t])"
    using rec assms(2) healthFromLayout_all(1) [of e X L ?f, OF rd(1)] by (simp add: h_def healthFromLayout_def Let_def)
  then have "Rebuild (eng_coder e) (raw_shards (map ?f [0..<?t])) = Inr es"
    using rd(2) t present_shown [OF ne t rd(2)]
    by (intro erasure_scheme.Rebuild_Encode [OF scheme refl refl refl data] erased_raw) auto
  moreover have "writeRepairedShards e L es ?ms =
      write_shards e (ly_ShardDir L) (ly_Hash L) (map (\<lambda>i. (i, shardPlacement e L i, es ! i)) ?ms)"
    using ne t by (intro writeRepairedShards_write) (auto simp: list_all_length)
  ultimately show thesis
    using damaged rec getLayout_cached [OF assms(7)] rr t
    by (intro that [of "\<lambda>e'. \<lparr>rr_HealthBefore = h, rr_HealthAfter = Some (healthFromLayout X e' L), rr_Repaired = ?ms\<rparr>"])
       (auto simp: RepairObject_def h_def Let_def split: prod.split option.split)
qed

text \<open>C12: repair: for an object whose layout describes it (its shards were encoded from the data, its
  placements name registered nodes, damage is what checksums notice), a repair that reports no error
  leaves every shard in place and intact, so that the object has all its redundancy again; and when at
  least \<open>k\<close> shards are intact and no write fails, the repair does report no error.\<close>

theorem RepairObject_restores:
  assumes "erasure_scheme (coder_k (eng_coder e)) (coder_m (eng_coder e)) (coder_scheme (eng_coder e))"
    and "eng_k e = coder_k (eng_coder e)" "hash_clean X" "quiet_io X e"
    and "data \<noteq> []" "Encode (eng_coder e) data = Inr es"
    and "fmlookup (eng_cache e) (layoutKey bucket key) = Some L" "stored_as X e L es"
  shows "(\<forall>e' r. RepairObject X e bucket key = (e', r, None) \<longrightarrow> whole X e' L es) \<and>
    (eng_fates e = [] \<longrightarrow> he_Recoverable (healthFromLayout X e L) \<longrightarrow>
      (\<exists>e' r. RepairObject X e bucket key = (e', r, None)))"
proof -
  let ?h = "healthFromLayout X e L"
  let ?xs = "map (\<lambda>i. (i, shardPlacement e L i, es ! i)) (filter (\<lambda>i. shown X e L es i = None) [0..<length es])"
  let ?w = "write_shards e (ly_ShardDir L) (ly_Hash L) ?xs"
  have g: "getLayout X e bucket key = (e, Inr L)" using assms(7) by (rule getLayout_cached)
  show ?thesis
  proof (cases "he_Missing ?h = 0 \<and> he_Corrupted ?h = 0")
    case True
    then show ?thesis
      using healthy_whole [OF assms(8,4,3)] by (simp add: RepairObject_def g Let_def)
  next
    case damaged: False
    show ?thesis
    proof (cases "he_Recoverable ?h")
      case False
      then show ?thesis using damaged by (auto simp: RepairObject_def g Let_def)
    next
      case True
      obtain rs where r: "RepairObject X e bucket key = (case ?w of
          (e', Some err) \<Rightarrow> (e', Some \<lparr>rr_HealthBefore = ?h, rr_HealthAfter = None, rr_Repaired = []\<rparr>, Some err)
        | (e', None) \<Rightarrow> (e', Some (rs e'), None))"
        by (rule RepairObject_writes [OF assms _ True]) (use damaged in auto)
      have "whole X e' L es" if "?w = (e', None)" for e'
        using repaired_reads [OF assms(8,4,3) that] write_shards_frame [of e "ly_ShardDir L" "ly_Hash L" ?xs] that assms(8)
        by (intro wholeI) (auto simp: same_confD(9) stored_as_def)
      moreover have "eng_fates e = [] \<Longrightarrow> \<exists>e'. ?w = (e', None)"
        using assms(4,8) by (intro write_shards_total) (auto simp: quiet_io_def stored_as_def)
      ultimately show ?thesis
        using r by (auto split: prod.splits option.splits)
    qed
  qed
qed

text \<open>The object of the concrete engine with chunk 1 altered on disk.\<close>

definition demo_corrupt :: Engine where
  "demo_corrupt = (fst demo_put)\<lparr>eng_chunks :=
     fmupd (shardPath demo_engine ''ke'' (HashBytes demo_X ''abc'') 1) ''!!'' (eng_chunks (fst demo_put))\<rparr>"

definition demo_layout :: Layout where
  "demo_layout = the (fmlookup (eng_cache demo_corrupt) (layoutKey ''b'' ''key''))"

definition demo_shards :: shards where
  "demo_shards = [''ab'', [CHR ''c'', CHR 0x00], [CHR 0x02, CHR ''b'']]"

lemma demo_corrupt_facts:
  "fmlookup (eng_cache demo_corrupt) (layoutKey ''b'' ''key'') \<noteq> None"
  "ly_Checksums demo_layout = shardChecksums demo_X demo_shards"
  "list_all (\<lambda>i. storageNode demo_corrupt (shardPlacement demo_corrupt demo_layout i) =
     Inr (LocalStorageNode ''raft-1'' ''a:1'')) [0..<3]"
  "Encode (xor_coder 2) ''abc'' = Inr demo_shards"
  "he_Corrupted (healthFromLayout demo_X demo_corrupt demo_layout) = 1"
  "he_Recoverable (healthFromLayout demo_X demo_corrupt demo_layout)" "eng_fates demo_corrupt = []"
  by code_simp+

lemma demo_corrupt_conf: "same_conf demo_engine demo_corrupt"
  using PutObject_frame [of demo_engine demo_X 5 "''b''" "''key''" "''abc''" "[]"]
  by (auto simp: demo_corrupt_def demo_put_def intro: same_conf_trans)

theorem RepairObject_restores_witness:
  "\<exists>e' r. RepairObject demo_X demo_corrupt ''b'' ''key'' = (e', r, None) \<and> whole demo_X e' demo_layout demo_shards"
proof -
  have c: "eng_coder demo_corrupt = xor_coder 2" "eng_k demo_corrupt = 2" "eng_down demo_corrupt = {||}"
    using same_confD [OF demo_corrupt_conf] by (simp_all add: demo_engine_def)
  have e: "erasure_scheme (coder_k (eng_coder demo_corrupt)) (coder_m (eng_coder demo_corrupt)) (coder_scheme (eng_coder demo_corrupt))"
    unfolding c using xor21.erasure_scheme_axioms by (simp add: xor_coder_def)
  have k: "eng_k demo_corrupt = coder_k (eng_coder demo_corrupt)" by (simp add: c xor_coder_def)
  have q: "quiet_io demo_X demo_corrupt" by (simp add: quiet_io_def demo_X_def c)
  have enc: "Encode (eng_coder demo_corrupt) ''abc'' = Inr demo_shards" using demo_corrupt_facts(4) c by simp
  have l: "fmlookup (eng_cache demo_corrupt) (layoutKey ''b'' ''key'') = Some demo_layout"
    using demo_corrupt_facts(1) by (auto simp: demo_layout_def)
  have s: "stored_as demo_X demo_corrupt demo_layout demo_shards"
    using demo_corrupt_facts(2,3)
    by (auto simp: stored_as_def c xor_coder_def TotalChunks_def demo_shards_def list_all_iff demo_X_def)
  show ?thesis
    using RepairObject_restores [OF e k demo_hash_clean q _ enc l s] demo_corrupt_facts(6,7) by fastforce
qed

section \<open>Rebalancing keeps every shard readable\<close>

text \<open>Which store a node writes to: the local one, or that of a remote node.\<close>

definition slot :: "StorageNode \<Rightarrow> string option" where
  "slot n = (case n of LocalStorageNode _ _ \<Rightarrow> None | remoteStorageNode _ _ _ _ \<Rightarrow> Some (node_ID n))"

lemma deleteShard_frame:
  "same_conf e (fst (deleteShard e p d h i)) \<and> eng_metas (fst (deleteShard e p d h i)) = eng_metas e \<and>
     eng_cache (fst (deleteShard e p d h i)) = eng_cache e"
  by (simp add: deleteShard_def node_DeleteShard_def backend_DeleteShard_def remote_DeleteShard_def spend_fate_def
      Let_def split: sum.split StorageNode.split io_fate.split)

lemma deleteShard_held:
  assumes "storageNode e p = Inr nf" "slot n \<noteq> slot nf \<or> j \<noteq> i"
  shows "held (fst (deleteShard e p d h i)) n d h j = held e n d h j"
proof -
  let ?e = "fst (deleteShard e p d h i)"
  have path: "shardPath ?e d h j = shardPath e d h j"
    using deleteShard_frame same_conf_paths(1) by blast
  have c: "eng_chunks ?e = eng_chunks e \<or> slot nf = None \<and> eng_chunks ?e = fmdrop (shardPath e d h i) (eng_chunks e)"
    and r: "eng_remote ?e = eng_remote e \<or> slot nf = Some (node_ID nf) \<and>
      eng_remote ?e = fmdrop (node_ID nf, remote_path d h i) (eng_remote e)"
    by (cases nf; auto simp: deleteShard_def assms(1) node_DeleteShard_def backend_DeleteShard_def remote_DeleteShard_def
        spend_fate_def slot_def Let_def split: io_fate.split)+
  show ?thesis
  proof (cases n)
    case (LocalStorageNode a b)
    then show ?thesis using c assms(2) by (auto simp: held_def path slot_def)
  next
    case (remoteStorageNode a b cc t)
    then show ?thesis using r assms(2) by (auto simp: held_def slot_def simp del: node_ID.simps)
  qed
qed

text \<open>With no transport trouble a read depends only on what is held for that index.\<close>

lemma readShard_quiet:
  assumes "quiet_io X e"
  shows "readShard X e L i = (case storageNode e (shardPlacement e L i) of Inl err \<Rightarrow> Inl (EOther err)
    | Inr n \<Rightarrow> (case verifyShardChecksum X L i (seen e n (ly_ShardDir L) (ly_Hash L) i) of
        Some err \<Rightarrow> Inl err | None \<Rightarrow> Inr (seen e n (ly_ShardDir L) (ly_Hash L) i)))"
  by (simp add: readShard_def node_ReadShard_seen [OF assms] split: sum.split)

lemma readShard_cong:
  assumes "same_conf e e'" "quiet_io X e" "\<And>n. held e' n (ly_ShardDir L) (ly_Hash L) i = held e n (ly_ShardDir L) (ly_Hash L) i"
  shows "readShard X e' L i = readShard X e L i"
proof -
  have q: "quiet_io X e'" using assms(2) same_confD(10) [OF assms(1)] by (simp add: quiet_io_def)
  have "seen e' n (ly_ShardDir L) (ly_Hash L) i = seen e n (ly_ShardDir L) (ly_Hash L) i" for n
    using assms(3) by (simp add: seen_def split: StorageNode.split)
  then show ?thesis
    using same_conf_storageNode [OF assms(1)] same_conf_shardPlacement [OF assms(1)]
    by (simp add: readShard_quiet [OF q] readShard_quiet [OF assms(2)] split: sum.split option.split)
qed

lemma same_conf_placementNodes: "same_conf e e' \<Longrightarrow> placementNodesLocked e' = placementNodesLocked e"
  unfolding placementNodes_filter storageNodesLocked_def by (simp add: same_confD)

lemma same_conf_rebalanceTarget:
  assumes "same_conf e e'"
  shows "rebalanceTargetPlacement e' i from = rebalanceTargetPlacement e i from"
  unfolding rebalanceTargetPlacement_def same_conf_placementNodes [OF assms] same_confD(3) [OF assms] ..

lemma same_conf_ok:
  assumes "same_conf e e'"
  shows "nodes_ok e \<Longrightarrow> nodes_ok e'" "quiet_io X e \<Longrightarrow> quiet_io X e'"
  using same_confD [OF assms] same_conf_placementNodes [OF assms]
  by (simp_all add: nodes_ok_def quiet_io_def reconfigurePlacementPlannerLocked_def)

definition moved_data :: "bytes option \<Rightarrow> bytes" where
  "moved_data d = (case d of None \<Rightarrow> [] | Some x \<Rightarrow> x)"

text \<open>The target of a move is an active node other than the source, and it is registered under its identifier.\<close>

lemma rebalanceTarget_node:
  assumes "nodes_ok e" "rebalanceTargetPlacement e i from = Inr t"
  obtains n where "n \<in> set (placementNodesLocked e)" "node_ID n \<noteq> from" "pl_node t = node_ID n" "storageNode e t = Inr n"
    "trim_space (pl_node t) \<noteq> []"
proof -
  let ?c = "filter (\<lambda>n. node_ID n \<noteq> from) (placementNodesLocked e)"
  have ne: "?c \<noteq> []" and t: "pl_node t = node_ID (?c ! (i mod length ?c))"
    using assms(2) by (auto simp: rebalanceTargetPlacement_def Let_def split: if_splits)
  let ?n = "?c ! (i mod length ?c)"
  have "i mod length ?c < length ?c" using ne by simp
  then have "?n \<in> set ?c" by (rule nth_mem)
  then have n: "?n \<in> set (placementNodesLocked e)" "node_ID ?n \<noteq> from" by auto
  have named: "named_nodes (nt_nodes e)" using assms(1) by (simp add: nodes_ok_def)
  have ok: "trim_space (node_ID ?n) = node_ID ?n" "node_ID ?n \<noteq> []"
    using placementNodes_ids(2) [OF named n(1)] by (simp_all add: node_ok_def)
  obtain key where key: "fmlookup (nt_nodes e) key = Some ?n"
    using n(1) by (auto simp: placementNodes_filter storageNodesLocked_def fm_values_iff)
  have "fmlookup (nt_nodes e) (node_ID ?n) = Some ?n"
    using named key by (auto simp: fmpred_iff)
  then have "storageNode e t = Inr ?n" using t ok by (simp add: storageNode_def Let_def)
  then show thesis using that n t ok by simp
qed

text \<open>Where shard \<open>k\<close> is after the loop: untouched, or held by a registered node other than the source.\<close>

definition landed :: "Externals \<Rightarrow> Engine \<Rightarrow> Layout \<Rightarrow> string \<Rightarrow> Engine \<Rightarrow> nat \<Rightarrow> ShardPlacement \<Rightarrow> ShardPlacement \<Rightarrow> bool" where
  "landed X e L from e' k p p' \<longleftrightarrow>
     (if pl_node p \<noteq> from then p' = p
      else \<exists>n dat. node_ID n \<noteq> from \<and> pl_node p' = node_ID n \<and> storageNode e p' = Inr n \<and>
        trim_space (pl_node p') \<noteq> [] \<and> readShard X e L k = Inr dat \<and>
        held e' n (ly_ShardDir L) (ly_Hash L) k = Some (moved_data dat))"

text \<open>What the loop over the placements leaves behind, from index \<open>i\<close> on.\<close>

definition rebalanced :: "Externals \<Rightarrow> Engine \<Rightarrow> Layout \<Rightarrow> string \<Rightarrow> nat \<Rightarrow> ShardPlacement list \<Rightarrow> Engine \<Rightarrow>
    ShardPlacement list \<Rightarrow> ShardMove list \<Rightarrow> bool" where
  "rebalanced X e L from i ps e' ps' moved \<longleftrightarrow> same_conf e e' \<and> eng_metas e' = eng_metas e \<and> eng_cache e' = eng_cache e \<and>
     length ps' = length ps \<and>
     (\<forall>m < length ps. landed X e L from e' (i + m) (ps ! m) (ps' ! m)) \<and>
     (\<forall>n j. j < i \<or> i + length ps \<le> j \<or> pl_node (ps ! (j - i)) \<noteq> from \<longrightarrow>
        held e' n (ly_ShardDir L) (ly_Hash L) j = held e n (ly_ShardDir L) (ly_Hash L) j) \<and>
     (\<forall>mv \<in> set moved. i \<le> mv_Index mv \<and> mv_Index mv < i + length ps \<and> mv_From mv = ps ! (mv_Index mv - i) \<and>
        pl_node (mv_From mv) = from) \<and>
     (moved = [] \<longrightarrow> e' = e \<and> ps' = ps)"

lemma rebalanced_skip:
  assumes "pl_node p \<noteq> from" "rebalanced X e L from (Suc i) ps e' qs moved"
  shows "rebalanced X e L from i (p # ps) e' (p # qs) moved"
  unfolding rebalanced_def
proof (intro conjI allI impI ballI)
  note r = assms(2) [unfolded rebalanced_def]
  show "same_conf e e'" "eng_metas e' = eng_metas e" "eng_cache e' = eng_cache e" "length (p # qs) = length (p # ps)"
    using r by simp_all
  show "e' = e" "p # qs = p # ps" if "moved = []" using r that by simp_all
next
  fix m assume "m < length (p # ps)"
  then show "landed X e L from e' (i + m) ((p # ps) ! m) ((p # qs) ! m)"
    using assms unfolding rebalanced_def by (cases m) (simp_all add: landed_def [of _ _ _ _ _ _ p])
next
  fix n j assume "j < i \<or> i + length (p # ps) \<le> j \<or> pl_node ((p # ps) ! (j - i)) \<noteq> from"
  then have "j < Suc i \<or> Suc i + length ps \<le> j \<or> pl_node (ps ! (j - Suc i)) \<noteq> from"
    by (auto simp: nth_Cons' split: if_splits)
  then show "held e' n (ly_ShardDir L) (ly_Hash L) j = held e n (ly_ShardDir L) (ly_Hash L) j"
    using assms(2) unfolding rebalanced_def by blast
next
  fix mv assume "mv \<in> set moved"
  then have "Suc i \<le> mv_Index mv" "mv_Index mv < Suc i + length ps" "mv_From mv = ps ! (mv_Index mv - Suc i)"
    "pl_node (mv_From mv) = from"
    using assms(2) unfolding rebalanced_def by blast+
  then show "i \<le> mv_Index mv" "mv_Index mv < i + length (p # ps)" "mv_From mv = (p # ps) ! (mv_Index mv - i)"
    "pl_node (mv_From mv) = from"
    by (auto simp: nth_Cons')
qed

lemma rebalanced_move:
  assumes "pl_node p = from" "node_ID n \<noteq> from" "pl_node t = node_ID n" "storageNode e t = Inr n" "trim_space (pl_node t) \<noteq> []"
    and "readShard X e L i = Inr dat" "quiet_io X e" "same_conf e e1" "eng_metas e1 = eng_metas e" "eng_cache e1 = eng_cache e"
    and held: "held e1 n (ly_ShardDir L) (ly_Hash L) i = Some (moved_data dat)"
      "\<And>n' j. j \<noteq> i \<Longrightarrow> held e1 n' (ly_ShardDir L) (ly_Hash L) j = held e n' (ly_ShardDir L) (ly_Hash L) j"
    and ih: "rebalanced X e1 L from (Suc i) ps e' qs mvs"
  shows "rebalanced X e L from i (p # ps) e' (t # qs) (\<lparr>mv_Index = i, mv_From = p, mv_To = t\<rparr> # mvs)"
  unfolding rebalanced_def
proof (intro conjI allI impI ballI)
  note r = ih [unfolded rebalanced_def]
  show "same_conf e e'" using r assms(8) same_conf_trans by blast
  show "eng_metas e' = eng_metas e" "eng_cache e' = eng_cache e" "length (t # qs) = length (p # ps)"
    using r assms(9,10) by simp_all
next
  fix m assume m: "m < length (p # ps)"
  show "landed X e L from e' (i + m) ((p # ps) ! m) ((t # qs) ! m)"
  proof (cases m)
    case 0
    have "held e' n (ly_ShardDir L) (ly_Hash L) i = Some (moved_data dat)"
      using ih held(1) unfolding rebalanced_def by simp
    with 0 show ?thesis using assms(1-6) by (auto simp: landed_def)
  next
    case (Suc m')
    have rd: "readShard X e1 L (i + m) = readShard X e L (i + m)"
      using Suc held(2) by (intro readShard_cong [OF assms(8,7)]) simp
    have "landed X e1 L from e' (i + m) (ps ! m') (qs ! m')"
      using Suc m ih unfolding rebalanced_def by simp
    with Suc rd show ?thesis
      using same_conf_storageNode [OF assms(8)] by (auto simp: landed_def split: if_splits)
  qed
next
  fix n' j assume "j < i \<or> i + length (p # ps) \<le> j \<or> pl_node ((p # ps) ! (j - i)) \<noteq> from"
  then have "j \<noteq> i" "j < Suc i \<or> Suc i + length ps \<le> j \<or> pl_node (ps ! (j - Suc i)) \<noteq> from"
    using assms(1) by (auto simp: nth_Cons' split: if_splits)
  then show "held e' n' (ly_ShardDir L) (ly_Hash L) j = held e n' (ly_ShardDir L) (ly_Hash L) j"
    using ih held(2) unfolding rebalanced_def by metis
next
  fix mv assume "mv \<in> set (\<lparr>mv_Index = i, mv_From = p, mv_To = t\<rparr> # mvs)"
  then have "mv = \<lparr>mv_Index = i, mv_From = p, mv_To = t\<rparr> \<or> Suc i \<le> mv_Index mv \<and> mv_Index mv < Suc i + length ps \<and>
      mv_From mv = ps ! (mv_Index mv - Suc i) \<and> pl_node (mv_From mv) = from"
    using ih unfolding rebalanced_def by auto
  then show "i \<le> mv_Index mv" "mv_Index mv < i + length (p # ps)" "mv_From mv = (p # ps) ! (mv_Index mv - i)"
    "pl_node (mv_From mv) = from"
    using assms(1) by (auto simp: nth_Cons')
qed simp_all

lemma rebalance_placements_rebalanced:
  assumes "nodes_ok e" "quiet_io X e" "rebalance_placements X e L from i ps = (e', Inr (ps', moved))"
  shows "rebalanced X e L from i ps e' ps' moved"
  using assms
proof (induction ps arbitrary: e i ps' moved)
  case Nil
  then show ?case by (simp add: rebalanced_def)
next
  case (Cons p ps)
  let ?d = "ly_ShardDir L" and ?h = "ly_Hash L"
  show ?case
  proof (cases "pl_node p = from")
    case False
    then obtain qs where r: "rebalance_placements X e L from (Suc i) ps = (e', Inr (qs, moved))" "ps' = p # qs"
      using Cons.prems(3) by (auto split: prod.splits sum.splits)
    then show ?thesis using rebalanced_skip [OF False Cons.IH [OF Cons.prems(1,2) r(1)]] by simp
  next
    case True
    obtain t e1 where t: "rebalanceTargetPlacement e i from = Inr t" "moveShard X e L i t = (e1, None)"
      using Cons.prems(3) True by (auto split: prod.splits sum.splits option.splits)
    then obtain qs mvs where r: "rebalance_placements X e1 L from (Suc i) ps = (e', Inr (qs, mvs))" "ps' = t # qs"
      "moved = \<lparr>mv_Index = i, mv_From = p, mv_To = t\<rparr> # mvs"
      using Cons.prems(3) True by (auto split: prod.splits sum.splits option.splits)
    obtain n where n: "node_ID n \<noteq> from" "pl_node t = node_ID n" "storageNode e t = Inr n" "trim_space (pl_node t) \<noteq> []"
      using rebalanceTarget_node [OF Cons.prems(1) t(1)] by metis
    obtain dat where dat: "readShard X e L i = Inr dat" "writeShard e t ?d ?h i (moved_data dat) = (e1, None)"
      using t(2) by (auto simp: moveShard_def moved_data_def split: sum.splits)
    have conf: "same_conf e e1" "eng_metas e1 = eng_metas e" "eng_cache e1 = eng_cache e"
      using writeShard_frame [of e t ?d ?h i "moved_data dat"] dat(2) by auto
    have held: "held e1 n ?d ?h i = Some (moved_data dat)" "\<And>n' j. j \<noteq> i \<Longrightarrow> held e1 n' ?d ?h j = held e n' ?d ?h j"
      using writeShard_held [OF dat(2)] n(3) by (metis sum.inject(2))+
    have ok: "nodes_ok e1" "quiet_io X e1"
      using Cons.prems(1,2) same_conf_ok [OF conf(1)] by blast+
    show ?thesis
      unfolding r(2,3)
      by (rule rebalanced_move [OF True n dat(1) Cons.prems(2) conf held Cons.IH [OF ok r(1)]])
  qed
qed

text \<open>Clearing the source: a shard held in another store, or under another index, stays.\<close>

lemma cleanupMovedShards_frame:
  "same_conf e (fst (cleanupMovedShards e L mvs)) \<and> eng_metas (fst (cleanupMovedShards e L mvs)) = eng_metas e \<and>
     eng_cache (fst (cleanupMovedShards e L mvs)) = eng_cache e"
proof (induction mvs arbitrary: e)
  case (Cons m mvs)
  let ?e1 = "fst (deleteShard e (mv_From m) (ly_ShardDir L) (ly_Hash L) (mv_Index m))"
  have "fst (cleanupMovedShards e L (m # mvs)) = fst (cleanupMovedShards ?e1 L mvs)"
    by (simp split: prod.split)
  then show ?case
    using Cons.IH [of ?e1] deleteShard_frame [of e "mv_From m" "ly_ShardDir L" "ly_Hash L" "mv_Index m"]
    by (auto intro: same_conf_trans)
qed simp

lemma cleanupMovedShards_held:
  assumes "\<And>m nf. m \<in> set mvs \<Longrightarrow> storageNode e (mv_From m) = Inr nf \<Longrightarrow> slot n \<noteq> slot nf \<or> j \<noteq> mv_Index m"
  shows "held (fst (cleanupMovedShards e L mvs)) n (ly_ShardDir L) (ly_Hash L) j = held e n (ly_ShardDir L) (ly_Hash L) j"
  using assms
proof (induction mvs arbitrary: e)
  case (Cons m mvs)
  let ?e1 = "fst (deleteShard e (mv_From m) (ly_ShardDir L) (ly_Hash L) (mv_Index m))"
  have f: "fst (cleanupMovedShards e L (m # mvs)) = fst (cleanupMovedShards ?e1 L mvs)"
    by (simp split: prod.split)
  have sn: "storageNode ?e1 p = storageNode e p" for p
    by (rule same_conf_storageNode) (simp add: deleteShard_frame)
  have "held (fst (cleanupMovedShards ?e1 L mvs)) n (ly_ShardDir L) (ly_Hash L) j = held ?e1 n (ly_ShardDir L) (ly_Hash L) j"
    using Cons.prems sn by (intro Cons.IH) auto
  moreover have "held ?e1 n (ly_ShardDir L) (ly_Hash L) j = held e n (ly_ShardDir L) (ly_Hash L) j"
  proof (cases "storageNode e (mv_From m)")
    case (Inl err)
    then show ?thesis by (simp add: deleteShard_def)
  next
    case (Inr nf)
    then show ?thesis using Cons.prems [of m nf] by (intro deleteShard_held) auto
  qed
  ultimately show ?case unfolding f by simp
qed simp

text \<open>The only node that keeps its shards in this process's files is the local one.\<close>

definition one_local :: "Engine \<Rightarrow> bool" where
  "one_local e \<longleftrightarrow> fmpred (\<lambda>nid n. slot n = None \<longrightarrow> nid = nt_local e) (nt_nodes e)"

lemma slot_differs:
  assumes "nodes_ok e" "one_local e" "trim_space from = from" "from \<noteq> []"
    and "pl_node p = from" "storageNode e p = Inr nf" "storageNode e q = Inr n" "node_ID n \<noteq> from"
  shows "slot n \<noteq> slot nf"
proof
  assume eq: "slot n = slot nf"
  have named: "named_nodes (nt_nodes e)" using assms(1) by (simp add: nodes_ok_def)
  have f: "fmlookup (nt_nodes e) from = Some nf"
    using assms(3-6) by (simp add: storageNode_def split: option.splits)
  obtain a where a: "fmlookup (nt_nodes e) a = Some n"
    using assms(7) by (auto simp: storageNode_def Let_def split: option.splits)
  have ids: "node_ID nf = from" "node_ID n = a" using named f a by (auto simp: fmpred_iff)
  have l: "slot n = None \<Longrightarrow> a = nt_local e" "slot nf = None \<Longrightarrow> from = nt_local e"
    using assms(2) f a by (auto simp: one_local_def fmpred_iff)
  have "slot m = None \<or> slot m = Some (node_ID m)" for m by (cases m) (simp_all add: slot_def)
  then consider "slot n = None" | "slot n = Some (node_ID n)" "slot nf = Some (node_ID nf)"
    using eq by (metis option.distinct(1))
  then show False
    using l ids assms(8) eq by cases auto
qed

text \<open>One shard through the whole operation.\<close>

lemma rebalanced_reads:
  assumes ok: "nodes_ok e" "quiet_io X e" "one_local e" "trim_space from = from" "from \<noteq> []"
    and r: "rebalanced X e L from 0 (ly_Placements L) e1 ps moved"
    and conf: "same_conf e e'"
    and held: "\<And>n j. (\<And>m nf. m \<in> set moved \<Longrightarrow> storageNode e (mv_From m) = Inr nf \<Longrightarrow> slot n \<noteq> slot nf \<or> j \<noteq> mv_Index m) \<Longrightarrow>
      held e' n (ly_ShardDir L) (ly_Hash L) j = held e1 n (ly_ShardDir L) (ly_Hash L) j"
    and L': "ly_Placements L' = ps" "ly_ShardDir L' = ly_ShardDir L" "ly_Hash L' = ly_Hash L" "ly_Checksums L' = ly_Checksums L"
    and x: "readShard X e L i = Inr (Some x)"
  shows "readShard X e' L' i = Inr (Some x)"
proof -
  have r': "length ps = length (ly_Placements L)"
    "\<And>m. m < length (ly_Placements L) \<Longrightarrow> landed X e L from e1 m (ly_Placements L ! m) (ps ! m)"
    "\<And>n j. length (ly_Placements L) \<le> j \<or> pl_node (ly_Placements L ! j) \<noteq> from \<Longrightarrow>
       held e1 n (ly_ShardDir L) (ly_Hash L) j = held e n (ly_ShardDir L) (ly_Hash L) j"
    "\<And>m. m \<in> set moved \<Longrightarrow> mv_Index m < length (ly_Placements L) \<and> mv_From m = ly_Placements L ! mv_Index m \<and> pl_node (mv_From m) = from"
    using r unfolding rebalanced_def add_0 diff_zero by blast+
  let ?P = "ly_Placements L" and ?d = "ly_ShardDir L" and ?h = "ly_Hash L"
  have q': "quiet_io X e'" using same_conf_ok(2) [OF conf ok(2)] .
  have ver: "verifyShardChecksum X L' i y = verifyShardChecksum X L i y" for y
    by (simp add: verifyShardChecksum_def L' split: option.split)
  have node: "storageNode e' p = storageNode e p" "shardPlacement e' l k = shardPlacement e l k" for p l k
    using same_conf_storageNode [OF conf] same_conf_shardPlacement [OF conf] by simp_all
  have ver': "verifyShardChecksum X L i (Some x) = None"
    using x by (auto simp: readShard_quiet [OF ok(2)] split: sum.splits option.splits)
  show ?thesis
  proof (cases "i < length ?P \<and> pl_node (?P ! i) = from")
    case True
    then obtain n where n: "node_ID n \<noteq> from" "storageNode e (ps ! i) = Inr n" "trim_space (pl_node (ps ! i)) \<noteq> []"
      "held e1 n ?d ?h i = Some x"
      using r'(2) [of i] x by (auto simp: landed_def moved_data_def)
    have "held e' n ?d ?h i = held e1 n ?d ?h i"
      using r'(4) slot_differs [OF ok(1,3-5) _ _ n(2,1)] by (intro held) blast
    then have "seen e' n ?d ?h i = Some x" using n(4) by (intro seen_held) simp
    moreover have "shardPlacement e' L' i = ps ! i" using True n(3) r'(1) by (simp add: shardPlacement_def L')
    ultimately show ?thesis
      using n(2) node(1) ver' ver by (simp add: readShard_quiet [OF q'] L')
  next
    case False
    have pl: "shardPlacement e' L' i = shardPlacement e L i"
      using False r'(1) r'(2) [of i] same_conf_localShardPlacement [OF conf] by (auto simp: shardPlacement_def L' landed_def)
    have "held e' n ?d ?h i = held e1 n ?d ?h i" for n
      using r'(4) False by (intro held) metis
    moreover have "held e1 n ?d ?h i = held e n ?d ?h i" for n
      using r'(3) [of i] False by auto
    ultimately have "seen e' n ?d ?h i = seen e n ?d ?h i" for n
      by (simp add: seen_def split: StorageNode.split)
    then show ?thesis
      using x pl node(1) ver by (auto simp: readShard_quiet [OF q'] readShard_quiet [OF ok(2)] L' split: sum.splits option.splits)
  qed
qed

lemma RebalanceObjectFromNode_persists:
  assumes "RebalanceObjectFromNode X e now bucket key from = (e', Inr r)" "getLayout X e bucket key = (e, Inr L)"
    and "from \<noteq> []" "ly_Bucket L = bucket" "ly_Key L = key"
    and "rebalance_placements X e L from 0 (ly_Placements L) = (e1, Inr (ps, moved))" "moved \<noteq> []"
  defines "L' \<equiv> (if ly_ID L = [] then L\<lparr>ly_Placements := ps, ly_ID := layoutHash X (layoutKey bucket key)\<rparr>
        else L\<lparr>ly_Placements := ps\<rparr>)"
  obtains e2 where "eng_cache e2 = fmupd (layoutKey bucket key) L' (eng_cache e1)" "eng_chunks e2 = eng_chunks e1"
    "eng_remote e2 = eng_remote e1" "same_conf e1 e2"
    "fmlookup (eng_metas e2) (metaPath e2 (ly_ShardDir L') (ly_ID L')) = Some (Some L')"
    "e' = fst (cleanupMovedShards e2 L moved)"
proof -
  let ?L = "L\<lparr>ly_Placements := ps\<rparr>"
  let ?c = "cache_store e1 (layoutKey bucket key) ?L"
  have cong: "cleanupMovedShards x ?L mvs = cleanupMovedShards x L mvs" for x mvs
    by (induction mvs arbitrary: x) (simp_all split: prod.split)
  have id: "(if ly_ID ?L = [] then ?L\<lparr>ly_ID := layoutHash X (layoutKey (ly_Bucket ?L) (ly_Key ?L))\<rparr> else ?L) = L'"
    using assms(4,5) by (simp add: L'_def)
  have b: "ly_Bucket L' = bucket" "ly_Key L' = key" using assms(4,5) by (simp_all add: L'_def)
  have per: "persistLayout X ?c ?L = (case backend_WriteMeta ?c (ly_ShardDir L') (ly_ID L') L' of
      (e, Some err) \<Rightarrow> (e, Some err) | (e, None) \<Rightarrow> (cache_store e (layoutKey bucket key) L', None))"
    unfolding persistLayout_def id Let_def b ..
  obtain e2 where e2: "persistLayout X ?c ?L = (e2, None)" "e' = fst (cleanupMovedShards e2 ?L moved)"
    using assms(1-3,6,7)
    by (auto simp: RebalanceObjectFromNode_def rebalanceLayoutPlacements_def Let_def split: prod.splits option.splits)
  then obtain e3 where w: "backend_WriteMeta ?c (ly_ShardDir L') (ly_ID L') L' = (e3, None)"
    and e3: "e2 = cache_store e3 (layoutKey bucket key) L'"
    unfolding per by (auto split: prod.splits option.splits)
  have e3': "e3 = (spend_fate ?c)\<lparr>eng_metas := fmupd (metaPath ?c (ly_ShardDir L') (ly_ID L')) (Some L') (eng_metas ?c)\<rparr>"
    using w by (auto simp: backend_WriteMeta_def Let_def split: io_fate.splits)
  show thesis
  proof (rule that [of e2])
    show "eng_cache e2 = fmupd (layoutKey bucket key) L' (eng_cache e1)" "eng_chunks e2 = eng_chunks e1"
      "eng_remote e2 = eng_remote e1" "same_conf e1 e2"
      "fmlookup (eng_metas e2) (metaPath e2 (ly_ShardDir L') (ly_ID L')) = Some (Some L')"
      by (simp_all add: e3 e3' cache_store_def spend_fate_def metaPath_def same_conf_def)
    show "e' = fst (cleanupMovedShards e2 L moved)" using e2(2) cong by simp
  qed
qed

lemma rebalance_placements_total:
  assumes "nodes_ok e" "quiet_io X e" "eng_fates e = []" "\<exists>n \<in> set (placementNodesLocked e). node_ID n \<noteq> from"
    and "\<And>m. m < length ps \<Longrightarrow> pl_node (ps ! m) = from \<Longrightarrow> \<exists>dat. readShard X e L (i + m) = Inr dat"
  shows "\<exists>e' r. rebalance_placements X e L from i ps = (e', Inr r) \<and> eng_fates e' = []"
  using assms
proof (induction ps arbitrary: e i)
  case (Cons p ps)
  have tail: "\<exists>dat. readShard X e L (Suc i + m) = Inr dat" if "m < length ps" "pl_node (ps ! m) = from" for m
    using Cons.prems(5) [of "Suc m"] that by simp
  show ?case
  proof (cases "pl_node p = from")
    case False
    then show ?thesis using Cons.IH [OF Cons.prems(1-4) tail] by (auto split: prod.splits sum.splits)
  next
    case True
    obtain t where t: "rebalanceTargetPlacement e i from = Inr t"
      using Cons.prems(4) by (auto simp: rebalanceTargetPlacement_def Let_def filter_empty_conv)
    obtain n where n: "storageNode e t = Inr n" using rebalanceTarget_node [OF Cons.prems(1) t] by metis
    obtain dat where dat: "readShard X e L i = Inr dat" using Cons.prems(5) [of 0] True by auto
    obtain e1 where e1: "writeShard e t (ly_ShardDir L) (ly_Hash L) i (moved_data dat) = (e1, None)" "eng_fates e1 = []" "same_conf e e1"
      using writeShard_total [OF Cons.prems(3) _ n] Cons.prems(2) unfolding quiet_io_def by blast
    then have mv: "moveShard X e L i t = (e1, None)" using dat by (simp add: moveShard_def moved_data_def)
    obtain nd where nd: "\<And>n j. j \<noteq> i \<Longrightarrow> held e1 n (ly_ShardDir L) (ly_Hash L) j = held e n (ly_ShardDir L) (ly_Hash L) j"
      using writeShard_held [OF e1(1)] by metis
    have rd: "readShard X e1 L (Suc i + m) = readShard X e L (Suc i + m)" for m
      using nd by (intro readShard_cong [OF e1(3) Cons.prems(2)]) simp
    have "\<exists>e' r. rebalance_placements X e1 L from (Suc i) ps = (e', Inr r) \<and> eng_fates e' = []"
      using Cons.prems(4) tail rd same_conf_ok [OF e1(3)] Cons.prems(1,2)
      by (intro Cons.IH e1(2)) (simp_all add: same_conf_placementNodes [OF e1(3)])
    then show ?thesis using True t mv by (auto split: prod.splits)
  qed
qed simp

text \<open>The engine \<open>e'\<close> has layout \<open>L'\<close> for the object, off the node \<open>from\<close>, and reads at least what \<open>e\<close> read through \<open>L\<close>.\<close>

definition moved_off :: "Externals \<Rightarrow> string \<Rightarrow> string \<Rightarrow> Engine \<Rightarrow> Layout \<Rightarrow> Engine \<Rightarrow> Layout \<Rightarrow> bool" where
  "moved_off X lk from e L e' L' \<longleftrightarrow> fmlookup (eng_cache e') lk = Some L' \<and>
     length (ly_Placements L') = length (ly_Placements L) \<and> list_all (\<lambda>p. pl_node p \<noteq> from) (ly_Placements L') \<and>
     (\<forall>i x. readShard X e L i = Inr (Some x) \<longrightarrow> readShard X e' L' i = Inr (Some x))"

lemma RebalanceObjectFromNode_success:
  assumes "nodes_ok e" "quiet_io X e" "one_local e" "trim_space from = from" "from \<noteq> []"
    and "fmlookup (eng_cache e) (layoutKey bucket key) = Some L" "ly_Bucket L = bucket" "ly_Key L = key"
    and run: "RebalanceObjectFromNode X e now bucket key from = (e', Inr r)"
  shows "\<exists>L'. moved_off X (layoutKey bucket key) from e L e' L' \<and>
    (rb_Moved r \<noteq> [] \<longrightarrow> fmlookup (eng_metas e') (metaPath e' (ly_ShardDir L') (ly_ID L')) = Some (Some L'))"
proof -
  have g: "getLayout X e bucket key = (e, Inr L)" using assms(6) by (rule getLayout_cached)
  obtain e1 ps moved where p: "rebalance_placements X e L from 0 (ly_Placements L) = (e1, Inr (ps, moved))"
    using run g assms(5) by (auto simp: RebalanceObjectFromNode_def rebalanceLayoutPlacements_def split: prod.splits sum.splits)
  note rb = rebalance_placements_rebalanced [OF assms(1,2) p]
  have off: "list_all (\<lambda>p. pl_node p \<noteq> from) ps" "length ps = length (ly_Placements L)" "same_conf e e1"
    using rb by (fastforce simp: rebalanced_def landed_def list_all_length split: if_splits)+
  show ?thesis
  proof (cases "moved = []")
    case True
    then have "e' = e" "rb_Moved r = []" "ps = ly_Placements L"
      using run g assms(5) p rb
      by (auto simp: RebalanceObjectFromNode_def rebalanceLayoutPlacements_def rebalanced_def)
    then show ?thesis using off assms(6) by (auto simp: moved_off_def)
  next
    case False
    define L' where "L' = (if ly_ID L = [] then L\<lparr>ly_Placements := ps, ly_ID := layoutHash X (layoutKey bucket key)\<rparr>
      else L\<lparr>ly_Placements := ps\<rparr>)"
    have L': "ly_Placements L' = ps" "ly_ShardDir L' = ly_ShardDir L" "ly_Hash L' = ly_Hash L" "ly_Checksums L' = ly_Checksums L"
      by (simp_all add: L'_def)
    obtain e2 where e2: "eng_cache e2 = fmupd (layoutKey bucket key) L' (eng_cache e1)" "eng_chunks e2 = eng_chunks e1"
      "eng_remote e2 = eng_remote e1" "same_conf e1 e2"
      "fmlookup (eng_metas e2) (metaPath e2 (ly_ShardDir L') (ly_ID L')) = Some (Some L')"
      "e' = fst (cleanupMovedShards e2 L moved)"
      using RebalanceObjectFromNode_persists [OF run g assms(5,7,8) p False] L'_def by blast
    note cl = cleanupMovedShards_frame [of e2 L moved, folded e2(6)]
    have held2: "held e2 n d h j = held e1 n d h j" for n d h j
      using same_conf_paths(1) [OF e2(4)] e2(2,3) by (simp add: held_def split: StorageNode.split)
    have conf: "same_conf e e2" "same_conf e e'" using off(3) e2(4) cl by (meson same_conf_trans)+
    have "readShard X e' L' i = Inr (Some x)" if "readShard X e L i = Inr (Some x)" for i x
    proof (rule rebalanced_reads [OF assms(1-5) rb conf(2) _ L' that])
      fix n j assume "\<And>m nf. m \<in> set moved \<Longrightarrow> storageNode e (mv_From m) = Inr nf \<Longrightarrow> slot n \<noteq> slot nf \<or> j \<noteq> mv_Index m"
      then show "held e' n (ly_ShardDir L) (ly_Hash L) j = held e1 n (ly_ShardDir L) (ly_Hash L) j"
        using cleanupMovedShards_held [of moved e2 n j L] same_conf_storageNode [OF conf(1)] by (simp add: e2(6) held2)
    qed
    then show ?thesis
      using off e2(1,5) cl L'(1) same_conf_paths(2) [of e2 e'] by (intro exI [of _ L']) (auto simp: moved_off_def)
  qed
qed

text \<open>C13: moving an object off a node: when the operation reports success, the object's cached layout places no shard on
  that node any more, has as many placements as before and is the layout on disk (when a shard moved), and every shard
  that could be read before reads as the same bytes through the new layout, although the old copies were
  deleted; and it does report success when another active node exists, every shard on the source reads
  and no write fails.\<close>

theorem RebalanceObjectFromNode_moves:
  assumes "nodes_ok e" "quiet_io X e" "one_local e" "trim_space from = from" "from \<noteq> []"
    and "fmlookup (eng_cache e) (layoutKey bucket key) = Some L" "ly_Bucket L = bucket" "ly_Key L = key"
  shows "(\<forall>e' r. RebalanceObjectFromNode X e now bucket key from = (e', Inr r) \<longrightarrow>
      (\<exists>L'. moved_off X (layoutKey bucket key) from e L e' L' \<and>
         (rb_Moved r \<noteq> [] \<longrightarrow> fmlookup (eng_metas e') (metaPath e' (ly_ShardDir L') (ly_ID L')) = Some (Some L')))) \<and>
    (eng_fates e = [] \<longrightarrow> (\<exists>n \<in> set (placementNodesLocked e). node_ID n \<noteq> from) \<longrightarrow>
       (\<forall>i < length (ly_Placements L). pl_node (ly_Placements L ! i) = from \<longrightarrow> (\<exists>d. readShard X e L i = Inr d)) \<longrightarrow>
       (\<exists>e' r. RebalanceObjectFromNode X e now bucket key from = (e', Inr r)))"
proof (intro conjI allI impI)
  fix e' r assume "RebalanceObjectFromNode X e now bucket key from = (e', Inr r)"
  then show "\<exists>L'. moved_off X (layoutKey bucket key) from e L e' L' \<and>
      (rb_Moved r \<noteq> [] \<longrightarrow> fmlookup (eng_metas e') (metaPath e' (ly_ShardDir L') (ly_ID L')) = Some (Some L'))"
    by (rule RebalanceObjectFromNode_success [OF assms])
next
  assume t: "eng_fates e = []" "\<exists>n \<in> set (placementNodesLocked e). node_ID n \<noteq> from"
    "\<forall>i < length (ly_Placements L). pl_node (ly_Placements L ! i) = from \<longrightarrow> (\<exists>d. readShard X e L i = Inr d)"
  have g: "getLayout X e bucket key = (e, Inr L)" using assms(6) by (rule getLayout_cached)
  obtain e1 r where p: "rebalance_placements X e L from 0 (ly_Placements L) = (e1, Inr r)" "eng_fates e1 = []"
    using rebalance_placements_total [OF assms(1,2) t(1,2), of "ly_Placements L" L 0] t(3) by auto
  then show "\<exists>e' r. RebalanceObjectFromNode X e now bucket key from = (e', Inr r)"
    using g assms(5) by (cases r) (simp add: RebalanceObjectFromNode_def rebalanceLayoutPlacements_def persistLayout_def
      backend_WriteMeta_def next_fate_def cache_store_def Let_def split: prod.split)
qed

text \<open>The object of the concrete engine after a second node has joined.\<close>

definition demo_pair :: Engine where
  "demo_pair = registerStorageNodeLocked (fst demo_put) (remoteStorageNode ''raft-2'' ''b:1'' ''http://b:1'' [])"

definition demo_pair_layout :: Layout where
  "demo_pair_layout = the (fmlookup (eng_cache demo_pair) (layoutKey ''b'' ''key''))"

lemma demo_pair_facts:
  "fmlookup (eng_cache demo_pair) (layoutKey ''b'' ''key'') \<noteq> None"
  "ly_Bucket demo_pair_layout = ''b''" "ly_Key demo_pair_layout = ''key''"
  "map pl_node (ly_Placements demo_pair_layout) = [''raft-1'', ''raft-1'', ''raft-1'']"
  "list_ex (\<lambda>n. node_ID n \<noteq> ''raft-1'') (placementNodesLocked demo_pair)"
  "list_all (\<lambda>i. \<not> isl (readShard demo_X demo_pair demo_pair_layout i)) [0..<3]"
  "eng_fates demo_pair = []" "trim_space ''raft-1'' = ''raft-1''"
  by code_simp+

lemma demo_put_conf: "same_conf demo_engine (fst demo_put)"
  using PutObject_frame [of demo_engine demo_X 5 "''b''" "''key''" "''abc''" "[]"] by (simp add: demo_put_def)

lemma demo_put_nodes:
  "nt_nodes (fst demo_put) = fmap_of_list [(''raft-1'', LocalStorageNode ''raft-1'' ''a:1'')]"
  "nt_drained (fst demo_put) = {||}" "nt_local (fst demo_put) = ''raft-1''" "eng_down (fst demo_put) = {||}"
  using same_confD [OF demo_put_conf] by (simp_all add: demo_engine_def)

lemma demo_pair_ok: "nodes_ok demo_pair" "one_local demo_pair" "quiet_io demo_X demo_pair"
proof -
  have t: "trim_space ''raft-2'' = ''raft-2''" by code_simp
  show "nodes_ok demo_pair"
    unfolding demo_pair_def
    by (rule registerStorageNodeLocked_ok) (auto simp: demo_put_nodes node_ok_def t demo_pair_facts(8) intro: fmpred_upd)
  show "one_local demo_pair"
    by (auto simp: demo_pair_def one_local_def registerStorageNodeLocked_def reconfigurePlacementPlannerLocked_def
        demo_put_nodes slot_def t Let_def fmpred_iff split: if_splits)
  show "quiet_io demo_X demo_pair"
    by (simp add: demo_pair_def quiet_io_def registerStorageNodeLocked_def reconfigurePlacementPlannerLocked_def
        demo_put_nodes demo_X_def Let_def)
qed

theorem RebalanceObjectFromNode_moves_witness:
  "\<exists>e' r L'. RebalanceObjectFromNode demo_X demo_pair 9 ''b'' ''key'' ''raft-1'' = (e', Inr r) \<and>
     moved_off demo_X (layoutKey ''b'' ''key'') ''raft-1'' demo_pair demo_pair_layout e' L'"
proof -
  have l: "fmlookup (eng_cache demo_pair) (layoutKey ''b'' ''key'') = Some demo_pair_layout"
    using demo_pair_facts(1) by (auto simp: demo_pair_layout_def)
  have n: "\<exists>n \<in> set (placementNodesLocked demo_pair). node_ID n \<noteq> ''raft-1''"
    using demo_pair_facts(5) by (simp add: list_ex_iff)
  have "length (ly_Placements demo_pair_layout) = 3"
    using arg_cong [OF demo_pair_facts(4), of length] by simp
  then have r: "\<forall>i < length (ly_Placements demo_pair_layout). pl_node (ly_Placements demo_pair_layout ! i) = ''raft-1'' \<longrightarrow>
      (\<exists>d. readShard demo_X demo_pair demo_pair_layout i = Inr d)"
    using demo_pair_facts(6) by (auto simp: list_all_iff isl_def) (metis atLeastLessThan_iff le0 sum.exhaust set_upt)
  show ?thesis
    using RebalanceObjectFromNode_moves [OF demo_pair_ok(1,3,2) demo_pair_facts(8) _ l demo_pair_facts(2,3), of 9,
        THEN conjunct1] RebalanceObjectFromNode_moves [OF demo_pair_ok(1,3,2) demo_pair_facts(8) _ l demo_pair_facts(2,3), of 9,
        THEN conjunct2, rule_format, OF _ demo_pair_facts(7) n] r by blast
qed

section \<open>Orphan cleanup only removes orphans\<close>

text \<open>A directory name as the file system reports it, which the engine's trimming leaves alone.\<close>

definition plain_name :: "string \<Rightarrow> bool" where
  "plain_name c \<longleftrightarrow> c \<noteq> [] \<and> c \<noteq> ''.'' \<and> c \<noteq> ''..'' \<and> CHR ''/'' \<notin> set c \<and> trim_space c = c \<and> CHR 0x00 \<notin> set c"

lemma join_path_plain:
  "plain_name d \<Longrightarrow> plain_name h \<Longrightarrow> join_path root [d, h] = root @ [d, h]"
  by (simp add: join_path_def plain_name_def)

lemma shardSetKey_inject:
  assumes "plain_name d" "plain_name d'"
  shows "shardSetKey d h = shardSetKey d' h' \<longleftrightarrow> d = d' \<and> h = h'"
proof
  assume eq: "shardSetKey d h = shardSetKey d' h'"
  have "cut_at CHR 0x00 (shardSetKey d h) = Some (d, h)" "cut_at CHR 0x00 (shardSetKey d' h') = Some (d', h')"
    using assms by (auto simp: shardSetKey_def plain_name_def intro: cut_at_append)
  with eq show "d = d' \<and> h = h'" by (metis Pair_inject option.inject)
qed simp

definition plain_sets :: "Engine \<Rightarrow> bool" where
  "plain_sets e \<longleftrightarrow> (\<forall>(d, h) \<in> set (localShardSets e). plain_name d \<and> plain_name h)"

lemma plain_nameD: "plain_name c \<Longrightarrow> trim_space c = c" "plain_name c \<Longrightarrow> c \<noteq> []"
  by (simp_all add: plain_name_def)

lemma DeleteBlob_plain:
  "plain_name d \<Longrightarrow> plain_name h \<Longrightarrow>
     DeleteBlob e d h = remove_all e (eng_root e @ [d, h]) ''engine: delete shard set''"
  by (simp add: DeleteBlob_def backend_DeleteShardSet_def join_path_plain plain_nameD)

lemma DeleteBlob_frame:
  assumes "plain_name d" "plain_name h" "\<not> below (eng_root e @ [d, h]) p"
  shows "fmlookup (eng_chunks (fst (DeleteBlob e d h))) p = fmlookup (eng_chunks e) p"
    and "fmlookup (eng_metas (fst (DeleteBlob e d h))) p = fmlookup (eng_metas e) p"
  using assms(3)
  by (auto simp: DeleteBlob_plain [OF assms(1,2)] remove_all_def spend_fate_def Let_def split: io_fate.splits
      dest!: in_set_takeD)

lemma DeleteBlob_root [simp]: "eng_root (fst (DeleteBlob e d h)) = eng_root e"
  by (auto simp: DeleteBlob_def backend_DeleteShardSet_def remove_all_def spend_fate_def Let_def split: io_fate.splits)

lemma DeleteBlob_removes:
  assumes "plain_name d" "plain_name h" "DeleteBlob e d h = (e', None)"
  shows "eng_chunks e' = fmfilter (\<lambda>p. \<not> below (eng_root e @ [d, h]) p) (eng_chunks e)"
  using assms(3)
  by (auto simp: DeleteBlob_plain [OF assms(1,2)] remove_all_def spend_fate_def Let_def split: io_fate.splits)

text \<open>Every chunk that is no longer what it was lies in a reported orphan.\<close>

lemma cleanup_shard_sets_frame:
  assumes "\<forall>(d, h) \<in> set sets. plain_name d \<and> plain_name h"
    and "cleanup_shard_sets e live dryRun r sets = (e', r', err)"
  shows "eng_root e' = eng_root e \<and> set (oc_Orphans r) \<subseteq> set (oc_Orphans r') \<and>
    set (oc_Orphans r') \<subseteq> set (oc_Orphans r) \<union> {(d, h) \<in> set sets. shardSetKey d h \<notin> set live} \<and>
    (\<forall>p. (\<forall>(d, h) \<in> set (oc_Orphans r'). \<not> below (eng_root e @ [d, h]) p) \<longrightarrow>
       fmlookup (eng_chunks e') p = fmlookup (eng_chunks e) p \<and> fmlookup (eng_metas e') p = fmlookup (eng_metas e) p) \<and>
    (dryRun \<longrightarrow> e' = e \<and> oc_Removed r' = oc_Removed r)"
  using assms
proof (induction sets arbitrary: e r)
  case (Cons s sets)
  obtain d h where s: "s = (d, h)" by (cases s)
  have pn: "plain_name d" "plain_name h" "\<forall>(d, h) \<in> set sets. plain_name d \<and> plain_name h"
    using Cons.prems(1) by (auto simp: s)
  show ?case
  proof (cases "shardSetKey d h \<in> set live")
    case True
    then show ?thesis
      using Cons.IH [OF pn(3), of e r] Cons.prems(2) by (auto simp: s)
  next
    case False
    let ?r = "r\<lparr>oc_Orphans := oc_Orphans r @ [(d, h)]\<rparr>"
    show ?thesis
    proof (cases dryRun)
      case True
      then have "cleanup_shard_sets e live dryRun ?r sets = (e', r', err)"
        using Cons.prems(2) False by (simp add: s)
      from Cons.IH [OF pn(3) this] False show ?thesis by (auto simp: s)
    next
      case dry: False
      obtain e1 res where d1: "DeleteBlob e d h = (e1, res)" by fastforce
      have fr: "fmlookup (eng_chunks e1) p = fmlookup (eng_chunks e) p \<and> fmlookup (eng_metas e1) p = fmlookup (eng_metas e) p"
        if "\<not> below (eng_root e @ [d, h]) p" for p
        using DeleteBlob_frame [OF pn(1,2) that] d1 by simp
      have rt: "eng_root e1 = eng_root e"
        using DeleteBlob_root [of e d h] d1 by simp
      show ?thesis
      proof (cases res)
        case None
        then have "cleanup_shard_sets e1 live dryRun (?r\<lparr>oc_Removed := Suc (oc_Removed ?r)\<rparr>) sets = (e', r', err)"
          using Cons.prems(2) False dry d1 by (simp add: s)
        from Cons.IH [OF pn(3) this] False dry fr rt show ?thesis by (fastforce simp: s)
      next
        case (Some er)
        then have "e' = e1" "r' = ?r"
          using Cons.prems(2) False dry d1 by (auto simp: s)
        then show ?thesis using False dry fr rt by (auto simp: s)
      qed
    qed
  qed
qed auto

text \<open>A run that succeeds leaves no chunk of a set that is not live, and adds none.\<close>

lemma cleanup_shard_sets_complete:
  assumes "\<forall>(d, h) \<in> set sets. plain_name d \<and> plain_name h"
    and "cleanup_shard_sets e live False r sets = (e', r', None)"
  shows "(\<forall>p. fmlookup (eng_chunks e') p = None \<or> fmlookup (eng_chunks e') p = fmlookup (eng_chunks e) p) \<and>
    (\<forall>(d, h) \<in> set sets. shardSetKey d h \<in> set live \<or>
       (\<forall>p. below (eng_root e @ [d, h]) p \<longrightarrow> fmlookup (eng_chunks e') p = None))"
  using assms
proof (induction sets arbitrary: e r)
  case (Cons s sets)
  obtain d h where s: "s = (d, h)" by (cases s)
  have pn: "plain_name d" "plain_name h" "\<forall>(d, h) \<in> set sets. plain_name d \<and> plain_name h"
    using Cons.prems(1) by (auto simp: s)
  show ?case
  proof (cases "shardSetKey d h \<in> set live")
    case True
    then show ?thesis
      using Cons.IH [OF pn(3), of e r] Cons.prems(2) by (auto simp: s)
  next
    case False
    let ?r = "r\<lparr>oc_Orphans := oc_Orphans r @ [(d, h)]\<rparr>"
    obtain e1 where d1: "DeleteBlob e d h = (e1, None)"
      "cleanup_shard_sets e1 live False (?r\<lparr>oc_Removed := Suc (oc_Removed ?r)\<rparr>) sets = (e', r', None)"
      using Cons.prems(2) False by (auto simp: s Let_def split: prod.splits option.splits)
    have rt: "eng_root e1 = eng_root e"
      using DeleteBlob_root [of e d h] d1(1) by simp
    have c: "fmlookup (eng_chunks e1) p = (if below (eng_root e @ [d, h]) p then None else fmlookup (eng_chunks e) p)" for p
      using DeleteBlob_removes [OF pn(1,2) d1(1)] by simp
    note ih = Cons.IH [OF pn(3) d1(2)]
    have "fmlookup (eng_chunks e') p = None" if "below (eng_root e @ [d, h]) p" for p
      using ih c [of p] that by auto
    moreover have "fmlookup (eng_chunks e') p = None \<or> fmlookup (eng_chunks e') p = fmlookup (eng_chunks e) p" for p
      using ih c [of p] by (metis (full_types))
    ultimately show ?thesis
      using ih rt by (auto simp: s)
  qed
qed simp

lemma set_localShardSets:
  "set (localShardSets e) = {(d, h). \<exists>c. fmlookup (eng_chunks e) (eng_root e @ [d, h, c]) \<noteq> None \<and> has_prefix c ''chunk-''}"
proof (intro set_eqI iffI)
  fix s assume "s \<in> set (localShardSets e)"
  then obtain p where p: "p |\<in>| fmdom (eng_chunks e)" "below (eng_root e) p" "length p = length (eng_root e) + 3"
    "has_prefix (last p) ''chunk-''" "s = (drop (length (eng_root e)) p ! 0, drop (length (eng_root e)) p ! 1)"
    by (auto simp: localShardSets_def Let_def)
  obtain q where q: "p = eng_root e @ q"
    using p(2) by (metis append_take_drop_id below_def)
  then obtain d h c where "q = [d, h, c]"
    using p(3) by (auto simp: length_Suc_conv numeral_3_eq_3)
  then show "s \<in> {(d, h). \<exists>c. fmlookup (eng_chunks e) (eng_root e @ [d, h, c]) \<noteq> None \<and> has_prefix c ''chunk-''}"
    using p q by (auto simp: fmlookup_dom_iff)
next
  fix s assume "s \<in> {(d, h). \<exists>c. fmlookup (eng_chunks e) (eng_root e @ [d, h, c]) \<noteq> None \<and> has_prefix c ''chunk-''}"
  then obtain d h c where "s = (d, h)" "eng_root e @ [d, h, c] |\<in>| fmdom (eng_chunks e)" "has_prefix c ''chunk-''"
    by (auto simp: fmlookup_dom_iff)
  then show "s \<in> set (localShardSets e)"
    by (auto simp: localShardSets_def Let_def below_def nth_append intro!: image_eqI [of _ _ "eng_root e @ [d, h, c]"])
qed

lemma below_two: "below (r @ [d, h]) p \<Longrightarrow> below (r @ [d', h']) p \<Longrightarrow> d = d' \<and> h = h'"
  by (auto simp: below_def)

text \<open>Every change lies in a reported orphan, and no orphan is a live set.\<close>

lemma orphan_changes:
  assumes "plain_sets e" "CleanupOrphanShardSets e liveRefs dryRun = (e', result, err)"
  shows "fmlookup (eng_chunks e') p \<noteq> fmlookup (eng_chunks e) p \<Longrightarrow> \<exists>(d, h) \<in> set (oc_Orphans result). below (eng_root e @ [d, h]) p"
    "(d, h) \<in> set (oc_Orphans result) \<Longrightarrow> shardSetKey d h \<notin> set (liveShardSetMap liveRefs)"
    "dryRun \<Longrightarrow> e' = e \<and> oc_Removed result = 0"
proof -
  note f = cleanup_shard_sets_frame [OF assms(1) [unfolded plain_sets_def] assms(2) [unfolded CleanupOrphanShardSets_def Let_def]]
  show "\<exists>(d, h) \<in> set (oc_Orphans result). below (eng_root e @ [d, h]) p" if "fmlookup (eng_chunks e') p \<noteq> fmlookup (eng_chunks e) p"
    using f that by blast
  show "shardSetKey d h \<notin> set (liveShardSetMap liveRefs)" if "(d, h) \<in> set (oc_Orphans result)"
    using f that assms(1) by (fastforce simp: plain_sets_def)
  show "dryRun \<Longrightarrow> e' = e \<and> oc_Removed result = 0" using f by auto
qed

lemma live_sets_kept:
  assumes "plain_sets e" "CleanupOrphanShardSets e liveRefs dryRun = (e', result, err)"
    and "(d, h) \<in> set liveRefs" "plain_name d" "plain_name h" "below (eng_root e @ [d, h]) p"
  shows "fmlookup (eng_chunks e') p = fmlookup (eng_chunks e) p"
proof (rule ccontr)
  assume "fmlookup (eng_chunks e') p \<noteq> fmlookup (eng_chunks e) p"
  then obtain d' h' where o: "(d', h') \<in> set (oc_Orphans result)" "below (eng_root e @ [d', h']) p"
    using orphan_changes(1) [OF assms(1,2)] by blast
  then have "d' = d" "h' = h"
    using below_two [OF assms(6)] by auto
  moreover have "shardSetKey d h \<in> set (liveShardSetMap liveRefs)"
    using assms(3-5) by (force simp: liveShardSetMap_def plain_name_def)
  ultimately show False using orphan_changes(2) [OF assms(1,2) o(1)] by blast
qed

text \<open>C14: cleaning up orphan shard sets never touches a live blob: whatever fails on the way and whether
  or not it is a dry run, every chunk of a shard set that a blob reference names is afterwards exactly
  what it was, every chunk that did change lies in a set reported as an orphan, and a dry run changes
  nothing at all. (The names in the directory tree are free of surrounding white space.)\<close>

theorem CleanupOrphanShardSets_safe:
  assumes "plain_sets e" "CleanupOrphanShardSets e liveRefs dryRun = (e', result, err)"
  shows "(\<forall>(d, h) \<in> set liveRefs. plain_name d \<longrightarrow> plain_name h \<longrightarrow>
       (\<forall>p. below (eng_root e @ [d, h]) p \<longrightarrow> fmlookup (eng_chunks e') p = fmlookup (eng_chunks e) p)) \<and>
    (\<forall>p. fmlookup (eng_chunks e') p \<noteq> fmlookup (eng_chunks e) p \<longrightarrow>
       (\<exists>(d, h) \<in> set (oc_Orphans result). below (eng_root e @ [d, h]) p)) \<and>
    (dryRun \<longrightarrow> e' = e \<and> oc_Removed result = 0)"
  using orphan_changes [OF assms] live_sets_kept [OF assms] by auto


text \<open>Two objects with different content, of which only the first is referenced.\<close>

definition demo_two :: Engine where
  "demo_two = fst (PutObject demo_X (fst demo_put) 6 ''b'' ''other'' ''xyz'' [])"

definition demo_live :: "shard_set list" where
  "demo_live = [(''ke'', HashBytes demo_X ''abc'')]"

lemma demo_plain_sets: "plain_sets demo_two"
  by code_simp

theorem CleanupOrphanShardSets_safe_witness:
  "fmlookup (eng_chunks (fst (CleanupOrphanShardSets demo_two demo_live False)))
     [''data'', ''ke'', HashBytes demo_X ''abc'', ''chunk-0000''] = Some ''ab''"
proof -
  obtain e' r err where c: "CleanupOrphanShardSets demo_two demo_live False = (e', r, err)"
    by (metis prod_cases3)
  have "(''ke'', HashBytes demo_X ''abc'') \<in> set demo_live" "plain_name ''ke''" "plain_name (HashBytes demo_X ''abc'')"
    "below (eng_root demo_two @ [''ke'', HashBytes demo_X ''abc'']) [''data'', ''ke'', HashBytes demo_X ''abc'', ''chunk-0000'']"
    "fmlookup (eng_chunks demo_two) [''data'', ''ke'', HashBytes demo_X ''abc'', ''chunk-0000''] = Some ''ab''"
    by code_simp+
  with CleanupOrphanShardSets_safe [OF demo_plain_sets c] c show ?thesis
    by fastforce
qed


end
