(* ===== verification/Store_Monad.thy ===== *)
theory Store_Monad
  imports InMemory_Metadata Engine_Maintenance
begin

text \<open>
  The state of \<open>internal/store\<close> and the way its methods are composed. A method is an action on the
  store: it returns the new store and an error or a value, and \<open>andThen\<close> is the \<open>if err != nil { return
  err }\<close> after each call. The store holds the metadata service (its state \<open>'m\<close>; the methods are the record
  \<open>MetadataStore\<close>), the engine and the status of the last recovery; \<open>time.Now\<close> reads the next value
  of a clock.

  Errors keep what \<open>errors.Is\<close> can see of them: the sentinel errors, the errors of the metadata and
  engine packages, and the errors wrapped by \<open>fmt.Errorf\<close> with \<open>%w\<close> or joined by \<open>errors.Join\<close>; message
  texts are dropped.
\<close>

section \<open>Errors\<close>

datatype store_error =
    ErrNotFound | ErrBucketExists | ErrBucketNotFound | ErrBadRequest | ErrEngineFailed
  | ErrMeta metadata_error
  | ErrEngine eng_error
  | ErrText string
  | ErrWrap "store_error list"

fun error_is :: "store_error \<Rightarrow> store_error \<Rightarrow> bool" where
  "error_is (ErrWrap es) t = (\<exists>e \<in> set es. error_is e t)"
| "error_is e t = (e = t)"

definition mapStoreError :: "store_error \<Rightarrow> store_error" where
  "mapStoreError err =
     (if error_is err (ErrMeta MErrBucketExists) then ErrBucketExists
      else if error_is err (ErrMeta MErrBucketNotFound) then ErrBucketNotFound
      else if error_is err (ErrMeta MErrObjectNotFound) then ErrNotFound
      else if error_is err (ErrMeta MErrBadRequest) then ErrBadRequest
      else if error_is err (ErrEngine EObjectNotFound) then ErrNotFound
      else err)"

section \<open>State\<close>

text \<open>What the last recovery reported; the counters per action are a finite map.\<close>

record RecoveryResult =
  rv_StartedAt :: time
  rv_FinishedAt :: time
  rv_PendingRemoved :: nat
  rv_PendingActions :: "(string, nat) fmap"
  rv_OrphanShardCleanup :: OrphanShardCleanupResult
  rv_DryRun :: bool

record RecoveryStatus =
  rs_LastResult :: RecoveryResult
  rs_LastError :: "store_error option"
  rs_Completed :: bool

record 'm Store =
  st_meta :: 'm
  st_engine :: Engine
  st_recovery :: RecoveryStatus
  st_clock :: "nat \<Rightarrow> time"
  st_tick :: nat

type_synonym ('m, 'a) action = "'m Store \<Rightarrow> 'm Store \<times> (store_error + 'a)"

section \<open>Composition\<close>

definition ret :: "'a \<Rightarrow> ('m, 'a) action" where
  "ret x s = (s, Inr x)"

definition throw :: "store_error \<Rightarrow> ('m, 'a) action" where
  "throw err s = (s, Inl err)"

definition andThen :: "('m, 'a) action \<Rightarrow> ('a \<Rightarrow> ('m, 'b) action) \<Rightarrow> ('m, 'b) action" where
  "andThen f g s = (case f s of (s', Inl err) \<Rightarrow> (s', Inl err) | (s', Inr x) \<Rightarrow> g x s')"

text \<open>Run an action and hand its error on as a value.\<close>

definition attempt :: "('m, 'a) action \<Rightarrow> ('m, store_error + 'a) action" where
  "attempt f s = (case f s of (s', r) \<Rightarrow> (s', Inr r))"

text \<open>Rewrite the error of an action.\<close>

definition wrapErr :: "(store_error \<Rightarrow> store_error) \<Rightarrow> ('m, 'a) action \<Rightarrow> ('m, 'a) action" where
  "wrapErr w f s = (case f s of (s', Inl err) \<Rightarrow> (s', Inl (w err)) | (s', Inr x) \<Rightarrow> (s', Inr x))"

definition lift_result :: "store_error + 'a \<Rightarrow> ('m, 'a) action" where
  "lift_result r s = (s, r)"

text \<open>A loop that stops at the first error.\<close>

fun forEach :: "'a list \<Rightarrow> ('a \<Rightarrow> ('m, unit) action) \<Rightarrow> ('m, unit) action" where
  "forEach [] f = ret ()"
| "forEach (x # xs) f = andThen (f x) (\<lambda>_. forEach xs f)"

text \<open>A loop with an accumulator; the accumulator so far is lost with an error.\<close>

fun foldEach :: "'b \<Rightarrow> 'a list \<Rightarrow> ('a \<Rightarrow> 'b \<Rightarrow> ('m, 'b) action) \<Rightarrow> ('m, 'b) action" where
  "foldEach acc [] f = ret acc"
| "foldEach acc (x # xs) f = andThen (f x acc) (\<lambda>acc. foldEach acc xs f)"

section \<open>Calls of the metadata service, the engine and the clock\<close>

definition on_meta :: "('m \<Rightarrow> ('m, 'a) meta_op) \<Rightarrow> ('m, 'a) action" where
  "on_meta f s = (case f (st_meta s) of (m, r) \<Rightarrow> (s\<lparr>st_meta := m\<rparr>, map_sum ErrMeta id r))"

definition on_engine :: "(time \<Rightarrow> Engine \<Rightarrow> Engine \<times> (eng_error + 'a)) \<Rightarrow> ('m, 'a) action" where
  "on_engine f s = (case f (st_clock s (st_tick s)) (st_engine s) of
     (e, r) \<Rightarrow> (s\<lparr>st_engine := e\<rparr>, map_sum ErrEngine id r))"

text \<open>An engine method that returns only an error.\<close>

definition on_engine_err :: "(Engine \<Rightarrow> Engine \<times> eng_error option) \<Rightarrow> ('m, unit) action" where
  "on_engine_err f s = (case f (st_engine s) of
     (e, r) \<Rightarrow> (s\<lparr>st_engine := e\<rparr>, (case r of None \<Rightarrow> Inr () | Some err \<Rightarrow> Inl (ErrEngine err))))"

definition time_now :: "('m, time) action" where
  "time_now s = (s\<lparr>st_tick := Suc (st_tick s)\<rparr>, Inr (st_clock s (st_tick s)))"

section \<open>Weakest preconditions\<close>

text \<open>\<open>wp f Q E s\<close>: run on \<open>s\<close>, the action \<open>f\<close> ends in \<open>Q\<close> with its value, or in \<open>E\<close> with its error. The
  equations below compute the precondition of a composed action from those of its parts.\<close>

named_theorems wp_simps \<open>weakest preconditions of the ways to compose actions\<close>

definition wp :: "('m, 'a) action \<Rightarrow> ('a \<Rightarrow> 'm Store \<Rightarrow> bool) \<Rightarrow> (store_error \<Rightarrow> 'm Store \<Rightarrow> bool) \<Rightarrow> 'm Store \<Rightarrow> bool" where
  "wp f Q E s = (case f s of (s', Inr x) \<Rightarrow> Q x s' | (s', Inl err) \<Rightarrow> E err s')"

lemma wp_ret [wp_simps]: "wp (ret x) Q E = Q x"
  by (simp add: wp_def ret_def fun_eq_iff)

lemma wp_throw [wp_simps]: "wp (throw err) Q E = E err"
  by (simp add: wp_def throw_def fun_eq_iff)

lemma wp_andThen [wp_simps]: "wp (andThen f g) Q E = wp f (\<lambda>x. wp (g x) Q E) E"
  by (auto simp: wp_def andThen_def fun_eq_iff split: prod.split sum.split)

lemma wp_attempt [wp_simps]: "wp (attempt f) Q E = wp f (\<lambda>x. Q (Inr x)) (\<lambda>err. Q (Inl err))"
  by (auto simp: wp_def attempt_def fun_eq_iff split: prod.split sum.split)

lemma wp_wrapErr [wp_simps]: "wp (wrapErr w f) Q E = wp f Q (\<lambda>err. E (w err))"
  by (auto simp: wp_def wrapErr_def fun_eq_iff split: prod.split sum.split)

lemma wp_lift_result [wp_simps]: "wp (lift_result r) Q E = (case r of Inl err \<Rightarrow> E err | Inr x \<Rightarrow> Q x)"
  by (simp add: wp_def lift_result_def fun_eq_iff split: sum.split)

lemma wp_time_now [wp_simps]: "wp time_now Q E = (\<lambda>s. Q (st_clock s (st_tick s)) (s\<lparr>st_tick := Suc (st_tick s)\<rparr>))"
  by (simp add: wp_def time_now_def fun_eq_iff)

lemma wp_on_meta:
  "wp (on_meta f) Q E s = (case f (st_meta s) of
     (m, Inl err) \<Rightarrow> E (ErrMeta err) (s\<lparr>st_meta := m\<rparr>) | (m, Inr x) \<Rightarrow> Q x (s\<lparr>st_meta := m\<rparr>))"
  by (auto simp: wp_def on_meta_def split: prod.split sum.split)

lemma wp_on_engine:
  "wp (on_engine f) Q E s = (case f (st_clock s (st_tick s)) (st_engine s) of
     (e, Inl err) \<Rightarrow> E (ErrEngine err) (s\<lparr>st_engine := e\<rparr>) | (e, Inr x) \<Rightarrow> Q x (s\<lparr>st_engine := e\<rparr>))"
  by (auto simp: wp_def on_engine_def split: prod.split sum.split)

lemma wp_on_engine_err:
  "wp (on_engine_err f) Q E s = (case f (st_engine s) of
     (e, Some err) \<Rightarrow> E (ErrEngine err) (s\<lparr>st_engine := e\<rparr>) | (e, None) \<Rightarrow> Q () (s\<lparr>st_engine := e\<rparr>))"
  by (auto simp: wp_def on_engine_err_def split: prod.split option.split)

lemma wp_mono:
  assumes "wp f Q E s" "\<And>x s'. Q x s' \<Longrightarrow> Q' x s'" "\<And>err s'. E err s' \<Longrightarrow> E' err s'"
  shows "wp f Q' E' s"
  using assms by (auto simp: wp_def split: prod.splits sum.splits)

lemma wpD: "wp f Q E s \<Longrightarrow> f s = (s', Inr x) \<Longrightarrow> Q x s'" "wp f Q E s \<Longrightarrow> f s = (s', Inl err) \<Longrightarrow> E err s'"
  by (simp_all add: wp_def)

lemma wpI: "(\<And>x s'. f s = (s', Inr x) \<Longrightarrow> Q x s') \<Longrightarrow> (\<And>err s'. f s = (s', Inl err) \<Longrightarrow> E err s') \<Longrightarrow> wp f Q E s"
  by (auto simp: wp_def split: prod.split sum.split)

text \<open>Loops keep an invariant that their body keeps.\<close>

lemma wp_forEach:
  assumes "I s" "\<And>x s. x \<in> set xs \<Longrightarrow> I s \<Longrightarrow> wp (f x) (\<lambda>_. I) (\<lambda>_. I) s"
  shows "wp (forEach xs f) (\<lambda>_. I) (\<lambda>_. I) s"
  using assms
proof (induction xs arbitrary: s)
  case (Cons x xs)
  have "wp (f x) (\<lambda>_. I) (\<lambda>_. I) s" using Cons.prems by simp
  then show ?case
    unfolding forEach.simps wp_andThen by (rule wp_mono) (use Cons in auto)
qed (simp add: wp_ret)

lemma wp_foldEach:
  assumes "I acc s" "\<And>x acc s. x \<in> set xs \<Longrightarrow> I acc s \<Longrightarrow> wp (f x acc) I (\<lambda>_ s. E s) s"
  shows "wp (foldEach acc xs f) I (\<lambda>_ s. E s) s"
  using assms
proof (induction xs arbitrary: acc s)
  case (Cons x xs)
  have "wp (f x acc) I (\<lambda>_ s. E s) s" using Cons.prems by simp
  then show ?case
    unfolding foldEach.simps wp_andThen by (rule wp_mono) (use Cons in auto)
qed (simp add: wp_ret)

end
