(* ===== verification/Object_Store.thy ===== *)
theory Object_Store
  imports Store_Monad
begin

text \<open>
  The object store of \<open>internal/store\<close>: buckets and objects (\<open>store.go\<close>), writing an object (\<open>put.go\<close>),
  its blob and the reference counts (\<open>blob.go\<close>), the staged input (\<open>stage.go\<close>), the write intent
  (\<open>write_intent.go\<close>) and the options of a write (\<open>options.go\<close>). Methods take the externals \<open>X\<close> and the metadata
  service \<open>M\<close>; a reader is what reading it to the end and staging it in a temporary file gives, an
  error or the bytes.
\<close>

section \<open>Options of a write\<close>

record PutOptions =
  po_ContentType :: string
  po_CacheControl :: string
  po_ContentDisposition :: string
  po_ContentEncoding :: string
  po_ContentLanguage :: string
  po_UserMetadata :: "(string, string) fmap"

definition normalizeUserMetadata :: "Externals \<Rightarrow> (string, string) fmap \<Rightarrow> (string, string) fmap" where
  "normalizeUserMetadata X input =
     fold (\<lambda>(key, value) output.
         let key = ToLower X (trim_space key); value = trim_space value
         in if key = [] \<or> value = [] then output else fmupd key value output)
       (fm_entries input) fmempty"

definition normalized :: "Externals \<Rightarrow> PutOptions \<Rightarrow> PutOptions" where
  "normalized X opts =
     \<lparr>po_ContentType = trim_space (po_ContentType opts),
      po_CacheControl = trim_space (po_CacheControl opts),
      po_ContentDisposition = trim_space (po_ContentDisposition opts),
      po_ContentEncoding = trim_space (po_ContentEncoding opts),
      po_ContentLanguage = trim_space (po_ContentLanguage opts),
      po_UserMetadata = normalizeUserMetadata X (po_UserMetadata opts)\<rparr>"

definition apply_options :: "PutOptions \<Rightarrow> ObjectMeta \<Rightarrow> ObjectMeta" where
  "apply_options opts meta =
     meta\<lparr>om_content_type := po_ContentType opts, om_cache_control := po_CacheControl opts,
          om_content_disposition := po_ContentDisposition opts, om_content_encoding := po_ContentEncoding opts,
          om_content_language := po_ContentLanguage opts, om_user_metadata := po_UserMetadata opts\<rparr>"

section \<open>Staged input\<close>

record stagedObject =
  so_data :: bytes
  so_hash :: string
  so_size :: int

definition newStagedObject :: "Externals \<Rightarrow> bytes \<Rightarrow> stagedObject" where
  "newStagedObject X data = \<lparr>so_data = data, so_hash = HashBytes X data, so_size = int (length data)\<rparr>"

definition stageObject :: "Externals \<Rightarrow> string + bytes \<Rightarrow> store_error + stagedObject" where
  "stageObject X reader =
     (case reader of Inl err \<Rightarrow> Inl (ErrText err) | Inr data \<Rightarrow> Inr (newStagedObject X data))"

section \<open>Write intents\<close>

text \<open>\<open>UnixNano\<close>: nanoseconds since the start of 1970, which is 719162 days after Go's zero time.\<close>

definition UnixNano :: "time \<Rightarrow> int" where
  "UnixNano t = t - 719162 * 86400 * 1000000000"

definition newWriteIntent :: "string \<Rightarrow> string \<Rightarrow> string \<Rightarrow> time \<Rightarrow> WriteIntent" where
  "newWriteIntent bucket key hash at =
     \<lparr>wi_id = bucket @ '':'' @ key @ '':'' @ hash @ '':'' @ show_int (UnixNano at),
      wi_stage = WriteIntentStageMetadataStaged, wi_started = at, wi_updated = at\<rparr>"

definition advanceWriteIntent :: "WriteIntent option \<Rightarrow> string \<Rightarrow> time \<Rightarrow> WriteIntent" where
  "advanceWriteIntent intent stage at =
     (case intent of
        None \<Rightarrow> \<lparr>wi_id = show_int (UnixNano at), wi_stage = stage, wi_started = at, wi_updated = at\<rparr>
      | Some i \<Rightarrow> i\<lparr>wi_stage := stage, wi_updated := at\<rparr>)"

definition updatePendingWriteIntent :: "'m MetadataStore \<Rightarrow> ObjectMeta \<Rightarrow> string \<Rightarrow> ('m, ObjectMeta) action" where
  "updatePendingWriteIntent M meta stage =
     andThen time_now (\<lambda>at.
       let intent = advanceWriteIntent (om_intent meta) stage at;
           meta = meta\<lparr>om_intent := Some intent, om_updated := wi_updated intent\<rparr>
       in andThen (wrapErr mapStoreError (on_meta (\<lambda>m. StageObjectMeta M m meta))) (\<lambda>_. ret meta))"

definition writeIntentStage :: "ObjectMeta \<Rightarrow> string" where
  "writeIntentStage meta =
     (case om_intent meta of
        None \<Rightarrow> WriteIntentStageUnknown
      | Some i \<Rightarrow> if trim_space (wi_stage i) = [] then WriteIntentStageUnknown else wi_stage i)"

section \<open>Blobs\<close>

datatype blobRefMutation = blobRefUnchanged | blobRefIncreased | blobRefCreated

definition blob_of_ref :: "string \<Rightarrow> string \<Rightarrow> BlobRef \<Rightarrow> BlobInfo" where
  "blob_of_ref hash etag ref =
     \<lparr>bi_Hash = hash, bi_ETag = etag, bi_Size = ref_size ref, bi_ShardDir = ref_path ref,
      bi_Placements = ref_placements ref, bi_Checksums = ref_checksums ref, bi_Sizes = ref_sizes ref\<rparr>"

definition engine_failed :: "store_error \<Rightarrow> store_error" where
  "engine_failed err = ErrWrap [ErrEngineFailed, err]"

text \<open>The results are the blob, whether its reference exists and whether the blob was created.\<close>

definition createBlob :: "Externals \<Rightarrow> string \<Rightarrow> stagedObject \<Rightarrow> ('m, BlobInfo \<times> bool \<times> bool) action" where
  "createBlob X key staged =
     andThen (wrapErr engine_failed (on_engine (\<lambda>_ e. PutBlobBytes X e key (so_data staged)))) (\<lambda>blob.
       if bi_Hash blob \<noteq> so_hash staged then throw (engine_failed (ErrText ''staged object hash mismatch''))
       else ret (blob, False, True))"

definition prepareBlob :: "Externals \<Rightarrow> 'm MetadataStore \<Rightarrow> string \<Rightarrow> stagedObject \<Rightarrow>
    ('m, BlobInfo \<times> bool \<times> bool) action" where
  "prepareBlob X M key staged =
     andThen (wrapErr mapStoreError (on_meta (\<lambda>m. GetBlobRef M m (so_hash staged)))) (\<lambda>r.
       case r of
         Some ref \<Rightarrow> ret (blob_of_ref (so_hash staged) (ETagFromHash (so_hash staged)) ref, True, False)
       | None \<Rightarrow> createBlob X key staged)"

definition retainBlob :: "'m MetadataStore \<Rightarrow> string \<Rightarrow> BlobInfo \<Rightarrow> bool \<Rightarrow> bool \<Rightarrow> ('m, blobRefMutation) action" where
  "retainBlob M hash blob refExists sameObjectBlob =
     (if \<not> refExists then
        andThen (wrapErr mapStoreError (on_meta (\<lambda>m. CreateBlobRef M m hash (bi_ShardDir blob) (bi_Size blob)
            (bi_Placements blob) (bi_Checksums blob) (bi_Sizes blob)))) (\<lambda>_. ret blobRefCreated)
      else if sameObjectBlob then ret blobRefUnchanged
      else andThen (wrapErr mapStoreError (on_meta (\<lambda>m. IncreaseBlobRef M m hash))) (\<lambda>_. ret blobRefIncreased))"

definition releaseBlob :: "'m MetadataStore \<Rightarrow> string \<Rightarrow> ('m, unit) action" where
  "releaseBlob M hash =
     andThen (wrapErr mapStoreError (on_meta (\<lambda>m. DecreaseBlobRef M m hash))) (\<lambda>(path, removed).
       if \<not> removed then ret ()
       else on_engine_err (\<lambda>e. DeleteBlob e path hash))"

definition objectMetaFromInfo :: "ObjectInfo \<Rightarrow> ObjectMeta" where
  "objectMetaFromInfo info =
     zero_ObjectMeta\<lparr>om_bucket := oi_Bucket info, om_key := oi_Key info, om_hash := oi_Hash info,
       om_etag := oi_ETag info, om_size := oi_Size info, om_content_type := oi_ContentType info,
       om_updated := oi_UpdatedAt info, om_state := ObjectStateCommitted, om_placements := oi_Placements info,
       om_checksums := oi_Checksums info, om_sizes := oi_Sizes info\<rparr>"

section \<open>Writing an object\<close>

record existingObject =
  ex_meta :: ObjectMeta
  ex_ref :: BlobRef
  ex_exists :: bool
  ex_refExists :: bool

definition no_existing :: existingObject where
  "no_existing = \<lparr>ex_meta = zero_ObjectMeta, ex_ref = zero_BlobRef, ex_exists = False, ex_refExists = False\<rparr>"

definition normalizeObjectLocation :: "string \<Rightarrow> string \<Rightarrow> store_error + string \<times> string" where
  "normalizeObjectLocation bucket key =
     (let bucket = trim_space bucket; key = trim_space key in
      if bucket = [] \<or> key = [] then Inl ErrBadRequest else Inr (bucket, key))"

definition ensureBucketExists :: "'m MetadataStore \<Rightarrow> string \<Rightarrow> ('m, unit) action" where
  "ensureBucketExists M bucket =
     andThen (wrapErr mapStoreError (on_meta (\<lambda>m. BucketExists M m bucket))) (\<lambda>exists.
       if \<not> exists then throw ErrBucketNotFound else ret ())"

definition loadExistingObject :: "'m MetadataStore \<Rightarrow> string \<Rightarrow> string \<Rightarrow> ('m, existingObject) action" where
  "loadExistingObject M bucket key =
     andThen (wrapErr mapStoreError (on_meta (\<lambda>m. GetObjectMeta M m bucket key))) (\<lambda>r.
       case r of
         None \<Rightarrow> ret no_existing
       | Some meta \<Rightarrow>
           andThen (wrapErr mapStoreError (on_meta (\<lambda>m. GetBlobRef M m (om_hash meta)))) (\<lambda>ref.
             ret \<lparr>ex_meta = meta, ex_ref = (case ref of None \<Rightarrow> zero_BlobRef | Some r \<Rightarrow> r), ex_exists = True,
                  ex_refExists = (ref \<noteq> None)\<rparr>))"

definition stageObjectMeta :: "'m MetadataStore \<Rightarrow> string \<Rightarrow> string \<Rightarrow> PutOptions \<Rightarrow> stagedObject \<Rightarrow>
    ('m, ObjectMeta) action" where
  "stageObjectMeta M bucket key opts staged =
     andThen time_now (\<lambda>now.
       let meta = apply_options opts (zero_ObjectMeta\<lparr>om_bucket := bucket, om_key := key, om_hash := so_hash staged,
             om_etag := ETagFromHash (so_hash staged), om_size := so_size staged, om_updated := now,
             om_state := ObjectStatePending\<rparr>);
           meta = meta\<lparr>om_intent := Some (newWriteIntent bucket key (so_hash staged) now)\<rparr>
       in andThen (wrapErr mapStoreError (on_meta (\<lambda>m. StageObjectMeta M m meta))) (\<lambda>_. ret meta))"

definition deleteStagedObjectMeta :: "'m MetadataStore \<Rightarrow> string \<Rightarrow> string \<Rightarrow> ('m, unit) action" where
  "deleteStagedObjectMeta M bucket key =
     andThen (wrapErr mapStoreError (on_meta (\<lambda>m. DeleteStagedObjectMeta M m bucket key))) (\<lambda>_. ret ())"

definition preparePutBlob :: "Externals \<Rightarrow> 'm MetadataStore \<Rightarrow> string \<Rightarrow> string \<Rightarrow> stagedObject \<Rightarrow>
    ('m, BlobInfo \<times> bool \<times> bool) action" where
  "preparePutBlob X M bucket key staged =
     andThen (attempt (prepareBlob X M key staged)) (\<lambda>r.
       case r of
         Inr prepared \<Rightarrow> ret prepared
       | Inl err \<Rightarrow>
           andThen (wrapErr (\<lambda>cleanupErr. ErrWrap [err, cleanupErr]) (deleteStagedObjectMeta M bucket key)) (\<lambda>_. throw err))"

definition linkPutLayout :: "Externals \<Rightarrow> string \<Rightarrow> string \<Rightarrow> string \<Rightarrow> BlobInfo \<Rightarrow> bool \<Rightarrow> ('m, ObjectInfo) action" where
  "linkPutLayout X bucket key contentType blob createdBlob =
     andThen time_now (\<lambda>at.
     andThen (attempt (on_engine (\<lambda>now e. LinkObject X e now bucket key blob contentType at))) (\<lambda>r.
       case r of
         Inr info \<Rightarrow> ret info
       | Inl err \<Rightarrow>
           andThen (if createdBlob
                    then wrapErr (\<lambda>cleanupErr. ErrWrap [ErrEngineFailed, err, cleanupErr])
                           (on_engine_err (\<lambda>e. DeleteBlob e (bi_ShardDir blob) (bi_Hash blob)))
                    else ret ()) (\<lambda>_. throw (engine_failed err))))"

definition releaseReplacedBlob :: "'m MetadataStore \<Rightarrow> existingObject \<Rightarrow> string \<Rightarrow> ('m, unit) action" where
  "releaseReplacedBlob M existing newHash =
     (if \<not> ex_exists existing \<or> om_hash (ex_meta existing) = newHash then ret ()
      else releaseBlob M (om_hash (ex_meta existing)))"

section \<open>Rolling a write back\<close>

definition deletePutLayout :: "Externals \<Rightarrow> string \<Rightarrow> string \<Rightarrow> ('m, unit) action" where
  "deletePutLayout X bucket key = on_engine_err (\<lambda>e. DeleteObjectLayout X e bucket key)"

definition restorePreviousLayout :: "Externals \<Rightarrow> string \<Rightarrow> string \<Rightarrow> existingObject \<Rightarrow> ('m, unit) action" where
  "restorePreviousLayout X bucket key existing =
     (if \<not> ex_exists existing \<or> \<not> ex_refExists existing then ret ()
      else let meta = ex_meta existing in
        andThen (on_engine (\<lambda>now e. LinkObject X e now bucket key
            (blob_of_ref (om_hash meta) (om_etag meta) (ex_ref existing)) (om_content_type meta) (om_updated meta)))
          (\<lambda>_. ret ()))"

definition rollbackBlobRef :: "'m MetadataStore \<Rightarrow> string \<Rightarrow> blobRefMutation \<Rightarrow> ('m, unit) action" where
  "rollbackBlobRef M hash mutation =
     (if mutation \<noteq> blobRefCreated \<and> mutation \<noteq> blobRefIncreased then ret () else releaseBlob M hash)"

definition cleanupCreatedBlob :: "BlobInfo \<Rightarrow> bool \<Rightarrow> ('m, unit) action" where
  "cleanupCreatedBlob blob createdBlob =
     (if \<not> createdBlob then ret ()
      else on_engine_err (\<lambda>e. DeleteBlob e (bi_ShardDir blob) (bi_Hash blob)))"

text \<open>\<open>errors.Join\<close>: all steps run, their errors are joined.\<close>

fun run_all :: "('m, unit) action list \<Rightarrow> ('m, store_error list) action" where
  "run_all [] = ret []"
| "run_all (f # fs) =
     andThen (attempt f) (\<lambda>r. andThen (run_all fs) (\<lambda>errs. ret ((case r of Inl err \<Rightarrow> [err] | Inr _ \<Rightarrow> []) @ errs)))"

definition rollbackPut :: "Externals \<Rightarrow> 'm MetadataStore \<Rightarrow> string \<Rightarrow> string \<Rightarrow> string \<Rightarrow> BlobInfo \<Rightarrow>
    blobRefMutation \<Rightarrow> bool \<Rightarrow> existingObject \<Rightarrow> ('m, unit) action" where
  "rollbackPut X M bucket key hash blob mutation createdBlob existing =
     andThen (run_all
         [deletePutLayout X bucket key,
          deleteStagedObjectMeta M bucket key,
          restorePreviousLayout X bucket key existing,
          rollbackBlobRef M hash mutation,
          cleanupCreatedBlob blob createdBlob])
       (\<lambda>errs. if errs = [] then ret () else throw (ErrWrap errs))"

text \<open>The error to report.\<close>

definition failPut :: "Externals \<Rightarrow> 'm MetadataStore \<Rightarrow> string \<Rightarrow> string \<Rightarrow> string \<Rightarrow> BlobInfo \<Rightarrow>
    blobRefMutation \<Rightarrow> bool \<Rightarrow> existingObject \<Rightarrow> store_error \<Rightarrow> ('m, store_error) action" where
  "failPut X M bucket key hash blob mutation createdBlob existing cause =
     andThen (attempt (rollbackPut X M bucket key hash blob mutation createdBlob existing)) (\<lambda>r.
       case r of Inl rollbackErr \<Rightarrow> ret (ErrWrap [cause, rollbackErr]) | Inr _ \<Rightarrow> ret cause)"

section \<open>The protocol of a write\<close>

text \<open>\<open>or_fail f h\<close>: the value of \<open>f\<close>, or its error as handled by \<open>h\<close>.\<close>

definition or_fail :: "('m, 'a) action \<Rightarrow> (store_error \<Rightarrow> ('m, store_error) action) \<Rightarrow> ('m, 'a) action" where
  "or_fail f h = andThen (attempt f) (\<lambda>r. case r of Inl err \<Rightarrow> andThen (h err) throw | Inr x \<Rightarrow> ret x)"

definition completePreparedPut :: "Externals \<Rightarrow> 'm MetadataStore \<Rightarrow> string \<Rightarrow> string \<Rightarrow> PutOptions \<Rightarrow> stagedObject \<Rightarrow>
    existingObject \<Rightarrow> ObjectMeta \<Rightarrow> BlobInfo \<Rightarrow> bool \<Rightarrow> bool \<Rightarrow> ('m, ObjectMeta) action" where
  "completePreparedPut X M bucket key opts staged existing pending blob refExists createdBlob =
     (let undo = (\<lambda>mutation. failPut X M bucket key (so_hash staged) blob mutation createdBlob existing) in
      andThen (or_fail (updatePendingWriteIntent M pending WriteIntentStageBlobPrepared) (undo blobRefUnchanged)) (\<lambda>pending.
      andThen (linkPutLayout X bucket key (po_ContentType opts) blob createdBlob) (\<lambda>info.
      andThen (or_fail (updatePendingWriteIntent M pending WriteIntentStageLayoutLinked) (undo blobRefUnchanged)) (\<lambda>pending.
      andThen (or_fail (retainBlob M (so_hash staged) blob refExists
          (ex_exists existing \<and> om_hash (ex_meta existing) = so_hash staged)) (undo blobRefUnchanged)) (\<lambda>mutation.
      andThen (or_fail (updatePendingWriteIntent M pending WriteIntentStageBlobRetained) (undo mutation)) (\<lambda>pending.
      andThen time_now (\<lambda>at.
        let meta = (apply_options opts (objectMetaFromInfo info))
              \<lparr>om_intent := Some (advanceWriteIntent (om_intent pending) WriteIntentStageCommitted at)\<rparr>
        in andThen (or_fail (wrapErr mapStoreError (on_meta (\<lambda>m. UpsertObjectMeta M m meta))) (undo mutation)) (\<lambda>_.
           andThen (deleteStagedObjectMeta M bucket key) (\<lambda>_.
           andThen (releaseReplacedBlob M existing (so_hash staged)) (\<lambda>_.
             ret meta))))))))))"

definition putStagedObject :: "Externals \<Rightarrow> 'm MetadataStore \<Rightarrow> string \<Rightarrow> string \<Rightarrow> PutOptions \<Rightarrow> stagedObject \<Rightarrow>
    existingObject \<Rightarrow> ('m, ObjectMeta) action" where
  "putStagedObject X M bucket key opts staged existing =
     andThen (stageObjectMeta M bucket key opts staged) (\<lambda>pending.
     andThen (preparePutBlob X M bucket key staged) (\<lambda>(blob, refExists, createdBlob).
       completePreparedPut X M bucket key opts staged existing pending blob refExists createdBlob))"

definition Store_PutObject :: "Externals \<Rightarrow> 'm MetadataStore \<Rightarrow> string \<Rightarrow> string \<Rightarrow> string + bytes \<Rightarrow> PutOptions \<Rightarrow>
    ('m, ObjectMeta) action" where
  "Store_PutObject X M bucket key reader opts =
     andThen (lift_result (normalizeObjectLocation bucket key)) (\<lambda>(bucket, key).
     andThen (ensureBucketExists M bucket) (\<lambda>_.
     andThen (loadExistingObject M bucket key) (\<lambda>existing.
     andThen (wrapErr engine_failed (lift_result (stageObject X reader))) (\<lambda>staged.
       putStagedObject X M bucket key (normalized X opts) staged existing))))"

section \<open>Reading and deleting objects\<close>

definition Store_StatObject :: "'m MetadataStore \<Rightarrow> string \<Rightarrow> string \<Rightarrow> ('m, ObjectMeta) action" where
  "Store_StatObject M bucket key =
     andThen (wrapErr mapStoreError (on_meta (\<lambda>m. GetObjectMeta M m bucket key))) (\<lambda>r.
       case r of None \<Rightarrow> throw ErrNotFound | Some meta \<Rightarrow> ret meta)"

definition Store_GetObject :: "Externals \<Rightarrow> 'm MetadataStore \<Rightarrow> string \<Rightarrow> string \<Rightarrow> ('m, bytes \<times> ObjectMeta) action" where
  "Store_GetObject X M bucket key =
     andThen (wrapErr mapStoreError (on_meta (\<lambda>m. GetObjectMeta M m bucket key))) (\<lambda>r.
       case r of
         None \<Rightarrow> throw ErrNotFound
       | Some meta \<Rightarrow>
           andThen (wrapErr mapStoreError (on_engine (\<lambda>now e. GetObject X e now bucket key))) (\<lambda>(data, info).
             ret (data, meta)))"

definition Store_DeleteObject :: "Externals \<Rightarrow> 'm MetadataStore \<Rightarrow> string \<Rightarrow> string \<Rightarrow> ('m, ObjectMeta) action" where
  "Store_DeleteObject X M bucket key =
     andThen (wrapErr mapStoreError (on_meta (\<lambda>m. GetObjectMeta M m bucket key))) (\<lambda>r.
       case r of
         None \<Rightarrow> throw ErrNotFound
       | Some objMeta \<Rightarrow>
           andThen (wrapErr mapStoreError (on_meta (\<lambda>m. DeleteObjectMeta M m bucket key))) (\<lambda>_.
           andThen (attempt (on_engine_err (\<lambda>e. DeleteObjectLayout X e bucket key))) (\<lambda>layout.
           andThen (releaseBlob M (om_hash objMeta)) (\<lambda>_.
             case layout of
               Inl layoutErr \<Rightarrow>
                 if error_is layoutErr (ErrEngine EObjectNotFound) then ret objMeta
                 else throw (mapStoreError layoutErr)
             | Inr _ \<Rightarrow> ret objMeta))))"

section \<open>Buckets\<close>

definition Store_ListBuckets :: "'m MetadataStore \<Rightarrow> ('m, Bucket list) action" where
  "Store_ListBuckets M =
     andThen time_now (\<lambda>now. wrapErr mapStoreError (on_meta (\<lambda>m. ListBuckets M m now)))"

definition Store_CreateBucket :: "'m MetadataStore \<Rightarrow> string \<Rightarrow> ('m, unit) action" where
  "Store_CreateBucket M name =
     (let name = trim_space name in
      if name = [] then throw ErrBadRequest
      else andThen time_now (\<lambda>now. wrapErr mapStoreError (on_meta (\<lambda>m. CreateBucket M m now name))))"

definition Store_DeleteBucket :: "Externals \<Rightarrow> 'm MetadataStore \<Rightarrow> string \<Rightarrow> ('m, unit) action" where
  "Store_DeleteBucket X M name =
     (let name = trim_space name in
      if name = [] then throw ErrBadRequest
      else
        andThen (wrapErr mapStoreError (on_meta (\<lambda>m. ListObjectMetas M m name []))) (\<lambda>objects.
        andThen (forEach objects (\<lambda>meta.
            andThen (attempt (Store_DeleteObject X M (om_bucket meta) (om_key meta))) (\<lambda>r.
              case r of
                Inl err \<Rightarrow> if error_is err ErrNotFound then ret () else throw (ErrWrap [err])
              | Inr _ \<Rightarrow> ret ()))) (\<lambda>_.
          wrapErr mapStoreError (on_meta (\<lambda>m. DeleteBucket M m name)))))"

definition Store_ListObjects :: "'m MetadataStore \<Rightarrow> string \<Rightarrow> string \<Rightarrow> ('m, ObjectMeta list) action" where
  "Store_ListObjects M bucket prefix =
     (let bucket = trim_space bucket in
      andThen (wrapErr mapStoreError (on_meta (\<lambda>m. BucketExists M m bucket))) (\<lambda>exists.
        if \<not> exists then throw ErrBucketNotFound
        else wrapErr mapStoreError (on_meta (\<lambda>m. ListObjectMetas M m bucket prefix))))"

section \<open>Health of one object\<close>

definition Store_CheckHealth :: "Externals \<Rightarrow> string \<Rightarrow> string \<Rightarrow> ('m, Health) action" where
  "Store_CheckHealth X bucket key = wrapErr mapStoreError (on_engine (\<lambda>_ e. CheckHealth X e bucket key))"

text \<open>The engine returns a result beside the error; the store drops it.\<close>

definition drop_result :: "Engine \<times> 'a option \<times> eng_error option \<Rightarrow> Engine \<times> (eng_error + 'a option)" where
  "drop_result r = (case r of (e, result, None) \<Rightarrow> (e, Inr result) | (e, _, Some err) \<Rightarrow> (e, Inl err))"

definition Store_ScrubObject :: "Externals \<Rightarrow> 'm MetadataStore \<Rightarrow> string \<Rightarrow> string \<Rightarrow> ('m, ScrubResult option) action" where
  "Store_ScrubObject X M bucket key =
     andThen (Store_StatObject M bucket key) (\<lambda>_.
       wrapErr mapStoreError (on_engine (\<lambda>_ e. drop_result (ScrubObject X e bucket key))))"

definition Store_RepairObject :: "Externals \<Rightarrow> 'm MetadataStore \<Rightarrow> string \<Rightarrow> string \<Rightarrow> ('m, RepairResult option) action" where
  "Store_RepairObject X M bucket key =
     andThen (Store_StatObject M bucket key) (\<lambda>_.
       wrapErr mapStoreError (on_engine (\<lambda>_ e. drop_result (RepairObject X e bucket key))))"

section \<open>Moving objects off a node\<close>

record RebalanceResult =
  re_NodeID :: string
  re_Objects :: nat
  re_Shards :: nat

definition metaUsesNode :: "ObjectMeta \<Rightarrow> string \<Rightarrow> bool" where
  "metaUsesNode meta nodeID \<longleftrightarrow> list_ex (\<lambda>p. pl_node p = nodeID) (om_placements meta)"

definition rebalanceObject :: "Externals \<Rightarrow> 'm MetadataStore \<Rightarrow> ObjectMeta \<Rightarrow> string \<Rightarrow> RebalanceResult \<Rightarrow>
    ('m, RebalanceResult) action" where
  "rebalanceObject X M meta nodeID result =
     andThen (wrapErr mapStoreError (on_engine (\<lambda>now e.
         RebalanceObjectFromNode X e now (om_bucket meta) (om_key meta) nodeID))) (\<lambda>rebalance.
       if rb_Moved rebalance = [] then ret result
       else let meta = meta\<lparr>om_placements := oi_Placements (rb_Object rebalance)\<rparr> in
         andThen (wrapErr mapStoreError (on_meta (\<lambda>m. UpsertObjectMeta M m meta))) (\<lambda>_.
         andThen (wrapErr mapStoreError (on_meta (\<lambda>m. UpdateBlobRefPlacements M m (om_hash meta) (om_placements meta)))) (\<lambda>_.
           ret (result\<lparr>re_Objects := Suc (re_Objects result),
                       re_Shards := re_Shards result + length (rb_Moved rebalance)\<rparr>))))"

definition rebalanceBucket :: "Externals \<Rightarrow> 'm MetadataStore \<Rightarrow> string \<Rightarrow> string \<Rightarrow> RebalanceResult \<Rightarrow>
    ('m, RebalanceResult) action" where
  "rebalanceBucket X M bucket nodeID result =
     andThen (Store_ListObjects M bucket []) (\<lambda>objects.
       foldEach result (filter (\<lambda>meta. metaUsesNode meta nodeID) objects)
         (\<lambda>meta. rebalanceObject X M meta nodeID))"

text \<open>The result returned beside an error is not modelled.\<close>

definition RebalanceNode :: "Externals \<Rightarrow> 'm MetadataStore \<Rightarrow> string \<Rightarrow> ('m, RebalanceResult) action" where
  "RebalanceNode X M nodeID =
     andThen (Store_ListBuckets M) (\<lambda>buckets.
       foldEach \<lparr>re_NodeID = nodeID, re_Objects = 0, re_Shards = 0\<rparr> buckets
         (\<lambda>bucket. rebalanceBucket X M (bkt_name bucket) nodeID))"

end
