(* ===== verification/Store_Calls.thy ===== *)
theory Store_Calls
  imports Object_Store
begin

text \<open>
  What the operations of the store do when the metadata service answers (no transport failure is
  pending): rules for the weakest precondition of each of its steps, proved in the locale
  \<open>metadata_store\<close> and therefore valid over both metadata implementations. The engine is arbitrary.
  A position of the store is given by the abstract view \<open>v\<close> of its metadata, up to the staged objects, and
  by its engine \<open>e\<close>.
\<close>

definition same_core :: "meta_view \<Rightarrow> meta_view \<Rightarrow> bool" where
  "same_core v v' \<longleftrightarrow> mv_buckets v = mv_buckets v' \<and> mv_objects v = mv_objects v' \<and> mv_refs v = mv_refs v'"

definition at_view :: "('m \<Rightarrow> meta_view) \<Rightarrow> ('m \<Rightarrow> bool) \<Rightarrow> ('m \<Rightarrow> bool) \<Rightarrow> meta_view \<Rightarrow> Engine \<Rightarrow> 'm Store \<Rightarrow> bool" where
  "at_view view ok quiet v e s \<longleftrightarrow> ok (st_meta s) \<and> quiet (st_meta s) \<and> same_core (view (st_meta s)) v \<and> st_engine s = e"

lemma at_view_updates [simp]:
  "at_view view ok quiet v e (s\<lparr>st_tick := t\<rparr>) = at_view view ok quiet v e s"
  "at_view view ok quiet v e (s\<lparr>st_recovery := r\<rparr>) = at_view view ok quiet v e s"
  by (simp_all add: at_view_def)

lemma at_view_core: "at_view view ok quiet v' e s \<Longrightarrow> same_core v' v \<Longrightarrow> at_view view ok quiet v e s"
  by (simp add: at_view_def same_core_def)

lemma at_view_engine: "at_view view ok quiet v e s \<Longrightarrow> at_view view ok quiet v e' (s\<lparr>st_engine := e'\<rparr>)"
  by (simp add: at_view_def)

lemma wp_or_fail:
  assumes "wp f Q (\<lambda>_ _. False) s"
  shows "wp (or_fail f h) Q E s"
  unfolding or_fail_def wp_simps using assms by (rule wp_mono) (simp_all add: wp_simps)

text \<open>The metadata of an existing object, and the blob a write uses.\<close>

definition existing_of :: "meta_view \<Rightarrow> string \<Rightarrow> string \<Rightarrow> existingObject" where
  "existing_of v b k =
     (case fmlookup (mv_objects v) (object_key b k) of
        None \<Rightarrow> no_existing
      | Some x \<Rightarrow> \<lparr>ex_meta = x,
          ex_ref = (case fmlookup (mv_refs v) (om_hash x) of None \<Rightarrow> zero_BlobRef | Some r \<Rightarrow> r\<lparr>ref_hash := om_hash x\<rparr>),
          ex_exists = True, ex_refExists = (fmlookup (mv_refs v) (om_hash x) \<noteq> None)\<rparr>)"

definition put_retained :: "meta_view \<Rightarrow> string \<Rightarrow> BlobInfo \<Rightarrow> bool \<Rightarrow> bool \<Rightarrow> meta_view" where
  "put_retained v h blob refExists same =
     (if \<not> refExists
      then fst (spec_CreateBlobRef v h (bi_ShardDir blob) (bi_Size blob) (bi_Placements blob) (bi_Checksums blob) (bi_Sizes blob))
      else if same then v else fst (spec_IncreaseBlobRef v h))"

context metadata_store
begin

abbreviation position :: "meta_view \<Rightarrow> Engine \<Rightarrow> 'm Store \<Rightarrow> bool" where
  "position \<equiv> at_view view ok quiet"

lemma positionD:
  assumes "position v e s"
  shows "ok (st_meta s)" "quiet (st_meta s)" "same_core (view (st_meta s)) v" "st_engine s = e"
  using assms by (auto simp: at_view_def)

text \<open>A call that refines the abstract operation \<open>a\<close> moves the store as \<open>a\<close> does.\<close>

lemma call_wp:
  assumes "position v e s"
    and "ok (st_meta s) \<Longrightarrow> same_core (view (st_meta s)) v \<Longrightarrow>
      refines view ok quiet (st_meta s) (f (st_meta s)) (a (view (st_meta s)))"
    and "\<And>v' s. same_core v' v \<Longrightarrow> position (fst (a v')) e s \<Longrightarrow>
      (case snd (a v') of Inl err \<Rightarrow> E (ErrMeta err) s | Inr x \<Rightarrow> Q x s)"
  shows "wp (on_meta f) Q E s"
proof -
  note p = positionD [OF assms(1)]
  let ?v = "view (st_meta s)"
  obtain m r where f: "f (st_meta s) = (m, r)" by fastforce
  have r: "ok m" "quiet m" "view m = fst (a ?v)" "r = snd (a ?v)"
    using assms(2) [OF p(1,3)] p(2) by (auto simp: refines_def f)
  then have "position (fst (a ?v)) e (s\<lparr>st_meta := m\<rparr>)"
    using p(4) by (simp add: at_view_def same_core_def)
  from assms(3) [OF p(3) this] r(4) show ?thesis
    by (auto simp: wp_on_meta f split: sum.splits)
qed

lemma ensureBucketExists_wp:
  assumes "position v e s" "clean_bucket b"
    and "\<And>s. b |\<in>| mv_buckets v \<Longrightarrow> position v e s \<Longrightarrow> Q () s"
    and "\<And>s. b |\<notin>| mv_buckets v \<Longrightarrow> position v e s \<Longrightarrow> E ErrBucketNotFound s"
  shows "wp (ensureBucketExists M b) Q E s"
  unfolding ensureBucketExists_def wp_simps
  by (rule call_wp [OF assms(1), where a = "\<lambda>v. spec_BucketExists v b"])
     (erule BucketExists [OF _ assms(2)], use assms(3,4) in \<open>auto simp: spec_BucketExists_def wp_simps same_core_def at_view_def\<close>)

lemma get_object_wp:
  assumes "position v e s" "clean_bucket b" "clean_name k"
    and "\<And>s. position v e s \<Longrightarrow> Q (fmlookup (mv_objects v) (object_key b k)) s"
  shows "wp (on_meta (\<lambda>m. GetObjectMeta M m b k)) Q E s"
  by (rule call_wp [OF assms(1), where a = "\<lambda>v. spec_GetObjectMeta v b k"])
     (erule GetObjectMeta [OF _ assms(2,3)], use assms(4) in \<open>auto simp: spec_GetObjectMeta_def same_core_def at_view_def\<close>)

lemma get_ref_wp:
  assumes "position v e s" "clean_name h"
    and "\<And>s. position v e s \<Longrightarrow> Q (map_option (\<lambda>r. r\<lparr>ref_hash := h\<rparr>) (fmlookup (mv_refs v) h)) s"
  shows "wp (on_meta (\<lambda>m. GetBlobRef M m h)) Q E s"
  by (rule call_wp [OF assms(1), where a = "\<lambda>v. spec_GetBlobRef v h"])
     (erule GetBlobRef [OF _ assms(2)], use assms(3) in \<open>auto simp: spec_GetBlobRef_def same_core_def at_view_def\<close>)

lemma loadExistingObject_wp:
  assumes "position v e s" "clean_bucket b" "clean_name k" "fmpred (\<lambda>_ x. clean_meta x) (mv_objects v)"
    and "\<And>s. position v e s \<Longrightarrow> Q (existing_of v b k) s"
  shows "wp (loadExistingObject M b k) Q E s"
  unfolding loadExistingObject_def wp_simps
proof (rule get_object_wp [OF assms(1-3)])
  fix s assume s: "position v e s"
  show "wp (case fmlookup (mv_objects v) (object_key b k) of None \<Rightarrow> ret no_existing
      | Some meta \<Rightarrow> andThen (wrapErr mapStoreError (on_meta (\<lambda>m. GetBlobRef M m (om_hash meta)))) (\<lambda>ref.
          ret \<lparr>ex_meta = meta, ex_ref = case ref of None \<Rightarrow> zero_BlobRef | Some r \<Rightarrow> r, ex_exists = True, ex_refExists = ref \<noteq> None\<rparr>)) Q E s"
  proof (cases "fmlookup (mv_objects v) (object_key b k)")
    case None
    then show ?thesis using assms(5) s by (simp add: wp_simps existing_of_def)
  next
    case (Some x)
    then have "clean_name (om_hash x)" using assms(4) by (auto simp: clean_meta_def dest: fmpredD)
    from s this have "wp (on_meta (\<lambda>m. GetBlobRef M m (om_hash x))) (\<lambda>r s. position v e s \<and>
        r = map_option (\<lambda>r. r\<lparr>ref_hash := om_hash x\<rparr>) (fmlookup (mv_refs v) (om_hash x))) (\<lambda>_ _. False) s"
      by (rule get_ref_wp) simp
    then show ?thesis
      unfolding Some option.case wp_simps
      by (rule wp_mono) (use Some assms(5) in \<open>auto simp: wp_simps existing_of_def split: option.splits\<close>)
  qed
qed

lemma stage_wp:
  assumes "position v e s" "clean_meta x" "om_bucket x |\<in>| mv_buckets v" "\<And>s. position v e s \<Longrightarrow> Q () s"
  shows "wp (on_meta (\<lambda>m. StageObjectMeta M m x)) Q E s"
  by (rule call_wp [OF assms(1), where a = "\<lambda>v. spec_StageObjectMeta v x"])
     (erule StageObjectMeta [OF _ assms(2)], use assms(3,4) in \<open>auto simp: spec_StageObjectMeta_def same_core_def at_view_def\<close>)

lemma deleteStagedObjectMeta_wp:
  assumes "position v e s" "clean_bucket b" "clean_name k" "\<And>s. position v e s \<Longrightarrow> Q () s"
  shows "wp (deleteStagedObjectMeta M b k) Q E s"
  unfolding deleteStagedObjectMeta_def wp_simps
  by (rule call_wp [OF assms(1), where a = "\<lambda>v. spec_DeleteStagedObjectMeta v b k"])
     (erule DeleteStagedObjectMeta [OF _ assms(2,3)], use assms(4) in \<open>auto simp: spec_DeleteStagedObjectMeta_def same_core_def at_view_def\<close>)

lemma upsert_wp:
  assumes "position v e s" "clean_meta x" "om_bucket x |\<in>| mv_buckets v"
    and "\<And>s. position (fst (spec_UpsertObjectMeta v x)) e s \<Longrightarrow> Q () s"
  shows "wp (on_meta (\<lambda>m. UpsertObjectMeta M m x)) Q E s"
  by (rule call_wp [OF assms(1), where a = "\<lambda>v. spec_UpsertObjectMeta v x"])
     (erule UpsertObjectMeta [OF _ assms(2)], use assms(3,4) in \<open>auto simp: spec_UpsertObjectMeta_def same_core_def at_view_def\<close>)

lemma delete_object_wp:
  assumes "position v e s" "clean_bucket b" "clean_name k"
    and "\<And>s r. position (fst (spec_DeleteObjectMeta v b k)) e s \<Longrightarrow> Q r s"
  shows "wp (on_meta (\<lambda>m. DeleteObjectMeta M m b k)) Q E s"
  by (rule call_wp [OF assms(1), where a = "\<lambda>v. spec_DeleteObjectMeta v b k"])
     (erule DeleteObjectMeta [OF _ assms(2,3)], use assms(4) in \<open>auto simp: spec_DeleteObjectMeta_def same_core_def at_view_def\<close>)

lemma increase_wp:
  assumes "position v e s" "clean_name h" "fmlookup (mv_refs v) h \<noteq> None"
    and "\<And>s. position (fst (spec_IncreaseBlobRef v h)) e s \<Longrightarrow> Q () s"
  shows "wp (on_meta (\<lambda>m. IncreaseBlobRef M m h)) Q E s"
  by (rule call_wp [OF assms(1), where a = "\<lambda>v. spec_IncreaseBlobRef v h"])
     (erule IncreaseBlobRef [OF _ assms(2)], use assms(3,4) in \<open>auto simp: spec_IncreaseBlobRef_def spec_update_ref_def same_core_def at_view_def\<close>)

lemma create_ref_wp:
  assumes "position v e s" "clean_name h" "trim_space p \<noteq> []" "fmlookup (mv_refs v) h = None"
    and "\<And>s. position (fst (spec_CreateBlobRef v h p n ps cs ns)) e s \<Longrightarrow> Q () s"
  shows "wp (on_meta (\<lambda>m. CreateBlobRef M m h p n ps cs ns)) Q E s"
  by (rule call_wp [OF assms(1), where a = "\<lambda>v. spec_CreateBlobRef v h p n ps cs ns"])
     (erule CreateBlobRef [OF _ assms(2,3)], use assms(4,5) in \<open>auto simp: spec_CreateBlobRef_def same_core_def at_view_def\<close>)

text \<open>Releasing a blob: the last reference removes it, and then the engine deletes its shard set.\<close>

lemma releaseBlob_wp:
  assumes "position v e s" "clean_name h" "fmlookup (mv_refs v) h = Some ref"
    and "\<And>s. 1 < ref_count ref \<Longrightarrow> position (fst (spec_DecreaseBlobRef v h)) e s \<Longrightarrow> Q () s"
    and "\<And>s e'. ref_count ref \<le> 1 \<Longrightarrow> DeleteBlob e (ref_path ref) h = (e', None) \<Longrightarrow>
      position (fst (spec_DecreaseBlobRef v h)) e' s \<Longrightarrow> Q () s"
    and "\<And>s e' err. ref_count ref \<le> 1 \<Longrightarrow> DeleteBlob e (ref_path ref) h = (e', Some err) \<Longrightarrow>
      position (fst (spec_DecreaseBlobRef v h)) e' s \<Longrightarrow> E (ErrEngine err) s"
  shows "wp (releaseBlob M h) Q E s"
proof -
  note p = positionD [OF assms(1)]
  let ?v = "view (st_meta s)"
  obtain m r where f: "DecreaseBlobRef M (st_meta s) h = (m, r)" by fastforce
  have ref: "fmlookup (mv_refs ?v) h = Some ref" using p(3) assms(3) by (simp add: same_core_def)
  then have "refines view ok quiet (st_meta s) (norm_release (m, r)) (spec_DecreaseBlobRef ?v h)"
    using DecreaseBlobRef [OF p(1) assms(2)] by (simp add: f)
  moreover have "fst (norm_release (m, r)) = m"
    by (auto simp: norm_release_def split: sum.splits bool.splits)
  ultimately have n: "ok m" "quiet m" "view m = fst (spec_DecreaseBlobRef ?v h)"
    "snd (norm_release (m, r)) = snd (spec_DecreaseBlobRef ?v h)"
    using p(2) by (auto simp: refines_def)
  have pos: "position (fst (spec_DecreaseBlobRef v h)) e (s\<lparr>st_meta := m\<rparr>)"
    using n(1-3) p(3,4) assms(3) by (auto simp: at_view_def spec_DecreaseBlobRef_def same_core_def)
  show ?thesis
  proof (cases "ref_count ref \<le> 1")
    case True
    then have "r = Inr (ref_path ref, True)"
      using n(4) ref by (auto simp: spec_DecreaseBlobRef_def norm_release_def split: sum.splits bool.splits)
    moreover have "wp (on_engine_err (\<lambda>e. DeleteBlob e (ref_path ref) h)) Q E (s\<lparr>st_meta := m\<rparr>)"
      unfolding wp_on_engine_err using assms(5,6) True pos p(4) at_view_engine [OF pos]
      by (auto split: option.splits)
    ultimately show ?thesis by (simp add: releaseBlob_def wp_andThen wp_wrapErr wp_on_meta f)
  next
    case False
    then obtain q where "r = Inr (q, False)"
      using n(4) ref by (auto simp: spec_DecreaseBlobRef_def norm_release_def split: sum.splits bool.splits)
    then show ?thesis
      using assms(4) [OF _ pos] False by (simp add: releaseBlob_def wp_andThen wp_wrapErr wp_on_meta f wp_ret)
  qed
qed

end

end
