(* ===== verification/Store_Put.thy ===== *)
theory Store_Put
  imports Store_Calls
begin

text \<open>
  The outcome of writing and of deleting an object, when the metadata service answers. \<open>put_outcome\<close>
  names the engine calls a successful write makes and the abstract metadata after it; the rules
  \<open>Store_PutObject_wp\<close> and \<open>Store_DeleteObject_wp\<close> reduce the protocols of \<open>put.go\<close> and \<open>store.go\<close> to it, on every path.
\<close>

section \<open>Outcomes\<close>

text \<open>The blob a write of \<open>data\<close> under key \<open>k\<close> uses: the referenced one, or a new one.\<close>

definition prepared :: "Externals \<Rightarrow> meta_view \<Rightarrow> Engine \<Rightarrow> string \<Rightarrow> bytes \<Rightarrow> Engine \<Rightarrow> BlobInfo \<Rightarrow> bool" where
  "prepared X v e k data e' blob \<longleftrightarrow>
     (case fmlookup (mv_refs v) (HashBytes X data) of
        Some ref \<Rightarrow> e' = e \<and> blob = blob_of_ref (HashBytes X data) (ETagFromHash (HashBytes X data)) ref
      | None \<Rightarrow> PutBlobBytes X e k data = (e', Inr blob))"

text \<open>The metadata after the release of a replaced or deleted blob, and the engine.\<close>

definition released :: "meta_view \<Rightarrow> Engine \<Rightarrow> string \<Rightarrow> meta_view \<Rightarrow> Engine \<Rightarrow> eng_error option \<Rightarrow> bool" where
  "released v e h v' e' err \<longleftrightarrow> v' = fst (spec_DecreaseBlobRef v h) \<and>
     (case fmlookup (mv_refs v) h of
        None \<Rightarrow> False
      | Some ref \<Rightarrow> if ref_count ref \<le> 1 then DeleteBlob e (ref_path ref) h = (e', err) else e' = e \<and> err = None)"

definition put_meta :: "PutOptions \<Rightarrow> ObjectInfo \<Rightarrow> WriteIntent \<Rightarrow> ObjectMeta" where
  "put_meta opts info intent = (apply_options opts (objectMetaFromInfo info))\<lparr>om_intent := Some intent\<rparr>"

definition put_committed :: "Externals \<Rightarrow> meta_view \<Rightarrow> string \<Rightarrow> string \<Rightarrow> bytes \<Rightarrow> BlobInfo \<Rightarrow> ObjectMeta \<Rightarrow> meta_view" where
  "put_committed X v b k data blob meta =
     (let h = HashBytes X data; old = fmlookup (mv_objects v) (object_key b k) in
      fst (spec_UpsertObjectMeta
        (put_retained v h blob (fmlookup (mv_refs v) h \<noteq> None) (map_option om_hash old = Some h)) meta))"

text \<open>From \<open>(v, e)\<close>, a write of \<open>data\<close> that got as far as committing its metadata ends in \<open>(v', e')\<close>.\<close>

definition put_outcome :: "Externals \<Rightarrow> meta_view \<Rightarrow> Engine \<Rightarrow> string \<Rightarrow> string \<Rightarrow> bytes \<Rightarrow> PutOptions \<Rightarrow>
    ObjectMeta \<Rightarrow> meta_view \<Rightarrow> Engine \<Rightarrow> eng_error option \<Rightarrow> bool" where
  "put_outcome X v e b k data opts meta v' e' err \<longleftrightarrow>
     (\<exists>e1 blob e2 info intent now at. prepared X v e k data e1 blob \<and>
        LinkObject X e1 now b k blob (po_ContentType opts) at = (e2, Inr info) \<and>
        meta = put_meta opts info intent \<and>
        (let v2 = put_committed X v b k data blob meta;
             old = fmlookup (mv_objects v) (object_key b k)
         in case old of
              Some x \<Rightarrow> if om_hash x = HashBytes X data then v' = v2 \<and> e' = e2 \<and> err = None
                        else released v2 e2 (om_hash x) v' e' err
            | None \<Rightarrow> v' = v2 \<and> e' = e2 \<and> err = None))"

text \<open>The engine after a write that failed before its metadata was committed.\<close>

definition put_failed :: "Externals \<Rightarrow> meta_view \<Rightarrow> Engine \<Rightarrow> string \<Rightarrow> string \<Rightarrow> bytes \<Rightarrow> PutOptions \<Rightarrow> Engine \<Rightarrow> bool" where
  "put_failed X v e b k data opts e' \<longleftrightarrow>
     (\<exists>err. fmlookup (mv_refs v) (HashBytes X data) = None \<and> PutBlobBytes X e k data = (e', Inl err)) \<or>
     (\<exists>e1 blob e2 now at err. prepared X v e k data e1 blob \<and>
        LinkObject X e1 now b k blob (po_ContentType opts) at = (e2, Inl err) \<and>
        e' = (if fmlookup (mv_refs v) (HashBytes X data) = None
              then fst (DeleteBlob e2 (bi_ShardDir blob) (bi_Hash blob)) else e2))"

lemma put_failed_link:
  "prepared X v e k data e1 blob \<Longrightarrow> LinkObject X e1 now b k blob (po_ContentType opts) at = (e2, Inl err) \<Longrightarrow>
     put_failed X v e b k data opts (if fmlookup (mv_refs v) (HashBytes X data) = None
       then fst (DeleteBlob e2 (bi_ShardDir blob) (bi_Hash blob)) else e2)"
  unfolding put_failed_def by blast

text \<open>Objects have clean names, and the blobs they use have references.\<close>

definition covered :: "meta_view \<Rightarrow> bool" where
  "covered v \<longleftrightarrow> fmpred (\<lambda>_ x. clean_meta x \<and> fmlookup (mv_refs v) (om_hash x) \<noteq> None) (mv_objects v)"

lemma LinkObject_info:
  assumes "LinkObject X e now b k blob ct t = (e', Inr info)"
  shows "oi_Bucket info = trim_space b" "oi_Key info = trim_space k" "oi_Hash info = trim_space (bi_Hash blob)" "oi_Size info = bi_Size blob"
  using assms by (auto simp: LinkObject_def link_info_def link_layout_def normalize_blob_def Let_def
      split: if_splits prod.splits option.splits)

text \<open>The metadata a write commits is that of its object and of its data.\<close>

lemma put_meta_fields:
  assumes "prepared X v e k data e1 blob" "LinkObject X e1 now b k blob ct at = (e2, Inr info)"
    and "hash_clean X" "clean_bucket b" "clean_name k"
  shows "clean_meta (put_meta opts info w)" "om_bucket (put_meta opts info w) = b" "om_key (put_meta opts info w) = k"
    "om_hash (put_meta opts info w) = HashBytes X data" "om_size (put_meta opts info w) = bi_Size blob"
proof -
  have "bi_Hash blob = HashBytes X data"
    using assms(1) by (auto simp: prepared_def blob_of_ref_def split: option.splits elim: PutBlobBytes_success)
  then have "oi_Bucket info = b" "oi_Key info = k" "oi_Hash info = HashBytes X data" "oi_Size info = bi_Size blob"
    using LinkObject_info [OF assms(2)] assms(3-5) by (simp_all add: clean_bucket_def clean_name_def hash_clean_def)
  then show "clean_meta (put_meta opts info w)" "om_bucket (put_meta opts info w) = b" "om_key (put_meta opts info w) = k"
    "om_hash (put_meta opts info w) = HashBytes X data" "om_size (put_meta opts info w) = bi_Size blob"
    using assms(3-5) by (simp_all add: put_meta_def apply_options_def objectMetaFromInfo_def clean_meta_def hash_clean_def clean_name_def)
qed

context metadata_store
begin

lemma stageObjectMeta_wp:
  assumes "position v e s" "clean_bucket b" "clean_name k" "clean_name (so_hash st)" "b |\<in>| mv_buckets v"
    and "\<And>s x. position v e s \<Longrightarrow> clean_meta x \<Longrightarrow> om_bucket x = b \<Longrightarrow> om_key x = k \<Longrightarrow> Q x s"
  shows "wp (stageObjectMeta M b k opts st) Q E s"
  unfolding stageObjectMeta_def wp_simps Let_def
  by (rule stage_wp [of v e]) (use assms in \<open>auto simp: clean_meta_def apply_options_def wp_simps\<close>)

lemma updatePendingWriteIntent_wp:
  assumes "position v e s" "clean_meta x" "om_bucket x |\<in>| mv_buckets v"
    and "\<And>s y. position v e s \<Longrightarrow> clean_meta y \<Longrightarrow> om_bucket y = om_bucket x \<Longrightarrow> om_key y = om_key x \<Longrightarrow> Q y s"
  shows "wp (updatePendingWriteIntent M x stage) Q E s"
  unfolding updatePendingWriteIntent_def wp_simps Let_def
  by (rule stage_wp [of v e]) (use assms in \<open>auto simp: clean_meta_def wp_simps\<close>)

lemma prepareBlob_wp:
  assumes "position v e s" "hash_clean X" "st = newStagedObject X data"
    and "\<And>s e' blob. position v e' s \<Longrightarrow> prepared X v e k data e' blob \<Longrightarrow>
      Q (blob, fmlookup (mv_refs v) (HashBytes X data) \<noteq> None, fmlookup (mv_refs v) (HashBytes X data) = None) s"
    and "\<And>s e' err err'. position v e' s \<Longrightarrow> fmlookup (mv_refs v) (HashBytes X data) = None \<Longrightarrow>
      PutBlobBytes X e k data = (e', Inl err') \<Longrightarrow> E err s"
  shows "wp (prepareBlob X M k st) Q E s"
  unfolding prepareBlob_def wp_simps
proof (rule get_ref_wp [OF assms(1)])
  let ?h = "HashBytes X data"
  show "clean_name (so_hash st)"
    using assms(2,3) by (simp add: newStagedObject_def hash_clean_def clean_name_def)
  have sh: "so_hash st = ?h" "so_data st = data" using assms(3) by (simp_all add: newStagedObject_def)
  fix s assume s: "position v e s"
  show "wp (case map_option (\<lambda>r. r\<lparr>ref_hash := so_hash st\<rparr>) (fmlookup (mv_refs v) (so_hash st)) of
      None \<Rightarrow> createBlob X k st
    | Some ref \<Rightarrow> ret (blob_of_ref (so_hash st) (ETagFromHash (so_hash st)) ref, True, False)) Q E s"
  proof (cases "fmlookup (mv_refs v) ?h")
    case (Some ref)
    moreover have "blob_of_ref ?h t (ref\<lparr>ref_hash := ?h\<rparr>) = blob_of_ref ?h t ref" for t
      by (simp add: blob_of_ref_def)
    ultimately show ?thesis
      using assms(4) [OF s] by (simp add: wp_simps sh prepared_def)
  next
    case None
    have hash: "bi_Hash blob = ?h" if "PutBlobBytes X e k data = (e', Inr blob)" for e' blob
      by (rule PutBlobBytes_success [OF that]) simp
    obtain e' r where p: "PutBlobBytes X e k data = (e', r)" by fastforce
    have e: "st_engine s = e" "position v e' (s\<lparr>st_engine := e'\<rparr>)"
      using positionD(4) [OF s] at_view_engine [OF s] by simp_all
    show ?thesis
    proof (cases r)
      case (Inl err)
      then show ?thesis
        using assms(5) [OF e(2) None] p None by (simp add: createBlob_def wp_simps wp_on_engine sh e(1))
    next
      case (Inr blob)
      then show ?thesis
        using assms(4) [OF e(2), of blob] p None hash [OF p [unfolded Inr]]
        by (simp add: createBlob_def wp_simps wp_on_engine sh e(1) prepared_def)
    qed
  qed
qed

lemma preparePutBlob_wp:
  assumes "position v e s" "hash_clean X" "st = newStagedObject X data" "clean_bucket b" "clean_name k"
    and "\<And>s e' blob. position v e' s \<Longrightarrow> prepared X v e k data e' blob \<Longrightarrow>
      Q (blob, fmlookup (mv_refs v) (HashBytes X data) \<noteq> None, fmlookup (mv_refs v) (HashBytes X data) = None) s"
    and "\<And>s e' err err'. position v e' s \<Longrightarrow> fmlookup (mv_refs v) (HashBytes X data) = None \<Longrightarrow>
      PutBlobBytes X e k data = (e', Inl err') \<Longrightarrow> E err s"
  shows "wp (preparePutBlob X M b k st) Q E s"
  unfolding preparePutBlob_def wp_simps
proof (rule prepareBlob_wp [OF assms(1-3)])
  fix s e' blob assume "position v e' s" "prepared X v e k data e' blob"
  then show "wp (case Inr (blob, fmlookup (mv_refs v) (HashBytes X data) \<noteq> None, fmlookup (mv_refs v) (HashBytes X data) = None) of
      Inl err \<Rightarrow> andThen (wrapErr (\<lambda>cleanupErr. ErrWrap [err, cleanupErr]) (deleteStagedObjectMeta M b k)) (\<lambda>_. throw err)
    | Inr q \<Rightarrow> ret q) Q E s"
    using assms(6) by (simp add: wp_simps)
next
  fix s e' err err' assume p: "position v e' s" "fmlookup (mv_refs v) (HashBytes X data) = None" "PutBlobBytes X e k data = (e', Inl err')"
  show "wp (case Inl err of
      Inl err \<Rightarrow> andThen (wrapErr (\<lambda>cleanupErr. ErrWrap [err, cleanupErr]) (deleteStagedObjectMeta M b k)) (\<lambda>_. throw err)
    | Inr q \<Rightarrow> ret q) Q E s"
    unfolding sum.case wp_simps
    by (rule deleteStagedObjectMeta_wp [OF p(1) assms(4,5)]) (use assms(7) [OF _ p(2,3)] in \<open>simp add: wp_simps\<close>)
qed

lemma linkPutLayout_wp:
  assumes "position v e s"
    and "\<And>s e' now at info. position v e' s \<Longrightarrow> LinkObject X e now b k blob ct at = (e', Inr info) \<Longrightarrow> Q info s"
    and "\<And>s e' now at err err'. position v (if created then fst (DeleteBlob e' (bi_ShardDir blob) (bi_Hash blob)) else e') s \<Longrightarrow>
      LinkObject X e now b k blob ct at = (e', Inl err') \<Longrightarrow> E err s"
  shows "wp (linkPutLayout X b k ct blob created) Q E s"
proof -
  let ?now = "st_clock s (Suc (st_tick s))" and ?at = "st_clock s (st_tick s)"
  obtain e' r where l: "LinkObject X e ?now b k blob ct ?at = (e', r)" by fastforce
  have p: "position v e' (s\<lparr>st_tick := t, st_engine := e'\<rparr>)" for t e'
    using assms(1) by (simp add: at_view_def)
  obtain e'' d where d: "DeleteBlob e' (bi_ShardDir blob) (bi_Hash blob) = (e'', d)" by fastforce
  have e: "st_engine s = e" using assms(1) by (rule positionD)
  show ?thesis
  proof (cases r)
    case (Inr info)
    then show ?thesis using l e assms(2) [OF p l [unfolded Inr]] by (simp add: linkPutLayout_def wp_simps wp_on_engine)
  next
    case (Inl err)
    have "E err' (s\<lparr>st_tick := Suc (st_tick s), st_engine := if created then e'' else e'\<rparr>)" for err'
      using assms(3) [OF _ l [unfolded Inl], of _ err'] p d by (cases created) simp_all
    then show ?thesis
      using l e Inl d by (auto simp: linkPutLayout_def wp_simps wp_on_engine wp_on_engine_err split: option.splits)
  qed
qed

lemma retainBlob_wp:
  assumes "position v e s" "clean_name h" "refExists = (fmlookup (mv_refs v) h \<noteq> None)" "\<not> refExists \<Longrightarrow> trim_space (bi_ShardDir blob) \<noteq> []"
    and "\<And>s mu. position (put_retained v h blob refExists same) e s \<Longrightarrow> Q mu s"
  shows "wp (retainBlob M h blob refExists same) Q E s"
proof (cases "\<not> refExists")
  case True
  have "wp (on_meta (\<lambda>m. CreateBlobRef M m h (bi_ShardDir blob) (bi_Size blob) (bi_Placements blob) (bi_Checksums blob) (bi_Sizes blob)))
      (\<lambda>_. Q blobRefCreated) (\<lambda>err. E (mapStoreError err)) s"
    by (rule create_ref_wp [OF assms(1,2)]) (use True assms(3-5) in \<open>auto simp: put_retained_def\<close>)
  then show ?thesis using True by (simp add: retainBlob_def wp_simps)
next
  case False
  show ?thesis
  proof (cases same)
    case True
    then show ?thesis using False assms(1) assms(5) by (simp add: retainBlob_def wp_simps put_retained_def)
  next
    case n: False
    have "wp (on_meta (\<lambda>m. IncreaseBlobRef M m h)) (\<lambda>_. Q blobRefIncreased) (\<lambda>err. E (mapStoreError err)) s"
      by (rule increase_wp [OF assms(1,2)]) (use n False assms(3,5) in \<open>auto simp: put_retained_def\<close>)
    then show ?thesis using False n by (simp add: retainBlob_def wp_simps)
  qed
qed

lemma releaseReplaced_wp:
  assumes "position v e s" "existing = existing_of v0 b k"
    and "fmpred (\<lambda>_ x. clean_meta x) (mv_objects v0)"
    and "\<And>x. fmlookup (mv_objects v0) (object_key b k) = Some x \<Longrightarrow> om_hash x \<noteq> h \<Longrightarrow> fmlookup (mv_refs v) (om_hash x) \<noteq> None"
    and "\<And>s v' e' err. position v' e' s \<Longrightarrow>
      (case fmlookup (mv_objects v0) (object_key b k) of
         Some x \<Rightarrow> if om_hash x = h then v' = v \<and> e' = e \<and> err = None else released v e (om_hash x) v' e' err
       | None \<Rightarrow> v' = v \<and> e' = e \<and> err = None) \<Longrightarrow> (err = None \<longrightarrow> Q () s) \<and> (\<forall>er. err = Some er \<longrightarrow> E (ErrEngine er) s)"
  shows "wp (releaseReplacedBlob M existing h) Q E s"
proof (cases "fmlookup (mv_objects v0) (object_key b k)")
  case None
  then show ?thesis
    using assms(1,2) assms(5) [of v e s None] by (simp add: releaseReplacedBlob_def existing_of_def no_existing_def wp_simps)
next
  case (Some x)
  show ?thesis
  proof (cases "om_hash x = h")
    case True
    then show ?thesis
      using Some assms(1,2) assms(5) [of v e s None] by (simp add: releaseReplacedBlob_def existing_of_def wp_simps)
  next
    case False
    then obtain ref where ref: "fmlookup (mv_refs v) (om_hash x) = Some ref" using assms(4) Some by blast
    have "clean_name (om_hash x)" using assms(3) Some by (auto simp: clean_meta_def dest: fmpredD)
    then have "wp (releaseBlob M (om_hash x)) Q E s"
      by (rule releaseBlob_wp [OF assms(1) _ ref])
         (use Some False ref assms(5) in \<open>fastforce simp: released_def\<close>)+
    with Some False assms(2) show ?thesis
      by (simp add: releaseReplacedBlob_def existing_of_def)
  qed
qed

text \<open>From the linked layout to the end of a write.\<close>

lemma commit_wp:
  assumes pos: "position v e2 s" and X: "hash_clean X" "st = newStagedObject X data" "ex = existing_of v b k"
    and names: "clean_bucket b" "clean_name k" "b |\<in>| mv_buckets v" "covered v"
    and pend: "clean_meta pending" "om_bucket pending = b" "om_key pending = k"
    and prep: "prepared X v e k data e1 blob" and link: "LinkObject X e1 now b k blob (po_ContentType opts) at = (e2, Inr info)"
    and Q: "\<And>s meta v' e' err. position v' e' s \<Longrightarrow> put_outcome X v e b k data opts meta v' e' err \<Longrightarrow>
      (err = None \<longrightarrow> Q meta s) \<and> (\<forall>er. err = Some er \<longrightarrow> E (ErrEngine er) s)"
  shows "wp (andThen (or_fail (updatePendingWriteIntent M pending WriteIntentStageLayoutLinked) u1) (\<lambda>pending.
      andThen (or_fail (retainBlob M (so_hash st) blob (fmlookup (mv_refs v) (HashBytes X data) \<noteq> None)
          (ex_exists ex \<and> om_hash (ex_meta ex) = so_hash st)) u2) (\<lambda>mutation.
      andThen (or_fail (updatePendingWriteIntent M pending WriteIntentStageBlobRetained) (u3 mutation)) (\<lambda>pending.
      andThen time_now (\<lambda>at.
        let meta = (apply_options opts (objectMetaFromInfo info))
              \<lparr>om_intent := Some (advanceWriteIntent (om_intent pending) WriteIntentStageCommitted at)\<rparr>
        in andThen (or_fail (wrapErr mapStoreError (on_meta (\<lambda>m. UpsertObjectMeta M m meta))) (u3 mutation)) (\<lambda>_.
           andThen (deleteStagedObjectMeta M b k) (\<lambda>_.
           andThen (releaseReplacedBlob M ex (so_hash st)) (\<lambda>_.
             ret meta)))))))) Q E s"
proof -
  let ?h = "HashBytes X data" and ?old = "fmlookup (mv_objects v) (object_key b k)"
  let ?same = "map_option om_hash ?old = Some ?h" and ?exists = "fmlookup (mv_refs v) ?h \<noteq> None"
  let ?v1 = "put_retained v ?h blob ?exists ?same"
  have sh: "so_hash st = ?h" using X(2) by (simp add: newStagedObject_def)
  have ch: "clean_name ?h" using X(1) by (simp add: hash_clean_def clean_name_def)
  have same: "(ex_exists ex \<and> om_hash (ex_meta ex) = ?h) = ?same"
    by (auto simp: X(3) existing_of_def no_existing_def split: option.splits)
  have dir: "trim_space (bi_ShardDir blob) \<noteq> []"
    using link by (auto simp: LinkObject_def normalize_blob_def Let_def split: if_splits)
  have b1: "b |\<in>| mv_buckets ?v1" using names(3)
    by (simp add: put_retained_def spec_CreateBlobRef_def spec_IncreaseBlobRef_def spec_update_ref_def split: option.split)
  note clean = put_meta_fields(1,2) [OF prep link X(1) names(1,2)]
  have refs: "fmlookup (mv_refs (put_committed X v b k data blob m)) (om_hash x) \<noteq> None" if "?old = Some x" for x m
    using that names(4)
    by (auto simp: covered_def put_committed_def put_retained_def spec_CreateBlobRef_def spec_IncreaseBlobRef_def
        spec_update_ref_def spec_UpsertObjectMeta_def Let_def split: option.splits dest!: fmpredD)
  show ?thesis
    unfolding wp_simps sh same
  proof (rule wp_or_fail, rule updatePendingWriteIntent_wp [OF pos pend(1)], goal_cases)
    case 1
    then show ?case using pend names(3) by simp
  next
    case (2 s y)
    show ?case
    proof (rule wp_or_fail, rule retainBlob_wp [OF 2(1) ch refl], goal_cases)
      case 1
      then show ?case using dir by simp
    next
      case (2 s mu)
      show ?case
      proof (rule wp_or_fail, rule updatePendingWriteIntent_wp [OF 2], goal_cases)
        case 1 then show ?case by fact
      next
        case 2 then show ?case using \<open>om_bucket y = om_bucket pending\<close> pend b1 by simp
      next
        case (3 s z)
        define w where "w = advanceWriteIntent (om_intent z) WriteIntentStageCommitted (st_clock s (st_tick s))"
        have p: "position ?v1 e2 (s\<lparr>st_tick := Suc (st_tick s)\<rparr>)" using 3(1) by simp
        show ?case
          unfolding Let_def wp_simps w_def [symmetric] put_meta_def [symmetric]
        proof (rule wp_or_fail, unfold wp_simps, rule upsert_wp [OF p], goal_cases)
          case 1 then show ?case by (rule clean)
        next
          case 2 then show ?case using clean b1 by simp
        next
          case (3 s)
          then have p: "position (put_committed X v b k data blob (put_meta opts info w)) e2 s"
            by (simp add: put_committed_def Let_def)
          show ?case
          proof (rule deleteStagedObjectMeta_wp [OF p names(1,2)], rule releaseReplaced_wp [OF _ X(3)], assumption, goal_cases)
            case 1 then show ?case using names(4) by (auto simp: covered_def fmpred_iff)
          next
            case 2 then show ?case using refs by blast
          next
            case (3 s0 s v' e' err)
            have "put_outcome X v e b k data opts (put_meta opts info w) v' e' err"
              unfolding put_outcome_def Let_def using 3(3) prep link by blast
            then show ?case using Q [OF 3(2)] by (simp add: wp_simps)
          qed
        qed
      qed
    qed
  qed
qed

lemma completePreparedPut_wp:
  assumes pos: "position v e1 s" and X: "hash_clean X" "st = newStagedObject X data" "ex = existing_of v b k"
    and names: "clean_bucket b" "clean_name k" "b |\<in>| mv_buckets v" "covered v"
    and pend: "clean_meta pending" "om_bucket pending = b" "om_key pending = k"
    and prep: "prepared X v e k data e1 blob"
    and Q: "\<And>s meta v' e' err. position v' e' s \<Longrightarrow> put_outcome X v e b k data opts meta v' e' err \<Longrightarrow>
      (err = None \<longrightarrow> Q meta s) \<and> (\<forall>er. err = Some er \<longrightarrow> E (ErrEngine er) s)"
    and E: "\<And>s e' err. position v e' s \<Longrightarrow> put_failed X v e b k data opts e' \<Longrightarrow> E err s"
  shows "wp (completePreparedPut X M b k opts st ex pending blob
    (fmlookup (mv_refs v) (HashBytes X data) \<noteq> None) (fmlookup (mv_refs v) (HashBytes X data) = None)) Q E s"
proof -
  have step: "wp (andThen (or_fail (updatePendingWriteIntent M pending WriteIntentStageBlobPrepared) u) g) Q E s"
    if "\<And>s y. position v e1 s \<Longrightarrow> clean_meta y \<Longrightarrow> om_bucket y = b \<Longrightarrow> om_key y = k \<Longrightarrow> wp (g y) Q E s" for u g
    unfolding wp_simps
    by (rule wp_or_fail, rule updatePendingWriteIntent_wp [OF pos pend(1)]) (use pend names(3) that in auto)
  have link: "wp (andThen (linkPutLayout X b k (po_ContentType opts) blob (fmlookup (mv_refs v) (HashBytes X data) = None)) g) Q E s"
    if "position v e1 s" "\<And>s e2 now at info. position v e2 s \<Longrightarrow>
      LinkObject X e1 now b k blob (po_ContentType opts) at = (e2, Inr info) \<Longrightarrow> wp (g info) Q E s" for s g
    unfolding wp_simps
    by (rule linkPutLayout_wp [OF that(1)]) (erule (1) that(2), erule E, rule put_failed_link [OF prep])
  show ?thesis
    unfolding completePreparedPut_def Let_def
    by (rule step, rule link, assumption, rule commit_wp [unfolded Let_def])
       (use X names prep Q in auto)
qed

text \<open>Writing an object: the bucket must exist; then the write commits, or fails before that.\<close>

lemma Store_PutObject_wp:
  assumes pos: "position v e s" and X: "hash_clean X"
    and names: "clean_bucket b" "clean_name k" "covered v"
    and none: "\<And>s. position v e s \<Longrightarrow> b |\<notin>| mv_buckets v \<Longrightarrow> E ErrBucketNotFound s"
    and Q: "\<And>s meta v' e' err. position v' e' s \<Longrightarrow> b |\<in>| mv_buckets v \<Longrightarrow>
      put_outcome X v e b k data (normalized X opts) meta v' e' err \<Longrightarrow>
      (err = None \<longrightarrow> Q meta s) \<and> (\<forall>er. err = Some er \<longrightarrow> E (ErrEngine er) s)"
    and E: "\<And>s e' err. position v e' s \<Longrightarrow> b |\<in>| mv_buckets v \<Longrightarrow>
      put_failed X v e b k data (normalized X opts) e' \<Longrightarrow> E err s"
  shows "wp (Store_PutObject X M b k (Inr data) opts) Q E s"
proof -
  have loc: "normalizeObjectLocation b k = Inr (b, k)"
    using names by (simp add: normalizeObjectLocation_def clean_bucket_def clean_name_def)
  have h: "clean_name (so_hash (newStagedObject X data))"
    using X by (simp add: newStagedObject_def hash_clean_def clean_name_def)
  have objs: "fmpred (\<lambda>_ x. clean_meta x) (mv_objects v)" using names(3) by (auto simp: covered_def fmpred_iff)
  show ?thesis
    unfolding Store_PutObject_def putStagedObject_def wp_simps loc sum.case prod.case stageObject_def
  proof (rule ensureBucketExists_wp [OF pos names(1)], goal_cases)
    case (1 s)
    show ?case
    proof (rule loadExistingObject_wp [OF 1(2) names(1,2) objs], rule stageObjectMeta_wp [OF _ names(1,2) h 1(1)], assumption, goal_cases)
      case (1 s0 s x)
      show ?case
      proof (rule preparePutBlob_wp [OF 1(2) X refl names(1,2)], goal_cases)
        case (1 s e1 blob)
        show ?case
          unfolding prod.case
          by (rule completePreparedPut_wp [OF 1(1) X refl refl names(1,2) _ names(3) _ _ _ 1(2)])
             (use \<open>b |\<in>| mv_buckets v\<close> \<open>clean_meta x\<close> \<open>om_bucket x = b\<close> \<open>om_key x = k\<close> Q E in auto)
      next
        case (2 s e' err err')
        then show ?case using E \<open>b |\<in>| mv_buckets v\<close> by (auto simp: put_failed_def)
      qed
    qed
  next
    case (2 s)
    then show ?case using none by simp
  qed
qed

text \<open>Deleting an object: its metadata goes, its layout goes, and its blob is released.\<close>

lemma Store_DeleteObject_wp:
  assumes pos: "position v e s" and names: "clean_bucket b" "clean_name k" "covered v"
    and none: "\<And>s. position v e s \<Longrightarrow> fmlookup (mv_objects v) (object_key b k) = None \<Longrightarrow> E ErrNotFound s"
    and some: "\<And>s x e1 lerr v' e' err. position v' e' s \<Longrightarrow> fmlookup (mv_objects v) (object_key b k) = Some x \<Longrightarrow>
      DeleteObjectLayout X e b k = (e1, lerr) \<Longrightarrow> released (fst (spec_DeleteObjectMeta v b k)) e1 (om_hash x) v' e' err \<Longrightarrow>
      (err = None \<and> (lerr = None \<or> lerr = Some EObjectNotFound) \<longrightarrow> Q x s) \<and> (\<forall>er. E er s)"
  shows "wp (Store_DeleteObject X M b k) Q E s"
  unfolding Store_DeleteObject_def wp_simps
proof (rule get_object_wp [OF pos names(1,2)], goal_cases)
  case (1 s)
  show ?case
  proof (cases "fmlookup (mv_objects v) (object_key b k)")
    case None
    then show ?thesis using none 1 by (simp add: wp_simps)
  next
    case (Some x)
    let ?v1 = "fst (spec_DeleteObjectMeta v b k)"
    have x: "clean_name (om_hash x)" "fmlookup (mv_refs ?v1) (om_hash x) \<noteq> None"
      using names(3) Some by (auto simp: covered_def clean_meta_def spec_DeleteObjectMeta_def dest: fmpredD)
    obtain ref where ref: "fmlookup (mv_refs ?v1) (om_hash x) = Some ref" using x(2) by blast
    obtain e1 lerr where l: "DeleteObjectLayout X e b k = (e1, lerr)" by fastforce
    show ?thesis
      unfolding Some option.case wp_simps
    proof (rule delete_object_wp [OF 1 names(1,2)], goal_cases)
      case (1 s)
      have e: "st_engine s = e" "position ?v1 e1 (s\<lparr>st_engine := e1\<rparr>)"
        using positionD(4) [OF 1] at_view_engine [OF 1] by simp_all
      have fin: "wp (releaseBlob M (om_hash x)) (\<lambda>_. wp (case r of
            Inl layoutErr \<Rightarrow> if error_is layoutErr (ErrEngine EObjectNotFound) then ret x else throw (mapStoreError layoutErr)
          | Inr _ \<Rightarrow> ret x) Q E) E (s\<lparr>st_engine := e1\<rparr>)"
        if r: "r = (case lerr of None \<Rightarrow> Inr () | Some er \<Rightarrow> Inl (ErrEngine er))" for r
        by (rule releaseBlob_wp [OF e(2) x(1) ref])
           (use some [OF _ Some l] ref r in \<open>fastforce simp: released_def wp_simps split: option.splits\<close>)+
      show ?case
        using fin l e(1) by (auto simp: wp_on_engine_err split: option.splits)
    qed
  qed
qed

end

end
