(* ===== verification/Store_RefCounts.thy ===== *)
theory Store_RefCounts
  imports Store_Put
begin

text \<open>
  The reference counts of blobs. As long as the metadata service answers, the count of every blob is
  the number of committed objects that use it, after any sequence of operations of the store, whatever
  the engine does in between: writes that fail half done, lost files, unreachable nodes, restarts.
\<close>

section \<open>Counting\<close>

definition uses :: "meta_view \<Rightarrow> string \<Rightarrow> nat" where
  "uses v h = length (filter (\<lambda>x. om_hash x = h) (fm_values (mv_objects v)))"

definition ref_of :: "meta_view \<Rightarrow> string \<Rightarrow> int" where
  "ref_of v h = (case fmlookup (mv_refs v) h of None \<Rightarrow> 0 | Some r \<Rightarrow> ref_count r)"

text \<open>Counts off by \<open>d\<close>; no reference with a count below one is kept.\<close>

definition balanced :: "meta_view \<Rightarrow> (string \<Rightarrow> int) \<Rightarrow> bool" where
  "balanced v d \<longleftrightarrow> (\<forall>h. ref_of v h = int (uses v h) + d h) \<and> fmpred (\<lambda>_ r. 1 \<le> ref_count r) (mv_refs v) \<and>
     fmpred (\<lambda>_ x. clean_meta x) (mv_objects v)"

definition refs_ok :: "meta_view \<Rightarrow> bool" where
  "refs_ok v \<longleftrightarrow> balanced v (\<lambda>_. 0)"

definition use_of :: "ObjectMeta option \<Rightarrow> string \<Rightarrow> int" where
  "use_of x h = (case x of None \<Rightarrow> 0 | Some y \<Rightarrow> if om_hash y = h then 1 else 0)"

lemma uses_card: "uses v h = card {i. \<exists>x. fmlookup (mv_objects v) i = Some x \<and> om_hash x = h}"
proof -
  let ?m = "mv_objects v"
  have "uses v h = length (filter (\<lambda>i. om_hash (the (fmlookup ?m i)) = h) (fm_keys ?m))"
    by (simp add: uses_def fm_values_def fm_entries_def filter_map comp_def)
  also have "\<dots> = card (set (filter (\<lambda>i. om_hash (the (fmlookup ?m i)) = h) (fm_keys ?m)))"
    by (rule distinct_card [symmetric]) simp
  also have "set (filter (\<lambda>i. om_hash (the (fmlookup ?m i)) = h) (fm_keys ?m)) = {i. \<exists>x. fmlookup ?m i = Some x \<and> om_hash x = h}"
    by (auto simp: fmlookup_dom_iff)
  finally show ?thesis .
qed

lemma finite_users: "finite {i. \<exists>x. fmlookup m i = Some x \<and> P x}"
  by (rule finite_subset [of _ "fset (fmdom m)"]) (auto simp: fmlookup_dom_iff)

lemma users_pos: "fmlookup m i = Some x \<Longrightarrow> P x \<Longrightarrow> 0 < card {i. \<exists>x. fmlookup m i = Some x \<and> P x}"
  using finite_users [of m P] by (auto simp: card_gt_0_iff)

lemma uses_drop:
  "int (uses (v\<lparr>mv_objects := fmdrop i (mv_objects v)\<rparr>) h) = int (uses v h) - use_of (fmlookup (mv_objects v) i) h"
proof -
  let ?A = "{j. \<exists>x. fmlookup (mv_objects v) j = Some x \<and> om_hash x = h}"
  have "{j. \<exists>x. fmlookup (fmdrop i (mv_objects v)) j = Some x \<and> om_hash x = h} = ?A - {i}"
    by auto
  moreover have "i \<in> ?A \<longleftrightarrow> use_of (fmlookup (mv_objects v) i) h = 1"
    by (auto simp: use_of_def split: option.splits)
  moreover have "use_of (fmlookup (mv_objects v) i) h \<in> {0, 1}" by (simp add: use_of_def split: option.splits)
  moreover have "card (?A - {i}) = card ?A - (if i \<in> ?A then 1 else 0)" by simp
  moreover have "i \<in> ?A \<Longrightarrow> 0 < card ?A" using users_pos [of "mv_objects v" i] by auto
  ultimately show ?thesis by (auto simp: uses_card)
qed

lemma uses_upd:
  "int (uses (v\<lparr>mv_objects := fmupd i x (mv_objects v)\<rparr>) h) =
     int (uses v h) - use_of (fmlookup (mv_objects v) i) h + (if om_hash x = h then 1 else 0)"
proof -
  let ?w = "v\<lparr>mv_objects := fmdrop i (mv_objects v)\<rparr>"
  let ?A = "{j. \<exists>y. fmlookup (mv_objects ?w) j = Some y \<and> om_hash y = h}"
  have "{j. \<exists>y. fmlookup (fmupd i x (mv_objects v)) j = Some y \<and> om_hash y = h} = (if om_hash x = h then insert i ?A else ?A)"
    by auto
  moreover have "i \<notin> ?A" by simp
  ultimately have "uses (v\<lparr>mv_objects := fmupd i x (mv_objects v)\<rparr>) h = uses ?w h + (if om_hash x = h then 1 else 0)"
    using finite_users [of "mv_objects ?w"] by (simp add: uses_card)
  then show ?thesis using uses_drop [where v = v and i = i and h = h] by simp
qed

lemma uses_refs [simp]: "uses (v\<lparr>mv_refs := r\<rparr>) h = uses v h" "uses (v\<lparr>mv_buckets := b\<rparr>) h = uses v h"
  by (simp_all add: uses_def)

lemma ref_of_other [simp]: "ref_of (v\<lparr>mv_objects := m\<rparr>) h = ref_of v h" "ref_of (v\<lparr>mv_buckets := b\<rparr>) h = ref_of v h"
  by (simp_all add: ref_of_def)

lemma same_core_balanced: "same_core v v' \<Longrightarrow> balanced v d = balanced v' d"
  by (simp add: same_core_def balanced_def ref_of_def uses_def)

section \<open>The steps of the abstract service\<close>

lemma balanced_create:
  assumes "balanced v d" "fmlookup (mv_refs v) h = None"
  shows "balanced (fst (spec_CreateBlobRef v h p n ps cs ns)) (d(h := d h + 1))"
proof -
  have "int (uses v h) + d h = 0"
    using assms unfolding balanced_def ref_of_def by (metis option.simps(4))
  then show ?thesis
    using assms by (auto simp: balanced_def spec_CreateBlobRef_def new_ref_def ref_of_def intro!: fmpred_upd)
qed

lemma balanced_ref:
  assumes "balanced v d" "fmlookup (mv_refs v) h = Some r"
  shows "int (uses v h) + d h = ref_count r" "1 \<le> ref_count r"
proof -
  have "ref_of v h = int (uses v h) + d h" using assms(1) by (simp add: balanced_def)
  then show "int (uses v h) + d h = ref_count r" using assms(2) by (simp add: ref_of_def)
  show "1 \<le> ref_count r" using assms by (auto simp: balanced_def dest: fmpredD)
qed

lemma balanced_increase:
  assumes "balanced v d" "fmlookup (mv_refs v) h = Some r"
  shows "balanced (fst (spec_IncreaseBlobRef v h)) (d(h := d h + 1))"
proof -
  note balanced_ref [OF assms]
  then show ?thesis
    using assms by (auto simp: balanced_def spec_IncreaseBlobRef_def spec_update_ref_def ref_of_def intro!: fmpred_upd)
qed

lemma balanced_decrease:
  assumes "balanced v d" "fmlookup (mv_refs v) h = Some r"
  shows "balanced (fst (spec_DecreaseBlobRef v h)) (d(h := d h - 1))"
proof -
  note r = balanced_ref [OF assms]
  show ?thesis
  proof (cases "ref_count r \<le> 1")
    case True
    then have "int (uses v h) + d h = 1" using r by simp
    then show ?thesis
      using assms True by (auto simp: balanced_def spec_DecreaseBlobRef_def ref_of_def intro!: fmpred_drop)
  next
    case False
    then show ?thesis
      using assms r by (auto simp: balanced_def spec_DecreaseBlobRef_def ref_of_def intro!: fmpred_upd)
  qed
qed

lemma balanced_upsert:
  assumes "balanced v d" "clean_meta x" "om_bucket x |\<in>| mv_buckets v"
  shows "balanced (fst (spec_UpsertObjectMeta v x))
    (\<lambda>h. d h + use_of (fmlookup (mv_objects v) (meta_key x)) h - (if om_hash x = h then 1 else 0))"
  using assms uses_upd [where v = v and i = "meta_key x" and x = "x\<lparr>om_state := ObjectStateCommitted\<rparr>"]
  by (auto simp: balanced_def spec_UpsertObjectMeta_def clean_meta_def intro!: fmpred_upd)

lemma balanced_delete:
  assumes "balanced v d"
  shows "balanced (fst (spec_DeleteObjectMeta v b k)) (\<lambda>h. d h + use_of (fmlookup (mv_objects v) (object_key b k)) h)"
  using assms uses_drop [where v = v and i = "object_key b k"]
  by (auto simp: balanced_def spec_DeleteObjectMeta_def intro!: fmpred_drop)

lemma balanced_ext: "balanced v d \<Longrightarrow> (\<And>h. d h = d' h) \<Longrightarrow> balanced v d'"
  by (simp add: balanced_def)

lemma refs_ok_covered:
  assumes "refs_ok v"
  shows "covered v"
proof -
  have "fmlookup (mv_refs v) (om_hash x) \<noteq> None" if x: "fmlookup (mv_objects v) i = Some x" for i x
  proof -
    have "0 < uses v (om_hash x)" unfolding uses_card by (rule users_pos [OF x refl])
    moreover have "ref_of v (om_hash x) = int (uses v (om_hash x))" using assms by (simp add: refs_ok_def balanced_def)
    ultimately show ?thesis by (auto simp: ref_of_def split: option.splits)
  qed
  then show ?thesis using assms by (auto simp: covered_def refs_ok_def balanced_def fmpred_iff)
qed

section \<open>The outcomes of a write and of a deletion\<close>

lemma released_balanced:
  assumes "balanced v d" "released v e h v' e' err"
  shows "balanced v' (d(h := d h - 1))"
  using assms by (auto simp: released_def split: option.splits intro: balanced_decrease)

text \<open>After the commit the only count that is off is that of a replaced blob, which has one use too many.\<close>

definition replaced :: "meta_view \<Rightarrow> string \<Rightarrow> string \<Rightarrow> string \<Rightarrow> string option" where
  "replaced v b k h =
     (case fmlookup (mv_objects v) (object_key b k) of
        None \<Rightarrow> None | Some x \<Rightarrow> if om_hash x = h then None else Some (om_hash x))"

lemma put_committed_balanced:
  assumes "refs_ok v" "clean_meta meta" "om_bucket meta = b" "om_key meta = k" "om_hash meta = HashBytes X data"
    and "b |\<in>| mv_buckets v"
  shows "balanced (put_committed X v b k data blob meta) (\<lambda>h. if replaced v b k (HashBytes X data) = Some h then 1 else 0)"
    "mv_buckets (put_committed X v b k data blob meta) = mv_buckets v"
proof -
  let ?h = "HashBytes X data" and ?old = "fmlookup (mv_objects v) (object_key b k)"
  let ?same = "map_option om_hash ?old = Some ?h" and ?exists = "fmlookup (mv_refs v) ?h \<noteq> None"
  let ?v1 = "put_retained v ?h blob ?exists ?same"
  let ?d1 = "\<lambda>h. if h = ?h \<and> \<not> (?exists \<and> ?same) then 1 else 0 :: int"
  have cov: "?same \<Longrightarrow> ?exists"
    using refs_ok_covered [OF assms(1)] by (auto simp: covered_def dest: fmpredD)
  have b0: "balanced v (\<lambda>_. 0)" using assms(1) by (simp add: refs_ok_def)
  have b1: "balanced ?v1 ?d1"
  proof (cases "fmlookup (mv_refs v) ?h")
    case None
    then show ?thesis
      unfolding put_retained_def using balanced_create [OF b0 None] by (simp add: fun_upd_def)
  next
    case (Some r)
    then show ?thesis
      unfolding put_retained_def using b0 balanced_increase [OF b0 Some] by (cases ?same) (auto simp: fun_upd_def)
  qed
  have v1: "mv_objects ?v1 = mv_objects v" "mv_buckets ?v1 = mv_buckets v"
    by (simp_all add: put_retained_def spec_CreateBlobRef_def spec_IncreaseBlobRef_def spec_update_ref_def split: option.split)
  have mk: "meta_key meta = object_key b k" using assms(3,4) by (simp add: meta_key_def)
  have "balanced (put_committed X v b k data blob meta) (\<lambda>h. ?d1 h + use_of ?old h - (if ?h = h then 1 else 0))"
    using balanced_upsert [OF b1 assms(2)] assms(3,5,6) v1 by (simp add: put_committed_def Let_def mk)
  then show "balanced (put_committed X v b k data blob meta) (\<lambda>h. if replaced v b k ?h = Some h then 1 else 0)"
    by (rule balanced_ext) (use cov in \<open>auto simp: use_of_def replaced_def split: option.splits\<close>)
  show "mv_buckets (put_committed X v b k data blob meta) = mv_buckets v"
    using v1 by (simp add: put_committed_def Let_def spec_UpsertObjectMeta_def)
qed

text \<open>A write in the form the proofs use: prepared, linked, committed, and the replaced blob released.\<close>

lemma put_outcomeE:
  assumes "put_outcome X v e b k data opts meta v' e' err" "hash_clean X" "clean_bucket b" "clean_name k"
  obtains e1 blob e2 info now at v2 where "prepared X v e k data e1 blob"
    "LinkObject X e1 now b k blob (po_ContentType opts) at = (e2, Inr info)" "v2 = put_committed X v b k data blob meta"
    "clean_meta meta" "om_bucket meta = b" "om_key meta = k" "om_hash meta = HashBytes X data" "om_size meta = bi_Size blob"
    "case replaced v b k (HashBytes X data) of None \<Rightarrow> v' = v2 \<and> e' = e2 \<and> err = None | Some h \<Rightarrow> released v2 e2 h v' e' err"
proof -
  obtain e1 blob e2 info intent now at where p: "prepared X v e k data e1 blob"
    "LinkObject X e1 now b k blob (po_ContentType opts) at = (e2, Inr info)" "meta = put_meta opts info intent"
    and fin: "let v2 = put_committed X v b k data blob meta
         in case fmlookup (mv_objects v) (object_key b k) of
              Some x \<Rightarrow> if om_hash x = HashBytes X data then v' = v2 \<and> e' = e2 \<and> err = None else released v2 e2 (om_hash x) v' e' err
            | None \<Rightarrow> v' = v2 \<and> e' = e2 \<and> err = None"
    using assms(1) unfolding put_outcome_def Let_def by blast
  note i = put_meta_fields [OF p(1,2) assms(2-4), where w = intent and opts = opts, folded p(3)]
  show thesis
    by (rule that [OF p(1,2) refl i]) (use fin in \<open>auto simp: replaced_def Let_def split: option.splits\<close>)
qed

lemma put_outcome_balanced:
  assumes "refs_ok v" "hash_clean X" "clean_bucket b" "clean_name k" "b |\<in>| mv_buckets v"
    and "put_outcome X v e b k data opts meta v' e' err"
  shows "refs_ok v' \<and> mv_buckets v' = mv_buckets v"
proof -
  obtain e1 blob e2 info now at v2 where p: "v2 = put_committed X v b k data blob meta"
    "clean_meta meta" "om_bucket meta = b" "om_key meta = k" "om_hash meta = HashBytes X data"
    "case replaced v b k (HashBytes X data) of None \<Rightarrow> v' = v2 \<and> e' = e2 \<and> err = None | Some h \<Rightarrow> released v2 e2 h v' e' err"
    by (rule put_outcomeE [OF assms(6,2-4)]) blast
  note c = put_committed_balanced [OF assms(1) p(2-5) assms(5), of blob, folded p(1)]
  have bd: "mv_buckets (fst (spec_DecreaseBlobRef v2 h)) = mv_buckets v2" for h
    by (simp add: spec_DecreaseBlobRef_def split: option.split)
  show ?thesis
  proof (cases "replaced v b k (HashBytes X data)")
    case None
    then show ?thesis using p(6) c by (simp add: refs_ok_def)
  next
    case (Some h)
    then have rel: "released v2 e2 h v' e' err" using p(6) by simp
    have "refs_ok v'"
      unfolding refs_ok_def by (rule balanced_ext [OF released_balanced [OF c(1) rel]]) (simp add: Some)
    then show ?thesis using rel c(2) bd by (simp add: released_def)
  qed
qed

lemma delete_outcome_balanced:
  assumes "refs_ok v" "fmlookup (mv_objects v) (object_key b k) = Some x"
    and "released (fst (spec_DeleteObjectMeta v b k)) e1 (om_hash x) v' e' err"
  shows "refs_ok v'" "mv_buckets v' = mv_buckets v" "mv_objects v' = fmdrop (object_key b k) (mv_objects v)"
proof -
  have "balanced (fst (spec_DeleteObjectMeta v b k)) (use_of (Some x))"
    using balanced_delete [of v "\<lambda>_. 0" b k] assms(1,2) by (simp add: refs_ok_def)
  from released_balanced [OF this assms(3)] show "refs_ok v'"
    unfolding refs_ok_def by (rule balanced_ext) (simp add: use_of_def)
  show "mv_buckets v' = mv_buckets v" "mv_objects v' = fmdrop (object_key b k) (mv_objects v)"
    using assms(3) by (simp_all add: released_def spec_DecreaseBlobRef_def spec_DeleteObjectMeta_def split: option.splits)
qed

section \<open>Operations and histories\<close>

datatype store_op =
    OpCreateBucket string
  | OpDeleteBucket string
  | OpPutObject string string "string + bytes" PutOptions
  | OpGetObject string string
  | OpStatObject string string
  | OpDeleteObject string string
  | OpListObjects string string
  | OpCheckHealth string string
  | OpScrubObject string string
  | OpRepairObject string string

definition exec_op :: "Externals \<Rightarrow> 'm MetadataStore \<Rightarrow> store_op \<Rightarrow> 'm Store \<Rightarrow> 'm Store" where
  "exec_op X M c s =
     (case c of
        OpCreateBucket b \<Rightarrow> fst (Store_CreateBucket M b s)
      | OpDeleteBucket b \<Rightarrow> fst (Store_DeleteBucket X M b s)
      | OpPutObject b k reader opts \<Rightarrow> fst (Store_PutObject X M b k reader opts s)
      | OpGetObject b k \<Rightarrow> fst (Store_GetObject X M b k s)
      | OpStatObject b k \<Rightarrow> fst (Store_StatObject M b k s)
      | OpDeleteObject b k \<Rightarrow> fst (Store_DeleteObject X M b k s)
      | OpListObjects b p \<Rightarrow> fst (Store_ListObjects M b p s)
      | OpCheckHealth b k \<Rightarrow> fst (Store_CheckHealth X b k s)
      | OpScrubObject b k \<Rightarrow> fst (Store_ScrubObject X M b k s)
      | OpRepairObject b k \<Rightarrow> fst (Store_RepairObject X M b k s))"

text \<open>Operations on clean names.\<close>

definition op_ok :: "store_op \<Rightarrow> bool" where
  "op_ok c =
     (case c of
        OpCreateBucket b \<Rightarrow> clean_bucket b
      | OpDeleteBucket b \<Rightarrow> clean_bucket b
      | OpPutObject b k reader opts \<Rightarrow> clean_bucket b \<and> clean_name k
      | OpGetObject b k \<Rightarrow> clean_bucket b \<and> clean_name k
      | OpStatObject b k \<Rightarrow> clean_bucket b \<and> clean_name k
      | OpDeleteObject b k \<Rightarrow> clean_bucket b \<and> clean_name k
      | OpListObjects b p \<Rightarrow> clean_bucket b
      | OpCheckHealth b k \<Rightarrow> True
      | OpScrubObject b k \<Rightarrow> clean_bucket b \<and> clean_name k
      | OpRepairObject b k \<Rightarrow> clean_bucket b \<and> clean_name k)"

text \<open>Histories: operations one after the other, with anything happening to the engine in between.\<close>

inductive store_reachable :: "Externals \<Rightarrow> 'm MetadataStore \<Rightarrow> 'm Store \<Rightarrow> 'm Store \<Rightarrow> bool" for X M s0 where
  start: "store_reachable X M s0 s0"
| operation: "store_reachable X M s0 s \<Longrightarrow> op_ok c \<Longrightarrow> store_reachable X M s0 (exec_op X M c s)"
| engine: "store_reachable X M s0 s \<Longrightarrow> store_reachable X M s0 (s\<lparr>st_engine := e\<rparr>)"

inductive_cases store_reachableE: "store_reachable X M s0 s"

section \<open>Every operation keeps the counts\<close>

definition counted :: "('m \<Rightarrow> meta_view) \<Rightarrow> ('m \<Rightarrow> bool) \<Rightarrow> ('m \<Rightarrow> bool) \<Rightarrow> 'm Store \<Rightarrow> bool" where
  "counted view ok quiet s \<longleftrightarrow> ok (st_meta s) \<and> quiet (st_meta s) \<and> refs_ok (view (st_meta s))"

lemma same_core_refs_ok: "same_core v v' \<Longrightarrow> refs_ok v = refs_ok v'"
  by (simp add: refs_ok_def same_core_balanced)

lemma counted_position: "at_view view ok quiet v e s \<Longrightarrow> refs_ok v \<Longrightarrow> counted view ok quiet s"
  by (auto simp: counted_def at_view_def same_core_refs_ok)

lemma wp_fst: "wp f (\<lambda>_. P) (\<lambda>_. P) s \<Longrightarrow> P (fst (f s))"
  by (auto simp: wp_def split: prod.splits sum.splits)

context metadata_store
begin

abbreviation kept :: "'m Store \<Rightarrow> bool" where
  "kept \<equiv> counted view ok quiet"

lemma kept_view:
  assumes "kept s"
  shows "position (view (st_meta s)) (st_engine s) s" "refs_ok (view (st_meta s))" "covered (view (st_meta s))"
  using assms refs_ok_covered by (auto simp: counted_def at_view_def same_core_def)

lemma Store_PutObject_keeps:
  assumes "kept s" "hash_clean X" "clean_bucket b" "clean_name k"
  shows "wp (Store_PutObject X M b k reader opts) (\<lambda>_. kept) (\<lambda>_. kept) s"
proof (cases reader)
  case (Inr data)
  note v = kept_view [OF assms(1)]
  show ?thesis
    unfolding Inr
  proof (rule Store_PutObject_wp [OF v(1) assms(2-4) v(3)], goal_cases)
    case (1 s')
    then show ?case using v(2) by (rule_tac counted_position)
  next
    case (2 s' meta v' e' err)
    have "refs_ok v'" using put_outcome_balanced [OF v(2) assms(2-4) 2(2,3)] by simp
    then show ?case using counted_position [OF 2(1)] by simp
  next
    case (3 s' e' err)
    then show ?case using v(2) by (rule_tac counted_position)
  qed
next
  case (Inl er)
  note v = kept_view [OF assms(1)]
  have loc: "normalizeObjectLocation b k = Inr (b, k)"
    using assms(3,4) by (simp add: normalizeObjectLocation_def clean_bucket_def clean_name_def)
  have objs: "fmpred (\<lambda>_ x. clean_meta x) (mv_objects (view (st_meta s)))" using v(3) by (auto simp: covered_def fmpred_iff)
  show ?thesis
    unfolding Store_PutObject_def wp_simps loc sum.case prod.case stageObject_def Inl
    by (rule ensureBucketExists_wp [OF v(1) assms(3)], rule loadExistingObject_wp [OF _ assms(3,4) objs], assumption)
       (auto intro: counted_position v(2))
qed

lemma Store_DeleteObject_drops:
  assumes "position v e s" "refs_ok v" "clean_bucket b" "clean_name k"
  shows "wp (Store_DeleteObject X M b k)
    (\<lambda>_ s. \<exists>v' e'. position v' e' s \<and> refs_ok v' \<and> mv_buckets v' = mv_buckets v \<and> mv_objects v' = fmdrop (object_key b k) (mv_objects v))
    (\<lambda>_ s. \<exists>v' e'. position v' e' s \<and> refs_ok v' \<and> mv_buckets v' = mv_buckets v \<and> mv_objects v' = fmdrop (object_key b k) (mv_objects v)) s"
proof (rule Store_DeleteObject_wp [OF assms(1,3,4) refs_ok_covered [OF assms(2)]], goal_cases)
  case (1 s)
  then show ?case using assms(2) by (intro exI [of _ v] exI [of _ e]) simp
next
  case (2 s x e1 lerr v' e' err)
  note d = delete_outcome_balanced [OF assms(2) 2(2,4)]
  show ?case using 2(1) d by blast
qed

lemma Store_DeleteObject_keeps:
  assumes "kept s" "clean_bucket b" "clean_name k"
  shows "wp (Store_DeleteObject X M b k) (\<lambda>_. kept) (\<lambda>_. kept) s"
  by (rule wp_mono [OF Store_DeleteObject_drops [OF kept_view(1,2) [OF assms(1)] assms(2,3)]])
     (auto intro: counted_position)

text \<open>The loop of \<open>DeleteBucket\<close>: when it ends without an error, none of the listed objects is left.\<close>

lemma delete_all_wp:
  assumes "position v e s" "refs_ok v" "clean_bucket b"
    and "\<And>x. x \<in> set xs \<Longrightarrow> om_bucket x = b \<and> clean_name (om_key x)"
    and "\<And>i x. fmlookup (mv_objects v) i = Some x \<Longrightarrow> om_bucket x = b \<Longrightarrow> x \<in> set xs"
  shows "wp (forEach xs (\<lambda>meta. andThen (attempt (Store_DeleteObject X M (om_bucket meta) (om_key meta))) (\<lambda>r.
      case r of Inl err \<Rightarrow> if error_is err ErrNotFound then ret () else throw (ErrWrap [err]) | Inr _ \<Rightarrow> ret ())))
    (\<lambda>_ s. \<exists>v' e'. position v' e' s \<and> refs_ok v' \<and> fmpred (\<lambda>_ x. om_bucket x \<noteq> b) (mv_objects v')) (\<lambda>_. kept) s"
  using assms
proof (induction xs arbitrary: v e s)
  case Nil
  then show ?case unfolding forEach.simps wp_simps by (intro exI [of _ v] exI [of _ e]) (auto simp: fmpred_iff)
next
  case (Cons y xs)
  have y: "om_bucket y = b" "clean_name (om_key y)" using Cons.prems(4) by auto
  have keys: "i = meta_key x" if "fmlookup (mv_objects v) i = Some x" for i x
    using objects_ok [OF positionD(1) [OF Cons.prems(1)]] positionD(3) [OF Cons.prems(1)] that
    by (auto simp: same_core_def fmpred_iff)
  have next_step: "wp (forEach xs f) (\<lambda>_ s. \<exists>v' e'. position v' e' s \<and> refs_ok v' \<and> fmpred (\<lambda>_ x. om_bucket x \<noteq> b) (mv_objects v')) (\<lambda>_. kept) s'"
    if prev: "\<exists>v' e'. position v' e' s' \<and> refs_ok v' \<and> mv_buckets v' = mv_buckets v \<and> mv_objects v' = fmdrop (object_key b (om_key y)) (mv_objects v)"
      and f: "f = (\<lambda>meta. andThen (attempt (Store_DeleteObject X M (om_bucket meta) (om_key meta))) (\<lambda>r.
        case r of Inl err \<Rightarrow> if error_is err ErrNotFound then ret () else throw (ErrWrap [err]) | Inr _ \<Rightarrow> ret ()))" for s' f
  proof -
    obtain v' e' where p: "position v' e' s'" "refs_ok v'" "mv_objects v' = fmdrop (object_key b (om_key y)) (mv_objects v)"
      using prev by blast
    show ?thesis
      unfolding f
    proof (rule Cons.IH [OF p(1,2) Cons.prems(3)], goal_cases)
      case (1 x) then show ?case using Cons.prems(4) by simp
    next
      case (2 i x)
      then have "fmlookup (mv_objects v) i = Some x" "i \<noteq> object_key b (om_key y)" using p(3) by (auto split: if_splits)
      then have "x \<in> set (y # xs)" "x \<noteq> y" using Cons.prems(5) 2(2) keys y(1) by (auto simp: meta_key_def)
      then show ?case by simp
    qed
  qed
  show ?case
    unfolding forEach.simps wp_simps
    by (rule wp_mono [OF Store_DeleteObject_drops [OF Cons.prems(1,2), of "om_bucket y" "om_key y" X]])
       (use y Cons.prems(3) next_step in \<open>auto simp: wp_simps intro: counted_position\<close>)
qed

lemma Store_DeleteBucket_keeps:
  assumes "kept s" "clean_bucket b"
  shows "wp (Store_DeleteBucket X M b) (\<lambda>_. kept) (\<lambda>_. kept) s"
proof -
  let ?v = "view (st_meta s)"
  note v = kept_view [OF assms(1)]
  have b: "trim_space b = b" "b \<noteq> []" using assms(2) by (simp_all add: clean_bucket_def clean_name_def)
  have names: "om_bucket x = b \<and> clean_name (om_key x)" if "x \<in> set (filter (\<lambda>m. om_bucket m = b \<and> has_prefix (om_key m) []) (fm_values (mv_objects ?v)))" for x
    using that v(3) by (auto simp: covered_def clean_meta_def fm_values_iff dest: fmpredD)
  have fin: "wp (on_meta (\<lambda>m. DeleteBucket M m b)) (\<lambda>_. kept) (\<lambda>_. kept) s"
    if "position w e s" "refs_ok w" "fmpred (\<lambda>_ x. om_bucket x \<noteq> b) (mv_objects w)" for w e s
    by (rule call_wp [OF that(1), where a = "\<lambda>v. spec_DeleteBucket v b"])
       (erule DeleteBucket [OF _ assms(2)], use that(2,3) in \<open>auto simp: spec_DeleteBucket_def same_core_def counted_def at_view_def
         refs_ok_def balanced_def ref_of_def uses_def\<close>)
  have objs: "kept s" if "position w e s" "same_core w ?v" for w e s
    using that v(2) counted_position same_core_refs_ok by blast
  show ?thesis
    unfolding Store_DeleteBucket_def Let_def b if_not_P [OF b(2)] wp_simps
  proof (rule call_wp [OF v(1), where a = "\<lambda>v. spec_ListObjectMetas v b []"], goal_cases)
    case 1
    then show ?case by (rule_tac ListObjectMetas [OF _ assms(2)])
  next
    case (2 v' s)
    show ?case
    proof (cases "b |\<in>| mv_buckets v'")
      case False
      then show ?thesis using 2 objs by (simp add: spec_ListObjectMetas_def)
    next
      case True
      have p: "position ?v (st_engine s) s" using 2 True by (auto simp: spec_ListObjectMetas_def at_view_def same_core_def)
      have l: "snd (spec_ListObjectMetas v' b []) = Inr (sort_key om_key (filter (\<lambda>m. om_bucket m = b \<and> has_prefix (om_key m) []) (fm_values (mv_objects ?v))))"
        using 2(1) True by (simp add: spec_ListObjectMetas_def same_core_def)
      show ?thesis
        unfolding l sum.case
      proof (rule wp_mono [OF delete_all_wp [OF p v(2) assms(2)]], goal_cases)
        case (1 x) then show ?case using names [of x] by simp
      next
        case (2 i x) then show ?case by (auto simp: fm_values_iff)
      next
        case (3 x s') then show ?case using fin by blast
      qed simp
    qed
  qed
qed

lemma Store_CreateBucket_keeps:
  assumes "kept s" "clean_bucket b"
  shows "wp (Store_CreateBucket M b) (\<lambda>_. kept) (\<lambda>_. kept) s"
proof -
  note v = kept_view [OF assms(1)]
  have b: "trim_space b = b" "b \<noteq> []" using assms(2) by (simp_all add: clean_bucket_def clean_name_def)
  have p: "position (view (st_meta s)) (st_engine s) (s\<lparr>st_tick := t\<rparr>)" for t using v(1) by simp
  show ?thesis
    unfolding Store_CreateBucket_def Let_def b if_not_P [OF b(2)] wp_simps
    by (rule call_wp [OF p, where a = "\<lambda>v. spec_CreateBucket v b"])
       (erule CreateBucket [OF _ assms(2)], use v(2) in \<open>auto simp: spec_CreateBucket_def same_core_def counted_def at_view_def
         refs_ok_def balanced_def ref_of_def uses_def\<close>)
qed

text \<open>Reads leave the metadata as it is.\<close>

lemma Store_reads_keep:
  assumes "kept s" "clean_bucket b"
  shows "clean_name k \<Longrightarrow> wp (Store_GetObject X M b k) (\<lambda>_. kept) (\<lambda>_. kept) s"
    "clean_name k \<Longrightarrow> wp (Store_StatObject M b k) (\<lambda>_. kept) (\<lambda>_. kept) s"
    "wp (Store_ListObjects M b p) (\<lambda>_. kept) (\<lambda>_. kept) s"
    "clean_name k \<Longrightarrow> wp (Store_ScrubObject X M b k) (\<lambda>_. kept) (\<lambda>_. kept) s"
    "clean_name k \<Longrightarrow> wp (Store_RepairObject X M b k) (\<lambda>_. kept) (\<lambda>_. kept) s"
proof -
  note v = kept_view [OF assms(1)]
  have k: "kept s'" if "position (view (st_meta s)) e s'" for e s' using counted_position [OF that v(2)] .
  have g: "wp (on_engine f) (\<lambda>_. kept) (\<lambda>_. kept) s'" if "position (view (st_meta s)) e s'" for e s' f
    using k at_view_engine [OF that] by (auto simp: wp_on_engine split: prod.splits sum.splits)
  show "wp (Store_GetObject X M b k) (\<lambda>_. kept) (\<lambda>_. kept) s" if "clean_name k"
    unfolding Store_GetObject_def wp_simps
    by (rule get_object_wp [OF v(1) assms(2) that])
       (auto simp: wp_simps split: option.split prod.split intro: k g wp_mono [OF g])
  have st: "wp (Store_StatObject M b k) (\<lambda>_ s'. position (view (st_meta s)) (st_engine s) s') (\<lambda>_ s'. position (view (st_meta s)) (st_engine s) s') s"
    if "clean_name k"
    unfolding Store_StatObject_def wp_simps
    by (rule get_object_wp [OF v(1) assms(2) that]) (auto simp: wp_simps split: option.split)
  then show "clean_name k \<Longrightarrow> wp (Store_StatObject M b k) (\<lambda>_. kept) (\<lambda>_. kept) s"
    by (rule wp_mono) (auto intro: k)
  show "clean_name k \<Longrightarrow> wp (Store_ScrubObject X M b k) (\<lambda>_. kept) (\<lambda>_. kept) s"
    "clean_name k \<Longrightarrow> wp (Store_RepairObject X M b k) (\<lambda>_. kept) (\<lambda>_. kept) s"
    unfolding Store_ScrubObject_def Store_RepairObject_def wp_simps by (rule wp_mono [OF st]; auto intro: k g)+
  have b: "trim_space b = b" using assms(2) by (simp add: clean_bucket_def clean_name_def)
  have l: "wp (on_meta (\<lambda>m. ListObjectMetas M m b p)) (\<lambda>_. kept) (\<lambda>_. kept) s'" if "position (view (st_meta s)) e s'" for e s'
    by (rule call_wp [OF that, where a = "\<lambda>v. spec_ListObjectMetas v b p"])
       (erule ListObjectMetas [OF _ assms(2)], use v(2) in \<open>auto simp: spec_ListObjectMetas_def intro: counted_position simp: same_core_refs_ok\<close>)
  show "wp (Store_ListObjects M b p) (\<lambda>_. kept) (\<lambda>_. kept) s"
    unfolding Store_ListObjects_def Let_def b wp_simps
    by (rule call_wp [OF v(1), where a = "\<lambda>v. spec_BucketExists v b"])
       (erule BucketExists [OF _ assms(2)], use v(2) l in \<open>auto simp: spec_BucketExists_def wp_simps same_core_refs_ok
         intro: counted_position at_view_core\<close>)
qed

lemma exec_op_keeps:
  assumes "kept s" "hash_clean X" "op_ok c"
  shows "kept (exec_op X M c s)"
proof -
  have h: "kept (fst (Store_CheckHealth X b k s))" for b k
    using assms(1) by (auto simp: Store_CheckHealth_def wrapErr_def on_engine_def counted_def split: prod.split sum.split)
  show ?thesis
    using assms h Store_PutObject_keeps [OF assms(1,2)] Store_DeleteBucket_keeps [OF assms(1)] Store_CreateBucket_keeps [OF assms(1)]
      Store_reads_keep [OF assms(1)] Store_DeleteObject_keeps [OF assms(1)]
    by (cases c) (auto simp: exec_op_def op_ok_def intro!: wp_fst [where P = kept])
qed

lemma store_reachable_kept:
  assumes "store_reachable X M s0 s" "kept s0" "hash_clean X"
  shows "kept s"
  using assms
proof (induction rule: store_reachable.induct)
  case (operation s c)
  then show ?case using exec_op_keeps by blast
qed (auto simp: counted_def)

end

end
