(* ===== verification/Engine_Frames.thy ===== *)
theory Engine_Frames
  imports Store_Put
begin

text \<open>
  What the engine's writes and deletions leave alone. Blobs live in directories named by their digest,
  layouts in directories named by a shorter one, so that an operation on one blob or one layout does not
  touch the shards of another blob, even when it fails half done.
\<close>

text \<open>Digests as directory names. SHA-256 in hexadecimal has 64 digits, a layout identifier 32.\<close>

definition digest_names :: "Externals \<Rightarrow> bool" where
  "digest_names X \<longleftrightarrow> (\<forall>d. plain_name (HashBytes X d)) \<and> (\<forall>k. plain_name (layoutHash X k)) \<and>
     (\<forall>k d. layoutHash X k \<noteq> HashBytes X d)"

lemma digest_names_clean: "digest_names X \<Longrightarrow> hash_clean X"
  by (simp add: digest_names_def hash_clean_def plain_name_def)

lemma chunk_plain: "plain_name d \<Longrightarrow> plain_name h \<Longrightarrow> join_path r [d, h, chunk_name i] = r @ [d, h, chunk_name i]"
  by (simp add: join_path_chunk join_path_plain)

lemma shardPath_plain: "plain_name d \<Longrightarrow> plain_name h \<Longrightarrow> shardPath e d h i = eng_root e @ [d, h, chunk_name i]"
  by (simp add: shardPath_def chunk_plain)

lemma remote_path_plain: "plain_name d \<Longrightarrow> plain_name h \<Longrightarrow> remote_path d h i = [d, h, chunk_name i]"
  by (simp add: remote_path_def chunk_plain)

section \<open>Writing a blob\<close>

lemma writeShard_other:
  assumes "plain_name d" "plain_name h" "plain_name d'" "plain_name h'" "h \<noteq> h'"
  shows "held (fst (writeShard e p d h i x)) n d' h' j = held e n d' h' j"
proof -
  let ?e = "fst (writeShard e p d h i x)"
  have root: "eng_root ?e = eng_root e" using writeShard_frame [of e p d h i x] same_confD(5) by blast
  have c: "fmlookup (eng_chunks ?e) (eng_root e @ [d', h', chunk_name j]) = fmlookup (eng_chunks e) (eng_root e @ [d', h', chunk_name j])"
    and r: "fmlookup (eng_remote ?e) (m, [d', h', chunk_name j]) = fmlookup (eng_remote e) (m, [d', h', chunk_name j])" for m
    using assms(5) by (auto simp: writeShard_def node_WriteShard_def backend_WriteShard_def remote_WriteShard_def spend_fate_def
        shardPath_plain [OF assms(1,2)] remote_path_plain [OF assms(1,2)] Let_def
        split: sum.split StorageNode.split io_fate.split)
  show ?thesis
    using c r by (cases n) (simp_all add: held_def shardPath_plain [OF assms(3,4)] remote_path_plain [OF assms(3,4)] root)
qed

lemma write_shards_other:
  assumes "plain_name d" "plain_name h" "plain_name d'" "plain_name h'" "h \<noteq> h'"
  shows "held (fst (write_shards e d h xs)) n d' h' j = held e n d' h' j"
proof (induction xs arbitrary: e)
  case (Cons y xs)
  obtain i p x where y: "y = (i, p, x)" by (cases y)
  obtain e1 r where w: "writeShard e p d h i x = (e1, r)" by fastforce
  show ?case
    using Cons.IH [of e1] writeShard_other [OF assms, of e p i x] by (cases r) (auto simp: y w)
qed simp

lemma PutBlobBytes_other:
  assumes "digest_names X" "plain_name (makeShardDir X (trim_space k))" "plain_name d'" "plain_name h'" "HashBytes X data \<noteq> h'"
  shows "held (fst (PutBlobBytes X e k data)) n d' h' j = held e n d' h' j"
proof -
  have "held e' n d' h' j = held e n d' h' j" if "write_shards e (makeShardDir X (trim_space k)) (HashBytes X data) xs = (e', r)" for xs e' r
    using write_shards_other [OF assms(2) _ assms(3-5), of e xs n j] assms(1) that by (simp add: digest_names_def)
  then show ?thesis
    by (auto simp: PutBlobBytes_def Let_def split: sum.splits prod.splits option.splits)
qed

section \<open>Deleting a blob or a layout\<close>

lemma remove_all_frame:
  "same_conf e (fst (remove_all e dir w)) \<and> eng_remote (fst (remove_all e dir w)) = eng_remote e \<and>
     eng_cache (fst (remove_all e dir w)) = eng_cache e"
  by (simp add: remove_all_def spend_fate_def Let_def split: io_fate.split)

lemma remove_all_other:
  assumes "plain_name d" "plain_name h" "plain_name d'" "plain_name h'" "h \<noteq> h'" "dir = eng_root e @ [d, h]"
  shows "held (fst (remove_all e dir w)) n d' h' j = held e n d' h' j"
proof -
  let ?p = "eng_root e @ [d', h', chunk_name j]"
  have "\<not> below dir ?p" using assms(5,6) by (simp add: below_def)
  then have "fmlookup (eng_chunks (fst (remove_all e dir w))) ?p = fmlookup (eng_chunks e) ?p"
    by (auto simp: remove_all_def spend_fate_def Let_def split: io_fate.split dest!: in_set_takeD)
  then show ?thesis
    using remove_all_frame [of e dir w] same_confD(5)
    by (cases n) (auto simp: held_def shardPath_plain [OF assms(3,4)])
qed

lemma DeleteBlob_conf: "same_conf e (fst (DeleteBlob e d h)) \<and> eng_cache (fst (DeleteBlob e d h)) = eng_cache e"
  using remove_all_frame by (simp add: DeleteBlob_def backend_DeleteShardSet_def Let_def)

lemma DeleteBlob_other:
  assumes "plain_name d" "plain_name h" "plain_name d'" "plain_name h'" "h \<noteq> h'"
  shows "held (fst (DeleteBlob e d h)) n d' h' j = held e n d' h' j"
  unfolding DeleteBlob_plain [OF assms(1,2)] by (rule remove_all_other [OF assms refl])

lemma DeleteObjectLayout_cached:
  assumes "fmlookup (eng_cache e) (layoutKey b k) = Some L" "ly_ID L = layoutHash X (layoutKey b k)"
    and "plain_name (ly_ShardDir L)" "digest_names X" "DeleteObjectLayout X e b k = (e', r)"
  shows "same_conf e e'" "eng_cache e' = fmdrop (layoutKey b k) (eng_cache e)"
    "plain_name d \<Longrightarrow> held e' n d (HashBytes X x) j = held e n d (HashBytes X x) j"
proof -
  let ?e = "e\<lparr>eng_cache := fmdrop (layoutKey b k) (eng_cache e)\<rparr>" and ?lid = "layoutHash X (layoutKey b k)"
  have lid: "plain_name ?lid" "plain_name (HashBytes X x)" "?lid \<noteq> HashBytes X x" "?lid \<noteq> []"
    using assms(4) by (auto simp: digest_names_def plain_name_def)
  have e': "(e', r) = remove_all ?e (eng_root ?e @ [ly_ShardDir L, ?lid]) ''engine: delete layout meta''"
    using assms(1,2,5) lid(4) by (simp add: DeleteObjectLayout_def getLayout_cached backend_DeleteMeta_def Let_def
        join_path_plain [OF assms(3) lid(1)])
  let ?r = "fst (remove_all ?e (eng_root ?e @ [ly_ShardDir L, ?lid]) ''engine: delete layout meta'')"
  have e: "e' = ?r" using e' by (metis fst_conv)
  note f = remove_all_frame [of ?e "eng_root ?e @ [ly_ShardDir L, ?lid]" "''engine: delete layout meta''", folded e]
  show "same_conf e e'" using f same_conf_trans [OF same_conf_updates(5)] by blast
  show "eng_cache e' = fmdrop (layoutKey b k) (eng_cache e)" using f by simp
  assume d: "plain_name d"
  have "held e' n d (HashBytes X x) j = held ?e n d (HashBytes X x) j"
    unfolding e by (rule remove_all_other [OF assms(3) lid(1) d lid(2,3) refl])
  then show "held e' n d (HashBytes X x) j = held e n d (HashBytes X x) j"
    by (simp add: held_def shardPath_def split: StorageNode.splits)
qed

section \<open>Linking\<close>

lemma LinkObject_keeps:
  assumes "LinkObject X e now b k blob ct t = (e', r)"
  shows "same_conf e e'" "held e' n d h i = held e n d h i"
    "lk \<noteq> layoutKey (trim_space b) (trim_space k) \<or> isl r \<Longrightarrow> fmlookup (eng_cache e') lk = fmlookup (eng_cache e) lk"
proof -
  show conf: "same_conf e e'" using LinkObject_frame [of e X now b k blob ct t] assms by simp
  have w: "eng_chunks e1 = eng_chunks e \<and> eng_remote e1 = eng_remote e \<and> eng_cache e1 = eng_cache e"
    if "backend_WriteMeta e d h l = (e1, r1)" for d h l e1 r1
    using backend_WriteMeta_frame [of e d h l] that by simp
  have "eng_chunks e' = eng_chunks e \<and> eng_remote e' = eng_remote e"
    using assms w by (auto simp: LinkObject_def Let_def cache_store_def split: if_splits prod.splits option.splits)
  then show "held e' n d h i = held e n d h i"
    using same_conf_paths(1) [OF conf] by (simp add: held_def split: StorageNode.split)
  assume "lk \<noteq> layoutKey (trim_space b) (trim_space k) \<or> isl r"
  then show "fmlookup (eng_cache e') lk = fmlookup (eng_cache e) lk"
    using assms w by (auto simp: LinkObject_def Let_def cache_store_def split: if_splits prod.splits option.splits)
qed

text \<open>Layout keys tell objects apart when bucket names have no slash.\<close>

definition slash_free :: "string \<Rightarrow> bool" where
  "slash_free b \<longleftrightarrow> CHR ''/'' \<notin> set b"

lemma layoutKey_inject:
  assumes "slash_free b" "slash_free b'"
  shows "layoutKey b k = layoutKey b' k' \<longleftrightarrow> b = b' \<and> k = k'"
proof
  assume eq: "layoutKey b k = layoutKey b' k'"
  have "cut_at CHR ''/'' (layoutKey b k) = Some (b, k)" "cut_at CHR ''/'' (layoutKey b' k') = Some (b', k')"
    using assms by (auto simp: layoutKey_def slash_free_def intro: cut_at_append)
  with eq show "b = b' \<and> k = k'" by (metis Pair_inject option.inject)
qed simp

end
