(* ===== verification/Store_Durability.thy ===== *)
theory Store_Durability
  imports Store_RefCounts Engine_Frames
begin

text \<open>
  The store refines an abstract map from objects to bytes. The relation \<open>durable\<close> links the two: every
  blob reference names a blob whose shards are all in place, every object of the metadata has the bytes of
  the map as its blob, and its layout is cached. It is kept by every operation, also when writes and
  deletions of the engine fail half done, and it makes reads return the bytes of the map.
\<close>

section \<open>The relation\<close>

text \<open>The blob of \<open>d\<close> is in place where the reference \<open>r\<close> says.\<close>

definition blob_stored :: "Externals \<Rightarrow> Engine \<Rightarrow> bytes \<Rightarrow> BlobRef \<Rightarrow> bool" where
  "blob_stored X e d r \<longleftrightarrow> d \<noteq> [] \<and> plain_name (ref_path r) \<and> ref_size r = int (length d) \<and>
     length (ref_placements r) = TotalChunks (eng_coder e) \<and>
     (\<exists>es. Encode (eng_coder e) d = Inr es \<and> length es = TotalChunks (eng_coder e) \<and>
        ref_checksums r = shardChecksums X es \<and>
        (\<forall>i < length es. trim_space (pl_node (ref_placements r ! i)) \<noteq> [] \<and>
           (\<exists>n. storageNode e (ref_placements r ! i) = Inr n \<and> held e n (ref_path r) (HashBytes X d) i = Some (es ! i))))"

definition layout_for :: "Layout \<Rightarrow> BlobRef \<Rightarrow> string \<Rightarrow> string \<Rightarrow> bool" where
  "layout_for L r h lid \<longleftrightarrow> ly_ID L = lid \<and> ly_ShardDir L = ref_path r \<and> ly_Hash L = h \<and>
     ly_Placements L = ref_placements r \<and> ly_Checksums L = ref_checksums r \<and> ly_Size L = ref_size r"

type_synonym object_map = "string \<times> string \<Rightarrow> bytes option"

text \<open>One object: its bytes in the map, its layout in the cache.\<close>

definition object_durable :: "Externals \<Rightarrow> bytes set \<Rightarrow> meta_view \<Rightarrow> Engine \<Rightarrow> object_map \<Rightarrow> ObjectMeta \<Rightarrow> bool" where
  "object_durable X D v e A x \<longleftrightarrow> clean_meta x \<and> slash_free (om_bucket x) \<and>
     (\<exists>d \<in> D. A (om_bucket x, om_key x) = Some d \<and> om_hash x = HashBytes X d \<and> om_size x = int (length d)) \<and>
     (\<exists>L r. fmlookup (eng_cache e) (layoutKey (om_bucket x) (om_key x)) = Some L \<and>
        fmlookup (mv_refs v) (om_hash x) = Some r \<and>
        layout_for L r (om_hash x) (layoutHash X (layoutKey (om_bucket x) (om_key x))))"

definition durable :: "Externals \<Rightarrow> bytes set \<Rightarrow> Engine \<Rightarrow> meta_view \<Rightarrow> Engine \<Rightarrow> object_map \<Rightarrow> bool" where
  "durable X D e0 v e A \<longleftrightarrow> same_conf e0 e \<and>
     (\<forall>h r. fmlookup (mv_refs v) h = Some r \<longrightarrow> (\<exists>d \<in> D. h = HashBytes X d \<and> blob_stored X e d r)) \<and>
     (\<forall>i x. fmlookup (mv_objects v) i = Some x \<longrightarrow> i = meta_key x \<and> object_durable X D v e A x) \<and>
     (\<forall>b k d. A (b, k) = Some d \<longrightarrow> (\<exists>x. fmlookup (mv_objects v) (object_key b k) = Some x \<and> om_bucket x = b \<and> om_key x = k))"

lemma durableD:
  assumes "durable X D e0 v e A"
  shows "same_conf e0 e"
    "fmlookup (mv_refs v) h = Some r \<Longrightarrow> \<exists>d \<in> D. h = HashBytes X d \<and> blob_stored X e d r"
    "fmlookup (mv_objects v) i = Some x \<Longrightarrow> i = meta_key x \<and> object_durable X D v e A x"
    "A (b, k) = Some d \<Longrightarrow> \<exists>x. fmlookup (mv_objects v) (object_key b k) = Some x \<and> om_bucket x = b \<and> om_key x = k"
  using assms unfolding durable_def by blast+

lemma same_core_durable: "same_core v v' \<Longrightarrow> durable X D e0 v e A = durable X D e0 v' e A"
  by (simp add: same_core_def durable_def object_durable_def)

lemma blob_stored_cong:
  assumes "blob_stored X e d r" "same_conf e e'"
    and "\<And>n i. held e' n (ref_path r) (HashBytes X d) i = held e n (ref_path r) (HashBytes X d) i"
  shows "blob_stored X e' d r"
  using assms same_confD(9) [OF assms(2)] same_conf_storageNode [OF assms(2)] by (auto simp: blob_stored_def)

lemma blob_stored_path: "blob_stored X e d r \<Longrightarrow> plain_name (ref_path r)"
  by (simp add: blob_stored_def)

text \<open>Moving the engine without touching referenced blobs and cached layouts.\<close>

lemma durable_engine:
  assumes "durable X D e0 v e A" "same_conf e e'" "\<And>lk. fmlookup (eng_cache e') lk = fmlookup (eng_cache e) lk"
    and "\<And>d r n i. fmlookup (mv_refs v) (HashBytes X d) = Some r \<Longrightarrow> plain_name (ref_path r) \<Longrightarrow>
      held e' n (ref_path r) (HashBytes X d) i = held e n (ref_path r) (HashBytes X d) i"
  shows "durable X D e0 v e' A"
proof -
  note d = durableD [OF assms(1)]
  have "\<exists>d \<in> D. h = HashBytes X d \<and> blob_stored X e' d r" if r: "fmlookup (mv_refs v) h = Some r" for h r
  proof -
    obtain d' where d': "d' \<in> D" "h = HashBytes X d'" "blob_stored X e d' r" using d(2) [OF r] by blast
    then have "blob_stored X e' d' r"
      using r by (intro blob_stored_cong [OF d'(3) assms(2)] assms(4)) (auto intro: blob_stored_path)
    with d' show ?thesis by blast
  qed
  moreover have "object_durable X D v e' A x" if "object_durable X D v e A x" for x
    using that assms(3) by (simp add: object_durable_def)
  ultimately show ?thesis
    using d same_conf_trans [OF d(1) assms(2)] unfolding durable_def by blast
qed

section \<open>References\<close>

text \<open>References to the same blob differ at most in their counts.\<close>

definition same_blob :: "BlobRef \<Rightarrow> BlobRef \<Rightarrow> bool" where
  "same_blob r r' \<longleftrightarrow> ref_path r' = ref_path r \<and> ref_placements r' = ref_placements r \<and>
     ref_checksums r' = ref_checksums r \<and> ref_size r' = ref_size r"

lemma same_blob_simps [simp]: "same_blob r r" "same_blob r (r\<lparr>ref_count := n\<rparr>)"
  by (simp_all add: same_blob_def)

lemma blob_stored_same: "same_blob r r' \<Longrightarrow> blob_stored X e d r' = blob_stored X e d r"
  by (simp add: same_blob_def blob_stored_def)

lemma layout_for_same: "same_blob r r' \<Longrightarrow> layout_for L r' h lid = layout_for L r h lid"
  by (simp add: same_blob_def layout_for_def)

lemma durable_ref:
  assumes "durable X D e0 v e A" "y \<in> D" "blob_stored X e y r'"
    and "\<And>r. fmlookup (mv_refs v) (HashBytes X y) = Some r \<Longrightarrow> same_blob r r'"
  shows "durable X D e0 (v\<lparr>mv_refs := fmupd (HashBytes X y) r' (mv_refs v)\<rparr>) e A"
proof -
  note d = durableD [OF assms(1)]
  let ?v = "v\<lparr>mv_refs := fmupd (HashBytes X y) r' (mv_refs v)\<rparr>"
  have "object_durable X D ?v e A x" if x: "object_durable X D v e A x" for x
  proof -
    obtain L r where Lr: "fmlookup (eng_cache e) (layoutKey (om_bucket x) (om_key x)) = Some L" "fmlookup (mv_refs v) (om_hash x) = Some r"
        "layout_for L r (om_hash x) (layoutHash X (layoutKey (om_bucket x) (om_key x)))"
      using x unfolding object_durable_def by blast
    have "\<exists>r. fmlookup (mv_refs ?v) (om_hash x) = Some r \<and> layout_for L r (om_hash x) (layoutHash X (layoutKey (om_bucket x) (om_key x)))"
      using Lr(2,3) assms(4) layout_for_same by (cases "om_hash x = HashBytes X y") auto
    with x Lr(1) show ?thesis unfolding object_durable_def by blast
  qed
  moreover have "\<exists>d \<in> D. h = HashBytes X d \<and> blob_stored X e d r" if "fmlookup (mv_refs ?v) h = Some r" for h r
    using that d(2) assms(2,3) by (cases "h = HashBytes X y") (auto split: if_splits)
  ultimately show ?thesis
    using d unfolding durable_def by simp
qed

section \<open>Releasing a blob\<close>

lemma durable_released:
  assumes "durable X D e0 v e A" "digest_names X" "released v e h v' e' err" "balanced v c" "c h = 1"
  shows "durable X D e0 v' e' A"
proof -
  note d = durableD [OF assms(1)]
  obtain ref where ref: "fmlookup (mv_refs v) h = Some ref" and v': "v' = fst (spec_DecreaseBlobRef v h)"
    using assms(3) by (auto simp: released_def split: option.splits)
  obtain y where y: "y \<in> D" "h = HashBytes X y" "blob_stored X e y ref" using d(2) [OF ref] by blast
  have objs: "mv_objects v' = mv_objects v" by (simp add: v' spec_DecreaseBlobRef_def ref)
  have count: "int (uses v h) + 1 = ref_count ref" using balanced_ref(1) [OF assms(4) ref] assms(5) by simp
  show ?thesis
  proof (cases "ref_count ref \<le> 1")
    case False
    then have v'': "v' = v\<lparr>mv_refs := fmupd h (ref\<lparr>ref_count := ref_count ref - 1\<rparr>) (mv_refs v)\<rparr>" "e' = e"
      using assms(3) by (simp_all add: v' spec_DecreaseBlobRef_def ref released_def)
    show ?thesis
      unfolding v'' y(2)
      by (rule durable_ref [OF assms(1) y(1)]) (use ref y in \<open>auto simp: blob_stored_same [OF same_blob_simps(2)]\<close>)
  next
    case True
    then have no: "om_hash x \<noteq> h" if "fmlookup (mv_objects v) i = Some x" for i x
      using count users_pos [OF that, of "\<lambda>x. om_hash x = h"] by (auto simp: uses_card)
    have del: "DeleteBlob e (ref_path ref) h = (e', err)" using assms(3) True by (simp add: released_def ref)
    have h: "plain_name h" using assms(2) y(2) by (simp add: digest_names_def)
    have refs: "mv_refs v' = fmdrop h (mv_refs v)" using True by (simp add: v' spec_DecreaseBlobRef_def ref)
    have v1: "durable X D e0 v' e A"
      using d no unfolding durable_def object_durable_def refs objs by (auto split: if_splits)
    show ?thesis
    proof (rule durable_engine [OF v1])
      show "same_conf e e'" "fmlookup (eng_cache e') lk = fmlookup (eng_cache e) lk" for lk
        using DeleteBlob_conf [of e "ref_path ref" h] del by simp_all
      fix z r n i assume "fmlookup (mv_refs v') (HashBytes X z) = Some r" "plain_name (ref_path r)"
      then show "held e' n (ref_path r) (HashBytes X z) i = held e n (ref_path r) (HashBytes X z) i"
        using DeleteBlob_other [OF blob_stored_path [OF y(3)] h, of "ref_path r" "HashBytes X z" e n i] del assms(2)
        by (auto simp: refs digest_names_def split: if_splits)
    qed
  qed
qed

section \<open>Writing\<close>

lemma PutBlobBytes_stored:
  assumes "PutBlobBytes X e k data = (e', Inr blob)" "digest_names X" "plain_name (makeShardDir X (trim_space k))"
    and "erasure_scheme (coder_k (eng_coder e)) (coder_m (eng_coder e)) (coder_scheme (eng_coder e))"
  shows "blob_stored X e' data (new_ref (HashBytes X data) (bi_ShardDir blob) (bi_Size blob) (bi_Placements blob) (bi_Checksums blob) (bi_Sizes blob))"
    "same_conf e e'" "eng_cache e' = eng_cache e" "bi_Hash blob = HashBytes X data"
proof -
  obtain es pls where w: "Encode (eng_coder e) data = Inr es" "PlanShardPlacement e (int (length es)) = Inr pls"
    "write_shards e (makeShardDir X (trim_space k)) (HashBytes X data) (zip [0..<length es] (zip pls es)) = (e', None)"
    "blob = \<lparr>bi_Hash = HashBytes X data, bi_ETag = ETagFromHash (HashBytes X data), bi_Size = int (length data),
       bi_ShardDir = makeShardDir X (trim_space k), bi_Placements = pls, bi_Checksums = shardChecksums X es,
       bi_Sizes = shardSizes es\<rparr>"
    by (rule PutBlobBytes_success [OF assms(1)])
  have ne: "data \<noteq> []" using erasure_scheme.Encode_empty [OF assms(4)] w(1) by fastforce
  obtain ss es' where "Encode (eng_coder e) data = Inr es'" "length es' = coder_k (eng_coder e) + coder_m (eng_coder e)"
    by (rule erasure_scheme.Encode_shards [OF assms(4) refl refl refl ne])
  then have total: "length es = TotalChunks (eng_coder e)" using w(1) by (simp add: TotalChunks_def)
  have lp: "length pls = length es" using PlanShardPlacement_valid(1) [OF w(2)] by simp
  show conf: "same_conf e e'" "eng_cache e' = eng_cache e"
    using PutBlobBytes_frame [of e X k data] assms(1) by simp_all
  show "bi_Hash blob = HashBytes X data" by (simp add: w(4))
  have "trim_space (pl_node (pls ! i)) \<noteq> [] \<and> (\<exists>n. storageNode e' (pls ! i) = Inr n \<and>
      held e' n (makeShardDir X (trim_space k)) (HashBytes X data) i = Some (es ! i))" if i: "i < length es" for i
  proof -
    have "(i, pls ! i, es ! i) \<in> set (zip [0..<length es] (zip pls es))"
      using lp i by (auto simp: set_zip intro!: exI [of _ i])
    then show ?thesis
      using write_shards_held [OF w(3)] lp i PlanShardPlacement_valid(2) [OF w(2), of i] same_conf_storageNode [OF conf(1)] by fastforce
  qed
  then show "blob_stored X e' data (new_ref (HashBytes X data) (bi_ShardDir blob) (bi_Size blob) (bi_Placements blob) (bi_Checksums blob) (bi_Sizes blob))"
    using ne w(1,4) total lp assms(3) same_confD(9) [OF conf(1)] by (simp add: blob_stored_def new_ref_def)
qed

text \<open>After the blob is prepared it is stored, and everything else is as before.\<close>

definition blob_ref :: "meta_view \<Rightarrow> string \<Rightarrow> BlobInfo \<Rightarrow> BlobRef" where
  "blob_ref v h blob = (case fmlookup (mv_refs v) h of Some r \<Rightarrow> r
     | None \<Rightarrow> new_ref h (bi_ShardDir blob) (bi_Size blob) (bi_Placements blob) (bi_Checksums blob) (bi_Sizes blob))"

lemma durable_prepared:
  assumes "durable X D e0 v e A" "digest_names X" "plain_name (makeShardDir X (trim_space k))" "inj_on (HashBytes X) D" "data \<in> D"
    and "erasure_scheme (coder_k (eng_coder e0)) (coder_m (eng_coder e0)) (coder_scheme (eng_coder e0))"
    and "prepared X v e k data e1 blob"
  shows "durable X D e0 v e1 A" "blob_stored X e1 data (blob_ref v (HashBytes X data) blob)"
    "bi_Hash blob = HashBytes X data" "bi_ShardDir blob = ref_path (blob_ref v (HashBytes X data) blob)"
    "bi_Size blob = ref_size (blob_ref v (HashBytes X data) blob)"
    "bi_Placements blob = ref_placements (blob_ref v (HashBytes X data) blob)"
    "bi_Checksums blob = ref_checksums (blob_ref v (HashBytes X data) blob)"
proof -
  have "durable X D e0 v e1 A \<and> blob_stored X e1 data (blob_ref v (HashBytes X data) blob) \<and> bi_Hash blob = HashBytes X data"
  proof (cases "fmlookup (mv_refs v) (HashBytes X data)")
    case (Some r)
    then have e: "e1 = e" "blob = blob_of_ref (HashBytes X data) (ETagFromHash (HashBytes X data)) r"
      using assms(7) by (simp_all add: prepared_def)
    obtain d where "d \<in> D" "HashBytes X data = HashBytes X d" "blob_stored X e d r"
      using durableD(2) [OF assms(1) Some] by blast
    then have "blob_stored X e data r" using assms(4,5) by (auto dest: inj_onD)
    with e Some assms(1) show ?thesis by (simp add: blob_ref_def blob_of_ref_def)
  next
    case None
    then have p: "PutBlobBytes X e k data = (e1, Inr blob)" using assms(7) by (simp add: prepared_def)
    have sch: "erasure_scheme (coder_k (eng_coder e)) (coder_m (eng_coder e)) (coder_scheme (eng_coder e))"
      using assms(6) same_confD(9) [OF durableD(1) [OF assms(1)]] by simp
    note s = PutBlobBytes_stored [OF p assms(2,3) sch]
    have "durable X D e0 v e1 A"
    proof (rule durable_engine [OF assms(1) s(2)])
      fix d r n i assume r: "fmlookup (mv_refs v) (HashBytes X d) = Some r" "plain_name (ref_path r)"
      have "HashBytes X data \<noteq> HashBytes X d" using r(1) None by auto
      moreover have "plain_name (HashBytes X d)" using assms(2) by (simp add: digest_names_def)
      ultimately show "held e1 n (ref_path r) (HashBytes X d) i = held e n (ref_path r) (HashBytes X d) i"
        using PutBlobBytes_other [OF assms(2,3) r(2), of "HashBytes X d" data e n i] by (simp add: p)
    qed (use s(3) in simp)
    with s None show ?thesis by (simp add: blob_ref_def)
  qed
  then show "durable X D e0 v e1 A" "blob_stored X e1 data (blob_ref v (HashBytes X data) blob)" "bi_Hash blob = HashBytes X data"
    by blast+
  show "bi_ShardDir blob = ref_path (blob_ref v (HashBytes X data) blob)" "bi_Size blob = ref_size (blob_ref v (HashBytes X data) blob)"
    "bi_Placements blob = ref_placements (blob_ref v (HashBytes X data) blob)" "bi_Checksums blob = ref_checksums (blob_ref v (HashBytes X data) blob)"
    using assms(7) by (auto simp: prepared_def blob_ref_def blob_of_ref_def new_ref_def split: option.splits)
qed

text \<open>Taking the reference changes no blob.\<close>

lemma durable_retained:
  assumes "durable X D e0 v e A" "data \<in> D" "blob_stored X e data (blob_ref v (HashBytes X data) blob)"
    and "v1 = put_retained v (HashBytes X data) blob (fmlookup (mv_refs v) (HashBytes X data) \<noteq> None) same"
  shows "durable X D e0 v1 e A" "mv_objects v1 = mv_objects v" "mv_buckets v1 = mv_buckets v"
    "\<exists>r. fmlookup (mv_refs v1) (HashBytes X data) = Some r \<and> same_blob (blob_ref v (HashBytes X data) blob) r"
proof -
  let ?h = "HashBytes X data"
  have "durable X D e0 v1 e A \<and> mv_objects v1 = mv_objects v \<and> mv_buckets v1 = mv_buckets v \<and>
    (\<exists>r. fmlookup (mv_refs v1) ?h = Some r \<and> same_blob (blob_ref v ?h blob) r)"
  proof (cases "fmlookup (mv_refs v) ?h")
    case None
    then show ?thesis
      using durable_ref [OF assms(1-3)] by (simp add: assms(4) put_retained_def spec_CreateBlobRef_def blob_ref_def)
  next
    case (Some r)
    let ?r = "r\<lparr>ref_count := ref_count r + 1\<rparr>"
    have "blob_stored X e data ?r"
      using assms(3) Some blob_stored_same [OF same_blob_simps(2)] by (simp add: blob_ref_def)
    from durable_ref [OF assms(1,2) this] show ?thesis
      using assms(1) Some by (simp add: assms(4) put_retained_def spec_IncreaseBlobRef_def spec_update_ref_def blob_ref_def)
  qed
  then show "durable X D e0 v1 e A" "mv_objects v1 = mv_objects v" "mv_buckets v1 = mv_buckets v"
    "\<exists>r. fmlookup (mv_refs v1) ?h = Some r \<and> same_blob (blob_ref v ?h blob) r"
    by blast+
qed

text \<open>Committing an object whose layout is cached and whose blob is referenced.\<close>

lemma durable_upsert:
  assumes "durable X D e0 v e A" "om_bucket x |\<in>| mv_buckets v"
    and "data \<in> D" "om_hash x = HashBytes X data" "om_size x = int (length data)" "clean_meta x" "slash_free (om_bucket x)"
    and "same_conf e e'" "\<And>n d h i. held e' n d h i = held e n d h i"
    and "\<And>lk. lk \<noteq> layoutKey (om_bucket x) (om_key x) \<Longrightarrow> fmlookup (eng_cache e') lk = fmlookup (eng_cache e) lk"
    and "fmlookup (eng_cache e') (layoutKey (om_bucket x) (om_key x)) = Some L" "fmlookup (mv_refs v) (om_hash x) = Some r"
    and "layout_for L r (om_hash x) (layoutHash X (layoutKey (om_bucket x) (om_key x)))"
  shows "durable X D e0 (fst (spec_UpsertObjectMeta v x)) e' (A((om_bucket x, om_key x) \<mapsto> data))"
proof -
  note d = durableD [OF assms(1)]
  let ?A = "A((om_bucket x, om_key x) \<mapsto> data)" and ?x = "x\<lparr>om_state := ObjectStateCommitted\<rparr>"
  let ?v = "v\<lparr>mv_objects := fmupd (meta_key x) ?x (mv_objects v)\<rparr>"
  have v: "fst (spec_UpsertObjectMeta v x) = ?v" using assms(2) by (simp add: spec_UpsertObjectMeta_def)
  have refs: "\<exists>d \<in> D. h = HashBytes X d \<and> blob_stored X e' d r'" if r': "fmlookup (mv_refs v) h = Some r'" for h r'
  proof -
    obtain y where "y \<in> D" "h = HashBytes X y" "blob_stored X e y r'" using d(2) [OF r'] by blast
    then show ?thesis using blob_stored_cong [OF _ assms(8)] assms(9) by blast
  qed
  have new: "object_durable X D ?v e' ?A ?x"
    using assms by (auto simp: object_durable_def clean_meta_def)
  have old: "object_durable X D ?v e' ?A y" if y: "object_durable X D v e A y" and ne: "meta_key y \<noteq> meta_key x" for y
  proof -
    have pair: "\<not> (om_bucket y = om_bucket x \<and> om_key y = om_key x)" using ne by (auto simp: meta_key_def)
    have "slash_free (om_bucket y)" using y by (simp add: object_durable_def)
    then have "layoutKey (om_bucket y) (om_key y) \<noteq> layoutKey (om_bucket x) (om_key x)"
      using layoutKey_inject [OF _ assms(7)] pair by blast
    then show ?thesis using y pair assms(10) by (auto simp: object_durable_def)
  qed
  have objs: "i = meta_key y \<and> object_durable X D ?v e' ?A y" if "fmlookup (mv_objects ?v) i = Some y" for i y
    using that new old d(3) [of i y] by (cases "i = meta_key x") (auto simp: meta_key_def)
  have held_by: "\<exists>y. fmlookup (mv_objects ?v) (object_key b k) = Some y \<and> om_bucket y = b \<and> om_key y = k" if "?A (b, k) = Some z" for b k z
  proof (cases "b = om_bucket x \<and> k = om_key x")
    case False
    then have "A (b, k) = Some z" using that by auto
    then obtain y where y: "fmlookup (mv_objects v) (object_key b k) = Some y" "om_bucket y = b" "om_key y = k" using d(4) by blast
    then have "nul_free b" using d(3) [OF y(1)] by (auto simp: object_durable_def clean_meta_def clean_bucket_def)
    then have "object_key b k \<noteq> meta_key x"
      using False assms(6) by (auto simp: meta_key_def object_key_inject clean_meta_def clean_bucket_def)
    then show ?thesis using y by simp
  qed (simp add: meta_key_def)
  show ?thesis
    unfolding v durable_def by (intro conjI allI impI same_conf_trans [OF d(1) assms(8)] refs objs held_by) simp_all
qed

section \<open>Outcomes\<close>

text \<open>The setting: digests are directory names and tell the data at hand apart, the coder is an erasure code.\<close>

definition durable_setting :: "Externals \<Rightarrow> bytes set \<Rightarrow> Engine \<Rightarrow> bool" where
  "durable_setting X D e0 \<longleftrightarrow> digest_names X \<and> inj_on (HashBytes X) D \<and> eng_k e0 = coder_k (eng_coder e0) \<and>
     erasure_scheme (coder_k (eng_coder e0)) (coder_m (eng_coder e0)) (coder_scheme (eng_coder e0))"

definition put_allowed :: "Externals \<Rightarrow> bytes set \<Rightarrow> string \<Rightarrow> string \<Rightarrow> bytes \<Rightarrow> bool" where
  "put_allowed X D b k data \<longleftrightarrow> clean_bucket b \<and> clean_name k \<and> slash_free b \<and> plain_name (makeShardDir X k) \<and> data \<in> D"

lemma durable_put:
  assumes "durable_setting X D e0" "durable X D e0 v e A" "refs_ok v" "put_allowed X D b k data" "b |\<in>| mv_buckets v"
    and "put_outcome X v e b k data opts meta v' e' err"
  shows "durable X D e0 v' e' (A((b, k) \<mapsto> data))"
proof -
  have X: "digest_names X" "inj_on (HashBytes X) D" "hash_clean X"
    and sch: "erasure_scheme (coder_k (eng_coder e0)) (coder_m (eng_coder e0)) (coder_scheme (eng_coder e0))"
    using assms(1) digest_names_clean by (auto simp: durable_setting_def)
  have names: "clean_bucket b" "clean_name k" "slash_free b" "plain_name (makeShardDir X (trim_space k))" "data \<in> D"
    "trim_space b = b" "trim_space k = k"
    using assms(4) by (simp_all add: put_allowed_def clean_name_def clean_bucket_def)
  obtain e1 blob e2 info now at v2 where p: "prepared X v e k data e1 blob"
    "LinkObject X e1 now b k blob (po_ContentType opts) at = (e2, Inr info)" "v2 = put_committed X v b k data blob meta"
    "clean_meta meta" "om_bucket meta = b" "om_key meta = k" "om_hash meta = HashBytes X data" "om_size meta = bi_Size blob"
    "case replaced v b k (HashBytes X data) of None \<Rightarrow> v' = v2 \<and> e' = e2 \<and> err = None | Some h \<Rightarrow> released v2 e2 h v' e' err"
    by (rule put_outcomeE [OF assms(6) X(3) names(1,2)])
  note c = put_committed_balanced [OF assms(3) p(4-7) assms(5), of blob, folded p(3)]
  note pr = durable_prepared [OF assms(2) X(1) names(4) X(2) names(5) sch p(1)]
  let ?h = "HashBytes X data"
  define v1 where "v1 = put_retained v ?h blob (fmlookup (mv_refs v) ?h \<noteq> None) (map_option om_hash (fmlookup (mv_objects v) (object_key b k)) = Some ?h)"
  note rt = durable_retained [OF pr(1) names(5) pr(2) v1_def]
  obtain r where r: "fmlookup (mv_refs v1) ?h = Some r" "same_blob (blob_ref v ?h blob) r" using rt(4) by blast
  obtain L where L: "eng_cache e2 = fmupd (layoutKey b k) L (eng_cache e1)" "ly_ID L = layoutHash X (layoutKey b k)"
    "ly_ShardDir L = trim_space (bi_ShardDir blob)" "ly_Hash L = trim_space (bi_Hash blob)"
    "length (bi_Placements blob) = TotalChunks (eng_coder e1) \<Longrightarrow> ly_Placements L = bi_Placements blob"
    "ly_Checksums L = bi_Checksums blob" "ly_Size L = bi_Size blob"
    using LinkObject_success [OF p(2)] names(6,7) by metis
  have sz: "om_size meta = int (length data)" using p(8) pr(2-7) by (simp add: blob_stored_def)
  have "plain_name (ref_path (blob_ref v ?h blob))" "length (bi_Placements blob) = TotalChunks (eng_coder e1)"
    using pr(2,6) by (simp_all add: blob_stored_def)
  then have "layout_for L (blob_ref v ?h blob) ?h (layoutHash X (layoutKey b k))"
    using L(2-7) pr(3-7) X(3) by (simp add: layout_for_def plain_nameD hash_clean_def clean_name_def)
  then have lay: "layout_for L r ?h (layoutHash X (layoutKey b k))" using layout_for_same [OF r(2)] by simp
  have v2: "v2 = fst (spec_UpsertObjectMeta v1 meta)" by (simp add: p(3) put_committed_def v1_def Let_def)
  note lk = LinkObject_keeps [OF p(2), unfolded names(6,7)]
  have d2: "durable X D e0 v2 e2 (A((b, k) \<mapsto> data))"
    using durable_upsert [OF rt(1), of meta data e2 L r] assms(5) rt(3) names lk(1,2) lk(3) L(1) r lay p(4-7) sz
    by (simp add: v2)
  show ?thesis
  proof (cases "replaced v b k ?h")
    case None
    then show ?thesis using p(9) d2 by simp
  next
    case (Some h)
    then show ?thesis
      using p(9) durable_released [OF d2 X(1) _ c(1), of h v' e' err] by simp
  qed
qed

text \<open>A blob without a reference can come and go.\<close>

lemma durable_unreferenced:
  assumes "durable X D e0 v e A" "fmlookup (mv_refs v) (HashBytes X data) = None" "same_conf e e'"
    and "\<And>lk. fmlookup (eng_cache e') lk = fmlookup (eng_cache e) lk"
    and "\<And>d h n i. plain_name d \<Longrightarrow> plain_name h \<Longrightarrow> HashBytes X data \<noteq> h \<Longrightarrow> held e' n d h i = held e n d h i" "digest_names X"
  shows "durable X D e0 v e' A"
proof (rule durable_engine [OF assms(1,3,4)])
  fix d r n i assume r: "fmlookup (mv_refs v) (HashBytes X d) = Some r" "plain_name (ref_path r)"
  have "HashBytes X data \<noteq> HashBytes X d" using r(1) assms(2) by auto
  moreover have "plain_name (HashBytes X d)" using assms(6) by (simp add: digest_names_def)
  ultimately show "held e' n (ref_path r) (HashBytes X d) i = held e n (ref_path r) (HashBytes X d) i"
    by (intro assms(5) r(2))
qed

lemma durable_put_failed:
  assumes "durable_setting X D e0" "durable X D e0 v e A" "put_allowed X D b k data" "put_failed X v e b k data opts e'"
  shows "durable X D e0 v e' A"
proof -
  let ?h = "HashBytes X data"
  have X: "digest_names X" "inj_on (HashBytes X) D" "plain_name ?h"
    and sch: "erasure_scheme (coder_k (eng_coder e0)) (coder_m (eng_coder e0)) (coder_scheme (eng_coder e0))"
    using assms(1) by (auto simp: durable_setting_def digest_names_def)
  have names: "plain_name (makeShardDir X (trim_space k))" "data \<in> D"
    using assms(3) by (simp_all add: put_allowed_def clean_name_def)
  consider (unwritten) err where "fmlookup (mv_refs v) ?h = None" "PutBlobBytes X e k data = (e', Inl err)"
    | (link) e1 blob e2 now at err where "prepared X v e k data e1 blob" "LinkObject X e1 now b k blob (po_ContentType opts) at = (e2, Inl err)"
        "e' = (if fmlookup (mv_refs v) ?h = None then fst (DeleteBlob e2 (bi_ShardDir blob) (bi_Hash blob)) else e2)"
    using assms(4) unfolding put_failed_def by blast
  then show ?thesis
  proof cases
    case unwritten
    show ?thesis
      by (rule durable_unreferenced [OF assms(2) unwritten(1) _ _ _ X(1)])
         (use PutBlobBytes_frame [of e X k data] PutBlobBytes_other [OF X(1) names(1), of _ _ data e] unwritten(2) in simp_all)
  next
    case link
    note pr = durable_prepared [OF assms(2) X(1) names(1) X(2) names(2) sch link(1)]
    note lk = LinkObject_keeps [OF link(2)]
    have d2: "durable X D e0 v e2 A"
      by (rule durable_engine [OF pr(1)]) (use lk(1,2) in simp_all, use lk(3) in auto)
    show ?thesis
    proof (cases "fmlookup (mv_refs v) ?h = None")
      case True
      have path: "plain_name (bi_ShardDir blob)" using pr(2,4) by (simp add: blob_stored_def)
      show ?thesis
        by (rule durable_unreferenced [OF d2 True _ _ _ X(1)])
           (use DeleteBlob_conf [of e2 "bi_ShardDir blob" ?h] DeleteBlob_other [OF path X(3), where e = e2] in \<open>simp_all add: link(3) True pr(3)\<close>)
    qed (auto simp: link(3) d2)
  qed
qed

lemma durable_delete:
  assumes "durable_setting X D e0" "durable X D e0 v e A" "refs_ok v" "clean_bucket b"
    and "fmlookup (mv_objects v) (object_key b k) = Some x" "DeleteObjectLayout X e b k = (e1, lerr)"
    and "released (fst (spec_DeleteObjectMeta v b k)) e1 (om_hash x) v' e' err"
  shows "durable X D e0 v' e' (A((b, k) := None))"
proof -
  note d = durableD [OF assms(2)]
  have X: "digest_names X" using assms(1) by (simp add: durable_setting_def)
  let ?v = "v\<lparr>mv_objects := fmdrop (object_key b k) (mv_objects v)\<rparr>" and ?A = "A((b, k) := None)"
  have v1: "fst (spec_DeleteObjectMeta v b k) = ?v" by (simp add: spec_DeleteObjectMeta_def)
  have x: "object_key b k = meta_key x" "object_durable X D v e A x" using d(3) [OF assms(5)] by auto
  then have bk: "om_bucket x = b" "om_key x = k" and slash: "slash_free b"
    using assms(4) by (auto simp: meta_key_def object_key_inject object_durable_def clean_meta_def clean_bucket_def)
  obtain L r where L: "fmlookup (eng_cache e) (layoutKey b k) = Some L" "fmlookup (mv_refs v) (om_hash x) = Some r"
    "layout_for L r (om_hash x) (layoutHash X (layoutKey b k))" "plain_name (ref_path r)"
    using x(2) d(2) blob_stored_path unfolding object_durable_def bk by blast
  have "plain_name (ly_ShardDir L)" "ly_ID L = layoutHash X (layoutKey b k)" using L(3,4) by (simp_all add: layout_for_def)
  note del = DeleteObjectLayout_cached [OF L(1) this(2,1) X assms(6)]
  have bal: "balanced ?v (use_of (Some x))"
    using balanced_delete [of v "\<lambda>_. 0" b k] assms(3,5) by (simp add: refs_ok_def spec_DeleteObjectMeta_def)
  have obj: "object_durable X D ?v e1 ?A y" if y: "object_durable X D v e A y" and ne: "meta_key y \<noteq> object_key b k" for y
  proof -
    have pair: "\<not> (om_bucket y = b \<and> om_key y = k)" using ne by (auto simp: meta_key_def)
    have "slash_free (om_bucket y)" using y by (simp add: object_durable_def)
    then have "layoutKey (om_bucket y) (om_key y) \<noteq> layoutKey b k" using layoutKey_inject [OF _ slash] pair by blast
    then show ?thesis using y pair del(2) by (auto simp: object_durable_def)
  qed
  have ref: "\<exists>d \<in> D. h = HashBytes X d \<and> blob_stored X e1 d r'" if r': "fmlookup (mv_refs v) h = Some r'" for h r'
  proof -
    obtain y where y: "y \<in> D" "h = HashBytes X y" "blob_stored X e y r'" using d(2) [OF r'] by blast
    then show ?thesis using blob_stored_cong [OF y(3) del(1)] del(3) [OF blob_stored_path [OF y(3)]] by blast
  qed
  have gone: "\<exists>y. fmlookup (mv_objects ?v) (object_key b' k') = Some y \<and> om_bucket y = b' \<and> om_key y = k'" if a: "?A (b', k') = Some z" for b' k' z
  proof -
    have ne: "\<not> (b' = b \<and> k' = k)" and "A (b', k') = Some z" using a by (auto split: if_splits)
    then obtain y where y: "fmlookup (mv_objects v) (object_key b' k') = Some y" "om_bucket y = b'" "om_key y = k'" using d(4) by blast
    have "nul_free b'" "nul_free b" using d(3) [OF y(1)] y(2) assms(4) by (auto simp: object_durable_def clean_meta_def clean_bucket_def)
    then show ?thesis using y ne by (simp add: object_key_inject)
  qed
  have "durable X D e0 ?v e1 ?A"
    unfolding durable_def
    by (intro conjI allI impI same_conf_trans [OF d(1) del(1)] ref gone obj) (use d(3) in \<open>auto split: if_splits\<close>)
  then show ?thesis
    using durable_released [OF _ X _ bal] assms(7) v1 by (simp add: use_of_def)
qed

end
