(* ===== verification/Store_Refinement.thy ===== *)
theory Store_Refinement
  imports Store_Durability
begin

text \<open>
  The store refines a catalogue of buckets and objects. \<open>catalogue_step\<close> says what an operation may do to the
  catalogue and what it may reply; \<open>tracks\<close> relates a catalogue to a state of the store; every operation of
  \<open>store.go\<close> on buckets and objects is a step of the catalogue, whatever the engine's writes and deletions do.
\<close>

section \<open>The catalogue\<close>

record catalogue =
  cat_buckets :: "string set"
  cat_objects :: object_map

datatype store_reply = Done | Missing | Failed | Bytes bytes | Keys "string list"

text \<open>\<open>A'\<close> is \<open>A\<close> without some objects of bucket \<open>b\<close>.\<close>

definition thinned :: "string \<Rightarrow> object_map \<Rightarrow> object_map \<Rightarrow> bool" where
  "thinned b A A' \<longleftrightarrow> (\<forall>b' k. A' (b', k) = A (b', k) \<or> b' = b \<and> A' (b', k) = None)"

definition emptied :: "string \<Rightarrow> object_map \<Rightarrow> object_map" where
  "emptied b A = (\<lambda>(b', k). if b' = b then None else A (b', k))"

text \<open>A write that reports an error may have taken effect, when only the release of the replaced blob failed; a
  deletion that reports an error has taken effect; the deletion of a bucket may stop half way.\<close>

inductive catalogue_step :: "store_op \<Rightarrow> catalogue \<Rightarrow> store_reply \<Rightarrow> catalogue \<Rightarrow> bool" where
  create: "b \<notin> cat_buckets C \<Longrightarrow>
    catalogue_step (OpCreateBucket b) C Done (C\<lparr>cat_buckets := insert b (cat_buckets C)\<rparr>)"
| create_exists: "b \<in> cat_buckets C \<Longrightarrow> catalogue_step (OpCreateBucket b) C Failed C"
| put: "b \<in> cat_buckets C \<Longrightarrow>
    catalogue_step (OpPutObject b k (Inr d) opts) C Done (C\<lparr>cat_objects := (cat_objects C)((b, k) \<mapsto> d)\<rparr>)"
| put_late: "b \<in> cat_buckets C \<Longrightarrow>
    catalogue_step (OpPutObject b k (Inr d) opts) C Failed (C\<lparr>cat_objects := (cat_objects C)((b, k) \<mapsto> d)\<rparr>)"
| put_failed: "catalogue_step (OpPutObject b k reader opts) C Failed C"
| get: "cat_objects C (b, k) = Some d \<Longrightarrow> catalogue_step (OpGetObject b k) C (Bytes d) C"
| get_missing: "cat_objects C (b, k) = None \<Longrightarrow> catalogue_step (OpGetObject b k) C Missing C"
| stat: "cat_objects C (b, k) = Some d \<Longrightarrow> catalogue_step (OpStatObject b k) C Done C"
| stat_missing: "cat_objects C (b, k) = None \<Longrightarrow> catalogue_step (OpStatObject b k) C Missing C"
| delete: "cat_objects C (b, k) = Some d \<Longrightarrow>
    catalogue_step (OpDeleteObject b k) C r (C\<lparr>cat_objects := (cat_objects C)((b, k) := None)\<rparr>)"
| delete_missing: "cat_objects C (b, k) = None \<Longrightarrow> catalogue_step (OpDeleteObject b k) C Missing C"
| list: "b \<in> cat_buckets C \<Longrightarrow> sorted ks \<Longrightarrow> distinct ks \<Longrightarrow>
    set ks = {k. cat_objects C (b, k) \<noteq> None \<and> has_prefix k p} \<Longrightarrow> catalogue_step (OpListObjects b p) C (Keys ks) C"
| list_missing: "b \<notin> cat_buckets C \<Longrightarrow> catalogue_step (OpListObjects b p) C Failed C"
| delete_bucket: "b \<in> cat_buckets C \<Longrightarrow> catalogue_step (OpDeleteBucket b) C Done
    (C\<lparr>cat_buckets := cat_buckets C - {b}, cat_objects := emptied b (cat_objects C)\<rparr>)"
| delete_bucket_failed: "thinned b (cat_objects C) A \<Longrightarrow>
    catalogue_step (OpDeleteBucket b) C Failed (C\<lparr>cat_objects := A\<rparr>)"

inductive_cases catalogue_getE: "catalogue_step (OpGetObject b k) C r C'"

text \<open>What an operation of the store does and replies.\<close>

definition failure :: "store_error \<Rightarrow> store_reply" where
  "failure err = (if err = ErrNotFound then Missing else Failed)"

definition reply :: "('a \<Rightarrow> store_reply) \<Rightarrow> (store_error \<Rightarrow> store_reply) \<Rightarrow> 'm Store \<times> (store_error + 'a) \<Rightarrow> 'm Store \<times> store_reply" where
  "reply f g r = (case r of (s, Inl err) \<Rightarrow> (s, g err) | (s, Inr x) \<Rightarrow> (s, f x))"

definition serve :: "Externals \<Rightarrow> 'm MetadataStore \<Rightarrow> store_op \<Rightarrow> 'm Store \<Rightarrow> 'm Store \<times> store_reply" where
  "serve X M c s =
     (case c of
        OpCreateBucket b \<Rightarrow> reply (\<lambda>_. Done) (\<lambda>_. Failed) (Store_CreateBucket M b s)
      | OpDeleteBucket b \<Rightarrow> reply (\<lambda>_. Done) (\<lambda>_. Failed) (Store_DeleteBucket X M b s)
      | OpPutObject b k reader opts \<Rightarrow> reply (\<lambda>_. Done) (\<lambda>_. Failed) (Store_PutObject X M b k reader opts s)
      | OpGetObject b k \<Rightarrow> reply (\<lambda>(d, _). Bytes d) failure (Store_GetObject X M b k s)
      | OpStatObject b k \<Rightarrow> reply (\<lambda>_. Done) failure (Store_StatObject M b k s)
      | OpDeleteObject b k \<Rightarrow> reply (\<lambda>_. Done) failure (Store_DeleteObject X M b k s)
      | OpListObjects b p \<Rightarrow> reply (\<lambda>xs. Keys (map om_key xs)) (\<lambda>_. Failed) (Store_ListObjects M b p s)
      | OpCheckHealth b k \<Rightarrow> reply (\<lambda>_. Done) failure (Store_CheckHealth X b k s)
      | OpScrubObject b k \<Rightarrow> reply (\<lambda>_. Done) failure (Store_ScrubObject X M b k s)
      | OpRepairObject b k \<Rightarrow> reply (\<lambda>_. Done) failure (Store_RepairObject X M b k s))"

text \<open>The operations on buckets and objects, on clean names and on data of \<open>D\<close>.\<close>

definition catalogue_op :: "Externals \<Rightarrow> bytes set \<Rightarrow> store_op \<Rightarrow> bool" where
  "catalogue_op X D c \<longleftrightarrow> op_ok c \<and>
     (case c of OpPutObject b k (Inr d) opts \<Rightarrow> put_allowed X D b k d
      | OpCheckHealth _ _ \<Rightarrow> False | OpScrubObject _ _ \<Rightarrow> False | OpRepairObject _ _ \<Rightarrow> False | _ \<Rightarrow> True)"

lemma serve_wp:
  assumes "wp f (\<lambda>x s. P s (g x)) (\<lambda>err s. P s (h err)) s" "reply g h (f s) = (s', r)"
  shows "P s' r"
  using assms by (auto simp: wp_def reply_def split: prod.splits sum.splits)

section \<open>The relation\<close>

definition tracks :: "('m \<Rightarrow> meta_view) \<Rightarrow> ('m \<Rightarrow> bool) \<Rightarrow> ('m \<Rightarrow> bool) \<Rightarrow> Externals \<Rightarrow> bytes set \<Rightarrow> Engine \<Rightarrow> catalogue \<Rightarrow> 'm Store \<Rightarrow> bool" where
  "tracks view ok quiet X D e0 C s \<longleftrightarrow> counted view ok quiet s \<and>
     fset (mv_buckets (view (st_meta s))) = cat_buckets C \<and> durable X D e0 (view (st_meta s)) (st_engine s) (cat_objects C)"

lemma tracksI:
  assumes "at_view view ok quiet v e s" "refs_ok v" "fset (mv_buckets v) = cat_buckets C" "durable X D e0 v e (cat_objects C)"
  shows "tracks view ok quiet X D e0 C s"
proof -
  have "same_core v (view (st_meta s))" "st_engine s = e" using assms(1) by (auto simp: at_view_def same_core_def)
  then show ?thesis
    using assms(2-4) counted_position [OF assms(1,2)] same_core_durable [of v "view (st_meta s)"]
    by (simp add: tracks_def same_core_def)
qed

lemma durable_buckets: "durable X D e0 (v\<lparr>mv_buckets := B\<rparr>) e A = durable X D e0 v e A"
  unfolding durable_def object_durable_def by simp

text \<open>An object of the catalogue is one of the metadata.\<close>

lemma durable_object:
  assumes "durable X D e0 v e A" "clean_bucket b"
  shows "fmlookup (mv_objects v) (object_key b k) = None \<longleftrightarrow> A (b, k) = None"
    "fmlookup (mv_objects v) (object_key b k) = Some x \<Longrightarrow> om_bucket x = b \<and> om_key x = k"
proof -
  note d = durableD [OF assms(1)]
  show x: "om_bucket x = b \<and> om_key x = k" if "fmlookup (mv_objects v) (object_key b k) = Some x" for x
    using d(3) [OF that] assms(2) by (auto simp: meta_key_def object_key_inject object_durable_def clean_meta_def clean_bucket_def)
  have "A (b, k) \<noteq> None" if s: "fmlookup (mv_objects v) (object_key b k) = Some x" for x
    using d(3) [OF s] x [OF s] by (auto simp: object_durable_def)
  then show "fmlookup (mv_objects v) (object_key b k) = None \<longleftrightarrow> A (b, k) = None"
    using d(4) [of b k] by fastforce
qed

text \<open>Reading an object of the catalogue returns its bytes.\<close>

lemma durable_get:
  assumes "durable_setting X D e0" "quiet_io X e0" "durable X D e0 v e A" "clean_bucket b" "A (b, k) = Some d"
  shows "\<exists>info. GetObject X e now b k = (e, Inr (d, info))"
proof -
  note du = durableD [OF assms(3)]
  obtain x where x: "fmlookup (mv_objects v) (object_key b k) = Some x" "om_bucket x = b" "om_key x = k" using du(4) [OF assms(5)] by blast
  have X: "hash_clean X" "inj_on (HashBytes X) D" using assms(1) digest_names_clean by (auto simp: durable_setting_def)
  have sch: "erasure_scheme (coder_k (eng_coder e)) (coder_m (eng_coder e)) (coder_scheme (eng_coder e))" "eng_k e = coder_k (eng_coder e)"
    and q: "quiet_io X e"
    using assms(1,2) same_confD [OF du(1)] same_conf_ok(2) [OF du(1)] by (simp_all add: durable_setting_def)
  obtain L r y where L: "fmlookup (eng_cache e) (layoutKey b k) = Some L" "fmlookup (mv_refs v) (om_hash x) = Some r"
    "layout_for L r (om_hash x) (layoutHash X (layoutKey b k))" "om_hash x = HashBytes X d" "y \<in> D" "d \<in> D" "om_hash x = HashBytes X y"
    "blob_stored X e y r"
    using du(3) [OF x(1)] du(2) x(2,3) assms(5) unfolding object_durable_def by fastforce
  have "y = d" using L(4-7) X(2) by (auto dest: inj_onD)
  with L(8) have st: "blob_stored X e d r" by simp
  obtain es where es: "d \<noteq> []" "Encode (eng_coder e) d = Inr es" "length es = TotalChunks (eng_coder e)" "ref_checksums r = shardChecksums X es"
    "length (ref_placements r) = TotalChunks (eng_coder e)" "ref_size r = int (length d)"
    "\<And>i. i < length es \<Longrightarrow> trim_space (pl_node (ref_placements r ! i)) \<noteq> [] \<and>
       (\<exists>n. storageNode e (ref_placements r ! i) = Inr n \<and> held e n (ref_path r) (HashBytes X d) i = Some (es ! i))"
    using st unfolding blob_stored_def by blast
  have "readShardForRecovery X e L i = Inr (Some (es ! i))" if i: "i < TotalChunks (eng_coder e)" for i
  proof -
    have sp: "shardPlacement e L i = ref_placements r ! i" using L(3) es(3,5,7) i by (simp add: shardPlacement_def layout_for_def)
    obtain n where n: "storageNode e (shardPlacement e L i) = Inr n" "held e n (ref_path r) (HashBytes X d) i = Some (es ! i)"
      using es(3,7) i sp by fastforce
    have ck: "i < length (ly_Checksums L)" "trim_space (ly_Checksums L ! i) = HashBytes X (es ! i)" "HashBytes X (es ! i) \<noteq> []"
      using L(3) es(3,4) X(1) i by (simp_all add: layout_for_def shardChecksums_def hash_clean_def)
    show ?thesis
      using readShardForRecovery_seen [OF q n(1) ck] seen_held [OF n(2)] L(3,4) by (simp add: layout_for_def)
  qed
  then show ?thesis
    using GetObject_decodes [OF sch es(1,2), of X L "\<lambda>i. Some (es ! i)" "{}" e b k now] getLayout_cached [OF L(1), of X] L(3,4) es(6) X(1)
    by (simp add: layout_for_def hash_clean_def)
qed

text \<open>Listing: a map whose keys are read off its values has no value twice.\<close>

lemma distinct_fm_values:
  assumes "\<And>i x. fmlookup m i = Some x \<Longrightarrow> i = f x"
  shows "distinct (fm_values m)"
proof -
  have "inj_on (\<lambda>i. the (fmlookup m i)) (set (fm_keys m))"
  proof (rule inj_onI)
    fix i j assume ij: "i \<in> set (fm_keys m)" "j \<in> set (fm_keys m)" and eq: "the (fmlookup m i) = the (fmlookup m j)"
    obtain x y where "fmlookup m i = Some x" "fmlookup m j = Some y" using ij by (auto simp: fmlookup_dom_iff)
    then show "i = j" using eq assms by (metis option.sel)
  qed
  then show ?thesis by (simp add: fm_values_def fm_entries_def distinct_map comp_def)
qed

lemma thinned_more: "thinned b (A((b, k) := None)) A' \<Longrightarrow> thinned b A A' \<and> A' (b, k) = None"
  unfolding thinned_def by (metis fun_upd_apply prod.inject)

lemma thinned_listed:
  assumes "thinned b A A'" "\<forall>x \<in> S. A' (b, f x) = None" "\<And>k d. A (b, k) = Some d \<Longrightarrow> \<exists>x \<in> S. f x = k"
  shows "A' (b, k) = None"
proof (cases "A (b, k)")
  case None
  then show ?thesis using assms(1) unfolding thinned_def by metis
next
  case (Some d)
  then obtain x where "x \<in> S" "f x = k" using assms(3) by blast
  then show ?thesis using assms(2) by auto
qed

section \<open>Every operation is a step of the catalogue\<close>

context metadata_store
begin

abbreviation tracked :: "Externals \<Rightarrow> bytes set \<Rightarrow> Engine \<Rightarrow> catalogue \<Rightarrow> 'm Store \<Rightarrow> bool" where
  "tracked \<equiv> tracks view ok quiet"

abbreviation stepped :: "Externals \<Rightarrow> bytes set \<Rightarrow> Engine \<Rightarrow> store_op \<Rightarrow> catalogue \<Rightarrow> 'm Store \<Rightarrow> store_reply \<Rightarrow> bool" where
  "stepped X D e0 c C s r \<equiv> \<exists>C'. catalogue_step c C r C' \<and> tracked X D e0 C' s"

lemma tracked_view:
  assumes "tracked X D e0 C s"
  shows "position (view (st_meta s)) (st_engine s) s" "refs_ok (view (st_meta s))" "covered (view (st_meta s))"
    "fset (mv_buckets (view (st_meta s))) = cat_buckets C" "durable X D e0 (view (st_meta s)) (st_engine s) (cat_objects C)"
    "fmpred (\<lambda>i x. i = meta_key x \<and> om_bucket x |\<in>| mv_buckets (view (st_meta s)) \<and> clean_bucket (om_bucket x)) (mv_objects (view (st_meta s)))"
  using assms kept_view [of s] objects_ok [of "st_meta s"] unfolding tracks_def counted_def by blast+

lemma tracked_at:
  assumes "tracked X D e0 C s" "position v (st_engine s) s'" "same_core v (view (st_meta s))"
  shows "tracked X D e0 C s'"
  by (rule tracksI [OF at_view_core [OF assms(2,3)]]) (use tracked_view [OF assms(1)] in simp_all)

lemma put_steps:
  assumes "durable_setting X D e0" "tracked X D e0 C s" "put_allowed X D b k d"
  shows "wp (Store_PutObject X M b k (Inr d) opts) (\<lambda>_ s. stepped X D e0 (OpPutObject b k (Inr d) opts) C s Done)
    (\<lambda>_ s. stepped X D e0 (OpPutObject b k (Inr d) opts) C s Failed) s"
proof -
  note t = tracked_view [OF assms(2)]
  have X: "hash_clean X" using assms(1) digest_names_clean by (auto simp: durable_setting_def)
  have names: "clean_bucket b" "clean_name k" using assms(3) by (simp_all add: put_allowed_def)
  show ?thesis
  proof (rule Store_PutObject_wp [OF t(1) X names t(3)], goal_cases)
    case (1 s')
    then show ?case using tracksI [OF 1(1) t(2,4,5)] put_failed by blast
  next
    case (2 s' meta v' e' err)
    let ?C = "C\<lparr>cat_objects := (cat_objects C)((b, k) \<mapsto> d)\<rparr>"
    note bal = put_outcome_balanced [OF t(2) X names 2(2,3)]
    have "tracked X D e0 ?C s'"
      by (rule tracksI [OF 2(1)]) (use bal t(4) durable_put [OF assms(1) t(5,2) assms(3) 2(2,3)] in simp_all)
    moreover have "b \<in> cat_buckets C" using 2(2) t(4) by auto
    ultimately show ?case using put put_late by blast
  next
    case (3 s' e' err)
    then show ?case
      using tracksI [OF 3(1) t(2,4) durable_put_failed [OF assms(1) t(5) assms(3) 3(3)]] put_failed by blast
  qed
qed

lemma put_unread_steps:
  assumes "tracked X D e0 C s" "clean_bucket b" "clean_name k"
  shows "wp (Store_PutObject X M b k (Inl er) opts) (\<lambda>_ s. stepped X D e0 (OpPutObject b k (Inl er) opts) C s Done)
    (\<lambda>_ s. stepped X D e0 (OpPutObject b k (Inl er) opts) C s Failed) s"
proof -
  note t = tracked_view [OF assms(1)]
  have loc: "normalizeObjectLocation b k = Inr (b, k)"
    using assms(2,3) by (simp add: normalizeObjectLocation_def clean_bucket_def clean_name_def)
  have objs: "fmpred (\<lambda>_ x. clean_meta x) (mv_objects (view (st_meta s)))" using t(3) by (auto simp: covered_def fmpred_iff)
  show ?thesis
    unfolding Store_PutObject_def wp_simps loc sum.case prod.case stageObject_def
    by (rule ensureBucketExists_wp [OF t(1) assms(2)], rule loadExistingObject_wp [OF _ assms(2,3) objs], assumption)
       (use tracksI [OF _ t(2,4,5)] put_failed in blast)+
qed

lemma delete_steps:
  assumes "durable_setting X D e0" "tracked X D e0 C s" "clean_bucket b" "clean_name k"
  shows "wp (Store_DeleteObject X M b k) (\<lambda>_ s. stepped X D e0 (OpDeleteObject b k) C s Done)
    (\<lambda>err s. stepped X D e0 (OpDeleteObject b k) C s (failure err)) s"
proof -
  note t = tracked_view [OF assms(2)]
  show ?thesis
  proof (rule Store_DeleteObject_wp [OF t(1) assms(3,4) t(3)], goal_cases)
    case (1 s')
    have "cat_objects C (b, k) = None" using 1(2) durable_object(1) [OF t(5) assms(3)] by simp
    then show ?case using tracksI [OF 1(1) t(2,4,5)] delete_missing by (auto simp: failure_def)
  next
    case (2 s' x e1 lerr v' e' err)
    let ?C = "C\<lparr>cat_objects := (cat_objects C)((b, k) := None)\<rparr>"
    note d = delete_outcome_balanced [OF t(2) 2(2,4)]
    obtain y where y: "cat_objects C (b, k) = Some y" using 2(2) durable_object(1) [OF t(5) assms(3), of k] by auto
    have "tracked X D e0 ?C s'"
      by (rule tracksI [OF 2(1) d(1)]) (use d(2) t(4) durable_delete [OF assms(1) t(5,2) assms(3) 2(2-4)] in simp_all)
    then show ?case using delete [OF y] by blast
  qed
qed

text \<open>A read returns the bytes of the catalogue and metadata with their size, or says that there is no such object.\<close>

lemma get_exact:
  assumes "durable_setting X D e0" "quiet_io X e0" "tracked X D e0 C s" "clean_bucket b" "clean_name k"
  shows "wp (Store_GetObject X M b k)
    (\<lambda>x s. tracked X D e0 C s \<and> cat_objects C (b, k) = Some (fst x) \<and> om_size (snd x) = int (length (fst x)))
    (\<lambda>err s. tracked X D e0 C s \<and> cat_objects C (b, k) = None \<and> err = ErrNotFound) s"
  unfolding Store_GetObject_def wp_simps
proof (rule get_object_wp [OF tracked_view(1) [OF assms(3)] assms(4,5)], goal_cases)
  case (1 s')
  note t = tracked_view [OF assms(3)]
  have tr: "tracked X D e0 C s'" by (rule tracksI [OF 1 t(2,4,5)])
  show ?case
  proof (cases "cat_objects C (b, k)")
    case None
    then show ?thesis using durable_object(1) [OF t(5) assms(4), of k] tr by (auto simp: wp_simps)
  next
    case (Some d)
    obtain x where x: "fmlookup (mv_objects (view (st_meta s))) (object_key b k) = Some x"
      using durable_object(1) [OF t(5) assms(4), of k] Some by auto
    have "om_size x = int (length d)"
      using durableD(3) [OF t(5) x] durable_object(2) [OF t(5) assms(4) x] Some by (auto simp: object_durable_def)
    moreover have e: "st_engine s' = st_engine s" using 1 by (simp add: at_view_def)
    obtain info where "GetObject X (st_engine s') (st_clock s' (st_tick s')) b k = (st_engine s', Inr (d, info))"
      using durable_get [OF assms(1,2) t(5) assms(4) Some] unfolding e by blast
    ultimately show ?thesis using Some tr by (auto simp: x wp_simps wp_on_engine)
  qed
qed

lemma get_steps:
  assumes "durable_setting X D e0" "quiet_io X e0" "tracked X D e0 C s" "clean_bucket b" "clean_name k"
  shows "wp (Store_GetObject X M b k) (\<lambda>x s. stepped X D e0 (OpGetObject b k) C s (case x of (d, _) \<Rightarrow> Bytes d))
    (\<lambda>err s. stepped X D e0 (OpGetObject b k) C s (failure err)) s"
  by (rule wp_mono [OF get_exact [OF assms]]) (auto simp: failure_def intro!: exI [of _ C] get get_missing)

lemma stat_steps:
  assumes "tracked X D e0 C s" "clean_bucket b" "clean_name k"
  shows "wp (Store_StatObject M b k) (\<lambda>_ s. stepped X D e0 (OpStatObject b k) C s Done)
    (\<lambda>err s. stepped X D e0 (OpStatObject b k) C s (failure err)) s"
  unfolding Store_StatObject_def wp_simps
proof (rule get_object_wp [OF tracked_view(1) [OF assms(1)] assms(2,3)], goal_cases)
  case (1 s')
  note t = tracked_view [OF assms(1)]
  have "tracked X D e0 C s'" by (rule tracksI [OF 1 t(2,4,5)])
  then show ?case
    using durable_object(1) [OF t(5) assms(2), of k]
    by (cases "fmlookup (mv_objects (view (st_meta s))) (object_key b k)")
       (auto simp: wp_simps failure_def intro!: exI [of _ C] stat stat_missing)
qed

lemma create_steps:
  assumes "tracked X D e0 C s" "clean_bucket b"
  shows "wp (Store_CreateBucket M b) (\<lambda>_ s. stepped X D e0 (OpCreateBucket b) C s Done)
    (\<lambda>_ s. stepped X D e0 (OpCreateBucket b) C s Failed) s"
proof -
  note t = tracked_view [OF assms(1)]
  let ?v = "view (st_meta s)"
  have b: "trim_space b = b" "b \<noteq> []" using assms(2) by (simp_all add: clean_bucket_def clean_name_def)
  have p: "position ?v (st_engine s) (s\<lparr>st_tick := n\<rparr>)" for n using t(1) by simp
  show ?thesis
    unfolding Store_CreateBucket_def Let_def b if_not_P [OF b(2)] wp_simps
  proof (rule call_wp [OF p, where a = "\<lambda>v. spec_CreateBucket v b"], goal_cases)
    case 1
    then show ?case by (rule_tac CreateBucket [OF _ assms(2)])
  next
    case (2 v' s')
    have core: "mv_buckets v' = mv_buckets ?v" "mv_objects v' = mv_objects ?v" "mv_refs v' = mv_refs ?v"
      using 2(1) by (simp_all add: same_core_def)
    let ?w = "?v\<lparr>mv_buckets := finsert b (mv_buckets ?v)\<rparr>" and ?C = "C\<lparr>cat_buckets := insert b (cat_buckets C)\<rparr>"
    show ?case
    proof (cases "b \<in> cat_buckets C")
      case True
      then have "position v' (st_engine s) s'" "b |\<in>| mv_buckets v'" using 2(2) core t(4) by (auto simp: spec_CreateBucket_def)
      then show ?thesis
        using tracked_at [OF assms(1) _ 2(1)] create_exists [OF True] by (auto simp: spec_CreateBucket_def)
    next
      case False
      then have nb: "b |\<notin>| mv_buckets v'" using core t(4) by auto
      have "same_core (fst (spec_CreateBucket v' b)) ?w" using nb core by (simp add: spec_CreateBucket_def same_core_def)
      from at_view_core [OF 2(2) this] have "position ?w (st_engine s) s'" .
      moreover have "refs_ok ?w" using t(2) by (simp add: refs_ok_def balanced_def)
      moreover have "fset (mv_buckets ?w) = cat_buckets ?C" using t(4) by simp
      moreover have "durable X D e0 ?w (st_engine s) (cat_objects ?C)" using t(5) durable_buckets by simp
      ultimately have "tracked X D e0 ?C s'" by (rule tracksI)
      then show ?thesis using create [OF False] nb by (auto simp: spec_CreateBucket_def)
    qed
  qed
qed

lemma list_steps:
  assumes "tracked X D e0 C s" "clean_bucket b"
  shows "wp (Store_ListObjects M b p) (\<lambda>xs s. stepped X D e0 (OpListObjects b p) C s (Keys (map om_key xs)))
    (\<lambda>_ s. stepped X D e0 (OpListObjects b p) C s Failed) s"
proof -
  note t = tracked_view [OF assms(1)]
  let ?v = "view (st_meta s)"
  let ?xs = "sort_key om_key (filter (\<lambda>m. om_bucket m = b \<and> has_prefix (om_key m) p) (fm_values (mv_objects ?v)))"
  have b: "trim_space b = b" using assms(2) by (simp add: clean_bucket_def clean_name_def)
  have st: "catalogue_step (OpListObjects b p) C (Keys (map om_key ?xs)) C" if "b \<in> cat_buckets C"
  proof (rule list [OF that])
    show "sorted (map om_key ?xs)" by simp
    have inj: "x = y" if "x \<in> set ?xs" "y \<in> set ?xs" "om_key x = om_key y" for x y
      using that t(6) unfolding fmpred_iff meta_key_def by (simp add: fm_values_iff) (metis option.inject)
    have "distinct (fm_values (mv_objects ?v))"
      by (rule distinct_fm_values [of _ meta_key]) (use t(6) in \<open>auto simp: fmpred_iff\<close>)
    then show "distinct (map om_key ?xs)" using inj by (auto simp: distinct_map inj_on_def)
    have "k \<in> om_key ` set ?xs \<longleftrightarrow> cat_objects C (b, k) \<noteq> None \<and> has_prefix k p" for k
    proof -
      have "k \<in> om_key ` set ?xs \<longleftrightarrow> (\<exists>x. fmlookup (mv_objects ?v) (object_key b k) = Some x) \<and> has_prefix k p"
        using durable_object(2) [OF t(5) assms(2), of k] t(6)
        by (auto simp: fm_values_iff fmpred_iff meta_key_def image_iff)
      then show ?thesis using durable_object(1) [OF t(5) assms(2), of k] by auto
    qed
    then show "set (map om_key ?xs) = {k. cat_objects C (b, k) \<noteq> None \<and> has_prefix k p}" by auto
  qed
  have l: "wp (on_meta (\<lambda>m. ListObjectMetas M m b p)) (\<lambda>xs s. stepped X D e0 (OpListObjects b p) C s (Keys (map om_key xs)))
    (\<lambda>_ s. stepped X D e0 (OpListObjects b p) C s Failed) s'" if "position ?v (st_engine s) s'" "b |\<in>| mv_buckets ?v" for s'
    by (rule call_wp [OF that(1), where a = "\<lambda>v. spec_ListObjectMetas v b p"])
       (erule ListObjectMetas [OF _ assms(2)], use that(2) t(4) st tracked_at [OF assms(1)] in \<open>fastforce simp: spec_ListObjectMetas_def same_core_def\<close>)
  show ?thesis
    unfolding Store_ListObjects_def Let_def b wp_simps
  proof (rule call_wp [OF t(1), where a = "\<lambda>v. spec_BucketExists v b"], goal_cases)
    case 1
    then show ?case by (rule_tac BucketExists [OF _ assms(2)])
  next
    case (2 v' s')
    have p: "position ?v (st_engine s) s'" using 2 at_view_core by (simp add: spec_BucketExists_def)
    have b': "b |\<in>| mv_buckets v' \<longleftrightarrow> b |\<in>| mv_buckets ?v" "b |\<in>| mv_buckets ?v \<longleftrightarrow> b \<in> cat_buckets C"
      using 2(1) t(4) by (auto simp: same_core_def)
    show ?case
      using l [OF p] tracksI [OF p t(2,4,5)] list_missing [of b C p] b' by (auto simp: spec_BucketExists_def wp_simps)
  qed
qed

text \<open>The loop of \<open>DeleteBucket\<close> removes objects of the bucket only, and all of them when it ends without an error.\<close>

lemma delete_loop_steps:
  assumes "durable_setting X D e0" "tracked X D e0 C s" "clean_bucket b"
    and "\<And>x. x \<in> set xs \<Longrightarrow> om_bucket x = b \<and> clean_name (om_key x)"
  shows "wp (forEach xs (\<lambda>meta. andThen (attempt (Store_DeleteObject X M (om_bucket meta) (om_key meta))) (\<lambda>r.
      case r of Inl err \<Rightarrow> if error_is err ErrNotFound then ret () else throw (ErrWrap [err]) | Inr _ \<Rightarrow> ret ())))
    (\<lambda>_ s. \<exists>A. thinned b (cat_objects C) A \<and> (\<forall>x \<in> set xs. A (b, om_key x) = None) \<and> tracked X D e0 (C\<lparr>cat_objects := A\<rparr>) s)
    (\<lambda>_ s. \<exists>A. thinned b (cat_objects C) A \<and> tracked X D e0 (C\<lparr>cat_objects := A\<rparr>) s) s"
  using assms(2,4)
proof (induction xs arbitrary: C s)
  case Nil
  then show ?case unfolding forEach.simps wp_simps by (intro exI [of _ "cat_objects C"]) (simp add: thinned_def)
next
  case (Cons y xs)
  let ?C = "C\<lparr>cat_objects := (cat_objects C)((b, om_key y) := None)\<rparr>"
  have y: "om_bucket y = b" "clean_name (om_key y)" using Cons.prems(2) by auto
  have step: "tracked X D e0 ?C s'" if st: "stepped X D e0 (OpDeleteObject b (om_key y)) C s' r" for s' r
  proof -
    obtain C' where C': "catalogue_step (OpDeleteObject b (om_key y)) C r C'" "tracked X D e0 C' s'" using st by blast
    have "C' = ?C" using C'(1) by cases (auto simp: fun_upd_idem)
    with C'(2) show ?thesis by simp
  qed
  have thin: "thinned b (cat_objects C) A \<and> A (b, om_key y) = None" if "thinned b (cat_objects ?C) A" for A
    using that [simplified] by (rule thinned_more)
  have go: "wp (forEach xs (\<lambda>meta. andThen (attempt (Store_DeleteObject X M (om_bucket meta) (om_key meta))) (\<lambda>r.
      case r of Inl err \<Rightarrow> if error_is err ErrNotFound then ret () else throw (ErrWrap [err]) | Inr _ \<Rightarrow> ret ())))
    (\<lambda>_ s. \<exists>A. thinned b (cat_objects C) A \<and> (\<forall>x \<in> set (y # xs). A (b, om_key x) = None) \<and> tracked X D e0 (C\<lparr>cat_objects := A\<rparr>) s)
    (\<lambda>_ s. \<exists>A. thinned b (cat_objects C) A \<and> tracked X D e0 (C\<lparr>cat_objects := A\<rparr>) s) s'" if "tracked X D e0 ?C s'" for s'
  proof (rule wp_mono [OF Cons.IH [OF that]], goal_cases)
    case (2 z s2)
    then obtain A where A: "thinned b (cat_objects ?C) A" "\<forall>x \<in> set xs. A (b, om_key x) = None" "tracked X D e0 (?C\<lparr>cat_objects := A\<rparr>) s2"
      by blast
    then show ?case using thin [OF A(1)] by (intro exI [of _ A]) simp
  next
    case (3 z s2)
    then obtain A where A: "thinned b (cat_objects ?C) A" "tracked X D e0 (?C\<lparr>cat_objects := A\<rparr>) s2" by blast
    then show ?case using thin [OF A(1)] by (intro exI [of _ A]) simp
  qed (use Cons.prems(2) in simp)
  have stop: "\<exists>A. thinned b (cat_objects C) A \<and> tracked X D e0 (C\<lparr>cat_objects := A\<rparr>) s'" if "tracked X D e0 ?C s'" for s'
    using that by (intro exI [of _ "(cat_objects C)((b, om_key y) := None)"]) (simp add: thinned_def)
  show ?case
    unfolding forEach.simps wp_simps y(1)
    by (rule wp_mono [OF delete_steps [OF assms(1) Cons.prems(1) assms(3) y(2)]]; drule step; use go stop in \<open>simp add: wp_simps\<close>)
qed

lemma drop_bucket_steps:
  assumes "tracked X D e0 (C\<lparr>cat_objects := A\<rparr>) s" "clean_bucket b" "thinned b (cat_objects C) A" "\<And>k. A (b, k) = None"
    and "b \<in> cat_buckets C"
  shows "wp (on_meta (\<lambda>m. DeleteBucket M m b)) (\<lambda>_ s. stepped X D e0 (OpDeleteBucket b) C s Done)
    (\<lambda>_ s. stepped X D e0 (OpDeleteBucket b) C s Failed) s"
proof -
  note u = tracked_view [OF assms(1)]
  let ?w = "view (st_meta s)"
  have "A = emptied b (cat_objects C)"
    using assms(3,4) unfolding thinned_def emptied_def by (auto simp: fun_eq_iff)
  then have C': "catalogue_step (OpDeleteBucket b) C Done (C\<lparr>cat_buckets := cat_buckets C - {b}, cat_objects := A\<rparr>)"
    using delete_bucket [OF assms(5)] by simp
  have "om_bucket x \<noteq> b" if "fmlookup (mv_objects ?w) i = Some x" for i x
    using durableD(3) [OF u(5) that] assms(4) by (auto simp: object_durable_def)
  then have no: "fmpred (\<lambda>_ x. om_bucket x \<noteq> b) (mv_objects ?w)" by (simp add: fmpred_iff)
  show ?thesis
  proof (rule call_wp [OF u(1), where a = "\<lambda>v. spec_DeleteBucket v b"], goal_cases)
    case 1
    then show ?case using no by (rule_tac DeleteBucket [OF _ assms(2)])
  next
    case (2 v' s2)
    have core: "mv_buckets v' = mv_buckets ?w" "mv_objects v' = mv_objects ?w" "mv_refs v' = mv_refs ?w"
      using 2(1) by (simp_all add: same_core_def)
    have inb: "b |\<in>| mv_buckets v'" using assms(5) u(4) core(1) by auto
    let ?w2 = "?w\<lparr>mv_buckets := mv_buckets ?w |-| {|b|}\<rparr>"
    have "same_core (fst (spec_DeleteBucket v' b)) ?w2" using inb core by (simp add: spec_DeleteBucket_def same_core_def)
    from at_view_core [OF 2(2) this] have "position ?w2 (st_engine s) s2" .
    moreover have "refs_ok ?w2" using u(2) by (simp add: refs_ok_def balanced_def)
    ultimately have "tracked X D e0 (C\<lparr>cat_buckets := cat_buckets C - {b}, cat_objects := A\<rparr>) s2"
      by (rule tracksI) (use u(4,5) in \<open>simp_all add: durable_buckets\<close>)
    with C' inb show ?case by (auto simp: spec_DeleteBucket_def)
  qed
qed

lemma delete_bucket_steps:
  assumes "durable_setting X D e0" "tracked X D e0 C s" "clean_bucket b"
  shows "wp (Store_DeleteBucket X M b) (\<lambda>_ s. stepped X D e0 (OpDeleteBucket b) C s Done)
    (\<lambda>_ s. stepped X D e0 (OpDeleteBucket b) C s Failed) s"
proof -
  note t = tracked_view [OF assms(2)]
  let ?v = "view (st_meta s)"
  let ?xs = "sort_key om_key (filter (\<lambda>m. om_bucket m = b \<and> has_prefix (om_key m) []) (fm_values (mv_objects ?v)))"
  have b: "trim_space b = b" "b \<noteq> []" using assms(3) by (simp_all add: clean_bucket_def clean_name_def)
  have keep: "stepped X D e0 (OpDeleteBucket b) C s' Failed" if "tracked X D e0 (C\<lparr>cat_objects := A\<rparr>) s'" "thinned b (cat_objects C) A" for s' A
    using that delete_bucket_failed by blast
  have listed: "\<exists>x \<in> set ?xs. om_key x = k" if "cat_objects C (b, k) = Some d" for k d
    using durableD(4) [OF t(5) that] by (auto simp: fm_values_iff)
  have names: "om_bucket x = b \<and> clean_name (om_key x)" if "x \<in> set ?xs" for x
    using that t(3) by (auto simp: covered_def clean_meta_def fm_values_iff dest: fmpredD)
  have fin: "wp (on_meta (\<lambda>m. DeleteBucket M m b)) (\<lambda>_ s. stepped X D e0 (OpDeleteBucket b) C s Done) (\<lambda>_ s. stepped X D e0 (OpDeleteBucket b) C s Failed) s'"
    if A: "thinned b (cat_objects C) A" "\<forall>x \<in> set ?xs. A (b, om_key x) = None" "tracked X D e0 (C\<lparr>cat_objects := A\<rparr>) s'"
      and bC: "b \<in> cat_buckets C" for s' A
    by (rule drop_bucket_steps [OF A(3) assms(3) A(1) thinned_listed [OF A(1,2) listed] bC])
  show ?thesis
    unfolding Store_DeleteBucket_def Let_def b if_not_P [OF b(2)] wp_simps
  proof (rule call_wp [OF t(1), where a = "\<lambda>v. spec_ListObjectMetas v b []"], goal_cases)
    case 1
    then show ?case by (rule_tac ListObjectMetas [OF _ assms(3)])
  next
    case (2 v' s')
    have p: "position v' (st_engine s) s'" using 2(2) by (simp add: spec_ListObjectMetas_def split: if_splits)
    have tr: "tracked X D e0 C s'" by (rule tracked_at [OF assms(2) p 2(1)])
    have core: "mv_buckets v' = mv_buckets ?v" "mv_objects v' = mv_objects ?v" using 2(1) by (simp_all add: same_core_def)
    show ?case
    proof (cases "b \<in> cat_buckets C")
      case False
      then show ?thesis
        using keep [of "cat_objects C" s'] tr core t(4) by (auto simp: spec_ListObjectMetas_def thinned_def)
    next
      case True
      then have l: "snd (spec_ListObjectMetas v' b []) = Inr ?xs" using core t(4) by (auto simp: spec_ListObjectMetas_def)
      show ?thesis
        unfolding l sum.case
      proof (rule wp_mono [OF delete_loop_steps [OF assms(1) tr assms(3) names]], goal_cases)
        case (2 x s2) then show ?case using fin [OF _ _ _ True] by blast
      next
        case (3 x s2) then show ?case using keep by blast
      qed
    qed
  qed
qed

lemma serve_steps:
  assumes "durable_setting X D e0" "quiet_io X e0" "tracked X D e0 C s" "catalogue_op X D c" "serve X M c s = (s', r)"
  shows "stepped X D e0 c C s' r"
proof (cases c)
  case (OpPutObject b k reader opts)
  show ?thesis
  proof (cases reader)
    case (Inl er)
    then show ?thesis
      using assms(4,5) serve_wp [where P = "stepped X D e0 (OpPutObject b k (Inl er) opts) C", OF put_unread_steps [OF assms(3)]]
      by (simp add: OpPutObject serve_def catalogue_op_def op_ok_def)
  next
    case (Inr d)
    then show ?thesis
      using assms(4,5) serve_wp [where P = "stepped X D e0 (OpPutObject b k (Inr d) opts) C", OF put_steps [OF assms(1,3)]]
      by (simp add: OpPutObject serve_def catalogue_op_def op_ok_def)
  qed
next
  case (OpCreateBucket b)
  then show ?thesis
    using assms(4,5) serve_wp [where P = "stepped X D e0 c C", OF create_steps [OF assms(3), of b, folded OpCreateBucket]]
    by (simp add: serve_def catalogue_op_def op_ok_def)
next
  case (OpDeleteBucket b)
  then show ?thesis
    using assms(4,5) serve_wp [where P = "stepped X D e0 c C", OF delete_bucket_steps [OF assms(1,3), of b, folded OpDeleteBucket]]
    by (simp add: serve_def catalogue_op_def op_ok_def)
next
  case (OpGetObject b k)
  then show ?thesis
    using assms(4,5) serve_wp [where P = "stepped X D e0 c C", OF get_steps [OF assms(1-3), of b k, folded OpGetObject]]
    by (simp add: serve_def catalogue_op_def op_ok_def)
next
  case (OpStatObject b k)
  then show ?thesis
    using assms(4,5) serve_wp [where P = "stepped X D e0 c C", OF stat_steps [OF assms(3), of b k, folded OpStatObject]]
    by (simp add: serve_def catalogue_op_def op_ok_def)
next
  case (OpDeleteObject b k)
  then show ?thesis
    using assms(4,5) serve_wp [where P = "stepped X D e0 c C", OF delete_steps [OF assms(1,3), of b k, folded OpDeleteObject]]
    by (simp add: serve_def catalogue_op_def op_ok_def)
next
  case (OpListObjects b p)
  then show ?thesis
    using assms(4,5) serve_wp [where P = "stepped X D e0 c C", OF list_steps [OF assms(3), of b p, folded OpListObjects]]
    by (simp add: serve_def catalogue_op_def op_ok_def)
qed (use assms(4) in \<open>simp_all add: catalogue_op_def\<close>)

end

text \<open>Histories: the store serves a list of operations, the catalogue takes the same steps.\<close>

primrec serve_all :: "Externals \<Rightarrow> 'm MetadataStore \<Rightarrow> store_op list \<Rightarrow> 'm Store \<Rightarrow> 'm Store \<times> store_reply list" where
  "serve_all X M [] s = (s, [])"
| "serve_all X M (c # cs) s = (let (s1, r) = serve X M c s; (s2, rs) = serve_all X M cs s1 in (s2, r # rs))"

inductive catalogue_run :: "store_op list \<Rightarrow> catalogue \<Rightarrow> store_reply list \<Rightarrow> catalogue \<Rightarrow> bool" where
  none: "catalogue_run [] C [] C"
| more: "catalogue_step c C r C1 \<Longrightarrow> catalogue_run cs C1 rs C2 \<Longrightarrow> catalogue_run (c # cs) C (r # rs) C2"

context metadata_store
begin

lemma serve_all_refines:
  assumes "durable_setting X D e0" "quiet_io X e0" "tracked X D e0 C s" "list_all (catalogue_op X D) cs"
  shows "\<exists>C'. catalogue_run cs C (snd (serve_all X M cs s)) C' \<and> tracked X D e0 C' (fst (serve_all X M cs s))"
  using assms(3,4)
proof (induction cs arbitrary: C s)
  case Nil
  then show ?case using none by auto
next
  case (Cons c cs)
  obtain s1 r where c: "serve X M c s = (s1, r)" by fastforce
  obtain C1 where C1: "catalogue_step c C r C1" "tracked X D e0 C1 s1"
    using serve_steps [OF assms(1,2) Cons.prems(1) _ c] Cons.prems(2) by auto
  obtain C2 where "catalogue_run cs C1 (snd (serve_all X M cs s1)) C2" "tracked X D e0 C2 (fst (serve_all X M cs s1))"
    using Cons.IH [OF C1(2)] Cons.prems(2) by auto
  moreover from this(1) have "catalogue_run (c # cs) C (r # snd (serve_all X M cs s1)) C2" by (rule more [OF C1(1)])
  ultimately show ?case by (auto simp: c split: prod.split)
qed

end

end
