(* ===== verification/Metadata_Listing.thy ===== *)
theory Metadata_Listing
  imports InMemory_Metadata Raft_Metadata
begin

text \<open>
  The listings of the metadata service that recovery and dedupe work on: buckets, staged objects and blob
  references. The locale extends the contract of the service; both stores keep it. It also covers the creation of a
  reference with a blank path, which only the replicated store rejects.
\<close>

definition spec_ListStagedObjectMetas :: "meta_view \<Rightarrow> (meta_view, ObjectMeta list) meta_op" where
  "spec_ListStagedObjectMetas v = (v, Inr (sort_key (\<lambda>x. (om_bucket x, om_key x)) (fm_values (mv_staged v))))"

definition spec_ListBlobRefs :: "meta_view \<Rightarrow> (meta_view, BlobRef list) meta_op" where
  "spec_ListBlobRefs v = (v, Inr (map (\<lambda>(h, r). r\<lparr>ref_hash := h\<rparr>) (fm_entries (mv_refs v))))"

text \<open>Buckets are listed with a time of creation, which the in-memory store does not keep.\<close>

definition bucket_names :: "('m, Bucket list) meta_op \<Rightarrow> ('m, string list) meta_op" where
  "bucket_names r = (fst r, map_sum id (map bkt_name) (snd r))"

definition spec_ListBuckets :: "meta_view \<Rightarrow> (meta_view, string list) meta_op" where
  "spec_ListBuckets v = (v, Inr (sorted_list_of_fset (mv_buckets v)))"

locale metadata_listing = metadata_store M view ok quiet
  for M :: "'m MetadataStore" and view :: "'m \<Rightarrow> meta_view" and ok :: "'m \<Rightarrow> bool" and quiet :: "'m \<Rightarrow> bool" +
  assumes ListStagedObjectMetas: "ok m \<Longrightarrow>
      refines view ok quiet m (ListStagedObjectMetas M m [] []) (spec_ListStagedObjectMetas (view m))"
    and ListBlobRefs: "ok m \<Longrightarrow> refines view ok quiet m (ListBlobRefs M m) (spec_ListBlobRefs (view m))"
    and ListBuckets: "ok m \<Longrightarrow> refines view ok quiet m (bucket_names (ListBuckets M m t)) (spec_ListBuckets (view m))"
    and buckets_clean: "ok m \<Longrightarrow> fBall (mv_buckets (view m)) clean_bucket"
    and CreateBlobRef_any: "ok m \<Longrightarrow> clean_name h \<Longrightarrow> fmlookup (mv_refs (view m)) h = None \<Longrightarrow>
      refines view ok quiet m (CreateBlobRef M m h p n ps cs ns) (spec_CreateBlobRef (view m) h p n ps cs ns) \<or>
      refines view ok quiet m (CreateBlobRef M m h p n ps cs ns) (view m, Inl MErrBadRequest)"

lemma sorted_names: "sorted (map f xs) \<Longrightarrow> distinct (map f xs) \<Longrightarrow> f ` set xs = fset A \<Longrightarrow> map f xs = sorted_list_of_fset A"
  by (metis set_map sorted_list_of_fset.rep_eq sorted_list_of_set.idem_if_sorted_distinct)

interpretation iml: metadata_listing inMemoryStore im_view im_ok "\<lambda>_. True"
proof (unfold_locales, goal_cases)
  case (1 m)
  then show ?case
    by (intro refinesI) (simp_all add: im_store_simps InMemory_ListStagedObjectMetas_def validateOptionalBucketLocked_def
        addMatchingStagedObject_def spec_ListStagedObjectMetas_def Let_def)
next
  case (2 m)
  then show ?case
    by (intro refinesI) (simp_all add: im_store_simps InMemory_ListBlobRefs_def spec_ListBlobRefs_def)
next
  case (3 m t)
  let ?xs = "sort_key bkt_name (map (\<lambda>name. \<lparr>bkt_name = name, bkt_created = t\<rparr>) (fm_keys (im_buckets m)))"
  have "map bkt_name ?xs = sorted_list_of_fset (fmdom (im_buckets m))"
    by (rule sorted_names) (simp_all add: distinct_map inj_on_def image_image)
  then show ?case
    using 3 by (intro refinesI) (simp_all add: im_store_simps InMemory_ListBuckets_def bucket_names_def spec_ListBuckets_def)
next
  case (4 m)
  then show ?case by (auto simp: im_ok_def im_view_def fmpred_iff fmlookup_dom_iff)
next
  case (5 m h p n ps cs ns)
  then have "refines im_view im_ok (\<lambda>_. True) m (CreateBlobRef inMemoryStore m h p n ps cs ns) (spec_CreateBlobRef (im_view m) h p n ps cs ns)"
    by (intro refinesI) (simp_all add: im_store_simps InMemory_CreateBlobRef_def spec_CreateBlobRef_def new_ref_def)
  then show ?case ..
qed

context raft_node
begin

lemma raft_ListStagedObjectMetas:
  assumes "sm_ok (sm n)"
  shows "refines (sm_view \<circ> sm) (sm_ok \<circ> sm) calm n (Raft_ListStagedObjectMetas N n [] [])
    (spec_ListStagedObjectMetas (sm_view (sm n)))"
  unfolding Raft_ListStagedObjectMetas_def using assms
  by (intro read_refines) (auto simp: spec_ListStagedObjectMetas_def lookup_simps lookupListStagedObjectMetas_def
      listStagedObjectMetas_def matchesStagedObject_def reply_simps sm_okD sm_view_def)

lemma raft_ListBlobRefs:
  assumes "sm_ok (sm n)"
  shows "refines (sm_view \<circ> sm) (sm_ok \<circ> sm) calm n (Raft_ListBlobRefs N n) (spec_ListBlobRefs (sm_view (sm n)))"
  unfolding Raft_ListBlobRefs_def using assms
  by (intro read_refines) (auto simp: spec_ListBlobRefs_def lookup_simps listBlobRefs_def reply_simps sm_okD sm_view_def)

lemma bucket_names_reply:
  "bucket_names (raft_reply f r) = raft_reply (\<lambda>x. map bkt_name (f x)) r"
  by (auto simp: bucket_names_def raft_reply_def split: prod.splits sum.splits)

lemma raft_ListBuckets:
  assumes "sm_ok (sm n)"
  shows "refines (sm_view \<circ> sm) (sm_ok \<circ> sm) calm n (bucket_names (Raft_ListBuckets N n t)) (spec_ListBuckets (sm_view (sm n)))"
proof -
  have k: "i = bkt_name b" if "fmlookup (sm_buckets (sm n)) i = Some b" for i b
    using assms that by (auto simp: sm_ok_def sm_wf_def fmpred_iff bucket_ok_def)
  have "map bkt_name (listBuckets (sm n)) = sorted_list_of_fset (fmdom (sm_buckets (sm n)))"
  proof (rule sorted_names)
    have "distinct (map bkt_name (fm_values (sm_buckets (sm n))))"
    proof -
      have "map bkt_name (fm_values (sm_buckets (sm n))) = fm_keys (sm_buckets (sm n))"
        using k by (auto simp: fm_values_def fm_entries_def fmlookup_dom_iff intro!: map_idI)
      then show ?thesis by simp
    qed
    then show "distinct (map bkt_name (listBuckets (sm n)))" by (simp add: listBuckets_def distinct_map)
    show "bkt_name ` set (listBuckets (sm n)) = fset (fmdom (sm_buckets (sm n)))"
      using k by (force simp: listBuckets_def fm_values_iff fmlookup_dom_iff)
  qed (simp add: listBuckets_def)
  then show ?thesis
    unfolding Raft_ListBuckets_def bucket_names_reply using assms
    by (intro read_refines) (auto simp: spec_ListBuckets_def lookup_simps reply_simps sm_okD sm_view_def)
qed

lemma raft_CreateBlobRef_any:
  assumes "sm_ok (sm n)" "clean_name h" "fmlookup (sm_refs (sm n)) h = None"
  shows "refines (sm_view \<circ> sm) (sm_ok \<circ> sm) calm n (Raft_CreateBlobRef N n h p sz ps cs ns) (spec_CreateBlobRef (sm_view (sm n)) h p sz ps cs ns) \<or>
    refines (sm_view \<circ> sm) (sm_ok \<circ> sm) calm n (Raft_CreateBlobRef N n h p sz ps cs ns) (sm_view (sm n), Inl MErrBadRequest)"
proof (cases "trim_space p = []")
  case True
  let ?c = "(zero_command CreateBlobRefCmd)\<lparr>cmd_hash := h, cmd_path := p, cmd_size := sz,
    cmd_placements := ps, cmd_checksums := cs, cmd_sizes := ns\<rparr>"
  have u: "Update (sm n) (Some ?c) = (sm n, err_envelope MetadataErrorBadRequest)"
    using assms True by (auto simp: update_simps createBlobRef_def sm_okD err_envelope_def)
  have "sm_ok (fst (Update (sm n) (Some ?c)))" using assms(1) by (simp add: u)
  then have "refines (sm_view \<circ> sm) (sm_ok \<circ> sm) calm n (Raft_CreateBlobRef N n h p sz ps cs ns) (sm_view (sm n), Inl MErrBadRequest)"
    unfolding Raft_CreateBlobRef_def using assms
    by (intro propose_refines) (auto simp: u reply_simps sm_view_def)
  then show ?thesis ..
next
  case False
  then show ?thesis using raft_CreateBlobRef [OF assms(1,2) _ assms(3)] by blast
qed

end

sublocale raft_node \<subseteq> rml: metadata_listing "raftStore N" "sm_view \<circ> sm" "sm_ok \<circ> sm" calm
proof (unfold_locales, goal_cases)
  case (4 m)
  then show ?case by (simp add: sm_ok_def sm_view_def)
next
  case (5 m h p n ps cs ns)
  then show ?case using raft_CreateBlobRef_any [of m h p n ps cs ns] by (simp add: raftStore_def sm_view_def)
qed (simp_all add: raftStore_def raft_ListStagedObjectMetas raft_ListBlobRefs raft_ListBuckets)

end
