(* ===== verification/Store_Recovery.thy ===== *)
theory Store_Recovery
  imports Store_Refinement Metadata_Listing
begin

text \<open>
  Recovery of the store after a crash (\<open>gc.go\<close>, \<open>recovery.go\<close>, \<open>recovery_pending.go\<close>): writes that stay pending
  longer than a time to live are rolled back according to the stage their intent records, then shard sets that no
  reference and no pending write names are removed.
\<close>

section \<open>What to do with a pending write\<close>

abbreviation PendingRecoveryActionWait :: string where "PendingRecoveryActionWait \<equiv> ''wait''"
abbreviation PendingRecoveryActionDeleteStaged :: string where "PendingRecoveryActionDeleteStaged \<equiv> ''delete_staged''"
abbreviation PendingRecoveryActionRollbackLayout :: string where "PendingRecoveryActionRollbackLayout \<equiv> ''rollback_layout''"
abbreviation PendingRecoveryActionReleaseBlob :: string where "PendingRecoveryActionReleaseBlob \<equiv> ''release_blob''"
abbreviation PendingRecoveryActionCommitted :: string where "PendingRecoveryActionCommitted \<equiv> ''committed_cleanup''"

record PendingRecoveryAction =
  pa_Bucket :: string
  pa_Key :: string
  pa_Hash :: string
  pa_Stage :: string
  pa_Action :: string
  pa_Expired :: bool
  pa_Reason :: string

definition pendingExpiredRecoveryDecision :: "string \<Rightarrow> string \<times> string" where
  "pendingExpiredRecoveryDecision stage =
     (if stage = WriteIntentStageCommitted then
        (PendingRecoveryActionCommitted, ''committed metadata already owns the object; only staged metadata is stale'')
      else if stage = WriteIntentStageBlobRetained then
        (PendingRecoveryActionReleaseBlob, ''blob ref was retained but object was not committed'')
      else if stage = WriteIntentStageLayoutLinked then
        (PendingRecoveryActionRollbackLayout, ''layout was linked before metadata commit'')
      else (PendingRecoveryActionDeleteStaged, ''pending metadata expired before commit''))"

definition pendingRecoveryAction :: "ObjectMeta \<Rightarrow> bool \<Rightarrow> PendingRecoveryAction" where
  "pendingRecoveryAction meta expired =
     (let action = \<lparr>pa_Bucket = om_bucket meta, pa_Key = om_key meta, pa_Hash = om_hash meta,
          pa_Stage = writeIntentStage meta, pa_Action = [], pa_Expired = expired, pa_Reason = []\<rparr>
      in if \<not> expired then action\<lparr>pa_Action := PendingRecoveryActionWait\<rparr>
         else action\<lparr>pa_Action := fst (pendingExpiredRecoveryDecision (pa_Stage action)),
                     pa_Reason := snd (pendingExpiredRecoveryDecision (pa_Stage action))\<rparr>)"

definition isExpiredPendingObject :: "ObjectMeta \<Rightarrow> time \<Rightarrow> bool" where
  "isExpiredPendingObject meta cutoff =
     (if om_state meta \<noteq> [] \<and> om_state meta \<noteq> ObjectStatePending then False
      else om_updated meta = 0 \<or> \<not> cutoff < om_updated meta)"

section \<open>Rolling a pending write back\<close>

definition restoreCommittedLayout :: "Externals \<Rightarrow> 'm MetadataStore \<Rightarrow> ObjectMeta \<Rightarrow> ('m, bool) action" where
  "restoreCommittedLayout X M pending =
     andThen (wrapErr mapStoreError (on_meta (\<lambda>m. GetObjectMeta M m (om_bucket pending) (om_key pending)))) (\<lambda>r.
       case r of
         None \<Rightarrow> ret False
       | Some committed \<Rightarrow>
           andThen (wrapErr mapStoreError (on_meta (\<lambda>m. GetBlobRef M m (om_hash committed)))) (\<lambda>r.
             case r of
               None \<Rightarrow> throw (ErrWrap [ErrNotFound])
             | Some ref \<Rightarrow>
                 andThen (wrapErr mapStoreError (on_engine (\<lambda>now e. LinkObject X e now (om_bucket committed) (om_key committed)
                     (blob_of_ref (om_hash committed) (om_etag committed) ref) (om_content_type committed) (om_updated committed))))
                   (\<lambda>_. ret True)))"

definition rollbackPendingLayout :: "Externals \<Rightarrow> 'm MetadataStore \<Rightarrow> ObjectMeta \<Rightarrow> ('m, unit) action" where
  "rollbackPendingLayout X M meta =
     andThen (restoreCommittedLayout X M meta) (\<lambda>restored.
       if restored then ret ()
       else andThen (attempt (on_engine_err (\<lambda>e. DeleteObjectLayout X e (om_bucket meta) (om_key meta)))) (\<lambda>r.
         case r of
           Inl err \<Rightarrow> if error_is err (ErrEngine EObjectNotFound) then ret () else throw (mapStoreError err)
         | Inr _ \<Rightarrow> ret ()))"

definition shouldReleasePendingBlob :: "'m MetadataStore \<Rightarrow> ObjectMeta \<Rightarrow> ('m, bool) action" where
  "shouldReleasePendingBlob M meta =
     andThen (wrapErr mapStoreError (on_meta (\<lambda>m. GetObjectMeta M m (om_bucket meta) (om_key meta)))) (\<lambda>r.
       ret (case r of None \<Rightarrow> True | Some committed \<Rightarrow> om_hash committed \<noteq> om_hash meta))"

definition rollbackPendingLayoutAndBlob :: "Externals \<Rightarrow> 'm MetadataStore \<Rightarrow> ObjectMeta \<Rightarrow> ('m, unit) action" where
  "rollbackPendingLayoutAndBlob X M meta =
     andThen (rollbackPendingLayout X M meta) (\<lambda>_.
     andThen (shouldReleasePendingBlob M meta) (\<lambda>shouldRelease.
       if \<not> shouldRelease then ret ()
       else andThen (attempt (releaseBlob M (om_hash meta))) (\<lambda>r.
         case r of Inl err \<Rightarrow> if error_is err ErrNotFound then ret () else throw (ErrWrap [err]) | Inr _ \<Rightarrow> ret ())))"

definition rollbackExpiredPendingWrite :: "Externals \<Rightarrow> 'm MetadataStore \<Rightarrow> ObjectMeta \<Rightarrow> ('m, unit) action" where
  "rollbackExpiredPendingWrite X M meta =
     (let action = pa_Action (pendingRecoveryAction meta True) in
      if action = PendingRecoveryActionRollbackLayout then rollbackPendingLayout X M meta
      else if action = PendingRecoveryActionReleaseBlob then rollbackPendingLayoutAndBlob X M meta
      else ret ())"

definition deleteExpiredPendingObject :: "Externals \<Rightarrow> 'm MetadataStore \<Rightarrow> ObjectMeta \<Rightarrow> ('m, bool) action" where
  "deleteExpiredPendingObject X M meta =
     andThen (rollbackExpiredPendingWrite X M meta) (\<lambda>_.
     andThen (wrapErr mapStoreError (on_meta (\<lambda>m. DeleteStagedObjectMeta M m (om_bucket meta) (om_key meta)))) (\<lambda>r.
       ret (r \<noteq> None)))"

record pendingCleanupResult =
  pc_removed :: nat
  pc_actions :: "(string, nat) fmap"

definition no_cleanup :: pendingCleanupResult where
  "no_cleanup = \<lparr>pc_removed = 0, pc_actions = fmempty\<rparr>"

definition record_action :: "string \<Rightarrow> pendingCleanupResult \<Rightarrow> pendingCleanupResult" where
  "record_action action r =
     (if action = [] then r
      else r\<lparr>pc_actions := fmupd action (case fmlookup (pc_actions r) action of None \<Rightarrow> 1 | Some n \<Rightarrow> n + 1) (pc_actions r)\<rparr>)"

text \<open>The loop over the staged objects. Like the code it returns what was done so far beside an error.\<close>

fun cleanup_pending :: "Externals \<Rightarrow> 'm MetadataStore \<Rightarrow> time \<Rightarrow> pendingCleanupResult \<Rightarrow> ObjectMeta list \<Rightarrow>
    ('m, pendingCleanupResult \<times> store_error option) action" where
  "cleanup_pending X M cutoff result [] = ret (result, None)"
| "cleanup_pending X M cutoff result (meta # metas) =
     (if \<not> isExpiredPendingObject meta cutoff then cleanup_pending X M cutoff result metas
      else andThen (attempt (deleteExpiredPendingObject X M meta)) (\<lambda>r.
        case r of
          Inl err \<Rightarrow> ret (result, Some err)
        | Inr exists \<Rightarrow> cleanup_pending X M cutoff
            (if exists then record_action (pa_Action (pendingRecoveryAction meta True)) (result\<lparr>pc_removed := Suc (pc_removed result)\<rparr>)
             else result) metas))"

definition cleanupPendingObjects :: "Externals \<Rightarrow> 'm MetadataStore \<Rightarrow> int \<Rightarrow> ('m, pendingCleanupResult \<times> store_error option) action" where
  "cleanupPendingObjects X M ttl =
     (if ttl \<le> 0 then ret (no_cleanup, None)
      else andThen (attempt (wrapErr mapStoreError (on_meta (\<lambda>m. ListStagedObjectMetas M m [] [])))) (\<lambda>r.
        case r of
          Inl err \<Rightarrow> ret (no_cleanup, Some err)
        | Inr objects \<Rightarrow> andThen time_now (\<lambda>now. cleanup_pending X M (now - ttl) no_cleanup objects)))"

section \<open>Removing orphan shard sets\<close>

definition pendingShardSetRefs :: "Externals \<Rightarrow> ObjectMeta list \<Rightarrow> shard_set list" where
  "pendingShardSetRefs X objects =
     map (\<lambda>meta. (makeShardDir X (om_key meta), om_hash meta))
       (filter (\<lambda>meta. trim_space (om_key meta) \<noteq> [] \<and> trim_space (om_hash meta) \<noteq> []) objects)"

definition no_orphans :: OrphanShardCleanupResult where
  "no_orphans = \<lparr>oc_Scanned = 0, oc_Removed = 0, oc_Orphans = []\<rparr>"

definition remove_orphans :: "shard_set list \<Rightarrow> bool \<Rightarrow> ('m, OrphanShardCleanupResult \<times> store_error option) action" where
  "remove_orphans live dryRun s =
     (case CleanupOrphanShardSets (st_engine s) live dryRun of
        (e, result, err) \<Rightarrow> (s\<lparr>st_engine := e\<rparr>, Inr (result, map_option (\<lambda>err. mapStoreError (ErrEngine err)) err)))"

definition cleanupOrphanShardSets :: "Externals \<Rightarrow> 'm MetadataStore \<Rightarrow> bool \<Rightarrow>
    ('m, OrphanShardCleanupResult \<times> store_error option) action" where
  "cleanupOrphanShardSets X M dryRun =
     andThen (attempt (wrapErr mapStoreError (on_meta (\<lambda>m. ListBlobRefs M m)))) (\<lambda>r.
       case r of
         Inl err \<Rightarrow> ret (no_orphans, Some err)
       | Inr refs \<Rightarrow>
           andThen (attempt (wrapErr mapStoreError (on_meta (\<lambda>m. ListStagedObjectMetas M m [] [])))) (\<lambda>r.
             case r of
               Inl err \<Rightarrow> ret (no_orphans, Some err)
             | Inr pending \<Rightarrow>
                 remove_orphans (map (\<lambda>ref. (ref_path ref, ref_hash ref)) refs @ pendingShardSetRefs X pending) dryRun))"

section \<open>Recovery\<close>

record RecoveryOptions =
  ro_PendingTTL :: int
  ro_CleanupOrphanShards :: bool
  ro_DryRun :: bool

definition setRecoveryStatus :: "RecoveryResult \<Rightarrow> store_error option \<Rightarrow> ('m, unit) action" where
  "setRecoveryStatus result err s =
     (s\<lparr>st_recovery := \<lparr>rs_LastResult = result, rs_LastError = err, rs_Completed = True\<rparr>\<rparr>, Inr ())"

definition Store_RecoveryStatus :: "'m Store \<Rightarrow> RecoveryStatus" where
  "Store_RecoveryStatus s = st_recovery s"

definition finish_recovery :: "RecoveryResult \<Rightarrow> store_error option \<Rightarrow> ('m, RecoveryResult \<times> store_error option) action" where
  "finish_recovery result err =
     andThen time_now (\<lambda>now. let result = result\<lparr>rv_FinishedAt := now\<rparr> in
       andThen (setRecoveryStatus result err) (\<lambda>_. ret (result, err)))"

definition Recover :: "Externals \<Rightarrow> 'm MetadataStore \<Rightarrow> RecoveryOptions \<Rightarrow> ('m, RecoveryResult \<times> store_error option) action" where
  "Recover X M opts =
     andThen time_now (\<lambda>started.
     andThen (cleanupPendingObjects X M (ro_PendingTTL opts)) (\<lambda>(pending, err).
       let result = \<lparr>rv_StartedAt = started, rv_FinishedAt = 0, rv_PendingRemoved = pc_removed pending,
             rv_PendingActions = pc_actions pending, rv_OrphanShardCleanup = no_orphans, rv_DryRun = ro_DryRun opts\<rparr>
       in if err \<noteq> None then finish_recovery result err
          else if \<not> ro_CleanupOrphanShards opts then finish_recovery result None
          else andThen (cleanupOrphanShardSets X M (ro_DryRun opts)) (\<lambda>(cleanup, cleanupErr).
            finish_recovery (result\<lparr>rv_OrphanShardCleanup := cleanup\<rparr>) cleanupErr)))"

text \<open>What runs when the store starts; a failed recovery is logged and the start goes on.\<close>

definition pendingCleanup_run :: "Externals \<Rightarrow> 'm MetadataStore \<Rightarrow> int \<Rightarrow> ('m, unit) action" where
  "pendingCleanup_run X M ttl =
     andThen (Recover X M \<lparr>ro_PendingTTL = ttl, ro_CleanupOrphanShards = True, ro_DryRun = False\<rparr>) (\<lambda>_. ret ())"

section \<open>Planning\<close>

record RecoveryPlan =
  rp_GeneratedAt :: time
  rp_PendingObjects :: "ObjectMeta list"
  rp_ExpiredPendingObjects :: "ObjectMeta list"
  rp_PendingActions :: "PendingRecoveryAction list"
  rp_WriteIntentStages :: "(string, nat) fmap"
  rp_OrphanShardCleanup :: OrphanShardCleanupResult

definition expiredPendingObjects :: "ObjectMeta list \<Rightarrow> int \<Rightarrow> time \<Rightarrow> ObjectMeta list" where
  "expiredPendingObjects objects ttl now =
     (if ttl \<le> 0 then [] else filter (\<lambda>meta. isExpiredPendingObject meta (now - ttl)) objects)"

definition pendingRecoveryActions :: "ObjectMeta list \<Rightarrow> int \<Rightarrow> time \<Rightarrow> PendingRecoveryAction list" where
  "pendingRecoveryActions objects ttl now =
     map (\<lambda>meta. pendingRecoveryAction meta (0 < ttl \<and> isExpiredPendingObject meta (now - ttl))) objects"

definition writeIntentStageCounts :: "ObjectMeta list \<Rightarrow> (string, nat) fmap" where
  "writeIntentStageCounts objects =
     fold (\<lambda>meta counts. fmupd (writeIntentStage meta)
         (case fmlookup counts (writeIntentStage meta) of None \<Rightarrow> 1 | Some n \<Rightarrow> n + 1) counts) objects fmempty"

definition PlanRecovery :: "Externals \<Rightarrow> 'm MetadataStore \<Rightarrow> int \<Rightarrow> ('m, RecoveryPlan \<times> store_error option) action" where
  "PlanRecovery X M pendingTTL =
     andThen time_now (\<lambda>now.
       let plan = \<lparr>rp_GeneratedAt = now, rp_PendingObjects = [], rp_ExpiredPendingObjects = [], rp_PendingActions = [],
             rp_WriteIntentStages = fmempty, rp_OrphanShardCleanup = no_orphans\<rparr>
       in andThen (attempt (wrapErr mapStoreError (on_meta (\<lambda>m. ListStagedObjectMetas M m [] [])))) (\<lambda>r.
         case r of
           Inl err \<Rightarrow> ret (plan, Some err)
         | Inr pending \<Rightarrow>
             let plan = plan\<lparr>rp_PendingObjects := pending,
                   rp_ExpiredPendingObjects := expiredPendingObjects pending pendingTTL now,
                   rp_PendingActions := pendingRecoveryActions pending pendingTTL now,
                   rp_WriteIntentStages := writeIntentStageCounts pending\<rparr>
             in andThen (cleanupOrphanShardSets X M True) (\<lambda>(cleanup, err).
               if err \<noteq> None then ret (plan, err) else ret (plan\<lparr>rp_OrphanShardCleanup := cleanup\<rparr>, None))))"

end
