(* ===== verification/Recovery_Safety.thy ===== *)
theory Recovery_Safety
  imports Store_Recovery
begin

text \<open>
  Recovery and the reference counts. A write that stopped after its intent recorded \<open>blob_retained\<close> holds one
  reference to its blob. Recovery releases it, drops the staged metadata and leaves every committed object alone.
\<close>

section \<open>References held by pending writes\<close>

definition counting :: "('k, 'v) fmap \<Rightarrow> ('v \<Rightarrow> bool) \<Rightarrow> nat" where
  "counting m P = card {i. \<exists>x. fmlookup m i = Some x \<and> P x}"

lemma counting_drop:
  assumes "fmlookup m i = Some x"
  shows "int (counting (fmdrop i m) P) = int (counting m P) - (if P x then 1 else 0)"
proof -
  let ?A = "{j. \<exists>x. fmlookup m j = Some x \<and> P x}"
  have "{j. \<exists>x. fmlookup (fmdrop i m) j = Some x \<and> P x} = ?A - {i}" by auto
  moreover have "i \<in> ?A \<longleftrightarrow> P x" using assms by auto
  moreover have "P x \<Longrightarrow> 0 < card ?A" using users_pos [OF assms, of P] .
  ultimately show ?thesis by (auto simp: counting_def)
qed

lemma counting_pos: "fmlookup m i = Some x \<Longrightarrow> P x \<Longrightarrow> 0 < counting m P"
  unfolding counting_def by (rule users_pos)

definition holds_ref :: "meta_view \<Rightarrow> string \<Rightarrow> ObjectMeta \<Rightarrow> bool" where
  "holds_ref v h x \<longleftrightarrow> writeIntentStage x = WriteIntentStageBlobRetained \<and> om_hash x = h \<and>
     map_option om_hash (fmlookup (mv_objects v) (meta_key x)) \<noteq> Some h"

text \<open>Counts are exact when references held by pending writes are counted as uses.\<close>

definition pending_counted :: "meta_view \<Rightarrow> bool" where
  "pending_counted v \<longleftrightarrow> balanced v (\<lambda>h. int (counting (mv_staged v) (holds_ref v h))) \<and>
     fmpred (\<lambda>i x. i = meta_key x \<and> clean_meta x) (mv_staged v)"

text \<open>No committed object has lost a reference.\<close>

definition refs_suffice :: "meta_view \<Rightarrow> bool" where
  "refs_suffice v \<longleftrightarrow> (\<forall>h. int (uses v h) \<le> ref_of v h)"

lemma pending_counted_suffice: "pending_counted v \<Longrightarrow> refs_suffice v"
  by (simp add: pending_counted_def refs_suffice_def balanced_def)

lemma pending_counted_none: "pending_counted v \<Longrightarrow> mv_staged v = fmempty \<Longrightarrow> refs_ok v"
  by (simp add: pending_counted_def refs_ok_def counting_def)

text \<open>Dropping a staged object together with the reference it holds.\<close>

lemma pending_dropped:
  assumes "pending_counted v" "fmlookup (mv_staged v) (meta_key x) = Some x"
  shows "\<not> holds_ref v (om_hash x) x \<Longrightarrow> pending_counted (v\<lparr>mv_staged := fmdrop (meta_key x) (mv_staged v)\<rparr>)"
    "holds_ref v (om_hash x) x \<Longrightarrow> \<exists>ref. fmlookup (mv_refs v) (om_hash x) = Some ref"
    "holds_ref v (om_hash x) x \<Longrightarrow>
       pending_counted ((fst (spec_DecreaseBlobRef v (om_hash x)))\<lparr>mv_staged := fmdrop (meta_key x) (mv_staged v)\<rparr>)"
    "holds_ref v (om_hash x) x \<Longrightarrow> refs_suffice (fst (spec_DecreaseBlobRef v (om_hash x)))"
proof -
  let ?d = "\<lambda>h. int (counting (mv_staged v) (holds_ref v h))" and ?st = "fmdrop (meta_key x) (mv_staged v)" and ?h = "om_hash x"
  have bal: "balanced v ?d" and st: "fmpred (\<lambda>i x. i = meta_key x \<and> clean_meta x) (mv_staged v)"
    using assms(1) by (simp_all add: pending_counted_def)
  have st': "fmpred (\<lambda>i x. i = meta_key x \<and> clean_meta x) ?st" using st by (rule fmpred_drop)
  have other: "holds_ref v h x \<longleftrightarrow> h = ?h \<and> holds_ref v ?h x" for h by (auto simp: holds_ref_def)
  have c: "int (counting ?st (holds_ref v h)) = ?d h - (if holds_ref v h x then 1 else 0)" for h
    by (rule counting_drop [OF assms(2)])
  have hr: "holds_ref (w\<lparr>mv_staged := s\<rparr>) = holds_ref w" for w s by (simp add: holds_ref_def fun_eq_iff)
  have bs: "balanced (w\<lparr>mv_staged := s\<rparr>) d = balanced w d" for w s d by (simp add: balanced_def ref_of_def uses_def)
  show "pending_counted (v\<lparr>mv_staged := ?st\<rparr>)" if no: "\<not> holds_ref v ?h x"
  proof -
    have "\<not> holds_ref v h x" for h using no other by blast
    then have "balanced v (\<lambda>h. int (counting ?st (holds_ref v h)))" using c by (intro balanced_ext [OF bal]) simp
    with st' show ?thesis by (simp add: pending_counted_def hr bs)
  qed
  have pos: "0 < ?d ?h" if "holds_ref v ?h x"
    using counting_pos [OF assms(2), of "holds_ref v ?h"] that by simp
  show ref: "\<exists>ref. fmlookup (mv_refs v) ?h = Some ref" if "holds_ref v ?h x"
  proof -
    have "ref_of v ?h = int (uses v ?h) + ?d ?h" using bal by (simp add: balanced_def)
    then show ?thesis using pos [OF that] by (auto simp: ref_of_def split: option.splits)
  qed
  have objs: "mv_objects (fst (spec_DecreaseBlobRef v ?h)) = mv_objects v"
    by (simp add: spec_DecreaseBlobRef_def split: option.split)
  have dec: "balanced (fst (spec_DecreaseBlobRef v ?h)) (?d(?h := ?d ?h - 1))" if h: "holds_ref v ?h x"
    using ref [OF h] balanced_decrease [OF bal] by blast
  have ho: "holds_ref (fst (spec_DecreaseBlobRef v ?h)) = holds_ref v" by (simp add: holds_ref_def objs fun_eq_iff)
  show "pending_counted ((fst (spec_DecreaseBlobRef v ?h))\<lparr>mv_staged := ?st\<rparr>)" if h: "holds_ref v ?h x"
  proof -
    have "(?d(?h := ?d ?h - 1)) h' = int (counting ?st (holds_ref v h'))" for h'
      using c [of h'] h other [of h'] by (cases "h' = ?h") auto
    then have "balanced (fst (spec_DecreaseBlobRef v ?h)) (\<lambda>h. int (counting ?st (holds_ref v h)))"
      by (intro balanced_ext [OF dec [OF h]])
    with st' show ?thesis by (simp add: pending_counted_def hr bs ho)
  qed
  show "refs_suffice (fst (spec_DecreaseBlobRef v ?h))" if h: "holds_ref v ?h x"
    unfolding refs_suffice_def
  proof
    fix h'
    have "ref_of (fst (spec_DecreaseBlobRef v ?h)) h' = int (uses (fst (spec_DecreaseBlobRef v ?h)) h') + (?d(?h := ?d ?h - 1)) h'"
      using dec [OF h] by (simp add: balanced_def)
    moreover have "0 \<le> (?d(?h := ?d ?h - 1)) h'" using pos [OF h] by simp
    ultimately show "int (uses (fst (spec_DecreaseBlobRef v ?h)) h') \<le> ref_of (fst (spec_DecreaseBlobRef v ?h)) h'" by simp
  qed
qed

section \<open>The steps of recovery\<close>

definition exactly :: "('m \<Rightarrow> meta_view) \<Rightarrow> ('m \<Rightarrow> bool) \<Rightarrow> ('m \<Rightarrow> bool) \<Rightarrow> (nat \<Rightarrow> time) \<Rightarrow> meta_view \<Rightarrow> 'm Store \<Rightarrow> bool" where
  "exactly view ok quiet clk v s \<longleftrightarrow> ok (st_meta s) \<and> quiet (st_meta s) \<and> view (st_meta s) = v \<and> st_clock s = clk"

lemma exactly_updates [simp]:
  "exactly view ok quiet clk v (s\<lparr>st_tick := t\<rparr>) = exactly view ok quiet clk v s"
  "exactly view ok quiet clk v (s\<lparr>st_engine := e\<rparr>) = exactly view ok quiet clk v s"
  "exactly view ok quiet clk v (s\<lparr>st_recovery := r\<rparr>) = exactly view ok quiet clk v s"
  by (simp_all add: exactly_def)

text \<open>The engine does not touch the metadata.\<close>

lemma wp_engine_exactly:
  assumes "exactly view ok quiet clk v s" "\<And>x s. exactly view ok quiet clk v s \<Longrightarrow> Q x s" "\<And>err s. exactly view ok quiet clk v s \<Longrightarrow> E err s"
  shows "wp (on_engine f) Q E s"
  using assms by (auto simp: wp_on_engine split: prod.splits sum.splits)

lemma wp_engine_err_exactly:
  assumes "exactly view ok quiet clk v s" "\<And>x s. exactly view ok quiet clk v s \<Longrightarrow> Q x s" "\<And>err s. exactly view ok quiet clk v s \<Longrightarrow> E err s"
  shows "wp (on_engine_err f) Q E s"
  using assms by (auto simp: wp_on_engine_err split: prod.splits option.splits)

context metadata_listing
begin

abbreviation at_exactly :: "(nat \<Rightarrow> time) \<Rightarrow> meta_view \<Rightarrow> 'm Store \<Rightarrow> bool" where
  "at_exactly \<equiv> exactly view ok quiet"

lemma exact_call_engine:
  assumes "at_exactly clk v s" "ok (st_meta s) \<Longrightarrow> refines view ok quiet (st_meta s) (f (st_meta s)) (a (view (st_meta s)))"
    and "\<And>s'. at_exactly clk (fst (a v)) s' \<Longrightarrow> st_engine s' = st_engine s \<Longrightarrow>
      (case snd (a v) of Inl err \<Rightarrow> E (ErrMeta err) s' | Inr x \<Rightarrow> Q x s')"
  shows "wp (on_meta f) Q E s"
proof -
  have p: "ok (st_meta s)" "quiet (st_meta s)" "view (st_meta s) = v" "st_clock s = clk" using assms(1) by (auto simp: exactly_def)
  obtain m r where f: "f (st_meta s) = (m, r)" by fastforce
  have r: "ok m" "quiet m" "view m = fst (a v)" "r = snd (a v)"
    using assms(2) [OF p(1)] p(2,3) by (auto simp: refines_def f)
  then have "at_exactly clk (fst (a v)) (s\<lparr>st_meta := m\<rparr>)" using p(4) by (simp add: exactly_def)
  from assms(3) [OF this] r(4) show ?thesis by (auto simp: wp_on_meta f split: sum.splits)
qed

lemma exact_call:
  assumes "at_exactly clk v s" "ok (st_meta s) \<Longrightarrow> refines view ok quiet (st_meta s) (f (st_meta s)) (a (view (st_meta s)))"
    and "\<And>s. at_exactly clk (fst (a v)) s \<Longrightarrow> (case snd (a v) of Inl err \<Rightarrow> E (ErrMeta err) s | Inr x \<Rightarrow> Q x s)"
  shows "wp (on_meta f) Q E s"
  by (rule exact_call_engine [OF assms(1), where f = f and a = a]) (rule assms(2), assumption, rule assms(3))

lemma exact_get:
  assumes "at_exactly clk v s" "clean_bucket b" "clean_name k" "\<And>s. at_exactly clk v s \<Longrightarrow> Q (fmlookup (mv_objects v) (object_key b k)) s"
  shows "wp (on_meta (\<lambda>m. GetObjectMeta M m b k)) Q E s"
  by (rule exact_call [OF assms(1), where a = "\<lambda>v. spec_GetObjectMeta v b k"])
     (erule GetObjectMeta [OF _ assms(2,3)], use assms(4) in \<open>simp add: spec_GetObjectMeta_def\<close>)

lemma exact_ref:
  assumes "at_exactly clk v s" "clean_name h" "\<And>s r. at_exactly clk v s \<Longrightarrow> Q r s"
  shows "wp (on_meta (\<lambda>m. GetBlobRef M m h)) Q E s"
  by (rule exact_call [OF assms(1), where a = "\<lambda>v. spec_GetBlobRef v h"])
     (erule GetBlobRef [OF _ assms(2)], use assms(3) in \<open>simp add: spec_GetBlobRef_def\<close>)

lemma exact_release:
  assumes "at_exactly clk v s" "clean_name h" "fmlookup (mv_refs v) h = Some ref"
    and "\<And>s. at_exactly clk (fst (spec_DecreaseBlobRef v h)) s \<Longrightarrow> Q () s"
    and "\<And>s err. at_exactly clk (fst (spec_DecreaseBlobRef v h)) s \<Longrightarrow> E (ErrEngine err) s"
  shows "wp (releaseBlob M h) Q E s"
proof -
  have p: "ok (st_meta s)" "quiet (st_meta s)" "view (st_meta s) = v" "st_clock s = clk" using assms(1) by (auto simp: exactly_def)
  obtain m r where f: "DecreaseBlobRef M (st_meta s) h = (m, r)" by fastforce
  have "refines view ok quiet (st_meta s) (norm_release (m, r)) (spec_DecreaseBlobRef v h)"
    using DecreaseBlobRef [OF p(1) assms(2)] assms(3) p(3) by (simp add: f)
  moreover have "fst (norm_release (m, r)) = m" by (auto simp: norm_release_def split: sum.splits bool.splits)
  ultimately have n: "ok m" "quiet m" "view m = fst (spec_DecreaseBlobRef v h)" "snd (norm_release (m, r)) = snd (spec_DecreaseBlobRef v h)"
    using p(2) by (auto simp: refines_def)
  then have e: "at_exactly clk (fst (spec_DecreaseBlobRef v h)) (s\<lparr>st_meta := m\<rparr>)" using p(4) by (simp add: exactly_def)
  obtain q b where "r = Inr (q, b)"
    using n(4) assms(3) by (auto simp: spec_DecreaseBlobRef_def norm_release_def split: sum.splits bool.splits if_splits)
  moreover have "wp (if \<not> b then ret () else on_engine_err (\<lambda>e. DeleteBlob e q h)) Q E (s\<lparr>st_meta := m\<rparr>)"
    using assms(4) [OF e] assms(4,5) e by (cases b) (auto simp: wp_simps wp_on_engine_err exactly_def split: prod.splits option.splits)
  ultimately show ?thesis by (simp add: releaseBlob_def wp_andThen wp_wrapErr wp_on_meta f)
qed

lemma rollbackPendingLayout_exact:
  assumes "at_exactly clk v s" "clean_meta x" "fmpred (\<lambda>_ x. clean_meta x) (mv_objects v)"
    and "\<And>s. at_exactly clk v s \<Longrightarrow> Q () s" "\<And>err s. at_exactly clk v s \<Longrightarrow> E err s"
  shows "wp (rollbackPendingLayout X M x) Q E s"
  unfolding rollbackPendingLayout_def restoreCommittedLayout_def wp_simps
proof (rule exact_get [OF assms(1)], goal_cases)
  case (3 s)
  show ?case
  proof (cases "fmlookup (mv_objects v) (object_key (om_bucket x) (om_key x))")
    case None
    then show ?thesis
      using 3 assms(4,5) by (auto simp: wp_simps intro!: wp_engine_err_exactly [OF 3])
  next
    case (Some y)
    then have y: "clean_name (om_hash y)" using assms(3) by (auto simp: clean_meta_def dest: fmpredD)
    show ?thesis
      unfolding Some option.case wp_simps
      by (rule exact_ref [OF 3 y])
         (use assms(4,5) in \<open>auto simp: wp_simps split: option.split intro!: wp_engine_exactly\<close>)
  qed
qed (use assms(2) in \<open>simp_all add: clean_meta_def\<close>)

lemma stage_action:
  "pa_Action (pendingRecoveryAction x True) = PendingRecoveryActionReleaseBlob \<longleftrightarrow> writeIntentStage x = WriteIntentStageBlobRetained"
  "pa_Action (pendingRecoveryAction x True) = PendingRecoveryActionRollbackLayout \<longleftrightarrow> writeIntentStage x = WriteIntentStageLayoutLinked"
  by (auto simp: pendingRecoveryAction_def pendingExpiredRecoveryDecision_def Let_def)

lemma shouldRelease_exact:
  assumes "at_exactly clk v s" "clean_meta x" "writeIntentStage x = WriteIntentStageBlobRetained"
    and "\<And>s. at_exactly clk v s \<Longrightarrow> Q (holds_ref v (om_hash x) x) s"
  shows "wp (shouldReleasePendingBlob M x) Q E s"
  unfolding shouldReleasePendingBlob_def wp_simps
proof (rule exact_get [OF assms(1)], goal_cases)
  case (3 s)
  have "(case fmlookup (mv_objects v) (object_key (om_bucket x) (om_key x)) of None \<Rightarrow> True | Some c \<Rightarrow> om_hash c \<noteq> om_hash x) =
      holds_ref v (om_hash x) x"
    using assms(3) by (auto simp: holds_ref_def meta_key_def split: option.split)
  then show ?case using assms(4) [OF 3] by (simp add: wp_simps)
qed (use assms(2) in \<open>simp_all add: clean_meta_def\<close>)

end

text \<open>After the rollback the reference of the pending write is gone, if it held one.\<close>

definition let_go :: "meta_view \<Rightarrow> ObjectMeta \<Rightarrow> meta_view" where
  "let_go v x = (if holds_ref v (om_hash x) x then fst (spec_DecreaseBlobRef v (om_hash x)) else v)"

lemma let_go_frame: "mv_objects (let_go v x) = mv_objects v" "mv_buckets (let_go v x) = mv_buckets v" "mv_staged (let_go v x) = mv_staged v"
  by (simp_all add: let_go_def spec_DecreaseBlobRef_def split: option.split)

lemma let_go_counted:
  assumes "pending_counted v" "fmlookup (mv_staged v) (meta_key x) = Some x"
  shows "pending_counted ((let_go v x)\<lparr>mv_staged := fmdrop (meta_key x) (mv_staged v)\<rparr>)" "refs_suffice (let_go v x)"
  using pending_dropped [OF assms] pending_counted_suffice [OF assms(1)] by (auto simp: let_go_def)

context metadata_listing
begin

lemma rollback_exact:
  assumes "at_exactly clk v s" "pending_counted v" "fmlookup (mv_staged v) (meta_key x) = Some x"
    and "\<And>s. at_exactly clk (let_go v x) s \<Longrightarrow> Q () s" "\<And>err s w. at_exactly clk w s \<Longrightarrow> w = v \<or> w = let_go v x \<Longrightarrow> E err s"
  shows "wp (rollbackExpiredPendingWrite X M x) Q E s"
proof -
  have x: "clean_meta x" "clean_name (om_hash x)" using assms(2,3) by (auto simp: pending_counted_def clean_meta_def dest: fmpredD)
  have objs: "fmpred (\<lambda>_ x. clean_meta x) (mv_objects v)" using assms(2) by (simp add: pending_counted_def balanced_def)
  consider (release) "writeIntentStage x = WriteIntentStageBlobRetained" | (layout) "writeIntentStage x = WriteIntentStageLayoutLinked"
    | (other) "writeIntentStage x \<noteq> WriteIntentStageBlobRetained" "writeIntentStage x \<noteq> WriteIntentStageLayoutLinked" by blast
  then show ?thesis
  proof cases
    case release
    have go: "wp (releaseBlob M (om_hash x)) (\<lambda>_. Q ()) (\<lambda>err. if error_is err ErrNotFound then Q () else E (ErrWrap [err])) s'"
      if p: "at_exactly clk v s'" "holds_ref v (om_hash x) x" for s'
    proof -
      obtain ref where ref: "fmlookup (mv_refs v) (om_hash x) = Some ref" using pending_dropped(2) [OF assms(2,3) p(2)] by blast
      have "let_go v x = fst (spec_DecreaseBlobRef v (om_hash x))" using p(2) by (simp add: let_go_def)
      then show ?thesis
        by (intro exact_release [OF p(1) x(2) ref]) (use assms(4,5) in auto)
    qed
    have keep: "let_go v x = v" if "\<not> holds_ref v (om_hash x) x" using that by (simp add: let_go_def)
    have "wp (rollbackPendingLayoutAndBlob X M x) Q E s"
      unfolding rollbackPendingLayoutAndBlob_def wp_simps
    proof (rule rollbackPendingLayout_exact [OF assms(1) x(1) objs], goal_cases)
      case (1 s1)
      show ?case
      proof (rule shouldRelease_exact [OF 1 x(1) release], goal_cases)
        case (1 s2)
        show ?case
        proof (cases "holds_ref v (om_hash x) x")
          case True
          show ?thesis
            using True by (simp only: simp_thms if_False wp_simps) (rule wp_mono [OF go [OF 1 True]]; simp add: wp_simps split: if_splits)
        next
          case False
          then show ?thesis using assms(4) keep 1 by (simp add: wp_simps)
        qed
      qed
    qed (use assms(5) in blast)
    then show ?thesis
      unfolding rollbackExpiredPendingWrite_def Let_def stage_action release by simp
  next
    case layout
    then have "let_go v x = v" by (simp add: let_go_def holds_ref_def)
    then show ?thesis
      using layout assms(4,5) rollbackPendingLayout_exact [OF assms(1) x(1) objs, of Q E]
      by (simp add: rollbackExpiredPendingWrite_def Let_def stage_action)
  next
    case other
    then have "let_go v x = v" by (simp add: let_go_def holds_ref_def)
    then show ?thesis
      using other assms(1,4) by (simp add: rollbackExpiredPendingWrite_def Let_def stage_action wp_simps)
  qed
qed

lemma delete_expired_exact:
  assumes "at_exactly clk v s" "pending_counted v" "fmlookup (mv_staged v) (meta_key x) = Some x"
    and "\<And>s v'. at_exactly clk v' s \<Longrightarrow> v' = (let_go v x)\<lparr>mv_staged := fmdrop (meta_key x) (mv_staged v)\<rparr> \<Longrightarrow> Q True s"
    and "\<And>err s v'. at_exactly clk v' s \<Longrightarrow> v' = v \<or> v' = let_go v x \<Longrightarrow> E err s"
  shows "wp (deleteExpiredPendingObject X M x) Q E s"
proof -
  have x: "clean_bucket (om_bucket x)" "clean_name (om_key x)" using assms(2,3) by (auto simp: pending_counted_def clean_meta_def dest: fmpredD)
  show ?thesis
    unfolding deleteExpiredPendingObject_def wp_simps
  proof (rule rollback_exact [OF assms(1-3)], goal_cases)
    case (1 s1)
    show ?case
      by (rule exact_call [OF 1, where a = "\<lambda>v. spec_DeleteStagedObjectMeta v (om_bucket x) (om_key x)"])
         (erule DeleteStagedObjectMeta [OF _ x],
          use assms(3,4) in \<open>simp add: spec_DeleteStagedObjectMeta_def wp_simps let_go_frame meta_key_def\<close>)
  qed (use assms(5) in blast)
qed

end

text \<open>The loop: the expired ones of \<open>xs\<close> are gone, the rest of the metadata but for their references is as before.\<close>

definition settled :: "meta_view \<Rightarrow> time \<Rightarrow> ObjectMeta list \<Rightarrow> meta_view \<Rightarrow> store_error option \<Rightarrow> bool" where
  "settled v cutoff xs v' err \<longleftrightarrow> mv_objects v' = mv_objects v \<and> mv_buckets v' = mv_buckets v \<and> refs_suffice v' \<and>
     (err = None \<longrightarrow> pending_counted v' \<and>
        (\<forall>i. fmlookup (mv_staged v') i = (if \<exists>x \<in> set xs. isExpiredPendingObject x cutoff \<and> meta_key x = i then None
           else fmlookup (mv_staged v) i)))"

context metadata_listing
begin

lemma cleanup_pending_exact:
  assumes "at_exactly clk v s" "pending_counted v" "\<And>x. x \<in> set xs \<Longrightarrow> fmlookup (mv_staged v) (meta_key x) = Some x" "distinct (map meta_key xs)"
  shows "wp (cleanup_pending X M cutoff r xs) (\<lambda>(r', err) s'. \<exists>v'. at_exactly clk v' s' \<and> settled v cutoff xs v' err) (\<lambda>_ _. False) s"
  using assms
proof (induction xs arbitrary: v s r)
  case Nil
  then show ?case by (auto simp: wp_simps settled_def pending_counted_suffice intro!: exI [of _ v])
next
  case (Cons x xs)
  have x: "fmlookup (mv_staged v) (meta_key x) = Some x" using Cons.prems(3) by simp
  have "meta_key x \<notin> meta_key ` set xs" using Cons.prems(4) by simp
  then have ne: "meta_key y \<noteq> meta_key x" if "y \<in> set xs" for y using imageI [OF that, of meta_key] by metis
  have tl: "fmlookup (mv_staged v) (meta_key y) = Some y \<and> meta_key y \<noteq> meta_key x" if "y \<in> set xs" for y
    using Cons.prems(3) [of y] ne [OF that] that by simp
  show ?case
  proof (cases "isExpiredPendingObject x cutoff")
    case False
    have eq: "settled v cutoff xs v' err \<longleftrightarrow> settled v cutoff (x # xs) v' err" for v' err
      using False by (simp add: settled_def)
    show ?thesis using Cons.IH [OF Cons.prems(1,2)] tl Cons.prems(4) False unfolding eq by simp
  next
    case True
    let ?v = "(let_go v x)\<lparr>mv_staged := fmdrop (meta_key x) (mv_staged v)\<rparr>"
    have c: "pending_counted ?v" using let_go_counted(1) [OF Cons.prems(2) x] .
    have eq: "settled v cutoff (x # xs) v' err" if "settled ?v cutoff xs v' err" for v' err
      using that True unfolding settled_def by (auto simp: let_go_frame)
    have next_step: "wp (cleanup_pending X M cutoff r xs) (\<lambda>(r', err) s'. \<exists>v'. at_exactly clk v' s' \<and> settled v cutoff (x # xs) v' err) (\<lambda>_ _. False) s'"
      if p: "at_exactly clk ?v s'" for s' r
      by (rule wp_mono [OF Cons.IH [OF p c]]) (use tl Cons.prems(4) eq in \<open>auto split: prod.splits\<close>)
    have stop: "settled v cutoff (x # xs) w (Some err)" if "w = v \<or> w = let_go v x" for w err
      using that let_go_counted(2) [OF Cons.prems(2) x] pending_counted_suffice [OF Cons.prems(2)] by (auto simp: settled_def let_go_frame)
    show ?thesis
      using True
      by (simp add: wp_simps, intro delete_expired_exact [OF Cons.prems(1,2) x])
         (use next_step stop in \<open>auto simp: wp_simps\<close>)
  qed
qed

lemma list_staged_exact:
  assumes "at_exactly clk v s" "\<And>s xs. at_exactly clk v s \<Longrightarrow> set xs = {x. \<exists>i. fmlookup (mv_staged v) i = Some x} \<Longrightarrow>
      (fmpred (\<lambda>i x. i = meta_key x) (mv_staged v) \<Longrightarrow> distinct (map meta_key xs)) \<Longrightarrow> Q xs s"
  shows "wp (on_meta (\<lambda>m. ListStagedObjectMetas M m [] [])) Q E s"
proof (rule exact_call [OF assms(1), where a = spec_ListStagedObjectMetas], goal_cases)
  case 1
  then show ?case by (rule ListStagedObjectMetas)
next
  case (2 s')
  let ?xs = "fm_values (mv_staged v)"
  have "distinct (map meta_key ?xs)" if k: "fmpred (\<lambda>i x. i = meta_key x) (mv_staged v)"
  proof -
    have "map meta_key ?xs = fm_keys (mv_staged v)"
      using k by (auto simp: fm_values_def fm_entries_def fmlookup_dom_iff fmpred_iff intro!: map_idI)
    then show ?thesis by simp
  qed
  then have "distinct (map meta_key (sort_key (\<lambda>x. (om_bucket x, om_key x)) ?xs))"
    if "fmpred (\<lambda>i x. i = meta_key x) (mv_staged v)" using that by (simp add: distinct_map)
  then show ?case
    using 2 by (auto simp: spec_ListStagedObjectMetas_def fm_values_iff intro!: assms(2))
qed

lemma cleanupPendingObjects_exact:
  assumes "at_exactly clk v s" "pending_counted v" "0 < ttl"
    and "\<And>s' v' r err t. at_exactly clk v' s' \<Longrightarrow> settled v (clk t - ttl) (fm_values (mv_staged v)) v' err \<Longrightarrow> Q (r, err) s'"
  shows "wp (cleanupPendingObjects X M ttl) Q E s"
proof -
  have keys: "fmpred (\<lambda>i x. i = meta_key x) (mv_staged v)" using assms(2) by (auto simp: pending_counted_def fmpred_iff)
  have w: "wp (cleanup_pending X M cutoff no_cleanup xs) (\<lambda>(r', err) s'. \<exists>v'. at_exactly clk v' s' \<and> settled v cutoff (fm_values (mv_staged v)) v' err)
      (\<lambda>_ _. False) s'"
    if p: "at_exactly clk v s'" "set xs = {x. \<exists>i. fmlookup (mv_staged v) i = Some x}" "distinct (map meta_key xs)" for s' cutoff xs
  proof -
    have "fmlookup (mv_staged v) (meta_key x) = Some x" if "x \<in> set xs" for x
      using that p(2) keys by (auto simp: fmpred_iff)
    note e = cleanup_pending_exact [OF p(1) assms(2) this p(3), of X cutoff no_cleanup]
    have "set xs = set (fm_values (mv_staged v))" using p(2) by (auto simp: fm_values_iff)
    then have "settled v cutoff xs = settled v cutoff (fm_values (mv_staged v))"
      by (intro ext) (simp only: settled_def)
    with e show ?thesis by simp
  qed
  show ?thesis
    unfolding cleanupPendingObjects_def if_not_P [OF not_le [THEN iffD2, OF assms(3)]] wp_simps
  proof (rule list_staged_exact [OF assms(1)], goal_cases)
    case (1 s1 xs)
    have t: "st_clock s1 = clk" using 1(1) by (simp add: exactly_def)
    have s1: "at_exactly clk v (s1\<lparr>st_tick := Suc (st_tick s1)\<rparr>)" using 1(1) by simp
    show ?case
      unfolding sum.case wp_simps t
      by (rule wp_mono [OF w [OF s1 1(2) 1(3) [OF keys]]]) (use assms(4) in auto)
  qed
qed

end

text \<open>Removing orphans spares every shard set that a reference or a pending write names.\<close>

definition spared :: "Externals \<Rightarrow> meta_view \<Rightarrow> Engine \<Rightarrow> Engine \<Rightarrow> bool" where
  "spared X v e e' \<longleftrightarrow>
     (\<forall>h r p. fmlookup (mv_refs v) h = Some r \<longrightarrow> plain_name (ref_path r) \<longrightarrow> plain_name h \<longrightarrow>
        below (eng_root e @ [ref_path r, h]) p \<longrightarrow> fmlookup (eng_chunks e') p = fmlookup (eng_chunks e) p) \<and>
     (\<forall>i x p. fmlookup (mv_staged v) i = Some x \<longrightarrow> clean_meta x \<longrightarrow> plain_name (makeShardDir X (om_key x)) \<longrightarrow> plain_name (om_hash x) \<longrightarrow>
        below (eng_root e @ [makeShardDir X (om_key x), om_hash x]) p \<longrightarrow> fmlookup (eng_chunks e') p = fmlookup (eng_chunks e) p)"

lemma CleanupOrphanShardSets_spares:
  assumes "plain_sets e" "CleanupOrphanShardSets e live dryRun = (e', r, err)"
    and "\<And>h ref. fmlookup (mv_refs v) h = Some ref \<Longrightarrow> (ref_path ref, h) \<in> set live"
    and "\<And>i x. fmlookup (mv_staged v) i = Some x \<Longrightarrow> clean_meta x \<Longrightarrow> (makeShardDir X (om_key x), om_hash x) \<in> set live"
  shows "spared X v e e'" "dryRun \<Longrightarrow> e' = e"
  using live_sets_kept [OF assms(1,2)] assms(3,4) orphan_changes(3) [OF assms(1,2)] unfolding spared_def by blast+

context metadata_listing
begin

lemma cleanupOrphanShardSets_exact:
  assumes "at_exactly clk v s"
    and "\<And>s' r err. at_exactly clk v s' \<Longrightarrow>
      (plain_sets (st_engine s) \<Longrightarrow> spared X v (st_engine s) (st_engine s') \<and> (dryRun \<longrightarrow> st_engine s' = st_engine s)) \<Longrightarrow> Q (r, err) s'"
  shows "wp (cleanupOrphanShardSets X M dryRun) Q E s"
  unfolding cleanupOrphanShardSets_def wp_simps
proof (rule exact_call_engine [OF assms(1), where a = spec_ListBlobRefs], goal_cases)
  case 1
  then show ?case by (rule ListBlobRefs)
next
  case (2 s1)
  let ?refs = "map (\<lambda>(h, r). r\<lparr>ref_hash := h\<rparr>) (fm_entries (mv_refs v))" and ?st = "sort_key (\<lambda>x. (om_bucket x, om_key x)) (fm_values (mv_staged v))"
  let ?live = "map (\<lambda>ref. (ref_path ref, ref_hash ref)) ?refs @ pendingShardSetRefs X ?st"
  have v1: "at_exactly clk v s1" using 2(1) by (simp add: spec_ListBlobRefs_def)
  have w: "wp (remove_orphans ?live dryRun) Q E s2" if s2: "at_exactly clk v s2" "st_engine s2 = st_engine s" for s2
  proof -
    obtain e' r err where c: "CleanupOrphanShardSets (st_engine s) ?live dryRun = (e', r, err)" by (rule prod_cases3)
    have refs: "(ref_path ref, h) \<in> set ?live" if "fmlookup (mv_refs v) h = Some ref" for h ref
    proof -
      have "(h, ref) \<in> set (fm_entries (mv_refs v))" using that by (simp add: fm_entries_iff)
      then have "(ref_path ref, h) \<in> (\<lambda>(h, r). (ref_path r, h)) ` set (fm_entries (mv_refs v))" by (rule rev_image_eqI) simp
      then show ?thesis by (simp add: image_image case_prod_unfold)
    qed
    have st: "(makeShardDir X (om_key x), om_hash x) \<in> set ?live" if "fmlookup (mv_staged v) i = Some x" "clean_meta x" for i x
    proof -
      have "x \<in> set (filter (\<lambda>m. trim_space (om_key m) \<noteq> [] \<and> trim_space (om_hash m) \<noteq> []) ?st)"
        using that by (auto simp: fm_values_iff clean_meta_def clean_name_def)
      then have "(makeShardDir X (om_key x), om_hash x) \<in> set (pendingShardSetRefs X ?st)"
        unfolding pendingShardSetRefs_def set_map by (rule rev_image_eqI) simp
      then show ?thesis by simp
    qed
    note sp = CleanupOrphanShardSets_spares [OF _ c refs st]
    have "Q (r, map_option (\<lambda>err. mapStoreError (ErrEngine err)) err) (s2\<lparr>st_engine := e'\<rparr>)"
      by (rule assms(2)) (use s2 sp in auto)
    then show ?thesis unfolding wp_def remove_orphans_def s2(2) c by simp
  qed
  show ?case
    unfolding spec_ListBlobRefs_def snd_conv sum.case wp_simps
  proof (rule exact_call_engine [OF v1, where a = spec_ListStagedObjectMetas], goal_cases)
    case 1
    then show ?case by (rule ListStagedObjectMetas)
  next
    case (2 s2)
    then show ?case
      using w [of s2] \<open>st_engine s1 = st_engine s\<close> by (simp add: spec_ListStagedObjectMetas_def)
  qed
qed

lemma Recover_exact:
  assumes "at_exactly clk v s" "pending_counted v" "0 < ro_PendingTTL opts"
  shows "wp (Recover X M opts) (\<lambda>(_, err) s'. \<exists>v' t. at_exactly clk v' s' \<and> settled v (clk t - ro_PendingTTL opts) (fm_values (mv_staged v)) v' err)
    (\<lambda>_ _. False) s"
proof -
  have s1: "at_exactly clk v (s\<lparr>st_tick := Suc (st_tick s)\<rparr>)" using assms(1) by simp
  let ?P = "\<lambda>(_, err) s'. \<exists>v' t. at_exactly clk v' s' \<and> settled v (clk t - ro_PendingTTL opts) (fm_values (mv_staged v)) v' err"
  have fin: "wp (finish_recovery r err) ?P (\<lambda>_ _. False) s'"
    if "at_exactly clk v' s'" "settled v (clk t - ro_PendingTTL opts) (fm_values (mv_staged v)) v' err" for r err s' v' t
    using that by (auto simp: finish_recovery_def wp_simps Let_def wp_def setRecoveryStatus_def)
  have any: "settled v cutoff xs v' None \<Longrightarrow> settled v cutoff xs v' err" for cutoff xs v' err by (simp add: settled_def)
  show ?thesis
    unfolding Recover_def wp_simps
  proof (rule cleanupPendingObjects_exact [OF s1 assms(2,3)], goal_cases)
    case (1 s2 v2 r err t)
    show ?case
    proof (cases "err = None \<and> ro_CleanupOrphanShards opts")
      case False
      then show ?thesis using fin [OF 1] by (auto simp: Let_def)
    next
      case True
      then have n: "settled v (clk t - ro_PendingTTL opts) (fm_values (mv_staged v)) v2 None" using 1(2) by simp
      have "wp (cleanupOrphanShardSets X M (ro_DryRun opts)) (\<lambda>(c, cerr). wp (finish_recovery (f c) cerr) ?P (\<lambda>_ _. False)) (\<lambda>_ _. False) s2" for f
      proof (rule cleanupOrphanShardSets_exact [OF 1(1)], goal_cases)
        case (1 s3 c cerr)
        then show ?case using fin [OF 1(1) any [OF n]] by simp
      qed
      then show ?thesis using True by (simp add: Let_def wp_simps case_prod_unfold)
    qed
  qed
qed

end

end
