(* ===== verification/Interrupted_Write.thy ===== *)
theory Interrupted_Write
  imports Recovery_Safety
begin

text \<open>
  A write that stops, because the process dies, right after its intent recorded \<open>blob_retained\<close>: the point where
  the most has to be undone. The protocol of \<open>PutObject\<close> is cut there in two, and the first part is shown to
  leave the counts in the state from which recovery starts.
\<close>

section \<open>Cutting the protocol\<close>

lemma andThen_assoc: "andThen (andThen f g) h = andThen f (\<lambda>x. andThen (g x) h)"
  by (auto simp: andThen_def fun_eq_iff split: prod.split sum.split)

lemma andThen_ret: "andThen (ret x) f = f x"
  by (simp add: andThen_def ret_def fun_eq_iff)

record put_progress =
  pp_bucket :: string
  pp_key :: string
  pp_existing :: existingObject
  pp_staged :: stagedObject
  pp_pending :: ObjectMeta
  pp_blob :: BlobInfo
  pp_created :: bool
  pp_info :: ObjectInfo
  pp_mutation :: blobRefMutation

definition put_prepare :: "Externals \<Rightarrow> 'm MetadataStore \<Rightarrow> string \<Rightarrow> string \<Rightarrow> string + bytes \<Rightarrow> PutOptions \<Rightarrow>
    ('m, put_progress) action" where
  "put_prepare X M bucket key reader opts =
     andThen (lift_result (normalizeObjectLocation bucket key)) (\<lambda>(bucket, key).
     andThen (ensureBucketExists M bucket) (\<lambda>_.
     andThen (loadExistingObject M bucket key) (\<lambda>existing.
     andThen (wrapErr engine_failed (lift_result (stageObject X reader))) (\<lambda>staged.
     andThen (Object_Store.stageObjectMeta M bucket key (normalized X opts) staged) (\<lambda>pending.
     andThen (preparePutBlob X M bucket key staged) (\<lambda>(blob, refExists, createdBlob).
       let undo = (\<lambda>mutation. failPut X M bucket key (so_hash staged) blob mutation createdBlob existing) in
       andThen (or_fail (updatePendingWriteIntent M pending WriteIntentStageBlobPrepared) (undo blobRefUnchanged)) (\<lambda>pending.
       andThen (linkPutLayout X bucket key (po_ContentType (normalized X opts)) blob createdBlob) (\<lambda>info.
       andThen (or_fail (updatePendingWriteIntent M pending WriteIntentStageLayoutLinked) (undo blobRefUnchanged)) (\<lambda>pending.
       andThen (or_fail (retainBlob M (so_hash staged) blob refExists
           (ex_exists existing \<and> om_hash (ex_meta existing) = so_hash staged)) (undo blobRefUnchanged)) (\<lambda>mutation.
       andThen (or_fail (updatePendingWriteIntent M pending WriteIntentStageBlobRetained) (undo mutation)) (\<lambda>pending.
         ret \<lparr>pp_bucket = bucket, pp_key = key, pp_existing = existing, pp_staged = staged, pp_pending = pending,
              pp_blob = blob, pp_created = createdBlob, pp_info = info, pp_mutation = mutation\<rparr>)))))))))))"

definition put_commit :: "Externals \<Rightarrow> 'm MetadataStore \<Rightarrow> PutOptions \<Rightarrow> put_progress \<Rightarrow> ('m, ObjectMeta) action" where
  "put_commit X M opts p =
     andThen time_now (\<lambda>at.
       let meta = (apply_options (normalized X opts) (objectMetaFromInfo (pp_info p)))
             \<lparr>om_intent := Some (advanceWriteIntent (om_intent (pp_pending p)) WriteIntentStageCommitted at)\<rparr>
       in andThen (or_fail (wrapErr mapStoreError (on_meta (\<lambda>m. UpsertObjectMeta M m meta)))
              (failPut X M (pp_bucket p) (pp_key p) (so_hash (pp_staged p)) (pp_blob p) (pp_mutation p) (pp_created p) (pp_existing p))) (\<lambda>_.
          andThen (Object_Store.deleteStagedObjectMeta M (pp_bucket p) (pp_key p)) (\<lambda>_.
          andThen (releaseReplacedBlob M (pp_existing p) (so_hash (pp_staged p))) (\<lambda>_.
            ret meta))))"

lemma Store_PutObject_split:
  "Store_PutObject X M bucket key reader opts = andThen (put_prepare X M bucket key reader opts) (put_commit X M opts)"
  unfolding Store_PutObject_def putStagedObject_def completePreparedPut_def put_prepare_def put_commit_def Let_def
  by (simp add: andThen_assoc andThen_ret case_prod_unfold)

section \<open>The state it leaves\<close>

lemma put_retained_counts:
  assumes "balanced v d" "\<And>h. 0 \<le> d h" "same \<longleftrightarrow> map_option om_hash (fmlookup (mv_objects v) i) = Some h"
    and "v' = put_retained v h blob (fmlookup (mv_refs v) h \<noteq> None) same"
  shows "balanced v' (d(h := d h + (if same then 0 else 1)))" "mv_objects v' = mv_objects v" "mv_buckets v' = mv_buckets v" "mv_staged v' = mv_staged v"
proof -
  have use: "same \<Longrightarrow> 0 < uses v h" unfolding uses_card using assms(3) by (auto intro: users_pos)
  have "ref_of v h = int (uses v h) + d h" using assms(1) by (simp add: balanced_def)
  then have "same \<Longrightarrow> fmlookup (mv_refs v) h \<noteq> None" using use assms(2) [of h] by (auto simp: ref_of_def split: option.splits)
  then show "balanced v' (d(h := d h + (if same then 0 else 1)))"
    using balanced_create [OF assms(1)] balanced_increase [OF assms(1)] assms(1) by (auto simp: assms(4) put_retained_def)
  show "mv_objects v' = mv_objects v" "mv_buckets v' = mv_buckets v" "mv_staged v' = mv_staged v"
    by (simp_all add: assms(4) put_retained_def spec_CreateBlobRef_def spec_IncreaseBlobRef_def spec_update_ref_def split: option.split)
qed

text \<open>The staged object of the write accounts for the reference it took.\<close>

lemma staged_counts:
  assumes "pending_counted v" "fmlookup (mv_staged v) (meta_key x) = None" "clean_meta x" "om_hash x = h"
    and "writeIntentStage x = WriteIntentStageBlobRetained"
    and "v' = put_retained v h blob (fmlookup (mv_refs v) h \<noteq> None) (map_option om_hash (fmlookup (mv_objects v) (meta_key x)) = Some h)"
  shows "pending_counted (v'\<lparr>mv_staged := fmupd (meta_key x) x (mv_staged v)\<rparr>)"
proof -
  let ?d = "\<lambda>h. int (counting (mv_staged v) (holds_ref v h))" and ?same = "map_option om_hash (fmlookup (mv_objects v) (meta_key x)) = Some h"
  let ?st = "fmupd (meta_key x) x (mv_staged v)"
  have bal: "balanced v ?d" using assms(1) by (simp add: pending_counted_def)
  note r = put_retained_counts [OF bal _ refl assms(6)]
  have hr: "holds_ref (v'\<lparr>mv_staged := s\<rparr>) = holds_ref v" for s using r(2) by (simp add: holds_ref_def fun_eq_iff)
  have "int (counting ?st (holds_ref v h')) = ?d h' + (if holds_ref v h' x then 1 else 0)" for h'
  proof -
    have l: "fmlookup ?st (meta_key x) = Some x" by simp
    have "fmdrop (meta_key x) ?st = mv_staged v" using assms(2) by (intro fmap_ext) simp
    then show ?thesis using counting_drop [OF l, of "holds_ref v h'"] by simp
  qed
  moreover have "holds_ref v h' x \<longleftrightarrow> h' = h \<and> \<not> ?same" for h' using assms(4,5) by (auto simp: holds_ref_def)
  ultimately have "(?d(h := ?d h + (if ?same then 0 else 1))) h' = int (counting ?st (holds_ref v h'))" for h' by auto
  then have "balanced v' (\<lambda>h. int (counting ?st (holds_ref v h)))" using balanced_ext [OF r(1)] by simp
  moreover have "fmpred (\<lambda>i x. i = meta_key x \<and> clean_meta x) ?st"
    using assms(1,3) by (auto simp: pending_counted_def intro!: fmpred_upd)
  ultimately show ?thesis unfolding pending_counted_def hr by (simp add: balanced_def ref_of_def uses_def)
qed

text \<open>On the way the metadata is known but for the staged object of the write.\<close>

definition midway :: "('m \<Rightarrow> meta_view) \<Rightarrow> ('m \<Rightarrow> bool) \<Rightarrow> ('m \<Rightarrow> bool) \<Rightarrow> (nat \<Rightarrow> time) \<Rightarrow> string \<Rightarrow> meta_view \<Rightarrow> 'm Store \<Rightarrow> bool" where
  "midway view ok quiet clk i v s \<longleftrightarrow>
     (\<exists>st. exactly view ok quiet clk (v\<lparr>mv_staged := st\<rparr>) s \<and> (\<forall>j. j \<noteq> i \<longrightarrow> fmlookup st j = fmlookup (mv_staged v) j))"

lemma midway_updates [simp]:
  "midway view ok quiet clk i v (s\<lparr>st_tick := t\<rparr>) = midway view ok quiet clk i v s"
  "midway view ok quiet clk i v (s\<lparr>st_engine := e\<rparr>) = midway view ok quiet clk i v s"
  by (simp_all add: midway_def)

lemma midway_start: "exactly view ok quiet clk v s \<Longrightarrow> midway view ok quiet clk i v s"
  by (auto simp: midway_def intro!: exI [of _ "mv_staged v"])

lemma wp_engine_midway:
  assumes "midway view ok quiet clk i v s" "\<And>x s e t. midway view ok quiet clk i v s \<Longrightarrow> f t e = (st_engine s, Inr x) \<Longrightarrow> Q x s"
    "\<And>err s. midway view ok quiet clk i v s \<Longrightarrow> E err s"
  shows "wp (on_engine f) Q E s"
  using assms by (auto simp: wp_on_engine split: prod.splits sum.splits)

context metadata_listing
begin

abbreviation mid :: "(nat \<Rightarrow> time) \<Rightarrow> string \<Rightarrow> meta_view \<Rightarrow> 'm Store \<Rightarrow> bool" where
  "mid \<equiv> midway view ok quiet"

text \<open>A call whose abstract counterpart leaves the staged objects alone and does not look at them.\<close>

lemma mid_call:
  assumes "mid clk i v s" "\<And>m. ok m \<Longrightarrow> same_core (view m) v \<Longrightarrow> refines view ok quiet m (f m) (a (view m))"
    and "\<And>st. fst (a (v\<lparr>mv_staged := st\<rparr>)) = v'\<lparr>mv_staged := st\<rparr> \<and> snd (a (v\<lparr>mv_staged := st\<rparr>)) = Inr x" "mv_staged v' = mv_staged v"
    and "\<And>s. mid clk i v' s \<Longrightarrow> Q x s"
  shows "wp (on_meta f) Q E s"
proof -
  obtain st where st: "at_exactly clk (v\<lparr>mv_staged := st\<rparr>) s" "\<forall>j. j \<noteq> i \<longrightarrow> fmlookup st j = fmlookup (mv_staged v) j"
    using assms(1) by (auto simp: midway_def)
  show ?thesis
  proof (rule exact_call [OF st(1), where a = a], goal_cases)
    case 1
    then show ?case using assms(2) [of "st_meta s"] st(1) by (simp add: exactly_def same_core_def)
  next
    case (2 s')
    then have "mid clk i v' s'" using assms(3,4) st(2) unfolding midway_def by auto
    then show ?case using assms(3,5) by simp
  qed
qed

lemma mid_stage:
  assumes "mid clk (meta_key x) v s" "clean_meta x" "om_bucket x |\<in>| mv_buckets v"
    and "\<And>s. mid clk (meta_key x) v s \<Longrightarrow>
      at_exactly clk (v\<lparr>mv_staged := fmupd (meta_key x) (x\<lparr>om_state := ObjectStatePending\<rparr>) (mv_staged v)\<rparr>) s \<Longrightarrow> Q () s"
  shows "wp (on_meta (\<lambda>m. StageObjectMeta M m x)) Q E s"
proof -
  let ?x = "x\<lparr>om_state := ObjectStatePending\<rparr>"
  obtain st where st: "at_exactly clk (v\<lparr>mv_staged := st\<rparr>) s" "\<forall>j. j \<noteq> meta_key x \<longrightarrow> fmlookup st j = fmlookup (mv_staged v) j"
    using assms(1) by (auto simp: midway_def)
  have eq: "fmupd (meta_key x) ?x st = fmupd (meta_key x) ?x (mv_staged v)"
    using st(2) by (intro fmap_ext) simp
  show ?thesis
  proof (rule exact_call [OF st(1), where a = "\<lambda>v. spec_StageObjectMeta v x"], goal_cases)
    case 1
    then show ?case by (rule_tac StageObjectMeta [OF _ assms(2)])
  next
    case (2 s')
    then have e: "at_exactly clk (v\<lparr>mv_staged := fmupd (meta_key x) ?x (mv_staged v)\<rparr>) s'"
      using assms(3) by (simp add: spec_StageObjectMeta_def eq)
    then have "mid clk (meta_key x) v s'" unfolding midway_def by (intro exI conjI) (assumption, simp)
    then show ?case using assms(3,4) e by (simp add: spec_StageObjectMeta_def)
  qed
qed

lemma mid_get_object:
  assumes "mid clk i v s" "clean_bucket b" "clean_name k" "\<And>s. mid clk i v s \<Longrightarrow> Q (fmlookup (mv_objects v) (object_key b k)) s"
  shows "wp (on_meta (\<lambda>m. GetObjectMeta M m b k)) Q E s"
  by (rule mid_call [OF assms(1), where a = "\<lambda>v. spec_GetObjectMeta v b k" and v' = v])
     (erule GetObjectMeta [OF _ assms(2,3)], use assms(4) in \<open>simp_all add: spec_GetObjectMeta_def\<close>)

lemma mid_get_ref:
  assumes "mid clk i v s" "clean_name h" "\<And>s. mid clk i v s \<Longrightarrow> Q (map_option (\<lambda>r. r\<lparr>ref_hash := h\<rparr>) (fmlookup (mv_refs v) h)) s"
  shows "wp (on_meta (\<lambda>m. GetBlobRef M m h)) Q E s"
  by (rule mid_call [OF assms(1), where a = "\<lambda>v. spec_GetBlobRef v h" and v' = v])
     (erule GetBlobRef [OF _ assms(2)], use assms(3) in \<open>simp_all add: spec_GetBlobRef_def\<close>)

lemma mid_load:
  assumes "mid clk i v s" "clean_bucket b" "clean_name k" "fmpred (\<lambda>_ x. clean_meta x) (mv_objects v)"
    and "\<And>s ex. mid clk i v s \<Longrightarrow> (ex_exists ex \<and> om_hash (ex_meta ex) = h) = (map_option om_hash (fmlookup (mv_objects v) (object_key b k)) = Some h) \<Longrightarrow> Q ex s"
  shows "wp (loadExistingObject M b k) Q E s"
  unfolding loadExistingObject_def wp_simps
proof (rule mid_get_object [OF assms(1-3)], goal_cases)
  case (1 s)
  show ?case
  proof (cases "fmlookup (mv_objects v) (object_key b k)")
    case None
    then show ?thesis using 1 assms(5) by (simp add: wp_simps no_existing_def)
  next
    case (Some x)
    then have x: "clean_name (om_hash x)" using assms(4) by (auto simp: clean_meta_def dest: fmpredD)
    show ?thesis
      unfolding Some option.case wp_simps by (rule mid_get_ref [OF 1 x]) (rule assms(5), assumption, simp add: Some)
  qed
qed

lemma mid_update:
  assumes "mid clk (meta_key x) v s" "clean_meta x" "om_bucket x |\<in>| mv_buckets v"
    and "\<And>s y. mid clk (meta_key x) v s \<Longrightarrow> clean_meta y \<Longrightarrow> om_bucket y = om_bucket x \<Longrightarrow> om_key y = om_key x \<Longrightarrow> om_hash y = om_hash x \<Longrightarrow>
      map_option wi_stage (om_intent y) = Some stage \<Longrightarrow>
      at_exactly clk (v\<lparr>mv_staged := fmupd (meta_key x) (y\<lparr>om_state := ObjectStatePending\<rparr>) (mv_staged v)\<rparr>) s \<Longrightarrow> Q y s"
  shows "wp (updatePendingWriteIntent M x stage) Q E s"
  unfolding updatePendingWriteIntent_def wp_simps Let_def
proof (rule mid_stage [where clk = clk and v = v], goal_cases)
  case 1
  then show ?case using assms(1) by (simp add: meta_key_def)
next
  case (4 s')
  show ?case
    by (rule assms(4)) (use 4 assms(2) in \<open>simp_all add: meta_key_def clean_meta_def advanceWriteIntent_def split: option.split\<close>)
qed (use assms(2,3) in \<open>simp_all add: clean_meta_def\<close>)

lemma wp_trivial: "wp f (\<lambda>_ _. True) (\<lambda>_ _. True) s"
  by (simp add: wp_def split: prod.split sum.split)

lemma mid_prepare:
  assumes "mid clk i v s" "clean_name (so_hash st)"
    and "\<And>s blob. mid clk i v s \<Longrightarrow> Q (blob, fmlookup (mv_refs v) (so_hash st) \<noteq> None, fmlookup (mv_refs v) (so_hash st) = None) s"
  shows "wp (preparePutBlob X M b k st) Q (\<lambda>_ _. True) s"
  unfolding preparePutBlob_def prepareBlob_def wp_simps
proof (rule mid_get_ref [OF assms(1,2)], goal_cases)
  case (1 s')
  have any: "wp (Object_Store.deleteStagedObjectMeta M b k) (\<lambda>_ _. True) (\<lambda>_ _. True) s" for s by (rule wp_trivial)
  show ?case
  proof (cases "fmlookup (mv_refs v) (so_hash st)")
    case None
    show ?thesis
      unfolding None option.map option.case createBlob_def wp_simps
      by (rule wp_engine_midway [OF 1]) (use assms(3) None any in \<open>auto simp: wp_simps\<close>)
  next
    case (Some r)
    then show ?thesis using assms(3) [OF 1] by (simp add: wp_simps)
  qed
qed

lemma mid_link:
  assumes "mid clk i v s" "\<And>s info. mid clk i v s \<Longrightarrow> trim_space (bi_ShardDir blob) \<noteq> [] \<Longrightarrow> Q info s"
  shows "wp (linkPutLayout X b k ct blob created) Q (\<lambda>_ _. True) s"
proof -
  have "trim_space (bi_ShardDir blob) \<noteq> []" if "LinkObject X e t b k blob ct at = (e', Inr info)" for e t at e' info
    using LinkObject_success [OF that] by metis
  then show ?thesis
    using assms unfolding linkPutLayout_def wp_simps
    by (auto simp: wp_simps wp_on_engine wp_on_engine_err split: prod.splits sum.splits option.splits)
qed

lemma mid_retain:
  assumes "mid clk i v s" "clean_name h" "trim_space (bi_ShardDir blob) \<noteq> []"
    and "\<And>s mut. mid clk i (put_retained v h blob (fmlookup (mv_refs v) h \<noteq> None) same) s \<Longrightarrow> Q mut s"
  shows "wp (retainBlob M h blob (fmlookup (mv_refs v) h \<noteq> None) same) Q E s"
proof (cases "fmlookup (mv_refs v) h")
  case None
  have "wp (on_meta (\<lambda>m. CreateBlobRef M m h (bi_ShardDir blob) (bi_Size blob) (bi_Placements blob) (bi_Checksums blob) (bi_Sizes blob))) (\<lambda>_. Q mut) F s" for mut F
    by (rule mid_call [OF assms(1), where a = "\<lambda>v. spec_CreateBlobRef v h (bi_ShardDir blob) (bi_Size blob) (bi_Placements blob) (bi_Checksums blob) (bi_Sizes blob)"
        and v' = "put_retained v h blob False same" and x = "()"])
       (erule CreateBlobRef [OF _ assms(2,3)], use None assms(4) in \<open>auto simp: spec_CreateBlobRef_def put_retained_def same_core_def\<close>)
  with None show ?thesis by (simp add: retainBlob_def wp_simps)
next
  case (Some r)
  have "wp (on_meta (\<lambda>m. IncreaseBlobRef M m h)) (\<lambda>_. Q mut) F s" if "\<not> same" for mut F
    by (rule mid_call [OF assms(1), where a = "\<lambda>v. spec_IncreaseBlobRef v h" and v' = "put_retained v h blob True same" and x = "()"])
       (erule IncreaseBlobRef [OF _ assms(2)], use Some that assms(4) in \<open>auto simp: spec_IncreaseBlobRef_def spec_update_ref_def put_retained_def\<close>)
  moreover have "same \<Longrightarrow> Q mut s" for mut using assms(1,4) Some by (simp add: put_retained_def)
  ultimately show ?thesis using Some by (simp add: retainBlob_def wp_simps)
qed

lemma mid_bucket:
  assumes "mid clk i v s" "clean_bucket b" "\<And>s. mid clk i v s \<Longrightarrow> b |\<in>| mv_buckets v \<Longrightarrow> Q () s"
  shows "wp (ensureBucketExists M b) Q (\<lambda>_ _. True) s"
  unfolding ensureBucketExists_def wp_simps
  by (rule mid_call [OF assms(1), where a = "\<lambda>v. spec_BucketExists v b" and v' = v and x = "b |\<in>| mv_buckets v"])
     (erule BucketExists [OF _ assms(2)], use assms(3) in \<open>simp_all add: spec_BucketExists_def wp_simps\<close>)

lemma mid_stage_meta:
  assumes "mid clk (object_key b k) v s" "clean_bucket b" "clean_name k" "clean_name (so_hash st)" "b |\<in>| mv_buckets v"
    and "\<And>s x. mid clk (object_key b k) v s \<Longrightarrow> clean_meta x \<Longrightarrow> om_bucket x = b \<Longrightarrow> om_key x = k \<Longrightarrow> om_hash x = so_hash st \<Longrightarrow> Q x s"
  shows "wp (Object_Store.stageObjectMeta M b k opts st) Q E s"
  unfolding Object_Store.stageObjectMeta_def wp_simps Let_def
proof (rule mid_stage [where clk = clk and v = v], goal_cases)
  case (4 s')
  show ?case
    by (rule assms(6)) (use 4 assms(2-4) in \<open>simp_all add: meta_key_def clean_meta_def apply_options_def\<close>)
qed (use assms(1-5) in \<open>simp_all add: clean_meta_def apply_options_def meta_key_def\<close>)

text \<open>The steps after the blob is there.\<close>

lemma mid_finish:
  assumes "mid clk (object_key b k) v s" "pending_counted v" "fmlookup (mv_staged v) (object_key b k) = None"
    and "clean_bucket b" "clean_name k" "b |\<in>| mv_buckets v" "trim_space (bi_ShardDir blob) \<noteq> []" "clean_meta x" "om_bucket x = b" "om_key x = k"
    and same: "same = (map_option om_hash (fmlookup (mv_objects v) (object_key b k)) = Some (om_hash x))"
    and Q: "\<And>s mut y v'. at_exactly clk v' s \<Longrightarrow> pending_counted v' \<Longrightarrow> mv_objects v' = mv_objects v \<Longrightarrow> mv_buckets v' = mv_buckets v \<Longrightarrow> Q mut y s"
  shows "wp (retainBlob M (om_hash x) blob (fmlookup (mv_refs v) (om_hash x) \<noteq> None) same)
    (\<lambda>mut. wp (updatePendingWriteIntent M x WriteIntentStageBlobRetained) (Q mut) (\<lambda>_ _. False)) (\<lambda>_ _. False) s"
proof -
  let ?v = "put_retained v (om_hash x) blob (fmlookup (mv_refs v) (om_hash x) \<noteq> None) same"
  have key: "meta_key x = object_key b k" using assms(9,10) by (simp add: meta_key_def)
  have h: "clean_name (om_hash x)" using assms(8) by (simp add: clean_meta_def)
  have fr: "mv_objects ?v = mv_objects v" "mv_buckets ?v = mv_buckets v" "mv_staged ?v = mv_staged v"
    by (simp_all add: put_retained_def spec_CreateBlobRef_def spec_IncreaseBlobRef_def spec_update_ref_def split: option.split)
  have fr2: "mv_objects (?v\<lparr>mv_staged := st\<rparr>) = mv_objects v" "mv_buckets (?v\<lparr>mv_staged := st\<rparr>) = mv_buckets v" for st
    by (simp_all add: put_retained_def spec_CreateBlobRef_def spec_IncreaseBlobRef_def spec_update_ref_def split: option.split)
  have st: "trim_space WriteIntentStageBlobRetained \<noteq> []" by code_simp
  show ?thesis
  proof (rule mid_retain [OF assms(1) h assms(7)], rule mid_update [where clk = clk and v = ?v], goal_cases)
    case (4 s0 mut s1 y)
    let ?y = "y\<lparr>om_state := ObjectStatePending\<rparr>"
    have y: "meta_key ?y = object_key b k" "clean_meta ?y" "om_hash ?y = om_hash x" "writeIntentStage ?y = WriteIntentStageBlobRetained"
      using 4(3-7) assms(9,10) st by (auto simp: meta_key_def clean_meta_def writeIntentStage_def)
    note c = staged_counts [OF assms(2) _ y(2,3,4), of ?v blob, unfolded y(1), OF assms(3)]
    have "pending_counted (?v\<lparr>mv_staged := fmupd (meta_key x) ?y (mv_staged ?v)\<rparr>)"
      unfolding fr(3) key by (rule c) (simp only: same)
    from Q [OF 4(8) this fr2] show ?case .
  qed (use assms(6,8,9) key fr in \<open>simp_all\<close>)
qed

lemma mid_chain:
  assumes "mid clk (object_key b k) v s" "pending_counted v" "fmlookup (mv_staged v) (object_key b k) = None"
    and "clean_bucket b" "clean_name k" "b |\<in>| mv_buckets v" "clean_meta x" "om_bucket x = b" "om_key x = k"
    and same: "same = (map_option om_hash (fmlookup (mv_objects v) (object_key b k)) = Some (om_hash x))"
    and y: "om_hash x = h" and Q: "\<And>s info mut y v'. at_exactly clk v' s \<Longrightarrow> pending_counted v' \<Longrightarrow> mv_objects v' = mv_objects v \<Longrightarrow> mv_buckets v' = mv_buckets v \<Longrightarrow>
      Q info mut y s"
  shows "wp (or_fail (updatePendingWriteIntent M x WriteIntentStageBlobPrepared) f1) (\<lambda>x.
    wp (linkPutLayout X b k ct blob created) (\<lambda>info.
    wp (or_fail (updatePendingWriteIntent M x WriteIntentStageLayoutLinked) f2) (\<lambda>x.
    wp (or_fail (retainBlob M h blob (fmlookup (mv_refs v) h \<noteq> None) same) f3) (\<lambda>mut.
    wp (or_fail (updatePendingWriteIntent M x WriteIntentStageBlobRetained) (f4 mut)) (Q info mut) (\<lambda>_ _. True)) (\<lambda>_ _. True)) (\<lambda>_ _. True)) (\<lambda>_ _. True)) (\<lambda>_ _. True) s"
proof (rule wp_or_fail, rule mid_update [where clk = clk and v = v], goal_cases)
  case (4 s1 x1)
  have k1: "meta_key x = object_key b k" using assms(8,9) by (simp add: meta_key_def)
  show ?case
  proof (rule mid_link [OF 4(1)], rule wp_or_fail, rule mid_update [where clk = clk and v = v], goal_cases)
    case (4 s2 info s3 x2)
    note x1 = \<open>om_bucket x1 = om_bucket x\<close> \<open>om_key x1 = om_key x\<close> \<open>om_hash x1 = om_hash x\<close>
    have x2: "om_bucket x2 = b" "om_key x2 = k" "om_hash x2 = h" "clean_meta x2" using 4 x1 assms(8,9) y by simp_all
    have m: "mid clk (object_key b k) v s3" using 4(3) x1(1,2) assms(8,9) by (simp add: meta_key_def)
    have same2: "same = (map_option om_hash (fmlookup (mv_objects v) (object_key b k)) = Some (om_hash x2))" using same x2(3) y by simp
    note w = mid_finish [OF m assms(2-6) 4(2) x2(4,1,2) same2, of "\<lambda>mut y. Q info mut y"]
    show ?case
      by (rule wp_or_fail, rule wp_mono [OF w [unfolded x2(3)]]) (auto intro: Q wp_or_fail)
  qed (use 4 assms(6,8,9) in \<open>simp_all add: meta_key_def\<close>)
qed (use assms in \<open>simp_all add: meta_key_def\<close>)

lemma put_prepare_exact:
  assumes "at_exactly clk v s" "pending_counted v" "fmlookup (mv_staged v) (object_key b k) = None" "hash_clean X" "clean_bucket b" "clean_name k"
  shows "wp (put_prepare X M b k (Inr data) opts)
    (\<lambda>_ s'. \<exists>v'. at_exactly clk v' s' \<and> pending_counted v' \<and> mv_objects v' = mv_objects v \<and> mv_buckets v' = mv_buckets v) (\<lambda>_ _. True) s"
proof -
  let ?st = "newStagedObject X data" and ?i = "object_key b k"
  have loc: "normalizeObjectLocation b k = Inr (b, k)"
    using assms(5,6) by (simp add: normalizeObjectLocation_def clean_bucket_def clean_name_def)
  have h: "clean_name (so_hash ?st)" using assms(4) by (simp add: newStagedObject_def hash_clean_def clean_name_def)
  have objs: "fmpred (\<lambda>_ x. clean_meta x) (mv_objects v)" using assms(2) by (simp add: pending_counted_def balanced_def)
  show ?thesis
    unfolding put_prepare_def wp_simps loc sum.case prod.case stageObject_def Let_def
  proof (rule mid_bucket [OF midway_start [OF assms(1), of ?i] assms(5)],
      rule mid_load [OF _ assms(5,6) objs, where h = "so_hash ?st"], assumption,
      rule mid_stage_meta [OF _ assms(5,6) h], assumption, assumption,
      rule mid_prepare [OF _ h], assumption, goal_cases)
    case (1 s1 s2 ex s3 x s4 blob)
    have hx: "om_hash x = so_hash ?st" using 1 by simp
    have same: "(ex_exists ex \<and> om_hash (ex_meta ex) = om_hash x) = (map_option om_hash (fmlookup (mv_objects v) ?i) = Some (om_hash x))"
      using 1(4) hx by simp
    show ?case
      unfolding prod.case wp_simps hx [symmetric]
      by (rule mid_chain [OF 1(10) assms(2,3,5,6) 1(2,6-8) same refl]) blast
  qed
qed

text \<open>Recovery, in any later process, undoes the write: what was committed is as before and the counts are exact.\<close>

lemma interrupted_then_recovered:
  assumes "ok (st_meta s)" "quiet (st_meta s)" "refs_ok (view (st_meta s))" "mv_staged (view (st_meta s)) = fmempty"
    and names: "hash_clean X" "clean_bucket b" "clean_name k"
    and stop: "put_prepare X M b k (Inr data) opts s = (s1, Inr p)"
    and restart: "st_meta s2 = st_meta s1" "0 < ro_PendingTTL ropts"
      "\<And>x t. x \<in> set (fm_values (mv_staged (view (st_meta s2)))) \<Longrightarrow> isExpiredPendingObject x (st_clock s2 t - ro_PendingTTL ropts)"
    and recover: "Recover X M ropts s2 = (s3, Inr (result, None))"
  shows "mv_objects (view (st_meta s3)) = mv_objects (view (st_meta s))" "mv_buckets (view (st_meta s3)) = mv_buckets (view (st_meta s))"
    "mv_staged (view (st_meta s3)) = fmempty" "refs_ok (view (st_meta s3))"
proof -
  let ?v = "view (st_meta s)" and ?v2 = "view (st_meta s2)"
  have s: "at_exactly (st_clock s) ?v s" using assms(1,2) by (simp add: exactly_def)
  have c: "pending_counted ?v" using assms(3,4) by (simp add: pending_counted_def refs_ok_def counting_def)
  obtain v1 where v1: "at_exactly (st_clock s) v1 s1" "pending_counted v1" "mv_objects v1 = mv_objects ?v" "mv_buckets v1 = mv_buckets ?v"
    using wpD(1) [OF put_prepare_exact [OF s c _ names] stop] assms(4) by auto
  then have v2: "at_exactly (st_clock s2) v1 s2" "v1 = ?v2" using restart(1) by (simp_all add: exactly_def)
  obtain v3 t where v3: "at_exactly (st_clock s2) v3 s3"
    "settled v1 (st_clock s2 t - ro_PendingTTL ropts) (fm_values (mv_staged v1)) v3 None"
    using wpD(1) [OF Recover_exact [OF v2(1) v1(2) restart(2)] recover] by auto
  have "v3 = view (st_meta s3)" using v3(1) by (simp add: exactly_def)
  note st = v3(2) [unfolded this settled_def]
  show "mv_objects (view (st_meta s3)) = mv_objects ?v" "mv_buckets (view (st_meta s3)) = mv_buckets ?v" using st v1(3,4) by simp_all
  have keys: "meta_key x = i" if "fmlookup (mv_staged v1) i = Some x" for i x
    using v1(2) that by (auto simp: pending_counted_def fmpred_iff)
  have "fmlookup (mv_staged (view (st_meta s3))) i = None" for i
  proof (cases "fmlookup (mv_staged v1) i")
    case None
    then show ?thesis using st by simp
  next
    case (Some x)
    then have "x \<in> set (fm_values (mv_staged v1))" by (auto simp: fm_values_iff)
    then show ?thesis using st restart(3) keys [OF Some] v2(2) by auto
  qed
  then show none: "mv_staged (view (st_meta s3)) = fmempty" by (intro fmap_ext) simp
  show "refs_ok (view (st_meta s3))" using pending_counted_none [OF _ none] st by simp
qed

end

end
