(* ===== verification/Store_Dedupe.thy ===== *)
theory Store_Dedupe
  imports Recovery_Safety
begin

text \<open>
  Reconciliation of the metadata with itself (\<open>dedupe.go\<close>, \<open>dedupe_collect.go\<close>, \<open>dedupe_refs.go\<close>, \<open>dedupe_layout.go\<close>,
  \<open>dedupe_types.go\<close> under \<open>internal/store\<close>): missing references are created, counts are brought to the number
  of committed objects that use a blob, orphan blobs are removed and layouts are pointed at the shards the reference
  names. Every step reports into a result that is returned beside an error, so a step is an action with value
  \<open>(result, error)\<close>.

  The loop that releases an orphan reference until the service says it is gone does not end for every service: it
  has fuel, and running out of it is the error of the action itself, which no other step has. A \<open>nil\<close> and an empty
  slice, which \<open>reflect.DeepEqual\<close> tells apart, are the same list here.
\<close>

section \<open>Options, results and issues\<close>

abbreviation DedupeIssueRefCountDrift :: string where "DedupeIssueRefCountDrift \<equiv> ''ref_count_drift''"
abbreviation DedupeIssueOrphanBlobRef :: string where "DedupeIssueOrphanBlobRef \<equiv> ''orphan_blob_ref''"
abbreviation DedupeIssueMissingBlobRef :: string where "DedupeIssueMissingBlobRef \<equiv> ''missing_blob_ref''"
abbreviation DedupeIssueLayoutMismatch :: string where "DedupeIssueLayoutMismatch \<equiv> ''layout_mismatch''"
abbreviation DedupeIssueLayoutReadFailed :: string where "DedupeIssueLayoutReadFailed \<equiv> ''layout_read_failed''"

definition maxDedupeIssues :: nat where
  "maxDedupeIssues = 50"

record DedupeOptions =
  dop_DryRun :: bool
  dop_MaxFixes :: int

record DedupeIssue =
  di_Kind :: string
  di_Hash :: string
  di_Bucket :: string
  di_Key :: string
  di_Reason :: "store_error option"
  di_ExpectedRefCount :: int
  di_ActualRefCount :: int
  di_Path :: string
  di_CanonicalPath :: string
  di_Size :: int

definition no_issue :: DedupeIssue where
  "no_issue = \<lparr>di_Kind = [], di_Hash = [], di_Bucket = [], di_Key = [], di_Reason = None, di_ExpectedRefCount = 0,
     di_ActualRefCount = 0, di_Path = [], di_CanonicalPath = [], di_Size = 0\<rparr>"

record DedupeResult =
  dr_GeneratedAt :: time
  dr_DryRun :: bool
  dr_Buckets :: int
  dr_Objects :: int
  dr_BlobRefs :: int
  dr_Hashes :: int
  dr_Fixes :: int
  dr_RefCountDrift :: int
  dr_RefCountIncreased :: int
  dr_RefCountDecreased :: int
  dr_MissingBlobRefs :: int
  dr_MissingBlobRefsFixed :: int
  dr_OrphanBlobRefs :: int
  dr_OrphanBlobRefsRemoved :: int
  dr_LayoutsMismatched :: int
  dr_LayoutsCanonicalized :: int
  dr_BytesReclaimable :: int
  dr_BytesReclaimed :: int
  dr_Limited :: bool
  dr_Issues :: "DedupeIssue list"

definition newDedupeResult :: "DedupeOptions \<Rightarrow> time \<Rightarrow> DedupeResult" where
  "newDedupeResult opts now = \<lparr>dr_GeneratedAt = now, dr_DryRun = dop_DryRun opts, dr_Buckets = 0, dr_Objects = 0,
     dr_BlobRefs = 0, dr_Hashes = 0, dr_Fixes = 0, dr_RefCountDrift = 0, dr_RefCountIncreased = 0, dr_RefCountDecreased = 0,
     dr_MissingBlobRefs = 0, dr_MissingBlobRefsFixed = 0, dr_OrphanBlobRefs = 0, dr_OrphanBlobRefsRemoved = 0,
     dr_LayoutsMismatched = 0, dr_LayoutsCanonicalized = 0, dr_BytesReclaimable = 0, dr_BytesReclaimed = 0,
     dr_Limited = False, dr_Issues = []\<rparr>"

definition addIssue :: "DedupeIssue \<Rightarrow> DedupeResult \<Rightarrow> DedupeResult" where
  "addIssue issue result =
     (if maxDedupeIssues \<le> length (dr_Issues result) then result
      else result\<lparr>dr_Issues := dr_Issues result @ [issue]\<rparr>)"

definition reachedLimit :: "DedupeOptions \<Rightarrow> DedupeResult \<Rightarrow> DedupeResult \<times> bool" where
  "reachedLimit opts result =
     (if dop_MaxFixes opts \<le> 0 \<or> dr_Fixes result < dop_MaxFixes opts then (result, False)
      else (result\<lparr>dr_Limited := True\<rparr>, True))"

text \<open>An object with the information the engine has on it, or the error of asking.\<close>

record dedupeObject =
  dob_meta :: ObjectMeta
  dob_info :: "ObjectInfo option"
  dob_err :: "store_error option"

record dedupeHashStat =
  hs_count :: int
  hs_size :: int
  hs_first :: dedupeObject

definition zero_stat :: dedupeHashStat where
  "zero_stat = \<lparr>hs_count = 0, hs_size = 0, hs_first = \<lparr>dob_meta = zero_ObjectMeta, dob_info = None, dob_err = None\<rparr>\<rparr>"

type_synonym stats = "(string, dedupeHashStat) fmap"

section \<open>Steps that report beside an error\<close>

text \<open>A call whose error ends the step with the report so far.\<close>

definition call_or :: "('m, 'a) action \<Rightarrow> 'b \<Rightarrow> ('a \<Rightarrow> ('m, 'b \<times> store_error option) action) \<Rightarrow> ('m, 'b \<times> store_error option) action" where
  "call_or f result g = andThen (attempt f) (\<lambda>r. case r of Inl err \<Rightarrow> ret (result, Some err) | Inr x \<Rightarrow> g x)"

lemma wp_call_or [wp_simps]: "wp (call_or f result g) Q E = wp f (\<lambda>x. wp (g x) Q E) (\<lambda>err. Q (result, Some err))"
  by (simp add: call_or_def wp_andThen wp_attempt wp_ret)

section \<open>Collecting objects\<close>

definition loadDedupeObject :: "Externals \<Rightarrow> ObjectMeta \<Rightarrow> ('m, dedupeObject) action" where
  "loadDedupeObject X meta =
     andThen (attempt (on_engine (\<lambda>now e. StatObject X e now (om_bucket meta) (om_key meta)))) (\<lambda>r.
       ret (case r of Inl err \<Rightarrow> \<lparr>dob_meta = meta, dob_info = None, dob_err = Some err\<rparr>
            | Inr info \<Rightarrow> \<lparr>dob_meta = meta, dob_info = Some info, dob_err = None\<rparr>))"

definition recordDedupeLayoutReadError :: "dedupeObject \<Rightarrow> DedupeResult \<Rightarrow> DedupeResult" where
  "recordDedupeLayoutReadError object result =
     (case dob_err object of
        None \<Rightarrow> result
      | Some err \<Rightarrow> addIssue (no_issue\<lparr>di_Kind := DedupeIssueLayoutReadFailed, di_Bucket := om_bucket (dob_meta object),
          di_Key := om_key (dob_meta object), di_Hash := om_hash (dob_meta object), di_Reason := Some err\<rparr>) result)"

definition stat_of :: "stats \<Rightarrow> string \<Rightarrow> dedupeHashStat" where
  "stat_of stats hash = (case fmlookup stats hash of None \<Rightarrow> zero_stat | Some stat \<Rightarrow> stat)"

definition recordDedupeHashStat :: "dedupeObject \<Rightarrow> stats \<Rightarrow> stats" where
  "recordDedupeHashStat object stats =
     (let hash = trim_space (om_hash (dob_meta object)) in
      if hash = [] then stats
      else let stat = stat_of stats hash;
               stat = stat\<lparr>hs_count := hs_count stat + 1, hs_size := om_size (dob_meta object)\<rparr>;
               stat = (if om_bucket (dob_meta (hs_first stat)) = [] then stat\<lparr>hs_first := object\<rparr> else stat)
           in fmupd hash stat stats)"

fun collect_items :: "Externals \<Rightarrow> ObjectMeta list \<Rightarrow> dedupeObject list \<times> stats \<times> DedupeResult \<Rightarrow>
    ('m, dedupeObject list \<times> stats \<times> DedupeResult) action" where
  "collect_items X [] acc = ret acc"
| "collect_items X (item # items) (objects, stats, result) =
     andThen (loadDedupeObject X item) (\<lambda>object.
       collect_items X items (objects @ [object], recordDedupeHashStat object stats,
         recordDedupeLayoutReadError object (result\<lparr>dr_Objects := dr_Objects result + 1\<rparr>)))"

definition collectBucketDedupeObjects :: "Externals \<Rightarrow> 'm MetadataStore \<Rightarrow> string \<Rightarrow> dedupeObject list \<times> stats \<times> DedupeResult \<Rightarrow>
    ('m, (dedupeObject list \<times> stats \<times> DedupeResult) \<times> store_error option) action" where
  "collectBucketDedupeObjects X M bucket acc =
     call_or (wrapErr mapStoreError (on_meta (\<lambda>m. ListObjectMetas M m bucket []))) acc (\<lambda>items.
       andThen (collect_items X items acc) (\<lambda>acc. ret (acc, None)))"

fun collect_buckets :: "Externals \<Rightarrow> 'm MetadataStore \<Rightarrow> Bucket list \<Rightarrow> dedupeObject list \<times> stats \<times> DedupeResult \<Rightarrow>
    ('m, (dedupeObject list \<times> stats \<times> DedupeResult) \<times> store_error option) action" where
  "collect_buckets X M [] acc = ret (acc, None)"
| "collect_buckets X M (bucket # buckets) acc =
     andThen (collectBucketDedupeObjects X M (bkt_name bucket) acc) (\<lambda>(acc, err).
       if err \<noteq> None then ret (acc, err) else collect_buckets X M buckets acc)"

definition collectDedupeObjects :: "Externals \<Rightarrow> 'm MetadataStore \<Rightarrow> DedupeResult \<Rightarrow>
    ('m, (dedupeObject list \<times> stats \<times> DedupeResult) \<times> store_error option) action" where
  "collectDedupeObjects X M result =
     andThen time_now (\<lambda>now.
     call_or (wrapErr mapStoreError (on_meta (\<lambda>m. ListBuckets M m now))) ([], fmempty, result) (\<lambda>buckets.
       andThen (collect_buckets X M buckets ([], fmempty, result\<lparr>dr_Buckets := int (length buckets)\<rparr>)) (\<lambda>((objects, stats, result), err).
         if err \<noteq> None then ret (([], fmempty, result), err)
         else ret ((objects, stats, result\<lparr>dr_Hashes := int (length (fm_keys stats))\<rparr>), None))))"

section \<open>References\<close>

definition dedupeRefMap :: "BlobRef list \<Rightarrow> (string, BlobRef) fmap" where
  "dedupeRefMap refs = fold (\<lambda>ref m. fmupd (ref_hash ref) ref m) refs fmempty"

definition plan_missing :: "string \<Rightarrow> dedupeHashStat \<Rightarrow> (string, BlobRef) fmap \<Rightarrow> DedupeResult \<Rightarrow> DedupeResult" where
  "plan_missing hash stat refs result =
     (if fmlookup refs hash \<noteq> None then result
      else addIssue (no_issue\<lparr>di_Kind := DedupeIssueMissingBlobRef, di_Hash := hash,
          di_Bucket := om_bucket (dob_meta (hs_first stat)), di_Key := om_key (dob_meta (hs_first stat)),
          di_ExpectedRefCount := hs_count stat, di_Size := hs_size stat\<rparr>)
        (result\<lparr>dr_MissingBlobRefs := dr_MissingBlobRefs result + 1\<rparr>))"

definition planMissingBlobRefs :: "stats \<Rightarrow> (string, BlobRef) fmap \<Rightarrow> DedupeResult \<Rightarrow> DedupeResult" where
  "planMissingBlobRefs stats refs result = fold (\<lambda>(hash, stat). plan_missing hash stat refs) (fm_entries stats) result"

fun increaseBlobRef :: "'m MetadataStore \<Rightarrow> DedupeOptions \<Rightarrow> string \<Rightarrow> nat \<Rightarrow> DedupeResult \<Rightarrow>
    ('m, DedupeResult \<times> store_error option) action" where
  "increaseBlobRef M opts hash 0 result = ret (result, None)"
| "increaseBlobRef M opts hash (Suc delta) result =
     (case reachedLimit opts result of
        (result, True) \<Rightarrow> ret (result, None)
      | (result, False) \<Rightarrow>
          call_or (wrapErr mapStoreError (on_meta (\<lambda>m. IncreaseBlobRef M m hash))) result (\<lambda>_.
            increaseBlobRef M opts hash delta
              (result\<lparr>dr_RefCountIncreased := dr_RefCountIncreased result + 1, dr_Fixes := dr_Fixes result + 1\<rparr>)))"

definition fixMissingBlobRef :: "'m MetadataStore \<Rightarrow> DedupeOptions \<Rightarrow> string \<Rightarrow> dedupeHashStat \<Rightarrow>
    (string, BlobRef) fmap \<times> DedupeResult \<Rightarrow> ('m, ((string, BlobRef) fmap \<times> DedupeResult) \<times> store_error option) action" where
  "fixMissingBlobRef M opts hash stat acc =
     (case acc of (refs, result) \<Rightarrow>
      if fmlookup refs hash \<noteq> None \<or> dop_DryRun opts then ret (acc, None)
      else case dob_info (hs_first stat) of
        None \<Rightarrow> ret (acc, None)
      | Some info \<Rightarrow>
          (case reachedLimit opts result of
             (result, True) \<Rightarrow> ret ((refs, result), None)
           | (result, False) \<Rightarrow>
               call_or (wrapErr mapStoreError (on_meta (\<lambda>m. CreateBlobRef M m hash (oi_ShardDir info) (oi_Size info)
                   (oi_Placements info) (oi_Checksums info) (oi_Sizes info)))) (refs, result) (\<lambda>_.
                 let refs = fmupd hash \<lparr>ref_hash = hash, ref_path = oi_ShardDir info, ref_placements = oi_Placements info,
                       ref_checksums = oi_Checksums info, ref_sizes = oi_Sizes info, ref_count = 1, ref_size = oi_Size info\<rparr> refs
                 in andThen (increaseBlobRef M opts hash (nat (hs_count stat - 1))
                      (result\<lparr>dr_MissingBlobRefsFixed := dr_MissingBlobRefsFixed result + 1, dr_Fixes := dr_Fixes result + 1\<rparr>))
                      (\<lambda>(result, err). ret ((refs, result), err)))))"

fun fix_missing :: "'m MetadataStore \<Rightarrow> DedupeOptions \<Rightarrow> (string \<times> dedupeHashStat) list \<Rightarrow> (string, BlobRef) fmap \<times> DedupeResult \<Rightarrow>
    ('m, ((string, BlobRef) fmap \<times> DedupeResult) \<times> store_error option) action" where
  "fix_missing M opts [] acc = ret (acc, None)"
| "fix_missing M opts ((hash, stat) # entries) acc =
     andThen (fixMissingBlobRef M opts hash stat acc) (\<lambda>(acc, err).
       if err \<noteq> None then ret (acc, err) else fix_missing M opts entries acc)"

definition fixMissingBlobRefs :: "'m MetadataStore \<Rightarrow> DedupeOptions \<Rightarrow> stats \<Rightarrow> (string, BlobRef) fmap \<times> DedupeResult \<Rightarrow>
    ('m, ((string, BlobRef) fmap \<times> DedupeResult) \<times> store_error option) action" where
  "fixMissingBlobRefs M opts stats acc = fix_missing M opts (fm_entries stats) acc"

definition refCountIssueKind :: "int \<Rightarrow> string" where
  "refCountIssueKind expected = (if expected = 0 then DedupeIssueOrphanBlobRef else DedupeIssueRefCountDrift)"

definition recordRefCountDrift :: "BlobRef \<Rightarrow> int \<Rightarrow> DedupeResult \<Rightarrow> DedupeResult" where
  "recordRefCountDrift ref expected result =
     addIssue (no_issue\<lparr>di_Kind := refCountIssueKind expected, di_Hash := ref_hash ref, di_ExpectedRefCount := expected,
         di_ActualRefCount := ref_count ref, di_Path := ref_path ref, di_Size := ref_size ref\<rparr>)
       (result\<lparr>dr_RefCountDrift := dr_RefCountDrift result + 1\<rparr>)"

definition count_orphan :: "BlobRef \<Rightarrow> DedupeResult \<Rightarrow> DedupeResult" where
  "count_orphan ref result = result\<lparr>dr_OrphanBlobRefs := dr_OrphanBlobRefs result + 1,
     dr_BytesReclaimable := dr_BytesReclaimable result + ref_size ref\<rparr>"

definition recordDryRunOrphan :: "BlobRef \<Rightarrow> int \<Rightarrow> DedupeResult \<Rightarrow> DedupeResult" where
  "recordDryRunOrphan ref expected result = (if expected \<noteq> 0 then result else count_orphan ref result)"

fun decrease_by :: "'m MetadataStore \<Rightarrow> DedupeOptions \<Rightarrow> string \<Rightarrow> nat \<Rightarrow> DedupeResult \<Rightarrow>
    ('m, DedupeResult \<times> store_error option) action" where
  "decrease_by M opts hash 0 result = ret (result, None)"
| "decrease_by M opts hash (Suc delta) result =
     (case reachedLimit opts result of
        (result, True) \<Rightarrow> ret (result, None)
      | (result, False) \<Rightarrow>
          call_or (wrapErr mapStoreError (on_meta (\<lambda>m. DecreaseBlobRef M m hash))) result (\<lambda>_.
            decrease_by M opts hash delta
              (result\<lparr>dr_RefCountDecreased := dr_RefCountDecreased result + 1, dr_Fixes := dr_Fixes result + 1\<rparr>)))"

definition decreaseBlobRefToExpected :: "'m MetadataStore \<Rightarrow> DedupeOptions \<Rightarrow> BlobRef \<Rightarrow> int \<Rightarrow> DedupeResult \<Rightarrow>
    ('m, DedupeResult \<times> store_error option) action" where
  "decreaseBlobRefToExpected M opts ref expected result =
     decrease_by M opts (ref_hash ref) (nat (ref_count ref - expected)) result"

definition deleteRemovedOrphanBlob :: "string \<Rightarrow> BlobRef \<Rightarrow> DedupeResult \<Rightarrow> ('m, DedupeResult \<times> store_error option) action" where
  "deleteRemovedOrphanBlob path ref result =
     call_or (wrapErr mapStoreError (on_engine_err (\<lambda>e. DeleteBlob e path (ref_hash ref)))) result (\<lambda>_.
       ret (result\<lparr>dr_OrphanBlobRefsRemoved := dr_OrphanBlobRefsRemoved result + 1,
              dr_BytesReclaimed := dr_BytesReclaimed result + ref_size ref\<rparr>, None))"

definition out_of_fuel :: store_error where
  "out_of_fuel = ErrText ''out of fuel''"

fun removeOrphanBlobRef :: "nat \<Rightarrow> 'm MetadataStore \<Rightarrow> DedupeOptions \<Rightarrow> BlobRef \<Rightarrow> DedupeResult \<Rightarrow>
    ('m, DedupeResult \<times> store_error option) action" where
  "removeOrphanBlobRef 0 M opts ref result = throw out_of_fuel"
| "removeOrphanBlobRef (Suc fuel) M opts ref result =
     (case reachedLimit opts result of
        (result, True) \<Rightarrow> ret (result, None)
      | (result, False) \<Rightarrow>
          call_or (wrapErr mapStoreError (on_meta (\<lambda>m. DecreaseBlobRef M m (ref_hash ref)))) result (\<lambda>(path, removed).
            let result = result\<lparr>dr_RefCountDecreased := dr_RefCountDecreased result + 1, dr_Fixes := dr_Fixes result + 1\<rparr>
            in if removed then deleteRemovedOrphanBlob path ref result
               else removeOrphanBlobRef fuel M opts ref result))"

definition fixBlobRefCount :: "nat \<Rightarrow> 'm MetadataStore \<Rightarrow> DedupeOptions \<Rightarrow> BlobRef \<Rightarrow> int \<Rightarrow> DedupeResult \<Rightarrow>
    ('m, DedupeResult \<times> store_error option) action" where
  "fixBlobRefCount fuel M opts ref expected result =
     (if expected = 0 then removeOrphanBlobRef fuel M opts ref (count_orphan ref result)
      else if ref_count ref < expected then increaseBlobRef M opts (ref_hash ref) (nat (expected - ref_count ref)) result
      else decreaseBlobRefToExpected M opts ref expected result)"

fun fixExistingBlobRefs :: "nat \<Rightarrow> 'm MetadataStore \<Rightarrow> DedupeOptions \<Rightarrow> stats \<Rightarrow> BlobRef list \<Rightarrow> DedupeResult \<Rightarrow>
    ('m, DedupeResult \<times> store_error option) action" where
  "fixExistingBlobRefs fuel M opts stats [] result = ret (result, None)"
| "fixExistingBlobRefs fuel M opts stats (ref # refs) result =
     (let expected = hs_count (stat_of stats (ref_hash ref)) in
      if expected = ref_count ref then fixExistingBlobRefs fuel M opts stats refs result
      else let result = recordRefCountDrift ref expected result in
        if dop_DryRun opts then fixExistingBlobRefs fuel M opts stats refs (recordDryRunOrphan ref expected result)
        else andThen (fixBlobRefCount fuel M opts ref expected result) (\<lambda>(result, err).
          if err \<noteq> None then ret (result, err) else fixExistingBlobRefs fuel M opts stats refs result))"

section \<open>Layouts\<close>

definition dedupeLayoutMismatch :: "ObjectInfo \<Rightarrow> BlobRef \<Rightarrow> bool" where
  "dedupeLayoutMismatch info ref \<longleftrightarrow> oi_ShardDir info \<noteq> ref_path ref \<or> oi_Placements info \<noteq> ref_placements ref \<or>
     oi_Checksums info \<noteq> ref_checksums ref \<or> oi_Sizes info \<noteq> ref_sizes ref"

definition recordDedupeLayoutMismatch :: "dedupeObject \<Rightarrow> ObjectInfo \<Rightarrow> BlobRef \<Rightarrow> DedupeResult \<Rightarrow> DedupeResult" where
  "recordDedupeLayoutMismatch object info ref result =
     addIssue (no_issue\<lparr>di_Kind := DedupeIssueLayoutMismatch, di_Hash := om_hash (dob_meta object),
         di_Bucket := om_bucket (dob_meta object), di_Key := om_key (dob_meta object), di_Path := oi_ShardDir info,
         di_CanonicalPath := ref_path ref, di_Size := om_size (dob_meta object)\<rparr>)
       (result\<lparr>dr_LayoutsMismatched := dr_LayoutsMismatched result + 1\<rparr>)"

definition canonicalizeDedupeLayout :: "Externals \<Rightarrow> 'm MetadataStore \<Rightarrow> ObjectMeta \<Rightarrow> BlobRef \<Rightarrow> ('m, unit) action" where
  "canonicalizeDedupeLayout X M meta ref =
     andThen (wrapErr mapStoreError (on_engine (\<lambda>now e. LinkObject X e now (om_bucket meta) (om_key meta)
         (blob_of_ref (ref_hash ref) (ETagFromHash (ref_hash ref)) ref) (om_content_type meta) (om_updated meta)))) (\<lambda>info.
       wrapErr mapStoreError (on_meta (\<lambda>m. UpsertObjectMeta M m
         (meta\<lparr>om_hash := oi_Hash info, om_etag := oi_ETag info, om_size := oi_Size info, om_state := ObjectStateCommitted,
            om_placements := oi_Placements info, om_checksums := oi_Checksums info, om_sizes := oi_Sizes info\<rparr>))))"

fun canonicalizeDedupeLayouts :: "Externals \<Rightarrow> 'm MetadataStore \<Rightarrow> DedupeOptions \<Rightarrow> dedupeObject list \<Rightarrow> (string, BlobRef) fmap \<Rightarrow>
    DedupeResult \<Rightarrow> ('m, DedupeResult \<times> store_error option) action" where
  "canonicalizeDedupeLayouts X M opts [] refs result = ret (result, None)"
| "canonicalizeDedupeLayouts X M opts (object # objects) refs result =
     (case (fmlookup refs (om_hash (dob_meta object)), dob_info object) of
        (Some ref, Some info) \<Rightarrow>
          if \<not> dedupeLayoutMismatch info ref then canonicalizeDedupeLayouts X M opts objects refs result
          else let result = recordDedupeLayoutMismatch object info ref result in
            if dop_DryRun opts then canonicalizeDedupeLayouts X M opts objects refs result
            else (case reachedLimit opts result of
                (result, True) \<Rightarrow> canonicalizeDedupeLayouts X M opts objects refs result
              | (result, False) \<Rightarrow>
                  call_or (canonicalizeDedupeLayout X M (dob_meta object) ref) result (\<lambda>_.
                    canonicalizeDedupeLayouts X M opts objects refs
                      (result\<lparr>dr_LayoutsCanonicalized := dr_LayoutsCanonicalized result + 1, dr_Fixes := dr_Fixes result + 1\<rparr>)))
      | _ \<Rightarrow> canonicalizeDedupeLayouts X M opts objects refs result)"

section \<open>The whole run\<close>

text \<open>What follows once the objects and the references are listed.\<close>

definition reconcile :: "nat \<Rightarrow> Externals \<Rightarrow> 'm MetadataStore \<Rightarrow> DedupeOptions \<Rightarrow> dedupeObject list \<Rightarrow> stats \<Rightarrow> BlobRef list \<Rightarrow>
    DedupeResult \<Rightarrow> ('m, DedupeResult \<times> store_error option) action" where
  "reconcile fuel X M opts objects stats refs result =
     (let result = result\<lparr>dr_BlobRefs := int (length refs)\<rparr>;
          refMap = dedupeRefMap refs;
          result = planMissingBlobRefs stats refMap result
      in andThen (fixMissingBlobRefs M opts stats (refMap, result)) (\<lambda>((refMap, result), err).
           if err \<noteq> None then ret (result, err)
           else andThen (fixExistingBlobRefs fuel M opts stats refs result) (\<lambda>(result, err).
             if err \<noteq> None then ret (result, err)
             else canonicalizeDedupeLayouts X M opts objects refMap result)))"

definition Dedupe :: "nat \<Rightarrow> Externals \<Rightarrow> 'm MetadataStore \<Rightarrow> DedupeOptions \<Rightarrow> ('m, DedupeResult \<times> store_error option) action" where
  "Dedupe fuel X M opts =
     andThen time_now (\<lambda>now.
     andThen (collectDedupeObjects X M (newDedupeResult opts now)) (\<lambda>((objects, stats, result), err).
       if err \<noteq> None then ret (result, err)
       else call_or (wrapErr mapStoreError (on_meta (\<lambda>m. ListBlobRefs M m))) result (\<lambda>refs.
         reconcile fuel X M opts objects stats refs result)))"

definition PlanDedupe :: "nat \<Rightarrow> Externals \<Rightarrow> 'm MetadataStore \<Rightarrow> ('m, DedupeResult \<times> store_error option) action" where
  "PlanDedupe fuel X M = Dedupe fuel X M \<lparr>dop_DryRun = True, dop_MaxFixes = 0\<rparr>"

end
