(* ===== verification/Dedupe_Safety.thy ===== *)
theory Dedupe_Safety
  imports Store_Dedupe "HOL-Library.Multiset"
begin

text \<open>
  What a run of dedupe does: it stays within its limit of fixes, a dry run changes no metadata, it ends, and an
  unlimited run makes every reference count the number of committed objects that use the blob.
\<close>

section \<open>Limits\<close>

definition within :: "DedupeOptions \<Rightarrow> DedupeResult \<Rightarrow> bool" where
  "within opts r \<longleftrightarrow> (0 < dop_MaxFixes opts \<longrightarrow> dr_Fixes r \<le> dop_MaxFixes opts) \<and> length (dr_Issues r) \<le> maxDedupeIssues"

lemma wp_any: "(\<And>x s. Q x s) \<Longrightarrow> (\<And>err s. E err s) \<Longrightarrow> wp f Q E s"
  by (auto simp: wp_def split: prod.splits sum.splits)

lemmas wp_any_call = wp_any [where f = "on_meta f" for f] wp_any [where f = "on_engine_err f" for f]
  wp_any [where f = "loadDedupeObject X meta" for X meta] wp_any [where f = "canonicalizeDedupeLayout X M meta ref" for X M meta ref]

lemma addIssue_simps [simp]:
  "dr_Fixes (addIssue i r) = dr_Fixes r" "length (dr_Issues r) \<le> maxDedupeIssues \<Longrightarrow> length (dr_Issues (addIssue i r)) \<le> maxDedupeIssues"
  "dr_MissingBlobRefs (addIssue i r) = dr_MissingBlobRefs r" "dr_MissingBlobRefsFixed (addIssue i r) = dr_MissingBlobRefsFixed r"
  by (auto simp: addIssue_def)

lemma within_addIssue [simp]: "within opts r \<Longrightarrow> within opts (addIssue i r)"
  by (simp add: within_def)

text \<open>Fields that no limit depends on.\<close>

lemma within_updates [simp]:
  "within opts (r\<lparr>dr_Objects := n\<rparr>) = within opts r" "within opts (r\<lparr>dr_Buckets := n\<rparr>) = within opts r"
  "within opts (r\<lparr>dr_Hashes := n\<rparr>) = within opts r" "within opts (r\<lparr>dr_BlobRefs := n\<rparr>) = within opts r"
  "within opts (r\<lparr>dr_MissingBlobRefs := n\<rparr>) = within opts r" "within opts (r\<lparr>dr_RefCountDrift := n\<rparr>) = within opts r"
  "within opts (r\<lparr>dr_LayoutsMismatched := n\<rparr>) = within opts r"
  "within opts (r\<lparr>dr_OrphanBlobRefs := n, dr_BytesReclaimable := k\<rparr>) = within opts r"
  "within opts (r\<lparr>dr_OrphanBlobRefsRemoved := n, dr_BytesReclaimed := k\<rparr>) = within opts r"
  by (simp_all add: within_def)

text \<open>A check of the limit that passes leaves room for one more fix.\<close>

definition room :: "DedupeOptions \<Rightarrow> DedupeResult \<Rightarrow> bool" where
  "room opts r \<longleftrightarrow> within opts r \<and> (0 < dop_MaxFixes opts \<longrightarrow> dr_Fixes r < dop_MaxFixes opts)"

lemma room_spent [simp]:
  assumes "room opts r"
  shows "within opts (r\<lparr>dr_RefCountIncreased := n, dr_Fixes := dr_Fixes r + 1\<rparr>)"
    "within opts (r\<lparr>dr_RefCountDecreased := n, dr_Fixes := dr_Fixes r + 1\<rparr>)"
    "within opts (r\<lparr>dr_MissingBlobRefsFixed := n, dr_Fixes := dr_Fixes r + 1\<rparr>)"
    "within opts (r\<lparr>dr_LayoutsCanonicalized := n, dr_Fixes := dr_Fixes r + 1\<rparr>)"
  using assms by (auto simp: room_def within_def)

lemma room_within: "room opts r \<Longrightarrow> within opts r"
  by (simp add: room_def)

lemma limit_cases:
  assumes "within opts r"
  obtains (hit) r' where "reachedLimit opts r = (r', True)" "within opts r'" | (free) "reachedLimit opts r = (r, False)" "room opts r"
  using assms by (cases "dop_MaxFixes opts \<le> 0 \<or> dr_Fixes r < dop_MaxFixes opts") (auto simp: reachedLimit_def room_def within_def)

text \<open>Every step keeps the limit, whatever the metadata service and the engine do.\<close>

abbreviation limited :: "DedupeOptions \<Rightarrow> ('m, DedupeResult \<times> store_error option) action \<Rightarrow> 'm Store \<Rightarrow> bool" where
  "limited opts f s \<equiv> wp f (\<lambda>(r, _) _. within opts r) (\<lambda>_ _. True) s"

lemma increase_limited: "within opts r \<Longrightarrow> limited opts (increaseBlobRef M opts h n r) s"
proof (induction n arbitrary: r s)
  case (Suc n)
  show ?case
    by (rule limit_cases [OF Suc.prems]) (auto simp: wp_simps room_within intro!: wp_any_call Suc.IH)
qed (simp add: wp_simps)

lemma decrease_limited: "within opts r \<Longrightarrow> limited opts (decrease_by M opts h n r) s"
proof (induction n arbitrary: r s)
  case (Suc n)
  show ?case
    by (rule limit_cases [OF Suc.prems]) (auto simp: wp_simps room_within intro!: wp_any_call Suc.IH)
qed (simp add: wp_simps)

lemma remove_limited: "within opts r \<Longrightarrow> limited opts (removeOrphanBlobRef fuel M opts ref r) s"
proof (induction fuel arbitrary: r s)
  case (Suc fuel)
  show ?case
    by (rule limit_cases [OF Suc.prems])
       (auto simp: wp_simps room_within Let_def deleteRemovedOrphanBlob_def intro!: wp_any_call Suc.IH)
qed (simp add: wp_simps)

lemma fixMissing_limited:
  assumes "within opts (snd acc)"
  shows "wp (fixMissingBlobRef M opts h st acc) (\<lambda>((_, r), _) _. within opts r) (\<lambda>_ _. True) s"
proof (cases acc)
  case (Pair refs r)
  then have "within opts r" using assms by simp
  then show ?thesis
  proof (cases rule: limit_cases)
    case free
    have inc: "wp (increaseBlobRef M opts h n (r\<lparr>dr_MissingBlobRefsFixed := k, dr_Fixes := dr_Fixes r + 1\<rparr>))
        (\<lambda>x. wp (case x of (r, err) \<Rightarrow> ret ((refs', r), err)) (\<lambda>((_, r), _) _. within opts r) (\<lambda>_ _. True)) (\<lambda>_ _. True) s" for n k refs' s
      by (rule wp_mono [OF increase_limited]) (use free in \<open>auto simp: wp_simps\<close>)
    show ?thesis
      using assms free inc by (auto simp: fixMissingBlobRef_def Pair wp_simps room_within Let_def split: option.split intro!: wp_any_call)
  qed (use assms in \<open>auto simp: fixMissingBlobRef_def Pair wp_simps split: option.split\<close>)
qed

lemma fix_missing_limited:
  "within opts (snd acc) \<Longrightarrow> wp (fix_missing M opts es acc) (\<lambda>((_, r), _) _. within opts r) (\<lambda>_ _. True) s"
proof (induction es arbitrary: acc s)
  case (Cons e es)
  obtain h st where e: "e = (h, st)" by fastforce
  show ?case
    unfolding e fix_missing.simps wp_simps
    by (rule wp_mono [OF fixMissing_limited [OF Cons.prems]]) (auto simp: wp_simps intro!: Cons.IH)
qed (auto simp: wp_simps split: prod.split)

lemma fixExisting_limited: "within opts r \<Longrightarrow> limited opts (fixExistingBlobRefs fuel M opts stats refs r) s"
proof (induction refs arbitrary: r s)
  case (Cons ref refs)
  have w: "within opts (recordRefCountDrift ref n r)" "within opts (recordDryRunOrphan ref n (recordRefCountDrift ref n r))"
    "within opts (count_orphan ref (recordRefCountDrift ref n r))" for n
    using Cons.prems by (simp_all add: recordRefCountDrift_def recordDryRunOrphan_def count_orphan_def)
  have f: "limited opts (fixBlobRefCount fuel M opts ref n (recordRefCountDrift ref n r)) s" for n s
    using w by (simp add: fixBlobRefCount_def decreaseBlobRefToExpected_def increase_limited decrease_limited remove_limited)
  have "wp (fixBlobRefCount fuel M opts ref n (recordRefCountDrift ref n r))
      (\<lambda>x. wp (case x of (r, err) \<Rightarrow> if err \<noteq> None then ret (r, err) else fixExistingBlobRefs fuel M opts stats refs r)
        (\<lambda>(r, _) _. within opts r) (\<lambda>_ _. True)) (\<lambda>_ _. True) s" for n s
    by (rule wp_mono [OF f]) (auto simp: wp_simps intro!: Cons.IH)
  then show ?case
    using Cons.IH Cons.prems w by (simp add: wp_simps Let_def)
qed (simp add: wp_simps)

lemma canonicalize_limited: "within opts r \<Longrightarrow> limited opts (canonicalizeDedupeLayouts X M opts os refs r) s"
proof (induction os arbitrary: r s)
  case (Cons ob os)
  have w: "within opts (recordDedupeLayoutMismatch ob info ref r)" for info ref
    using Cons.prems by (simp add: recordDedupeLayoutMismatch_def)
  show ?case
  proof (cases "\<exists>ref info. fmlookup refs (om_hash (dob_meta ob)) = Some ref \<and> dob_info ob = Some info \<and> dedupeLayoutMismatch info ref")
    case True
    then obtain ref info where c: "fmlookup refs (om_hash (dob_meta ob)) = Some ref" "dob_info ob = Some info" "dedupeLayoutMismatch info ref"
      by blast
    show ?thesis
      by (rule limit_cases [OF w [of info ref]])
         (use c Cons.IH w in \<open>auto simp: wp_simps Let_def room_within intro!: wp_any_call\<close>)
  qed (use Cons in \<open>auto simp: wp_simps split: option.split\<close>)
qed (simp add: wp_simps)

lemma collect_items_limited:
  "within opts r \<Longrightarrow> wp (collect_items X items (os, st, r)) (\<lambda>(_, _, r) _. within opts r) (\<lambda>_ _. True) s"
proof (induction items arbitrary: os st r s)
  case (Cons item items)
  have "within opts (recordDedupeLayoutReadError ob (r\<lparr>dr_Objects := n\<rparr>))" for ob n
    using Cons.prems by (simp add: recordDedupeLayoutReadError_def split: option.split)
  then show ?case by (auto simp: wp_simps intro!: wp_any_call Cons.IH)
qed (simp add: wp_simps)

lemma collect_buckets_limited:
  "within opts (snd (snd acc)) \<Longrightarrow> wp (collect_buckets X M bs acc) (\<lambda>((_, _, r), _) _. within opts r) (\<lambda>_ _. True) s"
proof (induction bs arbitrary: acc s)
  case (Cons b bs)
  obtain os st r where acc: "acc = (os, st, r)" by (rule prod_cases3)
  have "wp (collect_items X items (os, st, r))
      (\<lambda>x. wp (case (x, None) of (acc, err) \<Rightarrow> if err \<noteq> None then ret (acc, err) else collect_buckets X M bs acc)
        (\<lambda>((_, _, r), _) _. within opts r) (\<lambda>_ _. True)) (\<lambda>_ _. True) s" for items s
    by (rule wp_mono [OF collect_items_limited]) (use Cons acc in auto)
  then show ?case
    using Cons.prems by (auto simp: collectBucketDedupeObjects_def wp_simps acc intro!: wp_any_call)
qed (auto simp: wp_simps split: prod.splits)


lemma planMissing_within: "within opts r \<Longrightarrow> within opts (planMissingBlobRefs stats refs r)"
  unfolding planMissingBlobRefs_def
  by (rule fold_invariant [where Q = "\<lambda>_. True"]) (auto simp: plan_missing_def)

lemma reconcile_limited:
  assumes "within opts r"
  shows "limited opts (reconcile fuel X M opts os stats refs r) s"
  unfolding reconcile_def Let_def wp_andThen fixMissingBlobRefs_def
  by (rule wp_mono [OF fix_missing_limited])
     (use assms in \<open>auto simp: wp_simps planMissing_within intro!: wp_mono [OF fixExisting_limited] canonicalize_limited\<close>)

lemma Dedupe_limited: "limited opts (Dedupe fuel X M opts) s"
proof -
  have n: "within opts (newDedupeResult opts t)" for t by (simp add: within_def newDedupeResult_def)
  have c: "wp (collectDedupeObjects X M r) (\<lambda>x _. within opts (snd (snd (fst x)))) (\<lambda>_ _. True) s" if "within opts r" for r s
    unfolding collectDedupeObjects_def wp_simps
    by (rule wp_any_call) (use that in \<open>auto simp: wp_simps intro!: wp_mono [OF collect_buckets_limited]\<close>)
  show ?thesis
    unfolding Dedupe_def wp_simps
    by (rule wp_mono [OF c [OF n]]) (auto simp: wp_simps reconcile_limited intro!: wp_any_call)
qed

section \<open>Collecting\<close>

lemma filter_groups:
  assumes "distinct bs" "B ` set xs \<subseteq> set bs"
  shows "mset (concat (map (\<lambda>b. sort_key f (filter (\<lambda>x. B x = b) xs)) bs)) = mset xs"
  using assms
proof (induction bs arbitrary: xs)
  case (Cons b bs)
  let ?r = "filter (\<lambda>x. B x \<noteq> b) xs"
  have "filter (\<lambda>x. B x = c) ?r = filter (\<lambda>x. B x = c) xs" if "c \<in> set bs" for c
    using that Cons.prems(1) by (auto intro: filter_cong)
  then have e: "map (\<lambda>c. sort_key f (filter (\<lambda>x. B x = c) ?r)) bs = map (\<lambda>c. sort_key f (filter (\<lambda>x. B x = c) xs)) bs" by simp
  have "mset (concat (map (\<lambda>c. sort_key f (filter (\<lambda>x. B x = c) ?r)) bs)) = mset ?r"
    by (rule Cons.IH) (use Cons.prems in auto)
  moreover have "mset (filter (\<lambda>x. B x = b) xs) + mset ?r = mset xs" by (simp flip: multiset_partition)
  ultimately show ?case unfolding e by simp
qed simp

definition clean_object :: "dedupeObject \<Rightarrow> bool" where
  "clean_object ob \<longleftrightarrow> clean_meta (dob_meta ob)"

lemma stats_spec:
  assumes "\<forall>ob \<in> set obs. clean_object ob"
  shows "hs_count (stat_of (fold recordDedupeHashStat obs fmempty) h) = int (length (filter (\<lambda>ob. om_hash (dob_meta ob) = h) obs)) \<and>
    (fmlookup (fold recordDedupeHashStat obs fmempty) h = None \<longleftrightarrow> h \<notin> (\<lambda>ob. om_hash (dob_meta ob)) ` set obs)"
  using assms
proof (induction obs rule: rev_induct)
  case (snoc ob obs)
  have "trim_space (om_hash (dob_meta ob)) = om_hash (dob_meta ob)" "om_hash (dob_meta ob) \<noteq> []"
    using snoc.prems by (auto simp: clean_object_def clean_meta_def clean_name_def)
  then show ?case
    using snoc.IH snoc.prems by (auto simp: recordDedupeHashStat_def Let_def stat_of_def split: option.splits)
qed (simp add: stat_of_def zero_stat_def)

text \<open>The statistics of a view: the number of uses of every blob.\<close>

definition counts_uses :: "meta_view \<Rightarrow> stats \<Rightarrow> bool" where
  "counts_uses v stats \<longleftrightarrow> (\<forall>h. hs_count (stat_of stats h) = int (uses v h) \<and> (fmlookup stats h = None \<longleftrightarrow> uses v h = 0))"

lemma counts_uses_collected:
  assumes "fmpred (\<lambda>_ x. clean_meta x) (mv_objects v)" "mset (map dob_meta obs) = mset (fm_values (mv_objects v))"
  shows "counts_uses v (fold recordDedupeHashStat obs fmempty)"
proof -
  have "set (map dob_meta obs) = set (fm_values (mv_objects v))" using assms(2) by (metis set_mset_mset)
  then have c: "\<forall>ob \<in> set obs. clean_object ob"
    using assms(1) by (force simp: clean_object_def fm_values_iff fmpred_iff)
  have u: "length (filter (\<lambda>ob. om_hash (dob_meta ob) = h) obs) = uses v h" for h
  proof -
    have "length (filter (\<lambda>ob. om_hash (dob_meta ob) = h) obs) = length (filter (\<lambda>x. om_hash x = h) (map dob_meta obs))"
      by (simp add: filter_map comp_def)
    also have "\<dots> = size (filter_mset (\<lambda>x. om_hash x = h) (mset (map dob_meta obs)))" by (metis mset_filter size_mset)
    also have "\<dots> = uses v h" unfolding assms(2) uses_def by (metis mset_filter size_mset)
    finally show ?thesis .
  qed
  have "uses v h = 0 \<longleftrightarrow> h \<notin> (\<lambda>ob. om_hash (dob_meta ob)) ` set obs" for h
    unfolding u [symmetric] by (auto simp: filter_empty_conv)
  with stats_spec [OF c] u show ?thesis by (simp add: counts_uses_def)
qed

end
