(* ===== verification/Dedupe_Counts.thy ===== *)
theory Dedupe_Counts
  imports Dedupe_Safety
begin

text \<open>
  Dedupe and the reference counts. Over a metadata service that answers, a run ends with every count it touched moved
  toward the number of uses; a blob in use never loses its last reference; without a limit, and with every missing reference
  found again, the counts are exact afterwards.
\<close>

section \<open>Collecting over a service that answers\<close>

definition missing_of :: "DedupeResult \<Rightarrow> int \<times> int" where
  "missing_of r = (dr_MissingBlobRefs r, dr_MissingBlobRefsFixed r)"

lemma missing_of_simps [simp]:
  "missing_of (addIssue i r) = missing_of r" "missing_of (r\<lparr>dr_Objects := n\<rparr>) = missing_of r" "missing_of (r\<lparr>dr_Buckets := n\<rparr>) = missing_of r"
  "missing_of (r\<lparr>dr_Hashes := n\<rparr>) = missing_of r" "missing_of (r\<lparr>dr_BlobRefs := n\<rparr>) = missing_of r"
  "missing_of (r\<lparr>dr_RefCountDrift := n\<rparr>) = missing_of r" "missing_of (r\<lparr>dr_LayoutsMismatched := n\<rparr>) = missing_of r"
  "missing_of (r\<lparr>dr_OrphanBlobRefs := n, dr_BytesReclaimable := k\<rparr>) = missing_of r"
  "missing_of (r\<lparr>dr_OrphanBlobRefsRemoved := n, dr_BytesReclaimed := k\<rparr>) = missing_of r"
  "missing_of (r\<lparr>dr_RefCountIncreased := n, dr_Fixes := k\<rparr>) = missing_of r" "missing_of (r\<lparr>dr_RefCountDecreased := n, dr_Fixes := k\<rparr>) = missing_of r"
  "missing_of (r\<lparr>dr_LayoutsCanonicalized := n, dr_Fixes := k\<rparr>) = missing_of r" "missing_of (fst (reachedLimit opts r)) = missing_of r"
  by (simp_all add: missing_of_def reachedLimit_def)

lemma missing_of_read_error [simp]: "missing_of (recordDedupeLayoutReadError ob r) = missing_of r"
  by (simp add: recordDedupeLayoutReadError_def split: option.split)

definition bucket_items :: "meta_view \<Rightarrow> string \<Rightarrow> ObjectMeta list" where
  "bucket_items v b = sort_key om_key (filter (\<lambda>x. om_bucket x = b) (fm_values (mv_objects v)))"

definition all_items :: "meta_view \<Rightarrow> string list \<Rightarrow> ObjectMeta list" where
  "all_items v names = concat (map (bucket_items v) names)"

lemma all_items_simps [simp]: "all_items v [] = []" "all_items v (b # bs) = bucket_items v b @ all_items v bs"
  by (simp_all add: all_items_def)

context metadata_listing
begin

lemma exact_buckets:
  assumes "at_exactly clk v s" "\<And>s bs. at_exactly clk v s \<Longrightarrow> map bkt_name bs = sorted_list_of_fset (mv_buckets v) \<Longrightarrow> Q bs s"
  shows "wp (on_meta (\<lambda>m. ListBuckets M m now)) Q E s"
proof -
  have p: "ok (st_meta s)" "quiet (st_meta s)" "view (st_meta s) = v" "st_clock s = clk" using assms(1) by (auto simp: exactly_def)
  obtain m r where f: "ListBuckets M (st_meta s) now = (m, r)" by fastforce
  have "refines view ok quiet (st_meta s) (bucket_names (m, r)) (spec_ListBuckets v)" using ListBuckets [OF p(1)] p(3) by (simp add: f flip: f)
  then have n: "ok m" "quiet m" "view m = v" "map_sum id (map bkt_name) r = Inr (sorted_list_of_fset (mv_buckets v))"
    using p(2) by (auto simp: refines_def spec_ListBuckets_def bucket_names_def)
  then obtain bs where "r = Inr bs" "map bkt_name bs = sorted_list_of_fset (mv_buckets v)" by (cases r) auto
  moreover have "at_exactly clk v (s\<lparr>st_meta := m\<rparr>)" using n p(4) by (simp add: exactly_def)
  ultimately show ?thesis using assms(2) by (simp add: wp_on_meta f)
qed

lemma exact_items:
  assumes "at_exactly clk v s" "b |\<in>| mv_buckets v" "\<And>s. at_exactly clk v s \<Longrightarrow> Q (bucket_items v b) s"
  shows "wp (on_meta (\<lambda>m. ListObjectMetas M m b [])) Q E s"
proof -
  have "ok (st_meta s)" "view (st_meta s) = v" using assms(1) by (auto simp: exactly_def)
  then have c: "clean_bucket b" using buckets_clean [of "st_meta s"] assms(2) by auto
  show ?thesis
    by (rule exact_call [OF assms(1), where a = "\<lambda>v. spec_ListObjectMetas v b []"])
       (erule ListObjectMetas [OF _ c], use assms(2,3) in \<open>simp add: spec_ListObjectMetas_def bucket_items_def\<close>)
qed

lemma collect_items_exact:
  assumes "at_exactly clk v s"
  shows "wp (collect_items X items (os, st, r)) (\<lambda>(os', st', r') s'. at_exactly clk v s' \<and> missing_of r' = missing_of r \<and>
      (\<exists>obs. map dob_meta obs = items \<and> os' = os @ obs \<and> st' = fold recordDedupeHashStat obs st)) (\<lambda>_ _. False) s"
  using assms
proof (induction items arbitrary: os st r s)
  case (Cons item items)
  have step: "wp (collect_items X items (os @ [ob], recordDedupeHashStat ob st, r')) (\<lambda>(os', st', r') s'. at_exactly clk v s' \<and>
      missing_of r' = missing_of r \<and> (\<exists>obs. map dob_meta obs = item # items \<and> os' = os @ obs \<and> st' = fold recordDedupeHashStat obs st)) (\<lambda>_ _. False) s"
    if t: "at_exactly clk v s" "dob_meta ob = item" "missing_of r' = missing_of r" for ob r' s
  proof (rule wp_mono [OF Cons.IH [OF t(1), of "os @ [ob]" "recordDedupeHashStat ob st" r']], goal_cases)
    case (1 x s')
    then obtain os' st' r'' obs where o: "x = (os', st', r'')" "map dob_meta obs = items" "os' = (os @ [ob]) @ obs"
      "st' = fold recordDedupeHashStat obs (recordDedupeHashStat ob st)" "at_exactly clk v s'" "missing_of r'' = missing_of r" using t(3) by auto
    then show ?case using t(2) by (auto intro!: exI [of _ "ob # obs"])
  qed simp
  show ?case
    unfolding collect_items.simps loadDedupeObject_def wp_simps
    by (rule wp_engine_exactly [OF Cons.prems]) (auto intro!: step)
qed (simp add: wp_simps)

lemma collect_buckets_exact:
  assumes "at_exactly clk v s" "\<forall>b \<in> set bs. bkt_name b |\<in>| mv_buckets v"
  shows "wp (collect_buckets X M bs (os, st, r)) (\<lambda>((os', st', r'), err) s'. err = None \<and> at_exactly clk v s' \<and> missing_of r' = missing_of r \<and>
      (\<exists>obs. map dob_meta obs = all_items v (map bkt_name bs) \<and> os' = os @ obs \<and> st' = fold recordDedupeHashStat obs st)) (\<lambda>_ _. False) s"
  using assms
proof (induction bs arbitrary: os st r s)
  case (Cons b bs)
  let ?items = "bucket_items v (bkt_name b)"
  let ?P = "\<lambda>((os', st', r'), err) s'. err = None \<and> at_exactly clk v s' \<and> missing_of r' = missing_of r \<and>
      (\<exists>obs. map dob_meta obs = all_items v (map bkt_name (b # bs)) \<and> os' = os @ obs \<and> st' = fold recordDedupeHashStat obs st)"
  have rest: "wp (collect_buckets X M bs (os @ obs, fold recordDedupeHashStat obs st, r')) ?P (\<lambda>_ _. False) s"
    if t: "at_exactly clk v s" "map dob_meta obs = ?items" "missing_of r' = missing_of r" for obs r' s
  proof (rule wp_mono [OF Cons.IH [OF t(1), of "os @ obs" "fold recordDedupeHashStat obs st" r']], goal_cases)
    case (2 x s')
    then obtain os' st' r'' obs' where o: "x = ((os', st', r''), None)" "map dob_meta obs' = all_items v (map bkt_name bs)"
      "os' = (os @ obs) @ obs'" "st' = fold recordDedupeHashStat obs' (fold recordDedupeHashStat obs st)" "at_exactly clk v s'" "missing_of r'' = missing_of r"
      using t(3) by auto
    then show ?case using t(2) by (auto intro!: exI [of _ "obs @ obs'"])
  qed (use Cons.prems in auto)
  show ?case
    unfolding collect_buckets.simps collectBucketDedupeObjects_def wp_simps
    by (rule exact_items [OF Cons.prems(1)])
       (use Cons.prems(2) in simp, rule wp_mono [OF collect_items_exact], auto simp: wp_simps intro!: rest [simplified])
qed (simp add: wp_simps)

lemma collect_exact:
  assumes "at_exactly clk v s"
  shows "wp (collectDedupeObjects X M r) (\<lambda>((os, st, r'), err) s'. err = None \<and> at_exactly clk v s' \<and> missing_of r' = missing_of r \<and>
      mset (map dob_meta os) = mset (fm_values (mv_objects v)) \<and> st = fold recordDedupeHashStat os fmempty) (\<lambda>_ _. False) s"
  unfolding collectDedupeObjects_def wp_simps
proof (rule exact_buckets [where clk = clk and v = v], goal_cases)
  case 1
  then show ?case using assms by simp
next
  case (2 s bs)
  have "ok (st_meta s)" "view (st_meta s) = v" using 2(1) by (auto simp: exactly_def)
  then have "om_bucket ` set (fm_values (mv_objects v)) \<subseteq> set (map bkt_name bs)"
    using objects_ok [of "st_meta s"] 2(2) by (auto simp: fm_values_iff fmpred_iff sorted_list_of_fset.rep_eq)
  then have m: "mset (all_items v (map bkt_name bs)) = mset (fm_values (mv_objects v))"
    unfolding all_items_def bucket_items_def using 2(2) by (intro filter_groups) (simp_all add: sorted_list_of_fset.rep_eq)
  have "\<forall>b \<in> set bs. bkt_name b |\<in>| mv_buckets v"
    using arg_cong [OF 2(2), of set] by (auto simp: sorted_list_of_fset.rep_eq)
  then show ?case
    by (intro wp_mono [OF collect_buckets_exact [OF 2(1)]]) (auto simp: wp_simps m simp del: mset_map)
qed

end

section \<open>Moving counts\<close>

definition count_is :: "meta_view \<Rightarrow> string \<Rightarrow> int \<Rightarrow> bool" where
  "count_is v h n \<longleftrightarrow> (case fmlookup (mv_refs v) h of None \<Rightarrow> n = 0 | Some r \<Rightarrow> ref_count r = n \<and> 1 \<le> n)"

text \<open>Only the references of \<open>D\<close> change, and their new counts satisfy \<open>P\<close>.\<close>

definition moved :: "(string \<Rightarrow> int \<Rightarrow> bool) \<Rightarrow> string set \<Rightarrow> meta_view \<Rightarrow> meta_view \<Rightarrow> bool" where
  "moved P D v v' \<longleftrightarrow> mv_objects v' = mv_objects v \<and> mv_buckets v' = mv_buckets v \<and> mv_staged v' = mv_staged v \<and>
     (\<forall>h. h \<in> D \<longrightarrow> (\<exists>n. count_is v' h n \<and> P h n)) \<and> (\<forall>h. h \<notin> D \<longrightarrow> fmlookup (mv_refs v') h = fmlookup (mv_refs v) h)"

lemma moved_refl: "moved P {} v v"
  by (simp add: moved_def)

lemma moved_here: "count_is v h n \<Longrightarrow> P h n \<Longrightarrow> moved P {h} v v"
  by (auto simp: moved_def)

lemma moved_then:
  assumes "moved P D v v1" "moved P' {h} v1 v2" "\<And>h' n. h' \<in> D \<Longrightarrow> h' \<noteq> h \<Longrightarrow> P h' n \<Longrightarrow> P' h' n"
  shows "moved P' (insert h D) v v2"
proof -
  have same: "fmlookup (mv_refs v2) h' = fmlookup (mv_refs v1) h'" if "h' \<noteq> h" for h' using assms(2) that by (simp add: moved_def)
  have "\<exists>n. count_is v2 h' n \<and> P' h' n" if h': "h' \<in> insert h D" for h'
  proof (cases "h' = h")
    case True
    then show ?thesis using assms(2) by (simp add: moved_def)
  next
    case False
    then obtain n where "count_is v1 h' n" "P h' n" using assms(1) h' unfolding moved_def by blast
    then have "count_is v2 h' n" "P' h' n" using same [OF False] assms(3) h' False by (auto simp: count_is_def)
    then show ?thesis by blast
  qed
  then show ?thesis using assms(1,2) same by (simp add: moved_def)
qed

lemma moved_mono:
  assumes "moved P D v v'" "\<And>h n. h \<in> D \<Longrightarrow> P h n \<Longrightarrow> P' h n"
  shows "moved P' D v v'"
  using assms(1) unfolding moved_def by (intro conjI allI impI) (use assms(2) in \<open>auto, metis\<close>)

lemma moved_again: "moved P {h} v v1 \<Longrightarrow> moved P' {h} v1 v2 \<Longrightarrow> moved P' {h} v v2"
  by (drule (1) moved_then [where D = "{h}"]) simp_all

lemma moved_uses: "moved P D v v' \<Longrightarrow> uses v' h = uses v h"
  by (simp add: moved_def uses_def)

lemma limit_split:
  obtains (hit) r' where "reachedLimit opts r = (r', True)" "0 < dop_MaxFixes opts" "missing_of r' = missing_of r"
  | (free) "reachedLimit opts r = (r, False)"
proof (cases "dop_MaxFixes opts \<le> 0 \<or> dr_Fixes r < dop_MaxFixes opts")
  case True
  then show ?thesis by (intro free) (simp add: reachedLimit_def)
next
  case False
  then show ?thesis by (intro hit [of "r\<lparr>dr_Limited := True\<rparr>"]) (simp_all add: reachedLimit_def missing_of_def)
qed

lemma one_ref_changed:
  assumes "fmlookup (mv_refs v) h = Some ref" "1 \<le> ref_count ref"
  shows "moved (\<lambda>_ n. n = ref_count ref + 1) {h} v (fst (spec_IncreaseBlobRef v h))"
    "moved (\<lambda>_ n. n = ref_count ref - 1) {h} v (fst (spec_DecreaseBlobRef v h))"
  using assms by (auto simp: moved_def count_is_def spec_IncreaseBlobRef_def spec_update_ref_def spec_DecreaseBlobRef_def)

lemma moved_ref:
  assumes "moved (\<lambda>_ n. n = k) {h} v v'"
  shows "0 < k \<Longrightarrow> \<exists>ref. fmlookup (mv_refs v') h = Some ref \<and> ref_count ref = k \<and> 1 \<le> ref_count ref"
proof -
  have "count_is v' h k" using assms by (auto simp: moved_def)
  then show "0 < k \<Longrightarrow> ?thesis" by (auto simp: count_is_def split: option.splits)
qed

context metadata_listing
begin

lemma exact_increase:
  assumes "at_exactly clk v s" "clean_name h" "fmlookup (mv_refs v) h = Some ref"
    and "\<And>s. at_exactly clk (fst (spec_IncreaseBlobRef v h)) s \<Longrightarrow> Q () s"
  shows "wp (on_meta (\<lambda>m. IncreaseBlobRef M m h)) Q E s"
  by (rule exact_call [OF assms(1), where a = "\<lambda>v. spec_IncreaseBlobRef v h"])
     (erule IncreaseBlobRef [OF _ assms(2)], use assms(3,4) in \<open>simp add: spec_IncreaseBlobRef_def spec_update_ref_def\<close>)

lemma exact_decrease:
  assumes "at_exactly clk v s" "clean_name h" "fmlookup (mv_refs v) h = Some ref"
    and "\<And>s p. at_exactly clk (fst (spec_DecreaseBlobRef v h)) s \<Longrightarrow> Q (p, ref_count ref \<le> 1) s"
  shows "wp (on_meta (\<lambda>m. DecreaseBlobRef M m h)) Q E s"
proof -
  have p: "ok (st_meta s)" "quiet (st_meta s)" "view (st_meta s) = v" "st_clock s = clk" using assms(1) by (auto simp: exactly_def)
  obtain m r where f: "DecreaseBlobRef M (st_meta s) h = (m, r)" by fastforce
  have "refines view ok quiet (st_meta s) (norm_release (m, r)) (spec_DecreaseBlobRef v h)"
    using DecreaseBlobRef [OF p(1) assms(2)] assms(3) p(3) by (simp add: f)
  moreover have "fst (norm_release (m, r)) = m" by (auto simp: norm_release_def split: sum.splits bool.splits)
  ultimately have n: "ok m" "quiet m" "view m = fst (spec_DecreaseBlobRef v h)" "snd (norm_release (m, r)) = snd (spec_DecreaseBlobRef v h)"
    using p(2) by (auto simp: refines_def)
  then have "at_exactly clk (fst (spec_DecreaseBlobRef v h)) (s\<lparr>st_meta := m\<rparr>)" using p(4) by (simp add: exactly_def)
  moreover obtain q where "r = Inr (q, ref_count ref \<le> 1)"
    using n(4) assms(3) by (auto simp: spec_DecreaseBlobRef_def norm_release_def split: sum.splits bool.splits if_splits)
  ultimately show ?thesis using assms(4) by (simp add: wp_on_meta f)
qed

text \<open>A step that ends with no error moves the count of \<open>h\<close> as \<open>P\<close> says.\<close>

abbreviation recounts :: "(nat \<Rightarrow> time) \<Rightarrow> meta_view \<Rightarrow> string \<Rightarrow> (int \<Rightarrow> bool) \<Rightarrow> DedupeResult \<Rightarrow> ('m, DedupeResult \<times> store_error option) action \<Rightarrow>
    'm Store \<Rightarrow> bool" where
  "recounts clk v h P r f s \<equiv> wp f (\<lambda>(r', err) s'. missing_of r' = missing_of r \<and>
     (\<exists>v'. at_exactly clk v' s' \<and> moved (\<lambda>_. P) {h} v v')) (\<lambda>_ _. False) s"

lemma increase_exact:
  assumes "at_exactly clk v s" "clean_name h" "fmlookup (mv_refs v) h = Some ref" "1 \<le> ref_count ref"
  shows "recounts clk v h (\<lambda>c. ref_count ref \<le> c \<and> (dop_MaxFixes opts \<le> 0 \<longrightarrow> c = ref_count ref + int n)) r
    (increaseBlobRef M opts h n r) s"
  using assms
proof (induction n arbitrary: r v ref s)
  case 0
  then show ?case by (auto simp: wp_simps count_is_def intro!: exI [of _ v] moved_here)
next
  case (Suc n)
  show ?case
  proof (cases rule: limit_split [of opts r])
    case (hit r')
    then show ?thesis using Suc.prems by (auto simp: wp_simps count_is_def intro!: exI [of _ v] moved_here)
  next
    case free
    let ?v = "fst (spec_IncreaseBlobRef v h)"
    note m = one_ref_changed(1) [OF Suc.prems(3,4)]
    then obtain ref' where ref': "fmlookup (mv_refs ?v) h = Some ref'" "ref_count ref' = ref_count ref + 1" "1 \<le> ref_count ref'"
      using Suc.prems(4) by (auto dest!: moved_ref)
    have "wp (on_meta (\<lambda>m. IncreaseBlobRef M m h)) (\<lambda>_. recounts clk v h (\<lambda>c. ref_count ref \<le> c \<and> (dop_MaxFixes opts \<le> 0 \<longrightarrow> c = ref_count ref + int (Suc n))) r
        (increaseBlobRef M opts h n (r\<lparr>dr_RefCountIncreased := k, dr_Fixes := l\<rparr>))) E s" for k l E
    proof (rule exact_increase [OF Suc.prems(1-3)], rule wp_mono [OF Suc.IH [OF _ Suc.prems(2) ref'(1,3)]], goal_cases)
      case (2 s' x s'')
      then show ?case using moved_then [OF m] ref'(2) by (fastforce elim!: moved_mono)
    qed auto
    then show ?thesis by (simp add: free wp_simps)
  qed
qed

lemma decrease_exact:
  assumes "at_exactly clk v s" "clean_name h" "fmlookup (mv_refs v) h = Some ref" "int n < ref_count ref"
  shows "recounts clk v h (\<lambda>c. 1 \<le> c \<and> (dop_MaxFixes opts \<le> 0 \<longrightarrow> c = ref_count ref - int n)) r (decrease_by M opts h n r) s"
  using assms
proof (induction n arbitrary: r v ref s)
  case 0
  then show ?case by (auto simp: wp_simps count_is_def intro!: exI [of _ v] moved_here)
next
  case (Suc n)
  show ?case
  proof (cases rule: limit_split [of opts r])
    case (hit r')
    then show ?thesis using Suc.prems by (auto simp: wp_simps count_is_def intro!: exI [of _ v] moved_here)
  next
    case free
    let ?v = "fst (spec_DecreaseBlobRef v h)"
    have m: "moved (\<lambda>_ c. c = ref_count ref - 1) {h} v ?v" by (rule one_ref_changed(2) [OF Suc.prems(3)]) (use Suc.prems(4) in simp)
    then obtain ref' where ref': "fmlookup (mv_refs ?v) h = Some ref'" "ref_count ref' = ref_count ref - 1"
      using Suc.prems(4) by (auto dest!: moved_ref)
    then have lt: "int n < ref_count ref'" using Suc.prems(4) by simp
    have "wp (on_meta (\<lambda>m. DecreaseBlobRef M m h)) (\<lambda>_. recounts clk v h (\<lambda>c. 1 \<le> c \<and> (dop_MaxFixes opts \<le> 0 \<longrightarrow> c = ref_count ref - int (Suc n))) r
        (decrease_by M opts h n (r\<lparr>dr_RefCountDecreased := k, dr_Fixes := l\<rparr>))) E s" for k l E
    proof (rule exact_decrease [OF Suc.prems(1-3)], rule wp_mono [OF Suc.IH [OF _ Suc.prems(2) ref'(1) lt]], goal_cases)
      case (2 s' p x s'')
      then show ?case using moved_then [OF m] ref'(2) by (fastforce elim!: moved_mono)
    qed auto
    then show ?thesis by (simp add: free wp_simps)
  qed
qed

text \<open>The loop of an orphan ends within as many rounds as the reference has counts.\<close>

lemma remove_exact:
  assumes "at_exactly clk v s" "clean_name (ref_hash b)" "fmlookup (mv_refs v) (ref_hash b) = Some ref"
    and "1 \<le> ref_count ref" "ref_count ref \<le> int fuel"
  shows "recounts clk v (ref_hash b) (\<lambda>c. dop_MaxFixes opts \<le> 0 \<longrightarrow> c = 0) r (removeOrphanBlobRef fuel M opts b r) s"
  using assms
proof (induction fuel arbitrary: r v ref s)
  case (Suc fuel)
  let ?h = "ref_hash b" and ?P = "\<lambda>c. dop_MaxFixes opts \<le> 0 \<longrightarrow> c = (0 :: int)"
  show ?case
  proof (cases rule: limit_split [of opts r])
    case (hit r')
    then show ?thesis using Suc.prems by (auto simp: wp_simps count_is_def intro!: exI [of _ v] moved_here)
  next
    case free
    let ?v = "fst (spec_DecreaseBlobRef v ?h)" and ?r = "r\<lparr>dr_RefCountDecreased := dr_RefCountDecreased r + 1, dr_Fixes := dr_Fixes r + 1\<rparr>"
    note m = one_ref_changed(2) [OF Suc.prems(3,4)]
    have last: "recounts clk v ?h ?P r (deleteRemovedOrphanBlob p b ?r) s'" if "at_exactly clk ?v s'" "ref_count ref \<le> 1" for s' p
    proof -
      have "moved (\<lambda>_. ?P) {?h} v ?v" by (rule moved_mono [OF m]) (use that(2) Suc.prems(4) in auto)
      then show ?thesis
        unfolding deleteRemovedOrphanBlob_def wp_simps
        by (intro wp_engine_err_exactly [OF that(1)]) auto
    qed
    have more: "recounts clk v ?h ?P r (removeOrphanBlobRef fuel M opts b ?r) s'" if a: "at_exactly clk ?v s'" "1 < ref_count ref" for s'
    proof -
      obtain ref' where ref': "fmlookup (mv_refs ?v) ?h = Some ref'" "ref_count ref' = ref_count ref - 1" "1 \<le> ref_count ref'"
        using m a(2) by (auto dest!: moved_ref)
      have "ref_count ref' \<le> int fuel" using ref'(2) Suc.prems(5) by simp
      from Suc.IH [OF a(1) Suc.prems(2) ref'(1,3) this, of ?r] show ?thesis
        by (rule wp_mono) (auto dest!: moved_then [OF m])
    qed
    show ?thesis
      unfolding removeOrphanBlobRef.simps free wp_simps
      by (simp add: wp_simps, rule exact_decrease [OF Suc.prems(1-3)])
         (use last more in \<open>cases "ref_count ref \<le> 1"; simp add: Let_def\<close>)
  qed
qed simp

end

section \<open>References\<close>

text \<open>Where a count may end: a blob in use keeps a reference, and without a limit the count is the number of uses.\<close>

definition toward :: "DedupeOptions \<Rightarrow> meta_view \<Rightarrow> string \<Rightarrow> int \<Rightarrow> bool" where
  "toward opts v h c \<longleftrightarrow> (0 < uses v h \<longrightarrow> 1 \<le> c) \<and> (dop_MaxFixes opts \<le> 0 \<longrightarrow> c = int (uses v h))"

text \<open>A listed reference that no step has touched yet.\<close>

definition listed :: "nat \<Rightarrow> meta_view \<Rightarrow> BlobRef \<Rightarrow> bool" where
  "listed fuel v b \<longleftrightarrow> clean_name (ref_hash b) \<and> 1 \<le> ref_count b \<and> ref_count b \<le> int fuel \<and>
     (\<exists>ref. fmlookup (mv_refs v) (ref_hash b) = Some ref \<and> ref_count ref = ref_count b)"

lemma listed_untouched: "listed fuel v0 b \<Longrightarrow> moved P D v0 v \<Longrightarrow> ref_hash b \<notin> D \<Longrightarrow> listed fuel v b"
  by (simp add: listed_def moved_def)

context metadata_listing
begin

lemma fixBlobRefCount_exact:
  assumes "at_exactly clk v s" "listed fuel v b"
  shows "recounts clk v (ref_hash b) (toward opts v (ref_hash b)) r (fixBlobRefCount fuel M opts b (int (uses v (ref_hash b))) r) s"
proof -
  obtain ref where ref: "fmlookup (mv_refs v) (ref_hash b) = Some ref" "ref_count ref = ref_count b"
    and b: "clean_name (ref_hash b)" "1 \<le> ref_count b" "ref_count b \<le> int fuel"
    using assms(2) by (auto simp: listed_def)
  have b': "1 \<le> ref_count ref" "ref_count ref \<le> int fuel" using b ref(2) by auto
  let ?u = "int (uses v (ref_hash b))"
  consider (orphan) "uses v (ref_hash b) = 0" | (up) "uses v (ref_hash b) \<noteq> 0" "ref_count b < ?u"
    | (down) "uses v (ref_hash b) \<noteq> 0" "\<not> ref_count b < ?u" by blast
  then show ?thesis
  proof cases
    case orphan
    then have "toward opts v (ref_hash b) = (\<lambda>c. dop_MaxFixes opts \<le> 0 \<longrightarrow> c = 0)" by (simp add: toward_def fun_eq_iff)
    then show ?thesis
      using remove_exact [OF assms(1) b(1) ref(1) b', of opts "count_orphan b r"] orphan
      by (simp add: fixBlobRefCount_def count_orphan_def)
  next
    case up
    then have "fixBlobRefCount fuel M opts b ?u r = increaseBlobRef M opts (ref_hash b) (nat (?u - ref_count b)) r"
      by (simp add: fixBlobRefCount_def)
    then show ?thesis
      using up b(2) ref(2)
      by (auto simp: toward_def elim!: moved_mono intro!: wp_mono [OF increase_exact [OF assms(1) b(1) ref(1) b'(1)]])
  next
    case down
    then have n: "fixBlobRefCount fuel M opts b ?u r = decrease_by M opts (ref_hash b) (nat (ref_count b - ?u)) r"
      "int (nat (ref_count b - ?u)) < ref_count ref"
      using b(2) ref(2) by (simp_all add: fixBlobRefCount_def decreaseBlobRefToExpected_def)
    show ?thesis
      unfolding n(1)
      by (rule wp_mono [OF decrease_exact [OF assms(1) b(1) ref(1) n(2)]])
         (use down ref(2) in \<open>auto simp: toward_def elim!: moved_mono\<close>)
  qed
qed

lemma fixExisting_exact:
  assumes "at_exactly clk v s" "moved (toward opts v0) D v0 v" "counts_uses v0 stats" "\<not> dop_DryRun opts"
    and "distinct (map ref_hash bs)" "\<forall>b \<in> set bs. listed fuel v0 b \<and> ref_hash b \<notin> D"
  shows "wp (fixExistingBlobRefs fuel M opts stats bs r) (\<lambda>(r', err) s'. missing_of r' = missing_of r \<and>
      (\<exists>v' D'. at_exactly clk v' s' \<and> moved (toward opts v0) D' v0 v' \<and> (err = None \<longrightarrow> D' = ref_hash ` set bs \<union> D))) (\<lambda>_ _. False) s"
  using assms(1,2,5,6)
proof (induction bs arbitrary: v D r s)
  case Nil
  then show ?case by (auto simp: wp_simps)
next
  case (Cons b bs)
  let ?h = "ref_hash b" and ?P = "\<lambda>(r', err) s'. missing_of r' = missing_of r \<and> (\<exists>v' D'. at_exactly clk v' s' \<and>
    moved (toward opts v0) D' v0 v' \<and> (err = None \<longrightarrow> D' = ref_hash ` set (b # bs) \<union> D))"
  have l: "listed fuel v b" using Cons.prems by (auto intro: listed_untouched)
  have u: "hs_count (stat_of stats ?h) = int (uses v ?h)" "toward opts v = toward opts v0"
    using assms(3) moved_uses [OF Cons.prems(2)] by (simp_all add: counts_uses_def toward_def fun_eq_iff)
  have ext: "moved (toward opts v0) (insert ?h D) v0 v'" if "moved (\<lambda>_. toward opts v0 ?h) {?h} v v'" for v'
  proof -
    have "moved (toward opts v0) {?h} v v'" by (rule moved_mono [OF that]) simp
    then show ?thesis by (rule moved_then [OF Cons.prems(2)])
  qed
  have rest: "wp (fixExistingBlobRefs fuel M opts stats bs r') ?P (\<lambda>_ _. False) s'"
    if "at_exactly clk v' s'" "moved (\<lambda>_. toward opts v0 ?h) {?h} v v'" "missing_of r' = missing_of r" for v' r' s'
  proof -
    from Cons.IH [OF that(1) ext [OF that(2)]] show ?thesis
      by (rule wp_mono) (use Cons.prems that(3) in \<open>auto simp: rev_image_eqI\<close>)
  qed
  show ?case
  proof (cases "hs_count (stat_of stats ?h) = ref_count b")
    case True
    have "count_is v ?h (int (uses v ?h))" using l True u(1) by (auto simp: listed_def count_is_def)
    moreover have "toward opts v0 ?h (int (uses v ?h))" using l True u(1) unfolding u(2) [symmetric] by (auto simp: toward_def listed_def)
    ultimately show ?thesis using True rest [OF Cons.prems(1) moved_here] by simp
  next
    case False
    have "missing_of (recordRefCountDrift b n r) = missing_of r" for n by (simp add: recordRefCountDrift_def)
    then have "wp (fixBlobRefCount fuel M opts b (int (uses v ?h)) (recordRefCountDrift b (int (uses v ?h)) r))
      (\<lambda>x. wp (case x of (r, err) \<Rightarrow> if err \<noteq> None then ret (r, err) else fixExistingBlobRefs fuel M opts stats bs r) ?P (\<lambda>_ _. False)) (\<lambda>_ _. False) s"
      using fixBlobRefCount_exact [OF Cons.prems(1) l, of opts "recordRefCountDrift b (int (uses v ?h)) r"] unfolding u(2)
    proof (elim wp_mono, goal_cases)
      case (1 x s')
      then obtain r' err v' where x: "x = (r', err)" "missing_of r' = missing_of r" "at_exactly clk v' s'" "moved (\<lambda>_. toward opts v0 ?h) {?h} v v'" by auto
      show ?case
      proof (cases err)
        case None
        then show ?thesis using rest [OF x(3,4,2)] x(1) by simp
      next
        case (Some a)
        then show ?thesis using ext [OF x(4)] x by (auto simp: wp_simps)
      qed
    qed
    then show ?thesis using False assms(4) by (simp add: u(1) Let_def wp_simps)
  qed
qed

end

text \<open>Creating missing references. \<open>lost\<close> are the blobs in use that have no reference.\<close>

abbreviation lost :: "meta_view \<Rightarrow> string \<Rightarrow> bool" where
  "lost v h \<equiv> fmlookup (mv_refs v) h = None"

definition keyed :: "(string, BlobRef) fmap \<Rightarrow> bool" where
  "keyed refs \<longleftrightarrow> (\<forall>h ref. fmlookup refs h = Some ref \<longrightarrow> ref_hash ref = h)"

definition refound :: "meta_view \<Rightarrow> string \<times> dedupeHashStat \<Rightarrow> bool" where
  "refound v e \<longleftrightarrow> lost v (fst e) \<and> dob_info (hs_first (snd e)) \<noteq> None"

text \<open>The outcome of creating the references of some entries \<open>es\<close>, beginning with those of \<open>D\<close> changed.\<close>

definition created :: "DedupeOptions \<Rightarrow> meta_view \<Rightarrow> string set \<Rightarrow> (string \<times> dedupeHashStat) list \<Rightarrow> DedupeResult \<Rightarrow>
    DedupeResult \<Rightarrow> store_error option \<Rightarrow> string set \<Rightarrow> bool" where
  "created opts v0 D es r r' err D' \<longleftrightarrow> D' \<subseteq> D \<union> {h \<in> fst ` set es. lost v0 h} \<and> fst (missing_of r') = fst (missing_of r) \<and>
     (dop_MaxFixes opts \<le> 0 \<and> err = None \<longrightarrow> D' = D \<union> fst ` set (filter (refound v0) es) \<and>
        snd (missing_of r') = snd (missing_of r) + int (length (filter (refound v0) es)))"

lemma created_none: "created opts v0 D [] r r err D"
  by (simp add: created_def)

lemma created_then:
  assumes "created opts v0 D [e] r r1 None D1" "created opts v0 D1 es r1 r' err D'"
  shows "created opts v0 D (e # es) r r' err D'"
proof -
  have "D' \<subseteq> D1 \<union> {h \<in> fst ` set es. lost v0 h}" "D1 \<subseteq> D \<union> {h. h = fst e \<and> lost v0 h}" using assms by (auto simp: created_def)
  then have "D' \<subseteq> D \<union> {h \<in> fst ` set (e # es). lost v0 h}" by auto
  moreover have "D1 = D \<union> fst ` set (filter (refound v0) [e])" if "dop_MaxFixes opts \<le> 0" using assms(1) that by (simp add: created_def)
  moreover have "snd (missing_of r1) = snd (missing_of r) + int (length (filter (refound v0) [e]))" if "dop_MaxFixes opts \<le> 0"
    using assms(1) that by (simp add: created_def)
  ultimately show ?thesis using assms by (auto simp: created_def split: if_splits)
qed

lemma created_stop: "created opts v0 D [e] r r' (Some err) D' \<Longrightarrow> created opts v0 D (e # es) r r' (Some err) D'"
  by (auto simp: created_def)

definition entry_ok :: "meta_view \<Rightarrow> (string, BlobRef) fmap \<Rightarrow> string set \<Rightarrow> string \<times> dedupeHashStat \<Rightarrow> bool" where
  "entry_ok v0 refs D e \<longleftrightarrow> clean_name (fst e) \<and> fst e \<notin> D \<and> 0 < uses v0 (fst e) \<and> hs_count (snd e) = int (uses v0 (fst e)) \<and>
     (fmlookup refs (fst e) = None \<longleftrightarrow> lost v0 (fst e))"

lemma fresh_reference:
  assumes "lost v h"
  shows "moved (\<lambda>_ n. n = 1) {h} v (fst (spec_CreateBlobRef v h p sz ps cs ns))"
  using assms by (auto simp: moved_def count_is_def spec_CreateBlobRef_def new_ref_def)

context metadata_listing
begin

lemma exact_create:
  assumes "at_exactly clk v s" "clean_name h" "lost v h"
    and "\<And>s. at_exactly clk (fst (spec_CreateBlobRef v h p sz ps cs ns)) s \<Longrightarrow> Q () s" "\<And>err s. at_exactly clk v s \<Longrightarrow> E err s"
  shows "wp (on_meta (\<lambda>m. CreateBlobRef M m h p sz ps cs ns)) Q E s"
proof -
  have p: "ok (st_meta s)" "view (st_meta s) = v" using assms(1) by (auto simp: exactly_def)
  from CreateBlobRef_any [OF p(1) assms(2)] assms(3) p(2)
  consider (made) "refines view ok quiet (st_meta s) (CreateBlobRef M (st_meta s) h p sz ps cs ns) (spec_CreateBlobRef (view (st_meta s)) h p sz ps cs ns)"
    | (refused) "refines view ok quiet (st_meta s) (CreateBlobRef M (st_meta s) h p sz ps cs ns) (view (st_meta s), Inl MErrBadRequest)" by blast
  then show ?thesis
  proof cases
    case made
    show ?thesis
      by (rule exact_call [OF assms(1), where a = "\<lambda>v. spec_CreateBlobRef v h p sz ps cs ns"])
         (rule made, use assms(4) in \<open>simp add: spec_CreateBlobRef_def\<close>)
  next
    case refused
    show ?thesis
      by (rule exact_call [OF assms(1), where a = "\<lambda>v. (v, Inl MErrBadRequest)"]) (rule refused, use assms(5) in simp)
  qed
qed

lemma fixMissing_exact:
  assumes "at_exactly clk v s" "moved (toward opts v0) D v0 v" "entry_ok v0 refs D (h, st)" "keyed refs" "\<not> dop_DryRun opts"
  shows "wp (fixMissingBlobRef M opts h st (refs, r)) (\<lambda>((refs', r'), err) s'. \<exists>v' D'. at_exactly clk v' s' \<and> moved (toward opts v0) D' v0 v' \<and>
      keyed refs' \<and> (\<forall>h'. h' \<noteq> h \<longrightarrow> fmlookup refs' h' = fmlookup refs h') \<and> created opts v0 D [(h, st)] r r' err D') (\<lambda>_ _. False) s"
    (is "wp _ ?P _ s")
proof -
  have e: "clean_name h" "h \<notin> D" "0 < uses v0 h" "hs_count st = int (uses v0 h)" "fmlookup refs h = None \<longleftrightarrow> lost v0 h"
    using assms(3) by (simp_all add: entry_ok_def)
  have keep: "?P ((refs, r'), err) s'" if "at_exactly clk v s'" "fst (missing_of r') = fst (missing_of r)"
      "dop_MaxFixes opts \<le> 0 \<and> err = None \<Longrightarrow> \<not> refound v0 (h, st) \<and> missing_of r' = missing_of r" for r' err s'
    using that assms(2,4) by (auto simp: created_def intro!: exI [of _ v] exI [of _ D])
  show ?thesis
  proof (cases "refound v0 (h, st)")
    case False
    then show ?thesis
      using keep [OF assms(1), of r None] e(5) assms(5)
      by (auto simp: fixMissingBlobRef_def refound_def wp_simps split: option.split)
  next
    case True
    then obtain info where i: "dob_info (hs_first st) = Some info" "lost v0 h" by (auto simp: refound_def)
    have n: "\<not> (fmlookup refs h \<noteq> None \<or> dop_DryRun opts)" using i(2) e(5) assms(5) by simp
    show ?thesis
    proof (cases rule: limit_split [of opts r])
      case (hit r')
      then show ?thesis using keep [OF assms(1), of r' None] n i by (simp add: fixMissingBlobRef_def wp_simps)
    next
      case free
      have lv: "lost v h" using assms(2) e(2) i(2) by (simp add: moved_def)
      let ?r = "r\<lparr>dr_MissingBlobRefsFixed := dr_MissingBlobRefsFixed r + 1, dr_Fixes := dr_Fixes r + 1\<rparr>"
      let ?refs = "fmupd h \<lparr>ref_hash = h, ref_path = oi_ShardDir info, ref_placements = oi_Placements info,
        ref_checksums = oi_Checksums info, ref_sizes = oi_Sizes info, ref_count = 1, ref_size = oi_Size info\<rparr> refs"
      let ?v = "fst (spec_CreateBlobRef v h (oi_ShardDir info) (oi_Size info) (oi_Placements info) (oi_Checksums info) (oi_Sizes info))"
      note m = fresh_reference [OF lv, of "oi_ShardDir info" "oi_Size info" "oi_Placements info" "oi_Checksums info" "oi_Sizes info"]
      then obtain ref where ref: "fmlookup (mv_refs ?v) h = Some ref" "ref_count ref = 1" "1 \<le> ref_count ref" by (auto dest!: moved_ref)
      have "?P ((?refs, r'), err) s'" if a: "missing_of r' = missing_of ?r" "at_exactly clk v' s'"
        "moved (\<lambda>_ c. ref_count ref \<le> c \<and> (dop_MaxFixes opts \<le> 0 \<longrightarrow> c = ref_count ref + int (nat (hs_count st - 1)))) {h} ?v v'" for r' err v' s'
      proof -
        have "moved (toward opts v0) {h} ?v v'" by (rule moved_mono [OF a(3)]) (use e(3,4) ref(2) in \<open>auto simp: toward_def\<close>)
        then have "moved (toward opts v0) {h} v v'" by (rule moved_again [OF m])
        then have "moved (toward opts v0) (insert h D) v0 v'" by (rule moved_then [OF assms(2)])
        moreover have "created opts v0 D [(h, st)] r r' err (insert h D)"
          using True i(2) a(1) by (auto simp: created_def missing_of_def)
        moreover have "keyed ?refs" using assms(4) by (auto simp: keyed_def)
        ultimately show ?thesis using a(2) by auto
      qed
      then have "wp (increaseBlobRef M opts h (nat (hs_count st - 1)) ?r) (\<lambda>x. wp (case x of (r, err) \<Rightarrow> ret ((?refs, r), err)) ?P (\<lambda>_ _. False))
          (\<lambda>_ _. False) s'" if "at_exactly clk ?v s'" for s'
        by (intro wp_mono [OF increase_exact [OF that e(1) ref(1,3)]]) (auto simp: wp_ret)
      moreover have "?P ((refs, r), Some err) s'" if "at_exactly clk v s'" for s' err using keep [OF that, of r "Some err"] by simp
      ultimately show ?thesis
        unfolding fixMissingBlobRef_def prod.case if_not_P [OF n] i(1) option.case free bool.case Let_def wp_simps
        by (intro exact_create [OF assms(1) e(1) lv])
    qed
  qed
qed

end

end
