(* ===== verification/Dedupe_Run.thy ===== *)
theory Dedupe_Run
  imports Dedupe_Counts
begin

text \<open>
  The whole run of dedupe over a metadata service that answers: the steps of \<open>Dedupe_Counts\<close> put together, the layouts, and
  dry runs.
\<close>

section \<open>All missing references\<close>

context metadata_listing
begin

lemma fix_missing_exact:
  assumes "at_exactly clk v s" "moved (toward opts v0) D v0 v" "\<forall>e \<in> set es. entry_ok v0 refs D e" "distinct (map fst es)" "keyed refs"
    and "\<not> dop_DryRun opts"
  shows "wp (fix_missing M opts es (refs, r)) (\<lambda>((refs', r'), err) s'. \<exists>v' D'. at_exactly clk v' s' \<and> moved (toward opts v0) D' v0 v' \<and>
      keyed refs' \<and> created opts v0 D es r r' err D') (\<lambda>_ _. False) s"
  using assms(1-5)
proof (induction es arbitrary: refs r v D s)
  case Nil
  then show ?case by (auto simp: wp_simps intro: created_none)
next
  case (Cons e es)
  obtain h st where e: "e = (h, st)" by fastforce
  have ok: "entry_ok v0 refs D (h, st)" using Cons.prems(3) e by simp
  show ?case
    unfolding e fix_missing.simps wp_simps
  proof (rule wp_mono [OF fixMissing_exact [OF Cons.prems(1,2) ok Cons.prems(5) assms(6)]], goal_cases)
    case (1 x s1)
    then obtain refs1 r1 err v1 D1 where x: "x = ((refs1, r1), err)" "at_exactly clk v1 s1" "moved (toward opts v0) D1 v0 v1" "keyed refs1"
      "\<forall>h'. h' \<noteq> h \<longrightarrow> fmlookup refs1 h' = fmlookup refs h'" "created opts v0 D [(h, st)] r r1 err D1" by auto
    show ?case
    proof (cases err)
      case (Some a)
      then show ?thesis using x created_stop [OF x(6) [unfolded Some], of es] by (auto simp: wp_simps)
    next
      case None
      have D1: "D1 \<subseteq> insert h D" using x(6) by (auto simp: created_def)
      have "entry_ok v0 refs1 D1 e'" if e': "e' \<in> set es" for e'
      proof -
        have "fst e' \<noteq> h" "entry_ok v0 refs D e'" using e' Cons.prems(3,4) e by force+
        moreover have "fst e' \<in> D1 \<Longrightarrow> fst e' = h \<or> fst e' \<in> D" using D1 by blast
        ultimately show ?thesis using x(5) by (simp add: entry_ok_def) blast
      qed
      then have "\<forall>e \<in> set es. entry_ok v0 refs1 D1 e" by blast
      from Cons.IH [OF x(2,3) this _ x(4), of r1] Cons.prems(4)
      have "wp (fix_missing M opts es (refs1, r1)) (\<lambda>((refs', r'), err) s'. \<exists>v' D'. at_exactly clk v' s' \<and> moved (toward opts v0) D' v0 v' \<and>
          keyed refs' \<and> created opts v0 D1 es r1 r' err D') (\<lambda>_ _. False) s1" by simp
      then have "wp (fix_missing M opts es (refs1, r1)) (\<lambda>((refs', r'), err) s'. \<exists>v' D'. at_exactly clk v' s' \<and> moved (toward opts v0) D' v0 v' \<and>
          keyed refs' \<and> created opts v0 D ((h, st) # es) r r' err D') (\<lambda>_ _. False) s1"
      proof (rule wp_mono, goal_cases)
        case (1 y s')
        obtain refs' r' err' where y: "y = ((refs', r'), err')" by (metis prod.exhaust)
        then obtain v' D' where "at_exactly clk v' s'" "moved (toward opts v0) D' v0 v'" "keyed refs'" "created opts v0 D1 es r1 r' err' D'"
          using 1 by auto
        moreover from this(4) have "created opts v0 D ((h, st) # es) r r' err' D'" by (rule created_then [OF x(6) [unfolded None]])
        ultimately show ?case using y by auto
      qed simp
      then show ?thesis using x(1) None by simp
    qed
  qed simp
qed

end

section \<open>Layouts\<close>

text \<open>Objects keep their blob; what else the metadata says of them may change.\<close>

definition rehomed :: "meta_view \<Rightarrow> meta_view \<Rightarrow> bool" where
  "rehomed v v' \<longleftrightarrow> mv_buckets v' = mv_buckets v \<and> mv_staged v' = mv_staged v \<and> mv_refs v' = mv_refs v \<and>
     (\<forall>i. map_option om_hash (fmlookup (mv_objects v') i) = map_option om_hash (fmlookup (mv_objects v) i)) \<and>
     fmpred (\<lambda>_ x. clean_meta x) (mv_objects v')"

lemma rehomed_refl: "fmpred (\<lambda>_ x. clean_meta x) (mv_objects v) \<Longrightarrow> rehomed v v"
  by (simp add: rehomed_def)

lemma rehomed_uses: "rehomed v v' \<Longrightarrow> uses v' h = uses v h"
proof -
  assume r: "rehomed v v'"
  have m: "(\<exists>x. fmlookup m i = Some x \<and> om_hash x = h) \<longleftrightarrow> map_option om_hash (fmlookup m i) = Some h"
    for m :: "(string, ObjectMeta) fmap" and i by auto
  show ?thesis using r unfolding uses_card m rehomed_def by simp
qed

lemma rehomed_upsert:
  assumes "rehomed v v'" "clean_meta x" "map_option om_hash (fmlookup (mv_objects v) (meta_key x)) = Some (om_hash x)"
  shows "rehomed v (fst (spec_UpsertObjectMeta v' x))"
  using assms by (auto simp: rehomed_def spec_UpsertObjectMeta_def clean_meta_def intro!: fmpred_upd)

lemma LinkObject_hash: "LinkObject X e now b k blob ct t = (e', Inr info) \<Longrightarrow> oi_Hash info = trim_space (bi_Hash blob)"
  by (auto simp: LinkObject_def Let_def link_info_def link_layout_def normalize_blob_def split: if_splits prod.splits option.splits)

context metadata_listing
begin

lemma canonicalize_one_exact:
  assumes "at_exactly clk v s" "rehomed v0 v" "clean_meta x" "map_option om_hash (fmlookup (mv_objects v0) (meta_key x)) = Some (om_hash x)"
    and "ref_hash ref = om_hash x"
  shows "wp (canonicalizeDedupeLayout X M x ref) (\<lambda>_ s'. \<exists>v'. at_exactly clk v' s' \<and> rehomed v0 v')
    (\<lambda>_ s'. \<exists>v'. at_exactly clk v' s' \<and> rehomed v0 v') s"
proof -
  let ?now = "st_clock s (st_tick s)"
  obtain e' r where l: "LinkObject X (st_engine s) ?now (om_bucket x) (om_key x) (blob_of_ref (ref_hash ref) (ETagFromHash (ref_hash ref)) ref)
      (om_content_type x) (om_updated x) = (e', r)" by fastforce
  show ?thesis
  proof (cases r)
    case (Inl err)
    then show ?thesis
      using assms(1,2) by (auto simp: canonicalizeDedupeLayout_def wp_simps wp_on_engine l intro!: exI [of _ v])
  next
    case (Inr info)
    let ?x = "x\<lparr>om_hash := oi_Hash info, om_etag := oi_ETag info, om_size := oi_Size info, om_state := ObjectStateCommitted,
      om_placements := oi_Placements info, om_checksums := oi_Checksums info, om_sizes := oi_Sizes info\<rparr>"
    have h: "oi_Hash info = om_hash x"
      using LinkObject_hash [OF l [unfolded Inr]] assms(3,5) by (simp add: blob_of_ref_def clean_meta_def clean_name_def)
    have c: "clean_meta ?x" "meta_key ?x = meta_key x" using assms(3) h by (simp_all add: clean_meta_def meta_key_def)
    have up: "rehomed v0 (fst (spec_UpsertObjectMeta v ?x))" by (rule rehomed_upsert [OF assms(2) c(1)]) (use assms(4) c(2) h in simp)
    have "wp (on_meta (\<lambda>m. UpsertObjectMeta M m ?x)) (\<lambda>_ s'. \<exists>v'. at_exactly clk v' s' \<and> rehomed v0 v')
        (\<lambda>_ s'. \<exists>v'. at_exactly clk v' s' \<and> rehomed v0 v') (s\<lparr>st_engine := e'\<rparr>)"
    proof (rule exact_call [where clk = clk and v = v and a = "\<lambda>v. spec_UpsertObjectMeta v ?x"], goal_cases)
      case 1
      then show ?case using assms(1) by simp
    next
      case 2
      then show ?case by (rule UpsertObjectMeta [OF _ c(1)])
    next
      case (3 s')
      then show ?case using up by (auto split: sum.split)
    qed
    then show ?thesis using Inr by (simp add: canonicalizeDedupeLayout_def wp_simps wp_on_engine l)
  qed
qed

lemma canonicalize_exact:
  assumes "at_exactly clk v s" "rehomed v0 v" "keyed refs"
    and "\<forall>ob \<in> set obs. clean_object ob \<and> fmlookup (mv_objects v0) (meta_key (dob_meta ob)) = Some (dob_meta ob)"
  shows "wp (canonicalizeDedupeLayouts X M opts obs refs r) (\<lambda>(r', err) s'. missing_of r' = missing_of r \<and>
      (\<exists>v'. at_exactly clk v' s' \<and> rehomed v0 v')) (\<lambda>_ _. False) s"
  using assms(1,2,4)
proof (induction obs arbitrary: r v s)
  case (Cons ob obs)
  show ?case
  proof (cases "\<exists>ref info. fmlookup refs (om_hash (dob_meta ob)) = Some ref \<and> dob_info ob = Some info \<and> dedupeLayoutMismatch info ref")
    case True
    then obtain ref info where c: "fmlookup refs (om_hash (dob_meta ob)) = Some ref" "dob_info ob = Some info" "dedupeLayoutMismatch info ref"
      by blast
    let ?r = "recordDedupeLayoutMismatch ob info ref r"
    have m: "missing_of ?r = missing_of r" by (simp add: recordDedupeLayoutMismatch_def)
    have rest: "wp (canonicalizeDedupeLayouts X M opts obs refs r') (\<lambda>(r', err) s'. missing_of r' = missing_of r \<and>
        (\<exists>v'. at_exactly clk v' s' \<and> rehomed v0 v')) (\<lambda>_ _. False) s'"
      if "at_exactly clk v' s'" "rehomed v0 v'" "missing_of r' = missing_of r" for v' s' r'
      using Cons.IH [OF that(1,2), of r'] Cons.prems(3) that(3) by simp
    have one: "wp (canonicalizeDedupeLayout X M (dob_meta ob) ref) (\<lambda>_ s'. \<exists>v'. at_exactly clk v' s' \<and> rehomed v0 v')
        (\<lambda>_ s'. \<exists>v'. at_exactly clk v' s' \<and> rehomed v0 v') s"
      using canonicalize_one_exact [OF Cons.prems(1,2), of "dob_meta ob" ref] Cons.prems(3) assms(3) c(1)
      by (simp add: clean_object_def keyed_def)
    have "wp (canonicalizeDedupeLayout X M (dob_meta ob) ref)
        (\<lambda>_. wp (canonicalizeDedupeLayouts X M opts obs refs (?r\<lparr>dr_LayoutsCanonicalized := k, dr_Fixes := l\<rparr>)) (\<lambda>(r', err) s'. missing_of r' = missing_of r \<and>
          (\<exists>v'. at_exactly clk v' s' \<and> rehomed v0 v')) (\<lambda>_ _. False))
        (\<lambda>err s'. missing_of ?r = missing_of r \<and> (\<exists>v'. at_exactly clk v' s' \<and> rehomed v0 v')) s" for k l
      by (rule wp_mono [OF one]) (use rest m in auto)
    then show ?thesis
      using c m rest [OF Cons.prems(1,2)] by (cases rule: limit_split [of opts ?r]) (simp_all add: wp_simps Let_def)
  next
    case False
    then show ?thesis using Cons.IH [OF Cons.prems(1,2), of r] Cons.prems(3) by (auto split: option.split)
  qed
qed (auto simp: wp_simps)

end

section \<open>Dry runs\<close>

lemma fix_missing_dry: "dop_DryRun opts \<Longrightarrow> fix_missing M opts es acc = ret (acc, None)"
  by (induction es) (auto simp: fixMissingBlobRef_def andThen_def ret_def fun_eq_iff split: prod.splits)

lemma fixExisting_dry: "dop_DryRun opts \<Longrightarrow> \<exists>r'. fixExistingBlobRefs fuel M opts stats bs r = ret (r', None)"
  by (induction bs arbitrary: r) (auto simp: Let_def)

lemma canonicalize_dry: "dop_DryRun opts \<Longrightarrow> \<exists>r'. canonicalizeDedupeLayouts X M opts obs refs r = ret (r', None)"
  by (induction obs arbitrary: r) (auto simp: Let_def split: option.split)

lemma reconcile_dry: "dop_DryRun opts \<Longrightarrow> \<exists>r'. reconcile fuel X M opts obs stats refs r = ret (r', None)"
proof -
  assume d: "dop_DryRun opts"
  have bind: "andThen (ret (y, None)) f = f (y, None)" for y and f :: "_ \<times> store_error option \<Rightarrow> ('m, _) action"
    by (simp add: andThen_def ret_def fun_eq_iff)
  obtain r1 where "fixExistingBlobRefs fuel M opts stats refs (planMissingBlobRefs stats (dedupeRefMap refs) (r\<lparr>dr_BlobRefs := int (length refs)\<rparr>)) =
      ret (r1, None)" using fixExisting_dry [OF d] by blast
  moreover obtain r2 where "canonicalizeDedupeLayouts X M opts obs (dedupeRefMap refs) r1 = ret (r2, None)" using canonicalize_dry [OF d] by blast
  ultimately show ?thesis by (auto simp: reconcile_def Let_def fixMissingBlobRefs_def fix_missing_dry [OF d] bind)
qed

section \<open>The run\<close>

lemma plan_missing_count:
  "missing_of (fold (\<lambda>(h, st). plan_missing h st refs) es r) =
     (fst (missing_of r) + int (length (filter (\<lambda>e. fmlookup refs (fst e) = None) es)), snd (missing_of r))"
  by (induction es arbitrary: r) (auto simp: plan_missing_def missing_of_def)

lemma ref_map:
  assumes "keyed m"
  shows "keyed (fold (\<lambda>ref m. fmupd (ref_hash ref) ref m) bs m)"
    "fmlookup (fold (\<lambda>ref m. fmupd (ref_hash ref) ref m) bs m) h = None \<longleftrightarrow> fmlookup m h = None \<and> h \<notin> ref_hash ` set bs"
proof -
  have k: "keyed (fmupd (ref_hash ref) ref m)" if "keyed m" for ref m using that by (simp add: keyed_def)
  show "keyed (fold (\<lambda>ref m. fmupd (ref_hash ref) ref m) bs m)" using assms by (induction bs arbitrary: m) (simp_all add: k)
  show "fmlookup (fold (\<lambda>ref m. fmupd (ref_hash ref) ref m) bs m) h = None \<longleftrightarrow> fmlookup m h = None \<and> h \<notin> ref_hash ` set bs"
    by (induction bs arbitrary: m) auto
qed

text \<open>Metadata that a run can work on: objects have proper names, references have counts that the fuel covers.\<close>

definition dedupable :: "nat \<Rightarrow> meta_view \<Rightarrow> bool" where
  "dedupable fuel v \<longleftrightarrow> fmpred (\<lambda>_ x. clean_meta x) (mv_objects v) \<and>
     fmpred (\<lambda>h r. clean_name h \<and> 1 \<le> ref_count r \<and> ref_count r \<le> int fuel) (mv_refs v)"

definition listing :: "meta_view \<Rightarrow> BlobRef list" where
  "listing v = map (\<lambda>(h, r). r\<lparr>ref_hash := h\<rparr>) (fm_entries (mv_refs v))"

lemma listing_hashes: "map ref_hash (listing v) = fm_keys (mv_refs v)" "ref_hash ` set (listing v) = fset (fmdom (mv_refs v))"
proof -
  show "map ref_hash (listing v) = fm_keys (mv_refs v)"
    by (simp add: listing_def fm_entries_def case_prod_unfold comp_def)
  then show "ref_hash ` set (listing v) = fset (fmdom (mv_refs v))" by (metis set_fm_keys list.set_map)
qed

lemma listing_listed: "dedupable fuel v \<Longrightarrow> b \<in> set (listing v) \<Longrightarrow> listed fuel v b"
  by (auto simp: listing_def listed_def fm_entries_iff dedupable_def fmpred_iff)

text \<open>What a run promises of the metadata.\<close>

definition deduped :: "DedupeOptions \<Rightarrow> meta_view \<Rightarrow> meta_view \<Rightarrow> DedupeResult \<Rightarrow> store_error option \<Rightarrow> bool" where
  "deduped opts v v' r err \<longleftrightarrow>
     (dop_DryRun opts \<longrightarrow> v' = v) \<and> mv_buckets v' = mv_buckets v \<and> mv_staged v' = mv_staged v \<and>
     (\<forall>i. map_option om_hash (fmlookup (mv_objects v') i) = map_option om_hash (fmlookup (mv_objects v) i)) \<and>
     (\<forall>h. 0 < uses v h \<and> \<not> lost v h \<longrightarrow> \<not> lost v' h) \<and>
     (\<not> dop_DryRun opts \<and> dop_MaxFixes opts \<le> 0 \<and> err = None \<and> dr_MissingBlobRefs r = dr_MissingBlobRefsFixed r \<longrightarrow> refs_ok v')"

lemma deduped_steps:
  assumes "moved (toward opts v) D v v1" "rehomed v1 v'" "\<not> dop_DryRun opts" "fmpred (\<lambda>_ r. 1 \<le> ref_count r) (mv_refs v)"
    and "\<not> dop_DryRun opts \<Longrightarrow> dop_MaxFixes opts \<le> 0 \<Longrightarrow> err = None \<Longrightarrow> dr_MissingBlobRefs r = dr_MissingBlobRefsFixed r \<Longrightarrow>
      fset (fmdom (mv_refs v)) \<union> {h. 0 < uses v h} \<subseteq> D"
  shows "deduped opts v v' r err"
proof -
  have u: "uses v' h = uses v h" for h using rehomed_uses [OF assms(2)] moved_uses [OF assms(1)] by simp
  have refs: "mv_refs v' = mv_refs v1" using assms(2) by (simp add: rehomed_def)
  have in_D: "\<exists>n. count_is v1 h n \<and> toward opts v h n" if "h \<in> D" for h using assms(1) that by (simp add: moved_def)
  have out_D: "fmlookup (mv_refs v1) h = fmlookup (mv_refs v) h" if "h \<notin> D" for h using assms(1) that by (simp add: moved_def)
  have keep: "\<not> lost v' h" if h: "0 < uses v h" "\<not> lost v h" for h
  proof (cases "h \<in> D")
    case True
    then obtain n where "count_is v1 h n" "1 \<le> n" using in_D h(1) by (auto simp: toward_def)
    then show ?thesis by (auto simp: count_is_def refs split: option.splits)
  qed (use out_D h refs in simp)
  have "refs_ok v'" if a: "dop_MaxFixes opts \<le> 0" "fset (fmdom (mv_refs v)) \<union> {h. 0 < uses v h} \<subseteq> D"
  proof -
    have "count_is v1 h (int (uses v h))" for h
    proof (cases "h \<in> D")
      case True
      then show ?thesis using in_D [OF True] a(1) by (auto simp: toward_def)
    next
      case False
      then have "h \<notin> fset (fmdom (mv_refs v))" "uses v h = 0" using a(2) by auto
      then show ?thesis using out_D [OF False] by (simp add: count_is_def fmdom_notD)
    qed
    note c = this
    have "ref_of v' h = int (uses v h)" for h using c [of h] by (simp add: ref_of_def count_is_def refs split: option.splits)
    moreover have "1 \<le> ref_count r" if "fmlookup (mv_refs v') h = Some r" for h r using c [of h] that by (simp add: count_is_def refs)
    moreover have "fmpred (\<lambda>_ x. clean_meta x) (mv_objects v')" using assms(2) by (simp add: rehomed_def)
    ultimately show ?thesis by (simp add: refs_ok_def balanced_def u fmpred_iff)
  qed
  then show ?thesis using assms keep by (auto simp: deduped_def moved_def rehomed_def)
qed

lemma full_filter: "length (filter P xs) = length (filter (\<lambda>x. Q x) xs) \<Longrightarrow> (\<And>x. P x \<Longrightarrow> Q x) \<Longrightarrow> x \<in> set xs \<Longrightarrow> Q x \<Longrightarrow> P x"
proof -
  assume a: "length (filter P xs) = length (filter (\<lambda>x. Q x) xs)" "\<And>x. P x \<Longrightarrow> Q x" "x \<in> set xs" "Q x"
  have "filter P (filter Q xs) = filter P xs" using a(2) by (auto intro: filter_cong)
  then have "length (filter P (filter Q xs)) = length (filter Q xs)" using a(1) by simp
  then have "filter P (filter Q xs) = filter Q xs" by (metis filter_id_conv length_filter_less less_irrefl)
  then have "\<forall>y \<in> set (filter Q xs). P y" by (simp only: filter_id_conv)
  then show "P x" using a(3,4) by simp
qed

lemma entries_ok:
  assumes "dedupable fuel v" "counts_uses v stats" "\<And>h. fmlookup refs h = None \<longleftrightarrow> lost v h"
  shows "\<forall>e \<in> set (fm_entries stats). entry_ok v refs {} e"
proof
  fix e assume "e \<in> set (fm_entries stats)"
  moreover obtain h st where e: "e = (h, st)" by fastforce
  ultimately have "fmlookup stats h = Some st" by (simp add: fm_entries_iff)
  then have u: "uses v h \<noteq> 0" "hs_count st = int (uses v h)"
    using assms(2) by (auto simp: counts_uses_def stat_of_def split: option.splits)
  then obtain i x where "fmlookup (mv_objects v) i = Some x" "om_hash x = h" by (auto simp: uses_card card_eq_0_iff)
  then have "clean_name h" using assms(1) by (auto simp: dedupable_def clean_meta_def dest: fmpredD)
  then show "entry_ok v refs {} e" using u assms(3) by (simp add: entry_ok_def e)
qed

text \<open>When as many references were created as were missing, every blob in use is accounted for.\<close>

lemma all_accounted:
  assumes "created opts v {} (fm_entries stats) r r1 None D" "dop_MaxFixes opts \<le> 0" "counts_uses v stats"
    and "missing_of r = (int (length (filter (\<lambda>e. lost v (fst e)) (fm_entries stats))), 0)"
    and "missing_of r2 = missing_of r1" "dr_MissingBlobRefs r2 = dr_MissingBlobRefsFixed r2"
  shows "fset (fmdom (mv_refs v)) \<union> {h. 0 < uses v h} \<subseteq> fset (fmdom (mv_refs v)) \<union> D"
proof -
  let ?es = "fm_entries stats"
  have f: "D = fst ` set (filter (refound v) ?es)" "length (filter (refound v) ?es) = length (filter (\<lambda>e. lost v (fst e)) ?es)"
    using assms(1,2,4-6) by (auto simp: created_def missing_of_def)
  have "h \<in> D" if h: "0 < uses v h" "lost v h" for h
  proof -
    have "fmlookup stats h \<noteq> None" using assms(3) h(1) by (auto simp: counts_uses_def)
    then obtain st where st: "(h, st) \<in> set ?es" by (auto simp: fm_entries_iff)
    have "refound v (h, st)" by (rule full_filter [OF f(2) _ st]) (use h(2) in \<open>auto simp: refound_def\<close>)
    then show ?thesis using st unfolding f(1) by force
  qed
  then show ?thesis by (auto simp: fmlookup_dom_iff)
qed

lemma listing_map: "keyed (dedupeRefMap (listing v))" "fmlookup (dedupeRefMap (listing v)) h = None \<longleftrightarrow> lost v h"
proof -
  have k: "keyed fmempty" by (simp add: keyed_def)
  show "keyed (dedupeRefMap (listing v))" unfolding dedupeRefMap_def by (rule ref_map(1) [OF k])
  show "fmlookup (dedupeRefMap (listing v)) h = None \<longleftrightarrow> lost v h"
    unfolding dedupeRefMap_def ref_map(2) [OF k] by (auto simp: listing_hashes(2) fmlookup_dom_iff)
qed

context metadata_listing
begin

lemma exact_refs:
  assumes "at_exactly clk v s" "\<And>s. at_exactly clk v s \<Longrightarrow> Q (listing v) s"
  shows "wp (on_meta (\<lambda>m. ListBlobRefs M m)) Q E s"
proof (rule exact_call [OF assms(1), where a = spec_ListBlobRefs], goal_cases)
  case 1
  then show ?case by (rule ListBlobRefs)
next
  case (2 s')
  then show ?case using assms(2) by (simp add: spec_ListBlobRefs_def listing_def)
qed

lemma collected_known:
  assumes "at_exactly clk v s" "dedupable fuel v" "mset (map dob_meta obs) = mset (fm_values (mv_objects v))"
  shows "\<forall>ob \<in> set obs. clean_object ob \<and> fmlookup (mv_objects v) (meta_key (dob_meta ob)) = Some (dob_meta ob)"
proof
  fix ob assume "ob \<in> set obs"
  moreover have "dob_meta ` set obs = set (fm_values (mv_objects v))" using assms(3) by (metis mset_eq_setD set_map)
  ultimately have "dob_meta ob \<in> set (fm_values (mv_objects v))" by blast
  then obtain i where i: "fmlookup (mv_objects v) i = Some (dob_meta ob)" by (auto simp: fm_values_iff)
  moreover have "ok (st_meta s)" "view (st_meta s) = v" using assms(1) by (auto simp: exactly_def)
  ultimately have "i = meta_key (dob_meta ob)" using objects_ok [of "st_meta s"] by (auto dest: fmpredD)
  then show "clean_object ob \<and> fmlookup (mv_objects v) (meta_key (dob_meta ob)) = Some (dob_meta ob)"
    using i assms(2) by (auto simp: clean_object_def dedupable_def dest: fmpredD)
qed

text \<open>The last two steps, after the missing references.\<close>

lemma settle_exact:
  assumes "at_exactly clk v1 s" "moved (toward opts v) D v v1" "keyed refs" "dedupable fuel v" "counts_uses v stats" "\<not> dop_DryRun opts"
    and "\<forall>ob \<in> set obs. clean_object ob \<and> fmlookup (mv_objects v) (meta_key (dob_meta ob)) = Some (dob_meta ob)" "D \<subseteq> {h. lost v h}"
    and "\<And>r'. dop_MaxFixes opts \<le> 0 \<Longrightarrow> missing_of r' = missing_of r \<Longrightarrow> dr_MissingBlobRefs r' = dr_MissingBlobRefsFixed r' \<Longrightarrow>
      fset (fmdom (mv_refs v)) \<union> {h. 0 < uses v h} \<subseteq> fset (fmdom (mv_refs v)) \<union> D"
  shows "wp (andThen (fixExistingBlobRefs fuel M opts stats (listing v) r) (\<lambda>(r, err). if err \<noteq> None then ret (r, err)
      else canonicalizeDedupeLayouts X M opts obs refs r)) (\<lambda>(r', err) s'. \<exists>v'. at_exactly clk v' s' \<and> deduped opts v v' r' err) (\<lambda>_ _. False) s"
proof -
  have one: "fmpred (\<lambda>_ r. 1 \<le> ref_count r) (mv_refs v)" using assms(4) by (auto simp: dedupable_def fmpred_iff)
  have b: "\<forall>b \<in> set (listing v). listed fuel v b \<and> ref_hash b \<notin> D"
  proof
    fix b assume "b \<in> set (listing v)"
    then have "listed fuel v b" by (rule listing_listed [OF assms(4)])
    moreover from this have "\<not> lost v (ref_hash b)" by (auto simp: listed_def)
    ultimately show "listed fuel v b \<and> ref_hash b \<notin> D" using assms(8) by auto
  qed
  show ?thesis
    unfolding wp_andThen
  proof (rule wp_mono [OF fixExisting_exact [OF assms(1,2,5,6) _ b]], goal_cases)
    case (2 y s2)
    then obtain r2 err2 v2 D2 where y: "y = (r2, err2)" "missing_of r2 = missing_of r" "at_exactly clk v2 s2" "moved (toward opts v) D2 v v2"
      "err2 = None \<longrightarrow> D2 = fset (fmdom (mv_refs v)) \<union> D" by (auto simp: listing_hashes(2))
    have o2: "mv_objects v2 = mv_objects v" using y(4) by (simp add: moved_def)
    have c2: "rehomed v2 v2" using assms(4) by (intro rehomed_refl) (simp add: o2 dedupable_def)
    show ?case
    proof (cases err2)
      case (Some a)
      then show ?thesis using y deduped_steps [OF y(4) c2 assms(6) one, of err2] by (auto simp: wp_simps)
    next
      case none: None
      have fin: "deduped opts v v' r' err'" if "missing_of r' = missing_of r2" "rehomed v2 v'" for r' err' v'
        by (rule deduped_steps [OF y(4) that(2) assms(6) one]) (use assms(9) [of r'] y(2,5) none that(1) in auto)
      have "wp (canonicalizeDedupeLayouts X M opts obs refs r2) (\<lambda>(r', err) s'. \<exists>v'. at_exactly clk v' s' \<and> deduped opts v v' r' err) (\<lambda>_ _. False) s2"
        by (rule wp_mono [OF canonicalize_exact [OF y(3) c2 assms(3), of obs]])
           (use assms(7) o2 fin in auto)
      then show ?thesis using y(1) none by simp
    qed
  qed (simp_all add: listing_hashes(1))
qed

lemma reconcile_exact:
  assumes "at_exactly clk v s" "dedupable fuel v" "missing_of r = (0, 0)" "mset (map dob_meta obs) = mset (fm_values (mv_objects v))"
    and stats: "stats = fold recordDedupeHashStat obs fmempty" and wet: "\<not> dop_DryRun opts"
  shows "wp (reconcile fuel X M opts obs stats (listing v) r) (\<lambda>(r', err) s'. \<exists>v'. at_exactly clk v' s' \<and> deduped opts v v' r' err) (\<lambda>_ _. False) s"
proof -
  let ?refs = "dedupeRefMap (listing v)" and ?es = "fm_entries stats"
  let ?r = "planMissingBlobRefs stats ?refs (r\<lparr>dr_BlobRefs := int (length (listing v))\<rparr>)"
  have clean: "fmpred (\<lambda>_ x. clean_meta x) (mv_objects v)" and one: "fmpred (\<lambda>_ r. 1 \<le> ref_count r) (mv_refs v)"
    using assms(2) by (auto simp: dedupable_def fmpred_iff)
  have cu: "counts_uses v stats" unfolding stats by (rule counts_uses_collected [OF clean assms(4)])
  note objs = collected_known [OF assms(1,2,4)] and es = entries_ok [OF assms(2) cu listing_map(2)]
  have plan: "missing_of ?r = (int (length (filter (\<lambda>e. lost v (fst e)) ?es)), 0)"
    by (simp add: planMissingBlobRefs_def plan_missing_count listing_map(2) assms(3))
  show ?thesis
    unfolding reconcile_def Let_def fixMissingBlobRefs_def wp_andThen [of "fix_missing M opts ?es (?refs, ?r)"]
  proof (rule wp_mono [OF fix_missing_exact [OF assms(1) moved_refl es _ listing_map(1) wet]], goal_cases)
    case (2 x s1)
    then obtain refs1 r1 err v1 D1 where x: "x = ((refs1, r1), err)" "at_exactly clk v1 s1" "moved (toward opts v) D1 v v1" "keyed refs1"
      "created opts v {} ?es ?r r1 err D1" by auto
    have l1: "D1 \<subseteq> {h. lost v h}" using x(5) by (auto simp: created_def)
    have c1: "rehomed v1 v1" using x(3) clean by (intro rehomed_refl) (simp add: moved_def)
    show ?case
    proof (cases err)
      case (Some a)
      then show ?thesis using x deduped_steps [OF x(3) c1 wet one, of err] by (auto simp: wp_simps)
    next
      case None
      show ?thesis
        using settle_exact [OF x(2,3,4) assms(2) cu wet objs l1, of r1] all_accounted [OF x(5) [unfolded None] _ cu plan] x(1) None by simp
    qed
  qed (simp_all add: fm_entries_def comp_def)
qed

lemma Dedupe_exact:
  assumes "at_exactly clk v s" "dedupable fuel v"
  shows "wp (Dedupe fuel X M opts) (\<lambda>(r, err) s'. \<exists>v'. at_exactly clk v' s' \<and> deduped opts v v' r err) (\<lambda>_ _. False) s"
proof -
  have s1: "at_exactly clk v (s\<lparr>st_tick := Suc (st_tick s)\<rparr>)" using assms(1) by simp
  have go: "wp (reconcile fuel X M opts obs stats (listing v) r) (\<lambda>(r', err) s'. \<exists>v'. at_exactly clk v' s' \<and> deduped opts v v' r' err) (\<lambda>_ _. False) s'"
    if "at_exactly clk v s'" "missing_of r = (0, 0)" "mset (map dob_meta obs) = mset (fm_values (mv_objects v))"
      "stats = fold recordDedupeHashStat obs fmempty" for obs stats r s'
  proof (cases "dop_DryRun opts")
    case True
    then obtain r' where "reconcile fuel X M opts obs stats (listing v) r = ret (r', None)" using reconcile_dry by blast
    then show ?thesis using that(1) True by (auto simp: wp_simps deduped_def)
  next
    case False
    then show ?thesis by (rule reconcile_exact [OF that(1) assms(2) that(2-4)])
  qed
  show ?thesis
    unfolding Dedupe_def wp_simps
  proof (rule wp_mono [OF collect_exact [OF s1]], goal_cases)
    case (1 x s2)
    then obtain obs stats r where x: "x = ((obs, stats, r), None)" "at_exactly clk v s2" "missing_of r = (0, 0)"
      "mset (map dob_meta obs) = mset (fm_values (mv_objects v))" "stats = fold recordDedupeHashStat obs fmempty"
      by (auto simp: newDedupeResult_def missing_of_def)
    show ?case
      unfolding x(1) by (simp add: wp_simps, rule exact_refs [OF x(2)]) (rule go [OF _ x(3-5)])
  qed simp
qed

end

end
