(* ===== verification/Dedupe_Both.thy ===== *)
theory Dedupe_Both
  imports Dedupe_Run
begin

text \<open>
  The properties of dedupe over the in-memory and over the replicated metadata.
\<close>

context metadata_listing
begin

lemma Dedupe_ends:
  assumes "ok (st_meta s)" "quiet (st_meta s)" "dedupable fuel (view (st_meta s))"
  shows "\<exists>s' r err. Dedupe fuel X M opts s = (s', Inr (r, err)) \<and> deduped opts (view (st_meta s)) (view (st_meta s')) r err"
proof -
  have "at_exactly (st_clock s) (view (st_meta s)) s" using assms(1,2) by (simp add: exactly_def)
  from Dedupe_exact [OF this assms(3), of X opts] show ?thesis
    by (cases "Dedupe fuel X M opts s"; cases "snd (Dedupe fuel X M opts s)") (auto simp: wp_def exactly_def)
qed

lemma Dedupe_outcome:
  assumes "ok (st_meta s)" "quiet (st_meta s)" "dedupable fuel (view (st_meta s))" "Dedupe fuel X M opts s = (s', Inr (r, err))"
  shows "deduped opts (view (st_meta s)) (view (st_meta s')) r err"
  using Dedupe_ends [OF assms(1-3), of X opts] assms(4) by auto

end

context raft_node
begin

lemma raft_Dedupe:
  assumes "sm_ok (sm (st_meta s))" "calm (st_meta s)" "dedupable fuel (sm_view (sm (st_meta s)))"
  shows "\<exists>s' r err. Dedupe fuel X (raftStore N) opts s = (s', Inr (r, err)) \<and>
    deduped opts (sm_view (sm (st_meta s))) (sm_view (sm (st_meta s'))) r err"
  using rml.Dedupe_ends [of s fuel X opts] assms by simp

end

text \<open>The same buckets, pending writes and objects, each with the same blob, and no blob in use has lost its last reference.\<close>

definition nothing_lost :: "meta_view \<Rightarrow> meta_view \<Rightarrow> bool" where
  "nothing_lost v v' \<longleftrightarrow> mv_buckets v' = mv_buckets v \<and> mv_staged v' = mv_staged v \<and>
     (\<forall>i. map_option om_hash (fmlookup (mv_objects v') i) = map_option om_hash (fmlookup (mv_objects v) i)) \<and>
     (\<forall>h. 0 < uses v h \<longrightarrow> fmlookup (mv_refs v) h \<noteq> None \<longrightarrow> fmlookup (mv_refs v') h \<noteq> None)"

lemma deduped_keeps: "deduped opts v v' r err \<Longrightarrow> nothing_lost v v'"
  by (simp add: deduped_def nothing_lost_def)

section \<open>Properties\<close>

text \<open>C8: dedupe always comes to an end. The loop that releases an orphan reference has no bound of its own; with as many rounds as
  the largest reference count, a run over metadata that answers returns a report, with or without an error, whatever its options
  and whatever the engine does.\<close>

theorem dedupe_terminates:
  "(im_ok (st_meta s) \<longrightarrow> dedupable fuel (im_view (st_meta s)) \<longrightarrow> (\<exists>s' r err. Dedupe fuel X inMemoryStore opts s = (s', Inr (r, err)))) \<and>
   (raft_node N sm calm \<longrightarrow> sm_ok (sm (st_meta n)) \<longrightarrow> calm (st_meta n) \<longrightarrow> dedupable fuel (sm_view (sm (st_meta n))) \<longrightarrow>
      (\<exists>n' r err. Dedupe fuel X (raftStore N) opts n = (n', Inr (r, err))))"
  using iml.Dedupe_ends [of s fuel X opts] raft_node.raft_Dedupe [of N sm calm n fuel X opts] by blast

text \<open>C6: an unlimited run of dedupe repairs the reference counts: when it reports no error and as many references created as it found
  missing, then the count of every blob is the number of committed objects that use it, no reference has a count of zero and no
  object is without a reference, however far the counts had drifted before.\<close>

theorem dedupe_repairs_reference_counts:
  assumes "\<not> dop_DryRun opts" "dop_MaxFixes opts \<le> 0" "dr_MissingBlobRefs r = dr_MissingBlobRefsFixed r"
  shows "(im_ok (st_meta s) \<longrightarrow> dedupable fuel (im_view (st_meta s)) \<longrightarrow> Dedupe fuel X inMemoryStore opts s = (s', Inr (r, None)) \<longrightarrow>
      refs_ok (im_view (st_meta s'))) \<and>
    (raft_node N sm calm \<longrightarrow> sm_ok (sm (st_meta n)) \<longrightarrow> calm (st_meta n) \<longrightarrow> dedupable fuel (sm_view (sm (st_meta n))) \<longrightarrow>
      Dedupe fuel X (raftStore N) opts n = (n', Inr (r, None)) \<longrightarrow> refs_ok (sm_view (sm (st_meta n'))))"
proof (intro conjI impI)
  assume "im_ok (st_meta s)" "dedupable fuel (im_view (st_meta s))" "Dedupe fuel X inMemoryStore opts s = (s', Inr (r, None))"
  then show "refs_ok (im_view (st_meta s'))" using iml.Dedupe_outcome assms by (simp add: deduped_def)
next
  assume "raft_node N sm calm" "sm_ok (sm (st_meta n))" "calm (st_meta n)" "dedupable fuel (sm_view (sm (st_meta n)))"
    "Dedupe fuel X (raftStore N) opts n = (n', Inr (r, None))"
  then show "refs_ok (sm_view (sm (st_meta n')))" using raft_node.raft_Dedupe [of N sm calm n fuel X opts] assms by (auto simp: deduped_def)
qed

text \<open>C7: dedupe loses nothing. However a run ends, with an error, at its limit or as a dry run, buckets and pending writes are
  untouched, the same objects exist with the same blobs, and a blob that a committed object uses never loses its last
  reference; a dry run changes no metadata at all.\<close>

theorem dedupe_loses_nothing:
  "(im_ok (st_meta s) \<longrightarrow> dedupable fuel (im_view (st_meta s)) \<longrightarrow> Dedupe fuel X inMemoryStore opts s = (s', Inr (r, err)) \<longrightarrow>
      nothing_lost (im_view (st_meta s)) (im_view (st_meta s')) \<and> (dop_DryRun opts \<longrightarrow> im_view (st_meta s') = im_view (st_meta s))) \<and>
   (raft_node N sm calm \<longrightarrow> sm_ok (sm (st_meta n)) \<longrightarrow> calm (st_meta n) \<longrightarrow> dedupable fuel (sm_view (sm (st_meta n))) \<longrightarrow>
      Dedupe fuel X (raftStore N) opts n = (n', Inr (r, err)) \<longrightarrow>
      nothing_lost (sm_view (sm (st_meta n))) (sm_view (sm (st_meta n'))) \<and> (dop_DryRun opts \<longrightarrow> sm_view (sm (st_meta n')) = sm_view (sm (st_meta n))))"
proof (intro conjI impI, goal_cases)
  case 1
  then show ?case using deduped_keeps [OF iml.Dedupe_outcome [OF 1(1) TrueI 1(2,3)]] by simp
next
  case 2
  then show ?case using iml.Dedupe_outcome [OF 2(1) TrueI 2(2,3)] by (simp add: deduped_def)
next
  case 3
  then show ?case using raft_node.raft_Dedupe [of N sm calm n fuel X opts] by (auto intro: deduped_keeps)
next
  case 4
  then show ?case using raft_node.raft_Dedupe [of N sm calm n fuel X opts] by (auto simp: deduped_def)
qed

text \<open>C29: limits of dedupe. Over any metadata service and any engine, and however it ends, a run with a positive limit reports at most that many
  fixes, and never more than fifty issues.\<close>

theorem dedupe_respects_limit:
  assumes "Dedupe fuel X M opts s = (s', Inr (r, err))"
  shows "(0 < dop_MaxFixes opts \<longrightarrow> dr_Fixes r \<le> dop_MaxFixes opts) \<and> length (dr_Issues r) \<le> 50"
  using wpD(1) [OF Dedupe_limited [of fuel X M opts s] assms] by (simp add: within_def maxDedupeIssues_def)

section \<open>Witnesses\<close>

text \<open>One object whose reference was counted three times, and an orphan reference counted twice.\<close>

definition demo_drift :: "InMemoryMetadata Store" where
  "demo_drift = \<lparr>st_meta = \<lparr>im_buckets = fmap_of_list [(''b'', {|''k''|})], im_objects = fmap_of_list [(object_key ''b'' ''k'', demo_object)],
       im_staged = fmempty,
       im_blobs = fmap_of_list [(''h'', (new_ref ''h'' ''p'' 3 [] [] [])\<lparr>ref_count := 3\<rparr>), (''o'', (new_ref ''o'' ''p'' 5 [] [] [])\<lparr>ref_count := 2\<rparr>)]\<rparr>,
     st_engine = demo_engine,
     st_recovery = \<lparr>rs_LastResult = \<lparr>rv_StartedAt = 0, rv_FinishedAt = 0, rv_PendingRemoved = 0, rv_PendingActions = fmempty,
         rv_OrphanShardCleanup = no_orphans, rv_DryRun = False\<rparr>, rs_LastError = None, rs_Completed = False\<rparr>,
     st_clock = int, st_tick = 5\<rparr>"

definition demo_dedupe :: DedupeOptions where
  "demo_dedupe = \<lparr>dop_DryRun = False, dop_MaxFixes = 0\<rparr>"

definition demo_deduped :: "InMemoryMetadata Store \<times> (store_error + DedupeResult \<times> store_error option)" where
  "demo_deduped = Dedupe 3 demo_X inMemoryStore demo_dedupe demo_drift"

lemma demo_drift_ok: "im_ok (st_meta demo_drift)" "dedupable 3 (im_view (st_meta demo_drift))"
proof -
  have [simp]: "clean_bucket ''b''" "clean_meta demo_object" "clean_name ''h''" "clean_name ''o''" "meta_key demo_object = object_key ''b'' ''k''" by code_simp+
  show "im_ok (st_meta demo_drift)" by (auto simp: im_ok_def demo_drift_def fmpred_iff demo_object_def [symmetric]) (simp_all add: demo_object_def)
  show "dedupable 3 (im_view (st_meta demo_drift))" by (auto simp: dedupable_def im_view_def demo_drift_def fmpred_iff new_ref_def split: if_splits)
qed

theorem dedupe_terminates_witness: "\<exists>s' r err. Dedupe 3 demo_X inMemoryStore demo_dedupe demo_drift = (s', Inr (r, err))"
  using dedupe_terminates [of demo_drift 3 demo_X demo_dedupe replica_node rep_sm replica_calm] demo_drift_ok by blast

lemma demo_deduped_report:
  "case snd demo_deduped of Inr (r, None) \<Rightarrow> dr_MissingBlobRefs r = dr_MissingBlobRefsFixed r | _ \<Rightarrow> False"
  by code_simp

lemma reported: "(case snd x of Inr (r, None) \<Rightarrow> P r | _ \<Rightarrow> False) \<Longrightarrow> \<exists>r. x = (fst x, Inr (r, None)) \<and> P r"
  by (cases x) (auto split: sum.splits prod.splits option.splits)

lemma demo_deduped_result:
  obtains r where "Dedupe 3 demo_X inMemoryStore demo_dedupe demo_drift = (fst demo_deduped, Inr (r, None))"
    "dr_MissingBlobRefs r = dr_MissingBlobRefsFixed r"
  using reported [OF demo_deduped_report] unfolding demo_deduped_def [symmetric] by blast

theorem dedupe_repairs_reference_counts_witness:
  "refs_ok (im_view (st_meta (fst demo_deduped))) \<and> ref_of (im_view (st_meta (fst demo_deduped))) ''h'' = 1 \<and>
   ref_of (im_view (st_meta (fst demo_deduped))) ''o'' = 0"
proof (intro conjI)
  obtain r where r: "Dedupe 3 demo_X inMemoryStore demo_dedupe demo_drift = (fst demo_deduped, Inr (r, None))"
    "dr_MissingBlobRefs r = dr_MissingBlobRefsFixed r" by (rule demo_deduped_result)
  show "refs_ok (im_view (st_meta (fst demo_deduped)))"
    using dedupe_repairs_reference_counts [of demo_dedupe r demo_drift 3 demo_X "fst demo_deduped" replica_node rep_sm replica_calm] r demo_drift_ok
    by (simp add: demo_dedupe_def)
  show "ref_of (im_view (st_meta (fst demo_deduped))) ''h'' = 1" "ref_of (im_view (st_meta (fst demo_deduped))) ''o'' = 0"
    by code_simp+
qed

theorem dedupe_loses_nothing_witness:
  "mv_buckets (im_view (st_meta (fst demo_deduped))) = mv_buckets (im_view (st_meta demo_drift)) \<and>
   fmlookup (mv_refs (im_view (st_meta (fst demo_deduped)))) ''h'' \<noteq> None"
proof -
  obtain r where r: "Dedupe 3 demo_X inMemoryStore demo_dedupe demo_drift = (fst demo_deduped, Inr (r, None))" by (rule demo_deduped_result)
  have "0 < uses (im_view (st_meta demo_drift)) ''h''" "fmlookup (mv_refs (im_view (st_meta demo_drift))) ''h'' \<noteq> None" by code_simp+
  then show ?thesis
    using dedupe_loses_nothing [of demo_drift 3 demo_X demo_dedupe "fst demo_deduped" r None replica_node rep_sm replica_calm] demo_drift_ok r
    unfolding nothing_lost_def by blast
qed

definition demo_one_fix :: "InMemoryMetadata Store \<times> (store_error + DedupeResult \<times> store_error option)" where
  "demo_one_fix = Dedupe 3 demo_X inMemoryStore \<lparr>dop_DryRun = False, dop_MaxFixes = 1\<rparr> demo_drift"

theorem dedupe_respects_limit_witness:
  "(case snd demo_one_fix of Inr (r, _) \<Rightarrow> dr_Fixes r \<le> 1 \<and> length (dr_Issues r) \<le> 50 | Inl _ \<Rightarrow> False) \<and>
   ref_of (im_view (st_meta (fst demo_one_fix))) ''h'' = 2"
proof
  obtain s' r err where f: "demo_one_fix = (s', Inr (r, err))"
    using iml.Dedupe_ends [OF demo_drift_ok(1) TrueI demo_drift_ok(2)] unfolding demo_one_fix_def by blast
  show "case snd demo_one_fix of Inr (r, _) \<Rightarrow> dr_Fixes r \<le> 1 \<and> length (dr_Issues r) \<le> 50 | Inl _ \<Rightarrow> False"
    unfolding f using dedupe_respects_limit [OF f [unfolded demo_one_fix_def]] by simp
  show "ref_of (im_view (st_meta (fst demo_one_fix))) ''h'' = 2" by code_simp
qed

end
