(* ===== verification/Go_HTTP.thy ===== *)
theory Go_HTTP
  imports Go_Prelude "HOL-Library.Char_ord" "HOL-Library.List_Lexorder"
begin

text \<open>
  What the program uses of \<open>net/http\<close>, \<open>net/url\<close> and \<open>strings\<close> to read a request: queries, headers with canonical names, escaping, and the
  request itself as the server hands it to a handler. The URL is already parsed: \<open>rq_Path\<close> is \<open>r.URL.Path\<close>, \<open>rq_EscapedPath\<close>
  is \<open>r.URL.EscapedPath()\<close> and \<open>rq_Query\<close> is \<open>r.URL.Query()\<close>. A body is its bytes, or the error of reading it.
\<close>

section \<open>Queries\<close>

text \<open>\<open>url.Values\<close>: the values of each name; \<open>Get\<close> is the first one.\<close>

type_synonym url_values = "(string, string list) fmap"

definition query_get :: "url_values \<Rightarrow> string \<Rightarrow> string" where
  "query_get query name = (case fmlookup query name of Some (v # _) \<Rightarrow> v | _ \<Rightarrow> [])"

section \<open>Headers\<close>

type_synonym http_header = "(string, string list) fmap"

definition upper_char :: "char \<Rightarrow> char" where
  "upper_char c = (if CHR ''a'' \<le> c \<and> c \<le> CHR ''z'' then char_of (of_char c - (32 :: nat)) else c)"

definition is_letter :: "char \<Rightarrow> bool" where
  "is_letter c \<longleftrightarrow> CHR ''A'' \<le> upper_char c \<and> upper_char c \<le> CHR ''Z''"

definition header_byte :: "char \<Rightarrow> bool" where
  "header_byte c \<longleftrightarrow> is_letter c \<or> is_digit c \<or> c \<in> set ''!#$%&*+-.^_|~'' \<or> c = CHR 0x27 \<or> c = CHR 0x60"

fun capitalize :: "bool \<Rightarrow> string \<Rightarrow> string" where
  "capitalize upper [] = []"
| "capitalize upper (c # s) = (if upper then upper_char c else lower_char c) # capitalize (c = CHR ''-'') s"

definition CanonicalHeaderKey :: "string \<Rightarrow> string" where
  "CanonicalHeaderKey s = (if list_all header_byte s then capitalize True s else s)"

definition header_values :: "http_header \<Rightarrow> string \<Rightarrow> string list" where
  "header_values h name = (case fmlookup h (CanonicalHeaderKey name) of None \<Rightarrow> [] | Some vs \<Rightarrow> vs)"

definition header_get :: "http_header \<Rightarrow> string \<Rightarrow> string" where
  "header_get h name = (case header_values h name of [] \<Rightarrow> [] | v # _ \<Rightarrow> v)"

definition header_set :: "string \<Rightarrow> string \<Rightarrow> http_header \<Rightarrow> http_header" where
  "header_set name v h = fmupd (CanonicalHeaderKey name) [v] h"

section \<open>Strings\<close>

fun join_with :: "string \<Rightarrow> string list \<Rightarrow> string" where
  "join_with sep [] = []"
| "join_with sep [s] = s"
| "join_with sep (s # ss) = s @ sep @ join_with sep ss"

text \<open>\<open>strings.ReplaceAll\<close> of a non-empty text.\<close>

function replace_all :: "string \<Rightarrow> string \<Rightarrow> string \<Rightarrow> string" where
  "replace_all old new s =
     (if s = [] \<or> old = [] then s
      else if has_prefix s old then new @ replace_all old new (drop (length old) s)
      else hd s # replace_all old new (tl s))"
  by pat_completeness auto
termination by (relation "measure (\<lambda>(_, _, s). length s)") (auto simp: has_prefix_def)

declare replace_all.simps [simp del]

text \<open>\<open>strings.Fields\<close>: the text between runs of white space.\<close>

definition at_space :: "string \<Rightarrow> bool" where
  "at_space s \<longleftrightarrow> list_ex (has_prefix s) space_runes"

fun take_field :: "string \<Rightarrow> string \<times> string" where
  "take_field [] = ([], [])"
| "take_field (c # s) = (if at_space (c # s) then ([], c # s) else case take_field s of (f, rest) \<Rightarrow> (c # f, rest))"

lemma take_field_shorter: "take_field s = (f, rest) \<Longrightarrow> length f + length rest = length s"
  by (induction s arbitrary: f rest) (auto split: if_splits prod.splits)

lemma trim_left_shorter: "length (trim_left s) \<le> length s"
  using strip_front_suffix [of s space_runes] unfolding trim_left_def by (metis le_add2 length_append)

function split_fields :: "string \<Rightarrow> string list" where
  "split_fields s =
     (let s = trim_left s in
      if s = [] then []
      else case take_field s of (f, rest) \<Rightarrow> if f = [] then [] else f # split_fields rest)"
  by pat_completeness auto
termination
proof (relation "measure length")
  fix s x f rest
  assume "x = trim_left s" "(f, rest) = take_field x" "f \<noteq> []"
  then have "length rest < length x" using take_field_shorter [of x f rest] by (cases f) auto
  with trim_left_shorter [of s] show "(rest, s) \<in> measure length" using \<open>x = trim_left s\<close> by simp
qed simp

declare split_fields.simps [simp del]

section \<open>Escapes\<close>

definition upper_hex :: "nat \<Rightarrow> char" where
  "upper_hex n = ''0123456789ABCDEF'' ! n"

definition unreserved :: "char \<Rightarrow> bool" where
  "unreserved c \<longleftrightarrow> is_letter c \<or> is_digit c \<or> c \<in> set ''-_.~''"

definition percent :: "char \<Rightarrow> string" where
  "percent c = [CHR ''%'', upper_hex (of_char c div 16), upper_hex (of_char c mod 16)]"

text \<open>\<open>url.QueryEscape\<close>.\<close>

definition query_escape_char :: "char \<Rightarrow> string" where
  "query_escape_char c = (if unreserved c then [c] else if c = CHR '' '' then ''+'' else percent c)"

definition QueryEscape :: "string \<Rightarrow> string" where
  "QueryEscape s = concat (map query_escape_char s)"

section \<open>Requests\<close>

record Request =
  rq_Method :: string
  rq_Path :: string
  rq_EscapedPath :: string
  rq_Query :: url_values
  rq_Header :: http_header
  rq_Host :: string
  rq_Body :: "string + bytes"

end
