(* ===== verification/Go_Base64.thy ===== *)
theory Go_Base64
  imports Go_Prelude
begin

text \<open>
  \<open>base64.RawURLEncoding\<close> of the Go standard library, which the gateway uses for continuation tokens: the URL alphabet, no padding.
  Decoding skips line breaks, rejects every other byte outside the alphabet and a lone last symbol, and ignores the unused bits
  of the last symbol.
\<close>

definition base64_alphabet :: string where
  "base64_alphabet = ''ABCDEFGHIJKLMNOPQRSTUVWXYZabcdefghijklmnopqrstuvwxyz0123456789-_''"

definition base64_symbol :: "nat \<Rightarrow> char" where
  "base64_symbol n = base64_alphabet ! n"

fun position_of :: "char \<Rightarrow> string \<Rightarrow> nat option" where
  "position_of c [] = None"
| "position_of c (d # ds) = (if c = d then Some 0 else map_option Suc (position_of c ds))"

definition base64_value :: "char \<Rightarrow> nat option" where
  "base64_value c = position_of c base64_alphabet"

fun base64_encode :: "bytes \<Rightarrow> string" where
  "base64_encode [] = []"
| "base64_encode [a] =
     (let a = of_char a :: nat in map base64_symbol [a div 4, a mod 4 * 16])"
| "base64_encode [a, b] =
     (let a = of_char a :: nat; b = of_char b :: nat in map base64_symbol [a div 4, a mod 4 * 16 + b div 16, b mod 16 * 4])"
| "base64_encode (a # b # c # rest) =
     (let x = of_char a :: nat; y = of_char b :: nat; z = of_char c :: nat
      in map base64_symbol [x div 4, x mod 4 * 16 + y div 16, y mod 16 * 4 + z div 64, z mod 64] @ base64_encode rest)"

fun base64_bytes :: "nat list \<Rightarrow> bytes option" where
  "base64_bytes [] = Some []"
| "base64_bytes [w] = None"
| "base64_bytes [w, x] = Some [char_of (w * 4 + x div 16)]"
| "base64_bytes [w, x, y] = Some [char_of (w * 4 + x div 16), char_of (x mod 16 * 16 + y div 4)]"
| "base64_bytes (w # x # y # z # rest) =
     map_option (\<lambda>bs. char_of (w * 4 + x div 16) # char_of (x mod 16 * 16 + y div 4) # char_of (y mod 4 * 64 + z) # bs) (base64_bytes rest)"

definition base64_decode :: "string \<Rightarrow> bytes option" where
  "base64_decode s =
     (let vs = map base64_value (filter (\<lambda>c. c \<noteq> CHR 0x0A \<and> c \<noteq> CHR 0x0D) s)
      in if None \<in> set vs then None else base64_bytes (map the vs))"

section \<open>Round trip\<close>

lemma base64_symbols:
  "list_all (\<lambda>n. base64_value (base64_symbol n) = Some n \<and> base64_symbol n \<noteq> CHR 0x0A \<and> base64_symbol n \<noteq> CHR 0x0D) [0..<64]"
  by code_simp

lemma base64_symbol_ok:
  assumes "n < 64"
  shows "base64_value (base64_symbol n) = Some n" "base64_symbol n \<noteq> CHR 0x0A" "base64_symbol n \<noteq> CHR 0x0D"
  using base64_symbols assms by (auto simp: list_all_iff)

text \<open>The symbols of an encoding, as numbers.\<close>

fun base64_digits :: "bytes \<Rightarrow> nat list" where
  "base64_digits [] = []"
| "base64_digits [a] = (let a = of_char a :: nat in [a div 4, a mod 4 * 16])"
| "base64_digits [a, b] = (let a = of_char a :: nat; b = of_char b :: nat in [a div 4, a mod 4 * 16 + b div 16, b mod 16 * 4])"
| "base64_digits (a # b # c # rest) =
     (let x = of_char a :: nat; y = of_char b :: nat; z = of_char c :: nat
      in [x div 4, x mod 4 * 16 + y div 16, y mod 16 * 4 + z div 64, z mod 64] @ base64_digits rest)"

lemma base64_encode_digits: "base64_encode data = map base64_symbol (base64_digits data)"
  by (induction data rule: base64_digits.induct) (simp_all add: Let_def)

lemma byte_bound: "(of_char c :: nat) < 256"
  by (metis of_char_of nat_of_char_less_256)

lemma quotient: "r < m \<Longrightarrow> (k * m + r) div m = k" "r < m \<Longrightarrow> (k * m + r) mod m = r" for k m r :: nat
  by simp_all

lemma parts: "(of_char c :: nat) div 16 < 16" "(of_char c :: nat) div 64 < 4" "(of_char c :: nat) div 4 < 64"
  using byte_bound [of c] by (simp_all add: less_mult_imp_div_less)

lemma group_bounds: "x < 4 \<Longrightarrow> y < 16 \<Longrightarrow> x * 16 + y < (64 :: nat)" "x < 16 \<Longrightarrow> y < 4 \<Longrightarrow> x * 4 + y < (64 :: nat)"
  by linarith+

lemma base64_digits_bound: "n \<in> set (base64_digits data) \<Longrightarrow> n < 64"
proof (induction data rule: base64_digits.induct)
  case (4 a b c rest)
  then show ?case using parts [of a] parts [of b] parts [of c] by (auto simp: Let_def intro!: group_bounds)
qed (use parts in \<open>auto simp: Let_def intro!: group_bounds\<close>)

lemma rejoin:
  fixes a b :: char
  defines "x \<equiv> of_char a :: nat" and "y \<equiv> of_char b :: nat"
  shows "x div 4 * 4 + (x mod 4 * 16 + y div 16) div 16 = x" "(x mod 4 * 16 + y div 16) mod 16 * 16 + y mod 16 = y"
    "x div 4 * 4 + x mod 4 * 16 div 16 = x"
  using quotient(1) [of "y div 16" 16 "x mod 4"] quotient(2) [of "y div 16" 16 "x mod 4"] parts(1) [of b] by (simp_all add: y_def)

lemma regroup:
  fixes c :: char
  defines "z \<equiv> of_char c :: nat"
  shows "(k * 4 + z div 64) div 4 = k" "(k * 4 + z div 64) mod 4 * 64 + z mod 64 = z"
  using quotient(1) [of "z div 64" 4 k] quotient(2) [of "z div 64" 4 k] parts(2) [of c] by (simp_all add: z_def)

lemma base64_bytes_digits: "base64_bytes (base64_digits data) = Some data"
proof (induction data rule: base64_digits.induct)
  case (2 a)
  then show ?case using rejoin(3) [of a] by (simp add: Let_def)
next
  case (3 a b)
  then show ?case using rejoin(1,2) [of a b] by (simp add: Let_def)
next
  case (4 a b c rest)
  then show ?case using rejoin(1,2) [of a b] regroup [of _ c] by (simp add: Let_def)
qed simp

lemma base64_roundtrip: "base64_decode (base64_encode data) = Some data"
proof -
  let ?ds = "base64_digits data"
  have "filter (\<lambda>c. c \<noteq> CHR 0x0A \<and> c \<noteq> CHR 0x0D) (map base64_symbol ?ds) = map base64_symbol ?ds"
    using base64_symbol_ok base64_digits_bound by (auto intro!: filter_True)
  moreover have "map base64_value (map base64_symbol ?ds) = map Some ?ds"
    unfolding map_map using base64_symbol_ok(1) base64_digits_bound by (intro map_cong) auto
  moreover have "map the (map Some ?ds) = ?ds" by (simp add: comp_def)
  ultimately show ?thesis unfolding base64_decode_def base64_encode_digits Let_def by (simp add: base64_bytes_digits del: map_map filter_map)
qed

end
