(* ===== verification/Go_Hex.thy ===== *)
theory Go_Hex
  imports Go_Prelude
begin

text \<open>
  \<open>encoding/hex\<close> of the Go standard library: two lower-case digits for a byte; decoding takes either case and rejects an odd
  length and every other byte. The last section has the quoting of entity tags.
\<close>

definition hex_digit :: "nat \<Rightarrow> char" where
  "hex_digit n = ''0123456789abcdef'' ! n"

definition hex_encode :: "bytes \<Rightarrow> string" where
  "hex_encode data = concat (map (\<lambda>c. let n = of_char c :: nat in [hex_digit (n div 16), hex_digit (n mod 16)]) data)"

definition hex_value :: "char \<Rightarrow> nat option" where
  "hex_value c =
     (if is_digit c then Some (digit_val c)
      else if CHR ''a'' \<le> c \<and> c \<le> CHR ''f'' then Some (of_char c - 87)
      else if CHR ''A'' \<le> c \<and> c \<le> CHR ''F'' then Some (of_char c - 55)
      else None)"

fun hex_decode :: "string \<Rightarrow> bytes option" where
  "hex_decode [] = Some []"
| "hex_decode [c] = None"
| "hex_decode (c # d # s) =
     (case (hex_value c, hex_value d, hex_decode s) of
        (Some x, Some y, Some data) \<Rightarrow> Some (char_of (x * 16 + y) # data)
      | _ \<Rightarrow> None)"

lemma hex_digits:
  "list_all (\<lambda>n. hex_value (hex_digit n) = Some n \<and> plain_char (hex_digit n) \<and> hex_digit n \<noteq> CHR 0x22) [0..<16]"
  by code_simp

lemma hex_digit_ok:
  assumes "n < 16"
  shows "hex_value (hex_digit n) = Some n" "plain_char (hex_digit n)" "hex_digit n \<noteq> CHR 0x22"
  using hex_digits assms by (auto simp: list_all_iff)

lemma nibbles: "(of_char c :: nat) div 16 < 16" "(of_char c :: nat) mod 16 < 16"
  by (simp_all add: less_mult_imp_div_less of_char_def)

lemma hex_encode_simps [simp]:
  "hex_encode [] = []"
  "hex_encode (c # data) = hex_digit (of_char c div 16) # hex_digit (of_char c mod 16) # hex_encode data"
  by (simp_all add: hex_encode_def Let_def)

lemma hex_roundtrip: "hex_decode (hex_encode data) = Some data"
  by (induction data) (simp_all add: hex_digit_ok nibbles)

lemma hex_encode_chars: "c \<in> set (hex_encode data) \<Longrightarrow> plain_char c \<and> c \<noteq> CHR 0x22"
  by (induction data) (auto simp: hex_digit_ok nibbles)

lemma length_hex_encode [simp]: "length (hex_encode data) = 2 * length data"
  by (induction data) simp_all

lemma hex_encode_inject: "hex_encode a = hex_encode b \<longleftrightarrow> a = b"
  by (metis hex_roundtrip option.inject)

lemma trim_space_hex: "trim_space (hex_encode data) = hex_encode data"
proof (cases data)
  case (Cons c rest)
  then have "hex_encode data \<noteq> []" by simp
  then show ?thesis using trim_space_plain [of "hex_encode data"] hex_encode_chars [of _ data] by (meson hd_in_set last_in_set)
qed simp

section \<open>Quotes\<close>

definition trim_quotes :: "string \<Rightarrow> string" where
  "trim_quotes s = trim_chars [CHR 0x22] s"

definition quoteETag :: "string \<Rightarrow> string" where
  "quoteETag value = CHR 0x22 # trim_quotes value @ [CHR 0x22]"

lemma trim_quotes_none: "CHR 0x22 \<notin> set s \<Longrightarrow> trim_quotes s = s"
proof -
  assume a: "CHR 0x22 \<notin> set s"
  have d: "dropWhile (\<lambda>c. c \<in> set [CHR 0x22]) t = t" if "CHR 0x22 \<notin> set t" for t using that by (cases t) auto
  show ?thesis using a by (simp only: trim_quotes_def trim_chars_def d set_rev rev_rev_ident not_False_eq_True)
qed

lemma trim_quotes_quoted: "CHR 0x22 \<notin> set s \<Longrightarrow> trim_quotes (quoteETag s) = s"
proof -
  assume a: "CHR 0x22 \<notin> set s"
  have d: "dropWhile (\<lambda>c. c \<in> set [CHR 0x22]) t = t" if "CHR 0x22 \<notin> set t" for t using that by (cases t) auto
  have "dropWhile (\<lambda>c. c \<in> set [CHR 0x22]) (CHR 0x22 # s @ [CHR 0x22]) = (if s = [] then [] else s @ [CHR 0x22])" using a by (cases s) auto
  then show ?thesis
    using a d [of "rev s"] by (simp add: quoteETag_def trim_quotes_none) (simp add: trim_quotes_def trim_chars_def)
qed

lemma trim_quotes_hex [simp]: "trim_quotes (hex_encode data) = hex_encode data"
  using hex_encode_chars [of _ data] by (intro trim_quotes_none) blast

lemma trim_quotes_etag [simp]: "trim_quotes (quoteETag (hex_encode data)) = hex_encode data"
  using hex_encode_chars [of _ data] by (intro trim_quotes_quoted) blast

end
