(* ===== verification/S3_MD5.thy ===== *)
theory S3_MD5
  imports Go_Prelude "HOL-Library.Word"
begin

text \<open>
  The MD5 digest the gateway computes for multipart uploads: \<open>internal/s3/md5_digest.go\<close>. It is a hand-written streaming
  implementation with a 64-byte buffer; words are 32 bits wide and wrap. The reference is the definition of RFC 1321: padding
  of the whole message, and the sixteen steps of each of the four rounds written out with the tables of the RFC.
\<close>

unbundle bit_operations_syntax

section \<open>The digest\<close>

abbreviation protocolMD5BlockSize :: nat where "protocolMD5BlockSize \<equiv> 64"

definition protocolMD5Shift :: "nat list" where
  "protocolMD5Shift =
    [7, 12, 17, 22, 7, 12, 17, 22, 7, 12, 17, 22, 7, 12, 17, 22,
     5, 9, 14, 20, 5, 9, 14, 20, 5, 9, 14, 20, 5, 9, 14, 20,
     4, 11, 16, 23, 4, 11, 16, 23, 4, 11, 16, 23, 4, 11, 16, 23,
     6, 10, 15, 21, 6, 10, 15, 21, 6, 10, 15, 21, 6, 10, 15, 21]"

definition protocolMD5Table :: "32 word list" where
  "protocolMD5Table =
    [0xd76aa478, 0xe8c7b756, 0x242070db, 0xc1bdceee,
     0xf57c0faf, 0x4787c62a, 0xa8304613, 0xfd469501,
     0x698098d8, 0x8b44f7af, 0xffff5bb1, 0x895cd7be,
     0x6b901122, 0xfd987193, 0xa679438e, 0x49b40821,
     0xf61e2562, 0xc040b340, 0x265e5a51, 0xe9b6c7aa,
     0xd62f105d, 0x02441453, 0xd8a1e681, 0xe7d3fbc8,
     0x21e1cde6, 0xc33707d6, 0xf4d50d87, 0x455a14ed,
     0xa9e3e905, 0xfcefa3f8, 0x676f02d9, 0x8d2a4c8a,
     0xfffa3942, 0x8771f681, 0x6d9d6122, 0xfde5380c,
     0xa4beea44, 0x4bdecfa9, 0xf6bb4b60, 0xbebfbc70,
     0x289b7ec6, 0xeaa127fa, 0xd4ef3085, 0x04881d05,
     0xd9d4d039, 0xe6db99e5, 0x1fa27cf8, 0xc4ac5665,
     0xf4292244, 0x432aff97, 0xab9423a7, 0xfc93a039,
     0x655b59c3, 0x8f0ccc92, 0xffeff47d, 0x85845dd1,
     0x6fa87e4f, 0xfe2ce6e0, 0xa3014314, 0x4e0811a1,
     0xf7537e82, 0xbd3af235, 0x2ad7d2bb, 0xeb86d391]"

type_synonym md5_words = "32 word \<times> 32 word \<times> 32 word \<times> 32 word"

record protocolMD5 =
  md_state :: md5_words
  md_buf :: bytes
  md_nx :: nat
  md_len :: "64 word"

definition protocolMD5Init :: md5_words where
  "protocolMD5Init = (0x67452301, 0xefcdab89, 0x98badcfe, 0x10325476)"

definition Reset :: "protocolMD5 \<Rightarrow> protocolMD5" where
  "Reset d = d\<lparr>md_state := protocolMD5Init, md_nx := 0, md_len := 0\<rparr>"

definition newProtocolMD5 :: protocolMD5 where
  "newProtocolMD5 = Reset \<lparr>md_state = (0, 0, 0, 0), md_buf = replicate protocolMD5BlockSize (CHR 0x00), md_nx = 0, md_len = 0\<rparr>"

text \<open>\<open>binary.LittleEndian\<close>.\<close>

definition byte_word :: "char \<Rightarrow> 'a::len word" where
  "byte_word c = word_of_nat (of_char c)"

definition LittleEndian_Uint32 :: "bytes \<Rightarrow> 32 word" where
  "LittleEndian_Uint32 b = byte_word (b ! 0) OR push_bit 8 (byte_word (b ! 1)) OR push_bit 16 (byte_word (b ! 2)) OR push_bit 24 (byte_word (b ! 3))"

definition LittleEndian_Put :: "nat \<Rightarrow> 'a::len word \<Rightarrow> bytes" where
  "LittleEndian_Put n w = map (\<lambda>i. char_of (unat (drop_bit (8 * i) w))) [0..<n]"

definition protocolMD5Round :: "nat \<Rightarrow> 32 word \<Rightarrow> 32 word \<Rightarrow> 32 word \<Rightarrow> 32 word" where
  "protocolMD5Round rnd b c d =
     (if rnd < 16 then (b AND c) OR (NOT b AND d)
      else if rnd < 32 then (d AND b) OR (NOT d AND c)
      else if rnd < 48 then b XOR c XOR d
      else c XOR (b OR NOT d))"

definition protocolMD5WordIndex :: "nat \<Rightarrow> nat" where
  "protocolMD5WordIndex rnd =
     (if rnd < 16 then rnd
      else if rnd < 32 then (5 * rnd + 1) mod 16
      else if rnd < 48 then (3 * rnd + 5) mod 16
      else (7 * rnd) mod 16)"

definition protocolMD5WordLow :: "nat \<Rightarrow> 32 word list \<Rightarrow> 32 word" where
  "protocolMD5WordLow index words =
     (if index = 0 then words ! 0 else if index = 1 then words ! 1 else if index = 2 then words ! 2
      else if index = 3 then words ! 3 else if index = 4 then words ! 4 else if index = 5 then words ! 5
      else if index = 6 then words ! 6 else words ! 7)"

definition protocolMD5WordHigh :: "nat \<Rightarrow> 32 word list \<Rightarrow> 32 word" where
  "protocolMD5WordHigh index words =
     (if index = 8 then words ! 8 else if index = 9 then words ! 9 else if index = 10 then words ! 10
      else if index = 11 then words ! 11 else if index = 12 then words ! 12 else if index = 13 then words ! 13
      else if index = 14 then words ! 14 else words ! 15)"

definition protocolMD5Word :: "nat \<Rightarrow> 32 word list \<Rightarrow> 32 word" where
  "protocolMD5Word rnd words =
     (let index = protocolMD5WordIndex rnd in
      if index < 8 then protocolMD5WordLow index words else protocolMD5WordHigh index words)"

definition md5_step :: "32 word list \<Rightarrow> nat \<Rightarrow> md5_words \<Rightarrow> md5_words" where
  "md5_step words rnd abcv =
     (case abcv of (a, b, c, v) \<Rightarrow>
        let f = protocolMD5Round rnd b c v;
            word = protocolMD5Word rnd words
        in (v, b + word_rotl (protocolMD5Shift ! rnd) (a + f + protocolMD5Table ! rnd + word), b, c))"

definition add_words :: "md5_words \<Rightarrow> md5_words \<Rightarrow> md5_words" where
  "add_words s t = (case (s, t) of ((a, b, c, d), (a', b', c', d')) \<Rightarrow> (a + a', b + b', c + c', d + d'))"

definition block :: "md5_words \<Rightarrow> bytes \<Rightarrow> md5_words" where
  "block state data =
     (if length data < protocolMD5BlockSize then state
      else let words = map (\<lambda>index. LittleEndian_Uint32 (drop (index * 4) data)) [0..<16]
           in add_words state (fold (md5_step words) [0..<64] state))"

text \<open>Whole blocks of the input; what is left is shorter than a block.\<close>

function write_blocks :: "md5_words \<Rightarrow> bytes \<Rightarrow> md5_words \<times> bytes" where
  "write_blocks state data =
     (if protocolMD5BlockSize \<le> length data then write_blocks (block state (take protocolMD5BlockSize data)) (drop protocolMD5BlockSize data)
      else (state, data))"
  by auto
termination by (relation "measure (\<lambda>(_, data). length data)") auto

declare write_blocks.simps [simp del]

text \<open>\<open>copy(d.buf[at:], data)\<close>: the new buffer and the number of bytes copied.\<close>

definition copy_at :: "bytes \<Rightarrow> nat \<Rightarrow> bytes \<Rightarrow> bytes \<times> nat" where
  "copy_at buf at data = (let n = min (length buf - at) (length data) in (take at buf @ take n data @ drop (at + n) buf, n))"

definition Write :: "protocolMD5 \<Rightarrow> bytes \<Rightarrow> protocolMD5" where
  "Write d data =
     (let d = d\<lparr>md_len := md_len d + word_of_nat (length data)\<rparr>;
          (d, data) =
            (if md_nx d > 0
             then let (buf, n) = copy_at (md_buf d) (md_nx d) data;
                      d = d\<lparr>md_buf := buf, md_nx := md_nx d + n\<rparr>;
                      d = (if md_nx d = protocolMD5BlockSize then d\<lparr>md_state := block (md_state d) (md_buf d), md_nx := 0\<rparr> else d)
                  in (d, drop n data)
             else (d, data));
          (state, data) = write_blocks (md_state d) data;
          d = d\<lparr>md_state := state\<rparr>
      in if length data > 0 then (let (buf, n) = copy_at (md_buf d) 0 data in d\<lparr>md_buf := buf, md_nx := n\<rparr>) else d)"

definition finish :: "protocolMD5 \<Rightarrow> protocolMD5" where
  "finish d =
     (let lengthBits = push_bit 3 (md_len d);
          padding = CHR 0x80 # replicate 71 (CHR 0x00);
          padLen = 56 - int (md_nx d);
          padLen = (if padLen \<le> 0 then padLen + int protocolMD5BlockSize else padLen);
          d = Write d (take (nat padLen) padding)
      in Write d (LittleEndian_Put 8 lengthBits))"

definition Sum :: "protocolMD5 \<Rightarrow> bytes" where
  "Sum d = (case md_state (finish d) of (a, b, c, v) \<Rightarrow>
     LittleEndian_Put 4 a @ LittleEndian_Put 4 b @ LittleEndian_Put 4 c @ LittleEndian_Put 4 v)"

definition protocolMD5Sum :: "bytes \<Rightarrow> bytes" where
  "protocolMD5Sum data = Sum (Write newProtocolMD5 data)"

section \<open>The reference\<close>

text \<open>The message is padded with a one bit, zeros, and its length in bits modulo \<open>2 ^ 64\<close>.\<close>

definition md5_padded :: "bytes \<Rightarrow> bytes" where
  "md5_padded data = data @ CHR 0x80 # replicate (nat ((55 - int (length data)) mod 64)) (CHR 0x00) @
     LittleEndian_Put 8 (word_of_nat (8 * length data) :: 64 word)"

text \<open>The operations of the four rounds in the order of section 3.4 of the RFC: the function, the words and the shifts.\<close>

definition rfc_F :: "32 word \<Rightarrow> 32 word \<Rightarrow> 32 word \<Rightarrow> 32 word" where "rfc_F x y z = (x AND y) OR (NOT x AND z)"
definition rfc_G :: "32 word \<Rightarrow> 32 word \<Rightarrow> 32 word \<Rightarrow> 32 word" where "rfc_G x y z = (x AND z) OR (y AND NOT z)"
definition rfc_H :: "32 word \<Rightarrow> 32 word \<Rightarrow> 32 word \<Rightarrow> 32 word" where "rfc_H x y z = x XOR y XOR z"
definition rfc_I :: "32 word \<Rightarrow> 32 word \<Rightarrow> 32 word \<Rightarrow> 32 word" where "rfc_I x y z = y XOR (x OR NOT z)"

definition rfc_words :: "nat list" where
  "rfc_words =
    [0, 1, 2, 3, 4, 5, 6, 7, 8, 9, 10, 11, 12, 13, 14, 15,
     1, 6, 11, 0, 5, 10, 15, 4, 9, 14, 3, 8, 13, 2, 7, 12,
     5, 8, 11, 14, 1, 4, 7, 10, 13, 0, 3, 6, 9, 12, 15, 2,
     0, 7, 14, 5, 12, 3, 10, 1, 8, 15, 6, 13, 4, 11, 2, 9]"

text \<open>One operation \<open>[abcd k s i]\<close>: \<open>a = b + ((a + f(b,c,d) + X[k] + T[i]) <<< s)\<close>; the next one has the registers rotated.\<close>

definition rfc_op :: "(32 word \<Rightarrow> 32 word \<Rightarrow> 32 word \<Rightarrow> 32 word) \<Rightarrow> 32 word list \<Rightarrow> nat \<Rightarrow> md5_words \<Rightarrow> md5_words" where
  "rfc_op f X i abcd = (case abcd of (a, b, c, d) \<Rightarrow>
     (d, b + word_rotl (protocolMD5Shift ! i) (a + f b c d + X ! (rfc_words ! i) + protocolMD5Table ! i), b, c))"

definition rfc_compress :: "md5_words \<Rightarrow> bytes \<Rightarrow> md5_words" where
  "rfc_compress state data =
     (let X = map (\<lambda>i. LittleEndian_Uint32 (drop (i * 4) data)) [0..<16]
      in add_words state
           (fold (rfc_op rfc_I X) [48..<64] (fold (rfc_op rfc_H X) [32..<48] (fold (rfc_op rfc_G X) [16..<32] (fold (rfc_op rfc_F X) [0..<16] state)))))"

function md5_blocks :: "md5_words \<Rightarrow> bytes \<Rightarrow> md5_words" where
  "md5_blocks state data = (if length data < 64 then state else md5_blocks (rfc_compress state (take 64 data)) (drop 64 data))"
  by auto
termination by (relation "measure (\<lambda>(_, data). length data)") auto

declare md5_blocks.simps [simp del]

definition md5 :: "bytes \<Rightarrow> bytes" where
  "md5 data = (case md5_blocks protocolMD5Init (md5_padded data) of (a, b, c, d) \<Rightarrow>
     LittleEndian_Put 4 a @ LittleEndian_Put 4 b @ LittleEndian_Put 4 c @ LittleEndian_Put 4 d)"

section \<open>A block\<close>

lemma round_functions:
  "i < 16 \<Longrightarrow> protocolMD5Round i b c d = rfc_F b c d"
  "16 \<le> i \<Longrightarrow> i < 32 \<Longrightarrow> protocolMD5Round i b c d = rfc_G b c d"
  "32 \<le> i \<Longrightarrow> i < 48 \<Longrightarrow> protocolMD5Round i b c d = rfc_H b c d"
  "48 \<le> i \<Longrightarrow> protocolMD5Round i b c d = rfc_I b c d"
  by (simp_all add: protocolMD5Round_def rfc_F_def rfc_G_def rfc_H_def rfc_I_def and.commute)

lemma word_index_rfc: "list_all (\<lambda>i. protocolMD5WordIndex i = rfc_words ! i \<and> rfc_words ! i < 16) [0..<64]"
  by code_simp

lemma word_selected: "k < 16 \<Longrightarrow> (if k < 8 then protocolMD5WordLow k X else protocolMD5WordHigh k X) = X ! k"
proof -
  assume "k < 16"
  then have "k \<in> {0, 1, 2, 3, 4, 5, 6, 7, 8, 9, 10, 11, 12, 13, 14, 15}" by simp presburger
  then show ?thesis unfolding protocolMD5WordLow_def protocolMD5WordHigh_def by (elim insertE) simp_all
qed

lemma word_rfc: "i < 64 \<Longrightarrow> protocolMD5Word i X = X ! (rfc_words ! i)"
  using word_index_rfc by (simp add: protocolMD5Word_def Let_def list_all_iff word_selected)

lemma step_rfc:
  assumes "i < 64"
  shows "i < 16 \<Longrightarrow> md5_step X i = rfc_op rfc_F X i" "16 \<le> i \<Longrightarrow> i < 32 \<Longrightarrow> md5_step X i = rfc_op rfc_G X i"
    "32 \<le> i \<Longrightarrow> i < 48 \<Longrightarrow> md5_step X i = rfc_op rfc_H X i" "48 \<le> i \<Longrightarrow> md5_step X i = rfc_op rfc_I X i"
  using assms by (auto simp: md5_step_def rfc_op_def fun_eq_iff word_rfc round_functions add_ac Let_def)

lemma block_rfc: "length data = 64 \<Longrightarrow> block state data = rfc_compress state data"
proof -
  assume l: "length data = 64"
  let ?X = "map (\<lambda>i. LittleEndian_Uint32 (drop (i * 4) data)) [0..<16]"
  have "[0..<64] = [0..<16] @ [16..<32] @ [32..<48] @ [48..<64]" by code_simp
  then have "fold (md5_step ?X) [0..<64] state = fold (md5_step ?X) [48..<64] (fold (md5_step ?X) [32..<48]
      (fold (md5_step ?X) [16..<32] (fold (md5_step ?X) [0..<16] state)))" by (simp only: fold_append comp_def)
  also have "\<dots> = fold (rfc_op rfc_I ?X) [48..<64] (fold (rfc_op rfc_H ?X) [32..<48]
      (fold (rfc_op rfc_G ?X) [16..<32] (fold (rfc_op rfc_F ?X) [0..<16] state)))"
    using fold_cong [OF refl refl, of "[0..<16]" "md5_step ?X" "rfc_op rfc_F ?X"] fold_cong [OF refl refl, of "[16..<32]" "md5_step ?X" "rfc_op rfc_G ?X"]
      fold_cong [OF refl refl, of "[32..<48]" "md5_step ?X" "rfc_op rfc_H ?X"] fold_cong [OF refl refl, of "[48..<64]" "md5_step ?X" "rfc_op rfc_I ?X"]
    by (simp add: step_rfc del: upt_rec_numeral)
  finally show ?thesis using l by (simp add: block_def rfc_compress_def Let_def)
qed

section \<open>Streaming\<close>

text \<open>What of a message does not fill a block.\<close>

definition leftover :: "bytes \<Rightarrow> bytes" where
  "leftover data = drop (64 * (length data div 64)) data"

lemma length_leftover [simp]: "length (leftover data) = length data mod 64"
  by (simp add: leftover_def minus_mult_div_eq_mod)

lemma leftover_nil [simp]: "leftover data = [] \<longleftrightarrow> length data mod 64 = 0"
  by (metis length_leftover length_0_conv)

lemma nil_leftover [simp]: "[] = leftover data \<longleftrightarrow> length data mod 64 = 0"
  using leftover_nil [of data] by (simp only: eq_commute)

lemma leftover_short [simp]: "length data < 64 \<Longrightarrow> leftover data = data"
  by (simp add: leftover_def)

lemma leftover_drop: "64 \<le> length data \<Longrightarrow> leftover (drop 64 data) = leftover data"
proof -
  assume l: "64 \<le> length data"
  then obtain n where n: "length data = 64 + n" using le_Suc_ex by blast
  then show ?thesis by (simp add: leftover_def add.commute)
qed

lemma md5_blocks_append: "md5_blocks state (data @ extra) = md5_blocks (md5_blocks state data) (leftover data @ extra)"
proof (induction state data rule: md5_blocks.induct)
  case (1 state data)
  show ?case
  proof (cases "length data < 64")
    case True
    then show ?thesis by (simp add: md5_blocks.simps [of state data])
  next
    case False
    then have "md5_blocks state (data @ extra) = md5_blocks (rfc_compress state (take 64 data)) (drop 64 data @ extra)"
      by (simp add: md5_blocks.simps [of state "data @ extra"])
    also have "\<dots> = md5_blocks (md5_blocks (rfc_compress state (take 64 data)) (drop 64 data)) (leftover (drop 64 data) @ extra)"
      by (rule 1 [OF False])
    finally show ?thesis using False by (simp add: leftover_drop md5_blocks.simps [of state data])
  qed
qed

lemma leftover_append: "leftover (data @ extra) = leftover (leftover data @ extra)"
proof -
  have "data = take (64 * (length data div 64)) data @ leftover data" by (simp add: leftover_def)
  moreover have "length (take (64 * (length data div 64)) data) = 64 * (length data div 64)" by simp
  ultimately obtain a b k where d: "data = a @ b" "length a = 64 * k" "leftover data = b" by blast
  show ?thesis unfolding d(3) unfolding d(1) leftover_def by (simp add: d(2))
qed

lemma write_blocks_md5: "write_blocks state data = (md5_blocks state data, leftover data)"
proof (induction state data rule: write_blocks.induct)
  case (1 state data)
  show ?case
  proof (cases "64 \<le> length data")
    case True
    then show ?thesis
      using 1 [OF True] by (simp add: write_blocks.simps [of state data] md5_blocks.simps [of state data] block_rfc leftover_drop)
  next
    case False
    then show ?thesis by (simp add: write_blocks.simps [of state data] md5_blocks.simps [of state data])
  qed
qed

text \<open>The state of a digest that has been given \<open>data\<close> in any number of pieces.\<close>

definition absorbed :: "protocolMD5 \<Rightarrow> bytes \<Rightarrow> bool" where
  "absorbed d data \<longleftrightarrow> md_state d = md5_blocks protocolMD5Init data \<and> md_nx d = length data mod 64 \<and>
     take (md_nx d) (md_buf d) = leftover data \<and> length (md_buf d) = 64 \<and> md_len d = word_of_nat (length data)"

lemma absorbed_new: "absorbed newProtocolMD5 []"
  by (simp add: absorbed_def newProtocolMD5_def Reset_def md5_blocks.simps)

lemma block_then:
  assumes "length a = 64"
  shows "md5_blocks state (a @ b) = md5_blocks (block state a) b" "leftover (a @ b) = leftover b"
  using assms leftover_drop [of "a @ b"] by (simp_all add: md5_blocks.simps [of state "a @ b"] block_rfc)

lemma Write_absorbed:
  assumes "absorbed d data"
  shows "absorbed (Write d extra) (data @ extra)"
proof -
  let ?n = "min (64 - md_nx d) (length extra)"
  have d: "md_state d = md5_blocks protocolMD5Init data" "md_nx d = length data mod 64" "take (md_nx d) (md_buf d) = leftover data"
    "length (md_buf d) = 64" "md_len d = word_of_nat (length data)"
    using assms unfolding absorbed_def by blast+
  have lt: "md_nx d < 64" by (simp add: d(2))
  have st: "md5_blocks protocolMD5Init (data @ extra) = md5_blocks (md_state d) (leftover data @ extra)"
    "leftover (data @ extra) = leftover (leftover data @ extra)"
    by (simp_all add: d(1) md5_blocks_append [of _ data] leftover_append [of data])
  have len: "md_len d + word_of_nat (length extra) = word_of_nat (length (data @ extra))" by (simp add: d(5))
  have fill: "copy_at buf 0 x = (x @ drop (length x) buf, length x)" if "length x \<le> length buf" for x buf
    using that by (simp add: copy_at_def Let_def)
  have rest: "length (leftover x) \<le> 64" for x :: bytes by (simp add: less_imp_le)
  consider (empty) "md_nx d = 0" | (short) "md_nx d > 0" "md_nx d + length extra < 64" | (full) "md_nx d > 0" "64 \<le> md_nx d + length extra" by linarith
  then show ?thesis
  proof cases
    case empty
    then have e: "leftover data = []" using d(3) by simp
    show ?thesis
      using empty st len d(4) rest [of extra]
      by (simp add: Write_def Let_def write_blocks_md5 fill absorbed_def e split: prod.split)
        (simp add: mod_add_eq [symmetric, of "length data"] d(2) [symmetric])
  next
    case short
    then have "length (leftover data @ extra) < 64" using d(2) by simp
    then have "md5_blocks (md_state d) (leftover data @ extra) = md_state d" "leftover (leftover data @ extra) = leftover data @ extra"
      by (simp_all add: md5_blocks.simps [of _ "leftover data @ extra"])
    moreover have "(length data + length extra) mod 64 = md_nx d + length extra"
      using short by (simp add: d(2) mod_add_left_eq [symmetric, of "length data"])
    ultimately show ?thesis
      using short st len d(3,4) d(2) [symmetric] by (simp add: Write_def Let_def write_blocks_md5 copy_at_def absorbed_def md5_blocks.simps [of _ "[]"])
  next
    case full
    define A B where "A = leftover data @ take (64 - md_nx d) extra" and "B = drop (64 - md_nx d) extra"
    have A: "length A = 64" using full lt by (simp add: d(2) [symmetric] A_def)
    have "leftover data @ extra = A @ B" by (simp add: A_def B_def)
    then have blocks: "md5_blocks protocolMD5Init (data @ extra) = md5_blocks (block (md_state d) A) B" "leftover (data @ extra) = leftover B"
      using st block_then(1) [OF A, of "md_state d" B] block_then(2) [OF A, of B] by simp_all
    have "length data + length extra = 64 * (length data div 64 + 1) + length B" using full by (simp add: d(2) B_def)
    then have m: "(length data + length extra) mod 64 = length B mod 64" by (simp only: mod_mult_self4)
    have c: "copy_at (md_buf d) (md_nx d) extra = (A, 64 - md_nx d)" using full(2) d(3,4) by (simp add: copy_at_def Let_def A_def)
    have n: "md_nx d + (64 - md_nx d) = 64" using lt by simp
    have "length (leftover B @ drop (length B mod 64) A) = 64" using A by simp
    then show ?thesis
      using full(1) blocks len A rest [of B] m n
      by (simp add: Write_def Let_def write_blocks_md5 c fill absorbed_def flip: B_def)
  qed
qed

lemma Writes_absorbed: "absorbed d data \<Longrightarrow> absorbed (fold (\<lambda>x d. Write d x) xs d) (data @ concat xs)"
proof (induction xs arbitrary: d data)
  case (Cons x xs)
  from Cons.IH [OF Write_absorbed [OF Cons.prems, of x]] show ?case by simp
qed simp

text \<open>Finishing writes the padding of the RFC.\<close>

lemma finish_absorbed:
  assumes "absorbed d data"
  shows "absorbed (finish d) (md5_padded data)"
proof -
  let ?nx = "int (length data mod 64)" and ?len = "push_bit 3 (md_len d)"
  let ?p = "if 56 - ?nx \<le> 0 then 56 - ?nx + 64 else 56 - ?nx"
  have nx: "md_nx d = length data mod 64" "md_len d = word_of_nat (length data)" using assms by (simp_all add: absorbed_def)
  have r: "0 \<le> ?nx" "?nx < 64" by simp_all
  have "(55 - int (length data)) mod 64 = (55 - ?nx) mod 64" by (simp add: zmod_int mod_diff_right_eq)
  also have "\<dots> = ?p - 1"
  proof (cases "56 - ?nx \<le> 0")
    case True
    have "(55 - ?nx) mod 64 = (55 - ?nx + 1 * 64) mod 64" by (simp only: mod_mult_self1)
    also have "\<dots> = 55 - ?nx + 1 * 64" using True r by (intro mod_pos_pos_trivial) linarith+
    also have "\<dots> = ?p - 1" using True by simp
    finally show ?thesis .
  next
    case False
    then show ?thesis using r by (simp add: mod_pos_pos_trivial)
  qed
  finally have z: "nat ((55 - int (length data)) mod 64) = nat (?p - 1)" by simp
  have t: "take (nat ?p) (CHR 0x80 # replicate 71 (CHR 0x00)) = CHR 0x80 # replicate (nat (?p - 1)) (CHR 0x00)"
  proof -
    have "nat ?p = Suc (nat (?p - 1))" "nat (?p - 1) \<le> 71" using r by auto
    then show ?thesis by (simp add: min_def)
  qed
  have f: "finish d = Write (Write d (CHR 0x80 # replicate (nat (?p - 1)) (CHR 0x00))) (LittleEndian_Put 8 ?len)"
    unfolding finish_def Let_def nx(1) of_nat_numeral t ..
  have "?len = word_of_nat (8 * length data)" by (simp add: nx(2) push_bit_eq_mult)
  then have "md5_padded data = (data @ CHR 0x80 # replicate (nat (?p - 1)) (CHR 0x00)) @ LittleEndian_Put 8 ?len"
    by (simp add: md5_padded_def z)
  then show ?thesis unfolding f using Write_absorbed [OF Write_absorbed [OF assms]] by metis
qed

lemma Sum_absorbed: "absorbed d data \<Longrightarrow> Sum d = md5 data"
  by (drule finish_absorbed) (simp add: Sum_def md5_def absorbed_def)

lemma protocolMD5Sum_md5: "protocolMD5Sum data = md5 data"
  using Sum_absorbed [OF Write_absorbed [OF absorbed_new]] by (simp add: protocolMD5Sum_def)

lemma md5_length [simp]: "length (md5 data) = 16"
  by (simp add: md5_def LittleEndian_Put_def split: prod.split)

section \<open>Properties\<close>

text \<open>C22: the streaming digest is MD5. However the data is cut into pieces and whatever their lengths, the sum after writing them is
  the digest that RFC 1321 defines for the whole message: the block function is the RFC's sequence of sixty-four operations, buffering loses
  nothing, and the padding carries the length in bits modulo \<open>2 ^ 64\<close>.\<close>

theorem streaming_md5: "Sum (fold (\<lambda>x d. Write d x) pieces newProtocolMD5) = md5 (concat pieces)"
  using Sum_absorbed [OF Writes_absorbed [OF absorbed_new]] by simp

end
