(* ===== verification/Go_SHA256.thy ===== *)
theory Go_SHA256
  imports S3_MD5
begin

text \<open>
  SHA-256 and HMAC of the Go standard library (\<open>crypto/sha256\<close>, \<open>crypto/hmac\<close>), as FIPS 180-4 and RFC 2104 define them, for the request
  signatures of the gateway. No theorem depends on properties of the hash; the definitions are here so that the signature check is
  a function of the request.
\<close>

definition sha256_init :: "32 word list" where
  "sha256_init = [0x6A09E667, 0xBB67AE85, 0x3C6EF372, 0xA54FF53A, 0x510E527F, 0x9B05688C, 0x1F83D9AB, 0x5BE0CD19]"

definition sha256_table :: "32 word list" where
  "sha256_table =
    [0x428A2F98, 0x71374491, 0xB5C0FBCF, 0xE9B5DBA5, 0x3956C25B, 0x59F111F1, 0x923F82A4, 0xAB1C5ED5,
     0xD807AA98, 0x12835B01, 0x243185BE, 0x550C7DC3, 0x72BE5D74, 0x80DEB1FE, 0x9BDC06A7, 0xC19BF174,
     0xE49B69C1, 0xEFBE4786, 0x0FC19DC6, 0x240CA1CC, 0x2DE92C6F, 0x4A7484AA, 0x5CB0A9DC, 0x76F988DA,
     0x983E5152, 0xA831C66D, 0xB00327C8, 0xBF597FC7, 0xC6E00BF3, 0xD5A79147, 0x06CA6351, 0x14292967,
     0x27B70A85, 0x2E1B2138, 0x4D2C6DFC, 0x53380D13, 0x650A7354, 0x766A0ABB, 0x81C2C92E, 0x92722C85,
     0xA2BFE8A1, 0xA81A664B, 0xC24B8B70, 0xC76C51A3, 0xD192E819, 0xD6990624, 0xF40E3585, 0x106AA070,
     0x19A4C116, 0x1E376C08, 0x2748774C, 0x34B0BCB5, 0x391C0CB3, 0x4ED8AA4A, 0x5B9CCA4F, 0x682E6FF3,
     0x748F82EE, 0x78A5636F, 0x84C87814, 0x8CC70208, 0x90BEFFFA, 0xA4506CEB, 0xBEF9A3F7, 0xC67178F2]"

definition BigEndian_Uint32 :: "bytes \<Rightarrow> 32 word" where
  "BigEndian_Uint32 b = LittleEndian_Uint32 (rev (take 4 b))"

definition BigEndian_Put :: "nat \<Rightarrow> 'a::len word \<Rightarrow> bytes" where
  "BigEndian_Put n w = rev (LittleEndian_Put n w)"

text \<open>The message schedule: sixteen words of the block, then forty-eight from the ones before.\<close>

fun sha256_schedule :: "nat \<Rightarrow> 32 word list \<Rightarrow> 32 word list" where
  "sha256_schedule 0 ws = ws"
| "sha256_schedule (Suc n) ws =
     (let i = length ws; w15 = ws ! (i - 15); w2 = ws ! (i - 2);
          s0 = word_rotr 7 w15 XOR word_rotr 18 w15 XOR drop_bit 3 w15;
          s1 = word_rotr 17 w2 XOR word_rotr 19 w2 XOR drop_bit 10 w2
      in sha256_schedule n (ws @ [ws ! (i - 16) + s0 + ws ! (i - 7) + s1]))"

definition sha256_step :: "32 word list \<Rightarrow> nat \<Rightarrow> 32 word list \<Rightarrow> 32 word list" where
  "sha256_step ws i st =
     (case st of [a, b, c, d, e, f, g, h] \<Rightarrow>
        let S1 = word_rotr 6 e XOR word_rotr 11 e XOR word_rotr 25 e;
            ch = (e AND f) XOR (NOT e AND g);
            t1 = h + S1 + ch + sha256_table ! i + ws ! i;
            S0 = word_rotr 2 a XOR word_rotr 13 a XOR word_rotr 22 a;
            maj = (a AND b) XOR (a AND c) XOR (b AND c)
        in [t1 + S0 + maj, a, b, c, d + t1, e, f, g]
      | _ \<Rightarrow> st)"

definition sha256_block :: "32 word list \<Rightarrow> bytes \<Rightarrow> 32 word list" where
  "sha256_block st data =
     (let ws = sha256_schedule 48 (map (\<lambda>i. BigEndian_Uint32 (drop (4 * i) data)) [0..<16])
      in map2 (+) st (fold (sha256_step ws) [0..<64] st))"

function sha256_blocks :: "32 word list \<Rightarrow> bytes \<Rightarrow> 32 word list" where
  "sha256_blocks st data = (if length data < 64 then st else sha256_blocks (sha256_block st (take 64 data)) (drop 64 data))"
  by auto
termination by (relation "measure (\<lambda>(_, data). length data)") auto

declare sha256_blocks.simps [simp del]

definition sha256 :: "bytes \<Rightarrow> bytes" where
  "sha256 data =
     (let padded = data @ CHR 0x80 # replicate (nat ((55 - int (length data)) mod 64)) (CHR 0x00) @
            BigEndian_Put 8 (word_of_nat (8 * length data) :: 64 word)
      in concat (map (BigEndian_Put 4) (sha256_blocks sha256_init padded)))"

definition hmac_sha256 :: "bytes \<Rightarrow> bytes \<Rightarrow> bytes" where
  "hmac_sha256 key data =
     (let key = (if 64 < length key then sha256 key else key);
          key = key @ replicate (64 - length key) (CHR 0x00);
          mask = (\<lambda>x :: 8 word. map (\<lambda>c. char_of (unat (byte_word c XOR x))) key)
      in sha256 (mask 0x5C @ sha256 (mask 0x36 @ data)))"

end
