(* ===== verification/S3_Listing.thy ===== *)
theory S3_Listing
  imports Model Go_Base64 Go_HTTP
begin

text \<open>
  Listing the objects of a bucket over S3: \<open>internal/s3/list.go\<close>. The first version of the call returns everything; the second one returns
  pages, with a continuation token that is the encoded last key, and groups keys by a delimiter. The objects come from the store, sorted
  by key. Times are numbers: their text form is not modelled.
\<close>

section \<open>Strings\<close>

definition trim_prefix :: "string \<Rightarrow> string \<Rightarrow> string" where
  "trim_prefix s p = (if has_prefix s p then drop (length p) s else s)"

text \<open>\<open>strings.Index\<close>: where \<open>sub\<close> first occurs.\<close>

fun index_of :: "string \<Rightarrow> string \<Rightarrow> nat option" where
  "index_of sub [] = (if sub = [] then Some 0 else None)"
| "index_of sub (c # s) = (if has_prefix (c # s) sub then Some 0 else map_option Suc (index_of sub s))"

section \<open>Results\<close>

record objectResult =
  ores_Key :: string
  ores_LastModified :: time
  ores_ETag :: string
  ores_Size :: int
  ores_StorageClass :: string

record listObjectsOptions =
  lo_V2 :: bool
  lo_Prefix :: string
  lo_MaxKeys :: int
  lo_ContinuationToken :: string
  lo_StartAfter :: string
  lo_Delimiter :: string

record listObjectsPage =
  pg_Contents :: "objectResult list"
  pg_CommonPrefixes :: "string list"
  pg_KeyCount :: int
  pg_MaxKeys :: int
  pg_IsTruncated :: bool
  pg_NextContinuationToken :: string

record listBucketResult =
  lb_Name :: string
  lb_Prefix :: string
  lb_KeyCount :: int
  lb_MaxKeys :: int
  lb_IsTruncated :: bool
  lb_Contents :: "objectResult list"

record listBucketV2Result =
  l2_Name :: string
  l2_Prefix :: string
  l2_Delimiter :: string
  l2_KeyCount :: int
  l2_MaxKeys :: int
  l2_IsTruncated :: bool
  l2_ContinuationToken :: string
  l2_NextContinuationToken :: string
  l2_StartAfter :: string
  l2_Contents :: "objectResult list"
  l2_CommonPrefixes :: "string list"

definition formatS3Time :: "time \<Rightarrow> time \<Rightarrow> time" where
  "formatS3Time now value = (if value = 0 then now else value)"

definition objectResultFromMeta :: "time \<Rightarrow> ObjectMeta \<Rightarrow> objectResult" where
  "objectResultFromMeta now meta = \<lparr>ores_Key = om_key meta, ores_LastModified = formatS3Time now (om_updated meta), ores_ETag = om_etag meta,
     ores_Size = om_size meta, ores_StorageClass = ''STANDARD''\<rparr>"

definition encodeContinuationToken :: "string \<Rightarrow> string" where
  "encodeContinuationToken key = base64_encode key"

definition decodeContinuationToken :: "string \<Rightarrow> string" where
  "decodeContinuationToken token = (case base64_decode token of None \<Rightarrow> token | Some decoded \<Rightarrow> decoded)"

definition listCursor :: "listObjectsOptions \<Rightarrow> string" where
  "listCursor opts =
     (if lo_ContinuationToken opts \<noteq> [] then decodeContinuationToken (lo_ContinuationToken opts) else lo_StartAfter opts)"

section \<open>Pages\<close>

datatype listEntry = EntryObject objectResult | EntryCommonPrefix string

text \<open>The entry for an object and the prefixes seen so far; no entry for a prefix that was seen.\<close>

definition listEntryForObject :: "time \<Rightarrow> listObjectsOptions \<Rightarrow> ObjectMeta \<Rightarrow> string list \<Rightarrow> listEntry option \<times> string list" where
  "listEntryForObject now opts meta seenPrefixes =
     (if lo_Delimiter opts = [] then (Some (EntryObject (objectResultFromMeta now meta)), seenPrefixes)
      else let remaining = trim_prefix (om_key meta) (lo_Prefix opts) in
        case index_of (lo_Delimiter opts) remaining of
          Some delimiterIndex \<Rightarrow>
            let prefix = lo_Prefix opts @ take (delimiterIndex + length (lo_Delimiter opts)) remaining in
            if prefix \<in> set seenPrefixes then (None, seenPrefixes)
            else (Some (EntryCommonPrefix prefix), prefix # seenPrefixes)
        | None \<Rightarrow> (Some (EntryObject (objectResultFromMeta now meta)), seenPrefixes))"

definition add_entry :: "listObjectsPage \<Rightarrow> listEntry \<Rightarrow> listObjectsPage" where
  "add_entry p entry =
     (case entry of
        EntryObject result \<Rightarrow> p\<lparr>pg_Contents := pg_Contents p @ [result], pg_KeyCount := pg_KeyCount p + 1\<rparr>
      | EntryCommonPrefix prefix \<Rightarrow> p\<lparr>pg_CommonPrefixes := pg_CommonPrefixes p @ [prefix], pg_KeyCount := pg_KeyCount p + 1\<rparr>)"

text \<open>The page, the prefixes seen, whether the object was included, and whether the page is done.\<close>

definition addObject :: "time \<Rightarrow> listObjectsOptions \<Rightarrow> ObjectMeta \<Rightarrow> string \<Rightarrow> listObjectsPage \<times> string list \<Rightarrow>
    listObjectsPage \<times> string list \<times> bool \<times> bool" where
  "addObject now opts meta cursor acc =
     (case acc of (p, seenPrefixes) \<Rightarrow>
        if cursor \<noteq> [] \<and> om_key meta \<le> cursor then (p, seenPrefixes, False, False)
        else case listEntryForObject now opts meta seenPrefixes of
          (None, seenPrefixes) \<Rightarrow> (p, seenPrefixes, False, False)
        | (Some entry, seenPrefixes) \<Rightarrow>
            if pg_MaxKeys p = 0 \<or> pg_MaxKeys p \<le> pg_KeyCount p then (p\<lparr>pg_IsTruncated := True\<rparr>, seenPrefixes, False, True)
            else (add_entry p entry, seenPrefixes, True, False))"

fun fill_page :: "time \<Rightarrow> listObjectsOptions \<Rightarrow> string \<Rightarrow> ObjectMeta list \<Rightarrow> string \<Rightarrow> listObjectsPage \<times> string list \<Rightarrow> listObjectsPage \<times> string" where
  "fill_page now opts cursor [] lastIncluded (p, seen) = (p, lastIncluded)"
| "fill_page now opts cursor (meta # objects) lastIncluded (p, seen) =
     (case addObject now opts meta cursor (p, seen) of
        (p, seen, included, done) \<Rightarrow>
          if done then (p, lastIncluded)
          else fill_page now opts cursor objects (if included then om_key meta else lastIncluded) (p, seen))"

definition paginateObjectsV2 :: "time \<Rightarrow> listObjectsOptions \<Rightarrow> ObjectMeta list \<Rightarrow> listObjectsPage" where
  "paginateObjectsV2 now opts objects =
     (let page = \<lparr>pg_Contents = [], pg_CommonPrefixes = [], pg_KeyCount = 0, pg_MaxKeys = lo_MaxKeys opts, pg_IsTruncated = False,
            pg_NextContinuationToken = []\<rparr>
      in case fill_page now opts (listCursor opts) objects [] (page, []) of
           (page, lastIncluded) \<Rightarrow>
             if pg_IsTruncated page \<and> lastIncluded \<noteq> [] then page\<lparr>pg_NextContinuationToken := encodeContinuationToken lastIncluded\<rparr>
             else page)"

definition listObjectsV1Result :: "time \<Rightarrow> string \<Rightarrow> listObjectsOptions \<Rightarrow> ObjectMeta list \<Rightarrow> listBucketResult" where
  "listObjectsV1Result now bucket opts objects =
     (let contents = map (objectResultFromMeta now) objects
      in \<lparr>lb_Name = bucket, lb_Prefix = lo_Prefix opts, lb_KeyCount = int (length contents), lb_MaxKeys = lo_MaxKeys opts,
          lb_IsTruncated = False, lb_Contents = contents\<rparr>)"

definition listObjectsV2Result :: "time \<Rightarrow> string \<Rightarrow> listObjectsOptions \<Rightarrow> ObjectMeta list \<Rightarrow> listBucketV2Result" where
  "listObjectsV2Result now bucket opts objects =
     (let page = paginateObjectsV2 now opts objects
      in \<lparr>l2_Name = bucket, l2_Prefix = lo_Prefix opts, l2_Delimiter = lo_Delimiter opts, l2_KeyCount = pg_KeyCount page,
          l2_MaxKeys = pg_MaxKeys page, l2_IsTruncated = pg_IsTruncated page, l2_ContinuationToken = lo_ContinuationToken opts,
          l2_NextContinuationToken = pg_NextContinuationToken page, l2_StartAfter = lo_StartAfter opts,
          l2_Contents = pg_Contents page, l2_CommonPrefixes = pg_CommonPrefixes page\<rparr>)"

section \<open>Options\<close>

definition maxKeysV2 :: "string \<Rightarrow> int" where
  "maxKeysV2 value =
     (if value = [] then 1000
      else case parse_int64 value of None \<Rightarrow> 1000 | Some parsed \<Rightarrow> if parsed < 0 then 1000 else parsed)"

definition normalizeHTTPXMaxKeys :: "int \<Rightarrow> int" where
  "normalizeHTTPXMaxKeys value = (if value \<le> 0 then 1000 else value)"

definition listObjectsOptionsFromQuery :: "url_values \<Rightarrow> listObjectsOptions" where
  "listObjectsOptionsFromQuery query = \<lparr>lo_V2 = (query_get query ''list-type'' = ''2''), lo_Prefix = query_get query ''prefix'',
     lo_MaxKeys = maxKeysV2 (query_get query ''max-keys''), lo_ContinuationToken = query_get query ''continuation-token'',
     lo_StartAfter = query_get query ''start-after'', lo_Delimiter = query_get query ''delimiter''\<rparr>"

record httpxBucketInput =
  hb_Bucket :: string
  hb_Prefix :: string
  hb_MaxKeys :: int
  hb_ListType :: string
  hb_ContinuationToken :: string
  hb_StartAfter :: string
  hb_Delimiter :: string

definition listObjectsOptionsFromHTTPX :: "httpxBucketInput \<Rightarrow> listObjectsOptions" where
  "listObjectsOptionsFromHTTPX input = \<lparr>lo_V2 = (hb_ListType input = ''2''), lo_Prefix = hb_Prefix input,
     lo_MaxKeys = normalizeHTTPXMaxKeys (hb_MaxKeys input), lo_ContinuationToken = hb_ContinuationToken input,
     lo_StartAfter = hb_StartAfter input, lo_Delimiter = hb_Delimiter input\<rparr>"

section \<open>Paging through a bucket\<close>

text \<open>A client that follows the continuation tokens, at most \<open>n\<close> times.\<close>

fun follow_pages :: "nat \<Rightarrow> time \<Rightarrow> string \<Rightarrow> listObjectsOptions \<Rightarrow> ObjectMeta list \<Rightarrow> listBucketV2Result list" where
  "follow_pages 0 now bucket opts objects = []"
| "follow_pages (Suc n) now bucket opts objects =
     (let r = listObjectsV2Result now bucket opts objects
      in r # (if l2_IsTruncated r \<and> l2_NextContinuationToken r \<noteq> []
              then follow_pages n now bucket (opts\<lparr>lo_ContinuationToken := l2_NextContinuationToken r\<rparr>) objects else []))"

lemma token_roundtrip: "decodeContinuationToken (encodeContinuationToken key) = key"
  by (simp add: decodeContinuationToken_def encodeContinuationToken_def base64_roundtrip)

lemma token_nonempty: "key \<noteq> [] \<Longrightarrow> encodeContinuationToken key \<noteq> []"
  by (cases key rule: base64_encode.cases) (simp_all add: encodeContinuationToken_def Let_def)

text \<open>Without a delimiter a page takes the next objects after the cursor.\<close>

definition after_cursor :: "string \<Rightarrow> ObjectMeta list \<Rightarrow> ObjectMeta list" where
  "after_cursor cursor objects = filter (\<lambda>x. cursor = [] \<or> cursor < om_key x) objects"

lemma fill_page_plain:
  assumes "lo_Delimiter opts = []" "pg_MaxKeys p = int n" "pg_KeyCount p = int k" "k \<le> n" "0 < n" "\<not> pg_IsTruncated p"
  shows "fill_page now opts cursor objects l (p, seen) =
    (let todo = after_cursor cursor objects; taken = take (n - k) todo
     in (p\<lparr>pg_Contents := pg_Contents p @ map (objectResultFromMeta now) taken, pg_KeyCount := int (k + length taken), pg_IsTruncated := n - k < length todo\<rparr>,
         if taken = [] then l else om_key (last taken)))"
  using assms
proof (induction objects arbitrary: p k l)
  case Nil
  then show ?case by (simp add: after_cursor_def)
next
  case (Cons x objects)
  show ?case
  proof (cases "cursor \<noteq> [] \<and> om_key x \<le> cursor")
    case True
    then have "after_cursor cursor (x # objects) = after_cursor cursor objects" by (auto simp: after_cursor_def)
    moreover have "fill_page now opts cursor (x # objects) l (p, seen) = fill_page now opts cursor objects l (p, seen)"
      using True by (simp add: addObject_def)
    ultimately show ?thesis using Cons.IH [OF Cons.prems] by simp
  next
    case False
    then have a: "after_cursor cursor (x # objects) = x # after_cursor cursor objects" by (auto simp: after_cursor_def)
    show ?thesis
    proof (cases "k < n")
      case False
      then show ?thesis
        using Cons.prems \<open>\<not> (cursor \<noteq> [] \<and> om_key x \<le> cursor)\<close> by (auto simp: addObject_def listEntryForObject_def a Let_def)
    next
      case True
      let ?p = "add_entry p (EntryObject (objectResultFromMeta now x))"
      have s: "fill_page now opts cursor (x # objects) l (p, seen) = fill_page now opts cursor objects (om_key x) (?p, seen)"
        using Cons.prems False True by (auto simp: addObject_def listEntryForObject_def)
      have "fill_page now opts cursor objects (om_key x) (?p, seen) = (let todo = after_cursor cursor objects; taken = take (n - Suc k) todo
         in (?p\<lparr>pg_Contents := pg_Contents ?p @ map (objectResultFromMeta now) taken, pg_KeyCount := int (Suc k + length taken), pg_IsTruncated := n - Suc k < length todo\<rparr>,
             if taken = [] then om_key x else om_key (last taken)))"
        by (rule Cons.IH) (use Cons.prems True in \<open>auto simp: add_entry_def\<close>)
      moreover obtain m where "n - k = Suc m" "n - Suc k = m" using True by (metis Suc_diff_Suc)
      ultimately show ?thesis by (simp add: s a Let_def add_entry_def del: fill_page.simps)
    qed
  qed
qed


lemma page_plain:
  assumes "lo_Delimiter opts = []" "lo_MaxKeys opts = int n" "0 < n" and keys: "list_all (\<lambda>x. om_key x \<noteq> []) objects"
  defines "todo \<equiv> after_cursor (listCursor opts) objects"
  shows "pg_Contents (paginateObjectsV2 now opts objects) = map (objectResultFromMeta now) (take n todo)"
    and "pg_IsTruncated (paginateObjectsV2 now opts objects) = (n < length todo)"
    and "n < length todo \<Longrightarrow> pg_NextContinuationToken (paginateObjectsV2 now opts objects) = encodeContinuationToken (om_key (last (take n todo)))"
proof -
  note f = fill_page_plain [where k = 0 and n = n, OF assms(1)]
  show "pg_Contents (paginateObjectsV2 now opts objects) = map (objectResultFromMeta now) (take n todo)"
    "pg_IsTruncated (paginateObjectsV2 now opts objects) = (n < length todo)"
    using assms(2,3) by (auto simp: paginateObjectsV2_def f Let_def todo_def)
  assume more: "n < length todo"
  then have "last (take n todo) \<in> set todo" using \<open>0 < n\<close> by (intro in_set_takeD [OF last_in_set]) auto
  then have "om_key (last (take n todo)) \<noteq> []" using keys by (auto simp: todo_def after_cursor_def list_all_iff)
  then show "pg_NextContinuationToken (paginateObjectsV2 now opts objects) = encodeContinuationToken (om_key (last (take n todo)))"
    using assms(2,3) more by (auto simp: paginateObjectsV2_def f Let_def todo_def)
qed

lemma after_cursor_split:
  assumes "sorted_wrt (<) (map om_key (before @ todo))" "before \<noteq> []" "om_key (last before) \<noteq> []"
  shows "after_cursor (om_key (last before)) (before @ todo) = todo"
proof -
  obtain front x where b: "before = front @ [x]" using assms(2) by (metis rev_exhaust)
  have "filter (\<lambda>y. om_key x < om_key y) front = []" "filter (\<lambda>y. om_key x < om_key y) todo = todo"
    using assms(1) by (auto simp: b sorted_wrt_append filter_empty_conv filter_id_conv dest: less_asym')
  then show ?thesis using assms(3) by (simp add: b after_cursor_def)
qed

lemma follow_pages_from:
  fixes now :: time and bucket :: string
  assumes "objects = before @ todo" "after_cursor (listCursor opts) objects = todo" "length todo < m"
    and "lo_Delimiter opts = []" "lo_MaxKeys opts = int n" "0 < n"
    and "sorted_wrt (<) (map om_key objects)" "list_all (\<lambda>x. om_key x \<noteq> []) objects"
  defines "pages \<equiv> \<lambda>opts. follow_pages m now bucket opts objects"
  shows "concat (map l2_Contents (pages opts)) = map (objectResultFromMeta now) todo \<and>
    list_all (\<lambda>r. length (l2_Contents r) \<le> n) (pages opts) \<and> pages opts \<noteq> [] \<and> \<not> l2_IsTruncated (last (pages opts))"
  using assms(1-5) unfolding pages_def
proof (induction m arbitrary: before todo opts)
  case (Suc m)
  note pg = page_plain [OF Suc.prems(4,5) assms(6,8), unfolded Suc.prems(2), of now]
  show ?case
  proof (cases "n < length todo")
    case False
    then show ?thesis using pg(1,2) by (simp add: Let_def listObjectsV2Result_def)
  next
    case True
    let ?key = "om_key (last (take n todo))" and ?rest = "drop n todo"
    let ?opts = "opts\<lparr>lo_ContinuationToken := encodeContinuationToken ?key\<rparr>"
    have ne: "take n todo \<noteq> []" using True assms(6) by auto
    then have "last (take n todo) \<in> set todo" by (meson in_set_takeD last_in_set)
    then have key: "?key \<noteq> []" using assms(8) Suc.prems(1) by (auto simp: list_all_iff)
    have split: "objects = (before @ take n todo) @ ?rest" using Suc.prems(1) by simp
    have "after_cursor (listCursor ?opts) objects = ?rest"
      using after_cursor_split [of "before @ take n todo" ?rest] assms(7) ne key
      by (simp add: listCursor_def token_nonempty token_roundtrip Suc.prems(1))
    then have ih: "concat (map l2_Contents (follow_pages m now bucket ?opts objects)) = map (objectResultFromMeta now) ?rest \<and>
      list_all (\<lambda>r. length (l2_Contents r) \<le> n) (follow_pages m now bucket ?opts objects) \<and>
      follow_pages m now bucket ?opts objects \<noteq> [] \<and> \<not> l2_IsTruncated (last (follow_pages m now bucket ?opts objects))"
      using Suc.prems(3-5) assms(6) True by (intro Suc.IH [OF split]) auto
    have "map (objectResultFromMeta now) todo = map (objectResultFromMeta now) (take n todo) @ map (objectResultFromMeta now) ?rest"
      by (metis append_take_drop_id map_append)
    then show ?thesis using ih pg(1,2) pg(3) [OF True] True by (simp add: Let_def listObjectsV2Result_def token_nonempty [OF key])
  qed
qed simp

text \<open>C19: A client that lists a bucket page by page and follows the continuation tokens, without a delimiter and with a positive page size, gets
  every object exactly once and in key order; no page exceeds the page size, and the last page says that nothing is left after at most as
  many requests as there are objects, plus one.\<close>

theorem listing_pages_complete:
  assumes "lo_Delimiter opts = []" "lo_ContinuationToken opts = []" "lo_StartAfter opts = []" "0 < lo_MaxKeys opts"
    and "sorted_wrt (<) (map om_key objects)" "list_all (\<lambda>x. om_key x \<noteq> []) objects" "length objects < fuel"
  shows "concat (map l2_Contents (follow_pages fuel now bucket opts objects)) = map (objectResultFromMeta now) objects \<and>
    list_all (\<lambda>r. int (length (l2_Contents r)) \<le> lo_MaxKeys opts) (follow_pages fuel now bucket opts objects) \<and>
    \<not> l2_IsTruncated (last (follow_pages fuel now bucket opts objects))"
proof -
  obtain n where n: "lo_MaxKeys opts = int n" "0 < n" using assms(4) by (metis pos_int_cases)
  have "after_cursor (listCursor opts) objects = objects" using assms(2,3) by (simp add: listCursor_def after_cursor_def)
  from follow_pages_from [of objects "[]", OF _ this assms(7,1) n assms(5,6), of now bucket] show ?thesis by (simp add: n)
qed

definition demo_entry :: "string \<Rightarrow> ObjectMeta" where
  "demo_entry key = zero_ObjectMeta\<lparr>om_bucket := ''b'', om_key := key, om_updated := 1\<rparr>"

definition demo_listing :: listObjectsOptions where
  "demo_listing = listObjectsOptionsFromQuery
     (fmap_of_list [(''list-type'', [''2'']), (''max-keys'', [''2''])])"

theorem listing_pages_complete_witness:
  "map (map ores_Key \<circ> l2_Contents) (follow_pages 4 0 ''b'' demo_listing (map demo_entry [''a'', ''b/1'', ''b/2''])) = [[''a'', ''b/1''], [''b/2'']] \<and>
   concat (map l2_Contents (follow_pages 4 0 ''b'' demo_listing (map demo_entry [''a'', ''b/1'', ''b/2'']))) =
     map (objectResultFromMeta 0) (map demo_entry [''a'', ''b/1'', ''b/2''])"
proof
  show "map (map ores_Key \<circ> l2_Contents) (follow_pages 4 0 ''b'' demo_listing (map demo_entry [''a'', ''b/1'', ''b/2''])) = [[''a'', ''b/1''], [''b/2'']]"
    by code_simp
  show "concat (map l2_Contents (follow_pages 4 0 ''b'' demo_listing (map demo_entry [''a'', ''b/1'', ''b/2'']))) =
     map (objectResultFromMeta 0) (map demo_entry [''a'', ''b/1'', ''b/2''])"
    by (rule listing_pages_complete [THEN conjunct1]; code_simp)
qed

text \<open>With a delimiter, pages are not disjoint: the token is the key of the object that opened a common prefix, so the other objects below it open
  it again on the next page.\<close>

lemma common_prefix_repeats:
  "map l2_CommonPrefixes (follow_pages 3 0 ''b'' (demo_listing\<lparr>lo_MaxKeys := 1, lo_Delimiter := ''/''\<rparr>) (map demo_entry [''a/1'', ''a/2'', ''b''])) =
   [[''a/''], [''a/''], []]"
  by code_simp

text \<open>A page size of zero reports a truncated listing and no token to go on with.\<close>

lemma zero_page_size:
  "(let r = listObjectsV2Result 0 ''b'' (demo_listing\<lparr>lo_MaxKeys := 0\<rparr>) [demo_entry ''a''] in (l2_IsTruncated r, l2_NextContinuationToken r)) = (True, [])"
  by code_simp

end
