(* ===== verification/S3_Multipart.thy ===== *)
theory S3_Multipart
  imports S3_Listing S3_MD5 Go_Hex Object_Store
begin

text \<open>
  Multipart uploads: \<open>multipart_store.go\<close>, \<open>multipart_util.go\<close>, \<open>multipart_list.go\<close> and the types of \<open>multipart_types.go\<close> under
  \<open>internal/s3\<close>. The store of the uploads is a directory for each upload, with the document \<open>metadata.json\<close> and one file for
  each part.

  \<^item> The state is the map of those directories. A document is the record that is written to it; the temporary files that are never
    read again (\<open>part-*\<close>, \<open>complete-*\<close>, \<open>metadata.json.tmp\<close>) are not state.
  \<^item> Every call of the operating system takes its fate from a schedule, as in the engine: it succeeds, fails, or, for \<open>RemoveAll\<close>,
    fails half done. A request body is its bytes, or the error of reading it.
  \<^item> \<open>time.Now\<close> and the random bytes of an upload identifier are arguments. Contexts and the mutex are not modelled.
\<close>

section \<open>Types\<close>

record multipartPart =
  mpp_Number :: int
  mpp_ETag :: string
  mpp_Digest :: string
  mpp_Size :: int
  mpp_UploadedAt :: time

record multipartUpload =
  mu_UploadID :: string
  mu_Bucket :: string
  mu_Key :: string
  mu_ContentType :: string
  mu_CacheControl :: string
  mu_ContentDisposition :: string
  mu_ContentEncoding :: string
  mu_ContentLanguage :: string
  mu_UserMetadata :: "(string, string) fmap"
  mu_CreatedAt :: time
  mu_Parts :: "(int, multipartPart) fmap"

record assembledMultipart =
  as_file :: bytes
  as_etag :: string

record completeMultipartPart =
  cp_PartNumber :: int
  cp_ETag :: string

datatype multipart_error =
    errNoSuchUpload | errInvalidUploadID | errInvalidPart | errInvalidPartOrder | errMalformedXML | errEntityTooSmall
  | errIO string

text \<open>The directory of an upload, and the store.\<close>

record upload_dir =
  ud_metadata :: "multipartUpload option"
  ud_parts :: "(int, bytes) fmap"

record multipartStore =
  mp_dirs :: "(string, upload_dir) fmap"
  mp_fates :: "io_fate list"

type_synonym 'a mp_action = "multipartStore \<Rightarrow> multipartStore \<times> (multipart_error + 'a)"

definition mp_return :: "'a \<Rightarrow> 'a mp_action" where
  "mp_return x m = (m, Inr x)"

definition mp_throw :: "multipart_error \<Rightarrow> 'a mp_action" where
  "mp_throw err m = (m, Inl err)"

definition mp_then :: "'a mp_action \<Rightarrow> ('a \<Rightarrow> 'b mp_action) \<Rightarrow> 'b mp_action" where
  "mp_then f g m = (case f m of (m', Inl err) \<Rightarrow> (m', Inl err) | (m', Inr x) \<Rightarrow> g x m')"

definition mp_check :: "bool \<Rightarrow> multipart_error \<Rightarrow> unit mp_action" where
  "mp_check b err = (if b then mp_return () else mp_throw err)"

text \<open>One call of the operating system that, when it succeeds, changes the directories by \<open>f\<close>.\<close>

definition mp_io :: "string \<Rightarrow> ((string, upload_dir) fmap \<Rightarrow> (string, upload_dir) fmap) \<Rightarrow> unit mp_action" where
  "mp_io what f m =
     (let m' = m\<lparr>mp_fates := tl (mp_fates m)\<rparr> in
      case mp_fates m of
        [] \<Rightarrow> (m'\<lparr>mp_dirs := f (mp_dirs m)\<rparr>, Inr ())
      | IOk # _ \<Rightarrow> (m'\<lparr>mp_dirs := f (mp_dirs m)\<rparr>, Inr ())
      | _ \<Rightarrow> (m', Inl (errIO what)))"

section \<open>Queries\<close>

text \<open>\<open>strings.EqualFold\<close> against an ASCII name: besides the other case of a letter, the long s and the Kelvin sign match.\<close>

function fold_case :: "string \<Rightarrow> string" where
  "fold_case s =
     (if s = [] then []
      else if has_prefix s [CHR 0xC5, CHR 0xBF] then CHR ''s'' # fold_case (drop 2 s)
      else if has_prefix s [CHR 0xE2, CHR 0x84, CHR 0xAA] then CHR ''k'' # fold_case (drop 3 s)
      else lower_char (hd s) # fold_case (tl s))"
  by pat_completeness auto
termination by (relation "measure length") (auto simp: has_prefix_def)

declare fold_case.simps [simp del]

definition equal_fold :: "string \<Rightarrow> string \<Rightarrow> bool" where
  "equal_fold s t \<longleftrightarrow> fold_case s = fold_case t"

definition hasQueryKey :: "url_values \<Rightarrow> string \<Rightarrow> bool" where
  "hasQueryKey query name = list_ex (\<lambda>key. equal_fold key name) (fm_keys query)"

definition queryValue :: "url_values \<Rightarrow> string \<Rightarrow> string" where
  "queryValue query name =
     (case find (\<lambda>(key, values). equal_fold key name \<and> values \<noteq> []) (fm_entries query) of
        Some (_, values) \<Rightarrow> hd values
      | None \<Rightarrow> [])"

definition parsePartNumber :: "url_values \<Rightarrow> multipart_error + int" where
  "parsePartNumber query =
     (let value = queryValue query ''partNumber'' in
      if value = [] then Inl errInvalidPart
      else case parse_int64 value of
        None \<Rightarrow> Inl errInvalidPart
      | Some partNumber \<Rightarrow> if partNumber < 1 \<or> 10000 < partNumber then Inl errInvalidPart else Inr partNumber)"

definition invalidUploadIDRune :: "char \<Rightarrow> bool" where
  "invalidUploadIDRune value =
     (if CHR ''a'' \<le> value \<and> value \<le> CHR ''z'' \<or> CHR ''A'' \<le> value \<and> value \<le> CHR ''Z'' \<or> CHR ''0'' \<le> value \<and> value \<le> CHR ''9''
      then False else value \<noteq> CHR ''-'' \<and> value \<noteq> CHR ''_'')"

text \<open>Every byte of a longer rune is rejected, as the rune is.\<close>

definition validateUploadID :: "string \<Rightarrow> bool" where
  "validateUploadID uploadID =
     (let uploadID = trim_space uploadID
      in \<not> (uploadID = [] \<or> 128 < length uploadID \<or> list_ex invalidUploadIDRune uploadID))"

section \<open>Entity tags\<close>

definition etagMatches :: "string \<Rightarrow> string \<Rightarrow> bool" where
  "etagMatches stored requested =
     (let requested = trim_space requested
      in if requested = [] then True else trim_quotes stored = trim_quotes requested)"

definition ensurePartDigest :: "multipartPart \<Rightarrow> multipartPart" where
  "ensurePartDigest part =
     (if trim_space (mpp_Digest part) = [] then part\<lparr>mpp_Digest := trim_quotes (mpp_ETag part)\<rparr> else part)"

text \<open>The hasher of a part, and its tag after the body was copied to it in pieces.\<close>

definition multipartPartHasher_ETag :: "protocolMD5 \<Rightarrow> string" where
  "multipartPartHasher_ETag h = hex_encode (Sum h)"

definition fallbackMultipartETag :: "multipartPart list \<Rightarrow> string" where
  "fallbackMultipartETag parts =
     (let hasher = fold (\<lambda>part h. Write h (mpp_ETag part)) parts newProtocolMD5
      in quoteETag (hex_encode (Sum hasher) @ ''-'' @ show_nat (length parts)))"

fun part_digests :: "multipartPart list \<Rightarrow> bytes option" where
  "part_digests [] = Some []"
| "part_digests (part # parts) =
     (case hex_decode (trim_quotes (mpp_Digest part)) of
        None \<Rightarrow> None
      | Some digest \<Rightarrow> if length digest \<noteq> 16 then None else map_option (\<lambda>ds. digest @ ds) (part_digests parts))"

definition multipartCompleteETag :: "multipartPart list \<Rightarrow> string" where
  "multipartCompleteETag parts =
     (case part_digests parts of
        None \<Rightarrow> fallbackMultipartETag parts
      | Some digests \<Rightarrow> quoteETag (hex_encode (protocolMD5Sum digests) @ ''-'' @ show_nat (length parts)))"

section \<open>Completing an upload\<close>

definition minMultipartPartSize :: int where
  "minMultipartPartSize = 5 * 1024 * 1024"

definition validateMultipartPartSizes :: "multipartPart list \<Rightarrow> bool" where
  "validateMultipartPartSizes parts =
     (if length parts < 2 then True else list_all (\<lambda>part. minMultipartPartSize \<le> mpp_Size part) (butlast parts))"

fun collect_parts :: "multipartUpload \<Rightarrow> int \<Rightarrow> completeMultipartPart list \<Rightarrow> multipart_error + multipartPart list" where
  "collect_parts upload previous [] = Inr []"
| "collect_parts upload previous (item # requested) =
     (if cp_PartNumber item \<le> previous then Inl errInvalidPartOrder
      else case fmlookup (mu_Parts upload) (cp_PartNumber item) of
        None \<Rightarrow> Inl errInvalidPart
      | Some part \<Rightarrow>
          if \<not> etagMatches (mpp_ETag part) (cp_ETag item) then Inl errInvalidPart
          else map_sum id (\<lambda>parts. ensurePartDigest part # parts) (collect_parts upload (cp_PartNumber item) requested))"

definition completeParts :: "multipartUpload \<Rightarrow> completeMultipartPart list \<Rightarrow> multipart_error + multipartPart list" where
  "completeParts upload requested =
     (if requested = [] then Inl errInvalidPart
      else case collect_parts upload 0 requested of
        Inl err \<Rightarrow> Inl err
      | Inr parts \<Rightarrow> if validateMultipartPartSizes parts then Inr parts else Inl errEntityTooSmall)"

section \<open>The store\<close>

definition base36 :: "nat \<Rightarrow> char" where
  "base36 n = ''0123456789abcdefghijklmnopqrstuvwxyz'' ! n"

fun show_base36 :: "nat \<Rightarrow> string" where
  "show_base36 n = (if n < 36 then [base36 n] else show_base36 (n div 36) @ [base36 (n mod 36)])"

declare show_base36.simps [simp del]

text \<open>\<open>rnd\<close> is what \<open>rand.Read\<close> gave; \<open>now\<close> the Unix time in nanoseconds, within 64 bits.\<close>

definition newUploadID :: "bytes option \<Rightarrow> int \<Rightarrow> string" where
  "newUploadID rnd now =
     (case rnd of
        None \<Rightarrow> (if now < 0 then CHR ''-'' # show_base36 (nat (- now)) else show_base36 (nat now))
      | Some data \<Rightarrow> hex_encode data)"

definition cloneMultipartUserMetadata :: "Externals \<Rightarrow> (string, string) fmap \<Rightarrow> (string, string) fmap" where
  "cloneMultipartUserMetadata X input =
     fold (\<lambda>(key, value) output.
         let key = ToLower X (trim_space key); value = trim_space value
         in if key = [] \<or> value = [] then output else fmupd key value output)
       (fm_entries input) fmempty"

definition empty_dir :: upload_dir where
  "empty_dir = \<lparr>ud_metadata = None, ud_parts = fmempty\<rparr>"

definition mkdir_all :: "string \<Rightarrow> (string, upload_dir) fmap \<Rightarrow> (string, upload_dir) fmap" where
  "mkdir_all uploadID dirs = (if uploadID |\<in>| fmdom dirs then dirs else fmupd uploadID empty_dir dirs)"

definition put_metadata :: "multipartUpload \<Rightarrow> (string, upload_dir) fmap \<Rightarrow> (string, upload_dir) fmap" where
  "put_metadata upload dirs =
     (case fmlookup dirs (mu_UploadID upload) of
        None \<Rightarrow> dirs
      | Some dir \<Rightarrow> fmupd (mu_UploadID upload) (dir\<lparr>ud_metadata := Some upload\<rparr>) dirs)"

definition put_part_file :: "string \<Rightarrow> int \<Rightarrow> bytes \<Rightarrow> (string, upload_dir) fmap \<Rightarrow> (string, upload_dir) fmap" where
  "put_part_file uploadID n data dirs =
     (case fmlookup dirs uploadID of
        None \<Rightarrow> dirs
      | Some dir \<Rightarrow> fmupd uploadID (dir\<lparr>ud_parts := fmupd n data (ud_parts dir)\<rparr>) dirs)"

definition saveLocked :: "multipartUpload \<Rightarrow> unit mp_action" where
  "saveLocked upload =
     mp_then (mp_io ''create multipart metadata dir'' (mkdir_all (mu_UploadID upload))) (\<lambda>_.
     mp_then (mp_io ''write multipart metadata'' (\<lambda>dirs. dirs)) (\<lambda>_.
       mp_io ''commit multipart metadata'' (put_metadata upload)))"

definition loadLocked :: "string \<Rightarrow> multipartUpload mp_action" where
  "loadLocked uploadID =
     mp_then (mp_check (validateUploadID uploadID) errInvalidUploadID) (\<lambda>_ m.
       case Option.bind (fmlookup (mp_dirs m) uploadID) ud_metadata of
         None \<Rightarrow> mp_throw errNoSuchUpload m
       | Some upload \<Rightarrow> mp_then (mp_io ''open multipart metadata'' (\<lambda>dirs. dirs)) (\<lambda>_. mp_return upload) m)"

definition initiate :: "Externals \<Rightarrow> string \<Rightarrow> time \<Rightarrow> string \<Rightarrow> string \<Rightarrow> PutOptions \<Rightarrow> multipartUpload mp_action" where
  "initiate X uploadID now bucket key opts =
     (let upload = \<lparr>mu_UploadID = uploadID, mu_Bucket = trim_space bucket, mu_Key = trim_space key,
            mu_ContentType = trim_space (po_ContentType opts), mu_CacheControl = trim_space (po_CacheControl opts),
            mu_ContentDisposition = trim_space (po_ContentDisposition opts), mu_ContentEncoding = trim_space (po_ContentEncoding opts),
            mu_ContentLanguage = trim_space (po_ContentLanguage opts),
            mu_UserMetadata = cloneMultipartUserMetadata X (po_UserMetadata opts), mu_CreatedAt = now, mu_Parts = fmempty\<rparr>
      in mp_then (mp_check (\<not> (mu_Bucket upload = [] \<or> mu_Key upload = [])) errInvalidPart) (\<lambda>_.
         mp_then (mp_io ''create multipart upload'' (mkdir_all uploadID)) (\<lambda>_.
         mp_then (saveLocked upload) (\<lambda>_. mp_return upload))))"

text \<open>The copy reads the whole body; a body that cannot be read ends it with an error.\<close>

definition writePartLocked :: "string \<Rightarrow> int \<Rightarrow> time \<Rightarrow> string + bytes \<Rightarrow> multipartPart mp_action" where
  "writePartLocked uploadID partNumber now reader =
     mp_then (mp_check (\<not> (partNumber < 1 \<or> 10000 < partNumber)) errInvalidPart) (\<lambda>_.
     mp_then (mp_io ''create multipart part'' (\<lambda>dirs. dirs)) (\<lambda>_.
     mp_then (case reader of Inl e \<Rightarrow> mp_throw (errIO e) | Inr data \<Rightarrow> mp_return data) (\<lambda>data.
     mp_then (mp_io ''write multipart part'' (\<lambda>dirs. dirs)) (\<lambda>_.
     mp_then (mp_io ''close multipart part'' (\<lambda>dirs. dirs)) (\<lambda>_.
     mp_then (mp_io ''commit multipart part'' (put_part_file uploadID partNumber data)) (\<lambda>_.
       let hasher = Write newProtocolMD5 data; etag = multipartPartHasher_ETag hasher
       in mp_return \<lparr>mpp_Number = partNumber, mpp_ETag = quoteETag etag, mpp_Digest = etag, mpp_Size = int (length data),
            mpp_UploadedAt = now\<rparr>))))))"

definition putPart :: "string \<Rightarrow> string \<Rightarrow> string \<Rightarrow> int \<Rightarrow> time \<Rightarrow> string + bytes \<Rightarrow> multipartPart mp_action" where
  "putPart uploadID bucket key partNumber now reader =
     mp_then (loadLocked uploadID) (\<lambda>upload.
     mp_then (mp_check (\<not> (mu_Bucket upload \<noteq> bucket \<or> mu_Key upload \<noteq> key)) errNoSuchUpload) (\<lambda>_.
     mp_then (writePartLocked (mu_UploadID upload) partNumber now reader) (\<lambda>part.
     mp_then (saveLocked (upload\<lparr>mu_Parts := fmupd partNumber part (mu_Parts upload)\<rparr>)) (\<lambda>_.
       mp_return part))))"

definition copyPartFile :: "string \<Rightarrow> int \<Rightarrow> bytes mp_action" where
  "copyPartFile uploadID n =
     mp_then (\<lambda>m. case Option.bind (fmlookup (mp_dirs m) uploadID) (\<lambda>dir. fmlookup (ud_parts dir) n) of
         None \<Rightarrow> mp_throw (errIO ''open multipart part'') m
       | Some data \<Rightarrow> mp_then (mp_io ''open multipart part'' (\<lambda>dirs. dirs)) (\<lambda>_. mp_return data) m) (\<lambda>data.
     mp_then (mp_io ''copy multipart part'' (\<lambda>dirs. dirs)) (\<lambda>_. mp_return data))"

fun copy_parts :: "string \<Rightarrow> multipartPart list \<Rightarrow> bytes mp_action" where
  "copy_parts uploadID [] = mp_return []"
| "copy_parts uploadID (part # parts) =
     mp_then (copyPartFile uploadID (mpp_Number part)) (\<lambda>data.
     mp_then (copy_parts uploadID parts) (\<lambda>rest. mp_return (data @ rest)))"

definition assembleLocked :: "string \<Rightarrow> multipartPart list \<Rightarrow> assembledMultipart mp_action" where
  "assembleLocked uploadID parts =
     mp_then (mp_io ''create multipart assembly'' (\<lambda>dirs. dirs)) (\<lambda>_.
     mp_then (copy_parts uploadID parts) (\<lambda>data.
     mp_then (mp_io ''seek multipart assembly'' (\<lambda>dirs. dirs)) (\<lambda>_.
       mp_return \<lparr>as_file = data, as_etag = multipartCompleteETag parts\<rparr>)))"

definition assemble :: "string \<Rightarrow> completeMultipartPart list \<Rightarrow> (assembledMultipart \<times> multipartUpload) mp_action" where
  "assemble uploadID requestParts =
     mp_then (loadLocked uploadID) (\<lambda>upload.
     mp_then (case completeParts upload requestParts of Inl err \<Rightarrow> mp_throw err | Inr parts \<Rightarrow> mp_return parts) (\<lambda>parts.
     mp_then (assembleLocked (mu_UploadID upload) parts) (\<lambda>assembled. mp_return (assembled, upload))))"

text \<open>\<open>RemoveAll\<close>, half done, has removed the document before the first \<open>n\<close> part files.\<close>

definition remove_upload :: "string \<Rightarrow> unit mp_action" where
  "remove_upload uploadID m =
     (let m' = m\<lparr>mp_fates := tl (mp_fates m)\<rparr>; removed = m'\<lparr>mp_dirs := fmdrop uploadID (mp_dirs m)\<rparr> in
      case mp_fates m of
        [] \<Rightarrow> (removed, Inr ())
      | IOk # _ \<Rightarrow> (removed, Inr ())
      | IFail # _ \<Rightarrow> (m', Inl (errIO ''remove multipart upload''))
      | ITorn n # _ \<Rightarrow>
          (case fmlookup (mp_dirs m) uploadID of
             None \<Rightarrow> (m', Inl (errIO ''remove multipart upload''))
           | Some dir \<Rightarrow>
               let gone = take n (fm_keys (ud_parts dir))
               in (m'\<lparr>mp_dirs := fmupd uploadID \<lparr>ud_metadata = None, ud_parts = fmfilter (\<lambda>k. k \<notin> set gone) (ud_parts dir)\<rparr> (mp_dirs m)\<rparr>,
                   Inl (errIO ''remove multipart upload''))))"

definition abort :: "string \<Rightarrow> unit mp_action" where
  "abort uploadID =
     mp_then (mp_check (validateUploadID uploadID) errInvalidUploadID) (\<lambda>_.
     mp_then (\<lambda>m. case Option.bind (fmlookup (mp_dirs m) uploadID) ud_metadata of
         None \<Rightarrow> mp_throw errNoSuchUpload m
       | Some _ \<Rightarrow> mp_io ''stat multipart upload'' (\<lambda>dirs. dirs) m) (\<lambda>_.
       remove_upload uploadID))"

section \<open>Listing parts\<close>

record listPartsOptions =
  lp_PartNumberMarker :: int
  lp_MaxParts :: int

definition sortedMultipartParts :: "(int, multipartPart) fmap \<Rightarrow> multipartPart list" where
  "sortedMultipartParts parts = fm_values parts"

definition listPartsOptionsFromQuery :: "url_values \<Rightarrow> multipart_error + listPartsOptions" where
  "listPartsOptionsFromQuery query =
     (let marker = queryValue query ''part-number-marker''; maxParts = queryValue query ''max-parts'' in
      case (if marker = [] then Some 0
            else case parse_int64 marker of None \<Rightarrow> None | Some v \<Rightarrow> if v < 0 then None else Some v) of
        None \<Rightarrow> Inl errInvalidPart
      | Some marker \<Rightarrow>
          (case (if maxParts = [] then Some 1000
                 else case parse_int64 maxParts of None \<Rightarrow> None | Some v \<Rightarrow> if v < 1 then None else Some (if 1000 < v then 1000 else v)) of
             None \<Rightarrow> Inl errInvalidPart
           | Some maxParts \<Rightarrow> Inr \<lparr>lp_PartNumberMarker = marker, lp_MaxParts = maxParts\<rparr>))"

definition paginateMultipartParts :: "multipartPart list \<Rightarrow> listPartsOptions \<Rightarrow> multipartPart list \<times> int \<times> bool" where
  "paginateMultipartParts parts options =
     (let filtered = filter (\<lambda>part. \<not> mpp_Number part \<le> lp_PartNumberMarker options) parts in
      if int (length filtered) \<le> lp_MaxParts options then (filtered, 0, False)
      else let page = take (nat (lp_MaxParts options)) filtered in (page, mpp_Number (last page), True))"

section \<open>Listing uploads\<close>

record listMultipartUploadsOptions =
  lu_Prefix :: string
  lu_KeyMarker :: string
  lu_UploadIDMarker :: string
  lu_MaxUploads :: int

definition multipartUploadEntriesLocked :: "string list mp_action" where
  "multipartUploadEntriesLocked m = mp_then (mp_io ''list multipart uploads'' (\<lambda>dirs. dirs)) (\<lambda>_. mp_return (fm_keys (mp_dirs m))) m"

fun bucketMultipartUploadsLocked :: "string list \<Rightarrow> string \<Rightarrow> multipartUpload list mp_action" where
  "bucketMultipartUploadsLocked [] bucket = mp_return []"
| "bucketMultipartUploadsLocked (entry # entries) bucket = (\<lambda>m.
     case loadLocked entry m of
       (m, Inl err) \<Rightarrow> if err = errNoSuchUpload then bucketMultipartUploadsLocked entries bucket m else (m, Inl err)
     | (m, Inr upload) \<Rightarrow>
         mp_then (bucketMultipartUploadsLocked entries bucket) (\<lambda>uploads.
           mp_return (if mu_Bucket upload = bucket then upload # uploads else uploads)) m)"

text \<open>A stable sort by key, then by identifier.\<close>

definition sortMultipartUploads :: "multipartUpload list \<Rightarrow> multipartUpload list" where
  "sortMultipartUploads uploads = sort_key mu_Key (sort_key mu_UploadID uploads)"

definition listBucket :: "string \<Rightarrow> multipartUpload list mp_action" where
  "listBucket bucket =
     mp_then multipartUploadEntriesLocked (\<lambda>entries.
     mp_then (bucketMultipartUploadsLocked entries bucket) (\<lambda>uploads. mp_return (sortMultipartUploads uploads)))"

definition listMultipartUploadsOptionsFromQuery :: "url_values \<Rightarrow> multipart_error + listMultipartUploadsOptions" where
  "listMultipartUploadsOptionsFromQuery query =
     (let maxUploads = queryValue query ''max-uploads'' in
      case (if maxUploads = [] then Some 1000
            else case parse_int64 maxUploads of None \<Rightarrow> None | Some v \<Rightarrow> if v < 1 then None else Some (if 1000 < v then 1000 else v)) of
        None \<Rightarrow> Inl errInvalidPart
      | Some maxUploads \<Rightarrow>
          Inr \<lparr>lu_Prefix = queryValue query ''prefix'', lu_KeyMarker = queryValue query ''key-marker'',
               lu_UploadIDMarker = queryValue query ''upload-id-marker'', lu_MaxUploads = maxUploads\<rparr>)"

definition multipartUploadAfterMarker :: "multipartUpload \<Rightarrow> listMultipartUploadsOptions \<Rightarrow> bool" where
  "multipartUploadAfterMarker upload options =
     (if lu_KeyMarker options = [] then True
      else if lu_KeyMarker options < mu_Key upload then True
      else if mu_Key upload < lu_KeyMarker options then False
      else if lu_UploadIDMarker options = [] then False
      else lu_UploadIDMarker options < mu_UploadID upload)"

definition filterMultipartUploads :: "multipartUpload list \<Rightarrow> listMultipartUploadsOptions \<Rightarrow> multipartUpload list" where
  "filterMultipartUploads uploads options =
     filter (\<lambda>upload. \<not> (lu_Prefix options \<noteq> [] \<and> \<not> has_prefix (mu_Key upload) (lu_Prefix options)) \<and>
       multipartUploadAfterMarker upload options) uploads"

definition paginateMultipartUploads :: "multipartUpload list \<Rightarrow> listMultipartUploadsOptions \<Rightarrow> multipartUpload list \<times> multipartUpload option \<times> bool" where
  "paginateMultipartUploads uploads options =
     (if int (length uploads) \<le> lu_MaxUploads options then (uploads, None, False)
      else let page = take (nat (lu_MaxUploads options)) uploads in (page, Some (last page), True))"

end
