(* ===== verification/Multipart_Uploads.thy ===== *)
theory Multipart_Uploads
  imports S3_Multipart
begin

text \<open>
  What multipart uploads promise, and that the store of \<open>S3_Multipart\<close> keeps it on a file system that may fail at every call. An upload
  is a name and a map of parts. A part is the pair of the bytes its file holds and the bytes that its recorded tag and size
  describe: the two differ only after a part was replaced and the document could not be written (rule \<open>put_torn\<close>).
\<close>

section \<open>The specification\<close>

record upload_spec =
  us_Bucket :: string
  us_Key :: string
  us_Parts :: "int \<rightharpoonup> bytes \<times> bytes"

type_synonym uploads = "string \<rightharpoonup> upload_spec"

datatype multipart_op =
    OpInitiate string time string string PutOptions
  | OpPutPart string string string int time "string + bytes"
  | OpComplete string "completeMultipartPart list"
  | OpAbort string

datatype multipart_reply = Created string | PartStored string | Assembled bytes string | Aborted | Rejected multipart_error

fun op_upload :: "multipart_op \<Rightarrow> string option" where
  "op_upload (OpInitiate _ _ _ _ _) = None"
| "op_upload (OpPutPart uid _ _ _ _ _) = Some uid"
| "op_upload (OpComplete uid _) = Some uid"
| "op_upload (OpAbort uid) = Some uid"

text \<open>The tag of a part, and of an object made of parts: the digest of the digests, and how many there were.\<close>

definition part_tag :: "bytes \<Rightarrow> string" where
  "part_tag data = quoteETag (hex_encode (md5 data))"

definition object_tag :: "bytes list \<Rightarrow> string" where
  "object_tag datas = quoteETag (hex_encode (md5 (concat (map md5 datas))) @ ''-'' @ show_nat (length datas))"

text \<open>A request names a part by its number and, if it likes, its tag.\<close>

definition named_part :: "upload_spec \<Rightarrow> completeMultipartPart \<Rightarrow> bytes \<times> bytes \<Rightarrow> bool" where
  "named_part u r p \<longleftrightarrow> us_Parts u (cp_PartNumber r) = Some p \<and>
     (trim_space (cp_ETag r) = [] \<or> trim_quotes (trim_space (cp_ETag r)) = hex_encode (md5 (snd p)))"

inductive upload_step :: "multipart_op \<Rightarrow> uploads \<Rightarrow> multipart_reply \<Rightarrow> uploads \<Rightarrow> bool" where
  initiate: "trim_space b \<noteq> [] \<Longrightarrow> trim_space k \<noteq> [] \<Longrightarrow>
    upload_step (OpInitiate uid now b k opts) A (Created uid)
      (A(uid \<mapsto> \<lparr>us_Bucket = trim_space b, us_Key = trim_space k, us_Parts = Map.empty\<rparr>))"
| initiate_unnamed: "trim_space b = [] \<or> trim_space k = [] \<Longrightarrow>
    upload_step (OpInitiate uid now b k opts) A (Rejected errInvalidPart) A"
| invalid: "op_upload c = Some uid \<Longrightarrow> \<not> validateUploadID uid \<Longrightarrow> upload_step c A (Rejected errInvalidUploadID) A"
| missing: "op_upload c = Some uid \<Longrightarrow> A uid = None \<Longrightarrow> upload_step c A (Rejected errNoSuchUpload) A"
| put: "A uid = Some u \<Longrightarrow> us_Bucket u = b \<Longrightarrow> us_Key u = k \<Longrightarrow> 1 \<le> n \<Longrightarrow> n \<le> 10000 \<Longrightarrow>
    upload_step (OpPutPart uid b k n now (Inr d)) A (PartStored (part_tag d)) (A(uid \<mapsto> u\<lparr>us_Parts := (us_Parts u)(n \<mapsto> (d, d))\<rparr>))"
| put_elsewhere: "A uid = Some u \<Longrightarrow> us_Bucket u \<noteq> b \<or> us_Key u \<noteq> k \<Longrightarrow>
    upload_step (OpPutPart uid b k n now reader) A (Rejected errNoSuchUpload) A"
| put_number: "A uid = Some u \<Longrightarrow> n < 1 \<or> 10000 < n \<Longrightarrow> upload_step (OpPutPart uid b k n now reader) A (Rejected errInvalidPart) A"
| put_torn: "A uid = Some u \<Longrightarrow> us_Parts u n = Some (contents, described) \<Longrightarrow>
    upload_step (OpPutPart uid b k n now (Inr d)) A (Rejected (errIO what)) (A(uid \<mapsto> u\<lparr>us_Parts := (us_Parts u)(n \<mapsto> (d, described))\<rparr>))"
| complete: "A uid = Some u \<Longrightarrow> rs \<noteq> [] \<Longrightarrow> sorted_wrt (<) (0 # map cp_PartNumber rs) \<Longrightarrow> list_all2 (named_part u) rs ps \<Longrightarrow>
    list_all (\<lambda>p. minMultipartPartSize \<le> int (length (snd p))) (butlast ps) \<Longrightarrow>
    upload_step (OpComplete uid rs) A (Assembled (concat (map fst ps)) (object_tag (map snd ps))) A"
| complete_order: "A uid = Some u \<Longrightarrow> \<not> sorted_wrt (<) (0 # map cp_PartNumber rs) \<Longrightarrow>
    upload_step (OpComplete uid rs) A (Rejected errInvalidPartOrder) A"
| complete_part: "A uid = Some u \<Longrightarrow> rs = [] \<or> list_ex (\<lambda>r. \<forall>p. \<not> named_part u r p) rs \<Longrightarrow>
    upload_step (OpComplete uid rs) A (Rejected errInvalidPart) A"
| complete_small: "A uid = Some u \<Longrightarrow> list_all2 (named_part u) rs ps \<Longrightarrow>
    list_ex (\<lambda>p. int (length (snd p)) < minMultipartPartSize) (butlast ps) \<Longrightarrow>
    upload_step (OpComplete uid rs) A (Rejected errEntityTooSmall) A"
| abort: "A uid = Some u \<Longrightarrow> upload_step (OpAbort uid) A Aborted (A(uid := None))"
| abort_torn: "upload_step (OpAbort uid) A (Rejected (errIO what)) (A(uid := None))"
| io_failed: "upload_step c A (Rejected (errIO what)) A"

inductive upload_run :: "multipart_op list \<Rightarrow> uploads \<Rightarrow> multipart_reply list \<Rightarrow> uploads \<Rightarrow> bool" where
  none: "upload_run [] A [] A"
| more: "upload_step c A r A1 \<Longrightarrow> upload_run cs A1 rs A2 \<Longrightarrow> upload_run (c # cs) A (r # rs) A2"

inductive_cases upload_step_completeE: "upload_step (OpComplete uid rs) A r A'"
inductive_cases upload_step_abortE: "upload_step (OpAbort uid) A r A'"
inductive_simps upload_run_simps: "upload_run [] A rs A'" "upload_run (c # cs) A rs A'"

section \<open>What the store does\<close>

definition mp_reply :: "('a \<Rightarrow> multipart_reply) \<Rightarrow> multipartStore \<times> (multipart_error + 'a) \<Rightarrow> multipartStore \<times> multipart_reply" where
  "mp_reply f r = (case r of (m, Inl err) \<Rightarrow> (m, Rejected err) | (m, Inr x) \<Rightarrow> (m, f x))"

fun mp_serve :: "Externals \<Rightarrow> multipart_op \<Rightarrow> multipartStore \<Rightarrow> multipartStore \<times> multipart_reply" where
  "mp_serve X (OpInitiate uid now b k opts) m = mp_reply (\<lambda>u. Created (mu_UploadID u)) (initiate X uid now b k opts m)"
| "mp_serve X (OpPutPart uid b k n now reader) m = mp_reply (\<lambda>p. PartStored (mpp_ETag p)) (putPart uid b k n now reader m)"
| "mp_serve X (OpComplete uid rs) m = mp_reply (\<lambda>(a, u). Assembled (as_file a) (as_etag a)) (assemble uid rs m)"
| "mp_serve X (OpAbort uid) m = mp_reply (\<lambda>_. Aborted) (abort uid m)"

primrec mp_serve_all :: "Externals \<Rightarrow> multipart_op list \<Rightarrow> multipartStore \<Rightarrow> multipartStore \<times> multipart_reply list" where
  "mp_serve_all X [] m = (m, [])"
| "mp_serve_all X (c # cs) m = (let (m1, r) = mp_serve X c m; (m2, rs) = mp_serve_all X cs m1 in (m2, r # rs))"

section \<open>Weakest preconditions\<close>

named_theorems mp_simps \<open>weakest preconditions of the actions on the upload store\<close>

definition mp_wp :: "'a mp_action \<Rightarrow> ('a \<Rightarrow> multipartStore \<Rightarrow> bool) \<Rightarrow> (multipart_error \<Rightarrow> multipartStore \<Rightarrow> bool) \<Rightarrow> multipartStore \<Rightarrow> bool" where
  "mp_wp f Q E m = (case f m of (m', Inr x) \<Rightarrow> Q x m' | (m', Inl err) \<Rightarrow> E err m')"

lemma mp_wp_return [mp_simps]: "mp_wp (mp_return x) Q E m = Q x m"
  by (simp add: mp_wp_def mp_return_def)

lemma mp_wp_throw [mp_simps]: "mp_wp (mp_throw err) Q E m = E err m"
  by (simp add: mp_wp_def mp_throw_def)

lemma mp_wp_then [mp_simps]: "mp_wp (mp_then f g) Q E m = mp_wp f (\<lambda>x. mp_wp (g x) Q E) E m"
  by (auto simp: mp_wp_def mp_then_def split: prod.split sum.split)

lemma mp_wp_check [mp_simps]: "mp_wp (mp_check b err) Q E m = (if b then Q () m else E err m)"
  by (simp add: mp_check_def mp_simps)

lemma mp_wp_look [mp_simps]:
  "mp_wp (\<lambda>m. case F m of None \<Rightarrow> f m | Some y \<Rightarrow> g y m) Q E m = (case F m of None \<Rightarrow> mp_wp f Q E m | Some y \<Rightarrow> mp_wp (g y) Q E m)"
  by (simp add: mp_wp_def split: option.split)

lemma mp_wp_io:
  assumes "\<And>fates. Q () (m\<lparr>mp_dirs := f (mp_dirs m), mp_fates := fates\<rparr>)" "\<And>fates. E (errIO what) (m\<lparr>mp_fates := fates\<rparr>)"
  shows "mp_wp (mp_io what f) Q E m"
proof -
  have s: "m\<lparr>mp_fates := fates, mp_dirs := d\<rparr> = m\<lparr>mp_dirs := d, mp_fates := fates\<rparr>" for fates d by simp
  show ?thesis using assms by (auto simp: mp_wp_def mp_io_def Let_def s split: list.split io_fate.split)
qed

lemma mp_wp_mono:
  assumes "mp_wp f Q E m" "\<And>x m'. Q x m' \<Longrightarrow> Q' x m'" "\<And>err m'. E err m' \<Longrightarrow> E' err m'"
  shows "mp_wp f Q' E' m"
  using assms by (auto simp: mp_wp_def split: prod.splits sum.splits)

lemma mp_serve_wp:
  assumes "mp_wp f (\<lambda>x m. P m (g x)) (\<lambda>err m. P m (Rejected err)) m" "mp_reply g (f m) = (m', r)"
  shows "P m' r"
  using assms by (auto simp: mp_wp_def mp_reply_def split: prod.splits sum.splits)

section \<open>The relation\<close>

definition part_describes :: "int \<Rightarrow> bytes \<Rightarrow> multipartPart \<Rightarrow> bool" where
  "part_describes n d p \<longleftrightarrow> mpp_Number p = n \<and> mpp_Digest p = hex_encode (md5 d) \<and> mpp_ETag p = part_tag d \<and> mpp_Size p = int (length d)"

definition part_tracked :: "upload_dir \<Rightarrow> int \<Rightarrow> multipartPart option \<Rightarrow> (bytes \<times> bytes) option \<Rightarrow> bool" where
  "part_tracked dir n p q =
     (case p of None \<Rightarrow> q = None
      | Some p \<Rightarrow> (case q of None \<Rightarrow> False | Some (contents, described) \<Rightarrow> fmlookup (ud_parts dir) n = Some contents \<and> part_describes n described p))"

definition upload_tracked :: "string \<Rightarrow> upload_dir \<Rightarrow> multipartUpload \<Rightarrow> upload_spec \<Rightarrow> bool" where
  "upload_tracked uid dir u v \<longleftrightarrow> mu_UploadID u = uid \<and> mu_Bucket u = us_Bucket v \<and> mu_Key u = us_Key v \<and>
     (\<forall>n. part_tracked dir n (fmlookup (mu_Parts u) n) (us_Parts v n))"

definition dir_tracked :: "string \<Rightarrow> upload_dir option \<Rightarrow> upload_spec option \<Rightarrow> bool" where
  "dir_tracked uid dir v =
     (case Option.bind dir ud_metadata of None \<Rightarrow> v = None
      | Some u \<Rightarrow> (case v of None \<Rightarrow> False | Some v \<Rightarrow> upload_tracked uid (the dir) u v))"

definition mp_tracks :: "uploads \<Rightarrow> multipartStore \<Rightarrow> bool" where
  "mp_tracks A m \<longleftrightarrow> (\<forall>uid. dir_tracked uid (fmlookup (mp_dirs m) uid) (A uid))"

definition mp_stepped :: "multipart_op \<Rightarrow> uploads \<Rightarrow> multipartStore \<Rightarrow> multipart_reply \<Rightarrow> bool" where
  "mp_stepped c A m r \<longleftrightarrow> (\<exists>A'. upload_step c A r A' \<and> mp_tracks A' m)"

lemma mp_tracks_fates [simp]: "mp_tracks A (m\<lparr>mp_fates := fates\<rparr>) = mp_tracks A m"
  by (simp add: mp_tracks_def)

lemma mp_tracks_update:
  assumes "mp_tracks A m" "\<And>i. i \<noteq> uid \<Longrightarrow> fmlookup (mp_dirs m') i = fmlookup (mp_dirs m) i" "dir_tracked uid (fmlookup (mp_dirs m') uid) v"
  shows "mp_tracks (A(uid := v)) m'"
  using assms unfolding mp_tracks_def fun_upd_def by metis

lemma mp_stepped_same: "mp_tracks A m \<Longrightarrow> upload_step c A r A \<Longrightarrow> mp_stepped c A m r"
  by (auto simp: mp_stepped_def)

lemma mp_stepped_io: "mp_tracks A m \<Longrightarrow> mp_stepped c A m (Rejected (errIO what))"
  using io_failed by (auto simp: mp_stepped_def)


section \<open>The parts of the operations\<close>

lemma mp_tracks_lookup:
  assumes "mp_tracks A m"
  shows "Option.bind (fmlookup (mp_dirs m) uid) ud_metadata = None \<Longrightarrow> A uid = None"
    and "Option.bind (fmlookup (mp_dirs m) uid) ud_metadata = Some u \<Longrightarrow>
      \<exists>dir v. fmlookup (mp_dirs m) uid = Some dir \<and> ud_metadata dir = Some u \<and> A uid = Some v \<and> upload_tracked uid dir u v"
  using assms [unfolded mp_tracks_def, rule_format, of uid]
  by (auto simp: dir_tracked_def split: option.splits Option.bind_splits)

lemma mkdir_all_idem [simp]: "mkdir_all uid (mkdir_all uid dirs) = mkdir_all uid dirs"
  by (simp add: mkdir_all_def)

lemma mkdir_all_present: "fmlookup dirs uid = Some dir \<Longrightarrow> mkdir_all uid dirs = dirs"
  by (simp add: mkdir_all_def fmdomI)

lemma mkdir_all_made: obtains dir where "fmlookup (mkdir_all uid dirs) uid = Some dir"
  by (cases "uid |\<in>| fmdom dirs") (auto simp: mkdir_all_def fmlookup_dom_iff)

lemma mkdir_all_other: "i \<noteq> uid \<Longrightarrow> fmlookup (mkdir_all uid dirs) i = fmlookup dirs i"
  by (simp add: mkdir_all_def)

lemma mp_tracks_mkdir: "mp_tracks A m \<Longrightarrow> mp_tracks A (m\<lparr>mp_dirs := mkdir_all uid (mp_dirs m)\<rparr>)"
proof (cases "uid |\<in>| fmdom (mp_dirs m)")
  case False
  assume t: "mp_tracks A m"
  have "A uid = None" using mp_tracks_lookup(1) [OF t, of uid] False by (simp add: fmdom_notD)
  then have "mp_tracks (A(uid := A uid)) (m\<lparr>mp_dirs := mkdir_all uid (mp_dirs m)\<rparr>)"
    using False by (intro mp_tracks_update [OF t]) (simp_all add: mkdir_all_def dir_tracked_def empty_dir_def)
  then show ?thesis by simp
qed (simp add: mkdir_all_def)

lemma loadLocked_wp:
  assumes "mp_tracks A m" "\<not> validateUploadID uid \<Longrightarrow> E errInvalidUploadID m" "A uid = None \<Longrightarrow> E errNoSuchUpload m"
    and "\<And>what fates. E (errIO what) (m\<lparr>mp_fates := fates\<rparr>)"
    and "\<And>fates dir u v. fmlookup (mp_dirs m) uid = Some dir \<Longrightarrow> ud_metadata dir = Some u \<Longrightarrow> A uid = Some v \<Longrightarrow> upload_tracked uid dir u v \<Longrightarrow>
      Q u (m\<lparr>mp_fates := fates\<rparr>)"
  shows "mp_wp (loadLocked uid) Q E m"
proof (cases "Option.bind (fmlookup (mp_dirs m) uid) ud_metadata")
  case None
  then show ?thesis using assms(2,3) mp_tracks_lookup(1) [OF assms(1) None] by (simp add: loadLocked_def mp_simps)
next
  case (Some u)
  from mp_tracks_lookup(2) [OF assms(1) Some] obtain dir v where
    "fmlookup (mp_dirs m) uid = Some dir" "ud_metadata dir = Some u" "A uid = Some v" "upload_tracked uid dir u v" by blast
  note assms(5) [OF this]
  then show ?thesis using assms(2,4) Some by (auto simp: loadLocked_def mp_simps intro!: mp_wp_io)
qed

lemma saveLocked_wp:
  assumes "\<And>fates. Q () (m\<lparr>mp_dirs := put_metadata u (mkdir_all (mu_UploadID u) (mp_dirs m)), mp_fates := fates\<rparr>)"
    and "\<And>what fates. E (errIO what) (m\<lparr>mp_fates := fates\<rparr>)"
    and "\<And>what fates. E (errIO what) (m\<lparr>mp_dirs := mkdir_all (mu_UploadID u) (mp_dirs m), mp_fates := fates\<rparr>)"
  shows "mp_wp (saveLocked u) Q E m"
  unfolding saveLocked_def mp_simps by (intro mp_wp_io) (use assms in simp_all)

lemma initiate_steps:
  assumes "mp_tracks A m"
  shows "mp_wp (initiate X uid now b k opts) (\<lambda>u m. mp_stepped (OpInitiate uid now b k opts) A m (Created (mu_UploadID u)))
    (\<lambda>err m. mp_stepped (OpInitiate uid now b k opts) A m (Rejected err)) m"
proof (cases "trim_space b = [] \<or> trim_space k = []")
  case True
  then show ?thesis using mp_stepped_same [OF assms upload_step.initiate_unnamed [OF True]] by (auto simp: initiate_def Let_def mp_simps)
next
  case False
  have fail: "mp_stepped (OpInitiate uid now b k opts) A (m\<lparr>mp_dirs := mkdir_all uid (mp_dirs m), mp_fates := fates\<rparr>) (Rejected (errIO what))"
    "mp_stepped (OpInitiate uid now b k opts) A (m\<lparr>mp_fates := fates\<rparr>) (Rejected (errIO what))" for what fates
    using mp_tracks_mkdir [OF assms] assms by (intro mp_stepped_io; simp)+
  have ok: "mp_stepped (OpInitiate uid now b k opts) A (m\<lparr>mp_dirs := put_metadata u (mkdir_all uid (mp_dirs m)), mp_fates := fates\<rparr>) (Created uid)"
    if "mu_UploadID u = uid" "mu_Bucket u = trim_space b" "mu_Key u = trim_space k" "mu_Parts u = fmempty" for u fates
  proof -
    let ?v = "\<lparr>us_Bucket = trim_space b, us_Key = trim_space k, us_Parts = Map.empty\<rparr>"
    obtain dir where "fmlookup (mkdir_all uid (mp_dirs m)) uid = Some dir" by (rule mkdir_all_made)
    then have "mp_tracks (A(uid \<mapsto> ?v)) (m\<lparr>mp_dirs := put_metadata u (mkdir_all uid (mp_dirs m)), mp_fates := fates\<rparr>)"
      using that by (intro mp_tracks_update [OF assms])
        (auto simp: put_metadata_def mkdir_all_other dir_tracked_def upload_tracked_def part_tracked_def)
    then show ?thesis using False upload_step.initiate [of b k uid now opts A] unfolding mp_stepped_def by blast
  qed
  show ?thesis
    unfolding initiate_def Let_def mp_simps using False
    by (auto intro!: mp_wp_io saveLocked_wp simp: mp_simps fail ok)
qed


lemma hasher_tag: "multipartPartHasher_ETag (Write newProtocolMD5 data) = hex_encode (md5 data)"
  using protocolMD5Sum_md5 by (simp add: multipartPartHasher_ETag_def protocolMD5Sum_def)

lemma writePartLocked_wp:
  assumes "n < 1 \<or> 10000 < n \<Longrightarrow> E errInvalidPart m" "\<And>what fates. E (errIO what) (m\<lparr>mp_fates := fates\<rparr>)"
    and "\<And>d part fates. reader = Inr d \<Longrightarrow> 1 \<le> n \<Longrightarrow> n \<le> 10000 \<Longrightarrow> part_describes n d part \<Longrightarrow>
      Q part (m\<lparr>mp_dirs := put_part_file uid n d (mp_dirs m), mp_fates := fates\<rparr>)"
  shows "mp_wp (writePartLocked uid n now reader) Q E m"
proof (cases "n < 1 \<or> 10000 < n")
  case True
  then show ?thesis using assms(1) by (simp add: writePartLocked_def mp_simps)
next
  case False
  then have n: "1 \<le> n" "n \<le> 10000" by simp_all
  have d: "part_describes n d \<lparr>mpp_Number = n, mpp_ETag = quoteETag (hex_encode (md5 d)), mpp_Digest = hex_encode (md5 d), mpp_Size = int (length d),
    mpp_UploadedAt = now\<rparr>" for d by (simp add: part_describes_def part_tag_def)
  show ?thesis
  proof (cases reader)
    case (Inl e)
    then show ?thesis using n assms(2) by (auto simp: writePartLocked_def mp_simps intro!: mp_wp_io)
  next
    case (Inr data)
    then show ?thesis using n assms(2) assms(3) [OF Inr n d] by (auto simp: writePartLocked_def mp_simps hasher_tag Let_def intro!: mp_wp_io)
  qed
qed

lemma part_tracked_other [simp]: "i \<noteq> n \<Longrightarrow> part_tracked (dir\<lparr>ud_parts := fmupd n d parts\<rparr>) i p q = part_tracked (dir\<lparr>ud_parts := parts\<rparr>) i p q"
  by (simp add: part_tracked_def split: option.split)

lemma part_tracked_metadata [simp]:
  "part_tracked (dir\<lparr>ud_metadata := md\<rparr>) i p q = part_tracked dir i p q"
  "part_tracked (dir\<lparr>ud_parts := ud_parts dir\<rparr>) i p q = part_tracked dir i p q"
  by (simp_all add: part_tracked_def split: option.split)

text \<open>Replacing the file of a part, with and without its record in the document.\<close>

lemma part_replaced:
  assumes "upload_tracked uid dir u v" "part_describes n d p"
  shows "upload_tracked uid (dir\<lparr>ud_parts := fmupd n d (ud_parts dir)\<rparr>) (u\<lparr>mu_Parts := fmupd n p (mu_Parts u)\<rparr>)
    (v\<lparr>us_Parts := (us_Parts v)(n \<mapsto> (d, d))\<rparr>)"
  unfolding upload_tracked_def
proof (intro conjI allI)
  fix i
  have "part_tracked dir i (fmlookup (mu_Parts u) i) (us_Parts v i)" using assms(1) by (simp add: upload_tracked_def)
  then show "part_tracked (dir\<lparr>ud_parts := fmupd n d (ud_parts dir)\<rparr>) i (fmlookup (mu_Parts (u\<lparr>mu_Parts := fmupd n p (mu_Parts u)\<rparr>)) i)
    (us_Parts (v\<lparr>us_Parts := (us_Parts v)(n \<mapsto> (d, d))\<rparr>) i)"
    using assms(2) by (cases "i = n") (simp_all, simp add: part_tracked_def)
qed (use assms(1) in \<open>simp_all add: upload_tracked_def\<close>)

lemma part_torn:
  assumes "upload_tracked uid dir u v"
  shows "(\<exists>contents described. us_Parts v n = Some (contents, described) \<and>
      upload_tracked uid (dir\<lparr>ud_parts := fmupd n d (ud_parts dir)\<rparr>) u (v\<lparr>us_Parts := (us_Parts v)(n \<mapsto> (d, described))\<rparr>))
    \<or> upload_tracked uid (dir\<lparr>ud_parts := fmupd n d (ud_parts dir)\<rparr>) u v"
proof -
  let ?dir = "dir\<lparr>ud_parts := fmupd n d (ud_parts dir)\<rparr>"
  have t: "part_tracked dir i (fmlookup (mu_Parts u) i) (us_Parts v i)" for i using assms by (simp add: upload_tracked_def)
  have names: "mu_UploadID u = uid" "mu_Bucket u = us_Bucket v" "mu_Key u = us_Key v" using assms by (simp_all add: upload_tracked_def)
  show ?thesis
  proof (cases "fmlookup (mu_Parts u) n")
    case None
    have "part_tracked ?dir i (fmlookup (mu_Parts u) i) (us_Parts v i)" for i
      using t [of i] None by (cases "i = n") (simp_all, simp add: part_tracked_def)
    then show ?thesis using names by (simp add: upload_tracked_def)
  next
    case (Some p)
    with t [of n] obtain contents described where q: "us_Parts v n = Some (contents, described)" "part_describes n described p"
      by (auto simp: part_tracked_def split: option.splits)
    have "part_tracked ?dir i (fmlookup (mu_Parts u) i) (((us_Parts v)(n \<mapsto> (d, described))) i)" for i
      using t [of i] Some q(2) by (cases "i = n") (simp_all, simp add: part_tracked_def)
    then show ?thesis using names q(1) by (simp add: upload_tracked_def)
  qed
qed

text \<open>The document could not be written after the file of the part was replaced.\<close>

lemma putPart_torn:
  assumes "mp_tracks A m" "fmlookup (mp_dirs m) uid = Some dir" "ud_metadata dir = Some u" "A uid = Some v" "upload_tracked uid dir u v"
  shows "mp_stepped (OpPutPart uid b k n now (Inr d)) A (m\<lparr>mp_dirs := put_part_file uid n d (mp_dirs m), mp_fates := fates\<rparr>) (Rejected (errIO what))"
proof -
  let ?dir = "dir\<lparr>ud_parts := fmupd n d (ud_parts dir)\<rparr>" and ?m = "m\<lparr>mp_dirs := put_part_file uid n d (mp_dirs m), mp_fates := fates\<rparr>"
  have t: "mp_tracks (A(uid \<mapsto> v')) ?m" if "upload_tracked uid ?dir u v'" for v'
    using that assms(2,3) by (intro mp_tracks_update [OF assms(1)]) (simp_all add: put_part_file_def dir_tracked_def)
  have A: "A(uid \<mapsto> v) = A" using assms(4) by auto
  from part_torn [OF assms(5), of n d] show ?thesis
  proof (elim disjE exE conjE)
    fix contents described
    assume "us_Parts v n = Some (contents, described)"
      and "upload_tracked uid ?dir u (v\<lparr>us_Parts := (us_Parts v)(n \<mapsto> (d, described))\<rparr>)"
    then show ?thesis using t put_torn [of A uid v n, OF assms(4)] unfolding mp_stepped_def by blast
  next
    assume "upload_tracked uid ?dir u v"
    from mp_stepped_io [OF t [OF this, unfolded A]] show ?thesis .
  qed
qed

lemma putPart_done:
  assumes "mp_tracks A m" "fmlookup (mp_dirs m) uid = Some dir" "ud_metadata dir = Some u" "A uid = Some v" "upload_tracked uid dir u v"
    and "mu_Bucket u = b" "mu_Key u = k" "1 \<le> n" "n \<le> 10000" "part_describes n d p"
  shows "mp_stepped (OpPutPart uid b k n now (Inr d)) A
    (m\<lparr>mp_dirs := put_metadata (u\<lparr>mu_Parts := fmupd n p (mu_Parts u)\<rparr>) (put_part_file uid n d (mp_dirs m)), mp_fates := fates\<rparr>) (PartStored (mpp_ETag p))"
proof -
  let ?v = "v\<lparr>us_Parts := (us_Parts v)(n \<mapsto> (d, d))\<rparr>"
  have names: "mu_UploadID u = uid" "us_Bucket v = b" "us_Key v = k" using assms(5,6,7) by (simp_all add: upload_tracked_def)
  have "upload_step (OpPutPart uid b k n now (Inr d)) A (PartStored (mpp_ETag p)) (A(uid \<mapsto> ?v))"
    using put [of A uid v b k n now d, OF assms(4) names(2,3) assms(8,9)] assms(10) by (simp add: part_describes_def)
  moreover have "mp_tracks (A(uid \<mapsto> ?v))
      (m\<lparr>mp_dirs := put_metadata (u\<lparr>mu_Parts := fmupd n p (mu_Parts u)\<rparr>) (put_part_file uid n d (mp_dirs m)), mp_fates := fates\<rparr>)"
    using part_replaced [OF assms(5,10)] assms(2) names(1)
    by (intro mp_tracks_update [OF assms(1)]) (simp_all add: put_part_file_def put_metadata_def dir_tracked_def upload_tracked_def)
  ultimately show ?thesis unfolding mp_stepped_def by blast
qed

lemma putPart_steps:
  assumes "mp_tracks A m"
  shows "mp_wp (putPart uid b k n now reader) (\<lambda>p m. mp_stepped (OpPutPart uid b k n now reader) A m (PartStored (mpp_ETag p)))
    (\<lambda>err m. mp_stepped (OpPutPart uid b k n now reader) A m (Rejected err)) m"
  unfolding putPart_def mp_simps
proof (rule loadLocked_wp [OF assms], goal_cases)
  case 1 then show ?case using mp_stepped_same [OF assms] upload_step.invalid by simp
next
  case 2 then show ?case using mp_stepped_same [OF assms] upload_step.missing by simp
next
  case (3 what fates) then show ?case using assms by (intro mp_stepped_io) simp
next
  case (4 fates dir u v)
  let ?m = "m\<lparr>mp_fates := fates\<rparr>"
  have t: "mp_tracks A ?m" "fmlookup (mp_dirs ?m) uid = Some dir" using assms 4(1) by simp_all
  have names: "mu_UploadID u = uid" "mu_Bucket u = us_Bucket v" "mu_Key u = us_Key v" using 4(4) by (simp_all add: upload_tracked_def)
  show ?case
  proof (cases "mu_Bucket u = b \<and> mu_Key u = k")
    case False
    then have "upload_step (OpPutPart uid b k n now reader) A (Rejected errNoSuchUpload) A" using 4(3) names by (intro put_elsewhere) auto
    from mp_stepped_same [OF t(1) this] False show ?thesis by auto
  next
    case True
    have made: "mkdir_all uid (put_part_file uid n d (mp_dirs m)) = put_part_file uid n d (mp_dirs m)" for d
      using 4(1) by (simp add: mkdir_all_def put_part_file_def)
    have "mp_wp (writePartLocked (mu_UploadID u) n now reader)
      (\<lambda>p. mp_wp (saveLocked (u\<lparr>mu_Parts := fmupd n p (mu_Parts u)\<rparr>))
        (\<lambda>_ m. mp_stepped (OpPutPart uid b k n now reader) A m (PartStored (mpp_ETag p)))
        (\<lambda>err m. mp_stepped (OpPutPart uid b k n now reader) A m (Rejected err)))
      (\<lambda>err m. mp_stepped (OpPutPart uid b k n now reader) A m (Rejected err)) ?m"
      unfolding names(1)
    proof (rule writePartLocked_wp, goal_cases)
      case 1 then show ?case using mp_stepped_same [OF t(1)] put_number 4(3) by blast
    next
      case (2 what fates) then show ?case using mp_stepped_io assms by simp
    next
      case (3 d p fates')
      note torn = putPart_torn [OF t 4(2-4)] and stored = putPart_done [OF t 4(2-4) _ _ 3(2,3,4)]
      show ?case using True by (intro saveLocked_wp) (use 3(1) torn [of b k n now d] stored [of b k now] names(1) in \<open>simp_all add: mp_simps made\<close>)
    qed
    then show ?thesis using True by simp
  qed
qed


section \<open>Completing and aborting\<close>

lemma abort_steps:
  assumes "mp_tracks A m"
  shows "mp_wp (abort uid) (\<lambda>_ m. mp_stepped (OpAbort uid) A m Aborted) (\<lambda>err m. mp_stepped (OpAbort uid) A m (Rejected err)) m"
proof (cases "validateUploadID uid")
  case False
  then show ?thesis using mp_stepped_same [OF assms] upload_step.invalid by (simp add: abort_def mp_simps)
next
  case valid: True
  show ?thesis
  proof (cases "Option.bind (fmlookup (mp_dirs m) uid) ud_metadata")
    case None
    from mp_tracks_lookup(1) [OF assms None] have "mp_stepped (OpAbort uid) A m (Rejected errNoSuchUpload)"
      using mp_stepped_same [OF assms] upload_step.missing by simp
    then show ?thesis using None valid by (simp add: abort_def mp_simps)
  next
    case (Some u)
    from mp_tracks_lookup(2) [OF assms Some] obtain dir v where d: "fmlookup (mp_dirs m) uid = Some dir" "A uid = Some v" by blast
    have gone: "mp_tracks (A(uid := None)) (m\<lparr>mp_fates := f, mp_dirs := fmdrop uid (mp_dirs m)\<rparr>)"
      "mp_tracks (A(uid := None)) (m\<lparr>mp_fates := f, mp_dirs := fmupd uid \<lparr>ud_metadata = None, ud_parts = ps\<rparr> (mp_dirs m)\<rparr>)" for f ps
      by (intro mp_tracks_update [OF assms]; simp add: dir_tracked_def)+
    have "mp_wp (remove_upload uid) (\<lambda>_ m. mp_stepped (OpAbort uid) A m Aborted) (\<lambda>err m. mp_stepped (OpAbort uid) A m (Rejected err))
        (m\<lparr>mp_fates := f\<rparr>)" for f
      using gone upload_step.abort [of A uid v, OF d(2)] abort_torn mp_stepped_io [of A] assms d(1)
      by (auto simp: mp_wp_def remove_upload_def Let_def mp_stepped_def intro!: exI [of _ "A(uid := None)"] split: list.split io_fate.split)
    then show ?thesis using Some valid mp_stepped_io assms by (auto simp: abort_def mp_simps intro!: mp_wp_io)
  qed
qed

lemma part_digests_described:
  "list_all2 (\<lambda>p d. mpp_Digest p = hex_encode (md5 d)) ps ds \<Longrightarrow> part_digests ps = Some (concat (map md5 ds))"
  by (induction ps ds rule: list_all2_induct) (simp_all add: hex_roundtrip)

lemma multipartCompleteETag_described:
  assumes "list_all2 (\<lambda>p d. mpp_Digest p = hex_encode (md5 d)) ps ds"
  shows "multipartCompleteETag ps = object_tag ds"
  using part_digests_described [OF assms] list_all2_lengthD [OF assms]
  by (simp add: multipartCompleteETag_def object_tag_def protocolMD5Sum_md5)

text \<open>A collected part and the part of the specification it stands for.\<close>

definition part_matches :: "upload_dir \<Rightarrow> multipartPart \<Rightarrow> bytes \<times> bytes \<Rightarrow> bool" where
  "part_matches dir p q \<longleftrightarrow> fmlookup (ud_parts dir) (mpp_Number p) = Some (fst q) \<and> mpp_Digest p = hex_encode (md5 (snd q)) \<and> mpp_Size p = int (length (snd q))"

lemma hex_md5_nonempty [simp]: "hex_encode (md5 data) \<noteq> []"
  using length_hex_encode [of "md5 data"] by (metis length_0_conv md5_length mult_eq_0_iff zero_neq_numeral)

lemma tracked_part:
  assumes "upload_tracked uid dir u v" "fmlookup (mu_Parts u) (cp_PartNumber r) = Some p"
  obtains q where "us_Parts v (cp_PartNumber r) = Some q" "part_matches dir (ensurePartDigest p) q"
    "etagMatches (mpp_ETag p) (cp_ETag r) \<longleftrightarrow> named_part v r q"
proof -
  from assms have "part_tracked dir (cp_PartNumber r) (Some p) (us_Parts v (cp_PartNumber r))" by (metis upload_tracked_def)
  then obtain q where q: "us_Parts v (cp_PartNumber r) = Some q" "fmlookup (ud_parts dir) (cp_PartNumber r) = Some (fst q)"
    "part_describes (cp_PartNumber r) (snd q) p" by (auto simp: part_tracked_def split: option.splits)
  have e: "ensurePartDigest p = p" using q(3) by (simp add: ensurePartDigest_def part_describes_def trim_space_hex)
  have "etagMatches (mpp_ETag p) (cp_ETag r) \<longleftrightarrow> named_part v r q"
    using q(1,3) by (auto simp: etagMatches_def named_part_def part_describes_def part_tag_def Let_def)
  moreover have "part_matches dir (ensurePartDigest p) q" using q(2,3) by (simp add: e part_matches_def part_describes_def)
  ultimately show ?thesis using that q(1) by blast
qed

lemma collect_parts_tracked:
  assumes "upload_tracked uid dir u v"
  shows "case collect_parts u previous rs of
      Inr ps \<Rightarrow> sorted_wrt (<) (previous # map cp_PartNumber rs) \<and> (\<exists>qs. list_all2 (named_part v) rs qs \<and> list_all2 (part_matches dir) ps qs)
    | Inl err \<Rightarrow> err = errInvalidPartOrder \<and> \<not> sorted_wrt (<) (previous # map cp_PartNumber rs) \<or>
        err = errInvalidPart \<and> list_ex (\<lambda>r. \<forall>q. \<not> named_part v r q) rs"
proof (induction rs arbitrary: previous)
  case (Cons r rs)
  consider "cp_PartNumber r \<le> previous" | "previous < cp_PartNumber r" "fmlookup (mu_Parts u) (cp_PartNumber r) = None"
    | p where "previous < cp_PartNumber r" "fmlookup (mu_Parts u) (cp_PartNumber r) = Some p" by force
  then show ?case
  proof cases
    case 2
    have "part_tracked dir (cp_PartNumber r) (fmlookup (mu_Parts u) (cp_PartNumber r)) (us_Parts v (cp_PartNumber r))"
      using assms by (simp add: upload_tracked_def)
    then have "us_Parts v (cp_PartNumber r) = None" using 2(2) by (simp add: part_tracked_def)
    then show ?thesis using 2 by (simp add: named_part_def)
  next
    case (3 p)
    obtain q where q: "us_Parts v (cp_PartNumber r) = Some q" "part_matches dir (ensurePartDigest p) q"
      "etagMatches (mpp_ETag p) (cp_ETag r) \<longleftrightarrow> named_part v r q" by (rule tracked_part [OF assms 3(2)])
    have only: "named_part v r q' \<Longrightarrow> named_part v r q" for q' using q(1) by (auto simp: named_part_def)
    show ?thesis
    proof (cases "etagMatches (mpp_ETag p) (cp_ETag r)")
      case False
      then show ?thesis using 3 q(3) only by auto
    next
      case True
      show ?thesis
      proof (cases "collect_parts u (cp_PartNumber r) rs")
        case (Inl err)
        then show ?thesis using Cons.IH [of "cp_PartNumber r"] 3 True by auto
      next
        case (Inr ps)
        with Cons.IH [of "cp_PartNumber r"] obtain qs where "sorted_wrt (<) (cp_PartNumber r # map cp_PartNumber rs)"
          "list_all2 (named_part v) rs qs" "list_all2 (part_matches dir) ps qs" by auto
        then show ?thesis using 3 True Inr q(2,3) by (auto intro!: exI [of _ "q # qs"])
      qed
    qed
  qed simp
qed simp

lemma copyPartFile_wp:
  assumes "fmlookup (mp_dirs m) uid = Some dir" "fmlookup (ud_parts dir) n = Some d"
    and "\<And>fates. Q d (m\<lparr>mp_fates := fates\<rparr>)" "\<And>what fates. E (errIO what) (m\<lparr>mp_fates := fates\<rparr>)"
  shows "mp_wp (copyPartFile uid n) Q E m"
  unfolding copyPartFile_def mp_simps using assms by (auto simp: mp_simps intro!: mp_wp_io)

lemma copy_parts_wp:
  assumes "fmlookup (mp_dirs m) uid = Some dir" "list_all2 (part_matches dir) ps qs"
    and "\<And>fates. Q (concat (map fst qs)) (m\<lparr>mp_fates := fates\<rparr>)" "\<And>what fates. E (errIO what) (m\<lparr>mp_fates := fates\<rparr>)"
  shows "mp_wp (copy_parts uid ps) Q E m"
  using assms(2,1,3,4)
proof (induction ps qs arbitrary: Q m rule: list_all2_induct)
  case Nil
  then show ?case using Nil(2) [of "mp_fates m"] by (simp add: mp_simps)
next
  case (Cons p ps q qs)
  have "fmlookup (ud_parts dir) (mpp_Number p) = Some (fst q)" using Cons(1) by (simp add: part_matches_def)
  then show ?case unfolding copy_parts.simps mp_simps
    using Cons.prems by (intro copyPartFile_wp [of _ _ dir] Cons.IH) (simp_all add: mp_simps)
qed

lemma sizes_butlast: "validateMultipartPartSizes ps = list_all (\<lambda>p. minMultipartPartSize \<le> mpp_Size p) (butlast ps)"
  by (cases ps; cases "tl ps") (auto simp: validateMultipartPartSizes_def)

lemma sizes_tracked:
  assumes "list_all2 (part_matches dir) ps qs"
  shows "validateMultipartPartSizes ps \<longleftrightarrow> list_all (\<lambda>q. minMultipartPartSize \<le> int (length (snd q))) (butlast qs)"
  unfolding sizes_butlast using assms
proof (induction ps qs rule: list_all2_induct)
  case (Cons p ps q qs)
  have "ps = [] \<longleftrightarrow> qs = []" using Cons(2) by (cases ps; cases qs) simp_all
  then show ?case using Cons(1,3) by (simp add: part_matches_def)
qed simp

lemma completeParts_rejects:
  assumes "A uid = Some v" "upload_tracked uid dir u v" "completeParts u rs = Inl err"
  shows "upload_step (OpComplete uid rs) A (Rejected err) A"
proof (cases "rs = []")
  case True
  then show ?thesis using assms(3) complete_part [of A uid v, OF assms(1)] by (simp add: completeParts_def)
next
  case False
  note tracked = collect_parts_tracked [OF assms(2), of 0 rs]
  show ?thesis
  proof (cases "collect_parts u 0 rs")
    case (Inl e)
    then have "err = e" using False assms(3) by (simp add: completeParts_def)
    then show ?thesis using tracked Inl complete_part [of A uid v, OF assms(1)] complete_order [of A uid v, OF assms(1)] by auto
  next
    case (Inr ps)
    then have e: "err = errEntityTooSmall" "\<not> validateMultipartPartSizes ps" using False assms(3) by (auto simp: completeParts_def split: if_splits)
    from tracked Inr obtain qs where qs: "list_all2 (named_part v) rs qs" "list_all2 (part_matches dir) ps qs" by auto
    then show ?thesis using sizes_tracked [OF qs(2)] e complete_small [of A uid v, OF assms(1) qs(1)] by (simp add: list_ex_iff list_all_iff not_le)
  qed
qed

lemma completeParts_accepts:
  assumes "A uid = Some v" "upload_tracked uid dir u v" "completeParts u rs = Inr ps"
  obtains qs where "list_all2 (part_matches dir) ps qs"
    "upload_step (OpComplete uid rs) A (Assembled (concat (map fst qs)) (multipartCompleteETag ps)) A"
proof -
  have c: "rs \<noteq> []" "collect_parts u 0 rs = Inr ps" "validateMultipartPartSizes ps"
    using assms(3) by (auto simp: completeParts_def split: if_splits sum.splits)
  with collect_parts_tracked [OF assms(2), of 0 rs] obtain qs where qs: "sorted_wrt (<) (0 # map cp_PartNumber rs)"
    "list_all2 (named_part v) rs qs" "list_all2 (part_matches dir) ps qs" by auto
  have "multipartCompleteETag ps = object_tag (map snd qs)"
    using qs(3) by (intro multipartCompleteETag_described) (auto simp: list_all2_conv_all_nth part_matches_def)
  then show ?thesis using that [OF qs(3)] complete [of A uid v, OF assms(1) c(1) qs(1,2)] c(3) sizes_tracked [OF qs(3)] by simp
qed

lemma assemble_steps:
  assumes "mp_tracks A m"
  shows "mp_wp (assemble uid rs) (\<lambda>(a, u) m. mp_stepped (OpComplete uid rs) A m (Assembled (as_file a) (as_etag a)))
    (\<lambda>err m. mp_stepped (OpComplete uid rs) A m (Rejected err)) m"
  unfolding assemble_def mp_simps
proof (rule loadLocked_wp [OF assms], goal_cases)
  case 1 then show ?case using mp_stepped_same [OF assms] upload_step.invalid by simp
next
  case 2 then show ?case using mp_stepped_same [OF assms] upload_step.missing by simp
next
  case (3 what fates) then show ?case using assms by (intro mp_stepped_io) simp
next
  case (4 fates dir u v)
  let ?m = "m\<lparr>mp_fates := fates\<rparr>"
  have t: "mp_tracks A ?m" using assms by simp
  have uid: "mu_UploadID u = uid" using 4(4) by (simp add: upload_tracked_def)
  show ?case
  proof (cases "completeParts u rs")
    case (Inl err)
    have "upload_step (OpComplete uid rs) A (Rejected err) A" using completeParts_rejects [of A uid v, OF 4(3,4) Inl] .
    then show ?thesis using Inl mp_stepped_same [OF t] by (simp add: mp_simps)
  next
    case (Inr ps)
    obtain qs where qs: "list_all2 (part_matches dir) ps qs"
      "upload_step (OpComplete uid rs) A (Assembled (concat (map fst qs)) (multipartCompleteETag ps)) A"
      by (rule completeParts_accepts [of A uid v, OF 4(3,4) Inr])
    have fail: "mp_stepped (OpComplete uid rs) A (?m\<lparr>mp_fates := f\<rparr>) (Rejected (errIO what))" for f what using mp_stepped_io assms by simp
    have "mp_stepped (OpComplete uid rs) A (?m\<lparr>mp_fates := f\<rparr>) (Assembled (concat (map fst qs)) (multipartCompleteETag ps))" for f
      using mp_stepped_same [OF _ qs(2)] assms by simp
    then show ?thesis
      using Inr fail 4(1) uid
      by (auto simp: mp_simps assembleLocked_def intro!: mp_wp_io copy_parts_wp [OF _ qs(1)])
  qed
qed


section \<open>Histories\<close>

lemma mp_serve_steps:
  assumes "mp_tracks A m" "mp_serve X c m = (m', r)"
  shows "mp_stepped c A m' r"
proof (cases c)
  case (OpInitiate uid now b k opts)
  then show ?thesis using mp_serve_wp [OF initiate_steps [OF assms(1)]] assms(2) by simp
next
  case (OpPutPart uid b k n now reader)
  then show ?thesis using mp_serve_wp [OF putPart_steps [OF assms(1)]] assms(2) by simp
next
  case (OpComplete uid rs)
  have "mp_wp (assemble uid rs) (\<lambda>x m. mp_stepped c A m (case x of (a, u) \<Rightarrow> Assembled (as_file a) (as_etag a))) (\<lambda>err m. mp_stepped c A m (Rejected err)) m"
    by (rule mp_wp_mono [OF assemble_steps [OF assms(1), of uid rs, folded OpComplete]]) auto
  from mp_serve_wp [where P = "mp_stepped c A", OF this] show ?thesis using assms(2) OpComplete by simp
next
  case (OpAbort uid)
  then show ?thesis using mp_serve_wp [where P = "mp_stepped (OpAbort uid) A", OF abort_steps [OF assms(1)]] assms(2) by simp
qed

lemma mp_serve_all_refines:
  assumes "mp_tracks A m"
  shows "\<exists>A'. upload_run cs A (snd (mp_serve_all X cs m)) A' \<and> mp_tracks A' (fst (mp_serve_all X cs m))"
  using assms
proof (induction cs arbitrary: A m)
  case (Cons c cs)
  obtain m1 r where c: "mp_serve X c m = (m1, r)" by fastforce
  obtain A1 where A1: "upload_step c A r A1" "mp_tracks A1 m1" using mp_serve_steps [OF Cons.prems c] by (auto simp: mp_stepped_def)
  from Cons.IH [OF A1(2)] upload_run.more [OF A1(1)] show ?case by (fastforce simp: c split: prod.split)
qed (auto simp: upload_run_simps)

lemma mp_tracks_empty: "mp_tracks Map.empty \<lparr>mp_dirs = fmempty, mp_fates = fates\<rparr>"
  by (simp add: mp_tracks_def dir_tracked_def)

text \<open>As long as no failure of the file system was reported, the file of every part holds what its record describes.\<close>

definition io_reported :: "multipart_reply \<Rightarrow> bool" where
  "io_reported r = (case r of Rejected (errIO _) \<Rightarrow> True | _ \<Rightarrow> False)"

definition sound_parts :: "uploads \<Rightarrow> bool" where
  "sound_parts A \<longleftrightarrow> (\<forall>uid u n p. A uid = Some u \<longrightarrow> us_Parts u n = Some p \<longrightarrow> fst p = snd p)"

lemma sound_step: "upload_step c A r A' \<Longrightarrow> sound_parts A \<Longrightarrow> \<not> io_reported r \<Longrightarrow> sound_parts A'"
  by (induction rule: upload_step.induct) (auto simp: sound_parts_def io_reported_def split: if_splits)

lemma sound_run: "upload_run cs A rs A' \<Longrightarrow> sound_parts A \<Longrightarrow> list_all (\<lambda>r. \<not> io_reported r) rs \<Longrightarrow> sound_parts A'"
  by (induction rule: upload_run.induct) (auto intro: sound_step)

lemma mp_serve_all_snoc:
  "mp_serve_all X (cs @ [c]) m = (let (m1, rs) = mp_serve_all X cs m; (m2, r) = mp_serve X c m1 in (m2, rs @ [r]))"
  by (induction cs arbitrary: m) (simp_all add: Let_def split: prod.split)

lemma sound_named:
  assumes "sound_parts A" "A uid = Some u" "list_all2 (named_part u) rs ps"
  shows "map fst ps = map snd ps"
  using assms(3)
proof (induction rs ps rule: list_all2_induct)
  case (Cons r rs p ps)
  then have "us_Parts u (cp_PartNumber r) = Some p" by (simp add: named_part_def)
  then have "fst p = snd p" using assms(1,2) unfolding sound_parts_def by blast
  then show ?case using Cons(3) by simp
qed simp

text \<open>Every part holds what a request put there.\<close>

definition put_by :: "multipart_op list \<Rightarrow> string \<Rightarrow> int \<Rightarrow> bytes \<Rightarrow> bool" where
  "put_by cs uid n d \<longleftrightarrow> (\<exists>b k now. OpPutPart uid b k n now (Inr d) \<in> set cs)"

lemma put_by_simps: "put_by (c # cs) uid n d \<longleftrightarrow> (\<exists>b k now. c = OpPutPart uid b k n now (Inr d)) \<or> put_by cs uid n d"
  by (auto simp: put_by_def)

definition parts_from :: "multipart_op list \<Rightarrow> uploads \<Rightarrow> uploads \<Rightarrow> bool" where
  "parts_from cs A A' \<longleftrightarrow> (\<forall>uid u n p. A' uid = Some u \<longrightarrow> us_Parts u n = Some p \<longrightarrow>
     put_by cs uid n (fst p) \<or> (\<exists>u p'. A uid = Some u \<and> us_Parts u n = Some p' \<and> fst p' = fst p))"

lemma parts_from_step: "upload_step c A r A' \<Longrightarrow> parts_from [c] A A'"
  by (induction rule: upload_step.induct) (auto simp: parts_from_def put_by_def split: if_splits)

lemma parts_from_run: "upload_run cs A rs A' \<Longrightarrow> parts_from cs A A'"
proof (induction rule: upload_run.induct)
  case (more c A r A1 cs rs A2)
  show ?case
    unfolding parts_from_def
  proof (intro allI impI)
    fix uid u n p
    assume "A2 uid = Some u" "us_Parts u n = Some p"
    with more.IH consider "put_by cs uid n (fst p)" | u' p' where "A1 uid = Some u'" "us_Parts u' n = Some p'" "fst p' = fst p"
      unfolding parts_from_def by blast
    then show "put_by (c # cs) uid n (fst p) \<or> (\<exists>u p'. A uid = Some u \<and> us_Parts u n = Some p' \<and> fst p' = fst p)"
    proof cases
      case 2
      with parts_from_step [OF more.hyps(1)] have "put_by [c] uid n (fst p') \<or> (\<exists>u q. A uid = Some u \<and> us_Parts u n = Some q \<and> fst q = fst p')"
        unfolding parts_from_def by blast
      with 2(3) show ?thesis by (auto simp: put_by_def)
    qed (simp add: put_by_def, blast)
  qed
qed (auto simp: parts_from_def)

lemma named_from:
  assumes "parts_from cs Map.empty A" "A uid = Some u" "list_all2 (named_part u) rs ps"
  shows "list_all2 (\<lambda>r p. put_by cs uid (cp_PartNumber r) (fst p)) rs ps"
  by (rule list_all2_mono [OF assms(3)]) (use assms(1,2) in \<open>force simp: parts_from_def named_part_def\<close>)


text \<open>C17: the entity tag of a completed upload is the one S3 documents. After a history in which no failure of the file system was
  reported, completing an upload returns the concatenation of bodies, one for each requested part and sent by an earlier request for the part of that
  number, and the quoted digest of the concatenation of their MD5 digests followed by their number; every body but the last has at least five mebibytes.\<close>

theorem completed_upload_tag:
  assumes "mp_serve_all X (cs @ [OpComplete uid rs]) \<lparr>mp_dirs = fmempty, mp_fates = fates\<rparr> = (m, replies @ [Assembled d etag])"
    and "list_all (\<lambda>r. \<not> io_reported r) replies"
  shows "\<exists>bodies. list_all2 (\<lambda>r body. put_by cs uid (cp_PartNumber r) body) rs bodies \<and> d = concat bodies \<and> etag = object_tag bodies \<and>
    list_all (\<lambda>b. 5242880 \<le> int (length b)) (butlast bodies)"
proof -
  obtain m1 where m1: "mp_serve_all X cs \<lparr>mp_dirs = fmempty, mp_fates = fates\<rparr> = (m1, replies)"
    and last: "mp_serve X (OpComplete uid rs) m1 = (m, Assembled d etag)"
    using assms(1) by (auto simp: mp_serve_all_snoc Let_def simp del: mp_serve.simps split: prod.splits)
  obtain A where A: "upload_run cs Map.empty replies A" "mp_tracks A m1" using mp_serve_all_refines [OF mp_tracks_empty, of cs X fates] m1 by auto
  then have sound: "sound_parts A" using sound_run assms(2) by (simp add: sound_parts_def)
  obtain A' where "upload_step (OpComplete uid rs) A (Assembled d etag) A'" using mp_serve_steps [OF A(2) last] by (auto simp: mp_stepped_def)
  then obtain u ps where u: "A uid = Some u" "list_all2 (named_part u) rs ps" "d = concat (map fst ps)" "etag = object_tag (map snd ps)"
    "list_all (\<lambda>p. minMultipartPartSize \<le> int (length (snd p))) (butlast ps)" by (auto elim: upload_step_completeE)
  have eq: "map snd ps = map fst ps" using sound_named [OF sound u(1,2)] by simp
  have "list_all (\<lambda>b. 5242880 \<le> int (length b)) (butlast (map snd ps))"
    using u(5) by (simp add: list.pred_map comp_def minMultipartPartSize_def flip: map_butlast)
  moreover have "list_all2 (\<lambda>r body. put_by cs uid (cp_PartNumber r) body) rs (map fst ps)"
    using named_from [OF parts_from_run [OF A(1)] u(1,2)] by (simp add: list_all2_map2)
  ultimately show ?thesis using u(3,4) by (intro exI [of _ "map fst ps"]) (simp only: eq simp_thms)
qed


definition demo_session :: "multipart_op list" where
  "demo_session = [OpInitiate ''u'' 0 ''b'' ''k'' \<lparr>po_ContentType = [], po_CacheControl = [], po_ContentDisposition = [], po_ContentEncoding = [],
     po_ContentLanguage = [], po_UserMetadata = fmempty\<rparr>, OpPutPart ''u'' ''b'' ''k'' 1 0 (Inr ''xyz'')]"

definition demo_names :: Externals where
  "demo_names = \<lparr>HashBytes = (\<lambda>d. d), ToLower = to_lower, io_error = (\<lambda>_. False)\<rparr>"

lemmas mp_run_simps = demo_session_def Let_def mp_reply_def mp_then_def mp_check_def mp_return_def mp_throw_def mp_io_def
  initiate_def saveLocked_def loadLocked_def putPart_def writePartLocked_def assemble_def assembleLocked_def copyPartFile_def completeParts_def
  validateMultipartPartSizes_def mkdir_all_def put_metadata_def put_part_file_def empty_dir_def

lemma demo_ids: "validateUploadID ''u''" "trim_space ''b'' = ''b''" "trim_space ''k'' = ''k''" by code_simp+

theorem completed_upload_tag_witness:
  "\<exists>m replies etag. mp_serve_all demo_names (demo_session @ [OpComplete ''u'' [\<lparr>cp_PartNumber = 1, cp_ETag = []\<rparr>]]) \<lparr>mp_dirs = fmempty, mp_fates = []\<rparr> =
     (m, replies @ [Assembled ''xyz'' etag]) \<and> etag = object_tag [''xyz'']"
proof -
  let ?cs = "demo_session @ [OpComplete ''u'' [\<lparr>cp_PartNumber = 1, cp_ETag = []\<rparr>]]" and ?m = "\<lparr>mp_dirs = fmempty, mp_fates = []\<rparr>"
  obtain m etag where run: "mp_serve_all demo_names ?cs ?m = (m, [Created ''u'', PartStored (part_tag ''xyz'')] @ [Assembled ''xyz'' etag])"
    by (auto simp: mp_run_simps demo_ids hasher_tag part_tag_def etagMatches_def ensurePartDigest_def)
  from completed_upload_tag [OF run] obtain bodies where "length bodies = 1" "''xyz'' = concat bodies" "etag = object_tag bodies"
    by (auto simp: io_reported_def dest: list_all2_lengthD)
  then have "etag = object_tag [''xyz'']" by (cases bodies) auto
  with run show ?thesis by blast
qed


text \<open>A part is replaced before the document that describes it: when the document cannot be written, the request fails, and a client
  that completes the upload with the tag it was given for the first body gets an object made of the second one.\<close>

lemma failed_part_replaces_body:
  "snd (mp_serve_all demo_names
      (demo_session @ [OpPutPart ''u'' ''b'' ''k'' 1 0 (Inr ''new''), OpComplete ''u'' [\<lparr>cp_PartNumber = 1, cp_ETag = part_tag ''xyz''\<rparr>]])
      \<lparr>mp_dirs = fmempty, mp_fates = replicate 17 IOk @ [IFail]\<rparr>) =
   [Created ''u'', PartStored (part_tag ''xyz''), Rejected (errIO ''create multipart metadata dir''), Assembled ''new'' (object_tag [''xyz''])]"
proof -
  have "trim_space (part_tag ''xyz'') = part_tag ''xyz''" by (rule trim_space_plain) (simp_all add: part_tag_def quoteETag_def plain_char_def)
  then have "etagMatches (part_tag ''xyz'') (part_tag ''xyz'')" by (simp add: etagMatches_def)
  moreover have "multipartCompleteETag [\<lparr>mpp_Number = 1, mpp_ETag = part_tag ''xyz'', mpp_Digest = hex_encode (md5 ''xyz''), mpp_Size = 3, mpp_UploadedAt = 0\<rparr>] =
      object_tag [''xyz'']" by (rule multipartCompleteETag_described) simp
  ultimately show ?thesis
    by (simp add: mp_run_simps demo_ids hasher_tag ensurePartDigest_def trim_space_hex numeral_eq_Suc flip: part_tag_def)
qed

definition unchanged_or_io :: "multipartStore \<Rightarrow> multipartStore \<Rightarrow> multipart_reply \<Rightarrow> bool" where
  "unchanged_or_io m m' r = (case r of Rejected (errIO _) \<Rightarrow> True | Rejected _ \<Rightarrow> mp_dirs m' = mp_dirs m | _ \<Rightarrow> True)"

lemma unchanged_or_io_simps [simp]:
  "unchanged_or_io m m' (Rejected (errIO what))" "mp_dirs m' = mp_dirs m \<Longrightarrow> unchanged_or_io m m' r"
  "unchanged_or_io m m' (Created u)" "unchanged_or_io m m' (PartStored u)" "unchanged_or_io m m' (Assembled d u)" "unchanged_or_io m m' Aborted"
  by (simp_all add: unchanged_or_io_def split: multipart_reply.split multipart_error.split)

lemma loadLocked_look:
  assumes "\<And>err fates. E err (m\<lparr>mp_fates := fates\<rparr>)" "\<And>u fates. Q u (m\<lparr>mp_fates := fates\<rparr>)"
  shows "mp_wp (loadLocked uid) Q E m"
  using assms(1) [of _ "mp_fates m"] assms by (auto simp: loadLocked_def mp_simps split: option.split intro!: mp_wp_io)

lemma copy_parts_io:
  assumes "\<And>what m. E (errIO what) m" "\<And>x m. Q x m"
  shows "mp_wp (copy_parts uid ps) Q E m"
  using assms(2) by (induction ps arbitrary: Q m) (auto simp: copyPartFile_def mp_simps assms(1) split: option.split intro!: mp_wp_io)

lemma serve_unchanged_or_io:
  "mp_serve X c m = (m', r) \<Longrightarrow> unchanged_or_io m m' r"
proof (cases c)
  case (OpInitiate uid now b k opts)
  have "mp_wp (initiate X uid now b k opts) (\<lambda>u m'. unchanged_or_io m m' (Created (mu_UploadID u))) (\<lambda>err m'. unchanged_or_io m m' (Rejected err)) m"
    by (auto simp: initiate_def Let_def mp_simps intro!: mp_wp_io saveLocked_wp)
  then show "mp_serve X c m = (m', r) \<Longrightarrow> unchanged_or_io m m' r" using mp_serve_wp OpInitiate by fastforce
next
  case (OpPutPart uid b k n now reader)
  have "mp_wp (putPart uid b k n now reader) (\<lambda>p m'. unchanged_or_io m m' (PartStored (mpp_ETag p))) (\<lambda>err m'. unchanged_or_io m m' (Rejected err)) m"
    by (auto simp: putPart_def mp_simps intro!: loadLocked_look writePartLocked_wp saveLocked_wp)
  then show "mp_serve X c m = (m', r) \<Longrightarrow> unchanged_or_io m m' r" using mp_serve_wp OpPutPart by fastforce
next
  case (OpComplete uid rs)
  have "mp_wp (assemble uid rs) (\<lambda>x m'. unchanged_or_io m m' (case x of (a, u) \<Rightarrow> Assembled (as_file a) (as_etag a))) (\<lambda>err m'. unchanged_or_io m m' (Rejected err)) m"
    by (auto simp: assemble_def assembleLocked_def mp_simps split: sum.split intro!: loadLocked_look mp_wp_io copy_parts_io)
  then show "mp_serve X c m = (m', r) \<Longrightarrow> unchanged_or_io m m' r" using mp_serve_wp OpComplete by fastforce
next
  case (OpAbort uid)
  have r: "mp_wp (remove_upload uid) (\<lambda>_ m'. unchanged_or_io m m' Aborted) (\<lambda>err m'. unchanged_or_io m m' (Rejected err)) m1" for m1
    by (simp add: mp_wp_def remove_upload_def Let_def split: list.split io_fate.split option.split)
  have "mp_wp (abort uid) (\<lambda>_ m'. unchanged_or_io m m' Aborted) (\<lambda>err m'. unchanged_or_io m m' (Rejected err)) m"
    using r by (auto simp: abort_def mp_simps split: option.split intro!: mp_wp_io)
  then show "mp_serve X c m = (m', r) \<Longrightarrow> unchanged_or_io m m' r" using mp_serve_wp OpAbort by fastforce
qed

text \<open>C18: a request that is rejected for what it says changes nothing: unless a failure of the file system is reported, a rejected request leaves every
  directory of the store as it was.\<close>

theorem rejected_changes_nothing:
  "case mp_serve X c m of (m', Rejected (errIO _)) \<Rightarrow> True | (m', Rejected _) \<Rightarrow> mp_dirs m' = mp_dirs m | _ \<Rightarrow> True"
  using serve_unchanged_or_io [of X c m] by (auto simp: unchanged_or_io_def split: prod.split multipart_reply.split multipart_error.split)

end
