(* ===== verification/S3_Auth.thy ===== *)
theory S3_Auth
  imports Go_HTTP Go_Hex Go_SHA256 Shard_Engine "HOL-Library.Multiset"
begin

text \<open>
  Request signatures (AWS Signature Version 4): \<open>internal/s3/auth.go\<close> and \<open>internal/s3/auth_signing.go\<close>. A request is accepted when no
  credentials are configured, or when the signature in its \<open>Authorization\<close> header or in its query is the keyed hash of the
  canonical request. \<open>time.Now\<close> is an argument; durations are 64 bits wide and wrap.
\<close>

section \<open>Configuration and errors\<close>

record s3_config =
  sc_S3AccessKey :: string
  sc_S3SecretKey :: string
  sc_S3Region :: string

datatype auth_error =
    errSigV4ConfigIncomplete | errSigV4MissingHeader | errSigV4InvalidHeader | errSigV4AccessDenied | errSigV4UnsupportedScope
  | errSigV4MissingDate

record sigV4Authorization =
  sv_accessKey :: string
  sv_date :: string
  sv_region :: string
  sv_service :: string
  sv_signedHeaders :: "string list"
  sv_signature :: string

definition sigV4Algorithm :: string where "sigV4Algorithm = ''AWS4-HMAC-SHA256''"
definition sigV4Request :: string where "sigV4Request = ''aws4_request''"

definition sigV4ClockSkew :: duration where "sigV4ClockSkew = 15 * 60 * 1000000000"
definition sigV4PresignMaxLifetime :: duration where "sigV4PresignMaxLifetime = 7 * 24 * 60 * 60 * 1000000000"

section \<open>Time stamps\<close>

text \<open>\<open>time.Parse\<close> with the layout \<open>20060102T150405Z\<close>: digits of fixed width, the ranges of a calendar date and time, and, as the package
  allows, a fraction after the seconds, of which nine digits count. The result counts nanoseconds from the start of year 1.\<close>

definition two_digits :: "string \<Rightarrow> (int \<times> string) option" where
  "two_digits s = (case s of a # b # rest \<Rightarrow> if is_digit a \<and> is_digit b then Some (int (10 * digit_val a + digit_val b), rest) else None | _ \<Rightarrow> None)"

definition is_leap :: "int \<Rightarrow> bool" where
  "is_leap y \<longleftrightarrow> y mod 4 = 0 \<and> (y mod 100 \<noteq> 0 \<or> y mod 400 = 0)"

definition days_in :: "int \<Rightarrow> int \<Rightarrow> int" where
  "days_in m y = (if m = 2 then (if is_leap y then 29 else 28) else if m \<in> {4, 6, 9, 11} then 30 else 31)"

definition days_before_year :: "int \<Rightarrow> int" where
  "days_before_year y = 365 * (y - 1) + (y - 1) div 4 - (y - 1) div 100 + (y - 1) div 400"

definition days_before_month :: "int \<Rightarrow> int \<Rightarrow> int" where
  "days_before_month m y = sum_list (map (\<lambda>i. days_in (int i) y) [1..<nat m])"

definition date_time :: "int \<Rightarrow> int \<Rightarrow> int \<Rightarrow> int \<Rightarrow> int \<Rightarrow> int \<Rightarrow> int \<Rightarrow> time" where
  "date_time y mo d h mi s ns =
     (((days_before_year y + days_before_month mo y + d - 1) * 24 + h) * 60 + mi) * 60 * 1000000000 + s * 1000000000 + ns"

definition fraction :: "string \<Rightarrow> int \<times> string" where
  "fraction s =
     (case s of c # rest \<Rightarrow>
        if (c = CHR ''.'' \<or> c = CHR '','') \<and> rest \<noteq> [] \<and> is_digit (hd rest)
        then let ds = takeWhile is_digit rest
             in (int (read_digits 0 (take 9 (ds @ replicate 9 (CHR ''0'')))), dropWhile is_digit rest)
        else (0, s)
      | [] \<Rightarrow> (0, s))"

definition parse_amz_date :: "string \<Rightarrow> time option" where
  "parse_amz_date s =
     (case two_digits s of None \<Rightarrow> None | Some (y1, s) \<Rightarrow>
      case two_digits s of None \<Rightarrow> None | Some (y2, s) \<Rightarrow>
      case two_digits s of None \<Rightarrow> None | Some (mo, s) \<Rightarrow>
      case two_digits s of None \<Rightarrow> None | Some (d, s) \<Rightarrow>
      if \<not> has_prefix s ''T'' then None else
      case two_digits (tl s) of None \<Rightarrow> None | Some (h, s) \<Rightarrow>
      case two_digits s of None \<Rightarrow> None | Some (mi, s) \<Rightarrow>
      case two_digits s of None \<Rightarrow> None | Some (sec, s) \<Rightarrow>
      case fraction s of (ns, s) \<Rightarrow>
        let y = 100 * y1 + y2 in
        if s = ''Z'' \<and> 1 \<le> mo \<and> mo \<le> 12 \<and> 1 \<le> d \<and> d \<le> days_in mo y \<and> h < 24 \<and> mi < 60 \<and> sec < 60
        then Some (date_time y mo d h mi sec ns) else None)"

section \<open>Reading the signature\<close>

definition parseSignedHeaders :: "Externals \<Rightarrow> string \<Rightarrow> string list" where
  "parseSignedHeaders X input =
     sort (remdups (filter (\<lambda>h. h \<noteq> []) (map (\<lambda>h. ToLower X (trim_space h)) (split_on CHR '';'' input))))"

definition parseAuthorizationValues :: "string \<Rightarrow> (string, string) fmap" where
  "parseAuthorizationValues input =
     fold (\<lambda>segment values. case cut_at CHR ''='' (trim_space segment) of
         None \<Rightarrow> values
       | Some (key, value) \<Rightarrow> fmupd (trim_space key) (trim_space value) values)
       (split_on CHR '','' input) fmempty"

definition newSigV4Authorization :: "Externals \<Rightarrow> string \<Rightarrow> string \<Rightarrow> string \<Rightarrow> auth_error + sigV4Authorization" where
  "newSigV4Authorization X credential signedHeaders signature =
     (if credential = [] \<or> signedHeaders = [] \<or> signature = [] then Inl errSigV4InvalidHeader
      else case split_on CHR ''/'' credential of
        [accessKey, date, region, service, request] \<Rightarrow>
          if request \<noteq> sigV4Request then Inl errSigV4InvalidHeader
          else let headers = parseSignedHeaders X signedHeaders in
            if headers = [] then Inl errSigV4InvalidHeader
            else Inr \<lparr>sv_accessKey = accessKey, sv_date = date, sv_region = region, sv_service = service, sv_signedHeaders = headers,
                      sv_signature = signature\<rparr>
      | _ \<Rightarrow> Inl errSigV4InvalidHeader)"

definition map_get :: "(string, string) fmap \<Rightarrow> string \<Rightarrow> string" where
  "map_get m k = (case fmlookup m k of None \<Rightarrow> [] | Some v \<Rightarrow> v)"

definition parseSigV4Authorization :: "Externals \<Rightarrow> string \<Rightarrow> auth_error + sigV4Authorization" where
  "parseSigV4Authorization X header =
     (let header = trim_space header in
      if header = [] then Inl errSigV4MissingHeader
      else if \<not> has_prefix header (sigV4Algorithm @ '' '') then Inl errSigV4InvalidHeader
      else let values = parseAuthorizationValues (trim_space (drop (length sigV4Algorithm) header))
           in newSigV4Authorization X (map_get values ''Credential'') (map_get values ''SignedHeaders'') (map_get values ''Signature''))"

text \<open>\<open>time.Duration(seconds) * time.Second\<close> wraps at 64 bits.\<close>

definition wrap64 :: "int \<Rightarrow> int" where
  "wrap64 n = (n + 2 ^ 63) mod 2 ^ 64 - 2 ^ 63"

definition validateSigV4PresignedLifetime :: "time \<Rightarrow> string \<Rightarrow> string \<Rightarrow> auth_error option" where
  "validateSigV4PresignedLifetime now amzDate expires =
     (case parse_amz_date amzDate of
        None \<Rightarrow> Some errSigV4InvalidHeader
      | Some signedAt \<Rightarrow>
          (case parse_int64 (trim_space expires) of
             None \<Rightarrow> Some errSigV4InvalidHeader
           | Some seconds \<Rightarrow>
               if seconds < 0 then Some errSigV4InvalidHeader
               else let lifetime = wrap64 (seconds * 1000000000) in
                 if lifetime > sigV4PresignMaxLifetime then Some errSigV4InvalidHeader
                 else if now < signedAt - sigV4ClockSkew \<or> now > signedAt + lifetime then Some errSigV4AccessDenied
                 else None))"

definition isSigV4PresignedRequest :: "Request \<Rightarrow> bool" where
  "isSigV4PresignedRequest r \<longleftrightarrow>
     query_get (rq_Query r) ''X-Amz-Algorithm'' = sigV4Algorithm \<or> query_get (rq_Query r) ''X-Amz-Signature'' \<noteq> []"

definition parseSigV4Presigned :: "Externals \<Rightarrow> time \<Rightarrow> Request \<Rightarrow> auth_error + sigV4Authorization \<times> string" where
  "parseSigV4Presigned X now r =
     (let values = rq_Query r in
      if query_get values ''X-Amz-Algorithm'' \<noteq> sigV4Algorithm then Inl errSigV4InvalidHeader
      else let amzDate = trim_space (query_get values ''X-Amz-Date'') in
        if amzDate = [] then Inl errSigV4MissingDate
        else case validateSigV4PresignedLifetime now amzDate (query_get values ''X-Amz-Expires'') of
          Some err \<Rightarrow> Inl err
        | None \<Rightarrow>
            (case newSigV4Authorization X (query_get values ''X-Amz-Credential'') (query_get values ''X-Amz-SignedHeaders'')
                (query_get values ''X-Amz-Signature'') of
               Inl err \<Rightarrow> Inl err
             | Inr auth \<Rightarrow> if \<not> has_prefix amzDate (sv_date auth) then Inl errSigV4MissingDate else Inr (auth, amzDate)))"

definition sigV4RequestDate :: "Request \<Rightarrow> string \<Rightarrow> auth_error + string" where
  "sigV4RequestDate r credentialDate =
     (let amzDate = trim_space (header_get (rq_Header r) ''X-Amz-Date'')
      in if amzDate = [] \<or> \<not> has_prefix amzDate credentialDate then Inl errSigV4MissingDate else Inr amzDate)"

section \<open>The canonical request\<close>

definition sigV4Escape :: "string \<Rightarrow> string" where
  "sigV4Escape value = replace_all ''%7E'' ''~'' (replace_all ''+'' ''%20'' (QueryEscape value))"

definition query_pairs :: "url_values \<Rightarrow> string list" where
  "query_pairs values =
     concat (map (\<lambda>(key, items).
         if items = [] then [sigV4Escape key @ ''='']
         else map (\<lambda>value. sigV4Escape key @ ''='' @ sigV4Escape value) items)
       (fm_entries values))"

definition canonicalSigV4Query :: "url_values \<Rightarrow> string" where
  "canonicalSigV4Query values = (if fmdom values = {||} then [] else join_with ''&'' (sort (query_pairs values)))"

definition sigV4QueryWithoutSignature :: "url_values \<Rightarrow> url_values" where
  "sigV4QueryWithoutSignature values = fmdrop ''X-Amz-Signature'' values"

definition canonicalSigV4URI :: "Request \<Rightarrow> string" where
  "canonicalSigV4URI r = (if rq_EscapedPath r = [] then ''/'' else rq_EscapedPath r)"

definition canonicalSigV4HeaderValue :: "Externals \<Rightarrow> Request \<Rightarrow> string \<Rightarrow> string" where
  "canonicalSigV4HeaderValue X r header =
     (if header = ''host'' then ToLower X (trim_space (rq_Host r))
      else join_with '' '' (split_fields (join_with '','' (header_values (rq_Header r) header))))"

definition payloadHash :: "Request \<Rightarrow> string" where
  "payloadHash r = (let hash = trim_space (header_get (rq_Header r) ''X-Amz-Content-Sha256'') in if hash = [] then ''UNSIGNED-PAYLOAD'' else hash)"

abbreviation newline :: string where "newline \<equiv> [CHR 0x0A]"

definition canonicalSigV4Request :: "Externals \<Rightarrow> Request \<Rightarrow> string list \<Rightarrow> url_values \<Rightarrow> string" where
  "canonicalSigV4Request X r signedHeaders query =
     (let headers = map (\<lambda>header. header @ '':'' @ canonicalSigV4HeaderValue X r header) signedHeaders
      in join_with newline [rq_Method r, canonicalSigV4URI r, canonicalSigV4Query query, join_with newline headers @ newline,
           join_with '';'' signedHeaders, payloadHash r])"

definition sigV4Signature :: "string \<Rightarrow> string \<Rightarrow> string \<Rightarrow> string \<Rightarrow> string \<Rightarrow> string" where
  "sigV4Signature signingSecret date region service stringToSign =
     (let dateKey = hmac_sha256 (''AWS4'' @ signingSecret) date;
          regionKey = hmac_sha256 dateKey region;
          serviceKey = hmac_sha256 regionKey service;
          signingKey = hmac_sha256 serviceKey sigV4Request
      in hex_encode (hmac_sha256 signingKey stringToSign))"

definition validSigV4SignatureWithQuery :: "Externals \<Rightarrow> Request \<Rightarrow> sigV4Authorization \<Rightarrow> string \<Rightarrow> string \<Rightarrow> url_values \<Rightarrow> bool" where
  "validSigV4SignatureWithQuery X r auth signingSecret amzDate query =
     (let canonicalRequest = canonicalSigV4Request X r (sv_signedHeaders auth) query;
          credentialScope = join_with ''/'' [sv_date auth, sv_region auth, sv_service auth, sigV4Request];
          stringToSign = join_with newline [sigV4Algorithm, amzDate, credentialScope, hex_encode (sha256 canonicalRequest)];
          expected = sigV4Signature signingSecret (sv_date auth) (sv_region auth) (sv_service auth) stringToSign
      in expected = ToLower X (sv_signature auth))"

definition validSigV4Signature :: "Externals \<Rightarrow> Request \<Rightarrow> sigV4Authorization \<Rightarrow> string \<Rightarrow> string \<Rightarrow> bool" where
  "validSigV4Signature X r auth signingSecret amzDate = validSigV4SignatureWithQuery X r auth signingSecret amzDate (rq_Query r)"

definition validSigV4PresignedSignature :: "Externals \<Rightarrow> Request \<Rightarrow> sigV4Authorization \<Rightarrow> string \<Rightarrow> string \<Rightarrow> bool" where
  "validSigV4PresignedSignature X r auth signingSecret amzDate =
     validSigV4SignatureWithQuery X r auth signingSecret amzDate (sigV4QueryWithoutSignature (rq_Query r))"

section \<open>Authorization\<close>

definition s3Credentials :: "s3_config \<Rightarrow> auth_error + string \<times> string" where
  "s3Credentials cfg =
     (let accessKey = trim_space (sc_S3AccessKey cfg); signingSecret = trim_space (sc_S3SecretKey cfg) in
      if accessKey = [] \<and> signingSecret = [] then Inr ([], [])
      else if accessKey = [] \<or> signingSecret = [] then Inl errSigV4ConfigIncomplete
      else Inr (accessKey, signingSecret))"

definition region :: "s3_config \<Rightarrow> string" where
  "region cfg = (let region = trim_space (sc_S3Region cfg) in if region = [] then ''us-east-1'' else region)"

definition validateSigV4Authorization :: "s3_config \<Rightarrow> sigV4Authorization \<Rightarrow> string \<Rightarrow> auth_error option" where
  "validateSigV4Authorization cfg auth accessKey =
     (if sv_accessKey auth \<noteq> accessKey then Some errSigV4AccessDenied
      else if sv_region auth \<noteq> region cfg \<or> sv_service auth \<noteq> ''s3'' then Some errSigV4UnsupportedScope
      else None)"

definition authorizeHeader :: "Externals \<Rightarrow> s3_config \<Rightarrow> Request \<Rightarrow> string \<Rightarrow> string \<Rightarrow> auth_error option" where
  "authorizeHeader X cfg r accessKey signingSecret =
     (case parseSigV4Authorization X (header_get (rq_Header r) ''Authorization'') of
        Inl err \<Rightarrow> Some err
      | Inr auth \<Rightarrow>
          (case validateSigV4Authorization cfg auth accessKey of
             Some err \<Rightarrow> Some err
           | None \<Rightarrow>
               (case sigV4RequestDate r (sv_date auth) of
                  Inl err \<Rightarrow> Some err
                | Inr amzDate \<Rightarrow> if validSigV4Signature X r auth signingSecret amzDate then None else Some errSigV4AccessDenied)))"

definition authorizePresigned :: "Externals \<Rightarrow> s3_config \<Rightarrow> time \<Rightarrow> Request \<Rightarrow> string \<Rightarrow> string \<Rightarrow> auth_error option" where
  "authorizePresigned X cfg now r accessKey signingSecret =
     (case parseSigV4Presigned X now r of
        Inl err \<Rightarrow> Some err
      | Inr (auth, amzDate) \<Rightarrow>
          (case validateSigV4Authorization cfg auth accessKey of
             Some err \<Rightarrow> Some err
           | None \<Rightarrow> if validSigV4PresignedSignature X r auth signingSecret amzDate then None else Some errSigV4AccessDenied))"

definition authorize :: "Externals \<Rightarrow> s3_config \<Rightarrow> time \<Rightarrow> Request \<Rightarrow> auth_error option" where
  "authorize X cfg now r =
     (case s3Credentials cfg of
        Inl err \<Rightarrow> Some err
      | Inr (accessKey, signingSecret) \<Rightarrow>
          if accessKey = [] then None
          else if isSigV4PresignedRequest r then authorizePresigned X cfg now r accessKey signingSecret
          else authorizeHeader X cfg r accessKey signingSecret)"


section \<open>The canonical query\<close>

definition escape_char :: "char \<Rightarrow> string" where
  "escape_char c = (if unreserved c then [c] else percent c)"

lemma hex_symbols: "list_all (\<lambda>n. upper_hex n \<noteq> CHR ''%'' \<and> upper_hex n \<noteq> CHR ''+'' \<and> upper_hex n \<noteq> CHR ''='' \<and> upper_hex n \<noteq> CHR ''&'' \<and>
    (upper_hex n = CHR ''7'' \<longrightarrow> n = 7) \<and> (upper_hex n = CHR ''E'' \<longrightarrow> n = 14) \<and> list_all (\<lambda>m. upper_hex m = upper_hex n \<longrightarrow> m = n) [0..<16]) [0..<16]"
  by code_simp

lemma upper_hex_ok:
  assumes "n < 16"
  shows "upper_hex n \<noteq> CHR ''%''" "upper_hex n \<noteq> CHR ''+''" "upper_hex n \<noteq> CHR ''=''" "upper_hex n \<noteq> CHR ''&''"
    "upper_hex n = CHR ''7'' \<Longrightarrow> n = 7" "upper_hex n = CHR ''E'' \<Longrightarrow> n = 14" "m < 16 \<Longrightarrow> upper_hex m = upper_hex n \<Longrightarrow> m = n"
  using hex_symbols assms by (auto simp: list_all_iff)

lemma unreserved_chars: "unreserved CHR ''~''" "\<not> unreserved CHR ''%''" "\<not> unreserved CHR ''+''" "\<not> unreserved CHR ''=''" "\<not> unreserved CHR ''&''" "\<not> unreserved CHR '' ''"
  by code_simp+

lemma char_from_nibbles: "(of_char c :: nat) = 16 * (of_char c div 16) + of_char c mod 16" "(of_char c = (of_char d :: nat)) = (c = d)"
  by (simp_all add: of_char_eq_iff)

lemma escape_char_inject: "escape_char c @ s = escape_char d @ t \<Longrightarrow> c = d \<and> s = t"
proof -
  assume e: "escape_char c @ s = escape_char d @ t"
  consider "unreserved c" "unreserved d" | "unreserved c" "\<not> unreserved d" | "\<not> unreserved c" "unreserved d" | "\<not> unreserved c" "\<not> unreserved d" by blast
  then show ?thesis
  proof cases
    case 4
    with e have "upper_hex (of_char c div 16) = upper_hex (of_char d div 16)" "upper_hex (of_char c mod 16) = upper_hex (of_char d mod 16)" "s = t"
      by (simp_all add: escape_char_def percent_def)
    then have "(of_char c :: nat) = of_char d" using upper_hex_ok(7) nibbles char_from_nibbles(1) by metis
    then show ?thesis using \<open>s = t\<close> char_from_nibbles(2) by blast
  qed (use e unreserved_chars in \<open>auto simp: escape_char_def percent_def\<close>)
qed

lemma escape_nonempty: "escape_char c \<noteq> []"
  by (simp add: escape_char_def percent_def)

lemma escape_inject: "concat (map escape_char s) = concat (map escape_char t) \<longleftrightarrow> s = t"
proof (induction s arbitrary: t)
  case Nil
  then show ?case by (cases t) (simp_all add: escape_char_def percent_def)
next
  case (Cons c s)
  show ?case
  proof (cases t)
    case Nil
    then show ?thesis using escape_nonempty [of c] by simp
  next
    case (Cons d t')
    then show ?thesis using escape_char_inject [of c _ d] Cons.IH [of t'] by auto
  qed
qed

lemma escape_chars: "x \<in> set (concat (map escape_char s)) \<Longrightarrow> x \<noteq> CHR ''='' \<and> x \<noteq> CHR ''&''"
proof (induction s)
  case (Cons c s)
  have "x \<noteq> CHR ''='' \<and> x \<noteq> CHR ''&''" if "x \<in> set (escape_char c)"
    using that unreserved_chars upper_hex_ok(3,4) nibbles [of c] by (auto simp: escape_char_def percent_def split: if_splits)
  then show ?case using Cons by auto
qed simp

lemma replace_skip: "\<not> has_prefix (c # s) old \<Longrightarrow> old \<noteq> [] \<Longrightarrow> replace_all old new (c # s) = c # replace_all old new s"
  by (simp add: replace_all.simps [of old new "c # s"])

lemma replace_hit: "replace_all (x # xs) new ((x # xs) @ s) = new @ replace_all (x # xs) new s"
  by (subst replace_all.simps) (simp add: has_prefix_def)

lemma replace_nil [simp]: "replace_all old new [] = []"
  by (simp add: replace_all.simps)

lemma head_differs: "c \<noteq> x \<Longrightarrow> \<not> has_prefix (c # s) (x # xs)"
  by (simp add: has_prefix_def)

lemma plus_replaced: "replace_all ''+'' ''%20'' (QueryEscape s) = concat (map escape_char s)"
proof (induction s)
  case (Cons c s)
  have sp: "percent CHR '' '' = ''%20''" by code_simp
  consider "unreserved c" | "c = CHR '' ''" | "\<not> unreserved c" "c \<noteq> CHR '' ''" by blast
  then show ?case
  proof cases
    case 1
    then have "c \<noteq> CHR ''+''" using unreserved_chars by metis
    then show ?thesis using 1 Cons by (simp add: QueryEscape_def query_escape_char_def escape_char_def replace_skip head_differs)
  next
    case 2
    then show ?thesis using Cons replace_hit [of "CHR ''+''" "[]"] by (simp add: QueryEscape_def query_escape_char_def escape_char_def unreserved_chars sp)
  next
    case 3
    then show ?thesis using Cons upper_hex_ok(2) nibbles
      by (simp add: QueryEscape_def query_escape_char_def escape_char_def percent_def replace_skip head_differs)
  qed
qed (simp add: QueryEscape_def)

lemma nibble_tilde: "(of_char CHR ''~'' :: nat) = 16 * 7 + 14"
  by simp

lemma tilde_kept: "replace_all ''%7E'' ''~'' (concat (map escape_char s)) = concat (map escape_char s)"
proof (induction s)
  case (Cons c s)
  show ?case
  proof (cases "unreserved c")
    case True
    then have "c \<noteq> CHR ''%''" using unreserved_chars by metis
    then show ?thesis using True Cons by (simp add: escape_char_def replace_skip head_differs)
  next
    case False
    have "\<not> (upper_hex (of_char c div 16) = CHR ''7'' \<and> upper_hex (of_char c mod 16) = CHR ''E'')"
    proof
      assume "upper_hex (of_char c div 16) = CHR ''7'' \<and> upper_hex (of_char c mod 16) = CHR ''E''"
      then have "(of_char c :: nat) div 16 = 7" "(of_char c :: nat) mod 16 = 14" using upper_hex_ok(5,6) nibbles [of c] by blast+
      then have "(of_char c :: nat) = of_char CHR ''~''" by (metis (no_types) char_from_nibbles(1) nibble_tilde)
      then show False using False unreserved_chars(1) char_from_nibbles(2) by metis
    qed
    then have "\<not> has_prefix (CHR ''%'' # upper_hex (of_char c div 16) # upper_hex (of_char c mod 16) # t) ''%7E''" for t by (simp add: has_prefix_def)
    then show ?thesis using False Cons upper_hex_ok(1) nibbles by (simp add: escape_char_def percent_def replace_skip head_differs)
  qed
qed simp

lemma sigV4Escape_chars: "sigV4Escape s = concat (map escape_char s)"
  by (simp add: sigV4Escape_def plus_replaced tilde_kept)

text \<open>The parameters of a query, and the text of one.\<close>

definition parameters :: "url_values \<Rightarrow> (string \<times> string) list" where
  "parameters values = concat (map (\<lambda>(key, items). if items = [] then [(key, [])] else map (Pair key) items) (fm_entries values))"

definition pair_text :: "string \<times> string \<Rightarrow> string" where
  "pair_text p = sigV4Escape (fst p) @ ''='' @ sigV4Escape (snd p)"

lemma query_pairs_text: "query_pairs values = map pair_text (parameters values)"
proof -
  have e: "sigV4Escape [] = []" by (simp add: sigV4Escape_chars)
  show ?thesis unfolding query_pairs_def parameters_def map_concat map_map
    by (intro arg_cong [where f = concat] map_cong) (auto simp: pair_text_def e)
qed

lemma append_at: "c \<notin> set a \<Longrightarrow> c \<notin> set b \<Longrightarrow> a @ c # s = b @ c # t \<Longrightarrow> a = b \<and> s = t"
  by (induction a arbitrary: b) (auto simp: Cons_eq_append_conv append_eq_Cons_conv)

lemma pair_text_inject: "inj pair_text"
proof (rule injI)
  fix p q
  assume "pair_text p = pair_text q"
  then have "sigV4Escape (fst p) @ CHR ''='' # sigV4Escape (snd p) = sigV4Escape (fst q) @ CHR ''='' # sigV4Escape (snd q)" by (simp add: pair_text_def)
  then have "sigV4Escape (fst p) = sigV4Escape (fst q)" "sigV4Escape (snd p) = sigV4Escape (snd q)"
    using append_at escape_chars by (metis sigV4Escape_chars)+
  then show "p = q" using escape_inject by (simp add: sigV4Escape_chars prod_eq_iff)
qed

lemma split_on_sep: "c \<notin> set s \<Longrightarrow> split_on c (s @ c # x) = s # split_on c x"
  by (induction s) (auto split: list.splits)

lemma split_joined: "ss \<noteq> [] \<Longrightarrow> \<forall>s \<in> set ss. c \<notin> set s \<Longrightarrow> split_on c (join_with [c] ss) = ss"
  by (induction ss rule: induct_list012) (simp_all add: split_on_absent split_on_sep)

lemma pair_text_chars: "CHR ''&'' \<notin> set (pair_text p)" "pair_text p \<noteq> []"
  using escape_chars [of "CHR ''&''"] by (auto simp: pair_text_def sigV4Escape_chars)

lemma canonicalSigV4Query_text: "canonicalSigV4Query values = join_with ''&'' (sort (map pair_text (parameters values)))"
proof (cases "fmdom values = {||}")
  case True
  then have "values = fmempty" by (simp add: fmap_ext fmdom_notD)
  then show ?thesis by (simp add: canonicalSigV4Query_def parameters_def fm_entries_def fm_keys_def sorted_list_of_fset.rep_eq)
qed (simp add: canonicalSigV4Query_def query_pairs_text)

lemma joined_nil: "join_with sep ss = [] \<Longrightarrow> set ss \<subseteq> range pair_text \<Longrightarrow> ss = []"
proof (cases ss rule: remdups_adj.cases)
  fix x y xs
  assume "set ss \<subseteq> range pair_text" "join_with sep ss = []" "ss = x # y # xs"
  then have "[] \<in> range pair_text" by auto
  then show ?thesis using pair_text_chars(2) by (metis rangeE)
next
  fix x
  assume "set ss \<subseteq> range pair_text" "join_with sep ss = []" "ss = [x]"
  then have "[] \<in> range pair_text" by auto
  then show ?thesis using pair_text_chars(2) by (metis rangeE)
qed

lemma joined_texts:
  assumes "join_with ''&'' ss = join_with ''&'' ts" "set ss \<subseteq> range pair_text" "set ts \<subseteq> range pair_text"
  shows "ss = ts"
proof (cases "ss = [] \<or> ts = []")
  case True
  then show ?thesis using assms joined_nil [of "''&''"] by (metis join_with.simps(1))
next
  case False
  have c: "\<forall>s \<in> set xs. CHR ''&'' \<notin> set s" if "set xs \<subseteq> range pair_text" for xs
    using that pair_text_chars(1) by (metis (no_types) rangeE subsetD)
  have "split_on CHR ''&'' (join_with ''&'' ss) = ss" "split_on CHR ''&'' (join_with ''&'' ts) = ts"
    using False split_joined c assms(2,3) by blast+
  then show ?thesis using assms(1) by metis
qed

text \<open>C20: a signature fixes the query it was made for. Two queries have the same canonical form exactly if they have the same parameters, each
  as often: escaping is injective, an escaped text has no separator, and sorting only forgets the order.\<close>

theorem canonical_query_determines_parameters:
  "canonicalSigV4Query v = canonicalSigV4Query w \<longleftrightarrow> mset (parameters v) = mset (parameters w)"
proof
  assume "mset (parameters v) = mset (parameters w)"
  then have "mset (map pair_text (parameters v)) = mset (map pair_text (parameters w))" by simp
  then have "sort (map pair_text (parameters v)) = sort (map pair_text (parameters w))" by (metis mset_sort properties_for_sort sorted_sort)
  then show "canonicalSigV4Query v = canonicalSigV4Query w" by (simp add: canonicalSigV4Query_text)
next
  assume e: "canonicalSigV4Query v = canonicalSigV4Query w"
  let ?s = "\<lambda>q. sort (map pair_text (parameters q))"
  have "?s v = ?s w" by (rule joined_texts) (use e in \<open>auto simp: canonicalSigV4Query_text\<close>)
  then have "image_mset pair_text (mset (parameters v)) = image_mset pair_text (mset (parameters w))" by (metis mset_map mset_sort)
  then show "mset (parameters v) = mset (parameters w)" using multiset.inj_map [OF pair_text_inject] by (simp add: inj_eq)
qed


section \<open>Presigned requests\<close>

lemma lifetime_window:
  assumes "validateSigV4PresignedLifetime now amzDate expires = None"
  shows "\<exists>signedAt. parse_amz_date amzDate = Some signedAt \<and> signedAt - sigV4ClockSkew \<le> now \<and> now \<le> signedAt + sigV4PresignMaxLifetime"
  using assms by (auto simp: validateSigV4PresignedLifetime_def Let_def split: option.splits if_splits)


definition demo_presigned :: "string \<Rightarrow> Request" where
  "demo_presigned expires = \<lparr>rq_Method = ''GET'', rq_Path = ''/b/k'', rq_EscapedPath = ''/b/k'', rq_Query = fmap_of_list
     [(''X-Amz-Algorithm'', [''AWS4-HMAC-SHA256'']), (''X-Amz-Date'', [''20240229T120000Z'']), (''X-Amz-Expires'', [expires]),
      (''X-Amz-Credential'', [''key/20240229/us-east-1/s3/aws4_request'']), (''X-Amz-SignedHeaders'', [''host'']), (''X-Amz-Signature'', [''00''])],
     rq_Header = fmempty, rq_Host = ''h'', rq_Body = Inr []\<rparr>"

definition demo_lower :: Externals where
  "demo_lower = \<lparr>HashBytes = (\<lambda>d. d), ToLower = to_lower, io_error = (\<lambda>_. False)\<rparr>"

definition demo_signed_at :: time where
  "demo_signed_at = date_time 2024 2 29 12 0 0 0"


text \<open>A lifetime of five centuries is not refused as too long: it wraps to a fraction of a second.\<close>

lemma long_lifetime_wraps:
  assumes "parse_int64 (trim_space expires) = Some 18446744074"
  shows "validateSigV4PresignedLifetime demo_signed_at ''20240229T120000Z'' expires = None"
proof -
  have "parse_amz_date ''20240229T120000Z'' = Some demo_signed_at" by code_simp
  then show ?thesis using assms by (simp add: validateSigV4PresignedLifetime_def wrap64_def sigV4ClockSkew_def sigV4PresignMaxLifetime_def)
qed

end
