(* ===== verification/Object_Service.thy ===== *)
theory Object_Service
  imports Store_Recovery Store_Dedupe
begin

text \<open>
  The object service that the HTTP handlers and the S3 gateway call: \<open>object/service.go\<close> and \<open>object/event_payload.go\<close>. Each method calls the
  store, wraps its error, and publishes an event after a write or a deletion. The event bus is outside this repository: the model keeps
  the events handed to it, in order; an error of the bus is only logged. The payload is the record of the object.
\<close>

record ObjectEvent =
  oe_Event :: string
  oe_Payload :: ObjectMeta

record service_config =
  sg_DedupeMaxFixes :: int
  sg_PendingObjectTTL :: int

record 'm Service =
  os_store :: "'m Store"
  os_bus :: bool
  os_events :: "ObjectEvent list"

type_synonym ('m, 'a) service_action = "'m Service \<Rightarrow> 'm Service \<times> (store_error + 'a)"

text \<open>A call of the store, its error wrapped by \<open>fmt.Errorf\<close> with \<open>%w\<close>.\<close>

definition on_store :: "('m, 'a) action \<Rightarrow> ('m, 'a) service_action" where
  "on_store f s = (case f (os_store s) of (st, r) \<Rightarrow> (s\<lparr>os_store := st\<rparr>, map_sum (\<lambda>err. ErrWrap [err]) id r))"

definition publishObjectEvent :: "string \<Rightarrow> ObjectMeta \<Rightarrow> 'm Service \<Rightarrow> 'm Service" where
  "publishObjectEvent eventType meta s =
     (if \<not> os_bus s then s else s\<lparr>os_events := os_events s @ [\<lparr>oe_Event = eventType, oe_Payload = meta\<rparr>]\<rparr>)"

definition then_publish :: "string \<Rightarrow> ('m, ObjectMeta) service_action \<Rightarrow> ('m, ObjectMeta) service_action" where
  "then_publish eventType f s = (case f s of (s', Inl err) \<Rightarrow> (s', Inl err) | (s', Inr meta) \<Rightarrow> (publishObjectEvent eventType meta s', Inr meta))"

definition Service_ListBuckets :: "'m MetadataStore \<Rightarrow> ('m, Bucket list) service_action" where
  "Service_ListBuckets M = on_store (Store_ListBuckets M)"

definition Service_CreateBucket :: "'m MetadataStore \<Rightarrow> string \<Rightarrow> ('m, unit) service_action" where
  "Service_CreateBucket M name = on_store (Store_CreateBucket M name)"

definition Service_DeleteBucket :: "Externals \<Rightarrow> 'm MetadataStore \<Rightarrow> string \<Rightarrow> ('m, unit) service_action" where
  "Service_DeleteBucket X M name = on_store (Store_DeleteBucket X M name)"

definition Service_ListObjects :: "'m MetadataStore \<Rightarrow> string \<Rightarrow> string \<Rightarrow> ('m, ObjectMeta list) service_action" where
  "Service_ListObjects M bucket prefix = on_store (Store_ListObjects M bucket prefix)"

definition Service_PutObject :: "Externals \<Rightarrow> 'm MetadataStore \<Rightarrow> string \<Rightarrow> string \<Rightarrow> string + bytes \<Rightarrow> PutOptions \<Rightarrow> ('m, ObjectMeta) service_action" where
  "Service_PutObject X M bucket key reader opts = then_publish ''object.updated'' (on_store (Store_PutObject X M bucket key reader opts))"

definition Service_GetObject :: "Externals \<Rightarrow> 'm MetadataStore \<Rightarrow> string \<Rightarrow> string \<Rightarrow> ('m, bytes \<times> ObjectMeta) service_action" where
  "Service_GetObject X M bucket key = on_store (Store_GetObject X M bucket key)"

definition Service_StatObject :: "'m MetadataStore \<Rightarrow> string \<Rightarrow> string \<Rightarrow> ('m, ObjectMeta) service_action" where
  "Service_StatObject M bucket key = on_store (Store_StatObject M bucket key)"

definition Service_DeleteObject :: "Externals \<Rightarrow> 'm MetadataStore \<Rightarrow> string \<Rightarrow> string \<Rightarrow> ('m, ObjectMeta) service_action" where
  "Service_DeleteObject X M bucket key = then_publish ''object.deleted'' (on_store (Store_DeleteObject X M bucket key))"

definition Service_CheckHealth :: "Externals \<Rightarrow> string \<Rightarrow> string \<Rightarrow> ('m, Health) service_action" where
  "Service_CheckHealth X bucket key = on_store (Store_CheckHealth X bucket key)"

definition Service_ScrubObject :: "Externals \<Rightarrow> 'm MetadataStore \<Rightarrow> string \<Rightarrow> string \<Rightarrow> ('m, ScrubResult option) service_action" where
  "Service_ScrubObject X M bucket key = on_store (Store_ScrubObject X M bucket key)"

definition Service_RepairObject :: "Externals \<Rightarrow> 'm MetadataStore \<Rightarrow> string \<Rightarrow> string \<Rightarrow> ('m, RepairResult option) service_action" where
  "Service_RepairObject X M bucket key = on_store (Store_RepairObject X M bucket key)"

text \<open>Methods of the store that return a result beside their error: the service keeps the result only without an error.\<close>

definition value_or_error :: "('m, 'a \<times> store_error option) action \<Rightarrow> ('m, 'a) action" where
  "value_or_error f = andThen f (\<lambda>(x, err). case err of None \<Rightarrow> ret x | Some e \<Rightarrow> throw e)"

definition PlanDedupe :: "nat \<Rightarrow> Externals \<Rightarrow> 'm MetadataStore \<Rightarrow> service_config \<Rightarrow> ('m, DedupeResult) service_action" where
  "PlanDedupe fuel X M cfg = on_store (value_or_error (Dedupe fuel X M \<lparr>dop_DryRun = True, dop_MaxFixes = sg_DedupeMaxFixes cfg\<rparr>))"

definition RunDedupe :: "nat \<Rightarrow> Externals \<Rightarrow> 'm MetadataStore \<Rightarrow> service_config \<Rightarrow> ('m, DedupeResult) service_action" where
  "RunDedupe fuel X M cfg = on_store (value_or_error (Dedupe fuel X M \<lparr>dop_DryRun = False, dop_MaxFixes = sg_DedupeMaxFixes cfg\<rparr>))"

definition Service_RebalanceNode :: "Externals \<Rightarrow> 'm MetadataStore \<Rightarrow> string \<Rightarrow> ('m, RebalanceResult) service_action" where
  "Service_RebalanceNode X M nodeID = on_store (RebalanceNode X M nodeID)"

definition Service_Recover :: "Externals \<Rightarrow> 'm MetadataStore \<Rightarrow> service_config \<Rightarrow> ('m, RecoveryResult) service_action" where
  "Service_Recover X M cfg =
     on_store (value_or_error (Recover X M \<lparr>ro_PendingTTL = sg_PendingObjectTTL cfg, ro_CleanupOrphanShards = True, ro_DryRun = False\<rparr>))"

definition Service_RecoveryPlan :: "Externals \<Rightarrow> 'm MetadataStore \<Rightarrow> service_config \<Rightarrow> ('m, RecoveryPlan) service_action" where
  "Service_RecoveryPlan X M cfg = on_store (value_or_error (PlanRecovery X M (sg_PendingObjectTTL cfg)))"

definition Service_RecoveryStatus :: "'m Service \<Rightarrow> RecoveryStatus" where
  "Service_RecoveryStatus s = Store_RecoveryStatus (os_store s)"

section \<open>Reaching the store\<close>

text \<open>Every method above is one action of the store; the service adds the wrapping and the event.\<close>

lemma on_store_result:
  "on_store f s = (s\<lparr>os_store := fst (f (os_store s))\<rparr>, map_sum (\<lambda>err. ErrWrap [err]) id (snd (f (os_store s))))"
  by (simp add: on_store_def split: prod.split)

lemma then_publish_store: "os_store (fst (then_publish e f s)) = os_store (fst (f s))" "snd (then_publish e f s) = snd (f s)"
  by (auto simp: then_publish_def publishObjectEvent_def split: prod.split sum.split)

end
