(* ===== verification/S3_Gateway.thy ===== *)
theory S3_Gateway
  imports S3_Auth S3_Multipart Object_Service Bytes_Range
begin

text \<open>
  The S3 gateway: \<open>service.go\<close>, \<open>request.go\<close>, \<open>response.go\<close>, \<open>headers.go\<close>, \<open>bucket_ops.go\<close>, \<open>copy.go\<close>, \<open>range.go\<close> and \<open>multipart.go\<close> under
  \<open>internal/s3\<close>. \<open>ServeHTTP\<close> authorizes a request, splits its path into a bucket and a key, and dispatches on the method and the query to
  a handler, which calls the object service or the store of multipart uploads.

  \<^item> A response is its status, its headers and a document. The XML text of a document, the request identifier and the
    \<open>Last-Modified\<close> header are not modelled.
  \<^item> Reading the XML of a request body and parsing an absolute URL are arguments (record \<open>Formats\<close>), as are the time and the random
    bytes of a request.
\<close>

section \<open>Requests and responses\<close>

record Formats =
  fx_complete :: "bytes \<Rightarrow> completeMultipartPart list option"
  fx_delete :: "bytes \<Rightarrow> (bool \<times> string list) option"
  fx_url_path :: "string \<Rightarrow> string option"

record Moment =
  mo_now :: time
  mo_random :: "bytes option"

record listPartsResult =
  lpr_Bucket :: string
  lpr_Key :: string
  lpr_UploadID :: string
  lpr_PartNumberMarker :: int
  lpr_NextPartNumberMarker :: int
  lpr_MaxParts :: int
  lpr_IsTruncated :: bool
  lpr_Parts :: "multipartPart list"

record listMultipartUploadsResult =
  lur_Bucket :: string
  lur_Prefix :: string
  lur_KeyMarker :: string
  lur_UploadIDMarker :: string
  lur_NextKeyMarker :: string
  lur_NextUploadIDMarker :: string
  lur_MaxUploads :: int
  lur_IsTruncated :: bool
  lur_Uploads :: "(string \<times> string \<times> time) list"

datatype document =
    NoDocument
  | ObjectBytes bytes
  | ErrorResult string
  | ListAllMyBuckets "(string \<times> time) list"
  | ListBucket listBucketResult
  | ListBucketV2 listBucketV2Result
  | BucketLocation string
  | DeleteResult "string list" "(string \<times> string) list"
  | CopyObjectResult time string
  | InitiateMultipartUpload string string string
  | ListParts listPartsResult
  | ListMultipartUploads listMultipartUploadsResult
  | CompleteMultipartUpload string string string string

record Response =
  rs_status :: nat
  rs_header :: http_header
  rs_body :: document

record 'm Gateway =
  gw_objects :: "'m Service"
  gw_multipart :: multipartStore

section \<open>Paths\<close>

definition compatPrefix :: string where "compatPrefix = ''/s3''"

text \<open>\<open>strings.Trim(path.Clean("/"+rawPath), "/")\<close>, as its components.\<close>

definition clean_components :: "string \<Rightarrow> string list" where
  "clean_components rawPath = clean_onto [] (split_on CHR ''/'' rawPath)"

text \<open>\<open>url.PathUnescape\<close>.\<close>

fun PathUnescape :: "string \<Rightarrow> string option" where
  "PathUnescape [] = Some []"
| "PathUnescape (c # s) =
     (if c = CHR ''%''
      then (case s of a # b # rest \<Rightarrow>
              (case (hex_value a, hex_value b) of
                 (Some x, Some y) \<Rightarrow> map_option (Cons (char_of (x * 16 + y))) (PathUnescape rest)
               | _ \<Rightarrow> None)
            | _ \<Rightarrow> None)
      else map_option (Cons c) (PathUnescape s))"

definition splitS3Path :: "string \<Rightarrow> (string \<times> string) option" where
  "splitS3Path rawPath =
     (case clean_components (trim_prefix rawPath compatPrefix) of
        [] \<Rightarrow> Some ([], [])
      | b # ks \<Rightarrow>
          (case PathUnescape b of
             None \<Rightarrow> None
           | Some bucket \<Rightarrow>
               if ks = [] then Some (bucket, [])
               else map_option (Pair bucket) (PathUnescape (join_with ''/'' ks))))"

definition isCompatPrefix :: "string \<Rightarrow> bool" where
  "isCompatPrefix rawPath \<longleftrightarrow> rawPath = compatPrefix \<or> has_prefix rawPath (compatPrefix @ ''/'')"

definition isReservedNativePath :: "string \<Rightarrow> bool" where
  "isReservedNativePath rawPath =
     (let cleaned = join_with ''/'' (clean_components rawPath)
      in has_prefix cleaned ''_'' \<or> cleaned = ''health'' \<or> cleaned = ''healthz'')"

definition hasS3Query :: "Externals \<Rightarrow> url_values \<Rightarrow> bool" where
  "hasS3Query X query =
     list_ex (\<lambda>key. ToLower X key \<in> {''list-type'', ''location'', ''uploads'', ''uploadid'', ''partnumber'', ''versionid'', ''versions'', ''delete''})
       (fm_keys query)"

definition hasS3Header :: "Externals \<Rightarrow> http_header \<Rightarrow> bool" where
  "hasS3Header X header = list_ex (\<lambda>key. has_prefix (ToLower X key) ''x-amz-'') (fm_keys header)"

definition Match :: "Externals \<Rightarrow> Request \<Rightarrow> bool" where
  "Match X r =
     (if isCompatPrefix (rq_Path r) then True
      else if isReservedNativePath (rq_Path r) then False
      else if hasS3Query X (rq_Query r) \<or> hasS3Header X (rq_Header r) then True
      else let auth = header_get (rq_Header r) ''Authorization''
           in has_prefix auth ''AWS '' \<or> has_prefix auth ''AWS4-HMAC-SHA256 '')"

section \<open>Headers\<close>

definition userMetadataFromHeaders :: "Externals \<Rightarrow> http_header \<Rightarrow> (string, string) fmap" where
  "userMetadataFromHeaders X headers =
     fold (\<lambda>(key, values) metadata.
         let lowerKey = ToLower X key in
         if \<not> has_prefix lowerKey ''x-amz-meta-'' then metadata
         else let name = trim_space (trim_prefix lowerKey ''x-amz-meta-''); value = trim_space (join_with '','' values)
              in if name = [] \<or> value = [] then metadata else fmupd name value metadata)
       (fm_entries headers) fmempty"

definition putOptionsFromHeaders :: "Externals \<Rightarrow> http_header \<Rightarrow> PutOptions" where
  "putOptionsFromHeaders X headers = \<lparr>po_ContentType = header_get headers ''Content-Type'', po_CacheControl = header_get headers ''Cache-Control'',
     po_ContentDisposition = header_get headers ''Content-Disposition'', po_ContentEncoding = header_get headers ''Content-Encoding'',
     po_ContentLanguage = header_get headers ''Content-Language'', po_UserMetadata = userMetadataFromHeaders X headers\<rparr>"

definition setHeaderIfNotEmpty :: "string \<Rightarrow> string \<Rightarrow> http_header \<Rightarrow> http_header" where
  "setHeaderIfNotEmpty key value headers = (let value = trim_space value in if value = [] then headers else header_set key value headers)"

definition writeObjectMetadataHeaders :: "Externals \<Rightarrow> ObjectMeta \<Rightarrow> http_header \<Rightarrow> http_header" where
  "writeObjectMetadataHeaders X meta headers =
     (let headers = setHeaderIfNotEmpty ''Cache-Control'' (om_cache_control meta) headers;
          headers = setHeaderIfNotEmpty ''Content-Disposition'' (om_content_disposition meta) headers;
          headers = setHeaderIfNotEmpty ''Content-Encoding'' (om_content_encoding meta) headers;
          headers = setHeaderIfNotEmpty ''Content-Language'' (om_content_language meta) headers
      in fold (\<lambda>(key, value) headers.
           let value = trim_space value in
           if trim_space key = [] \<or> value = [] then headers else header_set (''x-amz-meta-'' @ ToLower X key) value headers)
         (fm_entries (om_user_metadata meta)) headers)"

definition writeObjectHeaders :: "Externals \<Rightarrow> ObjectMeta \<Rightarrow> http_header" where
  "writeObjectHeaders X meta =
     (let headers = header_set ''Accept-Ranges'' ''bytes'' (header_set ''Content-Length'' (show_int (om_size meta)) (header_set ''ETag'' (om_etag meta) fmempty));
          headers = (if om_content_type meta \<noteq> [] then header_set ''Content-Type'' (om_content_type meta) headers else headers)
      in writeObjectMetadataHeaders X meta headers)"

section \<open>Responses\<close>

definition writeXML :: "nat \<Rightarrow> document \<Rightarrow> Response" where
  "writeXML status value = \<lparr>rs_status = status, rs_header = header_set ''Content-Type'' ''application/xml'' fmempty, rs_body = value\<rparr>"

definition writeError :: "nat \<Rightarrow> string \<Rightarrow> Response" where
  "writeError status code = writeXML status (ErrorResult code)"

definition writeStatus :: "nat \<Rightarrow> Response" where
  "writeStatus status = \<lparr>rs_status = status, rs_header = fmempty, rs_body = NoDocument\<rparr>"

definition mapError :: "store_error \<Rightarrow> nat \<times> string" where
  "mapError err =
     (if error_is err ErrBucketExists then (409, ''BucketAlreadyOwnedByYou'')
      else if error_is err ErrBucketNotFound then (404, ''NoSuchBucket'')
      else if error_is err ErrNotFound then (404, ''NoSuchKey'')
      else if error_is err ErrBadRequest then (400, ''InvalidArgument'')
      else (500, ''InternalError''))"

definition writeMappedError :: "store_error \<Rightarrow> Response" where
  "writeMappedError err = (case mapError err of (status, code) \<Rightarrow> writeError status code)"

definition methodNotAllowed :: Response where
  "methodNotAllowed = writeError 405 ''MethodNotAllowed''"

definition writeMultipartError :: "multipart_error \<Rightarrow> Response" where
  "writeMultipartError err =
     (case err of
        errNoSuchUpload \<Rightarrow> writeError 404 ''NoSuchUpload''
      | errInvalidPart \<Rightarrow> writeError 400 ''InvalidPart''
      | errInvalidPartOrder \<Rightarrow> writeError 400 ''InvalidPartOrder''
      | errMalformedXML \<Rightarrow> writeError 400 ''MalformedXML''
      | errEntityTooSmall \<Rightarrow> writeError 400 ''EntityTooSmall''
      | _ \<Rightarrow> writeError 400 ''InvalidArgument'')"

text \<open>The answer to a read: the status, headers and body of \<open>writeRangedObject\<close>; \<open>None\<close> is a panic.\<close>

definition ranged_headers :: "ranged_response \<Rightarrow> http_header \<Rightarrow> http_header" where
  "ranged_headers rr h =
     (let h = (case resp_content_length rr of None \<Rightarrow> h | Some v \<Rightarrow> header_set ''Content-Length'' v h)
      in case resp_content_range rr of None \<Rightarrow> h | Some v \<Rightarrow> header_set ''Content-Range'' v h)"

definition write_ranged :: "Externals \<Rightarrow> Request \<Rightarrow> bytes \<Rightarrow> ObjectMeta \<Rightarrow> Response option" where
  "write_ranged X r body meta =
     (case writeRangedObject (header_get (rq_Header r) ''Range'') (om_size meta) (Some body) of
        None \<Rightarrow> None
      | Some rr \<Rightarrow>
          Some (if resp_status rr = 416
                then (writeError 416 ''InvalidRange'')\<lparr>rs_header := ranged_headers rr (rs_header (writeError 416 ''InvalidRange''))\<rparr>
                else \<lparr>rs_status = resp_status rr, rs_header = ranged_headers rr (writeObjectHeaders X meta), rs_body = ObjectBytes (resp_body rr)\<rparr>))"

section \<open>Calls\<close>

type_synonym 'm handler = "'m Gateway \<Rightarrow> 'm Gateway \<times> Response"

text \<open>Call the object service; on an error, write the mapped error and return.\<close>

definition call :: "('m, 'a) service_action \<Rightarrow> ('a \<Rightarrow> 'm handler) \<Rightarrow> 'm handler" where
  "call f k g = (case f (gw_objects g) of
     (s, Inl err) \<Rightarrow> (g\<lparr>gw_objects := s\<rparr>, writeMappedError err)
   | (s, Inr x) \<Rightarrow> k x (g\<lparr>gw_objects := s\<rparr>))"

definition call_multipart :: "'a mp_action \<Rightarrow> ('a \<Rightarrow> 'm handler) \<Rightarrow> 'm handler" where
  "call_multipart f k g = (case f (gw_multipart g) of
     (m, Inl err) \<Rightarrow> (g\<lparr>gw_multipart := m\<rparr>, writeMultipartError err)
   | (m, Inr x) \<Rightarrow> k x (g\<lparr>gw_multipart := m\<rparr>))"

definition respond :: "Response \<Rightarrow> 'm handler" where
  "respond resp g = (g, resp)"

section \<open>Buckets\<close>

definition handleService :: "'m MetadataStore \<Rightarrow> Moment \<Rightarrow> Request \<Rightarrow> 'm handler" where
  "handleService M t r =
     (if rq_Method r \<noteq> ''GET'' then respond methodNotAllowed
      else call (Service_ListBuckets M) (\<lambda>buckets.
        respond (writeXML 200 (ListAllMyBuckets (map (\<lambda>b. (bkt_name b, formatS3Time (mo_now t) (bkt_created b))) buckets)))))"

definition handleHeadBucket :: "'m MetadataStore \<Rightarrow> string \<Rightarrow> 'm handler" where
  "handleHeadBucket M bucket = call (Service_ListObjects M bucket []) (\<lambda>_. respond (writeStatus 200))"

definition handleGetBucketLocation :: "'m MetadataStore \<Rightarrow> s3_config \<Rightarrow> string \<Rightarrow> 'm handler" where
  "handleGetBucketLocation M cfg bucket = call (Service_ListObjects M bucket []) (\<lambda>_. respond (writeXML 200 (BucketLocation (region cfg))))"

definition handleCreateBucket :: "'m MetadataStore \<Rightarrow> string \<Rightarrow> 'm handler" where
  "handleCreateBucket M bucket =
     call (Service_CreateBucket M bucket) (\<lambda>_. respond ((writeStatus 200)\<lparr>rs_header := header_set ''Location'' (''/'' @ bucket) fmempty\<rparr>))"

definition handleDeleteBucket :: "Externals \<Rightarrow> 'm MetadataStore \<Rightarrow> string \<Rightarrow> 'm handler" where
  "handleDeleteBucket X M bucket = call (Service_DeleteBucket X M bucket) (\<lambda>_. respond (writeStatus 204))"

definition listObjectsResult :: "time \<Rightarrow> string \<Rightarrow> listObjectsOptions \<Rightarrow> ObjectMeta list \<Rightarrow> document" where
  "listObjectsResult now bucket opts objects =
     (if lo_V2 opts then ListBucketV2 (listObjectsV2Result now bucket opts objects) else ListBucket (listObjectsV1Result now bucket opts objects))"

definition handleListObjects :: "'m MetadataStore \<Rightarrow> Moment \<Rightarrow> Request \<Rightarrow> string \<Rightarrow> 'm handler" where
  "handleListObjects M t r bucket =
     (let opts = listObjectsOptionsFromQuery (rq_Query r)
      in call (Service_ListObjects M bucket (lo_Prefix opts)) (\<lambda>objects.
           respond (writeXML 200 (listObjectsResult (mo_now t) bucket opts objects))))"

text \<open>One object of a multiple deletion: its key, or its key and the code of the error. A missing object counts as deleted.\<close>

definition deleteObjectItem :: "Externals \<Rightarrow> 'm MetadataStore \<Rightarrow> string \<Rightarrow> string \<Rightarrow> 'm Gateway \<Rightarrow> 'm Gateway \<times> (string \<times> string + string)" where
  "deleteObjectItem X M bucket key g =
     (if key = [] then (g, Inl (key, ''InvalidArgument''))
      else case Service_DeleteObject X M bucket key (gw_objects g) of
        (s, Inl err) \<Rightarrow> (g\<lparr>gw_objects := s\<rparr>, if error_is err ErrNotFound then Inr key else Inl (key, snd (mapError err)))
      | (s, Inr _) \<Rightarrow> (g\<lparr>gw_objects := s\<rparr>, Inr key))"

fun delete_items :: "Externals \<Rightarrow> 'm MetadataStore \<Rightarrow> string \<Rightarrow> string list \<Rightarrow> 'm Gateway \<Rightarrow> 'm Gateway \<times> (string \<times> string + string) list" where
  "delete_items X M bucket [] g = (g, [])"
| "delete_items X M bucket (key # keys) g =
     (case deleteObjectItem X M bucket (trim_space key) g of
        (g, item) \<Rightarrow> (case delete_items X M bucket keys g of (g, items) \<Rightarrow> (g, item # items)))"

definition decodeDeleteObjectsRequest :: "Formats \<Rightarrow> Request \<Rightarrow> (bool \<times> string list) option" where
  "decodeDeleteObjectsRequest F r =
     (case rq_Body r of
        Inl _ \<Rightarrow> None
      | Inr body \<Rightarrow> (case fx_delete F body of None \<Rightarrow> None | Some (quiet, objects) \<Rightarrow> if objects = [] then None else Some (quiet, objects)))"

definition handleDeleteObjects :: "Externals \<Rightarrow> Formats \<Rightarrow> 'm MetadataStore \<Rightarrow> Request \<Rightarrow> string \<Rightarrow> 'm handler" where
  "handleDeleteObjects X F M r bucket g =
     (case decodeDeleteObjectsRequest F r of
        None \<Rightarrow> (g, writeError 400 ''MalformedXML'')
      | Some (quiet, objects) \<Rightarrow>
          (case delete_items X M bucket objects g of
             (g, items) \<Rightarrow>
               (g, writeXML 200 (DeleteResult
                 (if quiet then [] else concat (map (case_sum (\<lambda>_. []) (\<lambda>key. [key])) items))
                 (concat (map (case_sum (\<lambda>err. [err]) (\<lambda>_. [])) items))))))"

section \<open>Multipart uploads\<close>

definition unix_nano :: "time \<Rightarrow> int" where
  "unix_nano t = wrap64 (t - 62135596800 * 1000000000)"

definition handleListMultipartUploads :: "Moment \<Rightarrow> Request \<Rightarrow> string \<Rightarrow> 'm handler" where
  "handleListMultipartUploads t r bucket =
     (case listMultipartUploadsOptionsFromQuery (rq_Query r) of
        Inl err \<Rightarrow> respond (writeMultipartError err)
      | Inr options \<Rightarrow>
          call_multipart (listBucket bucket) (\<lambda>uploads.
            case paginateMultipartUploads (filterMultipartUploads uploads options) options of
              (page, next, truncated) \<Rightarrow>
                respond (writeXML 200 (ListMultipartUploads \<lparr>lur_Bucket = bucket, lur_Prefix = lu_Prefix options, lur_KeyMarker = lu_KeyMarker options,
                  lur_UploadIDMarker = lu_UploadIDMarker options, lur_NextKeyMarker = (case next of None \<Rightarrow> [] | Some u \<Rightarrow> mu_Key u),
                  lur_NextUploadIDMarker = (case next of None \<Rightarrow> [] | Some u \<Rightarrow> mu_UploadID u), lur_MaxUploads = lu_MaxUploads options,
                  lur_IsTruncated = truncated,
                  lur_Uploads = map (\<lambda>u. (mu_Key u, mu_UploadID u, formatS3Time (mo_now t) (mu_CreatedAt u))) page\<rparr>))))"

definition handleInitiateMultipartUpload :: "Externals \<Rightarrow> Moment \<Rightarrow> Request \<Rightarrow> string \<Rightarrow> string \<Rightarrow> 'm handler" where
  "handleInitiateMultipartUpload X t r bucket key =
     call_multipart (initiate X (newUploadID (mo_random t) (unix_nano (mo_now t))) (mo_now t) bucket key (putOptionsFromHeaders X (rq_Header r))) (\<lambda>upload.
       respond (writeXML 200 (InitiateMultipartUpload (mu_Bucket upload) (mu_Key upload) (mu_UploadID upload))))"

definition handleUploadPart :: "Moment \<Rightarrow> Request \<Rightarrow> string \<Rightarrow> string \<Rightarrow> string \<Rightarrow> 'm handler" where
  "handleUploadPart t r bucket key uploadID =
     (case parsePartNumber (rq_Query r) of
        Inl err \<Rightarrow> respond (writeMultipartError err)
      | Inr partNumber \<Rightarrow>
          call_multipart (putPart uploadID bucket key partNumber (mo_now t) (rq_Body r)) (\<lambda>part.
            respond ((writeStatus 200)\<lparr>rs_header := header_set ''ETag'' (mpp_ETag part) fmempty\<rparr>)))"

definition handleListParts :: "Moment \<Rightarrow> Request \<Rightarrow> string \<Rightarrow> 'm handler" where
  "handleListParts t r uploadID =
     call_multipart (loadLocked uploadID) (\<lambda>upload.
       case listPartsOptionsFromQuery (rq_Query r) of
         Inl err \<Rightarrow> respond (writeMultipartError err)
       | Inr options \<Rightarrow>
           (case paginateMultipartParts (sortedMultipartParts (mu_Parts upload)) options of
              (page, nextMarker, truncated) \<Rightarrow>
                respond (writeXML 200 (ListParts \<lparr>lpr_Bucket = mu_Bucket upload, lpr_Key = mu_Key upload, lpr_UploadID = mu_UploadID upload,
                  lpr_PartNumberMarker = lp_PartNumberMarker options, lpr_NextPartNumberMarker = nextMarker, lpr_MaxParts = lp_MaxParts options,
                  lpr_IsTruncated = truncated,
                  lpr_Parts = map (\<lambda>p. p\<lparr>mpp_UploadedAt := formatS3Time (mo_now t) (mpp_UploadedAt p)\<rparr>) page\<rparr>))))"

definition decodeCompleteMultipartUpload :: "Formats \<Rightarrow> Request \<Rightarrow> multipart_error + completeMultipartPart list" where
  "decodeCompleteMultipartUpload F r =
     (case rq_Body r of
        Inl _ \<Rightarrow> Inl errMalformedXML
      | Inr body \<Rightarrow> (case fx_complete F body of None \<Rightarrow> Inl errMalformedXML | Some parts \<Rightarrow> Inr parts))"

definition upload_options :: "multipartUpload \<Rightarrow> PutOptions" where
  "upload_options upload = \<lparr>po_ContentType = mu_ContentType upload, po_CacheControl = mu_CacheControl upload,
     po_ContentDisposition = mu_ContentDisposition upload, po_ContentEncoding = mu_ContentEncoding upload,
     po_ContentLanguage = mu_ContentLanguage upload, po_UserMetadata = mu_UserMetadata upload\<rparr>"

text \<open>Closing the assembled file is a call of the operating system.\<close>

definition handleCompleteMultipartUpload :: "Externals \<Rightarrow> Formats \<Rightarrow> 'm MetadataStore \<Rightarrow> Request \<Rightarrow> string \<Rightarrow> 'm handler" where
  "handleCompleteMultipartUpload X F M r uploadID =
     (case decodeCompleteMultipartUpload F r of
        Inl err \<Rightarrow> respond (writeMultipartError err)
      | Inr request \<Rightarrow>
          call_multipart (assemble uploadID request) (\<lambda>(assembled, upload) g.
            case Service_PutObject X M (mu_Bucket upload) (mu_Key upload) (Inr (as_file assembled)) (upload_options upload) (gw_objects g) of
              (s, putErr) \<Rightarrow>
                (case mp_io ''close multipart assembly'' (\<lambda>dirs. dirs) (gw_multipart g) of
                   (m, closeErr) \<Rightarrow>
                     let g = g\<lparr>gw_objects := s, gw_multipart := m\<rparr> in
                     (case putErr of
                        Inl err \<Rightarrow> (g, writeMappedError err)
                      | Inr _ \<Rightarrow>
                          (case closeErr of
                             Inl err \<Rightarrow> (g, writeMultipartError err)
                           | Inr _ \<Rightarrow>
                               call_multipart (abort (mu_UploadID upload)) (\<lambda>_.
                                 respond (writeXML 200 (CompleteMultipartUpload (''/'' @ mu_Bucket upload @ ''/'' @ mu_Key upload)
                                   (mu_Bucket upload) (mu_Key upload) (as_etag assembled)))) g)))))"

definition handleAbortMultipartUpload :: "string \<Rightarrow> 'm handler" where
  "handleAbortMultipartUpload uploadID = call_multipart (abort uploadID) (\<lambda>_. respond (writeStatus 204))"

text \<open>\<open>None\<close> when the request is not about a multipart upload.\<close>

definition handleMultipartObject :: "Externals \<Rightarrow> Formats \<Rightarrow> 'm MetadataStore \<Rightarrow> Moment \<Rightarrow> Request \<Rightarrow> string \<Rightarrow> string \<Rightarrow> 'm handler option" where
  "handleMultipartObject X F M t r bucket key =
     (if rq_Method r = ''POST'' \<and> hasQueryKey (rq_Query r) ''uploads'' then Some (handleInitiateMultipartUpload X t r bucket key)
      else let uploadID = queryValue (rq_Query r) ''uploadId'' in
        if uploadID = [] then None
        else if rq_Method r = ''PUT'' then Some (handleUploadPart t r bucket key uploadID)
        else if rq_Method r = ''GET'' then Some (handleListParts t r uploadID)
        else if rq_Method r = ''POST'' then Some (handleCompleteMultipartUpload X F M r uploadID)
        else if rq_Method r = ''DELETE'' then Some (handleAbortMultipartUpload uploadID)
        else Some (respond methodNotAllowed))"

section \<open>Objects\<close>

definition handleHeadObject :: "Externals \<Rightarrow> 'm MetadataStore \<Rightarrow> string \<Rightarrow> string \<Rightarrow> 'm handler" where
  "handleHeadObject X M bucket key =
     call (Service_StatObject M bucket key) (\<lambda>meta. respond \<lparr>rs_status = 200, rs_header = writeObjectHeaders X meta, rs_body = NoDocument\<rparr>)"

text \<open>A panic ends the request; the HTTP server answers nothing, which the model gives the status 0.\<close>

definition handleGetObject :: "Externals \<Rightarrow> 'm MetadataStore \<Rightarrow> Request \<Rightarrow> string \<Rightarrow> string \<Rightarrow> 'm handler" where
  "handleGetObject X M r bucket key =
     call (Service_GetObject X M bucket key) (\<lambda>(body, meta).
       case write_ranged X r body meta of None \<Rightarrow> respond (writeStatus 0) | Some resp \<Rightarrow> respond resp)"

definition handlePutObject :: "Externals \<Rightarrow> 'm MetadataStore \<Rightarrow> Request \<Rightarrow> string \<Rightarrow> string \<Rightarrow> 'm handler" where
  "handlePutObject X M r bucket key =
     call (Service_PutObject X M bucket key (rq_Body r) (putOptionsFromHeaders X (rq_Header r))) (\<lambda>meta.
       respond \<lparr>rs_status = 200, rs_header = writeObjectHeaders X meta, rs_body = NoDocument\<rparr>)"

definition handleDeleteObject :: "Externals \<Rightarrow> 'm MetadataStore \<Rightarrow> string \<Rightarrow> string \<Rightarrow> 'm handler" where
  "handleDeleteObject X M bucket key = call (Service_DeleteObject X M bucket key) (\<lambda>_. respond (writeStatus 204))"

definition parseCopySource :: "Formats \<Rightarrow> string \<Rightarrow> (string \<times> string) option" where
  "parseCopySource F value =
     (let value = trim_space value in
      if value = [] then None
      else let value = (case fx_url_path F value of
               Some escapedPath \<Rightarrow> escapedPath
             | None \<Rightarrow> (case cut_at CHR ''?'' value of Some (before, _) \<Rightarrow> before | None \<Rightarrow> value))
           in case splitS3Path value of
                None \<Rightarrow> None
              | Some (bucket, key) \<Rightarrow> if bucket = [] \<or> key = [] then None else Some (bucket, key))"

definition upper_directive :: "string \<Rightarrow> string" where
  "upper_directive value = map upper_char (trim_space value)"

definition copyObjectPutOptions :: "Externals \<Rightarrow> ObjectMeta \<Rightarrow> http_header \<Rightarrow> PutOptions option" where
  "copyObjectPutOptions X source headers =
     (let directive = upper_directive (header_get headers ''x-amz-metadata-directive'') in
      if directive = [] \<or> directive = ''COPY''
      then Some \<lparr>po_ContentType = om_content_type source, po_CacheControl = om_cache_control source,
             po_ContentDisposition = om_content_disposition source, po_ContentEncoding = om_content_encoding source,
             po_ContentLanguage = om_content_language source, po_UserMetadata = om_user_metadata source\<rparr>
      else if directive = ''REPLACE'' then Some (putOptionsFromHeaders X headers)
      else None)"

definition handleCopyObject :: "Externals \<Rightarrow> Formats \<Rightarrow> 'm MetadataStore \<Rightarrow> Moment \<Rightarrow> Request \<Rightarrow> string \<Rightarrow> string \<Rightarrow> 'm handler" where
  "handleCopyObject X F M t r bucket key =
     (case parseCopySource F (header_get (rq_Header r) ''x-amz-copy-source'') of
        None \<Rightarrow> respond (writeError 400 ''InvalidArgument'')
      | Some (sourceBucket, sourceKey) \<Rightarrow>
          call (Service_GetObject X M sourceBucket sourceKey) (\<lambda>(body, sourceMeta).
            case copyObjectPutOptions X sourceMeta (rq_Header r) of
              None \<Rightarrow> respond (writeError 400 ''InvalidArgument'')
            | Some opts \<Rightarrow>
                call (Service_PutObject X M bucket key (Inr body) opts) (\<lambda>meta.
                  respond ((writeXML 200 (CopyObjectResult (formatS3Time (mo_now t) (om_updated meta)) (om_etag meta)))
                    \<lparr>rs_header := header_set ''ETag'' (om_etag meta) (header_set ''Content-Type'' ''application/xml'' fmempty)\<rparr>))))"

section \<open>Dispatch\<close>

definition handleBucket :: "Externals \<Rightarrow> Formats \<Rightarrow> 'm MetadataStore \<Rightarrow> s3_config \<Rightarrow> Moment \<Rightarrow> Request \<Rightarrow> string \<Rightarrow> 'm handler" where
  "handleBucket X F M cfg t r bucket =
     (if rq_Method r = ''HEAD'' then handleHeadBucket M bucket
      else if rq_Method r = ''GET'' then
        (if hasQueryKey (rq_Query r) ''location'' then handleGetBucketLocation M cfg bucket
         else if hasQueryKey (rq_Query r) ''uploads'' then handleListMultipartUploads t r bucket
         else handleListObjects M t r bucket)
      else if rq_Method r = ''POST'' then
        (if hasQueryKey (rq_Query r) ''delete'' then handleDeleteObjects X F M r bucket else respond methodNotAllowed)
      else if rq_Method r = ''PUT'' then handleCreateBucket M bucket
      else if rq_Method r = ''DELETE'' then handleDeleteBucket X M bucket
      else respond methodNotAllowed)"

definition handleObject :: "Externals \<Rightarrow> Formats \<Rightarrow> 'm MetadataStore \<Rightarrow> Moment \<Rightarrow> Request \<Rightarrow> string \<Rightarrow> string \<Rightarrow> 'm handler" where
  "handleObject X F M t r bucket key =
     (case handleMultipartObject X F M t r bucket key of
        Some handler \<Rightarrow> handler
      | None \<Rightarrow>
          if rq_Method r = ''HEAD'' then handleHeadObject X M bucket key
          else if rq_Method r = ''GET'' then handleGetObject X M r bucket key
          else if rq_Method r = ''PUT'' then
            (if header_get (rq_Header r) ''x-amz-copy-source'' \<noteq> [] then handleCopyObject X F M t r bucket key else handlePutObject X M r bucket key)
          else if rq_Method r = ''DELETE'' then handleDeleteObject X M bucket key
          else respond methodNotAllowed)"

definition ServeHTTP :: "Externals \<Rightarrow> Formats \<Rightarrow> 'm MetadataStore \<Rightarrow> s3_config \<Rightarrow> Moment \<Rightarrow> Request \<Rightarrow> 'm handler" where
  "ServeHTTP X F M cfg t r =
     (case authorize X cfg (mo_now t) r of
        Some _ \<Rightarrow> respond (writeError 403 ''AccessDenied'')
      | None \<Rightarrow>
          (case splitS3Path (rq_Path r) of
             None \<Rightarrow> respond (writeError 400 ''InvalidURI'')
           | Some (bucket, key) \<Rightarrow>
               if bucket = [] then handleService M t r
               else if key = [] then handleBucket X F M cfg t r bucket
               else handleObject X F M t r bucket key))"

end
