(* ===== verification/Gateway_Refinement.thy ===== *)
theory Gateway_Refinement
  imports S3_Gateway Multipart_Uploads Store_Refinement Metadata_Listing
begin

text \<open>
  What the S3 gateway promises. \<open>s3_step\<close> says, for every kind of request, what it may do to the catalogue of buckets and objects and to
  the uploads, and what it answers then. \<open>gateway_steps\<close> shows that \<open>ServeHTTP\<close>, with the object service, the store, the engine and the store of uploads behind it,
  takes such a step on every request with clean names, whatever writes and deletions of the engine and calls of the file system fail.
\<close>

section \<open>The specification\<close>

definition at_bucket :: "Request \<Rightarrow> string \<Rightarrow> bool" where
  "at_bucket r b \<longleftrightarrow> splitS3Path (rq_Path r) = Some (b, []) \<and> b \<noteq> []"

definition at_object :: "Request \<Rightarrow> string \<Rightarrow> string \<Rightarrow> bool" where
  "at_object r b k \<longleftrightarrow> splitS3Path (rq_Path r) = Some (b, k) \<and> b \<noteq> [] \<and> k \<noteq> []"

definition upload_of :: "Request \<Rightarrow> string" where
  "upload_of r = queryValue (rq_Query r) ''uploadId''"

definition at_plain :: "Request \<Rightarrow> string \<Rightarrow> string \<Rightarrow> bool" where
  "at_plain r b k \<longleftrightarrow> at_object r b k \<and> upload_of r = []"

definition starts_upload :: "Request \<Rightarrow> bool" where
  "starts_upload r \<longleftrightarrow> rq_Method r = ''POST'' \<and> hasQueryKey (rq_Query r) ''uploads''"

definition copies :: "Request \<Rightarrow> bool" where
  "copies r \<longleftrightarrow> header_get (rq_Header r) ''x-amz-copy-source'' \<noteq> []"

definition known_method :: "Request \<Rightarrow> string \<Rightarrow> string \<Rightarrow> bool" where
  "known_method r b k =
     (if b = [] then rq_Method r = ''GET''
      else if k = [] then rq_Method r \<in> {''HEAD'', ''GET'', ''PUT'', ''DELETE''} \<or> rq_Method r = ''POST'' \<and> hasQueryKey (rq_Query r) ''delete''
      else if starts_upload r then True
      else if upload_of r \<noteq> [] then rq_Method r \<in> {''PUT'', ''GET'', ''POST'', ''DELETE''}
      else rq_Method r \<in> {''HEAD'', ''GET'', ''PUT'', ''DELETE''})"

definition resp_code :: "Response \<Rightarrow> nat \<times> string" where
  "resp_code resp = (rs_status resp, (case rs_body resp of ErrorResult code \<Rightarrow> code | _ \<Rightarrow> []))"

definition failed :: "Response \<Rightarrow> bool" where
  "failed resp \<longleftrightarrow> 400 \<le> rs_status resp"

text \<open>The objects a listing is made of.\<close>

definition listed :: "catalogue \<Rightarrow> string \<Rightarrow> string \<Rightarrow> ObjectMeta list \<Rightarrow> bool" where
  "listed C b p objects \<longleftrightarrow> sorted (map om_key objects) \<and> distinct (map om_key objects) \<and>
     set (map om_key objects) = {k. cat_objects C (b, k) \<noteq> None \<and> has_prefix k p}"

definition stored :: "catalogue \<Rightarrow> string \<Rightarrow> string \<Rightarrow> bytes \<Rightarrow> catalogue" where
  "stored C b k d = C\<lparr>cat_objects := (cat_objects C)((b, k) \<mapsto> d)\<rparr>"

definition removed :: "catalogue \<Rightarrow> string \<Rightarrow> string \<Rightarrow> catalogue" where
  "removed C b k = C\<lparr>cat_objects := (cat_objects C)((b, k) := None)\<rparr>"

text \<open>A multiple deletion: only named objects go, those reported as deleted are gone, and every name is reported in one of the two lists.\<close>

definition swept :: "string \<Rightarrow> string list \<Rightarrow> string list \<Rightarrow> (string \<times> string) list \<Rightarrow> object_map \<Rightarrow> object_map \<Rightarrow> bool" where
  "swept b keys gone errors A A' \<longleftrightarrow> thinned b A A' \<and> (\<forall>k. k \<notin> set keys \<longrightarrow> A' (b, k) = A (b, k)) \<and>
     (\<forall>k \<in> set gone. A' (b, k) = None) \<and> set keys = set gone \<union> fst ` set errors"

text \<open>The answer to a read: the bytes the range asks for, or all of them.\<close>

definition answers_read :: "Request \<Rightarrow> bytes \<Rightarrow> Response \<Rightarrow> bool" where
  "answers_read r d resp =
     (case Parse (header_get (rq_Header r) ''Range'') (int (length d)) of
        Inl _ \<Rightarrow> resp_code resp = (416, ''InvalidRange'')
      | Inr spec \<Rightarrow>
          if spec_partial spec
          then rs_status resp = 206 \<and> (\<exists>pre part post. rs_body resp = ObjectBytes part \<and> d = pre @ part @ post \<and>
            int (length pre) = spec_start spec \<and> int (length part) = spec_end spec + 1 - spec_start spec)
          else rs_status resp = 200 \<and> rs_body resp = ObjectBytes d)"

text \<open>The response to a request about an upload.\<close>

definition upload_reply :: "multipart_reply \<Rightarrow> Response \<Rightarrow> bool" where
  "upload_reply rep resp =
     (case rep of
        Created uid \<Rightarrow> rs_status resp = 200 \<and> (\<exists>b k. rs_body resp = InitiateMultipartUpload b k uid)
      | PartStored etag \<Rightarrow> rs_status resp = 200 \<and> header_get (rs_header resp) ''ETag'' = etag
      | Aborted \<Rightarrow> resp = writeStatus 204
      | Rejected err \<Rightarrow> resp = writeMultipartError err
      | Assembled d etag \<Rightarrow> False)"

definition upload_request :: "Externals \<Rightarrow> Moment \<Rightarrow> Request \<Rightarrow> string \<Rightarrow> string \<Rightarrow> multipart_op \<Rightarrow> bool" where
  "upload_request X t r b k c \<longleftrightarrow>
     (if starts_upload r
      then c = OpInitiate (newUploadID (mo_random t) (unix_nano (mo_now t))) (mo_now t) b k (putOptionsFromHeaders X (rq_Header r))
      else if upload_of r = [] then False
      else if rq_Method r = ''PUT''
      then (\<exists>n. parsePartNumber (rq_Query r) = Inr n \<and> c = OpPutPart (upload_of r) b k n (mo_now t) (rq_Body r))
      else rq_Method r = ''DELETE'' \<and> c = OpAbort (upload_of r))"

inductive s3_step :: "Externals \<Rightarrow> Formats \<Rightarrow> s3_config \<Rightarrow> Moment \<Rightarrow> Request \<Rightarrow> catalogue \<times> uploads \<Rightarrow> Response \<Rightarrow> catalogue \<times> uploads \<Rightarrow> bool"
  for X F cfg t r where
  denied: "authorize X cfg (mo_now t) r \<noteq> None \<Longrightarrow> s3_step X F cfg t r S (writeError 403 ''AccessDenied'') S"
| malformed: "splitS3Path (rq_Path r) = None \<Longrightarrow> s3_step X F cfg t r S (writeError 400 ''InvalidURI'') S"
| not_allowed: "splitS3Path (rq_Path r) = Some (b, k) \<Longrightarrow> \<not> known_method r b k \<Longrightarrow> s3_step X F cfg t r S methodNotAllowed S"
| buckets: "splitS3Path (rq_Path r) = Some ([], k) \<Longrightarrow> set (map fst bs) = cat_buckets C \<Longrightarrow> sorted (map fst bs) \<Longrightarrow> distinct (map fst bs) \<Longrightarrow>
    s3_step X F cfg t r (C, A) (writeXML 200 (ListAllMyBuckets bs)) (C, A)"
| bucket: "at_bucket r b \<Longrightarrow> b \<in> cat_buckets C \<Longrightarrow> rq_Method r = ''HEAD'' \<and> resp = writeStatus 200 \<or>
      rq_Method r = ''GET'' \<and> resp = writeXML 200 (BucketLocation (region cfg)) \<Longrightarrow>
    s3_step X F cfg t r (C, A) resp (C, A)"
| list: "at_bucket r b \<Longrightarrow> b \<in> cat_buckets C \<Longrightarrow> listed C b (query_get (rq_Query r) ''prefix'') objects \<Longrightarrow>
    s3_step X F cfg t r (C, A) (writeXML 200 (listObjectsResult (mo_now t) b (listObjectsOptionsFromQuery (rq_Query r)) objects)) (C, A)"
| no_bucket: "at_bucket r b \<Longrightarrow> b \<notin> cat_buckets C \<Longrightarrow> rq_Method r \<in> {''HEAD'', ''GET''} \<Longrightarrow> failed resp \<Longrightarrow> s3_step X F cfg t r (C, A) resp (C, A)"
| list_uploads: "at_bucket r b \<Longrightarrow> rq_Method r = ''GET'' \<Longrightarrow> hasQueryKey (rq_Query r) ''uploads'' \<Longrightarrow> s3_step X F cfg t r (C, A) resp (C, A)"
| create: "at_bucket r b \<Longrightarrow> rq_Method r = ''PUT'' \<Longrightarrow> b \<notin> cat_buckets C \<Longrightarrow> rs_status resp = 200 \<Longrightarrow>
    s3_step X F cfg t r (C, A) resp (C\<lparr>cat_buckets := insert b (cat_buckets C)\<rparr>, A)"
| create_exists: "at_bucket r b \<Longrightarrow> rq_Method r = ''PUT'' \<Longrightarrow> b \<in> cat_buckets C \<Longrightarrow> failed resp \<Longrightarrow> s3_step X F cfg t r (C, A) resp (C, A)"
| delete_bucket: "at_bucket r b \<Longrightarrow> rq_Method r = ''DELETE'' \<Longrightarrow> b \<in> cat_buckets C \<Longrightarrow>
    s3_step X F cfg t r (C, A) (writeStatus 204) (C\<lparr>cat_buckets := cat_buckets C - {b}, cat_objects := emptied b (cat_objects C)\<rparr>, A)"
| delete_bucket_failed: "at_bucket r b \<Longrightarrow> rq_Method r = ''DELETE'' \<Longrightarrow> failed resp \<Longrightarrow> thinned b (cat_objects C) M \<Longrightarrow>
    s3_step X F cfg t r (C, A) resp (C\<lparr>cat_objects := M\<rparr>, A)"
| delete_many: "at_bucket r b \<Longrightarrow> decodeDeleteObjectsRequest F r = Some (quiet, keys) \<Longrightarrow> swept b (map trim_space keys) gone errors (cat_objects C) M \<Longrightarrow>
    s3_step X F cfg t r (C, A) (writeXML 200 (DeleteResult (if quiet then [] else gone) errors)) (C\<lparr>cat_objects := M\<rparr>, A)"
| delete_many_malformed: "at_bucket r b \<Longrightarrow> decodeDeleteObjectsRequest F r = None \<Longrightarrow> s3_step X F cfg t r S (writeError 400 ''MalformedXML'') S"
| get: "at_plain r b k \<Longrightarrow> rq_Method r = ''GET'' \<Longrightarrow> cat_objects C (b, k) = Some d \<Longrightarrow> answers_read r d resp \<Longrightarrow> s3_step X F cfg t r (C, A) resp (C, A)"
| missing: "at_plain r b k \<Longrightarrow> rq_Method r \<in> {''GET'', ''HEAD'', ''DELETE''} \<Longrightarrow> cat_objects C (b, k) = None \<Longrightarrow>
    s3_step X F cfg t r (C, A) (writeError 404 ''NoSuchKey'') (C, A)"
| head: "at_plain r b k \<Longrightarrow> rq_Method r = ''HEAD'' \<Longrightarrow> cat_objects C (b, k) = Some d \<Longrightarrow> rs_status resp = 200 \<Longrightarrow> s3_step X F cfg t r (C, A) resp (C, A)"
| put: "at_plain r b k \<Longrightarrow> rq_Method r = ''PUT'' \<Longrightarrow> \<not> copies r \<Longrightarrow> rq_Body r = Inr d \<Longrightarrow> b \<in> cat_buckets C \<Longrightarrow> rs_status resp = 200 \<Longrightarrow>
    s3_step X F cfg t r (C, A) resp (stored C b k d, A)"
| copy: "at_plain r b k \<Longrightarrow> rq_Method r = ''PUT'' \<Longrightarrow> parseCopySource F (header_get (rq_Header r) ''x-amz-copy-source'') = Some (sb, sk) \<Longrightarrow>
    cat_objects C (sb, sk) = Some d \<Longrightarrow> b \<in> cat_buckets C \<Longrightarrow> rs_status resp = 200 \<Longrightarrow> s3_step X F cfg t r (C, A) resp (stored C b k d, A)"
| put_failed: "at_plain r b k \<Longrightarrow> rq_Method r = ''PUT'' \<Longrightarrow> failed resp \<Longrightarrow> s3_step X F cfg t r (C, A) resp (C, A)"
| put_late: "at_plain r b k \<Longrightarrow> rq_Method r = ''PUT'' \<Longrightarrow> failed resp \<Longrightarrow> b \<in> cat_buckets C \<Longrightarrow> rq_Body r = Inr d \<or> copies r \<and> (\<exists>s. cat_objects C s = Some d) \<Longrightarrow>
    s3_step X F cfg t r (C, A) resp (stored C b k d, A)"
| delete: "at_plain r b k \<Longrightarrow> rq_Method r = ''DELETE'' \<Longrightarrow> cat_objects C (b, k) = Some d \<Longrightarrow> resp = writeStatus 204 \<or> failed resp \<Longrightarrow>
    s3_step X F cfg t r (C, A) resp (removed C b k, A)"
| upload: "at_object r b k \<Longrightarrow> upload_request X t r b k c \<Longrightarrow> upload_step c A rep A' \<Longrightarrow> upload_reply rep resp \<Longrightarrow>
    s3_step X F cfg t r (C, A) resp (C, A')"
| upload_number: "at_object r b k \<Longrightarrow> upload_of r \<noteq> [] \<Longrightarrow> rq_Method r = ''PUT'' \<Longrightarrow> parsePartNumber (rq_Query r) = Inl err \<Longrightarrow>
    s3_step X F cfg t r S (writeMultipartError err) S"
| parts: "at_object r b k \<Longrightarrow> upload_of r \<noteq> [] \<Longrightarrow> rq_Method r = ''GET'' \<Longrightarrow> s3_step X F cfg t r S resp S"
| complete_rejected: "at_object r b k \<Longrightarrow> upload_of r \<noteq> [] \<Longrightarrow> rq_Method r = ''POST'' \<Longrightarrow>
    decodeCompleteMultipartUpload F r = Inl err \<or> decodeCompleteMultipartUpload F r = Inr rs \<and> upload_step (OpComplete (upload_of r) rs) A (Rejected err) A \<Longrightarrow>
    s3_step X F cfg t r (C, A) (writeMultipartError err) (C, A)"
| complete: "at_object r b k \<Longrightarrow> upload_of r \<noteq> [] \<Longrightarrow> rq_Method r = ''POST'' \<Longrightarrow> decodeCompleteMultipartUpload F r = Inr rs \<Longrightarrow>
    upload_step (OpComplete (upload_of r) rs) A (Assembled d etag) A \<Longrightarrow> A (upload_of r) = Some u \<Longrightarrow> us_Bucket u \<in> cat_buckets C \<Longrightarrow>
    s3_step X F cfg t r (C, A) (writeXML 200 (CompleteMultipartUpload (''/'' @ us_Bucket u @ ''/'' @ us_Key u) (us_Bucket u) (us_Key u) etag))
      (stored C (us_Bucket u) (us_Key u) d, A(upload_of r := None))"
| complete_late: "at_object r b k \<Longrightarrow> upload_of r \<noteq> [] \<Longrightarrow> rq_Method r = ''POST'' \<Longrightarrow> decodeCompleteMultipartUpload F r = Inr rs \<Longrightarrow>
    upload_step (OpComplete (upload_of r) rs) A (Assembled d etag) A \<Longrightarrow> A (upload_of r) = Some u \<Longrightarrow> failed resp \<Longrightarrow>
    C' = C \<or> C' = stored C (us_Bucket u) (us_Key u) d \<Longrightarrow> A' = A \<or> A' = A(upload_of r := None) \<Longrightarrow>
    s3_step X F cfg t r (C, A) resp (C', A')"


inductive s3_run :: "Externals \<Rightarrow> Formats \<Rightarrow> s3_config \<Rightarrow> (Moment \<times> Request) list \<Rightarrow> catalogue \<times> uploads \<Rightarrow> Response list \<Rightarrow> catalogue \<times> uploads \<Rightarrow> bool"
  for X F cfg where
  none: "s3_run X F cfg [] S [] S"
| more: "s3_step X F cfg t r S resp S1 \<Longrightarrow> s3_run X F cfg rs S1 resps S2 \<Longrightarrow> s3_run X F cfg ((t, r) # rs) S (resp # resps) S2"

text \<open>The gateway serving requests one after the other.\<close>

primrec gw_serve_all :: "Externals \<Rightarrow> Formats \<Rightarrow> 'm MetadataStore \<Rightarrow> s3_config \<Rightarrow> (Moment \<times> Request) list \<Rightarrow> 'm Gateway \<Rightarrow> 'm Gateway \<times> Response list" where
  "gw_serve_all X F M cfg [] g = (g, [])"
| "gw_serve_all X F M cfg (q # qs) g =
     (case ServeHTTP X F M cfg (fst q) (snd q) g of
        (g1, resp) \<Rightarrow> (case gw_serve_all X F M cfg qs g1 of (g2, resps) \<Rightarrow> (g2, resp # resps)))"

section \<open>The relation\<close>

definition gw_tracks :: "('m \<Rightarrow> meta_view) \<Rightarrow> ('m \<Rightarrow> bool) \<Rightarrow> ('m \<Rightarrow> bool) \<Rightarrow> Externals \<Rightarrow> bytes set \<Rightarrow> Engine \<Rightarrow>
    catalogue \<times> uploads \<Rightarrow> 'm Gateway \<Rightarrow> bool" where
  "gw_tracks view ok quiet X D e0 S g \<longleftrightarrow>
     tracks view ok quiet X D e0 (fst S) (os_store (gw_objects g)) \<and> mp_tracks (snd S) (gw_multipart g)"

definition gw_stepped :: "('m \<Rightarrow> meta_view) \<Rightarrow> ('m \<Rightarrow> bool) \<Rightarrow> ('m \<Rightarrow> bool) \<Rightarrow> Externals \<Rightarrow> bytes set \<Rightarrow> Engine \<Rightarrow>
    Formats \<Rightarrow> s3_config \<Rightarrow> Moment \<Rightarrow> Request \<Rightarrow> catalogue \<times> uploads \<Rightarrow> 'm Gateway \<times> Response \<Rightarrow> bool" where
  "gw_stepped view ok quiet X D e0 F cfg t r S p \<longleftrightarrow>
     (\<exists>S'. s3_step X F cfg t r S (snd p) S' \<and> gw_tracks view ok quiet X D e0 S' (fst p))"

lemma gw_steppedI:
  "s3_step X F cfg t r S resp S' \<Longrightarrow> gw_tracks view ok quiet X D e0 S' g \<Longrightarrow> gw_stepped view ok quiet X D e0 F cfg t r S (g, resp)"
  unfolding gw_stepped_def by (intro exI [of _ S']) simp

text \<open>A handler that makes one call and answers with what it returned, or with the mapped error.\<close>

definition answers_call :: "('m \<Rightarrow> meta_view) \<Rightarrow> ('m \<Rightarrow> bool) \<Rightarrow> ('m \<Rightarrow> bool) \<Rightarrow> Externals \<Rightarrow> bytes set \<Rightarrow> Engine \<Rightarrow>
    Formats \<Rightarrow> s3_config \<Rightarrow> Moment \<Rightarrow> Request \<Rightarrow> catalogue \<Rightarrow> uploads \<Rightarrow> Response \<Rightarrow> 'm Store \<Rightarrow> bool" where
  "answers_call view ok quiet X D e0 F cfg t r C A resp s \<longleftrightarrow>
     (\<exists>C'. s3_step X F cfg t r (C, A) resp (C', A) \<and> tracks view ok quiet X D e0 C' s)"

definition answers_upload :: "Externals \<Rightarrow> Formats \<Rightarrow> s3_config \<Rightarrow> Moment \<Rightarrow> Request \<Rightarrow> catalogue \<Rightarrow> uploads \<Rightarrow> Response \<Rightarrow> multipartStore \<Rightarrow> bool" where
  "answers_upload X F cfg t r C A resp m \<longleftrightarrow> (\<exists>A'. s3_step X F cfg t r (C, A) resp (C, A') \<and> mp_tracks A' m)"

lemma publish_store [simp]: "os_store (publishObjectEvent ev x s) = os_store s"
  by (simp add: publishObjectEvent_def)

lemma call_goes:
  assumes "gw_tracks view ok quiet X D e0 (C, A) g"
    and "wp f (\<lambda>x. answers_call view ok quiet X D e0 F cfg t r C A (resp x))
      (\<lambda>err. answers_call view ok quiet X D e0 F cfg t r C A (writeMappedError (ErrWrap [err]))) (os_store (gw_objects g))"
  shows "gw_stepped view ok quiet X D e0 F cfg t r (C, A) (call (on_store f) (\<lambda>x. respond (resp x)) g)"
  using assms
  by (auto simp: call_def on_store_def wp_def answers_call_def respond_def gw_tracks_def split: prod.splits sum.splits intro!: gw_steppedI)

lemma publish_goes:
  assumes "gw_tracks view ok quiet X D e0 (C, A) g"
    and "wp f (\<lambda>x. answers_call view ok quiet X D e0 F cfg t r C A (resp x))
      (\<lambda>err. answers_call view ok quiet X D e0 F cfg t r C A (writeMappedError (ErrWrap [err]))) (os_store (gw_objects g))"
  shows "gw_stepped view ok quiet X D e0 F cfg t r (C, A) (call (then_publish ev (on_store f)) (\<lambda>x. respond (resp x)) g)"
  using assms
  by (auto simp: call_def then_publish_def on_store_def wp_def answers_call_def respond_def gw_tracks_def split: prod.splits sum.splits intro!: gw_steppedI)

lemma upload_goes:
  assumes "gw_tracks view ok quiet X D e0 (C, A) g"
    and "mp_wp f (\<lambda>x. answers_upload X F cfg t r C A (resp x)) (\<lambda>err. answers_upload X F cfg t r C A (writeMultipartError err)) (gw_multipart g)"
  shows "gw_stepped view ok quiet X D e0 F cfg t r (C, A) (call_multipart f (\<lambda>x. respond (resp x)) g)"
  using assms
  by (auto simp: call_multipart_def mp_wp_def answers_upload_def respond_def gw_tracks_def split: prod.splits sum.splits intro!: gw_steppedI)

lemma upload_looks:
  assumes "gw_tracks view ok quiet X D e0 (C, A) g" "mp_wp f (\<lambda>_. mp_tracks A) (\<lambda>_. mp_tracks A) (gw_multipart g)"
    and "\<And>resp. s3_step X F cfg t r (C, A) resp (C, A)" "\<And>x g. fst (k x g) = g"
  shows "gw_stepped view ok quiet X D e0 F cfg t r (C, A) (call_multipart f k g)"
proof -
  obtain m y where f: "f (gw_multipart g) = (m, y)" by fastforce
  let ?g = "g\<lparr>gw_multipart := m\<rparr>"
  have at: "gw_tracks view ok quiet X D e0 (C, A) ?g" using assms(1,2) f by (auto simp: gw_tracks_def mp_wp_def split: sum.splits)
  show ?thesis
  proof (cases y)
    case (Inl err)
    then show ?thesis using gw_steppedI [OF assms(3) at] by (simp add: call_multipart_def f)
  next
    case (Inr x)
    have "k x ?g = (?g, snd (k x ?g))" using assms(4) [of x ?g] by (metis prod.collapse)
    then show ?thesis using gw_steppedI [OF assms(3) at, of "snd (k x ?g)"] by (simp add: call_multipart_def f Inr)
  qed
qed

lemma answers_uploadI:
  assumes "at_object r b k" "upload_request X t r b k c" "mp_stepped c A m rep" "upload_reply rep resp"
  shows "answers_upload X F cfg t r C A resp m"
  using assms unfolding mp_stepped_def answers_upload_def by (blast intro: s3_step.upload)

lemma header_get_set [simp]: "header_get (header_set k v h) k = v"
  by (simp add: header_get_def header_set_def header_values_def)

lemma loadLocked_looks: "mp_tracks A m \<Longrightarrow> mp_wp (loadLocked uid) (\<lambda>_. mp_tracks A) (\<lambda>_. mp_tracks A) m"
  by (rule loadLocked_wp) simp_all

lemma bucketMultipartUploads_looks:
  "mp_tracks A m \<Longrightarrow> mp_wp (bucketMultipartUploadsLocked uids b) (\<lambda>_. mp_tracks A) (\<lambda>_. mp_tracks A) m"
proof (induction uids arbitrary: m)
  case (Cons uid uids)
  obtain m1 y where l: "loadLocked uid m = (m1, y)" by fastforce
  have "mp_tracks A m1" using loadLocked_looks [OF Cons.prems, of uid] l by (auto simp: mp_wp_def split: sum.splits)
  then show ?case
    using Cons.IH [of m1] by (auto simp: mp_wp_def mp_then_def mp_return_def l split: prod.splits sum.splits)
qed (simp add: mp_simps)

lemma entries_looks: "mp_tracks A m \<Longrightarrow> mp_wp multipartUploadEntriesLocked (\<lambda>_. mp_tracks A) (\<lambda>_. mp_tracks A) m"
  by (auto simp: mp_wp_def multipartUploadEntriesLocked_def mp_then_def mp_io_def mp_return_def Let_def split: list.splits io_fate.splits)

lemma listBucket_looks: "mp_tracks A m \<Longrightarrow> mp_wp (listBucket b) (\<lambda>_. mp_tracks A) (\<lambda>_. mp_tracks A) m"
  unfolding listBucket_def mp_simps
  by (rule mp_wp_mono [OF entries_looks], assumption) (auto simp: mp_simps intro: mp_wp_mono [OF bucketMultipartUploads_looks])

lemma close_looks:
  assumes "mp_tracks A m" "mp_io what (\<lambda>dirs. dirs) m = (m', y)"
  shows "mp_tracks A m'"
proof -
  have "mp_wp (mp_io what (\<lambda>dirs. dirs)) (\<lambda>_. mp_tracks A) (\<lambda>_. mp_tracks A) m" by (rule mp_wp_io) (simp_all add: assms(1))
  with assms(2) show ?thesis by (auto simp: mp_wp_def split: sum.splits)
qed

text \<open>What assembling finds: the document of an upload of the specification.\<close>

lemma assemble_finds:
  assumes "mp_tracks A m" "assemble uid rs m = (m', Inr (a, u))"
  obtains v where "A uid = Some v" "mu_UploadID u = uid" "mu_Bucket u = us_Bucket v" "mu_Key u = us_Key v"
proof -
  have "mp_wp (assemble uid rs) (\<lambda>(a, u) _. \<exists>v. A uid = Some v \<and> mu_UploadID u = uid \<and> mu_Bucket u = us_Bucket v \<and> mu_Key u = us_Key v)
    (\<lambda>_ _. True) m"
    unfolding assemble_def mp_simps
  proof (rule loadLocked_wp [OF assms(1)], goal_cases)
    case (4 fates dir u v)
    then have "A uid = Some v \<and> mu_UploadID u = uid \<and> mu_Bucket u = us_Bucket v \<and> mu_Key u = us_Key v" by (simp add: upload_tracked_def)
    then show ?case by (auto simp: mp_wp_def mp_throw_def mp_return_def split: sum.split prod.split)
  qed simp_all
  with assms(2) that show ?thesis by (auto simp: mp_wp_def)
qed


lemma failed_mapped [simp]: "failed (writeMappedError err)"
  by (simp add: failed_def writeMappedError_def mapError_def writeError_def writeXML_def)

lemma failed_multipart [simp]: "failed (writeMultipartError err)"
  by (cases err) (simp_all add: failed_def writeMultipartError_def writeError_def writeXML_def)

lemma mapped_missing: "writeMappedError (ErrWrap [ErrNotFound]) = writeError 404 ''NoSuchKey''"
  by (simp add: writeMappedError_def mapError_def)

lemma failure_simps [simp]: "failure err \<noteq> Done" "failure err \<noteq> Bytes d" "failure err \<noteq> Keys ks" "failure err = Missing \<longleftrightarrow> err = ErrNotFound"
  "Bytes d \<noteq> failure err" "Missing = failure err \<longleftrightarrow> err = ErrNotFound" "Done \<noteq> failure err"
  by (auto simp: failure_def)

lemma reads_answered:
  assumes "om_size meta = int (length d)"
  shows "\<exists>resp. write_ranged X r d meta = Some resp \<and> answers_read r d resp"
proof (cases "Parse (header_get (rq_Header r) ''Range'') (int (length d))")
  case (Inl e)
  then show ?thesis by (simp add: write_ranged_def writeRangedObject_def assms answers_read_def resp_code_def writeError_def writeXML_def)
next
  case (Inr spec)
  from Slice_parsed [OF Inr refl] obtain out where out: "Slice spec d = Some out" "int (length out) = ContentLength spec"
    "\<exists>pre post. d = pre @ out @ post \<and> (spec_partial spec \<longrightarrow> int (length pre) = spec_start spec)" by blast
  from Inr have p: "spec_partial spec \<Longrightarrow> spec_size spec = int (length d) \<and> 0 < int (length d)"
    using Parse_cases [OF Inr] by (auto simp: Full_def)
  have w: "\<not> spec_partial spec \<Longrightarrow> out = d" using out(1) by (simp add: Slice_def)
  show ?thesis
    using out p w by (auto simp: write_ranged_def writeRangedObject_def assms Inr answers_read_def ContentLength_def)
qed

lemma complete_same: "upload_step (OpComplete uid rs) A rep A' \<Longrightarrow> A' = A"
  by (erule upload_step_completeE) simp_all

lemma complete_keeps: "mp_stepped (OpComplete uid rs) A m rep \<Longrightarrow> upload_step (OpComplete uid rs) A rep A \<and> mp_tracks A m"
  unfolding mp_stepped_def using complete_same by blast

text \<open>Completing an upload: the object is stored, the assembled file is closed, the upload is removed; each may fail.\<close>

definition complete_allowed :: "Externals \<Rightarrow> bytes set \<Rightarrow> Formats \<Rightarrow> Request \<Rightarrow> 'm Gateway \<Rightarrow> bool" where
  "complete_allowed X D F r g =
     (case decodeCompleteMultipartUpload F r of
        Inl _ \<Rightarrow> True
      | Inr rs \<Rightarrow> (case assemble (upload_of r) rs (gw_multipart g) of
          (_, Inl _) \<Rightarrow> True | (_, Inr (a, u)) \<Rightarrow> put_allowed X D (mu_Bucket u) (mu_Key u) (as_file a)))"

text \<open>The requests the theorem covers: names without blank ends, slashes in the bucket or NUL bytes, and bodies among the given data.\<close>

definition admissible :: "Externals \<Rightarrow> bytes set \<Rightarrow> Formats \<Rightarrow> Request \<Rightarrow> 'm Gateway \<Rightarrow> bool" where
  "admissible X D F r g \<longleftrightarrow>
     (case splitS3Path (rq_Path r) of
        None \<Rightarrow> True
      | Some (b, k) \<Rightarrow>
          b = [] \<or> clean_bucket b \<and>
          (if k = []
           then (case decodeDeleteObjectsRequest F r of None \<Rightarrow> True
                 | Some (_, keys) \<Rightarrow> list_all (\<lambda>key. trim_space key = [] \<or> clean_name (trim_space key)) keys)
           else clean_name k \<and>
             (if upload_of r \<noteq> [] \<or> starts_upload r then rq_Method r = ''POST'' \<and> \<not> starts_upload r \<longrightarrow> complete_allowed X D F r g
              else if rq_Method r \<noteq> ''PUT'' then True
              else if copies r
              then (\<forall>d \<in> D. put_allowed X D b k d) \<and>
                (case parseCopySource F (header_get (rq_Header r) ''x-amz-copy-source'') of None \<Rightarrow> True
                 | Some (sb, sk) \<Rightarrow> clean_bucket sb \<and> clean_name sk)
              else (case rq_Body r of Inl _ \<Rightarrow> True | Inr d \<Rightarrow> put_allowed X D b k d))))"

primrec all_admissible :: "Externals \<Rightarrow> bytes set \<Rightarrow> Formats \<Rightarrow> 'm MetadataStore \<Rightarrow> s3_config \<Rightarrow> (Moment \<times> Request) list \<Rightarrow> 'm Gateway \<Rightarrow> bool" where
  "all_admissible X D F M cfg [] g = True"
| "all_admissible X D F M cfg (q # qs) g =
     (admissible X D F (snd q) g \<and> all_admissible X D F M cfg qs (fst (ServeHTTP X F M cfg (fst q) (snd q) g)))"

context metadata_listing
begin

abbreviation gw_goes where "gw_goes \<equiv> gw_stepped view ok quiet"
abbreviation gw_at where "gw_at \<equiv> gw_tracks view ok quiet"

lemma gw_at_store: "gw_at X D e0 (C, A) g \<Longrightarrow> tracked X D e0 C (os_store (gw_objects g))"
  by (simp add: gw_tracks_def)

abbreviation answers where "answers \<equiv> answers_call view ok quiet"

lemma answersI: "s3_step X F cfg t r (C, A) resp (C', A) \<Longrightarrow> tracked X D e0 C' s \<Longrightarrow> answers X D e0 F cfg t r C A resp s"
  by (auto simp: answers_call_def)

lemma handleGetObject_goes:
  assumes "durable_setting X D e0" "quiet_io X e0" "gw_at X D e0 (C, A) g" "at_plain r b k" "rq_Method r = ''GET''"
    and "clean_bucket b" "clean_name k"
  shows "gw_goes X D e0 F cfg t r (C, A) (handleGetObject X M r b k g)"
proof -
  have h: "handleGetObject X M r b k = call (on_store (Store_GetObject X M b k))
      (\<lambda>x. respond (case write_ranged X r (fst x) (snd x) of None \<Rightarrow> writeStatus 0 | Some resp \<Rightarrow> resp))"
    by (rule ext) (auto simp: handleGetObject_def Service_GetObject_def fun_eq_iff split: option.split intro!: arg_cong2 [of _ _ _ _ "\<lambda>k. call _ k"])
  show ?thesis
    unfolding h
  proof (rule call_goes [OF assms(3)], rule wp_mono [OF get_exact [OF assms(1,2) gw_at_store [OF assms(3)] assms(6,7)]], goal_cases)
    case (1 x s)
    then obtain resp where "write_ranged X r (fst x) (snd x) = Some resp" "answers_read r (fst x) resp" using reads_answered by blast
    then show ?case using answersI [OF s3_step.get [OF assms(4,5)]] 1 by simp
  next
    case (2 err s)
    then show ?case using answersI [OF s3_step.missing [OF assms(4)]] assms(5) by (simp add: mapped_missing)
  qed
qed

lemma handleHeadObject_goes:
  assumes "gw_at X D e0 (C, A) g" "at_plain r b k" "rq_Method r = ''HEAD''" "clean_bucket b" "clean_name k"
  shows "gw_goes X D e0 F cfg t r (C, A) (handleHeadObject X M b k g)"
  unfolding handleHeadObject_def Service_StatObject_def
proof (rule call_goes [OF assms(1)], rule wp_mono [OF stat_steps [OF gw_at_store [OF assms(1)] assms(4,5)]], goal_cases)
  case (1 x s)
  then obtain d where "cat_objects C (b, k) = Some d" "tracked X D e0 C s" by (auto elim: catalogue_step.cases)
  then show ?case using answersI [OF s3_step.head [OF assms(2,3)]] by simp
next
  case (2 err s)
  then have "cat_objects C (b, k) = None" "err = ErrNotFound" "tracked X D e0 C s" by (auto elim: catalogue_step.cases)
  then show ?case using answersI [OF s3_step.missing [OF assms(2)]] assms(3) by (simp add: mapped_missing)
qed

lemma put_exact:
  assumes "durable_setting X D e0" "tracked X D e0 C s" "put_allowed X D b k d"
  shows "wp (Store_PutObject X M b k (Inr d) opts) (\<lambda>_ s. b \<in> cat_buckets C \<and> tracked X D e0 (stored C b k d) s)
    (\<lambda>_ s. tracked X D e0 C s \<or> b \<in> cat_buckets C \<and> tracked X D e0 (stored C b k d) s) s"
  by (rule wp_mono [OF put_steps [OF assms]]) (auto simp: stored_def elim: catalogue_step.cases)

lemma handlePutObject_goes:
  assumes "durable_setting X D e0" "gw_at X D e0 (C, A) g" "at_plain r b k" "rq_Method r = ''PUT''" "\<not> copies r" "rq_Body r = Inr d" "put_allowed X D b k d"
  shows "gw_goes X D e0 F cfg t r (C, A) (handlePutObject X M r b k g)"
  unfolding handlePutObject_def Service_PutObject_def assms(6)
proof (rule publish_goes [OF assms(2)], rule wp_mono [OF put_exact [OF assms(1) gw_at_store [OF assms(2)] assms(7)]], goal_cases)
  case (1 x s)
  then show ?case using answersI [OF s3_step.put [OF assms(3-6)]] by simp
next
  case (2 err s)
  then show ?case using answersI [OF s3_step.put_failed [OF assms(3,4)]] answersI [OF s3_step.put_late [OF assms(3,4), of _ _ d]] assms(6) by auto
qed

lemma handlePutObject_unread_goes:
  assumes "gw_at X D e0 (C, A) g" "at_plain r b k" "rq_Method r = ''PUT''" "rq_Body r = Inl er" "clean_bucket b" "clean_name k"
  shows "gw_goes X D e0 F cfg t r (C, A) (handlePutObject X M r b k g)"
  unfolding handlePutObject_def Service_PutObject_def assms(4)
proof (rule publish_goes [OF assms(1)], rule wp_mono [OF put_unread_steps [OF gw_at_store [OF assms(1)] assms(5,6)]], goal_cases)
  case (1 x s)
  then show ?case by (auto elim: catalogue_step.cases)
next
  case (2 err s)
  then have "tracked X D e0 C s" by (auto elim: catalogue_step.cases)
  then show ?case using answersI [OF s3_step.put_failed [OF assms(2,3)]] by simp
qed

lemma delete_exact:
  assumes "durable_setting X D e0" "tracked X D e0 C s" "clean_bucket b" "clean_name k"
  shows "wp (Store_DeleteObject X M b k) (\<lambda>_ s. (\<exists>d. cat_objects C (b, k) = Some d) \<and> tracked X D e0 (removed C b k) s)
    (\<lambda>err s. (\<exists>d. cat_objects C (b, k) = Some d) \<and> tracked X D e0 (removed C b k) s \<or>
      cat_objects C (b, k) = None \<and> err = ErrNotFound \<and> tracked X D e0 C s) s"
  by (rule wp_mono [OF delete_steps [OF assms]]) (auto simp: removed_def elim: catalogue_step.cases)

lemma handleDeleteObject_goes:
  assumes "durable_setting X D e0" "gw_at X D e0 (C, A) g" "at_plain r b k" "rq_Method r = ''DELETE''" "clean_bucket b" "clean_name k"
  shows "gw_goes X D e0 F cfg t r (C, A) (handleDeleteObject X M b k g)"
  unfolding handleDeleteObject_def Service_DeleteObject_def
proof (rule publish_goes [OF assms(2)], rule wp_mono [OF delete_exact [OF assms(1) gw_at_store [OF assms(2)] assms(5,6)]], goal_cases)
  case (1 x s)
  then show ?case using answersI [OF s3_step.delete [OF assms(3,4)]] by blast
next
  case (2 err s)
  then show ?case
    using answersI [OF s3_step.delete [OF assms(3,4)]] answersI [OF s3_step.missing [OF assms(3)]] assms(4) by (auto simp: mapped_missing)
qed

lemma buckets_exact:
  assumes "tracked X D e0 C s"
  shows "wp (Store_ListBuckets M) (\<lambda>bs s. map bkt_name bs = sorted_list_of_set (cat_buckets C) \<and> finite (cat_buckets C) \<and> tracked X D e0 C s)
    (\<lambda>_ _. False) s"
proof -
  have t: "ok (st_meta s)" "quiet (st_meta s)" "fset (mv_buckets (view (st_meta s))) = cat_buckets C"
    using assms by (simp_all add: tracks_def counted_def)
  obtain m r where f: "ListBuckets M (st_meta s) (st_clock s (st_tick s)) = (m, r)" by fastforce
  have "refines view ok quiet (st_meta s) (bucket_names (m, r)) (spec_ListBuckets (view (st_meta s)))"
    using ListBuckets [OF t(1)] by (simp add: f flip: f)
  then have n: "ok m" "quiet m" "view m = view (st_meta s)" "map_sum id (map bkt_name) r = Inr (sorted_list_of_fset (mv_buckets (view (st_meta s))))"
    using t(2) by (auto simp: refines_def spec_ListBuckets_def bucket_names_def)
  then obtain bs where bs: "r = Inr bs" "map bkt_name bs = sorted_list_of_fset (mv_buckets (view (st_meta s)))" by (cases r) auto
  have "tracked X D e0 C (s\<lparr>st_tick := Suc (st_tick s), st_meta := m\<rparr>)" using assms n by (simp add: tracks_def counted_def)
  moreover have "finite (cat_buckets C)" using t(3) finite_fset by metis
  ultimately show ?thesis using bs t(3) by (simp add: Store_ListBuckets_def wp_simps wp_on_meta f sorted_list_of_fset.rep_eq)
qed

lemma handleService_goes:
  assumes "gw_at X D e0 (C, A) g" "splitS3Path (rq_Path r) = Some ([], k)"
  shows "gw_goes X D e0 F cfg t r (C, A) (handleService M t r g)"
proof (cases "rq_Method r = ''GET''")
  case True
  have h: "handleService M t r = call (on_store (Store_ListBuckets M)) (\<lambda>buckets.
      respond (writeXML 200 (ListAllMyBuckets (map (\<lambda>b. (bkt_name b, formatS3Time (mo_now t) (bkt_created b))) buckets))))"
    by (simp add: handleService_def True Service_ListBuckets_def)
  show ?thesis
    unfolding h
  proof (rule call_goes [OF assms(1)], rule wp_mono [OF buckets_exact [OF gw_at_store [OF assms(1)]]], goal_cases)
    case (1 bs s)
    then show ?case by (intro answersI [OF s3_step.buckets [OF assms(2)]]) (simp_all add: comp_def flip: set_map)
  qed simp
next
  case False
  then show ?thesis
    using gw_steppedI [OF s3_step.not_allowed [OF assms(2)] assms(1)] by (simp add: handleService_def respond_def known_method_def)
qed

lemma list_exact:
  assumes "tracked X D e0 C s" "clean_bucket b"
  shows "wp (Store_ListObjects M b p) (\<lambda>xs s. b \<in> cat_buckets C \<and> listed C b p xs \<and> tracked X D e0 C s)
    (\<lambda>_ s. b \<notin> cat_buckets C \<and> tracked X D e0 C s) s"
proof (rule wp_mono [OF list_steps [OF assms]], goal_cases)
  case (1 xs s)
  then obtain C' where "catalogue_step (OpListObjects b p) C (Keys (map om_key xs)) C'" "tracked X D e0 C' s" by blast
  then show ?case by cases (simp_all add: listed_def)
next
  case (2 err s)
  then show ?case by (auto elim: catalogue_step.cases)
qed

lemma unknown_bucket_answers:
  assumes "at_bucket r b" "rq_Method r \<in> {''HEAD'', ''GET''}" "b \<notin> cat_buckets C" "tracked X D e0 C s"
  shows "answers X D e0 F cfg t r C A (writeMappedError err) s"
  by (rule answersI [OF s3_step.no_bucket [OF assms(1,3,2)] assms(4)]) simp

lemma handleHeadBucket_goes:
  assumes "gw_at X D e0 (C, A) g" "at_bucket r b" "rq_Method r = ''HEAD''" "clean_bucket b"
  shows "gw_goes X D e0 F cfg t r (C, A) (handleHeadBucket M b g)"
  unfolding handleHeadBucket_def Service_ListObjects_def
proof (rule call_goes [OF assms(1)], rule wp_mono [OF list_exact [OF gw_at_store [OF assms(1)] assms(4)]], goal_cases)
  case (1 xs s)
  then show ?case using answersI [OF s3_step.bucket [OF assms(2)]] assms(3) by blast
next
  case (2 err s)
  then show ?case using unknown_bucket_answers [OF assms(2)] assms(3) by blast
qed

lemma handleGetBucketLocation_goes:
  assumes "gw_at X D e0 (C, A) g" "at_bucket r b" "rq_Method r = ''GET''" "clean_bucket b"
  shows "gw_goes X D e0 F cfg t r (C, A) (handleGetBucketLocation M cfg b g)"
  unfolding handleGetBucketLocation_def Service_ListObjects_def
proof (rule call_goes [OF assms(1)], rule wp_mono [OF list_exact [OF gw_at_store [OF assms(1)] assms(4)]], goal_cases)
  case (1 xs s)
  then show ?case using answersI [OF s3_step.bucket [OF assms(2)]] assms(3) by blast
next
  case (2 err s)
  then show ?case using unknown_bucket_answers [OF assms(2)] assms(3) by blast
qed

lemma handleListObjects_goes:
  assumes "gw_at X D e0 (C, A) g" "at_bucket r b" "rq_Method r = ''GET''" "clean_bucket b"
  shows "gw_goes X D e0 F cfg t r (C, A) (handleListObjects M t r b g)"
proof -
  have p: "lo_Prefix (listObjectsOptionsFromQuery (rq_Query r)) = query_get (rq_Query r) ''prefix''" by (simp add: listObjectsOptionsFromQuery_def)
  show ?thesis
    unfolding handleListObjects_def Service_ListObjects_def Let_def p
  proof (rule call_goes [OF assms(1)], rule wp_mono [OF list_exact [OF gw_at_store [OF assms(1)] assms(4)]], goal_cases)
    case (1 xs s)
    then show ?case using answersI [OF s3_step.list [OF assms(2)]] assms(3) by blast
  next
    case (2 err s)
    then show ?case using unknown_bucket_answers [OF assms(2)] assms(3) by blast
  qed
qed

lemma handleCreateBucket_goes:
  assumes "gw_at X D e0 (C, A) g" "at_bucket r b" "rq_Method r = ''PUT''" "clean_bucket b"
  shows "gw_goes X D e0 F cfg t r (C, A) (handleCreateBucket M b g)"
  unfolding handleCreateBucket_def Service_CreateBucket_def
proof (rule call_goes [OF assms(1)], rule wp_mono [OF create_steps [OF gw_at_store [OF assms(1)] assms(4)]], goal_cases)
  case (1 x s)
  then have "b \<notin> cat_buckets C" "tracked X D e0 (C\<lparr>cat_buckets := insert b (cat_buckets C)\<rparr>) s" by (auto elim: catalogue_step.cases)
  then show ?case using assms(2,3) by (auto intro!: answersI [OF s3_step.create] simp: writeStatus_def)
next
  case (2 err s)
  then have "b \<in> cat_buckets C" "tracked X D e0 C s" by (auto elim: catalogue_step.cases)
  then show ?case using assms(2,3) by (auto intro!: answersI [OF s3_step.create_exists])
qed

lemma handleDeleteBucket_goes:
  assumes "durable_setting X D e0" "gw_at X D e0 (C, A) g" "at_bucket r b" "rq_Method r = ''DELETE''" "clean_bucket b"
  shows "gw_goes X D e0 F cfg t r (C, A) (handleDeleteBucket X M b g)"
  unfolding handleDeleteBucket_def Service_DeleteBucket_def
proof (rule call_goes [OF assms(2)], rule wp_mono [OF delete_bucket_steps [OF assms(1) gw_at_store [OF assms(2)] assms(5)]], goal_cases)
  case (1 x s)
  then have "b \<in> cat_buckets C" "tracked X D e0 (C\<lparr>cat_buckets := cat_buckets C - {b}, cat_objects := emptied b (cat_objects C)\<rparr>) s"
    by (auto elim: catalogue_step.cases)
  then show ?case using assms(3,4) by (auto intro!: answersI [OF s3_step.delete_bucket])
next
  case (2 err s)
  then obtain A' where "thinned b (cat_objects C) A'" "tracked X D e0 (C\<lparr>cat_objects := A'\<rparr>) s" by (auto elim: catalogue_step.cases)
  then show ?case using assms(3,4) by (auto intro!: answersI [OF s3_step.delete_bucket_failed])
qed

text \<open>A multiple deletion, one object after the other.\<close>

definition item_errors :: "(string \<times> string + string) list \<Rightarrow> (string \<times> string) list" where
  "item_errors items = concat (map (case_sum (\<lambda>err. [err]) (\<lambda>_. [])) items)"

definition item_keys :: "(string \<times> string + string) list \<Rightarrow> string list" where
  "item_keys items = concat (map (case_sum (\<lambda>_. []) (\<lambda>key. [key])) items)"

lemma item_keys_simps [simp]: "item_keys [] = []" "item_keys (Inl err # items) = item_keys items" "item_keys (Inr k # items) = k # item_keys items"
  by (simp_all add: item_keys_def)

lemma item_errors_simps [simp]: "item_errors [] = []" "item_errors (Inl err # items) = err # item_errors items" "item_errors (Inr k # items) = item_errors items"
  by (simp_all add: item_errors_def)

lemma deleteObjectItem_goes:
  assumes "durable_setting X D e0" "gw_at X D e0 (C, A) g" "clean_bucket b" "key = [] \<or> clean_name key" "deleteObjectItem X M b key g = (g', item)"
  obtains M' where "swept b [key] (item_keys [item]) (item_errors [item]) (cat_objects C) M'" "gw_at X D e0 (C\<lparr>cat_objects := M'\<rparr>, A) g'"
proof (cases "key = []")
  case True
  then show ?thesis using assms(2,5) by (intro that [of "cat_objects C"]) (auto simp: deleteObjectItem_def swept_def thinned_def)
next
  case False
  obtain s y where f: "Store_DeleteObject X M b key (os_store (gw_objects g)) = (s, y)" by fastforce
  have m: "mp_tracks A (gw_multipart g)" using assms(2) by (simp add: gw_tracks_def)
  have w: "wp (Store_DeleteObject X M b key) (\<lambda>_ s. (\<exists>d. cat_objects C (b, key) = Some d) \<and> tracked X D e0 (removed C b key) s)
    (\<lambda>err s. (\<exists>d. cat_objects C (b, key) = Some d) \<and> tracked X D e0 (removed C b key) s \<or>
      cat_objects C (b, key) = None \<and> err = ErrNotFound \<and> tracked X D e0 C s) (os_store (gw_objects g))"
    using delete_exact [OF assms(1) gw_at_store [OF assms(2)] assms(3)] False assms(4) by blast
  have g': "os_store (gw_objects g') = s" "gw_multipart g' = gw_multipart g" "item = Inr key \<or> (\<exists>code. item = Inl (key, code))"
    using assms(5) False f
    by (auto simp: deleteObjectItem_def Service_DeleteObject_def then_publish_def on_store_def split: prod.splits sum.splits if_splits)
  have sw: "swept b [key] (item_keys [item]) (item_errors [item]) (cat_objects C) ((cat_objects C)((b, key) := None))"
    "cat_objects C (b, key) = None \<Longrightarrow> swept b [key] (item_keys [item]) (item_errors [item]) (cat_objects C) (cat_objects C)"
    using g'(3) by (auto simp: swept_def thinned_def)
  from w f consider "tracked X D e0 (removed C b key) s" | "cat_objects C (b, key) = None" "tracked X D e0 C s"
    by (cases y) (auto simp: wp_def)
  then show ?thesis
  proof cases
    case 1
    with sw(1) m g' show ?thesis by (intro that) (simp_all add: gw_tracks_def removed_def)
  next
    case 2
    with sw(2) m g' show ?thesis by (intro that [of "cat_objects C"]) (simp_all add: gw_tracks_def)
  qed
qed

lemma swept_append:
  assumes "swept b [key] gone es A A1" "swept b keys gone' es' A1 A2"
  shows "swept b (key # keys) (gone @ gone') (es @ es') A A2"
proof -
  have "A2 (b', k) = A (b', k) \<or> b' = b \<and> A2 (b', k) = None" for b' k using assms unfolding swept_def thinned_def by metis
  moreover have "A2 (b, k) = A (b, k)" if "k \<notin> set (key # keys)" for k using assms that unfolding swept_def by simp
  moreover have "A2 (b, k) = None" if "k \<in> set (gone @ gone')" for k
    using assms that unfolding swept_def thinned_def set_append by (metis Un_iff)
  moreover have "set (key # keys) = set (gone @ gone') \<union> fst ` set (es @ es')" using assms unfolding swept_def by auto
  ultimately show ?thesis unfolding swept_def thinned_def by blast
qed

lemma delete_items_goes:
  assumes "durable_setting X D e0" "gw_at X D e0 (C, A) g" "clean_bucket b" "list_all (\<lambda>key. trim_space key = [] \<or> clean_name (trim_space key)) keys"
    and "delete_items X M b keys g = (g', items)"
  shows "\<exists>M'. swept b (map trim_space keys) (item_keys items) (item_errors items) (cat_objects C) M' \<and> gw_at X D e0 (C\<lparr>cat_objects := M'\<rparr>, A) g'"
  using assms(2,4,5)
proof (induction keys arbitrary: C g g' items)
  case Nil
  then show ?case by (intro exI [of _ "cat_objects C"]) (simp add: swept_def thinned_def)
next
  case (Cons key keys)
  obtain g1 item where i: "deleteObjectItem X M b (trim_space key) g = (g1, item)" by fastforce
  obtain items' where r: "delete_items X M b keys g1 = (g', items')" "items = item # items'" using Cons.prems(3) i by (auto split: prod.splits)
  obtain M1 where M1: "swept b [trim_space key] (item_keys [item]) (item_errors [item]) (cat_objects C) M1" "gw_at X D e0 (C\<lparr>cat_objects := M1\<rparr>, A) g1"
    using deleteObjectItem_goes [OF assms(1) Cons.prems(1) assms(3) _ i] Cons.prems(2) by auto
  obtain M2 where M2: "swept b (map trim_space keys) (item_keys items') (item_errors items') M1 M2" "gw_at X D e0 (C\<lparr>cat_objects := M2\<rparr>, A) g'"
    using Cons.IH [OF M1(2) _ r(1)] Cons.prems(2) by auto
  have "item_errors items = item_errors [item] @ item_errors items'" "item_keys items = item_keys [item] @ item_keys items'"
    by (simp_all add: r(2) item_errors_def item_keys_def)
  then show ?case using swept_append [OF M1(1) M2(1)] M2(2) by auto
qed

lemma handleDeleteObjects_goes:
  assumes "durable_setting X D e0" "gw_at X D e0 (C, A) g" "at_bucket r b" "clean_bucket b"
    and "\<And>quiet keys. decodeDeleteObjectsRequest F r = Some (quiet, keys) \<Longrightarrow> list_all (\<lambda>key. trim_space key = [] \<or> clean_name (trim_space key)) keys"
  shows "gw_goes X D e0 F cfg t r (C, A) (handleDeleteObjects X F M r b g)"
proof (cases "decodeDeleteObjectsRequest F r")
  case None
  then show ?thesis using gw_steppedI [OF s3_step.delete_many_malformed [OF assms(3) None] assms(2)] by (simp add: handleDeleteObjects_def)
next
  case (Some p)
  obtain q keys where p: "p = (q, keys)" by fastforce
  obtain g' items where d: "delete_items X M b keys g = (g', items)" by fastforce
  obtain M' where "swept b (map trim_space keys) (item_keys items) (item_errors items) (cat_objects C) M'" "gw_at X D e0 (C\<lparr>cat_objects := M'\<rparr>, A) g'"
    using delete_items_goes [OF assms(1,2,4) assms(5) d] Some p by blast
  then show ?thesis
    using gw_steppedI [OF s3_step.delete_many [OF assms(3) Some [unfolded p]]]
    by (simp only: handleDeleteObjects_def Some p d prod.case option.case flip: item_errors_def item_keys_def)
qed

lemma gw_source: "gw_at X D e0 (C, A) g \<Longrightarrow> cat_objects C (b, k) = Some d \<Longrightarrow> d \<in> D"
proof -
  assume g: "gw_at X D e0 (C, A) g" "cat_objects C (b, k) = Some d"
  let ?v = "view (st_meta (os_store (gw_objects g)))" and ?e = "st_engine (os_store (gw_objects g))"
  have dur: "durable X D e0 ?v ?e (cat_objects C)" by (rule tracked_view(5) [OF gw_at_store [OF g(1)]])
  obtain x where x: "fmlookup (mv_objects ?v) (object_key b k) = Some x" "om_bucket x = b" "om_key x = k" using durableD(4) [OF dur g(2)] by blast
  then have "object_durable X D ?v ?e (cat_objects C) x" using durableD(3) [OF dur x(1)] by blast
  then obtain d' where "d' \<in> D" "cat_objects C (b, k) = Some d'" using x(2,3) unfolding object_durable_def by blast
  with g(2) show ?thesis by simp
qed

lemma handleCopyObject_goes:
  assumes "durable_setting X D e0" "quiet_io X e0" "gw_at X D e0 (C, A) g" "at_plain r b k" "rq_Method r = ''PUT''" "copies r"
    and "\<And>sb sk. parseCopySource F (header_get (rq_Header r) ''x-amz-copy-source'') = Some (sb, sk) \<Longrightarrow> clean_bucket sb \<and> clean_name sk"
    and "\<And>d. d \<in> D \<Longrightarrow> put_allowed X D b k d"
  shows "gw_goes X D e0 F cfg t r (C, A) (handleCopyObject X F M t r b k g)"
proof (cases "parseCopySource F (header_get (rq_Header r) ''x-amz-copy-source'')")
  case None
  then show ?thesis
    using gw_steppedI [OF s3_step.put_failed [OF assms(4,5)] assms(3)]
    by (simp add: handleCopyObject_def respond_def failed_def writeError_def writeXML_def)
next
  case (Some p)
  obtain sb sk where p: "p = (sb, sk)" by fastforce
  have src: "clean_bucket sb" "clean_name sk" using assms(7) Some p by blast+
  obtain s y where f: "Store_GetObject X M sb sk (os_store (gw_objects g)) = (s, y)" by fastforce
  let ?g = "g\<lparr>gw_objects := (gw_objects g)\<lparr>os_store := s\<rparr>\<rparr>"
  have w: "wp (Store_GetObject X M sb sk)
    (\<lambda>x s. tracked X D e0 C s \<and> cat_objects C (sb, sk) = Some (fst x) \<and> om_size (snd x) = int (length (fst x)))
    (\<lambda>err s. tracked X D e0 C s \<and> cat_objects C (sb, sk) = None \<and> err = ErrNotFound) (os_store (gw_objects g))"
    by (rule get_exact [OF assms(1,2) gw_at_store [OF assms(3)] src])
  then have at: "gw_at X D e0 (C, A) ?g" using assms(3) f by (auto simp: wp_def gw_tracks_def split: sum.splits)
  note late = gw_steppedI [OF s3_step.put_failed [OF assms(4,5)] at]
  show ?thesis
  proof (cases y)
    case (Inl err)
    then show ?thesis using late by (simp add: handleCopyObject_def Some p Service_GetObject_def call_def on_store_def f)
  next
    case (Inr x)
    obtain body meta where x: "x = (body, meta)" by fastforce
    have d: "cat_objects C (sb, sk) = Some body" using w f Inr x by (simp add: wp_def)
    have allowed: "put_allowed X D b k body" using assms(8) gw_source [OF assms(3) d] by blast
    note put = put_exact [OF assms(1) gw_at_store [OF at] allowed]
    show ?thesis
    proof (cases "copyObjectPutOptions X meta (rq_Header r)")
      case None
      then show ?thesis
        using late by (simp add: handleCopyObject_def Some p Service_GetObject_def call_def on_store_def f Inr x respond_def failed_def writeError_def writeXML_def)
    next
      case opts: (Some opts)
      have "gw_goes X D e0 F cfg t r (C, A) (call (Service_PutObject X M b k (Inr body) opts) (\<lambda>meta.
          respond ((writeXML 200 (CopyObjectResult (formatS3Time (mo_now t) (om_updated meta)) (om_etag meta)))
            \<lparr>rs_header := header_set ''ETag'' (om_etag meta) (header_set ''Content-Type'' ''application/xml'' fmempty)\<rparr>)) ?g)"
        unfolding Service_PutObject_def
      proof (rule publish_goes [OF at], rule wp_mono [OF put], goal_cases)
        case (1 x s)
        then show ?case using answersI [OF s3_step.copy [OF assms(4,5) Some [unfolded p] d]] by (simp add: writeXML_def)
      next
        case (2 err s)
        have "copies r \<and> (\<exists>s. cat_objects C s = Some body)" using assms(6) d by blast
        from answersI [OF s3_step.put_late [OF assms(4,5) failed_mapped _ disjI2 [OF this]]] answersI [OF s3_step.put_failed [OF assms(4,5) failed_mapped]] 2
        show ?case by blast
      qed
      then show ?thesis by (simp add: handleCopyObject_def Some p Service_GetObject_def call_def on_store_def f Inr x opts)
    qed
  qed
qed

text \<open>Uploads.\<close>

lemma gw_at_uploads: "gw_at X D e0 (C, A) g \<Longrightarrow> mp_tracks A (gw_multipart g)"
  by (simp add: gw_tracks_def)

lemma handleInitiateMultipartUpload_goes:
  assumes "gw_at X D e0 (C, A) g" "at_object r b k" "starts_upload r"
  shows "gw_goes X D e0 F cfg t r (C, A) (handleInitiateMultipartUpload X t r b k g)"
  unfolding handleInitiateMultipartUpload_def
  by (rule upload_goes [OF assms(1)], rule mp_wp_mono [OF initiate_steps [OF gw_at_uploads [OF assms(1)]]])
     (rule answers_uploadI [OF assms(2)], use assms(3) in \<open>auto simp: upload_request_def upload_reply_def writeXML_def\<close>)+

lemma handleUploadPart_goes:
  assumes "gw_at X D e0 (C, A) g" "at_object r b k" "\<not> starts_upload r" "upload_of r \<noteq> []" "rq_Method r = ''PUT''"
  shows "gw_goes X D e0 F cfg t r (C, A) (handleUploadPart t r b k (upload_of r) g)"
proof (cases "parsePartNumber (rq_Query r)")
  case (Inl err)
  then show ?thesis
    using gw_steppedI [OF s3_step.upload_number [OF assms(2,4,5) Inl] assms(1)] by (simp add: handleUploadPart_def respond_def)
next
  case (Inr n)
  have "gw_goes X D e0 F cfg t r (C, A) (call_multipart (putPart (upload_of r) b k n (mo_now t) (rq_Body r)) (\<lambda>part.
      respond ((writeStatus 200)\<lparr>rs_header := header_set ''ETag'' (mpp_ETag part) fmempty\<rparr>)) g)"
    by (rule upload_goes [OF assms(1)], rule mp_wp_mono [OF putPart_steps [OF gw_at_uploads [OF assms(1)]]])
       (rule answers_uploadI [OF assms(2)], use assms(3-5) Inr in \<open>auto simp: upload_request_def upload_reply_def writeStatus_def\<close>)+
  then show ?thesis by (simp add: handleUploadPart_def Inr)
qed

lemma handleAbortMultipartUpload_goes:
  assumes "gw_at X D e0 (C, A) g" "at_object r b k" "\<not> starts_upload r" "upload_of r \<noteq> []" "rq_Method r = ''DELETE''"
  shows "gw_goes X D e0 F cfg t r (C, A) (handleAbortMultipartUpload (upload_of r) g)"
  unfolding handleAbortMultipartUpload_def
  by (rule upload_goes [OF assms(1)], rule mp_wp_mono [OF abort_steps [OF gw_at_uploads [OF assms(1)]]])
     (rule answers_uploadI [OF assms(2)], use assms(3-5) in \<open>auto simp: upload_request_def upload_reply_def writeStatus_def\<close>)+

lemma handleListParts_goes:
  assumes "gw_at X D e0 (C, A) g" "at_object r b k" "upload_of r \<noteq> []" "rq_Method r = ''GET''"
  shows "gw_goes X D e0 F cfg t r (C, A) (handleListParts t r (upload_of r) g)"
  unfolding handleListParts_def
  by (rule upload_looks [OF assms(1) loadLocked_looks [OF gw_at_uploads [OF assms(1)]] s3_step.parts [OF assms(2-4)]])
     (simp add: respond_def split: sum.split prod.split)

lemma handleListMultipartUploads_goes:
  assumes "gw_at X D e0 (C, A) g" "at_bucket r b" "rq_Method r = ''GET''" "hasQueryKey (rq_Query r) ''uploads''"
  shows "gw_goes X D e0 F cfg t r (C, A) (handleListMultipartUploads t r b g)"
proof (cases "listMultipartUploadsOptionsFromQuery (rq_Query r)")
  case (Inl err)
  then show ?thesis using gw_steppedI [OF s3_step.list_uploads [OF assms(2-4)] assms(1)] by (simp add: handleListMultipartUploads_def respond_def)
next
  case (Inr options)
  then show ?thesis
    unfolding handleListMultipartUploads_def Inr sum.case
    by (intro upload_looks [OF assms(1) listBucket_looks [OF gw_at_uploads [OF assms(1)]] s3_step.list_uploads [OF assms(2-4)]])
       (simp add: respond_def split: prod.split)
qed

lemma complete_assembled:
  assumes "durable_setting X D e0" "gw_at X D e0 (C, A) g" "at_object r b k" "upload_of r \<noteq> []" "rq_Method r = ''POST''"
    and "decodeCompleteMultipartUpload F r = Inr rs" "assemble (upload_of r) rs (gw_multipart g) = (m1, Inr (a, u))"
    and "put_allowed X D (mu_Bucket u) (mu_Key u) (as_file a)"
    and "mp_stepped (OpComplete (upload_of r) rs) A m1 (Assembled (as_file a) (as_etag a))"
  shows "gw_goes X D e0 F cfg t r (C, A) (handleCompleteMultipartUpload X F M r (upload_of r) g)"
proof -
  obtain v where v: "A (upload_of r) = Some v" "mu_UploadID u = upload_of r" "mu_Bucket u = us_Bucket v" "mu_Key u = us_Key v"
    using assemble_finds [OF gw_at_uploads [OF assms(2)] assms(7)] by blast
  have assembled: "upload_step (OpComplete (upload_of r) rs) A (Assembled (as_file a) (as_etag a)) A" "mp_tracks A m1"
    using complete_keeps [OF assms(9)] by blast+
  obtain s put where f: "Store_PutObject X M (us_Bucket v) (us_Key v) (Inr (as_file a)) (upload_options u) (os_store (gw_objects g)) = (s, put)" by fastforce
  obtain m2 closed where c: "mp_io ''close multipart assembly'' (\<lambda>dirs. dirs) m1 = (m2, closed)" by fastforce
  note m2 = close_looks [OF assembled(2) c]
  let ?C = "stored C (us_Bucket v) (us_Key v) (as_file a)"
  have put: "case put of Inr _ \<Rightarrow> us_Bucket v \<in> cat_buckets C \<and> tracked X D e0 ?C s | Inl _ \<Rightarrow> tracked X D e0 C s \<or> tracked X D e0 ?C s"
    using put_exact [OF assms(1) gw_at_store [OF assms(2)], of "us_Bucket v" "us_Key v" "as_file a" "upload_options u"] assms(8) v f
    by (auto simp: wp_def split: sum.splits)
  have late: "gw_goes X D e0 F cfg t r (C, A) (g', resp)"
    if "C' = C \<or> C' = ?C" "A' = A \<or> A' = A(upload_of r := None)" "failed resp" "tracked X D e0 C' (os_store (gw_objects g'))" "mp_tracks A' (gw_multipart g')"
    for g' resp C' A'
    by (rule gw_steppedI [OF s3_step.complete_late [OF assms(3-6) assembled(1) v(1) that(3,1,2)]]) (use that(4,5) in \<open>simp add: gw_tracks_def\<close>)
  note run = handleCompleteMultipartUpload_def call_multipart_def assms(6,7) v(2-4) Service_PutObject_def then_publish_def on_store_def f c Let_def respond_def
  show ?thesis
  proof (cases put)
    case (Inl err)
    then show ?thesis using put late [of C A] late [of ?C A] m2 by (auto simp: run gw_tracks_def)
  next
    case stored: (Inr x)
    show ?thesis
    proof (cases closed)
      case (Inl err)
      then show ?thesis using stored put late [of ?C A] m2 by (auto simp: run gw_tracks_def)
    next
      case (Inr x')
      obtain m3 z where z: "abort (upload_of r) m2 = (m3, z)" by fastforce
      from abort_steps [OF m2, of "upload_of r"] z
      have ab: "case z of Inr _ \<Rightarrow> mp_stepped (OpAbort (upload_of r)) A m3 Aborted | Inl err \<Rightarrow> mp_stepped (OpAbort (upload_of r)) A m3 (Rejected err)"
        by (auto simp: mp_wp_def split: sum.splits)
      show ?thesis
      proof (cases z)
        case (Inl err)
        then have "mp_tracks A m3 \<or> mp_tracks (A(upload_of r := None)) m3" using ab by (auto simp: mp_stepped_def elim!: upload_step_abortE)
        then show ?thesis
          using stored put late [of ?C A] late [of ?C "A(upload_of r := None)"] by (auto simp: run gw_tracks_def Inr z Inl)
      next
        case ok: (Inr x'')
        then have "mp_tracks (A(upload_of r := None)) m3" using ab v(1) by (auto simp: mp_stepped_def elim!: upload_step_abortE)
        moreover have "us_Bucket v \<in> cat_buckets C" "tracked X D e0 ?C s" using put stored by simp_all
        ultimately have "gw_goes X D e0 F cfg t r (C, A) (g', writeXML 200 (CompleteMultipartUpload (''/'' @ us_Bucket v @ ''/'' @ us_Key v)
            (us_Bucket v) (us_Key v) (as_etag a)))" if "os_store (gw_objects g') = s" "gw_multipart g' = m3" for g'
          using that by (intro gw_steppedI [OF s3_step.complete [OF assms(3-6) assembled(1) v(1)]]) (simp_all add: gw_tracks_def)
        then show ?thesis using stored by (simp add: run Inr z ok)
      qed
    qed
  qed
qed

lemma handleCompleteMultipartUpload_goes:
  assumes "durable_setting X D e0" "gw_at X D e0 (C, A) g" "at_object r b k" "upload_of r \<noteq> []" "rq_Method r = ''POST''" "complete_allowed X D F r g"
  shows "gw_goes X D e0 F cfg t r (C, A) (handleCompleteMultipartUpload X F M r (upload_of r) g)"
proof (cases "decodeCompleteMultipartUpload F r")
  case (Inl err)
  then show ?thesis
    using gw_steppedI [OF s3_step.complete_rejected [OF assms(3-5)] assms(2)] by (simp add: handleCompleteMultipartUpload_def respond_def)
next
  case rs: (Inr rs)
  note m = gw_at_uploads [OF assms(2)]
  obtain m1 y where as: "assemble (upload_of r) rs (gw_multipart g) = (m1, y)" by fastforce
  have w: "case y of Inr (a, u) \<Rightarrow> mp_stepped (OpComplete (upload_of r) rs) A m1 (Assembled (as_file a) (as_etag a))
    | Inl err \<Rightarrow> mp_stepped (OpComplete (upload_of r) rs) A m1 (Rejected err)"
    using assemble_steps [OF m, of "upload_of r" rs] as by (auto simp: mp_wp_def split: sum.splits)
  show ?thesis
  proof (cases y)
    case (Inl err)
    with w have st: "upload_step (OpComplete (upload_of r) rs) A (Rejected err) A" and "mp_tracks A m1" using complete_keeps by auto
    then have at: "gw_at X D e0 (C, A) (g\<lparr>gw_multipart := m1\<rparr>)" using assms(2) by (simp add: gw_tracks_def)
    have "decodeCompleteMultipartUpload F r = Inl err \<or> decodeCompleteMultipartUpload F r = Inr rs \<and> upload_step (OpComplete (upload_of r) rs) A (Rejected err) A"
      using rs st by blast
    from gw_steppedI [OF s3_step.complete_rejected [OF assms(3-5) this] at] show ?thesis
      by (simp add: handleCompleteMultipartUpload_def rs call_multipart_def as Inl)
  next
    case (Inr au)
    then obtain a u where au: "y = Inr (a, u)" by (cases au) simp
    show ?thesis using complete_assembled [OF assms(1-5) rs as [unfolded au]] assms(6) w by (simp add: complete_allowed_def rs as au)
  qed
qed

text \<open>Dispatch.\<close>

lemma handleBucket_goes:
  assumes "durable_setting X D e0" "gw_at X D e0 (C, A) g" "at_bucket r b" "admissible X D F r g"
  shows "gw_goes X D e0 F cfg t r (C, A) (handleBucket X F M cfg t r b g)"
proof -
  have sp: "splitS3Path (rq_Path r) = Some (b, [])" "b \<noteq> []" using assms(3) by (simp_all add: at_bucket_def)
  have b: "clean_bucket b" using assms(4) sp by (simp add: admissible_def)
  have keys: "list_all (\<lambda>key. trim_space key = [] \<or> clean_name (trim_space key)) keys"
    if "decodeDeleteObjectsRequest F r = Some (quiet, keys)" for quiet keys
    using assms(4) sp that by (simp add: admissible_def)
  have no: "gw_goes X D e0 F cfg t r (C, A) (g, methodNotAllowed)" if "\<not> known_method r b []"
    by (rule gw_steppedI [OF s3_step.not_allowed [OF sp(1) that] assms(2)])
  show ?thesis
    using handleHeadBucket_goes [OF assms(2,3) _ b] handleGetBucketLocation_goes [OF assms(2,3) _ b]
      handleListMultipartUploads_goes [OF assms(2,3)] handleListObjects_goes [OF assms(2,3) _ b]
      handleDeleteObjects_goes [OF assms(1,2,3) b keys] handleCreateBucket_goes [OF assms(2,3) _ b]
      handleDeleteBucket_goes [OF assms(1,2,3) _ b] no sp(2)
    by (simp add: handleBucket_def respond_def known_method_def)
qed

lemma handleObject_goes:
  assumes "durable_setting X D e0" "quiet_io X e0" "gw_at X D e0 (C, A) g" "at_object r b k" "admissible X D F r g"
  shows "gw_goes X D e0 F cfg t r (C, A) (handleObject X F M t r b k g)"
proof -
  have sp: "splitS3Path (rq_Path r) = Some (b, k)" "b \<noteq> []" "k \<noteq> []" using assms(4) by (simp_all add: at_object_def)
  have names: "clean_bucket b" "clean_name k" using assms(5) sp by (simp_all add: admissible_def)
  have no: "gw_goes X D e0 F cfg t r (C, A) (g, methodNotAllowed)" if "\<not> known_method r b k"
    by (rule gw_steppedI [OF s3_step.not_allowed [OF sp(1) that] assms(3)])
  show ?thesis
  proof (cases "starts_upload r")
    case True
    then show ?thesis
      using handleInitiateMultipartUpload_goes [OF assms(3,4) True] by (simp add: handleObject_def handleMultipartObject_def starts_upload_def)
  next
    case plain: False
    then have ns: "\<not> (rq_Method r = ''POST'' \<and> hasQueryKey (rq_Query r) ''uploads'')" by (simp add: starts_upload_def)
    show ?thesis
    proof (cases "upload_of r = []")
      case False
      have co: "rq_Method r = ''POST'' \<Longrightarrow> complete_allowed X D F r g" using assms(5) sp plain False by (simp add: admissible_def)
      show ?thesis
        using handleUploadPart_goes [OF assms(3,4) plain False] handleListParts_goes [OF assms(3,4) False]
          handleCompleteMultipartUpload_goes [OF assms(1,3,4) False _ co] handleAbortMultipartUpload_goes [OF assms(3,4) plain False] no sp plain False ns
        by (simp add: handleObject_def handleMultipartObject_def Let_def respond_def known_method_def flip: upload_of_def)
    next
      case True
      have at: "at_plain r b k" using assms(4) True by (simp add: at_plain_def)
      have put: "gw_goes X D e0 F cfg t r (C, A) (handlePutObject X M r b k g)" if "rq_Method r = ''PUT''" "\<not> copies r"
      proof (cases "rq_Body r")
        case (Inl er)
        show ?thesis by (rule handlePutObject_unread_goes [OF assms(3) at that(1) Inl names])
      next
        case (Inr d)
        have "put_allowed X D b k d" using assms(5) sp plain True that Inr by (simp add: admissible_def)
        then show ?thesis by (rule handlePutObject_goes [OF assms(1,3) at that Inr])
      qed
      have copy: "gw_goes X D e0 F cfg t r (C, A) (handleCopyObject X F M t r b k g)" if "rq_Method r = ''PUT''" "copies r"
        using assms(5) sp plain True that by (intro handleCopyObject_goes [OF assms(1,2,3) at that]) (auto simp: admissible_def split: option.splits)
      have none: "handleMultipartObject X F M t r b k = None" using True ns by (auto simp: handleMultipartObject_def Let_def upload_of_def)
      show ?thesis
        using handleHeadObject_goes [OF assms(3) at _ names] handleGetObject_goes [OF assms(1,2,3) at _ names] put copy
          handleDeleteObject_goes [OF assms(1,3) at _ names] no sp plain True ns
        by (simp add: handleObject_def none respond_def known_method_def copies_def)
    qed
  qed
qed

lemma gateway_steps:
  assumes "durable_setting X D e0" "quiet_io X e0" "gw_at X D e0 S g" "admissible X D F r g"
  shows "gw_goes X D e0 F cfg t r S (ServeHTTP X F M cfg t r g)"
proof (cases S)
  case (Pair C A)
  note at = assms(3) [unfolded Pair]
  consider "authorize X cfg (mo_now t) r \<noteq> None" | "authorize X cfg (mo_now t) r = None" "splitS3Path (rq_Path r) = None"
    | k where "authorize X cfg (mo_now t) r = None" "splitS3Path (rq_Path r) = Some ([], k)"
    | b where "authorize X cfg (mo_now t) r = None" "at_bucket r b" | b k where "authorize X cfg (mo_now t) r = None" "at_object r b k"
    unfolding at_bucket_def at_object_def by (metis option.exhaust prod.exhaust)
  then show ?thesis
  proof cases
    case 1
    then show ?thesis using gw_steppedI [OF s3_step.denied assms(3)] by (auto simp: ServeHTTP_def respond_def)
  next
    case 2
    then show ?thesis using gw_steppedI [OF s3_step.malformed assms(3)] by (simp add: ServeHTTP_def respond_def)
  next
    case 3
    then show ?thesis using handleService_goes [OF at 3(2)] by (simp add: ServeHTTP_def Pair)
  next
    case 4
    then show ?thesis using handleBucket_goes [OF assms(1) at 4(2) assms(4)] by (simp add: ServeHTTP_def at_bucket_def Pair)
  next
    case 5
    then show ?thesis using handleObject_goes [OF assms(1,2) at 5(2) assms(4)] by (simp add: ServeHTTP_def at_object_def Pair)
  qed
qed

lemma gateway_runs:
  assumes "durable_setting X D e0" "quiet_io X e0" "gw_at X D e0 S g" "all_admissible X D F M cfg qs g"
  shows "\<exists>S'. s3_run X F cfg qs S (snd (gw_serve_all X F M cfg qs g)) S'"
  using assms(3,4)
proof (induction qs arbitrary: S g)
  case Nil
  have "s3_run X F cfg [] S [] S" by (rule s3_run.none)
  then show ?case by (metis gw_serve_all.simps(1) snd_conv)
next
  case (Cons q qs)
  obtain g1 resp where q: "ServeHTTP X F M cfg (fst q) (snd q) g = (g1, resp)" by fastforce
  obtain S1 where S1: "s3_step X F cfg (fst q) (snd q) S resp S1" "gw_at X D e0 S1 g1"
    using gateway_steps [OF assms(1,2) Cons.prems(1), of F "snd q" cfg "fst q"] Cons.prems(2) q by (auto simp: gw_stepped_def)
  from Cons.IH [OF S1(2)] Cons.prems(2) q obtain S' where "s3_run X F cfg qs S1 (snd (gw_serve_all X F M cfg qs g1)) S'" by auto
  from s3_run.more [OF S1(1) this] have "s3_run X F cfg (q # qs) S (resp # snd (gw_serve_all X F M cfg qs g1)) S'" by (metis prod.collapse)
  moreover have "snd (gw_serve_all X F M cfg (q # qs) g) = resp # snd (gw_serve_all X F M cfg qs g1)" by (simp add: q split: prod.split)
  ultimately show ?case by metis
qed

end

end
