(* ===== verification/Repair_Service.thy ===== *)
theory Repair_Service
  imports Object_Service "HOL-Library.Word"
begin

text \<open>
  The repair service (\<open>internal/repair\<close>): a run visits the objects of one or all buckets, checks their health, scrubs the healthy ones and
  repairs the others with retries and a rate limit; its summary, its history and the issues it met are kept. Log lines are not modelled.
  Time passes between two readings of the clock as the schedule \<open>rt_delays\<close> says, and while the service sleeps. Numbers of type
  \<open>float64\<close> are their 64 bits, and arithmetic on them is a parameter.
\<close>

section \<open>Settings, errors and results\<close>

record Floats =
  fl_below_one :: "64 word \<Rightarrow> bool"
  fl_scaled :: "int \<Rightarrow> 64 word \<Rightarrow> nat \<Rightarrow> int"

record repair_config =
  rg_MaxBatch :: int
  rg_MaxRetries :: int
  rg_RateLimit :: int
  rg_RetryBackoff :: int
  rg_RetryMaxBackoff :: int
  rg_RetryMultiplier :: "64 word"

datatype context_error = Canceled | DeadlineExceeded

text \<open>A context ends at a time with an error, or never.\<close>

type_synonym run_context = "(time \<times> context_error) option"

definition context_Err :: "run_context \<Rightarrow> time \<Rightarrow> context_error option" where
  "context_Err ctx now = (case ctx of Some (t, err) \<Rightarrow> if t \<le> now then Some err else None | None \<Rightarrow> None)"

datatype repair_error = RE_Store store_error | RE_Context context_error | ErrRepairAlreadyRunning

record RepairEnv =
  ren_X :: Externals
  ren_floats :: Floats
  ren_text :: "repair_error \<Rightarrow> string"

record Issue =
  iss_Bucket :: string
  iss_Key :: string
  iss_Kind :: string
  iss_Reason :: string
  iss_Missing :: nat
  iss_Corrupted :: nat
  iss_Available :: nat
  iss_TotalChunks :: nat
  iss_Recoverable :: bool

record Summary =
  su_RunID :: string
  su_Buckets :: nat
  su_Objects :: nat
  su_Unhealthy :: nat
  su_Missing :: nat
  su_Corrupted :: nat
  su_Scrubbed :: nat
  su_ScrubFailed :: nat
  su_ChecksumFailed :: nat
  su_RepairAttempts :: nat
  su_RepairRetries :: nat
  su_RetryDelayMs :: int
  su_Throttled :: nat
  su_ThrottleWaitMs :: int
  su_RepairedObjects :: nat
  su_RepairedShards :: nat
  su_Unrecoverable :: nat
  su_Failed :: nat
  su_Limited :: bool
  su_Issues :: "Issue list"

definition zero_Summary :: Summary where
  "zero_Summary = \<lparr>su_RunID = [], su_Buckets = 0, su_Objects = 0, su_Unhealthy = 0, su_Missing = 0, su_Corrupted = 0, su_Scrubbed = 0,
     su_ScrubFailed = 0, su_ChecksumFailed = 0, su_RepairAttempts = 0, su_RepairRetries = 0, su_RetryDelayMs = 0, su_Throttled = 0,
     su_ThrottleWaitMs = 0, su_RepairedObjects = 0, su_RepairedShards = 0, su_Unrecoverable = 0, su_Failed = 0, su_Limited = False, su_Issues = []\<rparr>"

record RepairRunProgress =
  pg_RunID :: string
  pg_Bucket :: string
  pg_Object :: string
  pg_BucketIndex :: nat
  pg_BucketTotal :: nat
  pg_ObjectIndex :: nat
  pg_ObjectsInBucket :: nat
  pg_ObjectsScanned :: nat

record Status =
  sta_Running :: bool
  sta_LastRunID :: string
  sta_LastBucket :: string
  sta_LastPrefix :: string
  sta_LastTrigger :: string
  sta_LastStartedAt :: time
  sta_LastFinishedAt :: time
  sta_LastDuration :: int
  sta_LastError :: string
  sta_LastErrorKind :: string
  sta_LastSummary :: Summary
  sta_Progress :: "RepairRunProgress option"

record RunRecord =
  rcd_RunID :: string
  rcd_Bucket :: string
  rcd_Prefix :: string
  rcd_Trigger :: string
  rcd_StartedAt :: time
  rcd_FinishedAt :: time
  rcd_Duration :: int
  rcd_Error :: string
  rcd_ErrorKind :: string
  rcd_Summary :: Summary
  rcd_IssueCount :: nat

record 'm RepairRuntime =
  rt_cfg :: repair_config
  rt_objects :: "'m Service"
  rt_status :: Status
  rt_history :: "RunRecord list"
  rt_issues :: "(string, Issue list) fmap"
  rt_lastTrigger :: string
  rt_nextRunID :: nat
  rt_now :: time
  rt_delays :: "nat list"

section \<open>Time\<close>

text \<open>\<open>time.Now\<close>, and waiting for a timer or the end of the context, whichever comes first.\<close>

definition read_clock :: "'m RepairRuntime \<Rightarrow> 'm RepairRuntime \<times> time" where
  "read_clock rt =
     (let t = rt_now rt + (case rt_delays rt of [] \<Rightarrow> 0 | d # _ \<Rightarrow> int d)
      in (rt\<lparr>rt_now := t, rt_delays := tl (rt_delays rt)\<rparr>, t))"

definition sleep_or_done :: "run_context \<Rightarrow> int \<Rightarrow> 'm RepairRuntime \<Rightarrow> 'm RepairRuntime \<times> repair_error option" where
  "sleep_or_done ctx wait rt =
     (case ctx of
        Some (t, err) \<Rightarrow>
          if t \<le> rt_now rt + wait then (rt\<lparr>rt_now := max (rt_now rt) t\<rparr>, Some (RE_Context err)) else (rt\<lparr>rt_now := rt_now rt + wait\<rparr>, None)
      | None \<Rightarrow> (rt\<lparr>rt_now := rt_now rt + wait\<rparr>, None))"

definition milliseconds :: "int \<Rightarrow> int" where
  "milliseconds d = (if d < 0 then - ((- d) div 1000000) else d div 1000000)"

section \<open>The rate limit\<close>

record repairLimiter =
  li_interval :: int
  li_next :: time

definition newRepairLimiter :: "int \<Rightarrow> repairLimiter" where
  "newRepairLimiter rateLimit =
     \<lparr>li_interval = (if rateLimit \<le> 0 then 0 else 1000000000 div rateLimit), li_next = 0\<rparr>"

definition limiter_Wait :: "run_context \<Rightarrow> repairLimiter \<Rightarrow> 'm RepairRuntime \<Rightarrow> 'm RepairRuntime \<times> repairLimiter \<times> (repair_error + bool \<times> int)" where
  "limiter_Wait ctx limiter rt =
     (if li_interval limiter \<le> 0 then (rt, limiter, Inr (False, 0))
      else case read_clock rt of
        (rt, now) \<Rightarrow>
          if li_next limiter = 0 then (rt, limiter\<lparr>li_next := now + li_interval limiter\<rparr>, Inr (False, 0))
          else case read_clock rt of
            (rt, later) \<Rightarrow>
              let wait = li_next limiter - later in
              if wait \<le> 0 then (rt, limiter\<lparr>li_next := now + li_interval limiter\<rparr>, Inr (False, 0))
              else case sleep_or_done ctx wait rt of
                (rt, Some err) \<Rightarrow> (rt, limiter, Inl err)
              | (rt, None) \<Rightarrow> (case read_clock rt of (rt, woken) \<Rightarrow> (rt, limiter\<lparr>li_next := woken + li_interval limiter\<rparr>, Inr (True, wait))))"

section \<open>Issues\<close>

definition maxRepairIssues :: nat where "maxRepairIssues = 50"

definition maxRepairHistory :: nat where "maxRepairHistory = 20"

fun contains_text :: "string \<Rightarrow> string \<Rightarrow> bool" where
  "contains_text [] t \<longleftrightarrow> t = []"
| "contains_text (c # s) t \<longleftrightarrow> has_prefix (c # s) t \<or> contains_text s t"

definition error_is_store :: "repair_error \<Rightarrow> store_error \<Rightarrow> bool" where
  "error_is_store err target = (case err of RE_Store e \<Rightarrow> error_is e target | _ \<Rightarrow> False)"

definition classifyRepairError :: "RepairEnv \<Rightarrow> repair_error option \<Rightarrow> string" where
  "classifyRepairError E err =
     (case err of
        None \<Rightarrow> []
      | Some err \<Rightarrow>
          if err = RE_Context Canceled then ''context_canceled''
          else if err = RE_Context DeadlineExceeded then ''context_timeout''
          else if error_is_store err ErrNotFound then ''object_not_found''
          else if error_is_store err (ErrEngine EObjectCorrupted) then ''object_corrupted''
          else if error_is_store err ErrEngineFailed then ''engine_failed''
          else if error_is_store err ErrBadRequest then ''bad_request''
          else let message = ToLower (ren_X E) (ren_text E err) in
            if contains_text message ''checksum'' \<or> contains_text message ''corrupt'' then ''object_corrupted'' else ''runtime_error'')"

definition addIssue :: "Summary \<Rightarrow> Issue \<Rightarrow> Summary" where
  "addIssue summary issue =
     (if maxRepairIssues \<le> length (su_Issues summary) then summary else summary\<lparr>su_Issues := su_Issues summary @ [issue]\<rparr>)"

definition issueFromHealth :: "ObjectMeta \<Rightarrow> Health \<Rightarrow> string \<Rightarrow> string \<Rightarrow> Issue" where
  "issueFromHealth meta health kind reason =
     \<lparr>iss_Bucket = om_bucket meta, iss_Key = om_key meta, iss_Kind = kind, iss_Reason = reason, iss_Missing = he_Missing health,
      iss_Corrupted = he_Corrupted health, iss_Available = he_Available health, iss_TotalChunks = he_TotalChunks health,
      iss_Recoverable = he_Recoverable health\<rparr>"

definition error_issue :: "RepairEnv \<Rightarrow> ObjectMeta \<Rightarrow> string \<Rightarrow> repair_error \<Rightarrow> Issue" where
  "error_issue E meta kind err =
     \<lparr>iss_Bucket = om_bucket meta, iss_Key = om_key meta, iss_Kind = kind, iss_Reason = ren_text E err, iss_Missing = 0,
      iss_Corrupted = 0, iss_Available = 0, iss_TotalChunks = 0, iss_Recoverable = False\<rparr>"

definition withoutIssues :: "Summary \<Rightarrow> Summary" where
  "withoutIssues summary = summary\<lparr>su_Issues := []\<rparr>"

section \<open>Status and history\<close>

definition setRunTrigger :: "string \<Rightarrow> 'm RepairRuntime \<Rightarrow> 'm RepairRuntime" where
  "setRunTrigger trigger rt = rt\<lparr>rt_lastTrigger := (if trim_space trigger = [] then ''manual'' else trim_space trigger)\<rparr>"

definition newRunID :: "'m RepairRuntime \<Rightarrow> 'm RepairRuntime \<times> string" where
  "newRunID rt = (rt\<lparr>rt_nextRunID := rt_nextRunID rt + 1\<rparr>, ''maxio.object.repair-'' @ show_nat (rt_nextRunID rt + 1))"

definition empty_progress :: "string \<Rightarrow> RepairRunProgress" where
  "empty_progress runID = \<lparr>pg_RunID = runID, pg_Bucket = [], pg_Object = [], pg_BucketIndex = 0, pg_BucketTotal = 0, pg_ObjectIndex = 0,
     pg_ObjectsInBucket = 0, pg_ObjectsScanned = 0\<rparr>"

definition tryMarkStarted :: "string \<Rightarrow> 'm RepairRuntime \<Rightarrow> 'm RepairRuntime \<times> time option" where
  "tryMarkStarted runID rt =
     (if sta_Running (rt_status rt) then (rt, None)
      else case read_clock rt of
        (rt, now) \<Rightarrow>
          (rt\<lparr>rt_status := (rt_status rt)\<lparr>sta_Running := True, sta_LastRunID := runID, sta_LastStartedAt := now, sta_LastError := [],
                sta_Progress := Some (empty_progress runID)\<rparr>\<rparr>, Some now))"

definition setProgress :: "RepairRunProgress \<Rightarrow> 'm RepairRuntime \<Rightarrow> 'm RepairRuntime" where
  "setProgress progress rt =
     (if \<not> sta_Running (rt_status rt) then rt
      else if sta_LastRunID (rt_status rt) = [] \<or> sta_LastRunID (rt_status rt) \<noteq> pg_RunID progress then rt
      else rt\<lparr>rt_status := (rt_status rt)\<lparr>sta_Progress := Some progress\<rparr>\<rparr>)"

definition recordRun :: "RepairEnv \<Rightarrow> time \<Rightarrow> string \<Rightarrow> string \<Rightarrow> string \<Rightarrow> Summary \<Rightarrow> repair_error option \<Rightarrow> string \<Rightarrow> string \<Rightarrow>
    'm RepairRuntime \<Rightarrow> 'm RepairRuntime" where
  "recordRun E startedAt runID bucket prefix summary err trigger errorKind rt =
     (case (if runID = [] then newRunID rt else (rt, runID)) of
        (rt, runID) \<Rightarrow>
          (case read_clock rt of
             (rt, finishedAt) \<Rightarrow>
               let errorKind = (if errorKind = [] then classifyRepairError E err else errorKind);
                   entry = \<lparr>rcd_RunID = runID, rcd_Bucket = trim_space bucket, rcd_Prefix = trim_space prefix, rcd_Trigger = trigger,
                     rcd_StartedAt = startedAt, rcd_FinishedAt = finishedAt, rcd_Duration = milliseconds (sta_LastDuration (rt_status rt)),
                     rcd_Error = (case err of None \<Rightarrow> [] | Some e \<Rightarrow> ren_text E e), rcd_ErrorKind = errorKind,
                     rcd_Summary = withoutIssues summary, rcd_IssueCount = length (su_Issues summary)\<rparr>;
                   history = entry # rt_history rt;
                   gone = map rcd_RunID (drop maxRepairHistory history)
               in rt\<lparr>rt_history := take maxRepairHistory history,
                     rt_issues := fmupd runID (su_Issues summary) (fmdrop_set (set gone) (rt_issues rt))\<rparr>))"

definition markFinished :: "RepairEnv \<Rightarrow> time \<Rightarrow> string \<Rightarrow> string \<Rightarrow> string \<Rightarrow> Summary \<Rightarrow> repair_error option \<Rightarrow> 'm RepairRuntime \<Rightarrow> 'm RepairRuntime" where
  "markFinished E startedAt runID bucket prefix summary err rt =
     (let errorKind = classifyRepairError E err;
          trigger = (if trim_space (rt_lastTrigger rt) = [] then ''manual'' else rt_lastTrigger rt)
      in case read_clock rt of
        (rt, finishedAt) \<Rightarrow>
          (case (if startedAt = 0 then (rt, 0) else map_prod id (\<lambda>now. now - startedAt) (read_clock rt)) of
             (rt, duration) \<Rightarrow>
               let rt = rt\<lparr>rt_status := (rt_status rt)\<lparr>sta_Running := False, sta_LastFinishedAt := finishedAt, sta_LastRunID := runID,
                          sta_LastBucket := trim_space bucket, sta_LastPrefix := trim_space prefix, sta_LastTrigger := trigger,
                          sta_LastSummary := summary, sta_Progress := None, sta_LastErrorKind := errorKind, sta_LastDuration := duration\<rparr>\<rparr>;
                   rt = recordRun E startedAt runID (trim_space bucket) (trim_space prefix) summary err trigger errorKind rt
               in rt\<lparr>rt_status := (rt_status rt)\<lparr>sta_LastError := (case err of None \<Rightarrow> [] | Some e \<Rightarrow> ren_text E e)\<rparr>\<rparr>))"

text \<open>Pages of the history and of the issues of a run.\<close>

definition page_of :: "int \<Rightarrow> int \<Rightarrow> 'a list \<Rightarrow> 'a list" where
  "page_of offset limit xs = (let offset = nat (max offset 0) in take (nat limit) (drop offset xs))"

definition History :: "int \<Rightarrow> int \<Rightarrow> 'm RepairRuntime \<Rightarrow> RunRecord list \<times> nat" where
  "History offset limit rt =
     (if limit \<le> 0 then ([], length (rt_history rt)) else (page_of offset limit (rt_history rt), length (rt_history rt)))"

definition Issues :: "string \<Rightarrow> int \<Rightarrow> int \<Rightarrow> 'm RepairRuntime \<Rightarrow> Issue list \<times> nat \<times> bool" where
  "Issues runID offset limit rt =
     (if runID = [] then ([], 0, False)
      else if limit \<le> 0 then ([], 0, True)
      else case fmlookup (rt_issues rt) runID of
        None \<Rightarrow> ([], 0, False)
      | Some issues \<Rightarrow> (page_of offset limit issues, length issues, True))"

section \<open>One object\<close>

definition on_objects :: "('m, 'a) service_action \<Rightarrow> 'm RepairRuntime \<Rightarrow> 'm RepairRuntime \<times> (repair_error + 'a)" where
  "on_objects f rt = (case f (rt_objects rt) of (s, r) \<Rightarrow> (rt\<lparr>rt_objects := s\<rparr>, map_sum RE_Store id r))"

definition repairRetryBackoffDuration :: "Floats \<Rightarrow> int \<Rightarrow> int \<Rightarrow> int \<Rightarrow> 64 word \<Rightarrow> int" where
  "repairRetryBackoffDuration fl base tries maxBackoff multiplier =
     (if tries < 0 \<or> fl_below_one fl multiplier \<or> base \<le> 0 then (if base \<le> 0 then 0 else base)
      else let delay = fl_scaled fl base multiplier (nat tries) in
        if 0 < maxBackoff \<and> maxBackoff < delay then maxBackoff else delay)"

definition waitRepairRetry :: "run_context \<Rightarrow> int \<Rightarrow> 'm RepairRuntime \<Rightarrow> 'm RepairRuntime \<times> repair_error option" where
  "waitRepairRetry ctx backoff rt =
     (if backoff \<le> 0 then (rt, map_option RE_Context (context_Err ctx (rt_now rt))) else sleep_or_done ctx backoff rt)"

text \<open>The loop over the attempts: \<open>left\<close> attempts remain after this one.\<close>

fun repair_attempts :: "RepairEnv \<Rightarrow> 'm MetadataStore \<Rightarrow> run_context \<Rightarrow> ObjectMeta \<Rightarrow> nat \<Rightarrow> nat \<Rightarrow> Summary \<Rightarrow> 'm RepairRuntime \<Rightarrow>
    'm RepairRuntime \<times> Summary \<times> (repair_error + nat)" where
  "repair_attempts E M ctx meta left tries summary rt =
     (case on_objects (Service_RepairObject (ren_X E) M (om_bucket meta) (om_key meta)) rt of
        (rt, Inr result) \<Rightarrow> (rt, summary, Inr (case result of None \<Rightarrow> 0 | Some r \<Rightarrow> length (rr_Repaired r)))
      | (rt, Inl err) \<Rightarrow>
          (case left of
             0 \<Rightarrow> (rt, summary, Inl err)
           | Suc left \<Rightarrow>
               let wait = repairRetryBackoffDuration (ren_floats E) (rg_RetryBackoff (rt_cfg rt)) (int tries) (rg_RetryMaxBackoff (rt_cfg rt))
                     (rg_RetryMultiplier (rt_cfg rt));
                   summary = summary\<lparr>su_RepairRetries := su_RepairRetries summary + 1, su_RetryDelayMs := su_RetryDelayMs summary + milliseconds wait\<rparr>
               in case waitRepairRetry ctx wait rt of
                    (rt, Some err) \<Rightarrow> (rt, summary, Inl err)
                  | (rt, None) \<Rightarrow> repair_attempts E M ctx meta left (Suc tries) summary rt))"

declare repair_attempts.simps [simp del]

definition repairObjectWithRetry :: "RepairEnv \<Rightarrow> 'm MetadataStore \<Rightarrow> run_context \<Rightarrow> ObjectMeta \<Rightarrow> Summary \<Rightarrow> 'm RepairRuntime \<Rightarrow>
    'm RepairRuntime \<times> Summary \<times> (repair_error + nat)" where
  "repairObjectWithRetry E M ctx meta summary rt =
     (let attempts = max (rg_MaxRetries (rt_cfg rt) + 1) 1 in repair_attempts E M ctx meta (nat (attempts - 1)) 0 summary rt)"

definition recordUnhealthyScrub :: "ObjectMeta \<Rightarrow> ScrubResult option \<Rightarrow> Summary \<Rightarrow> Summary" where
  "recordUnhealthyScrub meta result summary =
     (let health = (case result of None \<Rightarrow> \<lparr>he_Bucket = [], he_Key = [], he_TotalChunks = 0, he_Available = 0, he_Missing = 0, he_Corrupted = 0,
            he_Recoverable = False\<rparr> | Some r \<Rightarrow> sc_Health r)
      in addIssue (summary\<lparr>su_ScrubFailed := su_ScrubFailed summary + 1, su_Unhealthy := su_Unhealthy summary + 1,
             su_Missing := su_Missing summary + he_Missing health, su_Corrupted := su_Corrupted summary + he_Corrupted health\<rparr>)
           (issueFromHealth meta health ''unhealthy_scrub'' ''object scrub reported unhealthy shards''))"

definition recordFailedScrub :: "RepairEnv \<Rightarrow> ObjectMeta \<Rightarrow> repair_error \<Rightarrow> Summary \<Rightarrow> Summary" where
  "recordFailedScrub E meta err summary =
     (let summary = summary\<lparr>su_ScrubFailed := su_ScrubFailed summary + 1\<rparr> in
      if error_is_store err (ErrEngine EObjectCorrupted)
      then addIssue (summary\<lparr>su_Unhealthy := su_Unhealthy summary + 1, su_Corrupted := su_Corrupted summary + 1,
             su_ChecksumFailed := su_ChecksumFailed summary + 1, su_Unrecoverable := su_Unrecoverable summary + 1\<rparr>)
           (error_issue E meta ''checksum_failed'' err)
      else addIssue (summary\<lparr>su_Failed := su_Failed summary + 1\<rparr>) (error_issue E meta ''scrub_failed'' err))"

definition scrubHealthyObject :: "RepairEnv \<Rightarrow> 'm MetadataStore \<Rightarrow> ObjectMeta \<Rightarrow> Summary \<Rightarrow> 'm RepairRuntime \<Rightarrow> 'm RepairRuntime \<times> Summary" where
  "scrubHealthyObject E M meta summary rt =
     (let summary = summary\<lparr>su_Scrubbed := su_Scrubbed summary + 1\<rparr> in
      case on_objects (Service_ScrubObject (ren_X E) M (om_bucket meta) (om_key meta)) rt of
        (rt, Inl err) \<Rightarrow> (rt, recordFailedScrub E meta err summary)
      | (rt, Inr result) \<Rightarrow>
          if (case result of None \<Rightarrow> False | Some r \<Rightarrow> sc_Healthy r) then (rt, summary)
          else (rt, recordUnhealthyScrub meta result summary))"

definition repairObject :: "RepairEnv \<Rightarrow> 'm MetadataStore \<Rightarrow> run_context \<Rightarrow> ObjectMeta \<Rightarrow> Summary \<Rightarrow> repairLimiter \<Rightarrow> 'm RepairRuntime \<Rightarrow>
    'm RepairRuntime \<times> Summary \<times> repairLimiter \<times> repair_error option" where
  "repairObject E M ctx meta summary limiter rt =
     (case context_Err ctx (rt_now rt) of
        Some err \<Rightarrow> (rt, summary, limiter, Some (RE_Context err))
      | None \<Rightarrow>
          let summary = summary\<lparr>su_Objects := su_Objects summary + 1\<rparr> in
          (case on_objects (Service_CheckHealth (ren_X E) (om_bucket meta) (om_key meta)) rt of
             (rt, Inl err) \<Rightarrow>
               (rt, addIssue (summary\<lparr>su_Failed := su_Failed summary + 1\<rparr>) (error_issue E meta ''health_check_failed'' err), limiter, None)
           | (rt, Inr health) \<Rightarrow>
               if he_Missing health = 0 \<and> he_Corrupted health = 0
               then (case scrubHealthyObject E M meta summary rt of (rt, summary) \<Rightarrow> (rt, summary, limiter, None))
               else
                 let summary = summary\<lparr>su_Missing := su_Missing summary + he_Missing health, su_Corrupted := su_Corrupted summary + he_Corrupted health,
                       su_Unhealthy := su_Unhealthy summary + 1\<rparr> in
                 if \<not> he_Recoverable health
                 then (rt, addIssue (summary\<lparr>su_Unrecoverable := su_Unrecoverable summary + 1\<rparr>)
                        (issueFromHealth meta health ''unrecoverable_shards'' ''object shards are not recoverable''), limiter, None)
                 else (case limiter_Wait ctx limiter rt of
                     (rt, limiter, Inl err) \<Rightarrow> (rt, summary, limiter, Some err)
                   | (rt, limiter, Inr (throttled, waited)) \<Rightarrow>
                       let summary = (if throttled then summary\<lparr>su_Throttled := su_Throttled summary + 1,
                               su_ThrottleWaitMs := su_ThrottleWaitMs summary + milliseconds waited\<rparr> else summary);
                           summary = summary\<lparr>su_RepairAttempts := su_RepairAttempts summary + 1\<rparr>
                       in case repairObjectWithRetry E M ctx meta summary rt of
                            (rt, summary, Inl err) \<Rightarrow>
                              (rt, addIssue (summary\<lparr>su_Failed := su_Failed summary + 1\<rparr>) (error_issue E meta ''repair_failed'' err), limiter, None)
                          | (rt, summary, Inr repairedShards) \<Rightarrow>
                              (rt, if 0 < repairedShards
                                 then summary\<lparr>su_RepairedObjects := su_RepairedObjects summary + 1, su_RepairedShards := su_RepairedShards summary + repairedShards\<rparr>
                                 else summary, limiter, None))))"

section \<open>A run\<close>

definition shouldStopRepair :: "repair_config \<Rightarrow> Summary \<Rightarrow> bool" where
  "shouldStopRepair cfg summary \<longleftrightarrow> 0 < rg_MaxBatch cfg \<and> rg_MaxBatch cfg \<le> int (su_RepairAttempts summary)"

definition progress_at :: "string \<Rightarrow> string \<Rightarrow> nat \<Rightarrow> nat \<Rightarrow> nat \<Rightarrow> string \<Rightarrow> nat \<Rightarrow> nat \<Rightarrow> RepairRunProgress" where
  "progress_at runID bucket bucketIndex bucketTotal objectIndex key scanned inBucket =
     \<lparr>pg_RunID = runID, pg_Bucket = bucket, pg_Object = key, pg_BucketIndex = bucketIndex, pg_BucketTotal = bucketTotal,
      pg_ObjectIndex = objectIndex, pg_ObjectsInBucket = inBucket, pg_ObjectsScanned = scanned\<rparr>"

text \<open>The loop over the objects of a bucket from index \<open>i\<close> on; \<open>at i key n\<close> is the progress after \<open>n\<close> objects.\<close>

fun scan_objects :: "RepairEnv \<Rightarrow> 'm MetadataStore \<Rightarrow> run_context \<Rightarrow> (nat \<Rightarrow> string \<Rightarrow> nat \<Rightarrow> RepairRunProgress) \<Rightarrow> nat \<Rightarrow> ObjectMeta list \<Rightarrow>
    Summary \<Rightarrow> repairLimiter \<Rightarrow> 'm RepairRuntime \<Rightarrow> 'm RepairRuntime \<times> Summary \<times> repairLimiter \<times> repair_error option" where
  "scan_objects E M ctx at i [] summary limiter rt = (rt, summary, limiter, None)"
| "scan_objects E M ctx at i (meta # metas) summary limiter rt =
     (if shouldStopRepair (rt_cfg rt) summary
      then let summary = summary\<lparr>su_Limited := True\<rparr> in (setProgress (at i [] (su_Objects summary)) rt, summary, limiter, None)
      else case repairObject E M ctx meta summary limiter (setProgress (at (Suc i) (om_key meta) (su_Objects summary)) rt) of
        (rt, summary, limiter, Some err) \<Rightarrow> (rt, summary, limiter, Some err)
      | (rt, summary, limiter, None) \<Rightarrow>
          scan_objects E M ctx at (Suc i) metas summary limiter (setProgress (at (Suc i) (om_key meta) (su_Objects summary)) rt))"

definition scanBucket :: "RepairEnv \<Rightarrow> 'm MetadataStore \<Rightarrow> run_context \<Rightarrow> string \<Rightarrow> nat \<Rightarrow> nat \<Rightarrow> string \<Rightarrow> string \<Rightarrow>
    Summary \<Rightarrow> repairLimiter \<Rightarrow> 'm RepairRuntime \<Rightarrow> 'm RepairRuntime \<times> Summary \<times> repairLimiter \<times> repair_error option" where
  "scanBucket E M ctx bucket bucketIndex totalBuckets runID prefix summary limiter rt =
     (case context_Err ctx (rt_now rt) of
        Some err \<Rightarrow> (rt, summary, limiter, Some (RE_Context err))
      | None \<Rightarrow>
          (case on_objects (Service_ListObjects M bucket prefix) rt of
             (rt, Inl err) \<Rightarrow>
               let summary = summary\<lparr>su_Failed := su_Failed summary + 1\<rparr>
               in (setProgress (progress_at runID bucket bucketIndex totalBuckets 0 [] (su_Objects summary) 0) rt, summary, limiter, None)
           | (rt, Inr objects) \<Rightarrow>
               let at = (\<lambda>i key n. progress_at runID bucket bucketIndex totalBuckets i key n (length objects))
               in scan_objects E M ctx at 0 objects summary limiter (setProgress (at 0 [] (su_Objects summary)) rt)))"

fun scan_buckets :: "RepairEnv \<Rightarrow> 'm MetadataStore \<Rightarrow> run_context \<Rightarrow> nat \<Rightarrow> nat \<Rightarrow> string \<Rightarrow> string \<Rightarrow> Bucket list \<Rightarrow>
    Summary \<Rightarrow> repairLimiter \<Rightarrow> 'm RepairRuntime \<Rightarrow> 'm RepairRuntime \<times> Summary \<times> repair_error option" where
  "scan_buckets E M ctx i totalBuckets runID prefix [] summary limiter rt = (rt, summary, None)"
| "scan_buckets E M ctx i totalBuckets runID prefix (b # bs) summary limiter rt =
     (case scanBucket E M ctx (bkt_name b) (Suc i) totalBuckets runID prefix summary limiter rt of
        (rt, summary, limiter, Some err) \<Rightarrow> (rt, summary, Some err)
      | (rt, summary, limiter, None) \<Rightarrow>
          if su_Limited summary then (rt, summary, None)
          else scan_buckets E M ctx (Suc i) totalBuckets runID prefix bs summary limiter rt)"

definition scanBuckets :: "RepairEnv \<Rightarrow> 'm MetadataStore \<Rightarrow> run_context \<Rightarrow> Bucket list \<Rightarrow> string \<Rightarrow> string \<Rightarrow> Summary \<Rightarrow> repairLimiter \<Rightarrow>
    'm RepairRuntime \<Rightarrow> 'm RepairRuntime \<times> Summary \<times> repair_error option" where
  "scanBuckets E M ctx buckets runID prefixFilter summary limiter rt =
     scan_buckets E M ctx 0 (length buckets) runID prefixFilter (sort_key bkt_name buckets) summary limiter rt"

definition resolveBuckets :: "'m MetadataStore \<Rightarrow> string \<Rightarrow> 'm RepairRuntime \<Rightarrow> 'm RepairRuntime \<times> (repair_error + Bucket list)" where
  "resolveBuckets M bucketFilter rt =
     (if bucketFilter = [] then on_objects (Service_ListBuckets M) rt
      else (rt, Inr [\<lparr>bkt_name = bucketFilter, bkt_created = 0\<rparr>]))"

definition runOnce :: "RepairEnv \<Rightarrow> 'm MetadataStore \<Rightarrow> run_context \<Rightarrow> string \<Rightarrow> string \<Rightarrow> string \<Rightarrow> 'm RepairRuntime \<Rightarrow>
    'm RepairRuntime \<times> Summary \<times> repair_error option" where
  "runOnce E M ctx runID bucketFilter prefixFilter rt =
     (let summary = zero_Summary\<lparr>su_RunID := runID\<rparr> in
      case resolveBuckets M bucketFilter rt of
        (rt, Inl err) \<Rightarrow> (rt, summary, Some err)
      | (rt, Inr buckets) \<Rightarrow>
          scanBuckets E M ctx buckets runID (trim_space prefixFilter) (summary\<lparr>su_Buckets := length buckets\<rparr>)
            (newRepairLimiter (rg_RateLimit (rt_cfg rt))) rt)"

definition RunOnceWithScope :: "RepairEnv \<Rightarrow> 'm MetadataStore \<Rightarrow> run_context \<Rightarrow> string \<Rightarrow> string \<Rightarrow> 'm RepairRuntime \<Rightarrow>
    'm RepairRuntime \<times> Summary \<times> repair_error option" where
  "RunOnceWithScope E M ctx bucket prefix rt =
     (let bucket = trim_space bucket; prefix = trim_space prefix in
      case newRunID (setRunTrigger ''manual'' rt) of
        (rt, runID) \<Rightarrow>
          (case tryMarkStarted runID rt of
             (rt, None) \<Rightarrow> (rt, zero_Summary, Some ErrRepairAlreadyRunning)
           | (rt, Some startedAt) \<Rightarrow>
               (case runOnce E M ctx runID bucket prefix rt of
                  (rt, summary, err) \<Rightarrow> (markFinished E startedAt runID bucket prefix summary err rt, summary, err))))"

definition RunOnce :: "RepairEnv \<Rightarrow> 'm MetadataStore \<Rightarrow> run_context \<Rightarrow> 'm RepairRuntime \<Rightarrow> 'm RepairRuntime \<times> Summary \<times> repair_error option" where
  "RunOnce E M ctx rt = RunOnceWithScope E M ctx [] [] rt"

definition runScheduled :: "RepairEnv \<Rightarrow> 'm MetadataStore \<Rightarrow> run_context \<Rightarrow> 'm RepairRuntime \<Rightarrow> 'm RepairRuntime" where
  "runScheduled E M ctx rt = fst (RunOnce E M ctx (setRunTrigger ''scheduled'' rt))"

text \<open>The run at start, when this replica is the leader.\<close>

definition startInitialRepair :: "bool \<Rightarrow> RepairEnv \<Rightarrow> 'm MetadataStore \<Rightarrow> run_context \<Rightarrow> 'm RepairRuntime \<Rightarrow> 'm RepairRuntime" where
  "startInitialRepair leader E M ctx rt = (if \<not> leader then rt else runScheduled E M ctx (setRunTrigger ''scheduled'' rt))"

definition zero_Status :: Status where
  "zero_Status = \<lparr>sta_Running = False, sta_LastRunID = [], sta_LastBucket = [], sta_LastPrefix = [], sta_LastTrigger = [], sta_LastStartedAt = 0,
     sta_LastFinishedAt = 0, sta_LastDuration = 0, sta_LastError = [], sta_LastErrorKind = [], sta_LastSummary = zero_Summary, sta_Progress = None\<rparr>"

definition NewRuntime :: "repair_config \<Rightarrow> 'm Service \<Rightarrow> time \<Rightarrow> nat list \<Rightarrow> 'm RepairRuntime" where
  "NewRuntime cfg objects now delays = \<lparr>rt_cfg = cfg, rt_objects = objects, rt_status = zero_Status, rt_history = [], rt_issues = fmempty,
     rt_lastTrigger = [], rt_nextRunID = 0, rt_now = now, rt_delays = delays\<rparr>"

end
