(* ===== verification/Repair_Bookkeeping.thy ===== *)
theory Repair_Bookkeeping
  imports Repair_Service
begin

text \<open>
  What a repair run writes down. A run accounts for every object it visits and stays within its limits. Its status, history and issues
  keep an invariant under every interleaving of the critical sections of concurrent runs, of which \<open>RunOnceWithScope\<close> is a sequence.
\<close>

section \<open>What a run leaves alone\<close>

text \<open>Between its start and its end a run changes the objects, the clock and the reported progress only.\<close>

definition same_status :: "Status \<Rightarrow> Status \<Rightarrow> bool" where
  "same_status s s' \<longleftrightarrow> s'\<lparr>sta_Progress := None\<rparr> = s\<lparr>sta_Progress := None\<rparr> \<and>
     (sta_Progress s' = sta_Progress s \<or>
      sta_Running s \<and> (\<exists>p. sta_Progress s' = Some p \<and> pg_RunID p = sta_LastRunID s))"

definition same_books :: "'m RepairRuntime \<Rightarrow> 'm RepairRuntime \<Rightarrow> bool" where
  "same_books rt rt' \<longleftrightarrow> rt_cfg rt' = rt_cfg rt \<and> rt_history rt' = rt_history rt \<and> rt_issues rt' = rt_issues rt \<and>
     rt_lastTrigger rt' = rt_lastTrigger rt \<and> rt_nextRunID rt' = rt_nextRunID rt \<and> same_status (rt_status rt) (rt_status rt')"

lemma same_status_fields:
  "same_status s s' \<Longrightarrow> sta_Running s' = sta_Running s \<and> sta_LastRunID s' = sta_LastRunID s \<and> sta_LastStartedAt s' = sta_LastStartedAt s"
  unfolding same_status_def by (metis Status.select_convs(1,2,6) Status.surjective Status.update_convs(12))

lemma same_status_refl [simp]: "same_status s s"
  by (simp add: same_status_def)

lemma same_status_trans: "same_status s s1 \<Longrightarrow> same_status s1 s2 \<Longrightarrow> same_status s s2"
  using same_status_fields [of s s1] by (auto simp: same_status_def)

lemma same_books_refl [simp]: "same_books rt rt"
  by (simp add: same_books_def)

lemma same_books_trans [trans]: "same_books rt rt1 \<Longrightarrow> same_books rt1 rt2 \<Longrightarrow> same_books rt rt2"
  using same_status_trans by (auto simp: same_books_def)

lemma same_books_cfg: "same_books rt rt' \<Longrightarrow> rt_cfg rt' = rt_cfg rt"
  by (simp add: same_books_def)

lemma same_books_updates [simp]:
  "same_books rt (rt\<lparr>rt_objects := s\<rparr>)" "same_books rt (rt\<lparr>rt_now := t\<rparr>)" "same_books rt (rt\<lparr>rt_now := t, rt_delays := ds\<rparr>)"
  by (simp_all add: same_books_def)

lemma on_objects_books: "on_objects f rt = (rt', r) \<Longrightarrow> same_books rt rt'"
  by (auto simp: on_objects_def split: prod.splits)

lemma read_clock_books: "read_clock rt = (rt', t) \<Longrightarrow> same_books rt rt'"
  by (auto simp: read_clock_def Let_def)

lemma sleep_books: "sleep_or_done ctx wait rt = (rt', r) \<Longrightarrow> same_books rt rt'"
  by (auto simp: sleep_or_done_def split: option.splits if_splits)

lemma setProgress_books [simp]: "same_books rt (setProgress p rt)"
  by (auto simp: setProgress_def same_books_def same_status_def)

lemma limiter_Wait_books: "limiter_Wait ctx limiter rt = (rt', r) \<Longrightarrow> same_books rt rt'"
  by (auto simp: limiter_Wait_def Let_def split: if_splits prod.splits option.splits
      dest!: read_clock_books sleep_books intro: same_books_trans)

lemma waitRepairRetry_books: "waitRepairRetry ctx wait rt = (rt', r) \<Longrightarrow> same_books rt rt'"
  by (auto simp: waitRepairRetry_def split: if_splits dest: sleep_books)

section \<open>The summary\<close>

text \<open>The retries of one object.\<close>

definition retried :: "nat \<Rightarrow> Summary \<Rightarrow> Summary \<Rightarrow> bool" where
  "retried n s s' \<longleftrightarrow> s'\<lparr>su_RepairRetries := 0, su_RetryDelayMs := 0\<rparr> = s\<lparr>su_RepairRetries := 0, su_RetryDelayMs := 0\<rparr> \<and>
     su_RepairRetries s' \<le> su_RepairRetries s + n"

lemma retried_same [simp]: "retried n s s"
  by (simp add: retried_def)

lemma retried_again: "retried n (s\<lparr>su_RepairRetries := su_RepairRetries s + 1, su_RetryDelayMs := d\<rparr>) s' \<Longrightarrow> retried (Suc n) s s'"
  by (simp add: retried_def)

lemma repair_attempts_result:
  "repair_attempts E M ctx meta left tries s rt = (rt', s', r) \<Longrightarrow> same_books rt rt' \<and> retried left s s'"
proof (induction left arbitrary: tries s rt)
  case 0
  then show ?case
    by (subst (asm) repair_attempts.simps) (auto split: prod.splits sum.splits dest: on_objects_books)
next
  case (Suc left)
  let ?wait = "repairRetryBackoffDuration (ren_floats E) (rg_RetryBackoff (rt_cfg rt)) (int tries) (rg_RetryMaxBackoff (rt_cfg rt)) (rg_RetryMultiplier (rt_cfg rt))"
  obtain rt1 y where o: "on_objects (Service_RepairObject (ren_X E) M (om_bucket meta) (om_key meta)) rt = (rt1, y)" by fastforce
  note b1 = on_objects_books [OF o]
  show ?case
  proof (cases y)
    case (Inr x)
    then show ?thesis using Suc.prems b1 by (subst (asm) repair_attempts.simps) (auto simp: o)
  next
    case (Inl err)
    define s1 where "s1 = s\<lparr>su_RepairRetries := su_RepairRetries s + 1, su_RetryDelayMs := su_RetryDelayMs s + milliseconds ?wait\<rparr>"
    have c: "rt_cfg rt1 = rt_cfg rt" using b1 by (rule same_books_cfg)
    obtain rt2 z where w: "waitRepairRetry ctx ?wait rt1 = (rt2, z)" by fastforce
    have b2: "same_books rt rt2" using same_books_trans [OF b1 waitRepairRetry_books [OF w]] .
    have step: "(case z of Some err \<Rightarrow> (rt2, s1, Inl err) | None \<Rightarrow> repair_attempts E M ctx meta left (Suc tries) s1 rt2) = (rt', s', r)"
      using Suc.prems by (subst (asm) repair_attempts.simps) (simp add: o Inl c w Let_def s1_def cong: option.case_cong)
    show ?thesis
    proof (cases z)
      case (Some e)
      then show ?thesis using step b2 retried_again [OF retried_same, of left] by (auto simp: s1_def)
    next
      case None
      then have "same_books rt2 rt' \<and> retried left s1 s'" using Suc.IH step by simp
      then show ?thesis using b2 retried_again same_books_trans by (fastforce simp: s1_def)
    qed
  qed
qed

text \<open>A run's counts: what may be at most what, and when every object visited is counted under an outcome.\<close>

definition accounted :: "repair_config \<Rightarrow> Summary \<Rightarrow> bool" where
  "accounted cfg s \<longleftrightarrow>
     su_RepairedObjects s \<le> su_RepairAttempts s \<and> su_RepairedObjects s \<le> su_RepairedShards s \<and> su_Throttled s \<le> su_RepairAttempts s \<and>
     su_ChecksumFailed s \<le> su_ScrubFailed s \<and> su_ScrubFailed s \<le> su_Scrubbed s \<and> su_Scrubbed s + su_RepairAttempts s \<le> su_Objects s \<and>
     su_RepairRetries s \<le> nat (rg_MaxRetries cfg) * su_RepairAttempts s \<and> length (su_Issues s) \<le> maxRepairIssues \<and>
     (0 < rg_MaxBatch cfg \<longrightarrow> int (su_RepairAttempts s) \<le> rg_MaxBatch cfg) \<and> (su_Limited s \<longrightarrow> shouldStopRepair cfg s)"

definition all_settled :: "Summary \<Rightarrow> bool" where
  "all_settled s \<longleftrightarrow> su_Objects s \<le> su_Scrubbed s + su_RepairAttempts s + su_Unrecoverable s + su_Failed s"

lemmas summary_counts = accounted_def all_settled_def

lemma addIssue_counts [simp]:
  "accounted cfg (addIssue s i) \<longleftrightarrow> accounted cfg s" "all_settled (addIssue s i) \<longleftrightarrow> all_settled s"
  by (auto simp: summary_counts addIssue_def maxRepairIssues_def shouldStopRepair_def)

lemma failed_counts [simp]:
  "accounted cfg (s\<lparr>su_Failed := n\<rparr>) \<longleftrightarrow> accounted cfg s" "all_settled s \<Longrightarrow> all_settled (s\<lparr>su_Failed := Suc (su_Failed s)\<rparr>)"
  by (auto simp: summary_counts shouldStopRepair_def)

lemma scrubHealthyObject_counts:
  assumes run: "scrubHealthyObject E M meta s rt = (rt', s')"
    and s: "accounted cfg s" "su_Scrubbed s + su_RepairAttempts s < su_Objects s"
      "su_Objects s \<le> Suc (su_Scrubbed s + su_RepairAttempts s + su_Unrecoverable s + su_Failed s)"
  shows "same_books rt rt' \<and> accounted cfg s' \<and> all_settled s'"
proof -
  obtain rt1 y where o: "on_objects (Service_ScrubObject (ren_X E) M (om_bucket meta) (om_key meta)) rt = (rt1, y)" by fastforce
  have "same_books rt rt'" using run on_objects_books [OF o]
    by (auto simp: scrubHealthyObject_def o Let_def split: sum.splits option.splits if_splits)
  moreover have "accounted cfg s'" using run s
    by (auto simp: scrubHealthyObject_def o Let_def recordFailedScrub_def recordUnhealthyScrub_def accounted_def [of cfg s] split: sum.splits option.splits if_splits)
       (auto simp: accounted_def shouldStopRepair_def)
  moreover have "all_settled s'" using run s(3)
    by (auto simp: scrubHealthyObject_def o Let_def recordFailedScrub_def recordUnhealthyScrub_def split: sum.splits option.splits if_splits)
       (auto simp: all_settled_def)
  ultimately show ?thesis by blast
qed

text \<open>One object, from a summary that accounts for the objects before it.\<close>

lemma retried_counts:
  "retried n s s' \<Longrightarrow> su_RepairRetries s' \<le> su_RepairRetries s + n \<and> su_RepairedObjects s' = su_RepairedObjects s \<and>
     su_RepairedShards s' = su_RepairedShards s \<and> su_Throttled s' = su_Throttled s \<and> su_RepairAttempts s' = su_RepairAttempts s \<and>
     su_Scrubbed s' = su_Scrubbed s \<and> su_ScrubFailed s' = su_ScrubFailed s \<and> su_ChecksumFailed s' = su_ChecksumFailed s \<and>
     su_Objects s' = su_Objects s \<and> su_Unrecoverable s' = su_Unrecoverable s \<and> su_Failed s' = su_Failed s \<and> su_Issues s' = su_Issues s \<and>
     su_Limited s' = su_Limited s"
  by (cases s; cases s'; simp add: retried_def)

lemma repairObjectWithRetry_result:
  "repairObjectWithRetry E M ctx meta s rt = (rt', s', r) \<Longrightarrow> same_books rt rt' \<and> retried (nat (rg_MaxRetries (rt_cfg rt))) s s'"
  unfolding repairObjectWithRetry_def Let_def by (drule repair_attempts_result) (simp add: max_def split: if_splits)

lemma attempted_counts:
  assumes s: "accounted cfg s" "all_settled s" "\<not> shouldStopRepair cfg s"
    and t: "su_Objects t = Suc (su_Objects s)" "su_RepairAttempts t = Suc (su_RepairAttempts s)" "su_Throttled t \<le> Suc (su_Throttled s)"
      "su_RepairRetries t = su_RepairRetries s" "su_RepairedObjects t = su_RepairedObjects s" "su_RepairedShards t = su_RepairedShards s"
      "su_Scrubbed t = su_Scrubbed s" "su_ScrubFailed t = su_ScrubFailed s" "su_ChecksumFailed t = su_ChecksumFailed s"
      "su_Unrecoverable t = su_Unrecoverable s" "su_Failed t = su_Failed s" "su_Issues t = su_Issues s"
      "su_Limited t = su_Limited s"
    and r: "retried (nat (rg_MaxRetries cfg)) t t'"
  shows "accounted cfg t' \<and> all_settled t' \<and> su_RepairedObjects t' < su_RepairAttempts t'"
proof -
  have "su_RepairRetries t' \<le> nat (rg_MaxRetries cfg) * su_RepairAttempts s + nat (rg_MaxRetries cfg)"
    using s(1) t(4) retried_counts [OF r] by (simp add: accounted_def)
  moreover have "0 < rg_MaxBatch cfg \<Longrightarrow> int (Suc (su_RepairAttempts s)) \<le> rg_MaxBatch cfg"
    using s(3) by (simp add: shouldStopRepair_def)
  moreover have "\<not> su_Limited s" using s(1,3) by (simp add: accounted_def)
  ultimately show ?thesis using s(1,2) t retried_counts [OF r] by (simp add: summary_counts algebra_simps)
qed

lemma repairObject_counts:
  assumes run: "repairObject E M ctx meta s limiter rt = (rt', s', limiter', r)" and cfg: "rt_cfg rt = cfg"
    and s: "accounted cfg s" "all_settled s" "\<not> shouldStopRepair cfg s"
  shows "same_books rt rt' \<and> accounted cfg s' \<and> (r = None \<longrightarrow> all_settled s')"
proof (cases "context_Err ctx (rt_now rt)")
  case (Some err)
  then show ?thesis using run s by (auto simp: repairObject_def)
next
  case None
  define s1 where "s1 = s\<lparr>su_Objects := su_Objects s + 1\<rparr>"
  obtain rt1 y where h: "on_objects (Service_CheckHealth (ren_X E) (om_bucket meta) (om_key meta)) rt = (rt1, y)" by fastforce
  note b1 = on_objects_books [OF h]
  note run = run [unfolded repairObject_def None option.case Let_def h prod.case]
  show ?thesis
  proof (cases y)
    case (Inl err)
    have "accounted cfg (s1\<lparr>su_Failed := n\<rparr>) \<and> all_settled (s1\<lparr>su_Failed := Suc (su_Failed s)\<rparr>)" for n
      using s(1,2) by (simp add: summary_counts s1_def shouldStopRepair_def)
    then show ?thesis using run b1 Inl by (auto simp: s1_def)
  next
    case (Inr he)
    show ?thesis
    proof (cases "he_Missing he = 0 \<and> he_Corrupted he = 0")
      case True
      obtain rt2 s2 where sc: "scrubHealthyObject E M meta s1 rt1 = (rt2, s2)" by fastforce
      have "same_books rt1 rt2 \<and> accounted cfg s2 \<and> all_settled s2"
        by (rule scrubHealthyObject_counts [OF sc]) (use s in \<open>auto simp: summary_counts shouldStopRepair_def s1_def\<close>)
      then show ?thesis using run b1 same_books_trans True by (auto simp: Inr sc [unfolded s1_def, simplified])
    next
      case unhealthy: False
      define s2 where "s2 = s1\<lparr>su_Missing := su_Missing s1 + he_Missing he, su_Corrupted := su_Corrupted s1 + he_Corrupted he, su_Unhealthy := su_Unhealthy s1 + 1\<rparr>"
      show ?thesis
      proof (cases "he_Recoverable he")
        case False
        have "accounted cfg (s2\<lparr>su_Unrecoverable := n\<rparr>) \<and> all_settled (s2\<lparr>su_Unrecoverable := Suc (su_Unrecoverable s)\<rparr>)" for n
          using s(1,2) by (simp add: summary_counts s2_def s1_def shouldStopRepair_def)
        then show ?thesis using run b1 unhealthy False by (auto simp: Inr s2_def s1_def)
      next
        case True
        obtain rt2 l2 z where w: "limiter_Wait ctx limiter rt1 = (rt2, l2, z)" by (metis prod_cases3)
        have b2: "same_books rt rt2" using same_books_trans [OF b1 limiter_Wait_books [OF w]] .
        note run = run [unfolded Inr sum.case, simplified unhealthy True w prod.case if_False not_True_eq_False]
        show ?thesis
        proof (cases z)
          case (Inl err)
          have "accounted cfg s2" using s(1) by (simp add: accounted_def s2_def s1_def shouldStopRepair_def)
          then show ?thesis using run b2 Inl by (auto simp: s2_def s1_def)
        next
          case (Inr tw)
          define s3 where "s3 = (let s2 = (if fst tw then s2\<lparr>su_Throttled := su_Throttled s2 + 1, su_ThrottleWaitMs := su_ThrottleWaitMs s2 + milliseconds (snd tw)\<rparr> else s2)
            in s2\<lparr>su_RepairAttempts := su_RepairAttempts s2 + 1\<rparr>)"
          obtain rt3 s4 q where a: "repairObjectWithRetry E M ctx meta s3 rt2 = (rt3, s4, q)" by (metis prod_cases3)
          note ar = repairObjectWithRetry_result [OF a]
          have b3: "same_books rt rt3" using ar b2 same_books_trans by blast
          have "retried (nat (rg_MaxRetries cfg)) s3 s4" using ar same_books_cfg [OF b2] cfg by simp
          then have c: "accounted cfg s4 \<and> all_settled s4 \<and> su_RepairedObjects s4 < su_RepairAttempts s4"
            by (rule attempted_counts [OF s, rotated 13]) (auto simp: s3_def s2_def s1_def Let_def)
          have out: "rt' = rt3 \<and> s' = (case q of
              Inl err \<Rightarrow> addIssue (s4\<lparr>su_Failed := su_Failed s4 + 1\<rparr>) (error_issue E meta ''repair_failed'' err)
            | Inr n \<Rightarrow> if 0 < n then s4\<lparr>su_RepairedObjects := su_RepairedObjects s4 + 1, su_RepairedShards := su_RepairedShards s4 + n\<rparr> else s4)"
            using run a by (cases tw; cases "fst tw"; cases q) (simp_all add: Inr s3_def s2_def s1_def Let_def)
          have "accounted cfg s' \<and> all_settled s'"
            using c unfolding conjunct2 [OF out] by (cases q) (simp_all, simp add: summary_counts shouldStopRepair_def)
          then show ?thesis using out b3 by simp
        qed
      qed
    qed
  qed
qed

text \<open>The loops over the objects of a bucket and over the buckets.\<close>

lemma scan_objects_counts:
  "scan_objects E M ctx at i metas s limiter rt = (rt', s', limiter', r) \<Longrightarrow> rt_cfg rt = cfg \<Longrightarrow> accounted cfg s \<Longrightarrow> all_settled s \<Longrightarrow>
   same_books rt rt' \<and> accounted cfg s' \<and> (r = None \<longrightarrow> all_settled s')"
proof (induction metas arbitrary: i s limiter rt)
  case Nil
  then show ?case by simp
next
  case (Cons meta metas)
  show ?case
  proof (cases "shouldStopRepair cfg s")
    case True
    then have "accounted cfg (s\<lparr>su_Limited := True\<rparr>)" "all_settled (s\<lparr>su_Limited := True\<rparr>)"
      using Cons.prems by (auto simp: summary_counts shouldStopRepair_def)
    then show ?thesis using Cons.prems True by auto
  next
    case False
    let ?rt = "setProgress (at (Suc i) (om_key meta) (su_Objects s)) rt"
    obtain rt1 s1 l1 y where o: "repairObject E M ctx meta s limiter ?rt = (rt1, s1, l1, y)" by (metis prod_cases4)
    have cfg: "rt_cfg ?rt = cfg" using same_books_cfg [OF setProgress_books] Cons.prems(2) by blast
    note n = repairObject_counts [OF o cfg Cons.prems(3,4) False]
    have b: "same_books rt rt1" using same_books_trans [OF setProgress_books] n by blast
    show ?thesis
    proof (cases y)
      case (Some err)
      then show ?thesis using Cons.prems False o n b by auto
    next
      case None
      let ?rt1 = "setProgress (at (Suc i) (om_key meta) (su_Objects s1)) rt1"
      have b1: "same_books rt ?rt1" using b by (rule same_books_trans) simp
      have "scan_objects E M ctx at (Suc i) metas s1 l1 ?rt1 = (rt', s', limiter', r)"
        using Cons.prems False o None by simp
      from Cons.IH [OF this] n None same_books_cfg [OF b1] Cons.prems(2)
      have "same_books ?rt1 rt' \<and> accounted cfg s' \<and> (r = None \<longrightarrow> all_settled s')" by simp
      then show ?thesis using same_books_trans [OF b1] by blast
    qed
  qed
qed

lemma scanBucket_counts:
  assumes run: "scanBucket E M ctx bucket i nb runID prefix s limiter rt = (rt', s', limiter', r)" and cfg: "rt_cfg rt = cfg"
    and s: "accounted cfg s" "all_settled s"
  shows "same_books rt rt' \<and> accounted cfg s' \<and> (r = None \<longrightarrow> all_settled s')"
proof (cases "context_Err ctx (rt_now rt)")
  case (Some err)
  then show ?thesis using run s by (auto simp: scanBucket_def)
next
  case None
  obtain rt1 y where o: "on_objects (Service_ListObjects M bucket prefix) rt = (rt1, y)" by fastforce
  note b1 = on_objects_books [OF o]
  show ?thesis
  proof (cases y)
    case (Inl err)
    then show ?thesis using run None o s b1 by (auto simp: scanBucket_def intro: same_books_trans)
  next
    case (Inr objects)
    let ?at = "\<lambda>i' key n. progress_at runID bucket i nb i' key n (length objects)"
    have go: "scan_objects E M ctx ?at 0 objects s limiter (setProgress (?at 0 [] (su_Objects s)) rt1) = (rt', s', limiter', r)"
      using run None o Inr by (simp add: scanBucket_def)
    have b2: "same_books rt (setProgress (?at 0 [] (su_Objects s)) rt1)" using b1 by (rule same_books_trans) simp
    show ?thesis using scan_objects_counts [OF go _ s] same_books_cfg [OF b2] cfg same_books_trans [OF b2] by simp
  qed
qed

lemma scan_buckets_counts:
  "scan_buckets E M ctx i nb runID prefix bs s limiter rt = (rt', s', r) \<Longrightarrow> rt_cfg rt = cfg \<Longrightarrow> accounted cfg s \<Longrightarrow> all_settled s \<Longrightarrow>
   same_books rt rt' \<and> accounted cfg s' \<and> (r = None \<longrightarrow> all_settled s')"
proof (induction bs arbitrary: i s limiter rt)
  case Nil
  then show ?case by simp
next
  case (Cons b bs)
  obtain rt1 s1 l1 y where o: "scanBucket E M ctx (bkt_name b) (Suc i) nb runID prefix s limiter rt = (rt1, s1, l1, y)" by (metis prod_cases4)
  note n = scanBucket_counts [OF o Cons.prems(2,3,4)]
  show ?case
  proof (cases "y = None \<and> \<not> su_Limited s1")
    case True
    then have "scan_buckets E M ctx (Suc i) nb runID prefix bs s1 l1 rt1 = (rt', s', r)" using Cons.prems o by simp
    from Cons.IH [OF this] n True same_books_cfg [of rt rt1] Cons.prems(2)
    have "same_books rt1 rt' \<and> accounted cfg s' \<and> (r = None \<longrightarrow> all_settled s')" by simp
    then show ?thesis using same_books_trans [of rt rt1 rt'] n by blast
  next
    case False
    then show ?thesis using Cons.prems n by (auto simp: o split: option.splits)
  qed
qed

lemma runOnce_counts:
  assumes run: "runOnce E M ctx runID bucket prefix rt = (rt', s', r)"
  shows "same_books rt rt' \<and> accounted (rt_cfg rt) s' \<and> (r = None \<longrightarrow> all_settled s')"
proof -
  have zero: "accounted cfg (zero_Summary\<lparr>su_RunID := runID, su_Buckets := n\<rparr>)" "all_settled (zero_Summary\<lparr>su_RunID := runID, su_Buckets := n\<rparr>)"
    "accounted cfg (zero_Summary\<lparr>su_RunID := runID\<rparr>)" for cfg n
    by (simp_all add: summary_counts zero_Summary_def)
  obtain rt1 y where o: "resolveBuckets M bucket rt = (rt1, y)" by fastforce
  then have b1: "same_books rt rt1" by (auto simp: resolveBuckets_def split: if_splits dest: on_objects_books)
  show ?thesis
  proof (cases y)
    case (Inl err)
    then show ?thesis using run o b1 zero by (auto simp: runOnce_def)
  next
    case (Inr bs)
    have "scan_buckets E M ctx 0 (length bs) runID (trim_space prefix) (sort_key bkt_name bs)
      (zero_Summary\<lparr>su_RunID := runID, su_Buckets := length bs\<rparr>) (newRepairLimiter (rg_RateLimit (rt_cfg rt1))) rt1 = (rt', s', r)"
      using run o Inr by (simp add: runOnce_def scanBuckets_def Let_def)
    from scan_buckets_counts [OF this refl zero(1,2)] show ?thesis using same_books_cfg [OF b1] same_books_trans [OF b1] by simp
  qed
qed

end
