(* ===== verification/Repair_History.thy ===== *)
theory Repair_History
  imports Repair_Bookkeeping
begin

text \<open>
  The status, the history and the issues of the repair runtime under concurrent runs. Each critical section of \<open>status.go\<close>,
  \<open>history.go\<close> and \<open>module.go\<close> is a step; a run issues its ID, starts or is refused, reports progress and finishes.
\<close>

text \<open>The runtime, the IDs issued but not started yet, and the runs between their start and their end.\<close>

type_synonym 'm repair_state = "'m RepairRuntime \<times> string list \<times> (string \<times> time) list"

inductive repair_step :: "RepairEnv \<Rightarrow> 'm repair_state \<Rightarrow> 'm repair_state \<Rightarrow> bool" for E where
  trigger_step: "repair_step E (rt, p, a) (setRunTrigger t rt, p, a)"
| number_step: "newRunID rt = (rt', i) \<Longrightarrow> repair_step E (rt, p, a) (rt', i # p, a)"
| start_step: "i \<in> set p \<Longrightarrow> tryMarkStarted i rt = (rt', Some t) \<Longrightarrow> repair_step E (rt, p, a) (rt', remove1 i p, (i, t) # a)"
| busy_step: "i \<in> set p \<Longrightarrow> tryMarkStarted i rt = (rt', None) \<Longrightarrow> repair_step E (rt, p, a) (rt', remove1 i p, a)"
| progress_step: "(pg_RunID g, t) \<in> set a \<Longrightarrow> repair_step E (rt, p, a) (setProgress g rt, p, a)"
| work_step: "repair_step E (rt, p, a) (rt\<lparr>rt_objects := s, rt_now := t, rt_delays := ds\<rparr>, p, a)"
| finish_step: "(i, t) \<in> set a \<Longrightarrow> accounted (rt_cfg rt) summary \<Longrightarrow>
    repair_step E (rt, p, a) (markFinished E t i bucket prefix summary err rt, p, remove1 (i, t) a)"

abbreviation repair_steps :: "RepairEnv \<Rightarrow> 'm repair_state \<Rightarrow> 'm repair_state \<Rightarrow> bool" where
  "repair_steps E \<equiv> (repair_step E)\<^sup>*\<^sup>*"

section \<open>The invariant\<close>

definition run_id :: "nat \<Rightarrow> string" where
  "run_id n = ''maxio.object.repair-'' @ show_nat n"

definition history_kept :: "'m RepairRuntime \<Rightarrow> bool" where
  "history_kept rt \<longleftrightarrow> length (rt_history rt) \<le> maxRepairHistory \<and> fmdom (rt_issues rt) = fset_of_list (map rcd_RunID (rt_history rt)) \<and>
     (\<forall>r \<in> set (rt_history rt). accounted (rt_cfg rt) (rcd_Summary r) \<and> su_Issues (rcd_Summary r) = [] \<and>
        (\<exists>is. fmlookup (rt_issues rt) (rcd_RunID r) = Some is \<and> length is = rcd_IssueCount r \<and> rcd_IssueCount r \<le> maxRepairIssues))"

definition status_kept :: "'m RepairRuntime \<Rightarrow> (string \<times> time) list \<Rightarrow> bool" where
  "status_kept rt a \<longleftrightarrow>
     (if sta_Running (rt_status rt) then (\<exists>t g. a = [(sta_LastRunID (rt_status rt), t)] \<and> sta_Progress (rt_status rt) = Some g \<and>
        pg_RunID g = sta_LastRunID (rt_status rt)) else a = [] \<and> sta_Progress (rt_status rt) = None)"

definition ids_kept :: "'m RepairRuntime \<Rightarrow> string list \<Rightarrow> (string \<times> time) list \<Rightarrow> bool" where
  "ids_kept rt p a \<longleftrightarrow> distinct (p @ map fst a @ map rcd_RunID (rt_history rt)) \<and>
     set (p @ map fst a @ map rcd_RunID (rt_history rt)) \<subseteq> run_id ` {1..rt_nextRunID rt}"

definition books_kept :: "'m repair_state \<Rightarrow> bool" where
  "books_kept x = (case x of (rt, p, a) \<Rightarrow> history_kept rt \<and> status_kept rt a \<and> ids_kept rt p a)"

lemmas books_defs = books_kept_def history_kept_def status_kept_def ids_kept_def

lemma run_id_nonempty [simp]: "run_id n \<noteq> []"
  by (simp add: run_id_def)

lemma run_id_inj: "run_id m = run_id n \<longleftrightarrow> m = n"
  unfolding run_id_def by (metis read_digits_show_nat same_append_eq)

lemma books_kept_initial: "books_kept (NewRuntime cfg objects now delays, [], [])"
  by (simp add: books_defs NewRuntime_def zero_Status_def)

section \<open>Every step keeps it\<close>

text \<open>A step that changes neither the history nor the issues keeps what is said of them.\<close>

lemma history_kept_cong:
  "rt_cfg rt' = rt_cfg rt \<Longrightarrow> rt_history rt' = rt_history rt \<Longrightarrow> rt_issues rt' = rt_issues rt \<Longrightarrow> history_kept rt' = history_kept rt"
  by (simp add: history_kept_def)

lemma trigger_kept: "books_kept (rt, p, a) \<Longrightarrow> books_kept (setRunTrigger t rt, p, a)"
  by (auto simp: books_defs setRunTrigger_def split: if_splits)

lemma number_kept:
  assumes "books_kept (rt, p, a)" and n: "newRunID rt = (rt', i)"
  shows "books_kept (rt', i # p, a)"
proof -
  have n: "rt' = rt\<lparr>rt_nextRunID := Suc (rt_nextRunID rt)\<rparr>" "i = run_id (Suc (rt_nextRunID rt))"
    using n by (auto simp: newRunID_def run_id_def)
  have ids: "set (p @ map fst a @ map rcd_RunID (rt_history rt)) \<subseteq> run_id ` {1..rt_nextRunID rt}"
    "distinct (p @ map fst a @ map rcd_RunID (rt_history rt))"
    using assms(1) by (auto simp: books_kept_def ids_kept_def)
  have "i \<notin> run_id ` {1..rt_nextRunID rt}" using n(2) by (auto simp: run_id_inj)
  then have "i \<notin> set (p @ map fst a @ map rcd_RunID (rt_history rt))" using ids(1) by blast
  moreover have "run_id ` {1..rt_nextRunID rt} \<subseteq> run_id ` {1..Suc (rt_nextRunID rt)}" "i \<in> run_id ` {1..Suc (rt_nextRunID rt)}"
    using n(2) by auto
  ultimately have "ids_kept rt' (i # p) a" using ids n(1) unfolding ids_kept_def by auto
  then show ?thesis using assms(1) n(1) by (auto simp: books_kept_def history_kept_def status_kept_def split: if_splits)
qed

lemma start_kept:
  assumes "books_kept (rt, p, a)" and i: "i \<in> set p" and s: "tryMarkStarted i rt = (rt', Some t)"
  shows "books_kept (rt', remove1 i p, (i, t) # a)"
proof -
  have idle: "\<not> sta_Running (rt_status rt)" "a = []"
    using assms(1) s by (auto simp: tryMarkStarted_def books_kept_def status_kept_def split: if_splits)
  have rt': "rt_history rt' = rt_history rt" "rt_issues rt' = rt_issues rt" "rt_cfg rt' = rt_cfg rt" "rt_nextRunID rt' = rt_nextRunID rt"
    "sta_Running (rt_status rt')" "sta_LastRunID (rt_status rt') = i" "sta_Progress (rt_status rt') = Some (empty_progress i)"
    using s idle by (auto simp: tryMarkStarted_def read_clock_def Let_def)
  have "ids_kept rt p a" using assms(1) by (simp add: books_kept_def)
  then have "ids_kept rt' (remove1 i p) [(i, t)]"
    using i rt' idle by (auto simp: ids_kept_def dest: in_set_remove1 notin_set_remove1)
  then show ?thesis using assms(1) rt' idle
    by (simp add: books_kept_def history_kept_def status_kept_def empty_progress_def)
qed

lemma busy_kept:
  assumes "books_kept (rt, p, a)" and s: "tryMarkStarted i rt = (rt', None)"
  shows "books_kept (rt', remove1 i p, a)"
proof -
  have "rt' = rt" using s by (auto simp: tryMarkStarted_def read_clock_def Let_def split: if_splits)
  then show ?thesis using assms(1) by (auto simp: books_kept_def ids_kept_def dest: notin_set_remove1)
qed

lemma progress_kept: "books_kept (rt, p, a) \<Longrightarrow> books_kept (setProgress g rt, p, a)"
  by (auto simp: books_defs setProgress_def split: if_splits)

lemma work_kept: "books_kept (rt, p, a) \<Longrightarrow> books_kept (rt\<lparr>rt_objects := s, rt_now := t, rt_delays := ds\<rparr>, p, a)"
  by (auto simp: books_defs split: if_splits)

section \<open>The end of a run\<close>

lemma withoutIssues_accounted: "accounted cfg s \<Longrightarrow> accounted cfg (withoutIssues s) \<and> su_Issues (withoutIssues s) = []"
  by (simp add: withoutIssues_def accounted_def shouldStopRepair_def)

text \<open>What \<open>markFinished\<close> leaves, for a run with an ID.\<close>

definition finished_record :: "RepairEnv \<Rightarrow> time \<Rightarrow> string \<Rightarrow> string \<Rightarrow> string \<Rightarrow> Summary \<Rightarrow> repair_error option \<Rightarrow> RunRecord \<Rightarrow> bool" where
  "finished_record E t i bucket prefix summary err r \<longleftrightarrow>
     rcd_RunID r = i \<and> rcd_Bucket r = trim_space (trim_space bucket) \<and> rcd_Prefix r = trim_space (trim_space prefix) \<and> rcd_StartedAt r = t \<and>
     rcd_Error r = (case err of None \<Rightarrow> [] | Some e \<Rightarrow> ren_text E e) \<and> rcd_Summary r = withoutIssues summary \<and>
     rcd_IssueCount r = length (su_Issues summary)"

lemma recordRun_fields:
  assumes "i \<noteq> []" and r: "recordRun E t i bucket prefix summary err trigger kind rt = rt'"
  shows "\<exists>r. rcd_RunID r = i \<and> rcd_Bucket r = trim_space bucket \<and> rcd_Prefix r = trim_space prefix \<and> rcd_StartedAt r = t \<and>
     rcd_Error r = (case err of None \<Rightarrow> [] | Some e \<Rightarrow> ren_text E e) \<and> rcd_Summary r = withoutIssues summary \<and>
     rcd_IssueCount r = length (su_Issues summary) \<and>
     rt_history rt' = take maxRepairHistory (r # rt_history rt) \<and>
     rt_issues rt' = fmupd i (su_Issues summary) (fmdrop_set (set (map rcd_RunID (drop maxRepairHistory (r # rt_history rt)))) (rt_issues rt)) \<and>
     rt_cfg rt' = rt_cfg rt \<and> rt_status rt' = rt_status rt \<and> rt_nextRunID rt' = rt_nextRunID rt \<and> rt_lastTrigger rt' = rt_lastTrigger rt"
proof -
  let ?r = "\<lparr>rcd_RunID = i, rcd_Bucket = trim_space bucket, rcd_Prefix = trim_space prefix, rcd_Trigger = trigger, rcd_StartedAt = t,
    rcd_FinishedAt = snd (read_clock rt), rcd_Duration = milliseconds (sta_LastDuration (rt_status rt)),
    rcd_Error = (case err of None \<Rightarrow> [] | Some e \<Rightarrow> ren_text E e), rcd_ErrorKind = (if kind = [] then classifyRepairError E err else kind),
    rcd_Summary = withoutIssues summary, rcd_IssueCount = length (su_Issues summary)\<rparr>"
  show ?thesis
    using assms by (intro exI [of _ ?r]) (auto simp: recordRun_def read_clock_def Let_def)
qed

lemma markFinished_fields:
  assumes "i \<noteq> []" and m: "markFinished E t i bucket prefix summary err rt = rt'"
  shows "\<exists>r. finished_record E t i bucket prefix summary err r \<and> rt_history rt' = take maxRepairHistory (r # rt_history rt) \<and>
     rt_issues rt' = fmupd i (su_Issues summary) (fmdrop_set (set (map rcd_RunID (drop maxRepairHistory (r # rt_history rt)))) (rt_issues rt)) \<and>
     rt_cfg rt' = rt_cfg rt \<and> rt_nextRunID rt' = rt_nextRunID rt \<and> \<not> sta_Running (rt_status rt') \<and> sta_Progress (rt_status rt') = None \<and>
     sta_LastRunID (rt_status rt') = i \<and> sta_LastSummary (rt_status rt') = summary \<and>
     sta_LastError (rt_status rt') = (case err of None \<Rightarrow> [] | Some e \<Rightarrow> ren_text E e)"
proof -
  let ?ended = "\<lambda>rt1. rt1\<lparr>rt_status := (rt_status rt1)\<lparr>sta_LastError := (case err of None \<Rightarrow> [] | Some e \<Rightarrow> ren_text E e)\<rparr>\<rparr>"
  have "\<exists>rt0 trigger kind. ?ended (recordRun E t i (trim_space bucket) (trim_space prefix) summary err trigger kind rt0) = rt' \<and>
      rt_history rt0 = rt_history rt \<and> rt_issues rt0 = rt_issues rt \<and> rt_cfg rt0 = rt_cfg rt \<and> rt_nextRunID rt0 = rt_nextRunID rt \<and>
      \<not> sta_Running (rt_status rt0) \<and> sta_Progress (rt_status rt0) = None \<and> sta_LastRunID (rt_status rt0) = i \<and>
      sta_LastSummary (rt_status rt0) = summary"
  proof (cases "t = 0")
    case True
    show ?thesis using m [unfolded markFinished_def Let_def read_clock_def prod.case if_P [OF True]]
      by (intro exI conjI, assumption) simp_all
  next
    case False
    show ?thesis using m [unfolded markFinished_def Let_def read_clock_def prod.case if_not_P [OF False] map_prod_simp]
      by (intro exI conjI, assumption) simp_all
  qed
  then obtain rt0 rt1 trigger kind where r: "recordRun E t i (trim_space bucket) (trim_space prefix) summary err trigger kind rt0 = rt1"
    and m1: "rt' = ?ended rt1"
    and rt0: "rt_history rt0 = rt_history rt" "rt_issues rt0 = rt_issues rt" "rt_cfg rt0 = rt_cfg rt" "rt_nextRunID rt0 = rt_nextRunID rt"
      "\<not> sta_Running (rt_status rt0)" "sta_Progress (rt_status rt0) = None" "sta_LastRunID (rt_status rt0) = i"
      "sta_LastSummary (rt_status rt0) = summary" by metis
  from recordRun_fields [OF assms(1) r] rt0 show ?thesis by (simp add: m1 finished_record_def) metis
qed

lemma in_fmdom_drop_set: "k |\<in>| fmdom (fmdrop_set A f) \<longleftrightarrow> k \<notin> A \<and> k |\<in>| fmdom f"
  by (simp add: fmlookup_dom_iff)

lemma history_kept_finish:
  assumes h: "history_kept rt" and d: "distinct (i # map rcd_RunID (rt_history rt))" and s: "accounted (rt_cfg rt) summary"
    and r: "finished_record E t i bucket prefix summary err r"
    and rt': "rt_history rt' = take maxRepairHistory (r # rt_history rt)" "rt_cfg rt' = rt_cfg rt"
      "rt_issues rt' = fmupd i (su_Issues summary) (fmdrop_set (set (map rcd_RunID (drop maxRepairHistory (r # rt_history rt)))) (rt_issues rt))"
  shows "history_kept rt'"
proof -
  let ?h = "r # rt_history rt"
  let ?old = "take (maxRepairHistory - 1) (rt_history rt)"
  have i: "rcd_RunID r = i" using r by (simp add: finished_record_def)
  have take: "rt_history rt' = r # ?old" using rt'(1) by (simp add: maxRepairHistory_def numeral_eq_Suc)
  have drop: "drop maxRepairHistory ?h = drop (maxRepairHistory - 1) (rt_history rt)" by (simp add: maxRepairHistory_def numeral_eq_Suc)
  have split: "set (map rcd_RunID (rt_history rt)) = set (map rcd_RunID ?old) \<union> set (map rcd_RunID (drop maxRepairHistory ?h))"
    by (simp only: drop set_append [symmetric] map_append [symmetric] append_take_drop_id)
  have disj: "set (map rcd_RunID ?old) \<inter> set (map rcd_RunID (drop maxRepairHistory ?h)) = {}"
  proof -
    have "distinct (map rcd_RunID ?old @ map rcd_RunID (drop (maxRepairHistory - 1) (rt_history rt)))"
      using d by (simp only: map_append [symmetric] append_take_drop_id) simp
    then show ?thesis by (simp only: drop distinct_append)
  qed
  have old: "fmlookup (rt_issues rt') j = fmlookup (rt_issues rt) j" if "j \<in> set (map rcd_RunID ?old)" for j
    using that disj d by (auto simp: rt'(3) dest: in_set_takeD)
  have "fmdom (rt_issues rt') = finsert i (fset_of_list (map rcd_RunID ?old))"
  proof (rule fset_eqI)
    fix j
    have "j |\<in>| fmdom (rt_issues rt) \<longleftrightarrow> j \<in> set (map rcd_RunID (rt_history rt))"
      using h by (simp only: history_kept_def fset_of_list_elem)
    then have "j |\<in>| fmdom (rt_issues rt') \<longleftrightarrow> j = i \<or> j \<in> set (map rcd_RunID ?old)"
      using split disj unfolding rt'(3) fmdom_fmupd finsert_iff in_fmdom_drop_set by blast
    then show "j |\<in>| fmdom (rt_issues rt') \<longleftrightarrow> j |\<in>| finsert i (fset_of_list (map rcd_RunID ?old))"
      by (simp only: finsert_iff fset_of_list_elem)
  qed
  moreover have "\<exists>is. fmlookup (rt_issues rt') i = Some is \<and> length is = rcd_IssueCount r \<and> rcd_IssueCount r \<le> maxRepairIssues"
    using r s by (simp add: rt'(3) finished_record_def accounted_def)
  moreover have "accounted (rt_cfg rt) (rcd_Summary r) \<and> su_Issues (rcd_Summary r) = []"
    using r withoutIssues_accounted [OF s] by (simp add: finished_record_def)
  moreover have "\<forall>q \<in> set ?old. accounted (rt_cfg rt) (rcd_Summary q) \<and> su_Issues (rcd_Summary q) = [] \<and>
     (\<exists>is. fmlookup (rt_issues rt') (rcd_RunID q) = Some is \<and> length is = rcd_IssueCount q \<and> rcd_IssueCount q \<le> maxRepairIssues)"
    using h old by (auto simp: history_kept_def dest: in_set_takeD)
  ultimately show ?thesis by (simp add: history_kept_def take rt'(2) i maxRepairHistory_def)
qed

lemma finish_kept:
  assumes k: "books_kept (rt, p, a)" and a: "(i, t) \<in> set a" and s: "accounted (rt_cfg rt) summary"
  shows "books_kept (markFinished E t i bucket prefix summary err rt, p, remove1 (i, t) a)"
proof -
  define rt' where "rt' = markFinished E t i bucket prefix summary err rt"
  have a: "a = [(i, t)]" using k a by (auto simp: books_kept_def status_kept_def split: if_splits)
  have ids: "distinct (p @ i # map rcd_RunID (rt_history rt))" "set (p @ i # map rcd_RunID (rt_history rt)) \<subseteq> run_id ` {1..rt_nextRunID rt}"
    using k a by (auto simp: books_kept_def ids_kept_def)
  then have "i \<noteq> []" by auto
  from markFinished_fields [OF this rt'_def [symmetric]] obtain r where r: "finished_record E t i bucket prefix summary err r"
    and h: "rt_history rt' = take maxRepairHistory (r # rt_history rt)" "rt_cfg rt' = rt_cfg rt"
      "rt_issues rt' = fmupd i (su_Issues summary) (fmdrop_set (set (map rcd_RunID (drop maxRepairHistory (r # rt_history rt)))) (rt_issues rt))"
    and st: "rt_nextRunID rt' = rt_nextRunID rt" "\<not> sta_Running (rt_status rt')" "sta_Progress (rt_status rt') = None" by blast
  have "history_kept rt'"
    by (rule history_kept_finish [OF _ _ s r h]) (use k ids in \<open>simp_all add: books_kept_def\<close>)
  moreover have "ids_kept rt' p []"
  proof -
    have "rcd_RunID r = i" using r by (simp add: finished_record_def)
    then have hm: "map rcd_RunID (rt_history rt') = take maxRepairHistory (i # map rcd_RunID (rt_history rt))" by (simp add: h(1) take_map [symmetric])
    have "distinct (p @ take n (i # map rcd_RunID (rt_history rt)))" for n
      using ids(1) set_take_subset [of n "i # map rcd_RunID (rt_history rt)"] distinct_take [of "i # map rcd_RunID (rt_history rt)" n]
      by (simp only: distinct_append) blast
    moreover have "set (p @ take n (i # map rcd_RunID (rt_history rt))) \<subseteq> run_id ` {1..rt_nextRunID rt}" for n
      using ids(2) set_take_subset [of n "i # map rcd_RunID (rt_history rt)"] by (simp only: set_append) blast
    ultimately show ?thesis by (simp add: ids_kept_def hm st(1))
  qed
  ultimately show ?thesis using st(2,3) by (simp add: books_kept_def status_kept_def a rt'_def [symmetric])
qed

lemma repair_step_kept: "repair_step E x y \<Longrightarrow> books_kept x \<Longrightarrow> books_kept y"
  by (induction rule: repair_step.induct) (simp_all add: trigger_kept number_kept start_kept busy_kept progress_kept work_kept finish_kept)

lemma repair_steps_kept: "repair_steps E x y \<Longrightarrow> books_kept x \<Longrightarrow> books_kept y"
  by (induction rule: rtranclp_induct) (auto intro: repair_step_kept)

section \<open>A run is such steps\<close>

lemma same_status_progress: "same_status s s' \<Longrightarrow> s' = s\<lparr>sta_Progress := sta_Progress s'\<rparr>"
  by (cases s; cases s') (simp add: same_status_def)

lemma same_books_eq:
  assumes "same_books rt rt'"
  shows "rt' = rt\<lparr>rt_objects := rt_objects rt', rt_now := rt_now rt', rt_delays := rt_delays rt',
    rt_status := (rt_status rt)\<lparr>sta_Progress := sta_Progress (rt_status rt')\<rparr>\<rparr>"
  using assms same_status_progress [of "rt_status rt" "rt_status rt'"] by (cases rt; cases rt') (simp add: same_books_def)

lemma same_books_steps:
  assumes b: "same_books rt rt'" and a: "(sta_LastRunID (rt_status rt), t) \<in> set a" "sta_LastRunID (rt_status rt) \<noteq> []"
  shows "repair_steps E (rt, p, a) (rt', p, a)"
proof -
  define rt1 where "rt1 = rt\<lparr>rt_objects := rt_objects rt', rt_now := rt_now rt', rt_delays := rt_delays rt'\<rparr>"
  have work: "repair_step E (rt, p, a) (rt1, p, a)" unfolding rt1_def by (rule work_step)
  have rt': "rt' = rt1\<lparr>rt_status := (rt_status rt)\<lparr>sta_Progress := sta_Progress (rt_status rt')\<rparr>\<rparr>"
    using same_books_eq [OF b] by (simp add: rt1_def)
  have "sta_Progress (rt_status rt') = sta_Progress (rt_status rt) \<or>
      sta_Running (rt_status rt) \<and> (\<exists>g. sta_Progress (rt_status rt') = Some g \<and> pg_RunID g = sta_LastRunID (rt_status rt))"
    using b by (auto simp: same_books_def same_status_def)
  then show ?thesis
  proof
    assume "sta_Progress (rt_status rt') = sta_Progress (rt_status rt)"
    then have "rt' = rt1" using rt' by (simp add: rt1_def)
    then show ?thesis using work by blast
  next
    assume "sta_Running (rt_status rt) \<and> (\<exists>g. sta_Progress (rt_status rt') = Some g \<and> pg_RunID g = sta_LastRunID (rt_status rt))"
    then obtain g where run: "sta_Running (rt_status rt)" and g: "sta_Progress (rt_status rt') = Some g" "pg_RunID g = sta_LastRunID (rt_status rt)"
      by blast
    have "setProgress g rt1 = rt'" using rt' run g a(2) by (simp add: setProgress_def rt1_def)
    then have "repair_step E (rt1, p, a) (rt', p, a)" using progress_step [of g t a E rt1 p] a(1) g(2) by simp
    then show ?thesis using work by (meson converse_rtranclp_into_rtranclp r_into_rtranclp)
  qed
qed

text \<open>What a run of the service does: it is refused while another one runs, and otherwise it is the newest entry of the history.\<close>

definition run_recorded :: "RepairEnv \<Rightarrow> string \<Rightarrow> string \<Rightarrow> 'm RepairRuntime \<Rightarrow> 'm RepairRuntime \<Rightarrow> Summary \<Rightarrow> repair_error option \<Rightarrow> bool" where
  "run_recorded E bucket prefix rt rt' summary err \<longleftrightarrow>
     (\<exists>t r. finished_record E t (run_id (Suc (rt_nextRunID rt))) bucket prefix summary err r \<and>
        rt_history rt' = take maxRepairHistory (r # rt_history rt) \<and>
        fmlookup (rt_issues rt') (rcd_RunID r) = Some (su_Issues summary)) \<and>
     \<not> sta_Running (rt_status rt') \<and> sta_LastRunID (rt_status rt') = run_id (Suc (rt_nextRunID rt)) \<and>
     sta_LastSummary (rt_status rt') = summary \<and> sta_LastError (rt_status rt') = (case err of None \<Rightarrow> [] | Some e \<Rightarrow> ren_text E e)"

lemma RunOnceWithScope_result:
  assumes run: "RunOnceWithScope E M ctx bucket prefix rt = (rt', s, err)"
  shows "if sta_Running (rt_status rt)
    then err = Some ErrRepairAlreadyRunning \<and> s = zero_Summary \<and>
      rt' = (setRunTrigger ''manual'' rt)\<lparr>rt_nextRunID := Suc (rt_nextRunID rt)\<rparr>
    else (\<exists>rt1 rt2 t. tryMarkStarted (run_id (Suc (rt_nextRunID rt))) ((setRunTrigger ''manual'' rt)\<lparr>rt_nextRunID := Suc (rt_nextRunID rt)\<rparr>) = (rt1, Some t) \<and>
      runOnce E M ctx (run_id (Suc (rt_nextRunID rt))) (trim_space bucket) (trim_space prefix) rt1 = (rt2, s, err) \<and>
      rt' = markFinished E t (run_id (Suc (rt_nextRunID rt))) (trim_space bucket) (trim_space prefix) s err rt2)"
  using run by (auto simp: RunOnceWithScope_def Let_def newRunID_def run_id_def setRunTrigger_def tryMarkStarted_def read_clock_def split: prod.splits if_splits)

lemma started_fields:
  assumes "tryMarkStarted i rt = (rt1, Some t)"
  shows "sta_LastRunID (rt_status rt1) = i \<and> rt_cfg rt1 = rt_cfg rt \<and> rt_history rt1 = rt_history rt \<and> rt_issues rt1 = rt_issues rt"
  using assms by (auto simp: tryMarkStarted_def read_clock_def Let_def split: if_splits)

lemma RunOnceWithScope_steps:
  assumes k: "books_kept (rt, p, a)" and run: "RunOnceWithScope E M ctx bucket prefix rt = (rt', s, err)"
  shows "repair_steps E (rt, p, a) (rt', p, a)"
proof -
  let ?i = "run_id (Suc (rt_nextRunID rt))"
  define rt0 where "rt0 = (setRunTrigger ''manual'' rt)\<lparr>rt_nextRunID := Suc (rt_nextRunID rt)\<rparr>"
  have "repair_step E (rt, p, a) (setRunTrigger ''manual'' rt, p, a)" by (rule trigger_step)
  moreover have "repair_step E (setRunTrigger ''manual'' rt, p, a) (rt0, ?i # p, a)"
    by (rule number_step) (simp add: newRunID_def rt0_def run_id_def setRunTrigger_def)
  ultimately have issued: "repair_steps E (rt, p, a) (rt0, ?i # p, a)" by (meson converse_rtranclp_into_rtranclp r_into_rtranclp)
  show ?thesis
  proof (cases "sta_Running (rt_status rt)")
    case True
    then have "rt' = rt0" using RunOnceWithScope_result [OF run] by (simp add: rt0_def)
    moreover have "repair_step E (rt0, ?i # p, a) (rt0, remove1 ?i (?i # p), a)"
      by (rule busy_step) (use True in \<open>simp_all add: tryMarkStarted_def rt0_def setRunTrigger_def\<close>)
    ultimately show ?thesis using issued by (simp add: rtranclp.rtrancl_into_rtrancl)
  next
    case False
    then obtain rt1 rt2 t where st: "tryMarkStarted ?i rt0 = (rt1, Some t)"
      and ru: "runOnce E M ctx ?i (trim_space bucket) (trim_space prefix) rt1 = (rt2, s, err)"
      and fi: "rt' = markFinished E t ?i (trim_space bucket) (trim_space prefix) s err rt2"
      using RunOnceWithScope_result [OF run] by (auto simp: rt0_def)
    note counts = runOnce_counts [OF ru]
    have "repair_steps E (rt, p, a) (rt1, p, (?i, t) # a)"
      using issued start_step [OF _ st, of "?i # p" E a] by (simp add: rtranclp.rtrancl_into_rtrancl)
    also have "repair_steps E (rt1, p, (?i, t) # a) (rt2, p, (?i, t) # a)"
      by (rule same_books_steps) (use counts started_fields [OF st] in auto)
    also have "repair_step E (rt2, p, (?i, t) # a) (rt', p, remove1 (?i, t) ((?i, t) # a))"
      unfolding fi by (rule finish_step) (use counts same_books_cfg [of rt1 rt2] in simp_all)
    finally show ?thesis by simp
  qed
qed

lemma RunOnceWithScope_recorded:
  assumes run: "RunOnceWithScope E M ctx bucket prefix rt = (rt', s, err)" and idle: "\<not> sta_Running (rt_status rt)"
  shows "run_recorded E (trim_space bucket) (trim_space prefix) rt rt' s err \<and> accounted (rt_cfg rt) s \<and> (err = None \<longrightarrow> all_settled s)"
proof -
  let ?i = "run_id (Suc (rt_nextRunID rt))"
  define rt0 where "rt0 = (setRunTrigger ''manual'' rt)\<lparr>rt_nextRunID := Suc (rt_nextRunID rt)\<rparr>"
  obtain rt1 rt2 t where st: "tryMarkStarted ?i rt0 = (rt1, Some t)"
    and ru: "runOnce E M ctx ?i (trim_space bucket) (trim_space prefix) rt1 = (rt2, s, err)"
    and fi: "markFinished E t ?i (trim_space bucket) (trim_space prefix) s err rt2 = rt'"
    using RunOnceWithScope_result [OF run] idle by (auto simp: rt0_def)
  note counts = runOnce_counts [OF ru] and s = started_fields [OF st]
  have "rt_history rt2 = rt_history rt" "rt_cfg rt1 = rt_cfg rt" using counts s by (simp_all add: same_books_def rt0_def setRunTrigger_def)
  then show ?thesis using markFinished_fields [OF run_id_nonempty fi] counts
    by (auto simp: run_recorded_def finished_record_def)
qed

end
