(* ===== verification/Repair_Healing.thy ===== *)
theory Repair_Healing
  imports Repair_History Store_Refinement
begin

text \<open>
  A store that has lost shards, and how a repair run brings it back. The relation \<open>mendable\<close> weakens the one of \<open>Store_Durability\<close>: of every
  blob at least \<open>k\<close> shards are in place and checksums notice the others. The blobs in \<open>H\<close> are whole again; when all are, the store
  is as it was before the damage.
\<close>

section \<open>A blob that can be mended\<close>

definition mendable_shards :: "Externals \<Rightarrow> Engine \<Rightarrow> string \<Rightarrow> BlobRef \<Rightarrow> shards \<Rightarrow> bool" where
  "mendable_shards X e h r es \<longleftrightarrow>
     (\<forall>i < length es. trim_space (pl_node (ref_placements r ! i)) \<noteq> [] \<and> (\<exists>n. storageNode e (ref_placements r ! i) = Inr n \<and>
        (\<forall>x. seen e n (ref_path r) h i = Some x \<longrightarrow> HashBytes X x = HashBytes X (es ! i) \<longrightarrow> x = es ! i))) \<and>
     coder_k (eng_coder e) \<le> card {i. i < length es \<and> (\<exists>n. storageNode e (ref_placements r ! i) = Inr n \<and>
        held e n (ref_path r) h i = Some (es ! i))}"

definition blob_mendable :: "Externals \<Rightarrow> Engine \<Rightarrow> bytes \<Rightarrow> BlobRef \<Rightarrow> bool" where
  "blob_mendable X e d r \<longleftrightarrow> d \<noteq> [] \<and> plain_name (ref_path r) \<and> ref_size r = int (length d) \<and>
     length (ref_placements r) = TotalChunks (eng_coder e) \<and>
     (\<exists>es. Encode (eng_coder e) d = Inr es \<and> length es = TotalChunks (eng_coder e) \<and> ref_checksums r = shardChecksums X es \<and>
        mendable_shards X e (HashBytes X d) r es)"

definition mendable :: "Externals \<Rightarrow> bytes set \<Rightarrow> Engine \<Rightarrow> meta_view \<Rightarrow> object_map \<Rightarrow> string set \<Rightarrow> Engine \<Rightarrow> bool" where
  "mendable X D e0 v A H e \<longleftrightarrow> same_conf e0 e \<and> eng_fates e = [] \<and>
     (\<forall>h r. fmlookup (mv_refs v) h = Some r \<longrightarrow> (\<exists>d \<in> D. h = HashBytes X d \<and> blob_mendable X e d r \<and> (h \<in> H \<longrightarrow> blob_stored X e d r))) \<and>
     (\<forall>i x. fmlookup (mv_objects v) i = Some x \<longrightarrow> i = meta_key x \<and> object_durable X D v e A x) \<and>
     (\<forall>b k d. A (b, k) = Some d \<longrightarrow> (\<exists>x. fmlookup (mv_objects v) (object_key b k) = Some x \<and> om_bucket x = b \<and> om_key x = k))"

lemma mendableD:
  assumes "mendable X D e0 v A H e"
  shows "same_conf e0 e" "eng_fates e = []"
    "fmlookup (mv_refs v) h = Some r \<Longrightarrow> \<exists>d \<in> D. h = HashBytes X d \<and> blob_mendable X e d r \<and> (h \<in> H \<longrightarrow> blob_stored X e d r)"
    "fmlookup (mv_objects v) i = Some x \<Longrightarrow> i = meta_key x \<and> object_durable X D v e A x"
    "A (b, k) = Some d \<Longrightarrow> \<exists>x. fmlookup (mv_objects v) (object_key b k) = Some x \<and> om_bucket x = b \<and> om_key x = k"
  using assms unfolding mendable_def by blast+

text \<open>When every blob is whole, nothing is left of the damage.\<close>

lemma mendable_durable: "mendable X D e0 v A H e \<Longrightarrow> fset (fmdom (mv_refs v)) \<subseteq> H \<Longrightarrow> durable X D e0 v e A"
  unfolding mendable_def durable_def by (meson fmdomI subsetD)

lemma seen_held_iff: "x \<noteq> [] \<Longrightarrow> seen e n d h i = Some x \<longleftrightarrow> held e n d h i = Some x"
  by (cases n) (auto simp: seen_def split: option.splits)

lemma Encode_nonempty:
  assumes "erasure_scheme (coder_k c) (coder_m c) (coder_scheme c)" "d \<noteq> []" "Encode c d = Inr es"
  shows "length es = TotalChunks c" "list_all (\<lambda>s. s \<noteq> []) es"
proof -
  obtain ss es' where "Encode c d = Inr es'" "length es' = coder_k c + coder_m c" "0 < shard_size (coder_k c) d"
    "list_all (\<lambda>s. length s = shard_size (coder_k c) d) es'"
    by (rule erasure_scheme.Encode_shards [OF assms(1) refl refl refl assms(2)])
  then show "length es = TotalChunks c" "list_all (\<lambda>s. s \<noteq> []) es" using assms(3) by (auto simp: TotalChunks_def list_all_iff)
qed

text \<open>A blob in place can be mended.\<close>

lemma stored_mendable:
  assumes "blob_stored X e d r" "coder_k (eng_coder e) \<le> TotalChunks (eng_coder e)"
  shows "blob_mendable X e d r"
proof -
  obtain es where es: "Encode (eng_coder e) d = Inr es" "length es = TotalChunks (eng_coder e)" "ref_checksums r = shardChecksums X es"
    "\<And>i. i < length es \<Longrightarrow> trim_space (pl_node (ref_placements r ! i)) \<noteq> [] \<and>
       (\<exists>n. storageNode e (ref_placements r ! i) = Inr n \<and> held e n (ref_path r) (HashBytes X d) i = Some (es ! i))"
    using assms(1) unfolding blob_stored_def by blast
  then have "{i. i < length es \<and> (\<exists>n. storageNode e (ref_placements r ! i) = Inr n \<and> held e n (ref_path r) (HashBytes X d) i = Some (es ! i))} =
    {..<length es}" by auto
  moreover have "\<exists>n. storageNode e (ref_placements r ! i) = Inr n \<and>
      (\<forall>x. seen e n (ref_path r) (HashBytes X d) i = Some x \<longrightarrow> HashBytes X x = HashBytes X (es ! i) \<longrightarrow> x = es ! i)" if "i < length es" for i
    using es(4) [OF that] seen_held by fastforce
  ultimately have "mendable_shards X e (HashBytes X d) r es" using es(2,4) assms(2) by (simp add: mendable_shards_def)
  then show ?thesis using assms(1) es(1-3) unfolding blob_stored_def blob_mendable_def by blast
qed

lemma blob_mendable_cong:
  assumes "blob_mendable X e d r" "same_conf e e'"
    and "\<And>n i. held e' n (ref_path r) (HashBytes X d) i = held e n (ref_path r) (HashBytes X d) i"
  shows "blob_mendable X e' d r"
proof -
  have "seen e' n (ref_path r) (HashBytes X d) i = seen e n (ref_path r) (HashBytes X d) i" for n i
    using assms(3) by (simp add: seen_def split: StorageNode.split)
  then show ?thesis
    using assms(1,3) same_confD(9) [OF assms(2)] same_conf_storageNode [OF assms(2)] by (simp add: blob_mendable_def mendable_shards_def)
qed

section \<open>One object\<close>

text \<open>What is known of an object of a mendable store: its bytes, its layout, the reference to its blob and the shards of the blob.\<close>

definition mend_object :: "Externals \<Rightarrow> bytes set \<Rightarrow> meta_view \<Rightarrow> Engine \<Rightarrow> ObjectMeta \<Rightarrow> bytes \<Rightarrow> Layout \<Rightarrow> BlobRef \<Rightarrow> shards \<Rightarrow> bool" where
  "mend_object X D v e x d L r es \<longleftrightarrow> d \<in> D \<and> om_hash x = HashBytes X d \<and> fmlookup (eng_cache e) (layoutKey (om_bucket x) (om_key x)) = Some L \<and>
     fmlookup (mv_refs v) (om_hash x) = Some r \<and> layout_for L r (om_hash x) (layoutHash X (layoutKey (om_bucket x) (om_key x))) \<and>
     d \<noteq> [] \<and> plain_name (ref_path r) \<and> ref_size r = int (length d) \<and> length (ref_placements r) = TotalChunks (eng_coder e) \<and>
     Encode (eng_coder e) d = Inr es \<and> length es = TotalChunks (eng_coder e) \<and> ref_checksums r = shardChecksums X es \<and>
     mendable_shards X e (HashBytes X d) r es"

lemma mend_object_exists:
  assumes "inj_on (HashBytes X) D" "mendable X D e0 v A H e" "fmlookup (mv_objects v) i = Some x"
  shows "\<exists>d L r es. mend_object X D v e x d L r es"
proof -
  note m = mendableD [OF assms(2)]
  obtain d L r where o: "d \<in> D" "om_hash x = HashBytes X d" "fmlookup (eng_cache e) (layoutKey (om_bucket x) (om_key x)) = Some L"
    "fmlookup (mv_refs v) (om_hash x) = Some r" "layout_for L r (om_hash x) (layoutHash X (layoutKey (om_bucket x) (om_key x)))"
    using m(4) [OF assms(3)] unfolding object_durable_def by blast
  obtain y where y: "y \<in> D" "om_hash x = HashBytes X y" "blob_mendable X e y r" using m(3) [OF o(4)] by blast
  then have "y = d" using o(1,2) assms(1) by (auto dest: inj_onD)
  then show ?thesis using o y(3) unfolding mend_object_def blob_mendable_def by blast
qed

lemma mend_placement:
  assumes "mend_object X D v e x d L r es" "i < length es"
  shows "shardPlacement e L i = ref_placements r ! i"
  using assms by (auto simp: mend_object_def layout_for_def mendable_shards_def shardPlacement_def)

lemma mend_stored_as:
  assumes "mend_object X D v e x d L r es"
  shows "stored_as X e L es"
  using assms mend_placement [OF assms] by (auto simp: stored_as_def mend_object_def layout_for_def mendable_shards_def)

definition mend_setting :: "Externals \<Rightarrow> Engine \<Rightarrow> bool" where
  "mend_setting X e \<longleftrightarrow> digest_names X \<and> quiet_io X e \<and> eng_k e = coder_k (eng_coder e) \<and>
     erasure_scheme (coder_k (eng_coder e)) (coder_m (eng_coder e)) (coder_scheme (eng_coder e))"

lemma mend_settingI: "durable_setting X D e0 \<Longrightarrow> quiet_io X e0 \<Longrightarrow> same_conf e0 e \<Longrightarrow> mend_setting X e"
  using same_confD [of e0 e] same_conf_ok(2) [of e0 e] by (simp add: mend_setting_def durable_setting_def)

text \<open>Such an object is recoverable.\<close>

lemma mend_recoverable:
  assumes "mend_setting X e" "mend_object X D v e x d L r es"
  shows "he_Recoverable (healthFromLayout X e L)"
proof -
  have X: "hash_clean X" "quiet_io X e" using assms(1) digest_names_clean by (auto simp: mend_setting_def)
  note st = mend_stored_as [OF assms(2)]
  have len: "length es = TotalChunks (eng_coder e)" using assms(2) by (simp add: mend_object_def)
  let ?ok = "{i. i < length es \<and> (\<exists>n. storageNode e (ref_placements r ! i) = Inr n \<and> held e n (ref_path r) (HashBytes X d) i = Some (es ! i))}"
  have "?ok \<subseteq> set (filter (\<lambda>i. shown X e L es i \<noteq> None) [0..<TotalChunks (eng_coder e)])"
  proof
    fix i assume i: "i \<in> ?ok"
    then obtain n where "storageNode e (shardPlacement e L i) = Inr n" "held e n (ly_ShardDir L) (ly_Hash L) i = Some (es ! i)"
      using mend_placement [OF assms(2)] assms(2) by (auto simp: mend_object_def layout_for_def)
    then have "shown X e L es i = Some (es ! i)" using seen_held by (simp add: shown_def)
    then show "i \<in> set (filter (\<lambda>i. shown X e L es i \<noteq> None) [0..<TotalChunks (eng_coder e)])" using i len by simp
  qed
  then have "card ?ok \<le> card (set (filter (\<lambda>i. shown X e L es i \<noteq> None) [0..<TotalChunks (eng_coder e)]))"
    by (rule card_mono [rotated]) simp
  also have "\<dots> = he_Available (healthFromLayout X e L)"
    using healthFromLayout_all(1) [of e X L "shown X e L es", OF stored_as_read(1) [OF st X(2,1)]] len
    by (subst distinct_card) simp_all
  finally have "coder_k (eng_coder e) \<le> he_Available (healthFromLayout X e L)"
    using assms(2) by (auto simp: mend_object_def mendable_shards_def)
  then show ?thesis using assms(1) by (simp add: mend_setting_def healthFromLayout_def Let_def)
qed

text \<open>When all its shards read, now or after a repair, its blob is in place.\<close>

lemma whole_stored:
  assumes set: "mend_setting X e" and o: "mend_object X D v e x d L r es" and e': "same_conf e e'" "whole X e' L es"
  shows "blob_stored X e' d r"
proof -
  have st: "stored_as X e L es" using mend_stored_as [OF o] .
  have len: "length es = TotalChunks (eng_coder e)" and ne: "list_all (\<lambda>s. s \<noteq> []) es"
    using set o Encode_nonempty [of "eng_coder e" d es] by (auto simp: mend_object_def mend_setting_def)
  have X: "hash_clean X" "quiet_io X e'" using set digest_names_clean same_confD(10) [OF e'(1)] by (auto simp: mend_setting_def quiet_io_def)
  have rd: "map (readShardForRecovery X e' L) [0..<TotalChunks (eng_coder e')] = map (Inr \<circ> Some) es" using e'(2) by (simp add: whole_def)
  have "trim_space (pl_node (ref_placements r ! i)) \<noteq> [] \<and> (\<exists>n. storageNode e' (ref_placements r ! i) = Inr n \<and>
      held e' n (ref_path r) (HashBytes X d) i = Some (es ! i))" if i: "i < length es" for i
  proof -
    obtain n where n: "storageNode e (ref_placements r ! i) = Inr n" "trim_space (pl_node (ref_placements r ! i)) \<noteq> []"
      using o i by (auto simp: mend_object_def mendable_shards_def)
    have sp: "storageNode e' (shardPlacement e' L i) = Inr n"
      using n(1) mend_placement [OF o i] same_conf_shardPlacement [OF e'(1)] same_conf_storageNode [OF e'(1)] by simp
    have ck: "i < length (ly_Checksums L)" "trim_space (ly_Checksums L ! i) = HashBytes X (es ! i)" "HashBytes X (es ! i) \<noteq> []"
      using st X(1) i len by (simp_all add: stored_as_def shardChecksums_def hash_clean_def)
    have "readShardForRecovery X e' L i = Inr (Some (es ! i))"
      using arg_cong [OF rd, of "\<lambda>xs. xs ! i"] i len same_confD(9) [OF e'(1)] by simp
    then have "seen e' n (ly_ShardDir L) (ly_Hash L) i = Some (es ! i)"
      using readShardForRecovery_seen [OF X(2) sp ck] by (auto split: option.splits if_splits)
    then have "held e' n (ref_path r) (HashBytes X d) i = Some (es ! i)"
      using o ne i seen_held_iff [of "es ! i"] by (simp add: mend_object_def layout_for_def list_all_length)
    then show ?thesis using n same_conf_storageNode [OF e'(1)] by simp
  qed
  then show ?thesis using o len same_confD(9) [OF e'(1)] unfolding blob_stored_def mend_object_def by metis
qed

text \<open>Health, scrub and repair of such an object.\<close>

lemma mend_health:
  assumes "mend_object X D v e x d L r es"
  shows "CheckHealth X e (om_bucket x) (om_key x) = (e, Inr (healthFromLayout X e L))"
  using assms by (simp add: CheckHealth_def mend_object_def getLayout_cached)

lemma whole_scrub:
  assumes "mend_setting X e" "mend_object X D v e x d L r es" "whole X e L es"
  shows "\<exists>res. ScrubObject X e (om_bucket x) (om_key x) = (e, Some res, None) \<and> sc_Healthy res"
proof -
  let ?c = "eng_coder e"
  let ?ds = "map Some es"
  have len: "length es = TotalChunks ?c" and ne: "list_all (\<lambda>s. s \<noteq> []) es" and d: "d \<noteq> []" "Encode ?c d = Inr es"
    and L: "fmlookup (eng_cache e) (layoutKey (om_bucket x) (om_key x)) = Some L" "ly_Size L = int (length d)" "ly_Hash L = HashBytes X d"
    using assms(1,2) Encode_nonempty [of ?c d es] by (auto simp: mend_object_def mend_setting_def layout_for_def)
  have scheme: "erasure_scheme (coder_k ?c) (coder_m ?c) (coder_scheme ?c)" "eng_k e = coder_k ?c" and X: "hash_clean X"
    using assms(1) digest_names_clean by (auto simp: mend_setting_def)
  have rd: "map (readShardForRecovery X e L) [0..<TotalChunks ?c] = map (Inr \<circ> Some) es" using assms(3) by (simp add: whole_def)
  have "readShardForRecovery X e L i = Inr (Some (es ! i))" if "i < TotalChunks ?c" for i
    using arg_cong [OF rd, of "\<lambda>xs. xs ! i"] that len by simp
  then have "read_shards X e L [0..<TotalChunks ?c] = Inr (map (\<lambda>i. Some (es ! i)) [0..<TotalChunks ?c])"
    by (intro read_shards_all) simp
  also have "map (\<lambda>i. Some (es ! i)) [0..<TotalChunks ?c] = ?ds" by (rule nth_equalityI) (simp_all add: len)
  finally have av: "readAvailableShards X e L = Inr (?ds, TotalChunks ?c)" by (simp add: readAvailableShards_def len filter_map comp_def)
  have ensure: "ensureReadableShards X e L ?ds (TotalChunks ?c) = (e, Inr ?ds)"
    using scheme(2) by (simp add: ensureReadableShards_def TotalChunks_def)
  have raw: "raw_shards ?ds = es" by (simp add: raw_shards_def comp_def)
  have full: "present es = TotalChunks ?c" using present_full [of es] ne len by (auto simp: list_all_iff)
  have "Decode ?c (raw_shards ?ds) (ly_Size L) = Inr d"
    unfolding raw L(2) by (rule erasure_scheme.Decode_Encode [OF scheme(1) refl refl refl d]) (auto simp: erased_def full TotalChunks_def list_all2_same)
  then show ?thesis
    using assms(3) L X av ensure
    by (simp add: ScrubObject_def getLayout_cached whole_def Let_def verifyObjectChecksum_def hash_clean_def)
qed

lemma write_shards_calm: "eng_fates e = [] \<Longrightarrow> eng_fates (fst (write_shards e d h xs)) = []"
proof (induction xs arbitrary: e)
  case (Cons y xs)
  obtain i p x where y: "y = (i, p, x)" by (cases y)
  obtain e1 r where w: "writeShard e p d h i x = (e1, r)" by fastforce
  then have "eng_fates e1 = []" using Cons.prems
    by (auto simp: writeShard_def node_WriteShard_def backend_WriteShard_def remote_WriteShard_def next_fate_def spend_fate_def Let_def
        split: sum.splits StorageNode.splits if_splits)
  then show ?case using Cons.IH [of e1] w by (cases r) (simp_all add: y)
qed simp

lemma mend_repair:
  assumes "mend_setting X e" "mend_object X D v e x d L r es" "eng_fates e = []"
    and "he_Missing (healthFromLayout X e L) \<noteq> 0 \<or> he_Corrupted (healthFromLayout X e L) \<noteq> 0"
  shows "\<exists>e' res. RepairObject X e (om_bucket x) (om_key x) = (e', Some res, None) \<and> whole X e' L es \<and> eng_fates e' = [] \<and> same_conf e e' \<and>
    eng_cache e' = eng_cache e \<and>
    (\<forall>n d' h' j. plain_name d' \<longrightarrow> plain_name h' \<longrightarrow> h' \<noteq> om_hash x \<longrightarrow> held e' n d' h' j = held e n d' h' j)"
proof -
  let ?xs = "map (\<lambda>i. (i, shardPlacement e L i, es ! i)) (filter (\<lambda>i. shown X e L es i = None) [0..<length es])"
  let ?w = "write_shards e (ly_ShardDir L) (ly_Hash L) ?xs"
  have X: "hash_clean X" "quiet_io X e" and sch: "erasure_scheme (coder_k (eng_coder e)) (coder_m (eng_coder e)) (coder_scheme (eng_coder e))"
      "eng_k e = coder_k (eng_coder e)" and names: "\<And>y. plain_name (HashBytes X y)"
    using assms(1) digest_names_clean by (auto simp: mend_setting_def digest_names_def)
  have o: "d \<noteq> []" "Encode (eng_coder e) d = Inr es" "fmlookup (eng_cache e) (layoutKey (om_bucket x) (om_key x)) = Some L"
    "plain_name (ly_ShardDir L)" "ly_Hash L = om_hash x" "om_hash x = HashBytes X d"
    using assms(2) by (auto simp: mend_object_def layout_for_def)
  note st = mend_stored_as [OF assms(2)]
  obtain rs where r: "RepairObject X e (om_bucket x) (om_key x) = (case ?w of
      (e', Some err) \<Rightarrow> (e', Some \<lparr>rr_HealthBefore = healthFromLayout X e L, rr_HealthAfter = None, rr_Repaired = []\<rparr>, Some err)
    | (e', None) \<Rightarrow> (e', Some (rs e'), None))"
    by (rule RepairObject_writes [OF sch X o(1,2,3) st assms(4) mend_recoverable [OF assms(1,2)]]) blast
  have "\<exists>e'. ?w = (e', None)" using assms(3) X(2) st by (intro write_shards_total) (auto simp: quiet_io_def stored_as_def)
  then obtain e' where w: "?w = (e', None)" by blast
  have frame: "same_conf e e'" "eng_cache e' = eng_cache e" "eng_fates e' = []"
    using write_shards_frame [of e "ly_ShardDir L" "ly_Hash L" ?xs] write_shards_calm [OF assms(3), of "ly_ShardDir L" "ly_Hash L" ?xs] w by auto
  have "whole X e' L es"
    using repaired_reads [OF st X(2,1) w] frame(1) st by (intro wholeI) (auto simp: same_confD(9) stored_as_def)
  moreover have "held e' n d' h' j = held e n d' h' j" if "plain_name d'" "plain_name h'" "h' \<noteq> om_hash x" for n d' h' j
    using write_shards_other [OF o(4) _ that(1,2), of "ly_Hash L" e ?xs n j] names o(5,6) that(3) w by simp
  ultimately show ?thesis using r w frame by (auto simp del: upt_rec_numeral)
qed

section \<open>The store gets better\<close>

lemma object_durable_cache: "eng_cache e' = eng_cache e \<Longrightarrow> object_durable X D v e' A x = object_durable X D v e A x"
  by (simp add: object_durable_def)

lemma mendable_blobs:
  assumes "mendable X D e0 v A H e" "same_conf e0 e'" "eng_fates e' = []" "eng_cache e' = eng_cache e"
    and blobs: "\<And>h r. fmlookup (mv_refs v) h = Some r \<Longrightarrow> \<exists>d \<in> D. h = HashBytes X d \<and> blob_mendable X e' d r \<and> (h \<in> H' \<longrightarrow> blob_stored X e' d r)"
  shows "mendable X D e0 v A H' e'"
proof -
  have "\<forall>h r. fmlookup (mv_refs v) h = Some r \<longrightarrow> (\<exists>d \<in> D. h = HashBytes X d \<and> blob_mendable X e' d r \<and> (h \<in> H' \<longrightarrow> blob_stored X e' d r))"
    using blobs by simp
  with assms(1-3) show ?thesis unfolding mendable_def object_durable_cache [OF assms(4)] by (elim conjE) (intro conjI)
qed

lemma mend_object_unique:
  assumes "mend_object X D v e x d L r es" "inj_on (HashBytes X) D" "y \<in> D" "om_hash x = HashBytes X y" "fmlookup (mv_refs v) (om_hash x) = Some r'"
  shows "y = d \<and> r' = r"
proof -
  have d: "d \<in> D" "om_hash x = HashBytes X d" "fmlookup (mv_refs v) (om_hash x) = Some r" using assms(1) unfolding mend_object_def by blast+
  then have "y = d" using inj_onD [OF assms(2) _ assms(3)] assms(4) by simp
  then show ?thesis using d(3) assms(5) by simp
qed

lemma mendable_same:
  assumes "mendable X D e0 v A H e" "mend_object X D v e x d L r es" "blob_stored X e d r" "inj_on (HashBytes X) D"
  shows "mendable X D e0 v A (insert (om_hash x) H) e"
proof -
  have "\<exists>d \<in> D. h = HashBytes X d \<and> blob_mendable X e d r' \<and> (h \<in> insert (om_hash x) H \<longrightarrow> blob_stored X e d r')" if r': "fmlookup (mv_refs v) h = Some r'" for h r'
  proof -
    obtain y where y: "y \<in> D" "h = HashBytes X y" "blob_mendable X e y r'" "h \<in> H \<longrightarrow> blob_stored X e y r'"
      using mendableD(3) [OF assms(1) r'] by blast
    have "h = om_hash x \<Longrightarrow> y = d \<and> r' = r" using mend_object_unique [OF assms(2,4) y(1)] y(2) r' by simp
    then show ?thesis using y assms(3) by blast
  qed
  then show ?thesis by (rule mendable_blobs [OF assms(1) mendableD(1,2) [OF assms(1)] refl])
qed

lemma mendable_repaired:
  assumes m: "mendable X D e0 v A H e" and o: "mend_object X D v e x d L r es" and inj: "inj_on (HashBytes X) D" and set: "mend_setting X e"
    and e': "same_conf e e'" "eng_fates e' = []" "eng_cache e' = eng_cache e" "whole X e' L es"
    and other: "\<And>n d' h' j. plain_name d' \<Longrightarrow> plain_name h' \<Longrightarrow> h' \<noteq> om_hash x \<Longrightarrow> held e' n d' h' j = held e n d' h' j"
  shows "mendable X D e0 v A (insert (om_hash x) H) e'"
proof -
  have names: "plain_name (HashBytes X y)" for y using set by (simp add: mend_setting_def digest_names_def)
  have k: "coder_k (eng_coder e') \<le> TotalChunks (eng_coder e')" by (simp add: TotalChunks_def)
  have stored: "blob_stored X e' d r" using whole_stored [OF set o e'(1,4)] .
  have "\<exists>d \<in> D. h = HashBytes X d \<and> blob_mendable X e' d r' \<and> (h \<in> insert (om_hash x) H \<longrightarrow> blob_stored X e' d r')" if r': "fmlookup (mv_refs v) h = Some r'" for h r'
  proof -
    obtain y where y: "y \<in> D" "h = HashBytes X y" "blob_mendable X e y r'" "h \<in> H \<longrightarrow> blob_stored X e y r'"
      using mendableD(3) [OF m r'] by blast
    show ?thesis
    proof (cases "h = om_hash x")
      case True
      then have "y = d \<and> r' = r" using mend_object_unique [OF o inj y(1)] y(2) r' by simp
      then show ?thesis using y stored stored_mendable [OF stored k] by blast
    next
      case False
      have p: "plain_name (ref_path r')" using y(3) by (simp add: blob_mendable_def)
      have same: "held e' n (ref_path r') (HashBytes X y) i = held e n (ref_path r') (HashBytes X y) i" for n i
        using other [OF p names] False y(2) by simp
      show ?thesis using y False blob_mendable_cong [OF y(3) e'(1) same] blob_stored_cong [OF _ e'(1) same] by blast
    qed
  qed
  then show ?thesis by (rule mendable_blobs [OF m same_conf_trans [OF mendableD(1) [OF m] e'(1)] e'(2,3)])
qed

text \<open>The whole step: an object is found healthy and passes its scrub, or its repair succeeds; either way its blob is in place.\<close>

lemma mend_step:
  assumes "durable_setting X D e0" "quiet_io X e0" "mendable X D e0 v A H e" "fmlookup (mv_objects v) i = Some x"
  shows "\<exists>h. CheckHealth X e (om_bucket x) (om_key x) = (e, Inr h) \<and> he_Recoverable h \<and>
    (if he_Missing h = 0 \<and> he_Corrupted h = 0
     then mendable X D e0 v A (insert (om_hash x) H) e \<and> (\<exists>res. ScrubObject X e (om_bucket x) (om_key x) = (e, Some res, None) \<and> sc_Healthy res)
     else \<exists>e' res. RepairObject X e (om_bucket x) (om_key x) = (e', Some res, None) \<and> mendable X D e0 v A (insert (om_hash x) H) e')"
proof -
  note m = mendableD [OF assms(3)]
  have inj: "inj_on (HashBytes X) D" using assms(1) by (simp add: durable_setting_def)
  have set: "mend_setting X e" using mend_settingI [OF assms(1,2) m(1)] .
  then have X: "hash_clean X" "quiet_io X e" using digest_names_clean by (auto simp: mend_setting_def)
  obtain d L r es where o: "mend_object X D v e x d L r es" using mend_object_exists [OF inj assms(3,4)] by blast
  let ?h = "healthFromLayout X e L"
  show ?thesis
  proof (cases "he_Missing ?h = 0 \<and> he_Corrupted ?h = 0")
    case True
    then have w: "whole X e L es" using healthy_whole [OF mend_stored_as [OF o] X(2,1)] by blast
    show ?thesis
      using True mend_health [OF o] mend_recoverable [OF set o] whole_scrub [OF set o w] mendable_same [OF assms(3) o whole_stored [OF set o same_conf_refl w] inj] by auto
  next
    case False
    then obtain e' res where r: "RepairObject X e (om_bucket x) (om_key x) = (e', Some res, None)" "whole X e' L es" "eng_fates e' = []" "same_conf e e'"
      "eng_cache e' = eng_cache e" "\<And>n d' h' j. plain_name d' \<Longrightarrow> plain_name h' \<Longrightarrow> h' \<noteq> om_hash x \<Longrightarrow> held e' n d' h' j = held e n d' h' j"
      using mend_repair [OF set o m(2)] by blast
    have "mendable X D e0 v A (insert (om_hash x) H) e'" by (rule mendable_repaired [OF assms(3) o inj set r(4,3,5,2,6)])
    then show ?thesis using False mend_health [OF o] mend_recoverable [OF set o] r(1) by auto
  qed
qed

end
