(* ===== verification/Repair_Run.thy ===== *)
theory Repair_Run
  imports Repair_Healing Metadata_Listing
begin

text \<open>
  A repair run over a store that has lost shards. Without a batch limit and with a context that does not end, the run visits every
  object, every repair succeeds, and at the end the store is what it was before the damage.
\<close>

section \<open>The store during a run\<close>

definition mending :: "('m \<Rightarrow> meta_view) \<Rightarrow> ('m \<Rightarrow> bool) \<Rightarrow> ('m \<Rightarrow> bool) \<Rightarrow> Externals \<Rightarrow> bytes set \<Rightarrow> Engine \<Rightarrow> meta_view \<Rightarrow> object_map \<Rightarrow>
    string set \<Rightarrow> 'm Store \<Rightarrow> bool" where
  "mending view ok quiet X D e0 v A H s \<longleftrightarrow> at_view view ok quiet v (st_engine s) s \<and> mendable X D e0 v A H (st_engine s)"

lemma mending_position:
  "mending view ok quiet X D e0 v A H s \<Longrightarrow> at_view view ok quiet v (st_engine s) s' \<Longrightarrow> mending view ok quiet X D e0 v A H s'"
  by (simp add: mending_def at_view_def)

text \<open>The objects of a bucket, in the order they are listed.\<close>

definition bucket_objects :: "meta_view \<Rightarrow> string \<Rightarrow> ObjectMeta list" where
  "bucket_objects v b = sort_key om_key (filter (\<lambda>m. om_bucket m = b) (fm_values (mv_objects v)))"

context metadata_listing
begin

abbreviation mends :: "Externals \<Rightarrow> bytes set \<Rightarrow> Engine \<Rightarrow> meta_view \<Rightarrow> object_map \<Rightarrow> string set \<Rightarrow> 'm Store \<Rightarrow> bool" where
  "mends \<equiv> mending view ok quiet"

lemma mends_engine:
  "mends X D e0 v A H s \<Longrightarrow> mendable X D e0 v A H' e' \<Longrightarrow> mends X D e0 v A H' (s\<lparr>st_engine := e'\<rparr>)"
  by (simp add: mending_def at_view_def)

lemma mends_names:
  assumes "mends X D e0 v A H s" "fmlookup (mv_objects v) i = Some x"
  shows "clean_bucket (om_bucket x)" "clean_name (om_key x)" "om_bucket x |\<in>| mv_buckets v" "fmlookup (mv_objects v) (object_key (om_bucket x) (om_key x)) = Some x"
proof -
  have v: "same_core (view (st_meta s)) v" "ok (st_meta s)" "mendable X D e0 v A H (st_engine s)" using assms(1) by (simp_all add: mending_def at_view_def)
  have o: "fmpred (\<lambda>i x. i = meta_key x \<and> om_bucket x |\<in>| mv_buckets v \<and> clean_bucket (om_bucket x)) (mv_objects v)"
    using objects_ok [OF v(2)] v(1) by (simp add: same_core_def)
  then have n: "i = meta_key x" "om_bucket x |\<in>| mv_buckets v" "clean_bucket (om_bucket x)" using fmpredD [OF o assms(2)] by blast+
  then show "om_bucket x |\<in>| mv_buckets v" "clean_bucket (om_bucket x)" "fmlookup (mv_objects v) (object_key (om_bucket x) (om_key x)) = Some x"
    using assms(2) by (simp_all add: meta_key_def)
  show "clean_name (om_key x)" using mendableD(4) [OF v(3) assms(2)] by (simp add: object_durable_def clean_meta_def)
qed

section \<open>The calls of a run\<close>

lemma mends_health:
  assumes "durable_setting X D e0" "quiet_io X e0" "mends X D e0 v A H s" "fmlookup (mv_objects v) i = Some x"
  shows "wp (Store_CheckHealth X (om_bucket x) (om_key x)) (\<lambda>h s'. mends X D e0 v A H s' \<and> he_Recoverable h \<and>
      CheckHealth X (st_engine s') (om_bucket x) (om_key x) = (st_engine s', Inr h)) (\<lambda>_ _. False) s"
proof -
  have m: "mendable X D e0 v A H (st_engine s)" using assms(3) by (simp add: mending_def)
  obtain h where h: "CheckHealth X (st_engine s) (om_bucket x) (om_key x) = (st_engine s, Inr h)" "he_Recoverable h"
    using mend_step [OF assms(1,2) m assms(4)] by blast
  then show ?thesis using mends_engine [OF assms(3) m] by (simp add: Store_CheckHealth_def wp_simps wp_on_engine)
qed

lemma mends_stat:
  assumes "mends X D e0 v A H s" "fmlookup (mv_objects v) i = Some x"
  shows "wp (Store_StatObject M (om_bucket x) (om_key x)) (\<lambda>_ s'. mends X D e0 v A H s' \<and> st_engine s' = st_engine s) (\<lambda>_ _. False) s"
  unfolding Store_StatObject_def wp_simps
  by (rule get_object_wp [of v "st_engine s"])
     (use assms mends_names [OF assms] in \<open>auto simp: wp_simps mending_def at_view_def\<close>)

lemma mends_scrub:
  assumes "durable_setting X D e0" "quiet_io X e0" "mends X D e0 v A H s" "fmlookup (mv_objects v) i = Some x"
    and h: "CheckHealth X (st_engine s) (om_bucket x) (om_key x) = (st_engine s, Inr h)" "he_Missing h = 0" "he_Corrupted h = 0"
  shows "wp (Store_ScrubObject X M (om_bucket x) (om_key x)) (\<lambda>r s'. mends X D e0 v A (insert (om_hash x) H) s' \<and> (\<exists>res. r = Some res \<and> sc_Healthy res))
    (\<lambda>_ _. False) s"
proof -
  have m: "mendable X D e0 v A H (st_engine s)" using assms(3) by (simp add: mending_def)
  obtain res where r: "mendable X D e0 v A (insert (om_hash x) H) (st_engine s)"
    "ScrubObject X (st_engine s) (om_bucket x) (om_key x) = (st_engine s, Some res, None)" "sc_Healthy res"
    using mend_step [OF assms(1,2) m assms(4)] h by auto
  show ?thesis
    unfolding Store_ScrubObject_def wp_simps
    by (rule wp_mono [OF mends_stat [OF assms(3,4)]]) (auto simp: wp_simps wp_on_engine drop_result_def r intro: mends_engine)
qed

lemma mends_repair:
  assumes "durable_setting X D e0" "quiet_io X e0" "mends X D e0 v A H s" "fmlookup (mv_objects v) i = Some x"
    and h: "CheckHealth X (st_engine s) (om_bucket x) (om_key x) = (st_engine s, Inr h)" "\<not> (he_Missing h = 0 \<and> he_Corrupted h = 0)"
  shows "wp (Store_RepairObject X M (om_bucket x) (om_key x)) (\<lambda>r s'. mends X D e0 v A (insert (om_hash x) H) s') (\<lambda>_ _. False) s"
proof -
  have m: "mendable X D e0 v A H (st_engine s)" using assms(3) by (simp add: mending_def)
  obtain e' res where r: "mendable X D e0 v A (insert (om_hash x) H) e'"
    "RepairObject X (st_engine s) (om_bucket x) (om_key x) = (e', Some res, None)"
    using mend_step [OF assms(1,2) m assms(4)] h by auto
  show ?thesis
    unfolding Store_RepairObject_def wp_simps
    by (rule wp_mono [OF mends_stat [OF assms(3,4)]]) (auto simp: wp_simps wp_on_engine drop_result_def r intro: mends_engine)
qed

lemma mends_buckets:
  assumes "mends X D e0 v A H s"
  shows "wp (Store_ListBuckets M) (\<lambda>bs s'. map bkt_name bs = sorted_list_of_fset (mv_buckets v) \<and> mends X D e0 v A H s') (\<lambda>_ _. False) s"
proof -
  have t: "ok (st_meta s)" "quiet (st_meta s)" "same_core (view (st_meta s)) v" using assms by (simp_all add: mending_def at_view_def)
  obtain m r where f: "ListBuckets M (st_meta s) (st_clock s (st_tick s)) = (m, r)" by fastforce
  have "refines view ok quiet (st_meta s) (bucket_names (m, r)) (spec_ListBuckets (view (st_meta s)))"
    using ListBuckets [OF t(1)] by (simp add: f flip: f)
  then have n: "ok m" "quiet m" "view m = view (st_meta s)" "map_sum id (map bkt_name) r = Inr (sorted_list_of_fset (mv_buckets v))"
    using t(2,3) by (auto simp: refines_def spec_ListBuckets_def bucket_names_def same_core_def)
  then obtain bs where bs: "r = Inr bs" "map bkt_name bs = sorted_list_of_fset (mv_buckets v)" by (cases r) auto
  have "mends X D e0 v A H (s\<lparr>st_tick := Suc (st_tick s), st_meta := m\<rparr>)" using assms n by (simp add: mending_def at_view_def)
  then show ?thesis using bs by (simp add: Store_ListBuckets_def wp_simps wp_on_meta f)
qed

lemma mends_list:
  assumes "mends X D e0 v A H s" "b |\<in>| mv_buckets v"
  shows "wp (Store_ListObjects M b []) (\<lambda>xs s'. xs = bucket_objects v b \<and> mends X D e0 v A H s') (\<lambda>_ _. False) s"
proof -
  have p: "position v (st_engine s) s" using assms(1) by (simp add: mending_def)
  have "clean_bucket b" using buckets_clean [of "st_meta s"] p assms(2) by (auto simp: at_view_def same_core_def)
  then have b: "clean_bucket b" "trim_space b = b" by (simp_all add: clean_bucket_def clean_name_def)
  have l: "wp (on_meta (\<lambda>m. ListObjectMetas M m b [])) (\<lambda>xs s'. xs = bucket_objects v b \<and> mends X D e0 v A H s') (\<lambda>_ _. False) s'"
    if "position v (st_engine s) s'" for s'
    by (rule call_wp [OF that, where a = "\<lambda>v. spec_ListObjectMetas v b []"])
       (erule ListObjectMetas [OF _ b(1)], use assms mending_position [OF assms(1)] in
         \<open>auto simp: spec_ListObjectMetas_def same_core_def bucket_objects_def at_view_def\<close>)
  show ?thesis
    unfolding Store_ListObjects_def Let_def b(2) wp_simps
    by (rule call_wp [OF p, where a = "\<lambda>v. spec_BucketExists v b"])
       (erule BucketExists [OF _ b(1)], use assms(2) l in \<open>auto simp: spec_BucketExists_def wp_simps same_core_def at_view_def\<close>)
qed

end

section \<open>The run\<close>

abbreviation run_store :: "'m RepairRuntime \<Rightarrow> 'm Store" where
  "run_store rt \<equiv> os_store (rt_objects rt)"

lemma on_objects_wp:
  assumes "wp f Q E (run_store rt)" "on_objects (on_store f) rt = (rt', r)"
  shows "(case r of Inl err \<Rightarrow> \<exists>e. E e (run_store rt') | Inr x \<Rightarrow> Q x (run_store rt')) \<and> rt_cfg rt' = rt_cfg rt"
  using assms by (auto simp: on_objects_def on_store_def wp_def split: prod.splits sum.splits)

text \<open>No failure is added to the summary.\<close>

definition untroubled :: "Summary \<Rightarrow> Summary \<Rightarrow> bool" where
  "untroubled s s' \<longleftrightarrow> su_Failed s' = su_Failed s \<and> su_Unrecoverable s' = su_Unrecoverable s \<and> su_ScrubFailed s' = su_ScrubFailed s \<and>
     su_RepairRetries s' = su_RepairRetries s \<and> su_Issues s' = su_Issues s \<and> su_Limited s' = su_Limited s"

lemma untroubled_refl [simp]: "untroubled s s"
  by (simp add: untroubled_def)

lemma untroubled_trans: "untroubled s s1 \<Longrightarrow> untroubled s1 s2 \<Longrightarrow> untroubled s s2"
  by (simp add: untroubled_def)

text \<open>A context that never ends.\<close>

abbreviation background :: run_context where
  "background \<equiv> None"

lemma background_Err [simp]: "context_Err background t = None"
  by (simp add: context_Err_def)

lemma setProgress_store [simp]: "run_store (setProgress p rt) = run_store rt" "rt_cfg (setProgress p rt) = rt_cfg rt"
  by (simp_all add: setProgress_def)

lemma background_wait:
  assumes "limiter_Wait background limiter rt = (rt', limiter', r)"
  shows "run_store rt' = run_store rt \<and> rt_cfg rt' = rt_cfg rt \<and> (\<exists>tw. r = Inr tw)"
  using assms by (auto simp: limiter_Wait_def read_clock_def sleep_or_done_def Let_def split: if_splits)

text \<open>An attempt that succeeds is the last one.\<close>

lemma first_attempt:
  assumes "wp (Store_RepairObject X M (om_bucket x) (om_key x)) (\<lambda>_. Q) (\<lambda>_ _. False) (run_store rt)" "ren_X E = X"
    and "repairObjectWithRetry E M ctx x s rt = (rt', s', r)"
  shows "Q (run_store rt') \<and> rt_cfg rt' = rt_cfg rt \<and> s' = s \<and> (\<exists>n. r = Inr n)"
proof -
  obtain rt1 y where o: "on_objects (on_store (Store_RepairObject X M (om_bucket x) (om_key x))) rt = (rt1, y)" by fastforce
  have y: "\<exists>res. y = Inr res" "Q (run_store rt1)" "rt_cfg rt1 = rt_cfg rt"
    using on_objects_wp [OF assms(1) o] by (auto split: sum.splits)
  show ?thesis
    using assms(2,3) y o unfolding repairObjectWithRetry_def Let_def
    by (subst (asm) repair_attempts.simps) (auto simp: Service_RepairObject_def)
qed

context metadata_listing
begin

lemma run_object:
  assumes "durable_setting X D e0" "quiet_io X e0" "ren_X E = X" "mends X D e0 v A H (run_store rt)" "fmlookup (mv_objects v) i = Some x"
    and run: "repairObject E M background x s limiter rt = (rt', s', limiter', r)"
  shows "r = None \<and> mends X D e0 v A (insert (om_hash x) H) (run_store rt') \<and> rt_cfg rt' = rt_cfg rt \<and> untroubled s s' \<and> su_Objects s' = Suc (su_Objects s)"
proof -
  obtain rt1 y where o: "on_objects (on_store (Store_CheckHealth X (om_bucket x) (om_key x))) rt = (rt1, y)" by fastforce
  from on_objects_wp [OF mends_health [OF assms(1,2,4,5)] o] obtain h where h: "y = Inr h" "he_Recoverable h" "rt_cfg rt1 = rt_cfg rt"
    "mends X D e0 v A H (run_store rt1)" "CheckHealth X (st_engine (run_store rt1)) (om_bucket x) (om_key x) = (st_engine (run_store rt1), Inr h)"
    by (auto split: sum.splits)
  note run = run [unfolded repairObject_def background_Err option.case Let_def assms(3) Service_CheckHealth_def o prod.case h(1) sum.case]
  show ?thesis
  proof (cases "he_Missing h = 0 \<and> he_Corrupted h = 0")
    case True
    obtain rt2 z where sc: "on_objects (on_store (Store_ScrubObject X M (om_bucket x) (om_key x))) rt1 = (rt2, z)" by fastforce
    from on_objects_wp [OF mends_scrub [OF assms(1,2) h(4) assms(5) h(5)] sc] True obtain res where
      "z = Inr (Some res)" "sc_Healthy res" "mends X D e0 v A (insert (om_hash x) H) (run_store rt2)" "rt_cfg rt2 = rt_cfg rt1"
      by (auto split: sum.splits)
    then show ?thesis using run True h(3) by (auto simp: scrubHealthyObject_def assms(3) Service_ScrubObject_def sc untroubled_def)
  next
    case False
    obtain rt2 l2 w where li: "limiter_Wait background limiter rt1 = (rt2, l2, w)" by (metis prod_cases3)
    note b = background_wait [OF li]
    then obtain throttled waited where w: "w = Inr (throttled, waited)" by fastforce
    have m2: "mends X D e0 v A H (run_store rt2)" "CheckHealth X (st_engine (run_store rt2)) (om_bucket x) (om_key x) = (st_engine (run_store rt2), Inr h)"
      using b h(4,5) by simp_all
    note rep = first_attempt [OF mends_repair [OF assms(1,2) m2(1) assms(5) m2(2) False] assms(3)]
    define s2 where "s2 = (let s1 = s\<lparr>su_Objects := su_Objects s + 1\<rparr>;
        s1 = s1\<lparr>su_Missing := su_Missing s1 + he_Missing h, su_Corrupted := su_Corrupted s1 + he_Corrupted h, su_Unhealthy := su_Unhealthy s1 + 1\<rparr>;
        s1 = (if throttled then s1\<lparr>su_Throttled := su_Throttled s1 + 1, su_ThrottleWaitMs := su_ThrottleWaitMs s1 + milliseconds waited\<rparr> else s1)
      in s1\<lparr>su_RepairAttempts := su_RepairAttempts s1 + 1\<rparr>)"
    obtain rt3 s3 q where a: "repairObjectWithRetry E M background x s2 rt2 = (rt3, s3, q)" by (metis prod_cases3)
    from rep [OF a] obtain n where n: "q = Inr n" "s3 = s2" "mends X D e0 v A (insert (om_hash x) H) (run_store rt3)" "rt_cfg rt3 = rt_cfg rt2" by blast
    have "(rt3, if 0 < n then s2\<lparr>su_RepairedObjects := su_RepairedObjects s2 + 1, su_RepairedShards := su_RepairedShards s2 + n\<rparr> else s2, l2, None) =
        (rt', s', limiter', r)"
      using run a False h(2) by (cases throttled; cases "0 < n") (simp_all add: li w s2_def n(1,2) Let_def)
    moreover have "untroubled s s2" "su_Objects s2 = Suc (su_Objects s)" by (cases throttled; simp add: untroubled_def s2_def)+
    ultimately show ?thesis using n(3,4) b h(3) by (cases "0 < n") (auto simp: untroubled_def)
  qed
qed

lemma run_objects:
  assumes "durable_setting X D e0" "quiet_io X e0" "ren_X E = X"
  shows "mends X D e0 v A H (run_store rt) \<Longrightarrow> (\<And>x. x \<in> set metas \<Longrightarrow> \<exists>i. fmlookup (mv_objects v) i = Some x) \<Longrightarrow> rg_MaxBatch (rt_cfg rt) \<le> 0 \<Longrightarrow>
    scan_objects E M background at i metas s limiter rt = (rt', s', limiter', r) \<Longrightarrow>
    r = None \<and> mends X D e0 v A (H \<union> om_hash ` set metas) (run_store rt') \<and> rt_cfg rt' = rt_cfg rt \<and> untroubled s s' \<and>
    su_Objects s' = su_Objects s + length metas"
proof (induction metas arbitrary: H i s limiter rt)
  case (Cons x metas)
  let ?rt = "setProgress (at (Suc i) (om_key x) (su_Objects s)) rt"
  obtain rt1 s1 l1 y where o: "repairObject E M background x s limiter ?rt = (rt1, s1, l1, y)" by (metis prod_cases4)
  obtain j where j: "fmlookup (mv_objects v) j = Some x" using Cons.prems(2) by force
  note b = run_object [OF assms _ j o, of A H] Cons.prems(1)
  then have b: "y = None" "mends X D e0 v A (insert (om_hash x) H) (run_store rt1)" "rt_cfg rt1 = rt_cfg rt" "untroubled s s1" "su_Objects s1 = Suc (su_Objects s)"
    by simp_all
  let ?rt1 = "setProgress (at (Suc i) (om_key x) (su_Objects s1)) rt1"
  have next_run: "scan_objects E M background at (Suc i) metas s1 l1 ?rt1 = (rt', s', limiter', r)"
    using Cons.prems(3,4) o b(1) by (simp add: shouldStopRepair_def)
  have "r = None \<and> mends X D e0 v A (insert (om_hash x) H \<union> om_hash ` set metas) (run_store rt') \<and> rt_cfg rt' = rt_cfg ?rt1 \<and> untroubled s1 s' \<and>
      su_Objects s' = su_Objects s1 + length metas"
    by (rule Cons.IH [OF _ _ _ next_run]) (use b Cons.prems(2,3) in auto)
  then show ?case using b(3,4,5) untroubled_trans by auto
qed simp

lemma run_bucket:
  assumes "durable_setting X D e0" "quiet_io X e0" "ren_X E = X" "mends X D e0 v A H (run_store rt)" "rg_MaxBatch (rt_cfg rt) \<le> 0"
    and b: "b |\<in>| mv_buckets v" and run: "scanBucket E M background b i nb runID [] s limiter rt = (rt', s', limiter', r)"
  shows "r = None \<and> mends X D e0 v A (H \<union> om_hash ` set (bucket_objects v b)) (run_store rt') \<and> rt_cfg rt' = rt_cfg rt \<and> untroubled s s' \<and>
    su_Objects s' = su_Objects s + length (bucket_objects v b)"
proof -
  obtain rt1 y where o: "on_objects (on_store (Store_ListObjects M b [])) rt = (rt1, y)" by fastforce
  from on_objects_wp [OF mends_list [OF assms(4) b] o] have y: "y = Inr (bucket_objects v b)" "mends X D e0 v A H (run_store rt1)" "rt_cfg rt1 = rt_cfg rt"
    by (auto split: sum.splits)
  let ?at = "\<lambda>i' key n. progress_at runID b i nb i' key n (length (bucket_objects v b))"
  have go: "scan_objects E M background ?at 0 (bucket_objects v b) s limiter (setProgress (?at 0 [] (su_Objects s)) rt1) = (rt', s', limiter', r)"
    using run o y(1) by (simp add: scanBucket_def Service_ListObjects_def)
  have "\<exists>i. fmlookup (mv_objects v) i = Some x" if "x \<in> set (bucket_objects v b)" for x
    using that by (auto simp: bucket_objects_def fm_values_iff)
  from run_objects [OF assms(1-3) _ this _ go, of A H] y assms(5) show ?thesis by simp
qed

lemma run_buckets:
  assumes "durable_setting X D e0" "quiet_io X e0" "ren_X E = X"
  shows "mends X D e0 v A H (run_store rt) \<Longrightarrow> set (map bkt_name bs) \<subseteq> fset (mv_buckets v) \<Longrightarrow> rg_MaxBatch (rt_cfg rt) \<le> 0 \<Longrightarrow> \<not> su_Limited s \<Longrightarrow>
    scan_buckets E M background i nb runID [] bs s limiter rt = (rt', s', r) \<Longrightarrow>
    r = None \<and> mends X D e0 v A (H \<union> \<Union> ((\<lambda>b. om_hash ` set (bucket_objects v (bkt_name b))) ` set bs)) (run_store rt') \<and> rt_cfg rt' = rt_cfg rt \<and>
    untroubled s s' \<and> su_Objects s' = su_Objects s + sum_list (map (\<lambda>b. length (bucket_objects v (bkt_name b))) bs)"
proof (induction bs arbitrary: H i s limiter rt)
  case (Cons b bs)
  obtain rt1 s1 l1 y where o: "scanBucket E M background (bkt_name b) (Suc i) nb runID [] s limiter rt = (rt1, s1, l1, y)" by (metis prod_cases4)
  have "bkt_name b |\<in>| mv_buckets v" using Cons.prems(2) by simp
  note b = run_bucket [OF assms Cons.prems(1,3) this o]
  have next_run: "scan_buckets E M background (Suc i) nb runID [] bs s1 l1 rt1 = (rt', s', r)" and l: "\<not> su_Limited s1"
    using Cons.prems(4,5) o b by (auto simp: untroubled_def)
  have "r = None \<and> mends X D e0 v A (H \<union> om_hash ` set (bucket_objects v (bkt_name b)) \<union> \<Union> ((\<lambda>b. om_hash ` set (bucket_objects v (bkt_name b))) ` set bs)) (run_store rt') \<and>
      rt_cfg rt' = rt_cfg rt1 \<and> untroubled s1 s' \<and> su_Objects s' = su_Objects s1 + sum_list (map (\<lambda>b. length (bucket_objects v (bkt_name b))) bs)"
    by (rule Cons.IH [OF _ _ _ l next_run]) (use b Cons.prems(2,3) in auto)
  then show ?case using b untroubled_trans by (auto simp: Un_assoc)
qed simp

end

section \<open>Every object is visited\<close>

lemma sum_filter_buckets:
  assumes "distinct bs" "\<And>x. x \<in> set xs \<Longrightarrow> f x \<in> set bs"
  shows "sum_list (map (\<lambda>b. length (filter (\<lambda>x. f x = b) xs)) bs) = length xs"
  using assms(2)
proof (induction xs)
  case Nil
  then show ?case by (induction bs) simp_all
next
  case (Cons x xs)
  have one: "sum_list (map (\<lambda>b. if f x = b then Suc (g b) else g b) bs') = sum_list (map g bs') + (if f x \<in> set bs' then 1 else 0)"
    if "distinct bs'" for g and bs' using that by (induction bs') auto
  have "(\<lambda>b. length (filter (\<lambda>y. f y = b) (x # xs))) = (\<lambda>b. if f x = b then Suc (length (filter (\<lambda>y. f y = b) xs)) else length (filter (\<lambda>y. f y = b) xs))"
    by auto
  then show ?case using Cons one [OF assms(1)] by simp
qed

text \<open>The objects of the metadata are those of the catalogue.\<close>

lemma mendable_count:
  assumes "mendable X D e0 v A H e"
  shows "length (fm_values (mv_objects v)) = card (dom A)"
proof -
  note m = mendableD [OF assms]
  let ?at = "\<lambda>x. (om_bucket x, om_key x)"
  have d: "distinct (fm_values (mv_objects v))" by (rule distinct_fm_values [of _ meta_key]) (use m(4) in \<open>auto simp: fmpred_iff\<close>)
  have "inj_on ?at (set (fm_values (mv_objects v)))"
    using m(4) by (auto simp: inj_on_def fm_values_iff meta_key_def) (metis option.inject)
  moreover have "?at ` set (fm_values (mv_objects v)) = dom A"
  proof (intro equalityI subsetI)
    fix bk assume "bk \<in> ?at ` set (fm_values (mv_objects v))"
    then obtain x i where "bk = ?at x" "fmlookup (mv_objects v) i = Some x" by (auto simp: fm_values_iff)
    then show "bk \<in> dom A" using m(4) [of i x] by (auto simp: object_durable_def)
  next
    fix bk assume "bk \<in> dom A"
    then show "bk \<in> ?at ` set (fm_values (mv_objects v))" using m(5) by (cases bk) (fastforce simp: fm_values_iff image_iff)
  qed
  ultimately show ?thesis using d by (metis card_image distinct_card)
qed

text \<open>Every reference is used by an object, so that all blobs are visited when all objects are.\<close>

lemma refs_used:
  assumes "refs_ok v" "fmlookup (mv_refs v) h = Some r"
  shows "h \<in> om_hash ` set (fm_values (mv_objects v))"
proof -
  have "0 < uses v h" using balanced_ref [OF assms(1) [unfolded refs_ok_def] assms(2)] by simp
  then have "filter (\<lambda>x. om_hash x = h) (fm_values (mv_objects v)) \<noteq> []" by (auto simp: uses_def)
  then show ?thesis by (auto simp: filter_empty_conv)
qed

section \<open>Damage\<close>

text \<open>Each blob has lost at most \<open>m\<close> of its shards, checksums notice what is left in their place, and writes work from now on.\<close>

definition shards_lost :: "Externals \<Rightarrow> meta_view \<Rightarrow> Engine \<Rightarrow> Engine \<Rightarrow> bool" where
  "shards_lost X v e e' \<longleftrightarrow> same_conf e e' \<and> eng_cache e' = eng_cache e \<and> eng_fates e' = [] \<and>
     (\<forall>h r. fmlookup (mv_refs v) h = Some r \<longrightarrow> (\<exists>lost. card lost \<le> coder_m (eng_coder e) \<and> finite lost \<and>
        (\<forall>i < TotalChunks (eng_coder e). \<forall>n. storageNode e (ref_placements r ! i) = Inr n \<longrightarrow>
           (i \<notin> lost \<longrightarrow> held e' n (ref_path r) h i = held e n (ref_path r) h i) \<and>
           (\<forall>x y. held e n (ref_path r) h i = Some y \<longrightarrow> seen e' n (ref_path r) h i = Some x \<longrightarrow> HashBytes X x = HashBytes X y \<longrightarrow> x = y))))"

lemma lost_blob_mendable:
  assumes "blob_stored X e d r" "shards_lost X v e e'" "fmlookup (mv_refs v) (HashBytes X d) = Some r"
  shows "blob_mendable X e' d r"
proof -
  have conf: "same_conf e e'" using assms(2) by (simp add: shards_lost_def)
  let ?t = "TotalChunks (eng_coder e)" and ?h = "HashBytes X d"
  obtain lost where lost: "card lost \<le> coder_m (eng_coder e)" "finite lost"
    "\<And>i n. i < ?t \<Longrightarrow> storageNode e (ref_placements r ! i) = Inr n \<Longrightarrow> (i \<notin> lost \<longrightarrow> held e' n (ref_path r) ?h i = held e n (ref_path r) ?h i) \<and>
       (\<forall>x y. held e n (ref_path r) ?h i = Some y \<longrightarrow> seen e' n (ref_path r) ?h i = Some x \<longrightarrow> HashBytes X x = HashBytes X y \<longrightarrow> x = y)"
    using assms(2,3) unfolding shards_lost_def by metis
  obtain es where es: "Encode (eng_coder e) d = Inr es" "length es = ?t" "ref_checksums r = shardChecksums X es"
    "\<And>i. i < length es \<Longrightarrow> trim_space (pl_node (ref_placements r ! i)) \<noteq> [] \<and>
       (\<exists>n. storageNode e (ref_placements r ! i) = Inr n \<and> held e n (ref_path r) ?h i = Some (es ! i))"
    using assms(1) unfolding blob_stored_def by blast
  note c = same_confD(9) [OF conf] same_conf_storageNode [OF conf]
  let ?ok = "{i. i < length es \<and> (\<exists>n. storageNode e' (ref_placements r ! i) = Inr n \<and> held e' n (ref_path r) ?h i = Some (es ! i))}"
  have "{..<?t} - lost \<subseteq> ?ok" using es(2,4) lost(3) c by fastforce
  then have "card ({..<?t} - lost) \<le> card ?ok" by (rule card_mono [rotated]) simp
  moreover have "?t - card lost \<le> card ({..<?t} - lost)" using diff_card_le_card_Diff [OF lost(2), of "{..<?t}"] by simp
  ultimately have k: "coder_k (eng_coder e') \<le> card ?ok" using lost(1) c(1) by (simp add: TotalChunks_def)
  have "trim_space (pl_node (ref_placements r ! i)) \<noteq> [] \<and> (\<exists>n. storageNode e' (ref_placements r ! i) = Inr n \<and>
      (\<forall>x. seen e' n (ref_path r) ?h i = Some x \<longrightarrow> HashBytes X x = HashBytes X (es ! i) \<longrightarrow> x = es ! i))" if "i < length es" for i
    using es(4) [OF that] lost(3) [of i] that es(2) c by fastforce
  with k have "mendable_shards X e' ?h r es" by (simp add: mendable_shards_def)
  then show ?thesis using assms(1) es c(1) unfolding blob_mendable_def blob_stored_def by metis
qed

lemma lost_mendable:
  assumes "durable X D e0 v e A" "shards_lost X v e e'"
  shows "mendable X D e0 v A {} e'"
proof -
  note d = durableD [OF assms(1)]
  have e': "same_conf e e'" "eng_cache e' = eng_cache e" "eng_fates e' = []" using assms(2) by (simp_all add: shards_lost_def)
  have blobs: "\<forall>h r. fmlookup (mv_refs v) h = Some r \<longrightarrow> (\<exists>d \<in> D. h = HashBytes X d \<and> blob_mendable X e' d r \<and> (h \<in> {} \<longrightarrow> blob_stored X e' d r))"
    using d(2) lost_blob_mendable [OF _ assms(2)] by blast
  have "same_conf e0 e'" using same_conf_trans [OF d(1) e'(1)] .
  with blobs e'(3) assms(1) show ?thesis
    unfolding mendable_def durable_def object_durable_cache [OF e'(2)] by (elim conjE) (intro conjI)
qed

section \<open>The whole run\<close>

lemma tryMarkStarted_store: "tryMarkStarted i rt = (rt', r) \<Longrightarrow> run_store rt' = run_store rt \<and> rt_cfg rt' = rt_cfg rt"
  by (auto simp: tryMarkStarted_def read_clock_def Let_def split: if_splits)

lemma recordRun_store: "rt_objects (recordRun E t i b p s err tr kind rt) = rt_objects rt"
  by (simp add: recordRun_def read_clock_def newRunID_def Let_def)

lemma markFinished_store: "run_store (markFinished E t i b p s err rt) = run_store rt"
  by (cases "t = 0") (simp_all add: markFinished_def read_clock_def Let_def recordRun_store)

context metadata_listing
begin

lemma run_mends:
  assumes "durable_setting X D e0" "quiet_io X e0" "ren_X E = X" "mends X D e0 v A {} (run_store rt)" "rg_MaxBatch (rt_cfg rt) \<le> 0"
    and run: "runOnce E M background runID [] [] rt = (rt', s, err)"
  shows "err = None \<and> mends X D e0 v A (om_hash ` set (fm_values (mv_objects v))) (run_store rt') \<and> su_Failed s = 0 \<and> su_Unrecoverable s = 0 \<and>
    su_ScrubFailed s = 0 \<and> su_Issues s = [] \<and> su_Objects s = card (dom A)"
proof -
  obtain rt1 y where o: "on_objects (on_store (Store_ListBuckets M)) rt = (rt1, y)" by fastforce
  from on_objects_wp [OF mends_buckets [OF assms(4)] o] obtain bs where bs: "y = Inr bs" "map bkt_name bs = sorted_list_of_fset (mv_buckets v)"
    "mends X D e0 v A {} (run_store rt1)" "rt_cfg rt1 = rt_cfg rt" by (auto split: sum.splits)
  let ?bs = "sort_key bkt_name bs" and ?s = "zero_Summary\<lparr>su_RunID := runID, su_Buckets := length bs\<rparr>"
  have names: "distinct (map bkt_name bs)" "set (map bkt_name bs) = fset (mv_buckets v)" unfolding bs(2) by (simp_all add: sorted_list_of_fset.rep_eq)
  have "sorted (map bkt_name bs)" unfolding bs(2) by (simp add: sorted_list_of_fset.rep_eq)
  then have sorted: "?bs = bs" by (rule sort_key_id_if_sorted)
  have go: "scan_buckets E M background 0 (length bs) runID [] bs ?s (newRepairLimiter (rg_RateLimit (rt_cfg rt1))) rt1 = (rt', s, err)"
    using run o bs(1) sorted by (simp add: runOnce_def resolveBuckets_def Service_ListBuckets_def scanBuckets_def Let_def)
  have "set (map bkt_name bs) \<subseteq> fset (mv_buckets v)" "rg_MaxBatch (rt_cfg rt1) \<le> 0" "\<not> su_Limited ?s" using names(2) bs(4) assms(5) by (simp_all add: zero_Summary_def)
  note r = run_buckets [OF assms(1-3) bs(3) this go]
  let ?hs = "\<Union> ((\<lambda>b. om_hash ` set (bucket_objects v (bkt_name b))) ` set bs)"
  have all: "om_bucket x \<in> bkt_name ` set bs" if "x \<in> set (fm_values (mv_objects v))" for x
    using that names(2) mends_names(3) [OF assms(4)] by (auto simp: fm_values_iff)
  have "?hs = om_hash ` set (fm_values (mv_objects v))" using all by (fastforce simp: bucket_objects_def)
  moreover have "sum_list (map (\<lambda>b. length (bucket_objects v (bkt_name b))) bs) = length (fm_values (mv_objects v))"
    using sum_filter_buckets [OF names(1), of "fm_values (mv_objects v)" om_bucket] all by (simp add: bucket_objects_def comp_def)
  moreover have "length (fm_values (mv_objects v)) = card (dom A)" using mendable_count assms(4) by (auto simp: mending_def)
  ultimately show ?thesis using r by (auto simp: untroubled_def zero_Summary_def)
qed

lemma run_heals:
  assumes "durable_setting X D e0" "quiet_io X e0" "ren_X E = X" "tracks view ok quiet X D e0 C s" "shards_lost X (view (st_meta s)) (st_engine s) e'"
    and rt: "run_store rt = s\<lparr>st_engine := e'\<rparr>" "rg_MaxBatch (rt_cfg rt) \<le> 0" "\<not> sta_Running (rt_status rt)"
    and run: "RunOnce E M background rt = (rt', summary, err)"
  shows "err = None \<and> su_Failed summary = 0 \<and> su_Unrecoverable summary = 0 \<and> su_ScrubFailed summary = 0 \<and> su_Issues summary = [] \<and>
    su_Objects summary = card (dom (cat_objects C)) \<and> tracks view ok quiet X D e0 C (run_store rt')"
proof -
  let ?v = "view (st_meta s)" and ?i = "run_id (Suc (rt_nextRunID rt))"
  have t: "ok (st_meta s)" "quiet (st_meta s)" "refs_ok ?v" "fset (mv_buckets ?v) = cat_buckets C" "durable X D e0 ?v (st_engine s) (cat_objects C)"
    using assms(4) by (simp_all add: tracks_def counted_def)
  have m: "mends X D e0 ?v (cat_objects C) {} (s\<lparr>st_engine := e'\<rparr>)"
    using t lost_mendable [OF t(5) assms(5)] by (simp add: mending_def at_view_def same_core_def)
  let ?rt0 = "(setRunTrigger ''manual'' rt)\<lparr>rt_nextRunID := Suc (rt_nextRunID rt)\<rparr>"
  obtain rt1 rt2 t0 where st: "tryMarkStarted ?i ?rt0 = (rt1, Some t0)" and ru: "runOnce E M background ?i [] [] rt1 = (rt2, summary, err)"
    and fi: "rt' = markFinished E t0 ?i [] [] summary err rt2"
    using RunOnceWithScope_result [OF run [unfolded RunOnce_def]] rt(3) by auto
  have "run_store rt1 = s\<lparr>st_engine := e'\<rparr>" "rt_cfg rt1 = rt_cfg rt" using tryMarkStarted_store [OF st] rt(1) by (simp_all add: setRunTrigger_def)
  with m rt(2) have "mends X D e0 ?v (cat_objects C) {} (run_store rt1)" "rg_MaxBatch (rt_cfg rt1) \<le> 0" by simp_all
  note r = run_mends [OF assms(1-3) this ru]
  then have e: "at_view view ok quiet ?v (st_engine (run_store rt2)) (run_store rt2)"
    "mendable X D e0 ?v (cat_objects C) (om_hash ` set (fm_values (mv_objects ?v))) (st_engine (run_store rt2))" by (simp_all add: mending_def)
  have "fset (fmdom (mv_refs ?v)) \<subseteq> om_hash ` set (fm_values (mv_objects ?v))" using refs_used [OF t(3)] by (auto simp: fmlookup_dom_iff)
  then have "durable X D e0 ?v (st_engine (run_store rt2)) (cat_objects C)" by (rule mendable_durable [OF e(2)])
  then have "tracks view ok quiet X D e0 C (run_store rt')" unfolding fi markFinished_store by (rule tracksI [OF e(1) t(3,4)])
  then show ?thesis using r by simp
qed

end

section \<open>Before and after\<close>

text \<open>A history of operations, damage, and one repair run.\<close>

definition damaged_and_repaired :: "('m \<Rightarrow> meta_view) \<Rightarrow> RepairEnv \<Rightarrow> 'm MetadataStore \<Rightarrow> store_op list \<Rightarrow> 'm Store \<Rightarrow> 'm RepairRuntime \<Rightarrow>
    'm RepairRuntime \<Rightarrow> Summary \<Rightarrow> repair_error option \<Rightarrow> bool" where
  "damaged_and_repaired view E M cs s rt rt' summary err \<longleftrightarrow>
     (let s1 = fst (serve_all (ren_X E) M cs s) in
      (\<exists>e. shards_lost (ren_X E) (view (st_meta s1)) (st_engine s1) e \<and> run_store rt = s1\<lparr>st_engine := e\<rparr>) \<and>
      rg_MaxBatch (rt_cfg rt) \<le> 0 \<and> \<not> sta_Running (rt_status rt) \<and> RunOnce E M background rt = (rt', summary, err))"

text \<open>The run reports every object and no failure, and operations after it find the catalogue as operations before the damage left it.\<close>

definition healed :: "RepairEnv \<Rightarrow> 'm MetadataStore \<Rightarrow> catalogue \<Rightarrow> store_op list \<Rightarrow> store_op list \<Rightarrow> 'm Store \<Rightarrow> 'm RepairRuntime \<Rightarrow> Summary \<Rightarrow>
    repair_error option \<Rightarrow> bool" where
  "healed E M C0 cs ds s rt' summary err \<longleftrightarrow> err = None \<and> su_Failed summary = 0 \<and> su_Unrecoverable summary = 0 \<and> su_ScrubFailed summary = 0 \<and>
     su_Issues summary = [] \<and>
     (\<exists>C C'. catalogue_run cs C0 (snd (serve_all (ren_X E) M cs s)) C \<and> su_Objects summary = card (dom (cat_objects C)) \<and>
        catalogue_run ds C (snd (serve_all (ren_X E) M ds (run_store rt'))) C')"

context metadata_listing
begin

lemma history_heals:
  assumes "durable_setting X D e0" "quiet_io X e0" "ren_X E = X" "tracks view ok quiet X D e0 C0 s"
    and "list_all (catalogue_op X D) cs" "list_all (catalogue_op X D) ds" "damaged_and_repaired view E M cs s rt rt' summary err"
  shows "healed E M C0 cs ds s rt' summary err"
proof -
  obtain C where C: "catalogue_run cs C0 (snd (serve_all X M cs s)) C" "tracks view ok quiet X D e0 C (fst (serve_all X M cs s))"
    using serve_all_refines [OF assms(1,2,4,5)] by blast
  obtain e where e: "shards_lost X (view (st_meta (fst (serve_all X M cs s)))) (st_engine (fst (serve_all X M cs s))) e"
    "run_store rt = (fst (serve_all X M cs s))\<lparr>st_engine := e\<rparr>" "rg_MaxBatch (rt_cfg rt) \<le> 0" "\<not> sta_Running (rt_status rt)"
    "RunOnce E M background rt = (rt', summary, err)"
    using assms(3,7) by (auto simp: damaged_and_repaired_def Let_def)
  note h = run_heals [OF assms(1-3) C(2) e]
  then obtain C' where "catalogue_run ds C (snd (serve_all X M ds (run_store rt'))) C'"
    using serve_all_refines [OF assms(1,2) _ assms(6), of C "run_store rt'"] by blast
  then show ?thesis using h C(1) assms(3) by (auto simp: healed_def)
qed

end

text \<open>Losing one file is within what the code tolerates.\<close>

lemma one_file_lost:
  assumes "1 \<le> coder_m (eng_coder e)" "eng_fates e = []"
  shows "shards_lost X v e (e\<lparr>eng_chunks := fmdrop p (eng_chunks e)\<rparr>)"
proof -
  let ?e = "e\<lparr>eng_chunks := fmdrop p (eng_chunks e)\<rparr>"
  have path: "shardPath ?e d h i = shardPath e d h i" for d h i by (simp add: shardPath_def)
  have kept: "held ?e n d h i = held e n d h i" if "shardPath e d h i \<noteq> p" for n d h i
    using that by (cases n) (simp_all add: held_def path)
  have gone: "seen ?e n d h i = Some x \<Longrightarrow> held e n d h i = Some y \<Longrightarrow> x = y" for n d h i x y
    by (cases n) (auto simp: seen_def held_def path split: if_splits)
  show ?thesis
    unfolding shards_lost_def
  proof (intro conjI allI impI)
    fix h r
    let ?lost = "{i. shardPath e (ref_path r) h i = p}"
    obtain j where j: "?lost \<subseteq> {j}" using shardPath_inject [of e "ref_path r" h] by (cases "?lost = {}") auto
    have "finite ?lost" using j by (rule finite_subset) simp
    moreover have "card ?lost \<le> 1" using card_mono [OF _ j] by simp
    ultimately show "\<exists>lost. card lost \<le> coder_m (eng_coder e) \<and> finite lost \<and>
        (\<forall>i < TotalChunks (eng_coder e). \<forall>n. storageNode e (ref_placements r ! i) = Inr n \<longrightarrow>
           (i \<notin> lost \<longrightarrow> held ?e n (ref_path r) h i = held e n (ref_path r) h i) \<and>
           (\<forall>x y. held e n (ref_path r) h i = Some y \<longrightarrow> seen ?e n (ref_path r) h i = Some x \<longrightarrow> HashBytes X x = HashBytes X y \<longrightarrow> x = y))"
      using assms(1) kept gone by (intro exI [of _ ?lost]) auto
  qed (use assms(2) in simp_all)
qed

end
