(* ===== verification/Spec2Isabelle.thy ===== *)
theory Spec2Isabelle
  imports Go_Prelude Bytes_Range Model Raft_State_Machine Metadata_Interface InMemory_Metadata
    Raft_Metadata Erasure_Coder Storage_Nodes Shard_Engine Engine_Objects Engine_Maintenance
    Store_Monad Object_Store Store_Calls Store_Put Store_RefCounts
    Engine_Frames Store_Durability Store_Refinement
    Metadata_Listing Store_Recovery Recovery_Safety Interrupted_Write
    Store_Dedupe Dedupe_Safety Dedupe_Counts Dedupe_Run Dedupe_Both
    Go_HTTP Go_Base64 Go_Hex Go_SHA256 S3_MD5 S3_Listing S3_Multipart Multipart_Uploads S3_Auth
    Object_Service S3_Gateway Gateway_Refinement
    Repair_Service Repair_Bookkeeping Repair_History Repair_Healing Repair_Run
begin

text \<open>
  MaxIO is an S3-compatible object store. A write goes through five layers, and the development follows them from
  the bottom up.

  \<^item> The \<^emph>\<open>metadata\<close> service holds buckets, committed and staged objects and the reference counts of blobs. It is an
    interface (\<open>internal/metadata/kv.go\<close>) with an in-memory implementation and one over a replicated state machine
    (\<open>internal/raft\<close>).
  \<^item> The \<^emph>\<open>engine\<close> (\<open>internal/engine\<close>) cuts an object's bytes into erasure-coded shards, places them on storage nodes and
    keeps a layout file per object. It repairs, moves and removes shards.
  \<^item> The \<^emph>\<open>store\<close> (\<open>internal/store\<close>) ties the two together: a write stages its metadata with a write intent, prepares the
    blob, links the layout, retains the blob, commits and releases the blob it replaced; failures roll back and crashes are
    repaired by recovery.
  \<^item> The \<^emph>\<open>object service\<close> (\<open>object/service.go\<close>) adds events, and the \<^emph>\<open>S3 gateway\<close> (\<open>internal/s3\<close>) answers HTTP requests over it.
    The \<^emph>\<open>repair service\<close> (\<open>internal/repair\<close>) checks and repairs all objects in the background.

  \<^bold>\<open>Theories.\<close>

  \<^item> \<open>Go_Prelude\<close>: bytes, strings, maps and times of Go, with the lemmas all components share. \<open>Model\<close>: the records
    of \<open>internal/model\<close>.
  \<^item> \<open>Bytes_Range\<close>: \<open>internal/bytesrange\<close> and the ranged responses of \<open>internal/s3/range.go\<close>. Parsed ranges stay within the
    object, printing and parsing are inverse, a response carries the bytes it announces.
  \<^item> \<open>Metadata_Interface\<close>, \<open>Metadata_Listing\<close>: the interface as a record of methods, and its contract as the locales
    \<open>metadata_store\<close> and \<open>metadata_listing\<close>: every method refines an operation on a \<open>meta_view\<close>. \<open>InMemory_Metadata\<close> interprets
    them on \<open>InMemoryMetadata\<close>. \<open>Raft_State_Machine\<close> is the replicated machine with its well-formedness invariant and snapshots;
    \<open>Raft_Metadata\<close> puts \<open>RaftMetadata\<close> on top, for every consensus library that satisfies the locale \<open>raft_node\<close>, which is then
    a sublocale of both contracts.
  \<^item> \<open>Erasure_Coder\<close>: \<open>coder.go\<close> over a Reed-Solomon library (locale \<open>erasure_scheme\<close>). \<open>Storage_Nodes\<close>: the node table and the
    placement of shards. \<open>Shard_Engine\<close>, \<open>Engine_Objects\<close>, \<open>Engine_Maintenance\<close>: files, layouts, blobs, reading, health,
    scrubbing, repair, moving shards and removing orphans. Writes and deletions of files succeed, fail, or fail half done, as a
    schedule in the state says. \<open>Engine_Frames\<close>: what an operation leaves alone.
  \<^item> \<open>Store_Monad\<close>, \<open>Object_Store\<close>: the methods of the store, whole, as actions on the state. \<open>Store_Calls\<close> and \<open>Store_Put\<close> give
    weakest-precondition rules for each step, inside the contract of the metadata service. \<open>Store_RefCounts\<close> shows the invariant
    on reference counts, \<open>Store_Durability\<close> and \<open>Store_Refinement\<close> that the store is a catalogue of bytes.
  \<^item> \<open>Store_Recovery\<close>, \<open>Recovery_Safety\<close>, \<open>Interrupted_Write\<close>: rolling back pending writes and removing orphan shard sets, and
    that a write which stops at its last stage is undone.
  \<^item> \<open>Store_Dedupe\<close>: the reconciliation of reference counts and layouts. \<open>Dedupe_Safety\<close>, \<open>Dedupe_Counts\<close>, \<open>Dedupe_Run\<close>,
    \<open>Dedupe_Both\<close>: it stays within its limits, ends, loses nothing and repairs the counts.
  \<^item> \<open>Go_HTTP\<close>, \<open>Go_Base64\<close>, \<open>Go_Hex\<close>, \<open>Go_SHA256\<close>: the parts of Go's standard library the gateway uses. \<open>S3_MD5\<close>: the streaming
    digest of \<open>md5_digest.go\<close>, equal to the MD5 of RFC 1321. \<open>S3_Listing\<close>: \<open>list.go\<close>; following the continuation tokens lists
    every object once. \<open>S3_Multipart\<close>, \<open>Multipart_Uploads\<close>: the store of multipart uploads and its refinement of an abstract map of
    uploads, on a file system that may fail at every call. \<open>S3_Auth\<close>: signature version 4; the canonical query determines the parameters
    and a presigned request is accepted only in its window. \<open>Object_Service\<close>: \<open>object/service.go\<close>. \<open>S3_Gateway\<close>: routing and
    handlers of \<open>internal/s3\<close>. \<open>Gateway_Refinement\<close>: what a request may do to the buckets, objects and uploads and what it answers, and
    that the gateway with everything behind it keeps to this.
  \<^item> \<open>Repair_Service\<close>: the repair service (\<open>internal/repair\<close>) over the object service. \<open>Repair_Bookkeeping\<close>: the counts of a run.
    \<open>Repair_History\<close>: status, history and issues under concurrent runs, as a step relation. \<open>Repair_Healing\<close> and \<open>Repair_Run\<close>: a store
    that has lost shards, weaker than the relation of \<open>Store_Durability\<close>, and that a run brings it back.

  This theory holds the properties that span the metadata stores, the engine and the store.

  \<^bold>\<open>Conventions.\<close> Methods are functions on explicit state; an error is the left case of a sum, and what \<open>errors.Is\<close> sees of it is
  kept. Clocks, file fates, transport failures and everything outside the repository (hash function, Reed-Solomon library,
  consensus library, URL parsing) are parameters, so the theorems hold for all of them under the laws their
  locales and predicates name; each law is discharged for a concrete instance (XOR parity, a single replica, a digest of letters).
  Mutexes make methods atomic, so that a history is a sequence of method calls.

  \<^bold>\<open>Bounds and fuel.\<close> All recursion is structural or has a measure except for loops that ask a service until it answers; these
  carry fuel, and the theorem about the loop says how much is enough. Go's 64-bit integers are unbounded here where the values are sizes, counts and
  times that stay far below the bound, and are checked against it where input is parsed.

  \<^bold>\<open>Not modelled.\<close> Logging; contexts outside the repair service (a cancelled context is one more failing call); the text of error messages;
  JSON and XML encodings, taken to be lossless; the listing of directories that fails half way; the wiring of the
  application, HTTP servers, schedulers, the search index and discovery, which call third-party libraries; the load
  generator \<open>internal/s3bench\<close>.
\<close>

section \<open>The two metadata stores\<close>

definition empty_view :: meta_view where
  "empty_view = \<lparr>mv_buckets = {||}, mv_objects = fmempty, mv_staged = fmempty, mv_refs = fmempty\<rparr>"

definition fresh_replica :: replica where
  "fresh_replica = \<lparr>rep_sm = newRaftStateMachine, rep_fates = []\<rparr>"

lemma im_view_start: "im_view NewInMemoryMetadata = empty_view"
  by (simp add: im_view_def NewInMemoryMetadata_def empty_view_def)

lemma sm_view_start: "sm_view newRaftStateMachine = empty_view" "sm_ok newRaftStateMachine"
  by (simp_all add: sm_view_def newRaftStateMachine_def empty_view_def sm_ok_def sm_wf_def)


definition demo_calls :: "meta_call list" where
  "demo_calls =
     [CallCreateBucket 5 ''b'', CallUpsertObjectMeta demo_object, CallCreateBlobRef ''h'' ''p'' 3 [] [] [],
      CallListObjectMetas ''b'' [], CallDecreaseBlobRef ''h'', CallGetBlobRef ''h'']"


text \<open>Outside those calls the stores differ: creating a reference that exists leaves the in-memory
  count alone and raises the replicated one; releasing a reference that does not exist is an error
  in memory and succeeds in the replicated store.\<close>

lemma create_blob_ref_twice_differs:
  "snd (run_calls inMemoryStore NewInMemoryMetadata
     [CallCreateBlobRef ''h'' ''p'' 3 [] [] [], CallCreateBlobRef ''h'' ''p'' 3 [] [] [], CallGetBlobRef ''h'']) \<noteq>
   snd (run_calls (raftStore replica_node) fresh_replica
     [CallCreateBlobRef ''h'' ''p'' 3 [] [] [], CallCreateBlobRef ''h'' ''p'' 3 [] [] [], CallGetBlobRef ''h''])"
  by code_simp

lemma release_missing_differs:
  "snd (run_calls inMemoryStore NewInMemoryMetadata [CallDecreaseBlobRef ''h'']) \<noteq>
   snd (run_calls (raftStore replica_node) fresh_replica [CallDecreaseBlobRef ''h''])"
  by code_simp

section \<open>Reference counts over both metadata stores\<close>

lemma refs_ok_empty: "refs_ok empty_view"
  by (simp add: refs_ok_def balanced_def empty_view_def ref_of_def uses_def fm_values_def fm_entries_def fm_keys_def
      sorted_list_of_fset.rep_eq)

context raft_node
begin

lemma raft_store_kept:
  assumes "store_reachable X (raftStore N) s0 s" "sm_ok (sm (st_meta s0))" "calm (st_meta s0)"
    and "refs_ok (sm_view (sm (st_meta s0)))" "hash_clean X"
  shows "refs_ok (sm_view (sm (st_meta s)))"
  using store_reachable_kept [OF assms(1) _ assms(5)] assms(2-4) by (simp add: counted_def)

end


definition demo_store :: "InMemoryMetadata Store" where
  "demo_store = \<lparr>st_meta = NewInMemoryMetadata, st_engine = demo_engine,
     st_recovery = \<lparr>rs_LastResult = \<lparr>rv_StartedAt = 0, rv_FinishedAt = 0, rv_PendingRemoved = 0, rv_PendingActions = fmempty,
         rv_OrphanShardCleanup = \<lparr>oc_Scanned = 0, oc_Removed = 0, oc_Orphans = []\<rparr>, rv_DryRun = False\<rparr>,
       rs_LastError = None, rs_Completed = False\<rparr>,
     st_clock = (\<lambda>n. 62135596800000000000 + int n), st_tick = 5\<rparr>"

definition demo_opts :: PutOptions where
  "demo_opts = \<lparr>po_ContentType = [], po_CacheControl = [], po_ContentDisposition = [], po_ContentEncoding = [],
     po_ContentLanguage = [], po_UserMetadata = fmempty\<rparr>"

text \<open>The same bytes under two keys, one of which is deleted: one use is left.\<close>

definition demo_history :: "InMemoryMetadata Store" where
  "demo_history =
     exec_op demo_X inMemoryStore (OpDeleteObject ''b'' ''one'')
       (exec_op demo_X inMemoryStore (OpPutObject ''b'' ''two'' (Inr ''abc'') demo_opts)
         (exec_op demo_X inMemoryStore (OpPutObject ''b'' ''one'' (Inr ''abc'') demo_opts)
           (exec_op demo_X inMemoryStore (OpCreateBucket ''b'') demo_store)))"

lemma demo_op_ok: "op_ok (OpCreateBucket ''b'')" "op_ok (OpPutObject ''b'' ''one'' (Inr ''abc'') demo_opts)"
  "op_ok (OpPutObject ''b'' ''two'' (Inr ''abc'') demo_opts)" "op_ok (OpDeleteObject ''b'' ''one'')"
  by code_simp+

lemma demo_history_reachable: "store_reachable demo_X inMemoryStore demo_store demo_history"
  unfolding demo_history_def by (intro store_reachable.intros demo_op_ok)


section \<open>The store as a catalogue\<close>

definition empty_catalogue :: catalogue where
  "empty_catalogue = \<lparr>cat_buckets = {}, cat_objects = Map.empty\<rparr>"

lemma durable_empty: "durable X D e empty_view e (cat_objects empty_catalogue)"
  by (simp add: durable_def empty_view_def empty_catalogue_def same_conf_def)

context raft_node
begin

lemma raft_store_refines:
  assumes "durable_setting X D e0" "quiet_io X e0" "tracks (sm_view \<circ> sm) (sm_ok \<circ> sm) calm X D e0 C s"
    and "list_all (catalogue_op X D) cs"
  shows "\<exists>C'. catalogue_run cs C (snd (serve_all X (raftStore N) cs s)) C'"
  using serve_all_refines [OF assms] by blast

end


text \<open>A digest of 64 letters.\<close>

definition demo_digest :: "bytes \<Rightarrow> string" where
  "demo_digest d = take 64 (map (\<lambda>c. if c \<in> set ''abcdefghijklmnopqrstuvwxy'' then c else CHR ''z'') d @ replicate 64 CHR ''z'')"

definition demo_Y :: Externals where
  "demo_Y = demo_X\<lparr>HashBytes := demo_digest\<rparr>"

lemma demo_digest_letters: "set (demo_digest d) \<subseteq> set ''abcdefghijklmnopqrstuvwxyz''" "length (demo_digest d) = 64"
  by (auto simp: demo_digest_def dest!: in_set_takeD)

lemma letters_plain:
  assumes "set s \<subseteq> set ''abcdefghijklmnopqrstuvwxyz''" "s \<noteq> []"
  shows "plain_name s"
proof -
  have c: "plain_char c" if "c \<in> set s" for c using that assms(1) by (auto simp: plain_char_def)
  have "trim_space s = s" using trim_space_plain [OF assms(2)] c assms(2) by simp
  moreover have "CHR ''/'' \<notin> set s" "CHR 0x00 \<notin> set s" "CHR ''.'' \<notin> set s" using assms(1) by auto
  ultimately show ?thesis using assms(2) by (auto simp: plain_name_def)
qed

lemma demo_digest_names: "digest_names demo_Y"
proof -
  have h: "HashBytes demo_Y = demo_digest" by (simp add: demo_Y_def)
  have "demo_digest d \<noteq> []" "take 32 (demo_digest d) \<noteq> []" "length (take 32 (demo_digest d)) = 32" for d
    using demo_digest_letters(2) [of d] by auto
  moreover have "set (take 32 (demo_digest d)) \<subseteq> set ''abcdefghijklmnopqrstuvwxyz''" for d
    using demo_digest_letters(1) [of d] set_take_subset [of 32 "demo_digest d"] by blast
  moreover have "take 32 (demo_digest k) \<noteq> demo_digest d" for k d
    using demo_digest_letters(2) [of d] demo_digest_letters(2) [of k] by (auto dest: arg_cong [of _ _ length])
  ultimately show ?thesis
    unfolding digest_names_def h layoutHash_def using letters_plain demo_digest_letters(1) by blast
qed

lemma demo_setting: "durable_setting demo_Y {''abc'', ''xyz''} demo_engine" "quiet_io demo_Y demo_engine"
proof -
  have "erasure_scheme (coder_k (eng_coder demo_engine)) (coder_m (eng_coder demo_engine)) (coder_scheme (eng_coder demo_engine))"
    using xor21.erasure_scheme_axioms by (simp add: demo_engine_def xor_coder_def)
  moreover have "demo_digest ''abc'' \<noteq> demo_digest ''xyz''" by code_simp
  ultimately show "durable_setting demo_Y {''abc'', ''xyz''} demo_engine"
    using demo_digest_names by (auto simp: durable_setting_def demo_Y_def inj_on_def demo_engine_def xor_coder_def)
  show "quiet_io demo_Y demo_engine" by (simp add: quiet_io_def demo_Y_def demo_X_def demo_engine_def)
qed

definition demo_ops :: "store_op list" where
  "demo_ops = [OpCreateBucket ''b'', OpPutObject ''b'' ''one'' (Inr ''abc'') demo_opts,
     OpPutObject ''b'' ''one'' (Inr ''xyz'') demo_opts, OpGetObject ''b'' ''one'', OpListObjects ''b'' ''o'',
     OpDeleteObject ''b'' ''one'', OpGetObject ''b'' ''one'']"


section \<open>The gateway\<close>

context raft_node
begin

lemma raft_gateway_runs:
  assumes "durable_setting X D e0" "quiet_io X e0" "gw_tracks (sm_view \<circ> sm) (sm_ok \<circ> sm) calm X D e0 S g"
    and "all_admissible X D F (raftStore N) cfg qs g"
  shows "\<exists>S'. s3_run X F cfg qs S (snd (gw_serve_all X F (raftStore N) cfg qs g)) S'"
  using rml.gateway_runs [OF assms] by blast

end


definition demo_request :: "string \<Rightarrow> string \<Rightarrow> (string \<times> string) list \<Rightarrow> bytes \<Rightarrow> Moment \<times> Request" where
  "demo_request meth path headers body = (\<lparr>mo_now = 5, mo_random = None\<rparr>, \<lparr>rq_Method = meth, rq_Path = path, rq_EscapedPath = path,
     rq_Query = fmempty, rq_Header = fmap_of_list (map (\<lambda>(k, v). (k, [v])) headers), rq_Host = ''h'', rq_Body = Inr body\<rparr>)"

definition demo_requests :: "(Moment \<times> Request) list" where
  "demo_requests = [demo_request ''PUT'' ''/b'' [] [], demo_request ''PUT'' ''/b/one'' [] ''abc'',
     demo_request ''GET'' ''/s3/b/one'' [(''Range'', ''bytes=1-'')] [],
     demo_request ''DELETE'' ''/b/one'' [] [], demo_request ''GET'' ''/b/one'' [] []]"

definition demo_formats :: Formats where
  "demo_formats = \<lparr>fx_complete = (\<lambda>_. None), fx_delete = (\<lambda>_. None), fx_url_path = Some\<rparr>"

definition demo_open :: s3_config where
  "demo_open = \<lparr>sc_S3AccessKey = [], sc_S3SecretKey = [], sc_S3Region = []\<rparr>"

definition demo_gateway :: "InMemoryMetadata Gateway" where
  "demo_gateway = \<lparr>gw_objects = \<lparr>os_store = demo_store, os_bus = True, os_events = []\<rparr>,
     gw_multipart = \<lparr>mp_dirs = fmempty, mp_fates = []\<rparr>\<rparr>"

lemma demo_responses:
  "map (\<lambda>resp. (rs_status resp, rs_body resp)) (snd (gw_serve_all demo_Y demo_formats inMemoryStore demo_open demo_requests demo_gateway)) =
   [(200, NoDocument), (200, NoDocument), (206, ObjectBytes ''bc''), (204, NoDocument), (404, ErrorResult ''NoSuchKey'')]"
  by code_simp

lemma demo_admissible: "all_admissible demo_Y {''abc'', ''xyz''} demo_formats inMemoryStore demo_open demo_requests demo_gateway"
  by code_simp


section \<open>Repair\<close>

context raft_node
begin

lemma raft_heals:
  assumes "durable_setting X D e0" "quiet_io X e0" "ren_X E = X" "tracks (sm_view \<circ> sm) (sm_ok \<circ> sm) calm X D e0 C0 s"
    and "list_all (catalogue_op X D) cs" "list_all (catalogue_op X D) ds" "damaged_and_repaired (sm_view \<circ> sm) E (raftStore N) cs s rt rt' summary err"
  shows "healed E (raftStore N) C0 cs ds s rt' summary err"
  by (rule rml.history_heals [OF assms])

end


text \<open>An object loses a shard, a run repairs it, and another shard is lost.\<close>

definition demo_repair_env :: RepairEnv where
  "demo_repair_env = \<lparr>ren_X = demo_Y, ren_floats = \<lparr>fl_below_one = (\<lambda>_. True), fl_scaled = (\<lambda>b _ _. b)\<rparr>, ren_text = (\<lambda>_. ''error'')\<rparr>"

definition demo_repair_cfg :: repair_config where
  "demo_repair_cfg = \<lparr>rg_MaxBatch = 0, rg_MaxRetries = 2, rg_RateLimit = 10, rg_RetryBackoff = 0, rg_RetryMaxBackoff = 0, rg_RetryMultiplier = 0\<rparr>"

definition demo_writes :: "store_op list" where
  "demo_writes = [OpCreateBucket ''b'', OpPutObject ''b'' ''one'' (Inr ''abc'') demo_opts]"

definition demo_written :: "InMemoryMetadata Store" where
  "demo_written = fst (serve_all demo_Y inMemoryStore demo_writes demo_store)"

definition lose_shard :: "string \<Rightarrow> nat \<Rightarrow> Engine \<Rightarrow> Engine" where
  "lose_shard h i e = e\<lparr>eng_chunks := fmdrop (shardPath e ''on'' h i) (eng_chunks e)\<rparr>"

definition demo_damaged :: "InMemoryMetadata Store \<Rightarrow> InMemoryMetadata RepairRuntime" where
  "demo_damaged s = NewRuntime demo_repair_cfg
     \<lparr>os_store = s\<lparr>st_engine := lose_shard (demo_digest ''abc'') 0 (st_engine s)\<rparr>, os_bus = False, os_events = []\<rparr> 5 []"

definition demo_repaired :: "InMemoryMetadata RepairRuntime \<times> Summary \<times> repair_error option" where
  "demo_repaired = RunOnce demo_repair_env inMemoryStore background (demo_damaged demo_written)"


lemma demo_written_facts: "(eng_fates (st_engine demo_written), coder_m (eng_coder (st_engine demo_written)),
    fmlookup (eng_chunks (st_engine demo_written)) (shardPath (st_engine demo_written) ''on'' (demo_digest ''abc'') 0) \<noteq> None) = ([], 1, True)"
  by code_simp

definition demo_reads :: "store_op list" where
  "demo_reads = [OpGetObject ''b'' ''one'', OpListObjects ''b'' []]"


text \<open>C30: the books of the repair service. However concurrent runs interleave their critical sections, at most one run is active and the status
  says so, the reported progress is that of this run, run IDs are never reused, the history keeps the last 20 runs at most, with their counts
  in order, and issues are kept for exactly the runs in the history, 50 at most and as many as their record says. A call of
  \<open>RunOnceWithScope\<close> is a sequence of such sections.\<close>

theorem repair_runs_keep_books:
  assumes "repair_steps E (NewRuntime cfg objects now delays, [], []) (rt, p, a)"
  shows "books_kept (rt, p, a) \<and> repair_steps E (rt, p, a) (fst (RunOnceWithScope E M ctx bucket prefix rt), p, a)"
proof -
  have k: "books_kept (rt, p, a)" by (rule repair_steps_kept [OF assms books_kept_initial])
  obtain rt' s err where "RunOnceWithScope E M ctx bucket prefix rt = (rt', s, err)" by (metis prod_cases3)
  with k show ?thesis using RunOnceWithScope_steps [OF k] by simp
qed

theorem repair_runs_keep_books_witness:
  "books_kept (fst demo_repaired, [], []) \<and> sta_Running (rt_status (fst demo_repaired)) = False"
proof -
  obtain rt summary err where r: "RunOnceWithScope demo_repair_env inMemoryStore background [] [] (demo_damaged demo_written) = (rt, summary, err)"
    by (metis prod_cases3)
  have start: "books_kept (demo_damaged demo_written, [], [])" unfolding demo_damaged_def by (rule books_kept_initial)
  have "repair_steps demo_repair_env (demo_damaged demo_written, [], []) (rt, [], [])" by (rule RunOnceWithScope_steps [OF start r])
  then have "books_kept (rt, [], [])" unfolding demo_damaged_def using repair_runs_keep_books by blast
  moreover from this have "\<not> sta_Running (rt_status rt)" by (auto simp: books_kept_def status_kept_def)
  ultimately show ?thesis using r by (simp add: demo_repaired_def RunOnce_def)
qed

text \<open>C31: what a repair run reports. A run is refused while another one is in progress, and then nothing changes but the trigger and the next ID.
  Otherwise it becomes the newest entry of the history, under a new ID, with its summary and its issues. The counts of the summary bound each
  other and stay within the configuration: no more objects are repaired or throttled than attempted, retries are at most \<open>MaxRetries\<close> for each
  attempt, attempts stay within the batch limit, and the run says that it was limited only when the limit is reached. Without an error every
  object visited is scrubbed, attempted, unrecoverable or failed.\<close>

theorem repair_run_reported:
  "case RunOnceWithScope E M ctx bucket prefix rt of (rt', summary, err) \<Rightarrow>
     if sta_Running (rt_status rt)
     then err = Some ErrRepairAlreadyRunning \<and> rt_status rt' = rt_status rt \<and> rt_history rt' = rt_history rt \<and> rt_issues rt' = rt_issues rt \<and>
       rt_objects rt' = rt_objects rt
     else run_recorded E (trim_space bucket) (trim_space prefix) rt rt' summary err \<and> accounted (rt_cfg rt) summary \<and>
       (case err of None \<Rightarrow> all_settled summary | Some _ \<Rightarrow> True)"
proof -
  obtain rt' summary err where r: "RunOnceWithScope E M ctx bucket prefix rt = (rt', summary, err)" by (metis prod_cases3)
  show ?thesis
    using RunOnceWithScope_result [OF r] RunOnceWithScope_recorded [OF r] by (cases err) (auto simp: r setRunTrigger_def)
qed

section \<open>Recovery\<close>

text \<open>Stopping and recovering, for one metadata store: the hypotheses of the next property.\<close>

definition stopped_and_recovered :: "('m \<Rightarrow> meta_view) \<Rightarrow> Externals \<Rightarrow> 'm MetadataStore \<Rightarrow> string \<Rightarrow> string \<Rightarrow> bytes \<Rightarrow> PutOptions \<Rightarrow>
    RecoveryOptions \<Rightarrow> 'm Store \<Rightarrow> 'm Store \<Rightarrow> 'm Store \<Rightarrow> 'm Store \<Rightarrow> bool" where
  "stopped_and_recovered view X M b k data opts ropts s s1 s2 s3 \<longleftrightarrow>
     refs_ok (view (st_meta s)) \<and> mv_staged (view (st_meta s)) = fmempty \<and>
     (\<exists>p. put_prepare X M b k (Inr data) opts s = (s1, Inr p)) \<and>
     st_meta s2 = st_meta s1 \<and> 0 < ro_PendingTTL ropts \<and>
     (\<forall>t. list_all (\<lambda>x. isExpiredPendingObject x (st_clock s2 t - ro_PendingTTL ropts)) (fm_values (mv_staged (view (st_meta s2))))) \<and>
     (\<exists>result. Recover X M ropts s2 = (s3, Inr (result, None)))"

definition undone :: "meta_view \<Rightarrow> meta_view \<Rightarrow> bool" where
  "undone v v' \<longleftrightarrow> mv_objects v' = mv_objects v \<and> mv_buckets v' = mv_buckets v \<and> mv_staged v' = fmempty \<and> refs_ok v'"

context raft_node
begin

lemma raft_interrupted:
  assumes "hash_clean X" "clean_bucket b" "clean_name k" "sm_ok (sm (st_meta s))" "calm (st_meta s)"
    and "stopped_and_recovered (sm_view \<circ> sm) X (raftStore N) b k data opts ropts s s1 s2 s3"
  shows "undone (sm_view (sm (st_meta s))) (sm_view (sm (st_meta s3)))"
  using rml.interrupted_then_recovered [of s X b k data opts s1 _ s2 ropts s3] assms
  by (auto simp: stopped_and_recovered_def undone_def list_all_iff)

end

text \<open>C5: a write is undone when the process dies after the write has recorded that it retained its blob, the last
  point before it commits: a recovery in a later process, with any engine and any clock by which the pending write has
  expired, that reports no error leaves every bucket and every committed object as before the write, nothing pending,
  and every reference count equal to the number of objects that use the blob. This holds over both metadata stores.\<close>

theorem interrupted_write_undone:
  assumes "hash_clean X" "clean_bucket b" "clean_name k"
  shows "(im_ok (st_meta s) \<longrightarrow> stopped_and_recovered im_view X inMemoryStore b k data opts ropts s s1 s2 s3 \<longrightarrow>
      undone (im_view (st_meta s)) (im_view (st_meta s3))) \<and>
    (raft_node N sm calm \<longrightarrow> sm_ok (sm (st_meta r)) \<longrightarrow> calm (st_meta r) \<longrightarrow>
      stopped_and_recovered (sm_view \<circ> sm) X (raftStore N) b k data opts ropts r r1 r2 r3 \<longrightarrow>
      undone (sm_view (sm (st_meta r))) (sm_view (sm (st_meta r3))))"
proof (intro conjI impI)
  assume "im_ok (st_meta s)" "stopped_and_recovered im_view X inMemoryStore b k data opts ropts s s1 s2 s3"
  then show "undone (im_view (st_meta s)) (im_view (st_meta s3))"
    using iml.interrupted_then_recovered [of s X b k data opts s1 _ s2 ropts s3] assms
    by (auto simp: stopped_and_recovered_def undone_def list_all_iff)
next
  assume r: "raft_node N sm calm" "sm_ok (sm (st_meta r))" "calm (st_meta r)"
    "stopped_and_recovered (sm_view \<circ> sm) X (raftStore N) b k data opts ropts r r1 r2 r3"
  show "undone (sm_view (sm (st_meta r))) (sm_view (sm (st_meta r3)))"
    by (rule raft_node.raft_interrupted [OF r(1) assms r(2-4)])
qed

text \<open>An overwrite that stops, a restart an hour later with an empty cache, and a recovery.\<close>

definition demo_before :: "InMemoryMetadata Store" where
  "demo_before = exec_op demo_X inMemoryStore (OpPutObject ''b'' ''one'' (Inr ''abc'') demo_opts)
     (exec_op demo_X inMemoryStore (OpCreateBucket ''b'') demo_store)"

definition demo_stopped :: "InMemoryMetadata Store \<times> (store_error + put_progress)" where
  "demo_stopped = put_prepare demo_X inMemoryStore ''b'' ''one'' (Inr ''xyz'') demo_opts demo_before"

text \<open>Dedupe counts committed objects only: a run while a write is pending releases the blob the write has retained.\<close>

definition new_write_stopped :: "InMemoryMetadata Store" where
  "new_write_stopped = fst (put_prepare demo_X inMemoryStore ''b'' ''two'' (Inr ''xyz'') demo_opts demo_before)"

lemma dedupe_releases_pending_blob:
  "ref_of (im_view (st_meta new_write_stopped)) (HashBytes demo_X ''xyz'') = 1"
  "ref_of (im_view (st_meta (fst (Dedupe 3 demo_X inMemoryStore demo_dedupe new_write_stopped)))) (HashBytes demo_X ''xyz'') = 0"
  by code_simp+

definition demo_restarted :: "InMemoryMetadata Store" where
  "demo_restarted = (fst demo_stopped)\<lparr>st_engine := (st_engine (fst demo_stopped))\<lparr>eng_cache := fmempty\<rparr>,
     st_clock := (\<lambda>_. 62135600400000000000)\<rparr>"

definition demo_recovery :: RecoveryOptions where
  "demo_recovery = \<lparr>ro_PendingTTL = 60000000000, ro_CleanupOrphanShards = True, ro_DryRun = False\<rparr>"

definition demo_recovered :: "InMemoryMetadata Store \<times> (store_error + RecoveryResult \<times> store_error option)" where
  "demo_recovered = Recover demo_X inMemoryStore demo_recovery demo_restarted"

lemma fm_values_empty: "fm_values m = [] \<Longrightarrow> m = fmempty"
  by (metis empty_iff fm_values_iff fmap_ext fmempty_lookup list.set(1) option.exhaust)

lemma completed: "(case snd r of Inr (_, None) \<Rightarrow> True | _ \<Rightarrow> False) \<Longrightarrow> \<exists>x. r = (fst r, Inr (x, None))"
  by (cases r) (auto split: sum.splits prod.splits option.splits)

theorem interrupted_write_undone_witness:
  "undone (im_view (st_meta demo_before)) (im_view (st_meta (fst demo_recovered)))"
proof -
  have kept: "counted im_view im_ok (\<lambda>_. True) demo_before"
    unfolding demo_before_def
    by (intro im.exec_op_keeps demo_hash_clean demo_op_ok)
       (simp add: counted_def demo_store_def NewInMemoryMetadata_ok im_view_start refs_ok_empty)
  have staged: "mv_staged (im_view (st_meta demo_before)) = fmempty" by (rule fm_values_empty) code_simp
  have stop: "case snd demo_stopped of Inr _ \<Rightarrow> True | Inl _ \<Rightarrow> False" by code_simp
  have recovered: "case snd demo_recovered of Inr (_, None) \<Rightarrow> True | _ \<Rightarrow> False" by code_simp
  have exp: "list_all (\<lambda>x. isExpiredPendingObject x (62135600400000000000 - 60000000000)) (fm_values (mv_staged (im_view (st_meta demo_restarted))))"
    by code_simp
  have "stopped_and_recovered im_view demo_X inMemoryStore ''b'' ''one'' ''xyz'' demo_opts demo_recovery demo_before
      (fst demo_stopped) demo_restarted (fst demo_recovered)"
    unfolding stopped_and_recovered_def
  proof (intro conjI)
    show "\<exists>p. put_prepare demo_X inMemoryStore ''b'' ''one'' (Inr ''xyz'') demo_opts demo_before = (fst demo_stopped, Inr p)"
      using stop unfolding demo_stopped_def [symmetric] by (metis prod.collapse sum.case(1) sum.exhaust)
    show "\<exists>result. Recover demo_X inMemoryStore demo_recovery demo_restarted = (fst demo_recovered, Inr (result, None))"
      using completed [OF recovered] unfolding demo_recovered_def [symmetric] .
  qed (use kept staged exp in \<open>simp_all add: counted_def demo_restarted_def demo_recovery_def\<close>)
  moreover have "im_ok (st_meta demo_before)" using kept by (simp add: counted_def)
  ultimately show ?thesis
    using interrupted_write_undone [OF demo_hash_clean, of "''b''" "''one''" demo_before "''xyz''" demo_opts demo_recovery "fst demo_stopped"
        demo_restarted "fst demo_recovered" replica_node rep_sm replica_calm] demo_op_ok(2)
    by (simp add: op_ok_def)
qed

end
